(* ===== verification/Wire_Prelude.thy ===== *)
theory Wire_Prelude
  imports Main "HOL-Library.Word" "HOL-Library.Monad_Syntax"
begin

text \<open>
  What the components share: the machine integers of the wire format, their
  native-endian byte images, integer alignment, the decimal and hexadecimal text of
  integers as Rust prints and reads them, and two interfaces used all over the
  library.  \<open>wire_codec\<close> is the contract of a fixed-width encoding (encode, then
  decode any longer buffer); \<open>byte_iter\<close> is the contract of an iterator that
  consumes its input, from which every collecting loop of the library gets its
  unfolding equation without any fuel left in the statement.
\<close>

unbundle bit_operations_syntax

named_theorems wire_simps \<open>evaluation rules of byte images\<close>
named_theorems iter_simps \<open>unfolding rules of the collecting loops\<close>

section \<open>Types\<close>

type_synonym u8 = "8 word"
type_synonym u16 = "16 word"
type_synonym u32 = "32 word"
type_synonym u64 = "64 word"
type_synonym u128 = "128 word"
type_synonym usize = "64 word"
type_synonym bytes = "u8 list"

text \<open>
  The byte order of the target.  The library writes and reads \<open>to_ne_bytes\<close> and
  \<open>from_ne_bytes\<close>, so every model that touches the wire takes the order as an
  argument and its theorems hold for little-endian and big-endian hosts alike.
\<close>

datatype endian = LittleEndian | BigEndian

lemma unat_of_nat_id: "n < 2 ^ LENGTH('a) \<Longrightarrow> unat (of_nat n :: 'a::len word) = n"
  by (simp add: unat_of_nat)

lemma find_hit: "find P xs = Some x \<Longrightarrow> x \<in> set xs \<and> P x"
  by (induction xs) (auto split: if_splits)

section \<open>Byte images of words\<close>

fun le_bytes :: "nat \<Rightarrow> 'a::len word \<Rightarrow> bytes" where
  "le_bytes 0 x = []"
| "le_bytes (Suc n) x = ucast x # le_bytes n (drop_bit 8 x)"

fun le_word :: "bytes \<Rightarrow> 'a::len word" where
  "le_word [] = 0"
| "le_word (b # bs) = ucast b OR push_bit 8 (le_word bs)"

definition ne_bytes :: "endian \<Rightarrow> nat \<Rightarrow> 'a::len word \<Rightarrow> bytes" where
  "ne_bytes e n x = (case e of LittleEndian \<Rightarrow> le_bytes n x | BigEndian \<Rightarrow> rev (le_bytes n x))"

definition ne_word :: "endian \<Rightarrow> bytes \<Rightarrow> 'a::len word" where
  "ne_word e bs = (case e of LittleEndian \<Rightarrow> le_word bs | BigEndian \<Rightarrow> le_word (rev bs))"

abbreviation be_bytes :: "nat \<Rightarrow> 'a::len word \<Rightarrow> bytes" where
  "be_bytes \<equiv> ne_bytes BigEndian"

abbreviation be_word :: "bytes \<Rightarrow> 'a::len word" where
  "be_word \<equiv> ne_word BigEndian"

lemma length_le_bytes [simp]: "length (le_bytes n x) = n"
  by (induction n x rule: le_bytes.induct) auto

lemma length_ne_bytes [simp]: "length (ne_bytes e n x) = n"
  by (cases e) (auto simp: ne_bytes_def)

lemma le_word_bytes: "le_word (le_bytes n (x :: 'a::len word)) = take_bit (8 * n) x"
proof (induction n arbitrary: x)
  case 0
  then show ?case by simp
next
  case (Suc n)
  have "le_word (le_bytes (Suc n) x) = ucast (ucast x :: u8) OR push_bit 8 (take_bit (8 * n) (drop_bit 8 x))"
    by (simp add: Suc.IH)
  also have "\<dots> = take_bit (8 * Suc n) x"
    by (rule bit_eqI) (auto simp: bit_simps)
  finally show ?case .
qed

lemma le_bytes_word:
  "length bs = n \<Longrightarrow> 8 * n \<le> LENGTH('a) \<Longrightarrow> le_bytes n (le_word bs :: 'a::len word) = bs"
proof (induction bs arbitrary: n)
  case Nil
  then show ?case by simp
next
  case (Cons b bs)
  then obtain m where n: "n = Suc m" and len: "length bs = m" by auto
  have low: "ucast (ucast b OR push_bit 8 (le_word bs :: 'a word)) = b"
    using Cons.prems n by (intro bit_eqI) (auto simp: bit_simps)
  have "le_bytes m (drop_bit 8 (ucast b OR push_bit 8 (le_word bs :: 'a word)))
      = le_bytes m (take_bit (8 * m) (le_word bs :: 'a word))"
  proof -
    have trunc: "le_bytes k y = le_bytes k (take_bit (8 * k) y)" for k and y :: "'a word"
    proof (induction k arbitrary: y)
      case 0
      then show ?case by simp
    next
      case (Suc k)
      have hd: "(ucast y :: u8) = ucast (take_bit (8 * Suc k) y)"
        by (rule bit_eqI) (auto simp: bit_simps)
      have "drop_bit 8 (take_bit (8 * Suc k) y) = take_bit (8 * k) (drop_bit 8 y)"
        by (rule bit_eqI) (auto simp: bit_simps)
      with hd Suc.IH [of "drop_bit 8 y"] show ?case by simp
    qed
    have "take_bit (8 * m) (drop_bit 8 (ucast b OR push_bit 8 (le_word bs :: 'a word)))
        = take_bit (8 * m) (le_word bs :: 'a word)"
      using Cons.prems(2) n
      by (intro bit_eqI) (auto simp: bit_simps dest: bit_imp_le_length)
    with trunc show ?thesis by metis
  qed
  moreover have "take_bit (8 * m) (le_word bs :: 'a word) = le_word bs"
    using Cons.IH [of m] Cons.prems len n le_word_bytes [of m "le_word bs :: 'a word"] by simp
  ultimately show ?case
    using Cons.IH [of m] Cons.prems len n low by simp
qed

lemma ne_word_bytes [wire_simps]:
  "LENGTH('a) \<le> 8 * n \<Longrightarrow> ne_word e (ne_bytes e n (x :: 'a::len word)) = x"
  by (cases e) (simp_all add: ne_word_def ne_bytes_def le_word_bytes take_bit_word_eq_self)

lemma ne_bytes_word [wire_simps]:
  "length bs = n \<Longrightarrow> 8 * n \<le> LENGTH('a) \<Longrightarrow> ne_bytes e n (ne_word e bs :: 'a::len word) = bs"
  by (cases e) (simp_all add: ne_word_def ne_bytes_def le_bytes_word)

lemma ne_bytes_inj:
  "LENGTH('a) \<le> 8 * n \<Longrightarrow> ne_bytes e n (x :: 'a::len word) = ne_bytes e n y \<Longrightarrow> x = y"
  by (metis ne_word_bytes)

section \<open>The contract of a fixed-width encoding\<close>

locale wire_codec =
  fixes enc :: "'a \<Rightarrow> bytes"
    and dec :: "bytes \<Rightarrow> 'a option"
    and width :: nat
  assumes enc_length: "length (enc x) = width"
    and dec_enc: "dec (enc x @ r) = Some x"
    and dec_short: "length bs < width \<Longrightarrow> dec bs = None"
    and enc_dec: "dec bs = Some x \<Longrightarrow> enc x = take width bs"
begin

lemma dec_enc_exact: "dec (enc x) = Some x"
  using dec_enc [of x "[]"] by simp

lemma dec_Some_length: "dec bs = Some x \<Longrightarrow> width \<le> length bs"
  using dec_short [of bs] by (cases "length bs < width") auto

lemma dec_split: "dec bs = Some x \<Longrightarrow> bs = enc x @ drop width bs"
  by (metis append_take_drop_id enc_dec)

lemma enc_inj: "enc x = enc y \<Longrightarrow> x = y"
  by (metis dec_enc_exact option.inject)

end

text \<open>The native-endian integers satisfy it, at every width.\<close>

definition word_dec :: "endian \<Rightarrow> nat \<Rightarrow> bytes \<Rightarrow> 'a::len word option" where
  "word_dec e n bs = (if length bs < n then None else Some (ne_word e (take n bs)))"

lemma word_codec:
  assumes "8 * n = LENGTH('a)"
  shows "wire_codec (ne_bytes e n :: 'a::len word \<Rightarrow> bytes) (word_dec e n) n"
proof
  fix x :: "'a word" and r :: bytes
  show "length (ne_bytes e n x) = n" by simp
  have "ne_word e (ne_bytes e n x) = x"
    by (rule ne_word_bytes) (use assms in simp)
  then show "word_dec e n (ne_bytes e n x @ r) = Some x"
    by (simp add: word_dec_def)
next
  fix bs :: bytes
  assume "length bs < n"
  then show "(word_dec e n bs :: 'a word option) = None" by (simp add: word_dec_def)
next
  fix bs :: bytes and x :: "'a word"
  assume "word_dec e n bs = Some x"
  then have "n \<le> length bs" and "x = ne_word e (take n bs)"
    by (auto simp: word_dec_def split: if_splits)
  moreover have "ne_bytes e n (ne_word e (take n bs) :: 'a word) = take n bs"
    by (rule ne_bytes_word) (use assms \<open>n \<le> length bs\<close> in simp_all)
  ultimately show "ne_bytes e n x = take n bs" by simp
qed

interpretation codec_u16: wire_codec "ne_bytes e 2 :: u16 \<Rightarrow> bytes" "word_dec e 2" 2 for e
  by (rule word_codec) simp

interpretation codec_u32: wire_codec "ne_bytes e 4 :: u32 \<Rightarrow> bytes" "word_dec e 4" 4 for e
  by (rule word_codec) simp

interpretation codec_u64: wire_codec "ne_bytes e 8 :: u64 \<Rightarrow> bytes" "word_dec e 8" 8 for e
  by (rule word_codec) simp

section \<open>The contract of a consuming iterator\<close>

text \<open>
  A \<open>while let Some(x) = it.next()\<close> loop over a buffer.  \<open>iter_fuel\<close> is the loop with
  a bound on its steps; \<open>iter_all\<close> takes the size of the input as the bound, which is
  enough for every iterator whose steps shrink the input.
\<close>

fun iter_fuel :: "nat \<Rightarrow> ('s \<Rightarrow> ('i \<times> 's) option) \<Rightarrow> 's \<Rightarrow> 'i list" where
  "iter_fuel 0 nxt s = []"
| "iter_fuel (Suc n) nxt s =
     (case nxt s of None \<Rightarrow> [] | Some (i, s') \<Rightarrow> i # iter_fuel n nxt s')"

definition iter_all :: "('s list \<Rightarrow> ('i \<times> 's list) option) \<Rightarrow> 's list \<Rightarrow> 'i list" where
  "iter_all nxt s = iter_fuel (length s) nxt s"

locale byte_iter =
  fixes nxt :: "'s list \<Rightarrow> ('i \<times> 's list) option"
  assumes progress: "nxt s = Some (i, s') \<Longrightarrow> length s' < length s"
begin

lemma fuel_enough: "length s \<le> n \<Longrightarrow> iter_fuel n nxt s = iter_all nxt s"
proof (induction n arbitrary: s rule: less_induct)
  case (less n)
  show ?case
  proof (cases "nxt s")
    case None
    then show ?thesis by (cases n; cases "length s") (auto simp: iter_all_def)
  next
    case (Some p)
    obtain i s' where p: "p = (i, s')" by fastforce
    with Some progress have lt: "length s' < length s" by simp
    obtain m where n: "n = Suc m" using lt less.prems by (cases n) auto
    obtain k where k: "length s = Suc k" using lt by (cases "length s") auto
    have a: "iter_fuel m nxt s' = iter_all nxt s'"
      using less.IH [of m s'] lt less.prems n by simp
    have b: "iter_fuel k nxt s' = iter_all nxt s'"
      using less.IH [of k s'] lt less.prems n k by (cases "k < n") auto
    show ?thesis using Some p n k a b by (simp add: iter_all_def)
  qed
qed

lemma iter_unfold:
  "iter_all nxt s = (case nxt s of None \<Rightarrow> [] | Some (i, s') \<Rightarrow> i # iter_all nxt s')"
proof (cases "nxt s")
  case None
  then show ?thesis by (cases "length s") (auto simp: iter_all_def)
next
  case (Some p)
  obtain i s' where p: "p = (i, s')" by fastforce
  with Some progress have lt: "length s' < length s" by simp
  then obtain k where k: "length s = Suc k" by (cases "length s") auto
  from lt k have "iter_fuel k nxt s' = iter_all nxt s'" by (intro fuel_enough) simp
  with Some p k show ?thesis by (simp add: iter_all_def)
qed

lemma iter_None: "nxt s = None \<Longrightarrow> iter_all nxt s = []"
  by (subst iter_unfold) simp

lemma iter_Some: "nxt s = Some (i, s') \<Longrightarrow> iter_all nxt s = i # iter_all nxt s'"
  by (subst iter_unfold) simp

lemma iter_induct:
  assumes "\<And>s. nxt s = None \<Longrightarrow> P s"
    and "\<And>s i s'. nxt s = Some (i, s') \<Longrightarrow> P s' \<Longrightarrow> P s"
  shows "P s"
proof (induction "length s" arbitrary: s rule: less_induct)
  case less
  show ?case
  proof (cases "nxt s")
    case None
    then show ?thesis by (rule assms(1))
  next
    case (Some p)
    obtain i s' where p: "p = (i, s')" by fastforce
    with Some progress less show ?thesis by (auto intro: assms(2))
  qed
qed

lemma iter_length: "length (iter_all nxt s) \<le> length s"
proof (induction s rule: iter_induct)
  case (1 s)
  then show ?case by (simp add: iter_None)
next
  case (2 s i s')
  with progress [of s i s'] show ?case by (simp add: iter_Some)
qed

end

end
