(* ===== verification/Rust_Text.thy ===== *)
theory Rust_Text
  imports Wire_Prelude
begin

text \<open>
  The parts of Rust's \<open>std\<close> text handling the library relies on: \<open>str\<close> as its UTF-8
  bytes (a HOL \<open>string\<close>), \<open>from_utf8\<close> and \<open>from_utf8_lossy\<close>, \<open>Display\<close> and
  \<open>{:x}\<close> of integers, and \<open>from_str_radix\<close> with its sign, overflow and empty-input
  rules.  The round-trip lemmas are what the handle, address and port parsers of the
  components rest on.
\<close>

section \<open>Strings and their bytes\<close>

definition byte_char :: "u8 \<Rightarrow> char" where
  "byte_char b = char_of (unat b)"

definition char_byte :: "char \<Rightarrow> u8" where
  "char_byte c = word_of_nat (of_char c)"

definition bytes_of_str :: "string \<Rightarrow> bytes" where
  "bytes_of_str s = map char_byte s"

definition str_of_bytes :: "bytes \<Rightarrow> string" where
  "str_of_bytes bs = map byte_char bs"

lemma byte_char_byte [simp]: "byte_char (char_byte c) = c"
  by (simp add: byte_char_def char_byte_def unat_of_nat take_bit_eq_mod)

lemma char_byte_char [simp]: "char_byte (byte_char b) = b"
proof -
  have "unat b < 256" using unsigned_less [of b, where ?'a = nat] by simp
  then have "(of_char (char_of (unat b)) :: nat) = unat b" by simp
  then show ?thesis by (simp add: byte_char_def char_byte_def)
qed

lemma str_of_bytes_of_str [simp]: "str_of_bytes (bytes_of_str s) = s"
  by (simp add: str_of_bytes_def bytes_of_str_def comp_def)

lemma bytes_of_str_of_bytes [simp]: "bytes_of_str (str_of_bytes bs) = bs"
  by (simp add: str_of_bytes_def bytes_of_str_def comp_def)

lemma bytes_of_str_inj: "bytes_of_str s = bytes_of_str t \<Longrightarrow> s = t"
  by (metis str_of_bytes_of_str)

lemma length_bytes_of_str [simp]: "length (bytes_of_str s) = length s"
  by (simp add: bytes_of_str_def)

lemma bytes_of_str_append [simp]: "bytes_of_str (s @ t) = bytes_of_str s @ bytes_of_str t"
  by (simp add: bytes_of_str_def)

section \<open>UTF-8\<close>

text \<open>
  One step of Rust's decoder: \<open>(True, n)\<close> when the input starts with a well-formed
  sequence of \<open>n\<close> bytes, \<open>(False, n)\<close> when its first \<open>n\<close> bytes are a maximal
  ill-formed subpart.
\<close>

definition utf8_cont :: "u8 \<Rightarrow> bool" where
  "utf8_cont b = (0x80 \<le> b \<and> b \<le> 0xBF)"

definition utf8_second_ok :: "u8 \<Rightarrow> u8 \<Rightarrow> bool" where
  "utf8_second_ok b c =
     (if b = 0xE0 then 0xA0 \<le> c \<and> c \<le> 0xBF
      else if b = 0xED then 0x80 \<le> c \<and> c \<le> 0x9F
      else if b = 0xF0 then 0x90 \<le> c \<and> c \<le> 0xBF
      else if b = 0xF4 then 0x80 \<le> c \<and> c \<le> 0x8F
      else utf8_cont c)"

definition utf8_tail_len :: "u8 \<Rightarrow> nat option" where
  "utf8_tail_len b =
     (if b < 0x80 then Some 0
      else if 0xC2 \<le> b \<and> b \<le> 0xDF then Some 1
      else if 0xE0 \<le> b \<and> b \<le> 0xEF then Some 2
      else if 0xF0 \<le> b \<and> b \<le> 0xF4 then Some 3
      else None)"

fun utf8_step :: "bytes \<Rightarrow> bool \<times> nat" where
  "utf8_step [] = (True, 0)"
| "utf8_step (b # bs) =
     (case utf8_tail_len b of
        None \<Rightarrow> (False, 1)
      | Some k \<Rightarrow>
          if k = 0 then (True, 1)
          else if bs = [] \<or> \<not> utf8_second_ok b (hd bs) then (False, 1)
          else let good = 1 + length (takeWhile utf8_cont (take (k - 1) (tl bs)))
               in (good = k, Suc good))"

lemma utf8_step_pos: "bs \<noteq> [] \<Longrightarrow> 0 < snd (utf8_step bs)"
  by (cases bs) (auto simp: Let_def split: option.splits)

function utf8_valid :: "bytes \<Rightarrow> bool" where
  "utf8_valid bs =
     (if bs = [] then True
      else if fst (utf8_step bs) then utf8_valid (drop (snd (utf8_step bs)) bs)
      else False)"
  by pat_completeness auto
termination
  by (relation "measure length") (auto simp: utf8_step_pos)

function utf8_lossy :: "bytes \<Rightarrow> bytes" where
  "utf8_lossy bs =
     (if bs = [] then []
      else (if fst (utf8_step bs) then take (snd (utf8_step bs)) bs else [0xEF, 0xBF, 0xBD])
           @ utf8_lossy (drop (snd (utf8_step bs)) bs))"
  by pat_completeness auto
termination
  by (relation "measure length") (auto simp: utf8_step_pos)

declare utf8_valid.simps [simp del] utf8_lossy.simps [simp del]

lemma utf8_valid_Nil [simp]: "utf8_valid []"
  by (subst utf8_valid.simps) simp

lemma utf8_lossy_Nil [simp]: "utf8_lossy [] = []"
  by (subst utf8_lossy.simps) simp

lemma utf8_valid_ascii: "\<forall>b\<in>set bs. b < 0x80 \<Longrightarrow> utf8_valid bs"
proof (induction bs)
  case Nil
  then show ?case by simp
next
  case (Cons b bs)
  then have "utf8_step (b # bs) = (True, 1)" by (simp add: utf8_tail_len_def)
  with Cons show ?case by (subst utf8_valid.simps) simp
qed

lemma utf8_lossy_valid: "utf8_valid bs \<Longrightarrow> utf8_lossy bs = bs"
proof (induction bs rule: utf8_lossy.induct)
  case (1 bs)
  show ?case
  proof (cases "bs = []")
    case True
    then show ?thesis by simp
  next
    case False
    with "1.prems" have ok: "fst (utf8_step bs)" and rest: "utf8_valid (drop (snd (utf8_step bs)) bs)"
      by (auto simp: utf8_valid.simps [of bs] split: if_splits)
    from "1.IH" [OF False rest] False ok show ?thesis
      by (simp add: utf8_lossy.simps [of bs])
  qed
qed

definition from_utf8 :: "bytes \<Rightarrow> string option" where
  "from_utf8 bs = (if utf8_valid bs then Some (str_of_bytes bs) else None)"

definition from_utf8_lossy :: "bytes \<Rightarrow> string" where
  "from_utf8_lossy bs = str_of_bytes (utf8_lossy bs)"

text \<open>
  \<open>Utf8Error\<close>: how many bytes are valid, and the length of the ill-formed sequence, or
  nothing when the input ends inside one; and its \<open>Display\<close>.
\<close>

function utf8_error :: "nat \<Rightarrow> bytes \<Rightarrow> (nat \<times> nat option) option" where
  "utf8_error up bs =
     (if bs = [] then None
      else if fst (utf8_step bs)
        then utf8_error (up + snd (utf8_step bs)) (drop (snd (utf8_step bs)) bs)
      else Some (up, if utf8_tail_len (hd bs) \<noteq> None \<and> snd (utf8_step bs) = length bs
                     then None else Some (snd (utf8_step bs))))"
  by pat_completeness auto
termination
  by (relation "measure (\<lambda>(_, bs). length bs)") (auto simp: utf8_step_pos)

declare utf8_error.simps [simp del]

lemma utf8_error_None: "(utf8_error up bs = None) = utf8_valid bs"
proof (induction up bs rule: utf8_error.induct)
  case (1 up bs)
  then show ?case
    by (auto simp: utf8_error.simps [of up bs] utf8_valid.simps [of bs])
qed

text \<open>\<open>data.iter().position(|b| b == 0).unwrap_or(len)\<close>: the bytes before the first NUL.\<close>

definition until_nul :: "bytes \<Rightarrow> bytes" where
  "until_nul bs = takeWhile (\<lambda>b. b \<noteq> 0) bs"

section \<open>Integers as text\<close>

definition digit_char :: "nat \<Rightarrow> char" where
  "digit_char d = char_of (if d < 10 then 48 + d else 87 + d)"

definition char_digit :: "nat \<Rightarrow> char \<Rightarrow> nat option" where
  "char_digit r c =
     (let k = (of_char c :: nat);
          d = (if 48 \<le> k \<and> k \<le> 57 then Some (k - 48)
               else if 97 \<le> k \<and> k \<le> 122 then Some (k - 87)
               else if 65 \<le> k \<and> k \<le> 90 then Some (k - 55)
               else None)
      in case d of None \<Rightarrow> None | Some v \<Rightarrow> if v < r then Some v else None)"

lemma char_digit_digit_char: "d < r \<Longrightarrow> r \<le> 16 \<Longrightarrow> char_digit r (digit_char d) = Some d"
  by (auto simp: char_digit_def digit_char_def Let_def)

fun show_radix :: "nat \<Rightarrow> nat \<Rightarrow> string" where
  "show_radix r n =
     (if r < 2 \<or> n < r then [digit_char n] else show_radix r (n div r) @ [digit_char (n mod r)])"

declare show_radix.simps [simp del]

abbreviation show_nat :: "nat \<Rightarrow> string" where
  "show_nat \<equiv> show_radix 10"

definition show_int :: "int \<Rightarrow> string" where
  "show_int i = (if i < 0 then CHR ''-'' # show_nat (nat (- i)) else show_nat (nat i))"

abbreviation show_hex :: "nat \<Rightarrow> string" where
  "show_hex \<equiv> show_radix 16"

definition utf8_error_text :: "bytes \<Rightarrow> string" where
  "utf8_error_text bs =
     (case utf8_error 0 bs of
        None \<Rightarrow> []
      | Some (up, Some n) \<Rightarrow>
          ''invalid utf-8 sequence of '' @ show_nat n @ '' bytes from index '' @ show_nat up
      | Some (up, None) \<Rightarrow> ''incomplete utf-8 byte sequence from index '' @ show_nat up)"

text \<open>\<open>{:02x}\<close> of a byte.\<close>

definition show_hex2 :: "u8 \<Rightarrow> string" where
  "show_hex2 b = [digit_char (unat b div 16), digit_char (unat b mod 16)]"

text \<open>
  \<open>uN::from_str_radix\<close> (and \<open>str::parse\<close>, which is radix 10): one leading plus is
  skipped unless it is the whole input, a minus is an invalid digit for an unsigned type,
  the empty string is an error, and so is a value that does not fit.  \<open>lim\<close> is
  \<open>2 ^ N\<close>.
\<close>

fun radix_loop :: "nat \<Rightarrow> nat \<Rightarrow> nat \<Rightarrow> string \<Rightarrow> nat option" where
  "radix_loop r lim acc [] = Some acc"
| "radix_loop r lim acc (c # cs) =
     (case char_digit r c of
        None \<Rightarrow> None
      | Some d \<Rightarrow> if acc * r + d < lim then radix_loop r lim (acc * r + d) cs else None)"

definition from_str_radix :: "nat \<Rightarrow> nat \<Rightarrow> string \<Rightarrow> nat option" where
  "from_str_radix r lim s =
     (case s of
        [] \<Rightarrow> None
      | c # cs \<Rightarrow>
          if (c = CHR ''+'' \<or> c = CHR ''-'') \<and> cs = [] then None
          else if c = CHR ''+'' then radix_loop r lim 0 cs
          else radix_loop r lim 0 s)"

lemma radix_loop_append:
  "radix_loop r lim acc (s @ t) =
     (case radix_loop r lim acc s of None \<Rightarrow> None | Some a \<Rightarrow> radix_loop r lim a t)"
  by (induction r lim acc s rule: radix_loop.induct) (auto split: option.splits)

lemma radix_loop_show:
  "2 \<le> r \<Longrightarrow> r \<le> 16 \<Longrightarrow> n < lim \<Longrightarrow> radix_loop r lim 0 (show_radix r n) = Some n"
proof (induction n rule: less_induct)
  case (less n)
  show ?case
  proof (cases "n < r")
    case True
    with less.prems show ?thesis
      by (simp add: show_radix.simps [of r n] char_digit_digit_char)
  next
    case False
    have "n div r < n" using False less.prems by (intro div_less_dividend) auto
    moreover from this less.prems have "n div r < lim" by simp
    ultimately have "radix_loop r lim 0 (show_radix r (n div r)) = Some (n div r)"
      using less by simp
    moreover have "n mod r < r" using less.prems by simp
    ultimately show ?thesis using False less.prems
      by (simp add: show_radix.simps [of r n] radix_loop_append char_digit_digit_char)
  qed
qed

lemma radix_loop_bound: "radix_loop r lim acc s = Some n \<Longrightarrow> acc < lim \<Longrightarrow> n < lim"
  by (induction r lim acc s rule: radix_loop.induct) (auto split: option.splits if_splits)

lemma from_str_radix_bound: "from_str_radix r lim s = Some n \<Longrightarrow> 0 < lim \<Longrightarrow> n < lim"
  by (auto simp: from_str_radix_def simp del: radix_loop.simps dest!: radix_loop_bound
      split: list.splits if_splits)

lemma show_radix_ne [simp]: "show_radix r n \<noteq> []"
  by (subst show_radix.simps) simp

lemma digit_char_range_all: "\<forall>d\<in>{0..<16}. digit_char d \<in> set ''0123456789abcdef''"
  by code_simp

lemma digit_char_range: "d < 16 \<Longrightarrow> digit_char d \<in> set ''0123456789abcdef''"
  using digit_char_range_all by (simp add: atLeast0LessThan)

lemma show_radix_chars:
  "2 \<le> r \<Longrightarrow> r \<le> 16 \<Longrightarrow> set (show_radix r n) \<subseteq> set ''0123456789abcdef''"
proof (induction n rule: less_induct)
  case (less n)
  show ?case
  proof (cases "n < r")
    case True
    with less.prems have "n < 16" by simp
    with True show ?thesis using digit_char_range [of n]
      by (simp add: show_radix.simps [of r n])
  next
    case False
    have "n div r < n" using False less.prems by (intro div_less_dividend) auto
    with less have "set (show_radix r (n div r)) \<subseteq> set ''0123456789abcdef''" by blast
    moreover have "n mod r < r" using less.prems by simp
    with less.prems have "digit_char (n mod r) \<in> set ''0123456789abcdef''"
      by (intro digit_char_range) linarith
    ultimately show ?thesis using False less.prems
      by (simp add: show_radix.simps [of r n])
  qed
qed

lemma from_str_radix_show:
  assumes "2 \<le> r" "r \<le> 16" "n < lim"
  shows "from_str_radix r lim (show_radix r n) = Some n"
proof -
  obtain c cs where s: "show_radix r n = c # cs" by (cases "show_radix r n") auto
  with show_radix_chars [OF assms(1,2), of n] have "c \<in> set ''0123456789abcdef''" by simp
  then have "c \<noteq> CHR ''+''" "c \<noteq> CHR ''-''" by auto
  with s radix_loop_show [OF assms] show ?thesis by (simp add: from_str_radix_def)
qed

text \<open>\<open>str::split(sep)\<close>: always at least one piece.\<close>

fun split_on :: "char \<Rightarrow> string \<Rightarrow> string list" where
  "split_on sep [] = [[]]"
| "split_on sep (c # cs) =
     (if c = sep then [] # split_on sep cs
      else case split_on sep cs of [] \<Rightarrow> [[c]] | p # ps \<Rightarrow> (c # p) # ps)"

lemma split_on_ne [simp]: "split_on sep s \<noteq> []"
  by (cases s) (auto split: list.splits)

lemma split_on_none: "sep \<notin> set s \<Longrightarrow> split_on sep s = [s]"
  by (induction s) auto

lemma split_on_append: "sep \<notin> set s \<Longrightarrow> split_on sep (s @ sep # t) = s # split_on sep t"
  by (induction s) auto

end
