(* ===== verification/Netlink_Error.thy ===== *)
theory Netlink_Error
  imports Rust_Text
begin

text \<open>
  The library's error type (\<open>netlink/error.rs\<close>), with the error enums it wraps from
  \<open>util/parse.rs\<close>, \<open>util/addr.rs\<close>, \<open>util/ifname.rs\<close> and \<open>netlink/config/types.rs\<close>:
  construction from an errno, context wrapping, the accessors, the classification
  predicates that callers branch on, and the walk over a chain of causes.  The text of an
  errno comes from the operating system, so \<open>strerror\<close> is an argument of the
  constructors.
\<close>

section \<open>The wrapped errors\<close>

type_synonym i32 = "32 word"

text \<open>
  \<open>std::io::Error\<close>: a raw OS error, or one built from an \<open>ErrorKind\<close> and a text.  Of the
  kinds only those the library tests for are told apart.
\<close>

datatype io_kind = AlreadyExistsKind | WouldBlockKind | InterruptedKind | OtherKind

datatype io_error = OsError i32 | CustomIo io_kind string

datatype parse_error =
    InvalidNumber string | OutOfRange string | InvalidFormat string | UnknownUnit string

datatype addr_error = InvalidAddress string | InvalidPrefix string | InvalidMac string

datatype if_error = IfNotFound string | IfInvalidName string | IfIo io_error

datatype address_parse_error =
    AddrMissingPrefix string | AddrInvalidAddress string | AddrInvalidPrefix string
  | AddrPrefixTooLarge u8 u8

datatype route_parse_error =
    RouteMissingPrefix string | RouteInvalidDestination string | RouteInvalidPrefix string
  | RoutePrefixTooLarge u8 u8 | RouteInvalidGateway string

record validation_error_info =
  vfield :: string
  vmessage :: string

section \<open>The error type\<close>

text \<open>
  A \<open>Duration\<close> is its number of nanoseconds; \<open>serde_json::Error\<close> is its text.
\<close>

datatype nl_error =
    Io io_error
  | Json string
  | Kernel i32 string "string option" "u32 option"
  | KernelWithContext string i32 string "string option" "u32 option"
  | Truncated nat nat
  | FrameTruncated nat nat
  | Backpressure bool
  | InvalidMessage string
  | InvalidAttribute string
  | SequenceMismatch u32 u32
  | NotSupported string
  | Parse parse_error
  | Address addr_error
  | Interface if_error
  | AddressParse address_parse_error
  | RouteParse route_parse_error
  | Validation "validation_error_info list"
  | InterfaceNotFound string
  | NamespaceNotFound string
  | QdiscNotFound string string
  | FamilyNotFound string
  | Timeout
  | DumpInterrupted
  | PoolExhausted nat nat
  | PoolClosed
  | NamespaceRestoreFailed io_error

type_synonym 'a nl_result = "nl_error + 'a"

section \<open>Errno values of Linux used by the predicates\<close>

abbreviation "EPERM \<equiv> (1 :: i32)"
abbreviation "ENOENT \<equiv> (2 :: i32)"
abbreviation "EAGAIN \<equiv> (11 :: i32)"
abbreviation "EACCES \<equiv> (13 :: i32)"
abbreviation "EBUSY \<equiv> (16 :: i32)"
abbreviation "EEXIST \<equiv> (17 :: i32)"
abbreviation "ENODEV \<equiv> (19 :: i32)"
abbreviation "EINVAL \<equiv> (22 :: i32)"
abbreviation "EMFILE \<equiv> (24 :: i32)"
abbreviation "EROFS \<equiv> (30 :: i32)"
abbreviation "ENAMETOOLONG \<equiv> (36 :: i32)"
abbreviation "EMSGSIZE \<equiv> (90 :: i32)"
abbreviation "EOPNOTSUPP \<equiv> (95 :: i32)"
abbreviation "EADDRINUSE \<equiv> (98 :: i32)"
abbreviation "ENETUNREACH \<equiv> (101 :: i32)"
abbreviation "ENOBUFS \<equiv> (105 :: i32)"
abbreviation "ETIMEDOUT \<equiv> (110 :: i32)"
abbreviation "ECONNREFUSED \<equiv> (111 :: i32)"
abbreviation "EHOSTUNREACH \<equiv> (113 :: i32)"

text \<open>\<open>raw_os_error\<close> and the part of \<open>kind\<close> the library reads.\<close>

fun raw_os_error :: "io_error \<Rightarrow> i32 option" where
  "raw_os_error (OsError e) = Some e"
| "raw_os_error (CustomIo k s) = None"

fun io_error_kind :: "io_error \<Rightarrow> io_kind" where
  "io_error_kind (OsError e) =
     (if e = EEXIST then AlreadyExistsKind
      else if e = EAGAIN then WouldBlockKind
      else if e = 4 then InterruptedKind
      else OtherKind)"
| "io_error_kind (CustomIo k s) = k"

section \<open>Construction\<close>

text \<open>
  \<open>i32::abs\<close> in a release build: \<open>i32::MIN\<close>, which has no positive counterpart, is left as
  it is (a debug build panics there).
\<close>

definition i32_abs :: "i32 \<Rightarrow> i32" where
  "i32_abs x = (if sint x < 0 then - x else x)"

definition from_errno_ext_ack ::
  "(i32 \<Rightarrow> string) \<Rightarrow> i32 \<Rightarrow> string option \<Rightarrow> u32 option \<Rightarrow> nl_error" where
  "from_errno_ext_ack strerror errno ack off =
     (let errno = i32_abs errno in Kernel errno (strerror errno) ack off)"

definition from_errno :: "(i32 \<Rightarrow> string) \<Rightarrow> i32 \<Rightarrow> nl_error" where
  "from_errno strerror errno = from_errno_ext_ack strerror errno None None"

definition from_errno_with_context_ext_ack ::
  "(i32 \<Rightarrow> string) \<Rightarrow> i32 \<Rightarrow> string \<Rightarrow> string option \<Rightarrow> u32 option \<Rightarrow> nl_error" where
  "from_errno_with_context_ext_ack strerror errno operation ack off =
     (let errno = i32_abs errno in KernelWithContext operation errno (strerror errno) ack off)"

definition from_errno_with_context :: "(i32 \<Rightarrow> string) \<Rightarrow> i32 \<Rightarrow> string \<Rightarrow> nl_error" where
  "from_errno_with_context strerror errno operation =
     from_errno_with_context_ext_ack strerror errno operation None None"

fun with_context :: "nl_error \<Rightarrow> string \<Rightarrow> nl_error" where
  "with_context (Kernel errno message ack off) operation =
     KernelWithContext operation errno message ack off"
| "with_context other operation = other"

definition validation_error :: "string \<Rightarrow> string \<Rightarrow> nl_error" where
  "validation_error f m = Validation [\<lparr>vfield = f, vmessage = m\<rparr>]"

section \<open>Display\<close>

definition join_with :: "string \<Rightarrow> string list \<Rightarrow> string" where
  "join_with sep xs = concat (case xs of [] \<Rightarrow> [] | y # ys \<Rightarrow> y # map (\<lambda>z. sep @ z) ys)"

definition format_validation_errors :: "validation_error_info list \<Rightarrow> string" where
  "format_validation_errors errors =
     join_with ''; '' (map (\<lambda>e. vfield e @ '': '' @ vmessage e) errors)"

definition format_ack :: "string option \<Rightarrow> u32 option \<Rightarrow> string" where
  "format_ack ack off =
     (case ack of Some msg \<Rightarrow> '': '' @ msg | None \<Rightarrow> []) @
     (case off of Some n \<Rightarrow> '' (at request offset '' @ show_nat (unat n) @ '')'' | None \<Rightarrow> [])"

definition format_kernel :: "string \<Rightarrow> i32 \<Rightarrow> string option \<Rightarrow> u32 option \<Rightarrow> string" where
  "format_kernel message errno ack off =
     ''kernel error: '' @ message @ '' (errno '' @ show_int (sint errno) @ '')'' @
     format_ack ack off"

definition format_kernel_ctx ::
  "string \<Rightarrow> string \<Rightarrow> i32 \<Rightarrow> string option \<Rightarrow> u32 option \<Rightarrow> string" where
  "format_kernel_ctx operation message errno ack off =
     operation @ '': '' @ message @ '' (errno '' @ show_int (sint errno) @ '')'' @
     format_ack ack off"

section \<open>Accessors\<close>

fun errno :: "nl_error \<Rightarrow> i32 option" where
  "errno (Kernel n m a off) = Some n"
| "errno (KernelWithContext p n m a off) = Some n"
| "errno (Io e) = raw_os_error e"
| "errno _ = None"

fun ext_ack :: "nl_error \<Rightarrow> string option" where
  "ext_ack (Kernel n m a off) = a"
| "ext_ack (KernelWithContext p n m a off) = a"
| "ext_ack _ = None"

fun ext_ack_offset :: "nl_error \<Rightarrow> u32 option" where
  "ext_ack_offset (Kernel n m a off) = off"
| "ext_ack_offset (KernelWithContext p n m a off) = off"
| "ext_ack_offset _ = None"

section \<open>Classification\<close>

fun is_typed_not_found :: "nl_error \<Rightarrow> bool" where
  "is_typed_not_found (Interface (IfNotFound s)) = True"
| "is_typed_not_found (InterfaceNotFound s) = True"
| "is_typed_not_found (NamespaceNotFound s) = True"
| "is_typed_not_found (QdiscNotFound s t) = True"
| "is_typed_not_found (FamilyNotFound s) = True"
| "is_typed_not_found _ = False"

definition is_not_found :: "nl_error \<Rightarrow> bool" where
  "is_not_found e =
     (if errno e = Some ENOENT \<or> errno e = Some ENODEV then True else is_typed_not_found e)"

definition is_permission_denied :: "nl_error \<Rightarrow> bool" where
  "is_permission_denied e = (errno e = Some EPERM \<or> errno e = Some EACCES)"

definition is_already_exists :: "nl_error \<Rightarrow> bool" where
  "is_already_exists e =
     (if errno e = Some EEXIST then True
      else case e of Io io \<Rightarrow> io_error_kind io = AlreadyExistsKind | _ \<Rightarrow> False)"

definition is_busy :: "nl_error \<Rightarrow> bool" where
  "is_busy e = (errno e = Some EBUSY)"

definition is_invalid_argument :: "nl_error \<Rightarrow> bool" where
  "is_invalid_argument e = (errno e = Some EINVAL)"

definition is_no_device :: "nl_error \<Rightarrow> bool" where
  "is_no_device e = (errno e = Some ENODEV)"

definition is_not_supported :: "nl_error \<Rightarrow> bool" where
  "is_not_supported e =
     ((case e of NotSupported _ \<Rightarrow> True | _ \<Rightarrow> False) \<or> errno e = Some EOPNOTSUPP)"

definition is_network_unreachable :: "nl_error \<Rightarrow> bool" where
  "is_network_unreachable e = (errno e = Some ENETUNREACH)"

definition is_timeout :: "nl_error \<Rightarrow> bool" where
  "is_timeout e = (e = Timeout \<or> errno e = Some ETIMEDOUT)"

definition is_truncated :: "nl_error \<Rightarrow> bool" where
  "is_truncated e = (case e of FrameTruncated _ _ \<Rightarrow> True | _ \<Rightarrow> False)"

definition is_backpressure :: "nl_error \<Rightarrow> bool" where
  "is_backpressure e = (case e of Backpressure _ \<Rightarrow> True | _ \<Rightarrow> False)"

definition is_dump_interrupted :: "nl_error \<Rightarrow> bool" where
  "is_dump_interrupted e = (e = DumpInterrupted)"

definition is_pool_exhausted :: "nl_error \<Rightarrow> bool" where
  "is_pool_exhausted e = (case e of PoolExhausted _ _ \<Rightarrow> True | _ \<Rightarrow> False)"

definition is_pool_closed :: "nl_error \<Rightarrow> bool" where
  "is_pool_closed e = (e = PoolClosed)"

definition is_namespace_restore_failed :: "nl_error \<Rightarrow> bool" where
  "is_namespace_restore_failed e = (case e of NamespaceRestoreFailed _ \<Rightarrow> True | _ \<Rightarrow> False)"

definition is_address_in_use :: "nl_error \<Rightarrow> bool" where
  "is_address_in_use e = (errno e = Some EADDRINUSE)"

definition is_name_too_long :: "nl_error \<Rightarrow> bool" where
  "is_name_too_long e = (errno e = Some ENAMETOOLONG)"

definition is_try_again :: "nl_error \<Rightarrow> bool" where
  "is_try_again e = (errno e = Some EAGAIN)"

definition is_no_buffer_space :: "nl_error \<Rightarrow> bool" where
  "is_no_buffer_space e = (errno e = Some ENOBUFS)"

definition is_connection_refused :: "nl_error \<Rightarrow> bool" where
  "is_connection_refused e = (errno e = Some ECONNREFUSED)"

definition is_host_unreachable :: "nl_error \<Rightarrow> bool" where
  "is_host_unreachable e = (errno e = Some EHOSTUNREACH)"

definition is_message_too_long :: "nl_error \<Rightarrow> bool" where
  "is_message_too_long e = (errno e = Some EMSGSIZE)"

definition is_too_many_open_files :: "nl_error \<Rightarrow> bool" where
  "is_too_many_open_files e = (errno e = Some EMFILE)"

definition is_read_only :: "nl_error \<Rightarrow> bool" where
  "is_read_only e = (errno e = Some EROFS)"

text \<open>The predicates callers branch on, in the order of the source.\<close>

definition error_predicates :: "(nl_error \<Rightarrow> bool) list" where
  "error_predicates =
     [is_not_found, is_permission_denied, is_already_exists, is_busy, is_invalid_argument,
      is_no_device, is_not_supported, is_network_unreachable, is_timeout, is_truncated,
      is_backpressure, is_dump_interrupted, is_pool_exhausted, is_pool_closed,
      is_namespace_restore_failed, is_address_in_use, is_name_too_long, is_try_again,
      is_no_buffer_space, is_connection_refused, is_host_unreachable, is_message_too_long,
      is_too_many_open_files, is_read_only]"

lemmas error_predicate_defs =
  is_not_found_def is_permission_denied_def is_already_exists_def is_busy_def
  is_invalid_argument_def is_no_device_def is_not_supported_def is_network_unreachable_def
  is_timeout_def is_truncated_def is_backpressure_def is_dump_interrupted_def
  is_pool_exhausted_def is_pool_closed_def is_namespace_restore_failed_def
  is_address_in_use_def is_name_too_long_def is_try_again_def is_no_buffer_space_def
  is_connection_refused_def is_host_unreachable_def is_message_too_long_def
  is_too_many_open_files_def is_read_only_def

section \<open>Chains of causes\<close>

text \<open>
  A chain \<open>err, err.source(), \<dots>\<close> as the list of its layers, each an \<open>Error\<close>, a
  \<open>Box<Error>\<close> or a value of another type; \<open>chain_next\<close> is \<open>ChainWalk::next\<close>, its state the
  layers still to visit.
\<close>

datatype chain_layer = PlainLayer nl_error | BoxedLayer nl_error | ForeignLayer

fun chain_next :: "chain_layer list \<Rightarrow> (nl_error \<times> chain_layer list) option" where
  "chain_next [] = None"
| "chain_next (PlainLayer e # rest) = Some (e, rest)"
| "chain_next (BoxedLayer e # rest) = Some (e, rest)"
| "chain_next (ForeignLayer # rest) = chain_next rest"

lemma chain_next_shorter: "chain_next ls = Some (e, ls') \<Longrightarrow> length ls' < length ls"
  by (induction ls rule: chain_next.induct) auto

interpretation chain_iter: byte_iter chain_next
  by unfold_locales (rule chain_next_shorter)

definition chain_walk :: "chain_layer list \<Rightarrow> nl_error list" where
  "chain_walk ls = iter_all chain_next ls"

definition root_cause :: "nl_error \<Rightarrow> chain_layer list \<Rightarrow> nl_error" where
  "root_cause self sources = (let es = chain_walk (PlainLayer self # sources)
     in if es = [] then self else last es)"

fun layer_error :: "chain_layer \<Rightarrow> nl_error option" where
  "layer_error (PlainLayer e) = Some e"
| "layer_error (BoxedLayer e) = Some e"
| "layer_error ForeignLayer = None"

lemma chain_walk_filter: "chain_walk ls = List.map_filter layer_error ls"
proof (induction ls)
  case Nil
  show ?case by (simp add: chain_walk_def chain_iter.iter_None)
next
  case (Cons l ls)
  have skip: "iter_all chain_next (ForeignLayer # ls) = iter_all chain_next ls"
    by (simp add: chain_iter.iter_unfold [of "ForeignLayer # ls"] chain_iter.iter_unfold [of ls])
  show ?case
    using Cons.IH skip by (cases l) (simp_all add: chain_walk_def chain_iter.iter_Some)
qed

section \<open>Properties\<close>

lemma errno_with_context [simp]: "errno (with_context e p) = errno e"
  by (cases e) auto

lemma from_errno_errno [simp]: "errno (from_errno_ext_ack se n a off) = Some (i32_abs n)"
  by (simp add: from_errno_ext_ack_def Let_def)

lemma int_word_sint_take: "sint (word_of_int i :: i32) = signed_take_bit 31 i"
  by (simp add: signed_of_int)

lemma sint_uminus:
  assumes "sint n \<noteq> - (2 ^ 31)"
  shows "sint (- n :: i32) = - sint n"
proof -
  have "- (2 ^ 31) \<le> sint n" "sint n < 2 ^ 31"
    using sint_ge [of n] sint_lt [of n] by simp_all
  then have "signed_take_bit 31 (- sint n) = - sint n"
    using assms by (intro signed_take_bit_int_eq_self) auto
  moreover have "- n = word_of_int (- sint n)" by simp
  ultimately show ?thesis
    by (metis int_word_sint_take)
qed

lemma i32_abs_min: "sint (n :: i32) = - (2 ^ 31) \<Longrightarrow> - n = n"
proof -
  assume a: "sint n = - (2 ^ 31)"
  have "n = word_of_int (sint n)" by simp
  then have "n = 2147483648" unfolding a by simp
  then show ?thesis by simp
qed

lemma i32_abs_neg [simp]: "i32_abs (- n) = i32_abs n"
proof (cases "sint n = - (2 ^ 31)")
  case True
  then show ?thesis using i32_abs_min [of n] by (simp add: i32_abs_def)
next
  case False
  have "n = 0" if "sint n = 0"
  proof -
    have "n = word_of_int (sint n)" by simp
    with that show ?thesis by simp
  qed
  with False show ?thesis by (auto simp: i32_abs_def sint_uminus)
qed

lemma i32_abs_nonneg: "n \<noteq> 0x80000000 \<Longrightarrow> 0 \<le> sint (i32_abs n)"
proof -
  assume n: "n \<noteq> 0x80000000"
  have "sint n \<noteq> - (2 ^ 31)"
  proof
    assume a: "sint n = - (2 ^ 31)"
    have "n = word_of_int (sint n)" by simp
    then have "n = 0x80000000" unfolding a by simp
    with n show False by simp
  qed
  then show ?thesis by (auto simp: i32_abs_def sint_uminus)
qed

lemma is_typed_not_found_context [simp]:
  "is_typed_not_found (with_context e p) = is_typed_not_found e"
  by (cases e) auto

lemma with_context_same_variant:
  "(with_context e p = e \<and> with_context e p' = e) \<or> (\<exists>n m a off. e = Kernel n m a off \<and>
     with_context e p = KernelWithContext p n m a off)"
  by (cases e) auto

text \<open>
  Wrapping an error with the name of the failed operation changes no accessor and no
  classification predicate: callers that branch on \<open>is_busy\<close>, \<open>is_not_found\<close> and the
  others see the same answer with and without context, and wrapping twice keeps the inner
  operation name.
\<close>

theorem with_context_transparent:
  "errno (with_context e p) = errno e
   \<and> ext_ack (with_context e p) = ext_ack e
   \<and> ext_ack_offset (with_context e p) = ext_ack_offset e
   \<and> map (\<lambda>q. q (with_context e p)) error_predicates = map (\<lambda>q. q e) error_predicates
   \<and> with_context (with_context e p) p' = with_context e p"
  using with_context_same_variant [of e p p']
  by (auto simp: error_predicates_def error_predicate_defs)

text \<open>
  The factory accepts the kernel's negative errno and the positive POSIX number
  alike, stores the non-negative one (for every input but \<open>i32::MIN\<close>) and carries the
  extended-ack fields unchanged; a zero-context factory agrees with adding context later.
\<close>

theorem from_errno_sign:
  assumes "n \<noteq> 0x80000000"
  shows "from_errno_ext_ack se (- n) a off = from_errno_ext_ack se n a off
    \<and> (\<exists>k. errno (from_errno_ext_ack se n a off) = Some k \<and> 0 \<le> sint k \<and> (k = n \<or> k = - n))
    \<and> ext_ack (from_errno_ext_ack se n a off) = a
    \<and> ext_ack_offset (from_errno_ext_ack se n a off) = off
    \<and> with_context (from_errno_ext_ack se n a off) p
        = from_errno_with_context_ext_ack se n p a off"
  using i32_abs_nonneg [OF assms] i32_abs_neg [of n]
  by (simp add: from_errno_ext_ack_def from_errno_with_context_ext_ack_def Let_def)
    (auto simp: i32_abs_def)

theorem from_errno_sign_witness:
  "errno (from_errno_ext_ack (\<lambda>_. []) (- 17) None None) = Some 17
   \<and> is_already_exists (from_errno_ext_ack (\<lambda>_. []) (- 17) None None)"
  using from_errno_sign [of 17 "\<lambda>_. []" None None "[]"]
  by (simp add: is_already_exists_def i32_abs_def)

end
