(* ===== verification/Netlink_Attr.thy ===== *)
theory Netlink_Attr
  imports Netlink_Error "HOL-Library.Sublist"
begin

text \<open>
  Netlink attributes (\<open>netlink/attr.rs\<close>): alignment, the 4-byte \<open>NlAttr\<close> header with its
  flag bits, the iterator over a buffer of attributes, and the typed extractors of the
  \<open>get\<close> module.  A \<open>usize\<close> length of a buffer in memory is a \<open>nat\<close> (a \<open>Vec\<close> is at most
  \<open>isize::MAX\<close> bytes long, so no sum of two lengths wraps); \<open>nla_align_usize\<close> is the same
  function on 64-bit words, with its wrap-around.
\<close>

section \<open>Alignment\<close>

abbreviation NLA_ALIGNTO :: nat where "NLA_ALIGNTO \<equiv> 4"
abbreviation NLA_HDRLEN :: nat where "NLA_HDRLEN \<equiv> 4"

definition nla_align_usize :: "usize \<Rightarrow> usize" where
  "nla_align_usize len = (len + 4 - 1) AND NOT (4 - 1)"

definition nla_align :: "nat \<Rightarrow> nat" where
  "nla_align len = (len + 3) div 4 * 4"

lemma nla_align_ge [simp]: "len \<le> nla_align len"
  unfolding nla_align_def by linarith

lemma nla_align_lt: "nla_align len < len + 4"
  unfolding nla_align_def by linarith

lemma nla_align_dvd [simp]: "4 dvd nla_align len"
  by (simp add: nla_align_def)

lemma nla_align_mod [simp]: "nla_align len mod 4 = 0"
  by (simp add: nla_align_def)

lemma nla_align_id: "4 dvd len \<Longrightarrow> nla_align len = len"
  by (auto simp: nla_align_def elim!: dvdE)

lemma nla_align_least: "len \<le> m \<Longrightarrow> 4 dvd m \<Longrightarrow> nla_align len \<le> m"
  unfolding nla_align_def by (auto elim!: dvdE)

lemma nla_align_add: "4 dvd a \<Longrightarrow> nla_align (a + b) = a + nla_align b"
  unfolding nla_align_def by (auto simp: add.assoc elim!: dvdE)

lemma nla_align_4 [simp]: "nla_align (4 + b) = 4 + nla_align b"
  by (rule nla_align_add) simp

lemma clear_low_bits: "(x :: 'a::len word) AND NOT (mask n) = push_bit n (drop_bit n x)"
  by (rule bit_eqI) (auto simp: bit_simps)

lemma clear_low_bits_unat:
  "unat ((x :: 'a::len word) AND NOT (mask n)) = unat x div 2 ^ n * 2 ^ n"
proof -
  have "unat x div 2 ^ n * 2 ^ n \<le> unat x" by simp
  also have "unat x < 2 ^ LENGTH('a)" by (rule unsigned_less)
  finally have "unat x div 2 ^ n * 2 ^ n < 2 ^ LENGTH('a)" .
  then show ?thesis
    by (simp only: clear_low_bits unsigned_push_bit_eq unsigned_drop_bit_eq) 
      (simp add: push_bit_eq_mult drop_bit_eq_div take_bit_eq_mod)
qed

lemma nla_align_usize_unat:
  "unat len + 3 < 2 ^ 64 \<Longrightarrow> unat (nla_align_usize len) = nla_align (unat len)"
proof -
  assume small: "unat len + 3 < 2 ^ 64"
  have "unat (len + 3) = unat len + 3"
    using small by (simp add: unat_word_ariths)
  moreover have "nla_align_usize len = (len + 3) AND NOT (mask 2)"
    by (simp add: nla_align_usize_def mask_eq_exp_minus_1 add.commute)
  ultimately show ?thesis
    using clear_low_bits_unat [of "len + 3" 2] by (simp add: nla_align_def)
qed

section \<open>The header\<close>

record nl_attr =
  nla_len :: u16
  nla_type :: u16

abbreviation NLA_F_NESTED :: u16 where "NLA_F_NESTED \<equiv> 0x8000"
abbreviation NLA_F_NET_BYTEORDER :: u16 where "NLA_F_NET_BYTEORDER \<equiv> 0x4000"
abbreviation NLA_TYPE_MASK :: u16 where
  "NLA_TYPE_MASK \<equiv> NOT (NLA_F_NESTED OR NLA_F_NET_BYTEORDER)"

text \<open>
  \<open>NlAttr::new\<close>.  A debug build stops at its assertion when the total does not fit
  \<open>u16\<close> (\<open>nl_attr_new_debug\<close>); a release build saturates.
\<close>

definition nl_attr_new :: "u16 \<Rightarrow> nat \<Rightarrow> nl_attr" where
  "nl_attr_new attr_type data_len =
     \<lparr>nla_len = of_nat (min (NLA_HDRLEN + data_len) 65535), nla_type = attr_type\<rparr>"

definition nl_attr_new_debug :: "u16 \<Rightarrow> nat \<Rightarrow> nl_attr option" where
  "nl_attr_new_debug attr_type data_len =
     (if NLA_HDRLEN + data_len \<le> 65535 then Some (nl_attr_new attr_type data_len) else None)"

definition nla_kind :: "nl_attr \<Rightarrow> u16" where
  "nla_kind a = nla_type a AND NLA_TYPE_MASK"

definition nla_is_nested :: "nl_attr \<Rightarrow> bool" where
  "nla_is_nested a = (nla_type a AND NLA_F_NESTED \<noteq> 0)"

definition nla_payload_len :: "nl_attr \<Rightarrow> nat" where
  "nla_payload_len a = unat (nla_len a) - NLA_HDRLEN"

definition nl_attr_as_bytes :: "endian \<Rightarrow> nl_attr \<Rightarrow> bytes" where
  "nl_attr_as_bytes e a = ne_bytes e 2 (nla_len a) @ ne_bytes e 2 (nla_type a)"

definition nl_attr_from_bytes :: "endian \<Rightarrow> bytes \<Rightarrow> nl_attr nl_result" where
  "nl_attr_from_bytes e data =
     (if length data < 4 then Inl (Truncated 4 (length data))
      else Inr \<lparr>nla_len = ne_word e (take 2 data), nla_type = ne_word e (take 2 (drop 2 data))\<rparr>)"

fun ok_of :: "'e + 'a \<Rightarrow> 'a option" where
  "ok_of (Inl _) = None"
| "ok_of (Inr x) = Some x"

lemma length_nl_attr_as_bytes [simp]: "length (nl_attr_as_bytes e a) = 4"
  by (simp add: nl_attr_as_bytes_def)

lemma nl_attr_from_as_bytes [simp]: "nl_attr_from_bytes e (nl_attr_as_bytes e a @ r) = Inr a"
  by (simp add: nl_attr_from_bytes_def nl_attr_as_bytes_def ne_word_bytes)

lemma split_4_bytes: "4 \<le> length bs \<Longrightarrow> take 4 bs = take 2 bs @ take 2 (drop 2 bs)"
  by (metis add_2_eq_Suc' numeral_Bit0 one_add_one take_add)

interpretation attr_codec: wire_codec "nl_attr_as_bytes e" "\<lambda>bs. ok_of (nl_attr_from_bytes e bs)" 4 for e
proof
  fix bs x
  assume "ok_of (nl_attr_from_bytes e bs) = Some x"
  then show "nl_attr_as_bytes e x = take 4 bs"
    by (auto simp: nl_attr_from_bytes_def nl_attr_as_bytes_def split_4_bytes ne_bytes_word
        split: if_splits)
qed (simp_all, simp add: nl_attr_from_bytes_def)

lemma nl_attr_new_len:
  "data_len \<le> 65531 \<Longrightarrow> unat (nla_len (nl_attr_new t data_len)) = NLA_HDRLEN + data_len"
proof -
  assume "data_len \<le> 65531"
  then have "min (NLA_HDRLEN + data_len) 65535 = NLA_HDRLEN + data_len" by simp
  moreover have "unat (of_nat (NLA_HDRLEN + data_len) :: u16) = NLA_HDRLEN + data_len"
    by (rule unat_of_nat_id) (use \<open>data_len \<le> 65531\<close> in simp)
  ultimately show ?thesis by (simp only: nl_attr_new_def nl_attr.simps)
qed

lemma nl_attr_new_type [simp]: "nla_type (nl_attr_new t n) = t"
  by (simp add: nl_attr_new_def)

text \<open>A type number that uses no flag bit.\<close>

definition plain_type :: "u16 \<Rightarrow> bool" where
  "plain_type t = (t AND NLA_TYPE_MASK = t)"

lemma plain_type_iff: "plain_type t = (t < 0x4000)"
proof -
  have m: "NLA_TYPE_MASK = mask 14" by (simp add: mask_eq_exp_minus_1)
  show ?thesis unfolding plain_type_def m mask_eq_iff
    by (simp add: word_less_alt)
qed

section \<open>The attribute iterator\<close>

definition attr_next :: "endian \<Rightarrow> bytes \<Rightarrow> ((u16 \<times> bytes) \<times> bytes) option" where
  "attr_next e data =
     (if length data < NLA_HDRLEN then None
      else case nl_attr_from_bytes e data of
        Inl _ \<Rightarrow> None
      | Inr attr \<Rightarrow>
          (let len = unat (nla_len attr) in
           if len < NLA_HDRLEN \<or> len > length data then None
           else let payload = drop NLA_HDRLEN (take len data);
                    aligned_len = nla_align len
                in Some ((nla_kind attr, payload),
                     if aligned_len \<ge> length data then [] else drop aligned_len data)))"

definition attr_iter_is_empty :: "bytes \<Rightarrow> bool" where
  "attr_iter_is_empty data = (length data < NLA_HDRLEN)"

text \<open>The attributes a \<open>for (kind, payload) in AttrIter::new(data)\<close> loop visits.\<close>

definition attrs_of :: "endian \<Rightarrow> bytes \<Rightarrow> (u16 \<times> bytes) list" where
  "attrs_of e data = iter_all (attr_next e) data"

lemma attr_next_progress:
  "attr_next e data = Some (a, rest) \<Longrightarrow> length rest < length data"
  by (auto simp: attr_next_def Let_def nla_align_def split: if_splits sum.splits)

interpretation attr_it: byte_iter "attr_next e" for e
  by unfold_locales (rule attr_next_progress)

text \<open>Everything the iterator yields lies inside the buffer.\<close>

lemma attr_next_sub:
  assumes "attr_next e data = Some ((k, p), rest)"
  shows "\<exists>h pad. length h = 4 \<and> length pad < 4 \<and> data = h @ p @ pad @ rest"
proof -
  obtain attr where "nl_attr_from_bytes e data = Inr attr"
    using assms by (auto simp: attr_next_def split: if_splits sum.splits)
  define len where "len = unat (nla_len attr)"
  have a: "\<not> length data < 4" "\<not> (len < 4 \<or> len > length data)" "p = drop 4 (take len data)"
    "rest = (if nla_align len \<ge> length data then [] else drop (nla_align len) data)"
    using assms \<open>nl_attr_from_bytes e data = Inr attr\<close>
    by (auto simp: attr_next_def len_def Let_def split: if_splits)
  define m where "m = min (nla_align len) (length data)"
  have m: "len \<le> m" "m < len + 4" "m \<le> length data"
    using a nla_align_ge [of len] nla_align_lt [of len] by (auto simp: m_def)
  have rest: "rest = drop m data" using a by (auto simp: m_def)
  have "data = take len data @ drop len data" by simp
  also have "take len data = take 4 data @ p"
    using a by (metis append_take_drop_id min.absorb1 not_le_imp_less nat_less_le take_take less_or_eq_imp_le)
  also have "drop len data = take (m - len) (drop len data) @ rest"
    using m rest by (metis append_take_drop_id drop_drop le_add_diff_inverse2)
  finally show ?thesis
    using a m by (intro exI [of _ "take 4 data"] exI [of _ "take (m - len) (drop len data)"]) auto
qed

section \<open>The encoded form of an attribute\<close>

definition attr_pad :: "nat \<Rightarrow> bytes" where
  "attr_pad n = replicate (nla_align n - n) 0"

definition attr_wire :: "endian \<Rightarrow> u16 \<Rightarrow> bytes \<Rightarrow> bytes" where
  "attr_wire e t d = nl_attr_as_bytes e (nl_attr_new t (length d)) @ d @ attr_pad (length d)"

lemma length_attr_pad: "length (attr_pad n) = nla_align n - n"
  by (simp add: attr_pad_def)

lemma length_wire_pad: "length d + length (attr_pad (length d)) = nla_align (length d)"
  by (simp add: length_attr_pad)

lemma length_attr_wire: "length (attr_wire e t d) = 4 + nla_align (length d)"
  by (simp add: attr_wire_def length_attr_pad)

lemma attr_wire_dvd [simp]: "4 dvd length (attr_wire e t d)"
  by (simp add: length_attr_wire)

text \<open>One step of the iterator reads back one encoded attribute, padding included.\<close>

lemma attr_next_raw:
  assumes "length d \<le> 65531"
    and "p = attr_pad (length d) \<or> (p = [] \<and> r = [])"
  shows "attr_next e (nl_attr_as_bytes e (nl_attr_new t (length d)) @ d @ p @ r)
    = Some ((t AND NLA_TYPE_MASK, d), r)"
proof -
  define b where "b = nl_attr_as_bytes e (nl_attr_new t (length d)) @ d @ p @ r"
  have hdr: "nl_attr_from_bytes e b = Inr (nl_attr_new t (length d))" by (simp add: b_def)
  have len: "unat (nla_len (nl_attr_new t (length d))) = 4 + length d"
    by (rule nl_attr_new_len [OF assms(1)])
  have bound: "4 + length d \<le> length b" and payload: "drop 4 (take (4 + length d) b) = d"
    by (simp_all add: b_def)
  have rest: "(if nla_align (4 + length d) \<ge> length b then [] else drop (nla_align (4 + length d)) b) = r"
    unfolding b_def
    using assms(2) length_wire_pad [of d] nla_align_ge [of "length d"]
    by (cases r) (auto simp del: nla_align_ge)
  have "attr_next e b = Some ((t AND NLA_TYPE_MASK, d),
      if nla_align (4 + length d) \<ge> length b then [] else drop (nla_align (4 + length d)) b)"
    using bound payload by (simp add: attr_next_def hdr len Let_def nla_kind_def del: nla_align_4)
  then show ?thesis using rest by (simp only: b_def)
qed

lemma attr_next_wire:
  "length d \<le> 65531 \<Longrightarrow> attr_next e (attr_wire e t d @ r) = Some ((t AND NLA_TYPE_MASK, d), r)"
  using attr_next_raw [of d "attr_pad (length d)" r e t] by (simp add: attr_wire_def)

lemma attrs_of_wire:
  "length d \<le> 65531 \<Longrightarrow> attrs_of e (attr_wire e t d @ r) = (t AND NLA_TYPE_MASK, d) # attrs_of e r"
  unfolding attrs_of_def by (rule attr_it.iter_Some) (rule attr_next_wire)

lemma attrs_of_Nil [simp]: "attrs_of e [] = []"
  unfolding attrs_of_def by (rule attr_it.iter_None) (simp add: attr_next_def)

section \<open>Typed extraction\<close>

definition get_u8 :: "bytes \<Rightarrow> u8 nl_result" where
  "get_u8 data = (case data of [] \<Rightarrow> Inl (InvalidAttribute ''empty u8 attribute'') | b # _ \<Rightarrow> Inr b)"

definition get_u16_ne :: "endian \<Rightarrow> bytes \<Rightarrow> u16 nl_result" where
  "get_u16_ne e data =
     (if length data < 2 then Inl (InvalidAttribute ''truncated u16 attribute'')
      else Inr (ne_word e (take 2 data)))"

definition get_u32_ne :: "endian \<Rightarrow> bytes \<Rightarrow> u32 nl_result" where
  "get_u32_ne e data =
     (if length data < 4 then Inl (InvalidAttribute ''truncated u32 attribute'')
      else Inr (ne_word e (take 4 data)))"

definition get_u64_ne :: "endian \<Rightarrow> bytes \<Rightarrow> u64 nl_result" where
  "get_u64_ne e data =
     (if length data < 8 then Inl (InvalidAttribute ''truncated u64 attribute'')
      else Inr (ne_word e (take 8 data)))"

definition get_u16_be :: "bytes \<Rightarrow> u16 nl_result" where
  "get_u16_be data =
     (if length data < 2 then Inl (InvalidAttribute ''truncated u16 attribute'')
      else Inr (be_word (take 2 data)))"

definition get_u32_be :: "bytes \<Rightarrow> u32 nl_result" where
  "get_u32_be data =
     (if length data < 4 then Inl (InvalidAttribute ''truncated u32 attribute'')
      else Inr (be_word (take 4 data)))"

definition get_u64_be :: "bytes \<Rightarrow> u64 nl_result" where
  "get_u64_be data =
     (if length data < 8 then Inl (InvalidAttribute ''truncated u64 attribute'')
      else Inr (be_word (take 8 data)))"

definition get_i32_ne :: "endian \<Rightarrow> bytes \<Rightarrow> i32 nl_result" where
  "get_i32_ne e data =
     (if length data < 4 then Inl (InvalidAttribute ''truncated i32 attribute'')
      else Inr (ne_word e (take 4 data)))"

definition get_string :: "bytes \<Rightarrow> string nl_result" where
  "get_string data =
     (case from_utf8 (until_nul data) of
        None \<Rightarrow> Inl (InvalidAttribute (''invalid UTF-8: '' @ utf8_error_text (until_nul data)))
      | Some s \<Rightarrow> Inr s)"

definition get_bytes :: "bytes \<Rightarrow> bytes" where
  "get_bytes data = data"

lemma get_word_wire [simp]:
  "get_u16_ne e (ne_bytes e 2 a) = Inr a"
  "get_u32_ne e (ne_bytes e 4 b) = Inr b"
  "get_u64_ne e (ne_bytes e 8 c) = Inr c"
  "get_u16_be (be_bytes 2 a) = Inr a"
  "get_u32_be (be_bytes 4 b) = Inr b"
  "get_u64_be (be_bytes 8 c) = Inr c"
  "get_i32_ne e (ne_bytes e 4 d) = Inr d"
  by (simp_all add: get_u16_ne_def get_u32_ne_def get_u64_ne_def get_u16_be_def get_u32_be_def
      get_u64_be_def get_i32_ne_def ne_word_bytes)

lemma until_nul_append: "0 \<notin> set bs \<Longrightarrow> until_nul (bs @ 0 # r) = bs"
  by (induction bs) (auto simp: until_nul_def)

lemma until_nul_none: "0 \<notin> set bs \<Longrightarrow> until_nul bs = bs"
  by (induction bs) (auto simp: until_nul_def)

lemma get_string_wire:
  "utf8_valid (bytes_of_str s) \<Longrightarrow> 0 \<notin> set (bytes_of_str s) \<Longrightarrow>
     get_string (bytes_of_str s @ [0]) = Inr s"
  by (simp add: get_string_def until_nul_append from_utf8_def)

section \<open>Properties\<close>

lemma attrs_of_slots: "4 * length (attrs_of e data) \<le> length data"
  unfolding attrs_of_def
proof (induction data rule: attr_it.iter_induct [where e = e])
  case (1 s)
  then show ?case by (simp add: attr_it.iter_None)
next
  case (2 s i s')
  obtain k p where i: "i = (k, p)" by fastforce
  obtain h pad where "length h = 4" "s = h @ p @ pad @ s'"
    using attr_next_sub 2 i by blast
  then show ?case using 2 by (simp add: attr_it.iter_Some)
qed

lemma attr_next_kind: "attr_next e data = Some ((k, p), rest) \<Longrightarrow> k AND NLA_TYPE_MASK = k"
  by (auto simp: attr_next_def nla_kind_def Let_def and.assoc split: if_splits sum.splits)

text \<open>
  The attribute iterator is safe on hostile input: whatever bytes it is given, it
  stops, it never yields more attributes than the buffer has header-sized slots, every
  payload it yields is a contiguous part of the buffer, and the kinds it reports carry no
  flag bit.
\<close>

theorem attr_iter_safe:
  "4 * length (attrs_of e data) \<le> length data
   \<and> list_all (\<lambda>(k, p). k AND NLA_TYPE_MASK = k \<and> sublist p data) (attrs_of e data)"
proof (intro conjI attrs_of_slots)
  show "list_all (\<lambda>(k, p). k AND NLA_TYPE_MASK = k \<and> sublist p data) (attrs_of e data)"
    unfolding attrs_of_def
  proof (induction data rule: attr_it.iter_induct [where e = e])
    case (1 s)
    then show ?case by (simp add: attr_it.iter_None)
  next
    case (2 s i s')
    obtain k p where i: "i = (k, p)" by fastforce
    obtain h pad where s: "s = h @ p @ pad @ s'"
      using attr_next_sub 2 i by blast
    then have "sublist p s" "sublist s' s"
      by (auto simp: sublist_def) (metis append.assoc append_Nil2)
    then have "list_all (\<lambda>(k, p). k AND NLA_TYPE_MASK = k \<and> sublist p s) (iter_all (attr_next e) s')"
      using 2(2) by (auto simp: list_all_iff intro: sublist_order.order_trans)
    with 2(1) i \<open>sublist p s\<close> attr_next_kind [of e s k p s'] show ?case
      by (simp add: attr_it.iter_Some)
  qed
qed

end
