(* ===== verification/Ip_Addr.thy ===== *)
theory Ip_Addr
  imports Netlink_Attr
begin

text \<open>
  \<open>std::net\<close> addresses as the library uses them: an \<open>Ipv4Addr\<close> is its 32-bit number, an
  \<open>Ipv6Addr\<close> its 128-bit number, and their octets are the big-endian bytes of it.
\<close>

type_synonym ipv4 = u32
type_synonym ipv6 = u128

datatype ip_addr = V4 ipv4 | V6 ipv6

fun ip_octets :: "ip_addr \<Rightarrow> bytes" where
  "ip_octets (V4 a) = be_bytes 4 a"
| "ip_octets (V6 a) = be_bytes 16 a"

fun is_ipv4 :: "ip_addr \<Rightarrow> bool" where
  "is_ipv4 (V4 a) = True"
| "is_ipv4 (V6 a) = False"

definition ipv4_new :: "u8 \<Rightarrow> u8 \<Rightarrow> u8 \<Rightarrow> u8 \<Rightarrow> ipv4" where
  "ipv4_new a b c d = be_word [a, b, c, d]"

definition ipv6_from :: "bytes \<Rightarrow> ipv6" where
  "ipv6_from octets = be_word octets"

lemma ipv4_new_octets [simp]: "be_bytes 4 (ipv4_new a b c d) = [a, b, c, d]"
  unfolding ipv4_new_def by (rule ne_bytes_word) simp_all

lemma take_4: "4 \<le> length bs \<Longrightarrow> take 4 bs = [bs ! 0, bs ! 1, bs ! 2, bs ! 3]"
  by (rule nth_equalityI) (auto simp: nth_Cons numeral_eq_Suc less_Suc_eq split: nat.splits)

lemma ipv4_new_take: "4 \<le> length bs \<Longrightarrow> ipv4_new (bs ! 0) (bs ! 1) (bs ! 2) (bs ! 3) = be_word (take 4 bs)"
  by (simp add: ipv4_new_def take_4)

text \<open>\<open>Ipv4Addr\<close>'s \<open>Display\<close>, and \<open>is_loopback\<close>, \<open>is_unspecified\<close>.\<close>

definition show_ipv4 :: "ipv4 \<Rightarrow> string" where
  "show_ipv4 a = join_with ''.'' (map (\<lambda>b. show_nat (unat b)) (be_bytes 4 a))"

text \<open>\<open>[a, b] | [a] << n\<close> of a prefix: the mask of the first \<open>n\<close> bits of a \<open>w\<close>-bit word.\<close>

definition prefix_mask :: "nat \<Rightarrow> 'a::len word" where
  "prefix_mask n = push_bit (LENGTH('a) - n) (- 1)"

lemma bit_prefix_mask:
  "bit (prefix_mask n :: 'a::len word) i = (LENGTH('a) - n \<le> i \<and> i < LENGTH('a))"
  by (auto simp: prefix_mask_def bit_simps)

text \<open>Two numbers agree under the mask exactly when their first \<open>n\<close> bits are the same.\<close>

lemma prefix_mask_agree:
  "((x :: 'a::len word) AND prefix_mask n = y AND prefix_mask n)
    = (drop_bit (LENGTH('a) - n) x = drop_bit (LENGTH('a) - n) y)"
proof
  assume a: "x AND prefix_mask n = y AND prefix_mask n"
  show "drop_bit (LENGTH('a) - n) x = drop_bit (LENGTH('a) - n) y"
  proof (rule bit_eqI)
    fix i
    have "bit (x AND prefix_mask n) (LENGTH('a) - n + i) = bit (y AND prefix_mask n) (LENGTH('a) - n + i)"
      using a by simp
    then show "bit (drop_bit (LENGTH('a) - n) x) i = bit (drop_bit (LENGTH('a) - n) y) i"
      by (auto simp: bit_and_iff bit_prefix_mask bit_drop_bit_eq dest: bit_imp_le_length)
  qed
next
  assume a: "drop_bit (LENGTH('a) - n) x = drop_bit (LENGTH('a) - n) y"
  show "x AND prefix_mask n = y AND prefix_mask n"
  proof (rule bit_eqI)
    fix i
    have "bit (drop_bit (LENGTH('a) - n) x) (i - (LENGTH('a) - n))
        = bit (drop_bit (LENGTH('a) - n) y) (i - (LENGTH('a) - n))"
      using a by simp
    then show "bit (x AND prefix_mask n) i = bit (y AND prefix_mask n) i"
      by (auto simp: bit_and_iff bit_prefix_mask bit_drop_bit_eq)
  qed
qed

end
