(* ===== verification/Netlink_Message.thy ===== *)
theory Netlink_Message
  imports Netlink_Attr
begin

text \<open>
  Netlink messages (\<open>netlink/message.rs\<close>): the 16-byte \<open>NlMsgHdr\<close>, the iterator over the
  frames of a receive buffer, and the error payload with its extended-ack attributes.  The
  byte order of the host is the argument \<open>e\<close>.  \<open>zerocopy\<close>'s reference casts also require
  the buffer to be aligned for the header type; the receive buffers are, and the model
  has no addresses, so that failure is outside it.
\<close>

section \<open>Alignment\<close>

text \<open>\<open>nlmsg_align\<close> saturates where the addition would overflow.\<close>

definition usize_saturating_add :: "usize \<Rightarrow> usize \<Rightarrow> usize" where
  "usize_saturating_add a b = (if unat a + unat b < 2 ^ 64 then a + b else - 1)"

definition nlmsg_align_usize :: "usize \<Rightarrow> usize" where
  "nlmsg_align_usize len = (let bumped = usize_saturating_add len (4 - 1) in bumped AND NOT (4 - 1))"

definition nlmsg_align_checked :: "usize \<Rightarrow> usize option" where
  "nlmsg_align_checked len =
     (if unat len + 3 < 2 ^ 64 then Some ((len + (4 - 1)) AND NOT (4 - 1)) else None)"

definition nlmsg_align :: "nat \<Rightarrow> nat" where
  "nlmsg_align len = (len + 3) div 4 * 4"

lemma nlmsg_align_nla [simp]: "nlmsg_align = nla_align"
  by (simp add: fun_eq_iff nlmsg_align_def nla_align_def)

lemma usize_align_mask:
  assumes "unat len + 3 < 2 ^ 64"
  shows "unat ((len + 3) AND NOT (3 :: usize)) = nlmsg_align (unat len)"
proof -
  have "(len + 3) AND NOT (3 :: usize) = nla_align_usize len"
    by (simp add: nla_align_usize_def add.commute)
  then show ?thesis using nla_align_usize_unat [OF assms] by simp
qed

section \<open>The header\<close>

abbreviation NLMSG_HDRLEN :: nat where "NLMSG_HDRLEN \<equiv> 16"

record nl_msg_hdr =
  nlmsg_len :: u32
  nlmsg_type :: u16
  nlmsg_flags :: u16
  nlmsg_seq :: u32
  nlmsg_pid :: u32

definition NOOP :: u16 where "NOOP = 1"
definition ERROR :: u16 where "ERROR = 2"
definition DONE :: u16 where "DONE = 3"
definition OVERRUN :: u16 where "OVERRUN = 4"

definition NLM_F_REQUEST :: u16 where "NLM_F_REQUEST = 0x01"
definition NLM_F_MULTI :: u16 where "NLM_F_MULTI = 0x02"
definition NLM_F_ACK :: u16 where "NLM_F_ACK = 0x04"
definition NLM_F_DUMP_INTR :: u16 where "NLM_F_DUMP_INTR = 0x10"
definition NLM_F_ROOT :: u16 where "NLM_F_ROOT = 0x100"
definition NLM_F_MATCH :: u16 where "NLM_F_MATCH = 0x200"
definition NLM_F_DUMP :: u16 where "NLM_F_DUMP = NLM_F_ROOT OR NLM_F_MATCH"
definition NLM_F_REPLACE :: u16 where "NLM_F_REPLACE = 0x100"
definition NLM_F_EXCL :: u16 where "NLM_F_EXCL = 0x200"
definition NLM_F_CREATE :: u16 where "NLM_F_CREATE = 0x400"
definition NLM_F_APPEND :: u16 where "NLM_F_APPEND = 0x800"

lemmas nlm_flag_defs =
  NLM_F_REQUEST_def NLM_F_MULTI_def NLM_F_ACK_def NLM_F_DUMP_INTR_def NLM_F_ROOT_def
  NLM_F_MATCH_def NLM_F_DUMP_def NLM_F_REPLACE_def NLM_F_EXCL_def NLM_F_CREATE_def
  NLM_F_APPEND_def

definition nl_msg_hdr_new :: "u16 \<Rightarrow> u16 \<Rightarrow> nl_msg_hdr" where
  "nl_msg_hdr_new msg_type flags =
     \<lparr>nlmsg_len = of_nat NLMSG_HDRLEN, nlmsg_type = msg_type, nlmsg_flags = flags,
      nlmsg_seq = 0, nlmsg_pid = 0\<rparr>"

text \<open>The subtraction wraps in a release build when the length is below the header's.\<close>

definition msg_payload_len :: "nl_msg_hdr \<Rightarrow> usize" where
  "msg_payload_len h = ucast (nlmsg_len h) - of_nat NLMSG_HDRLEN"

definition hdr_is_error :: "nl_msg_hdr \<Rightarrow> bool" where
  "hdr_is_error h = (nlmsg_type h = ERROR)"

definition hdr_is_done :: "nl_msg_hdr \<Rightarrow> bool" where
  "hdr_is_done h = (nlmsg_type h = DONE)"

definition hdr_is_multi :: "nl_msg_hdr \<Rightarrow> bool" where
  "hdr_is_multi h = (nlmsg_flags h AND NLM_F_MULTI \<noteq> 0)"

definition hdr_is_dump_interrupted :: "nl_msg_hdr \<Rightarrow> bool" where
  "hdr_is_dump_interrupted h = (nlmsg_flags h AND NLM_F_DUMP_INTR \<noteq> 0)"

definition nl_msg_hdr_as_bytes :: "endian \<Rightarrow> nl_msg_hdr \<Rightarrow> bytes" where
  "nl_msg_hdr_as_bytes e h =
     ne_bytes e 4 (nlmsg_len h) @ ne_bytes e 2 (nlmsg_type h) @ ne_bytes e 2 (nlmsg_flags h) @
     ne_bytes e 4 (nlmsg_seq h) @ ne_bytes e 4 (nlmsg_pid h)"

definition nl_msg_hdr_read :: "endian \<Rightarrow> bytes \<Rightarrow> nl_msg_hdr" where
  "nl_msg_hdr_read e data =
     \<lparr>nlmsg_len = ne_word e (take 4 data),
      nlmsg_type = ne_word e (take 2 (drop 4 data)),
      nlmsg_flags = ne_word e (take 2 (drop 6 data)),
      nlmsg_seq = ne_word e (take 4 (drop 8 data)),
      nlmsg_pid = ne_word e (take 4 (drop 12 data))\<rparr>"

definition nl_msg_hdr_from_bytes :: "endian \<Rightarrow> bytes \<Rightarrow> nl_msg_hdr nl_result" where
  "nl_msg_hdr_from_bytes e data =
     (if length data < 16 then Inl (Truncated 16 (length data)) else Inr (nl_msg_hdr_read e data))"

lemma length_nl_msg_hdr_as_bytes [simp]: "length (nl_msg_hdr_as_bytes e h) = 16"
  by (simp add: nl_msg_hdr_as_bytes_def)

lemma nl_msg_hdr_read_as_bytes [simp]:
  "nl_msg_hdr_read e (nl_msg_hdr_as_bytes e h @ r) = h"
  by (simp add: nl_msg_hdr_read_def nl_msg_hdr_as_bytes_def ne_word_bytes)

lemma nl_msg_hdr_from_as_bytes [simp]:
  "nl_msg_hdr_from_bytes e (nl_msg_hdr_as_bytes e h @ r) = Inr h"
  by (simp add: nl_msg_hdr_from_bytes_def)

lemma nl_msg_hdr_as_bytes_read:
  assumes "16 \<le> length bs"
  shows "nl_msg_hdr_as_bytes e (nl_msg_hdr_read e bs) = take 16 bs"
proof -
  have "take 16 bs = take 4 bs @ take 2 (drop 4 bs) @ take 2 (drop 6 bs) @
      take 4 (drop 8 bs) @ take 4 (drop 12 bs)"
    using take_add [of 4 12 bs] take_add [of 2 10 "drop 4 bs"] take_add [of 2 8 "drop 6 bs"]
      take_add [of 4 4 "drop 8 bs"] by simp
  then show ?thesis
    using assms by (simp add: nl_msg_hdr_as_bytes_def nl_msg_hdr_read_def ne_bytes_word)
qed

interpretation hdr_codec:
  wire_codec "nl_msg_hdr_as_bytes e" "\<lambda>bs. ok_of (nl_msg_hdr_from_bytes e bs)" 16 for e
proof
  fix bs x
  assume "ok_of (nl_msg_hdr_from_bytes e bs) = Some x"
  then show "nl_msg_hdr_as_bytes e x = take 16 bs"
    by (auto simp: nl_msg_hdr_from_bytes_def nl_msg_hdr_as_bytes_read split: if_splits)
qed (simp_all, simp add: nl_msg_hdr_from_bytes_def)

section \<open>The frame iterator\<close>

definition msg_next ::
  "endian \<Rightarrow> bytes \<Rightarrow> ((nl_msg_hdr \<times> bytes) nl_result \<times> bytes) option" where
  "msg_next e data =
     (if length data < NLMSG_HDRLEN then None
      else case nl_msg_hdr_from_bytes e data of
        Inl err \<Rightarrow> Some (Inl err, [])
      | Inr header \<Rightarrow>
          (let msg_len = unat (nlmsg_len header) in
           if msg_len < NLMSG_HDRLEN \<or> msg_len > length data
           then Some (Inl (InvalidMessage (''invalid message length: '' @ show_nat msg_len)), [])
           else let payload = drop NLMSG_HDRLEN (take msg_len data);
                    aligned_len = nlmsg_align msg_len
                in Some (Inr (header, payload),
                     if aligned_len \<ge> length data then [] else drop aligned_len data)))"

text \<open>The items of \<open>for frame in MessageIter::new(data)\<close>.\<close>

definition msgs_of :: "endian \<Rightarrow> bytes \<Rightarrow> (nl_msg_hdr \<times> bytes) nl_result list" where
  "msgs_of e data = iter_all (msg_next e) data"

lemma msg_next_progress:
  "msg_next e data = Some (a, rest) \<Longrightarrow> length rest < length data"
  by (auto simp: msg_next_def Let_def nla_align_def split: if_splits sum.splits)

interpretation msg_it: byte_iter "msg_next e" for e
  by unfold_locales (rule msg_next_progress)

lemma msgs_of_short: "length data < 16 \<Longrightarrow> msgs_of e data = []"
  unfolding msgs_of_def by (rule msg_it.iter_None) (simp add: msg_next_def)

text \<open>An item that is an error is the last one: the iterator is exhausted after it.\<close>

lemma msg_next_error: "msg_next e data = Some (Inl err, rest) \<Longrightarrow> rest = []"
  by (auto simp: msg_next_def Let_def split: if_splits sum.splits)

text \<open>A frame as \<open>MessageBuilder::finish\<close> leaves it.\<close>

definition frame_wire :: "endian \<Rightarrow> nl_msg_hdr \<Rightarrow> bytes \<Rightarrow> bytes" where
  "frame_wire e h p =
     nl_msg_hdr_as_bytes e (h\<lparr>nlmsg_len := of_nat (16 + length p)\<rparr>) @ p @ attr_pad (length p)"

lemma msg_next_frame:
  assumes "16 + length p < 2 ^ 32" "q = attr_pad (length p) \<or> (q = [] \<and> r = [])"
    and "nlmsg_len h = of_nat (16 + length p)"
  shows "msg_next e (nl_msg_hdr_as_bytes e h @ p @ q @ r) = Some (Inr (h, p), r)"
proof -
  define b where "b = nl_msg_hdr_as_bytes e h @ p @ q @ r"
  have hdr: "nl_msg_hdr_from_bytes e b = Inr h" by (simp add: b_def)
  have "unat (of_nat (16 + length p) :: u32) = 16 + length p"
    by (rule unat_of_nat_id) (use assms(1) in simp)
  then have len: "unat (nlmsg_len h) = 16 + length p" by (simp only: assms(3))
  have bound: "16 + length p \<le> length b" and payload: "drop 16 (take (16 + length p) b) = p"
    by (simp_all add: b_def)
  have "nla_align (16 + length p) = 16 + nla_align (length p)" by (rule nla_align_add) simp
  then have rest: "(if nla_align (16 + length p) \<ge> length b then [] else drop (nla_align (16 + length p)) b) = r"
    unfolding b_def
    using assms(2) length_wire_pad [of p] nla_align_ge [of "length p"]
    by (cases r) (auto simp del: nla_align_ge)
  have "msg_next e b = Some (Inr (h, p),
      if nla_align (16 + length p) \<ge> length b then [] else drop (nla_align (16 + length p)) b)"
    using bound payload by (simp add: msg_next_def hdr len Let_def)
  then show ?thesis using rest by (simp only: b_def)
qed

section \<open>Error payloads\<close>

record nl_msg_error =
  error_code :: i32
  error_msg :: nl_msg_hdr

definition nl_msg_error_from_bytes :: "endian \<Rightarrow> bytes \<Rightarrow> nl_msg_error nl_result" where
  "nl_msg_error_from_bytes e data =
     (if length data < 20 then Inl (Truncated 20 (length data))
      else Inr \<lparr>error_code = ne_word e (take 4 data), error_msg = nl_msg_hdr_read e (drop 4 data)\<rparr>)"

definition is_ack :: "nl_msg_error \<Rightarrow> bool" where
  "is_ack err = (error_code err = 0)"

text \<open>The buffer the attribute iterator over the extended ack starts from.\<close>

definition error_attrs :: "bytes \<Rightarrow> bytes" where
  "error_attrs payload = (if length payload > 20 then drop 20 payload else [])"

definition NLMSGERR_ATTR_MSG :: u16 where "NLMSGERR_ATTR_MSG = 1"
definition NLMSGERR_ATTR_OFFS :: u16 where "NLMSGERR_ATTR_OFFS = 2"

record parsed_ext_ack =
  ack_message :: "string option"
  ack_offset :: "u32 option"

definition ext_ack_step :: "endian \<Rightarrow> parsed_ext_ack \<Rightarrow> u16 \<times> bytes \<Rightarrow> parsed_ext_ack" where
  "ext_ack_step e out attr =
     (case attr of (attr_type, attr_payload) \<Rightarrow>
        if attr_type = NLMSGERR_ATTR_MSG then
          (let trimmed = until_nul attr_payload
           in if trimmed \<noteq> [] then out\<lparr>ack_message := Some (from_utf8_lossy trimmed)\<rparr> else out)
        else if attr_type = NLMSGERR_ATTR_OFFS \<and> length attr_payload \<ge> 4 then
          out\<lparr>ack_offset := Some (ne_word e (take 4 attr_payload))\<rparr>
        else out)"

definition parsed_ext_ack_of :: "endian \<Rightarrow> bytes \<Rightarrow> parsed_ext_ack" where
  "parsed_ext_ack_of e payload =
     foldl (ext_ack_step e) \<lparr>ack_message = None, ack_offset = None\<rparr> (attrs_of e (error_attrs payload))"

definition into_error :: "endian \<Rightarrow> (i32 \<Rightarrow> string) \<Rightarrow> nl_msg_error \<Rightarrow> bytes \<Rightarrow> nl_error" where
  "into_error e strerror err payload =
     (let ext = parsed_ext_ack_of e payload
      in from_errno_ext_ack strerror (error_code err) (ack_message ext) (ack_offset ext))"

section \<open>Properties\<close>

definition frame_ok :: "nl_msg_hdr \<times> bytes \<Rightarrow> bool" where
  "frame_ok hp = (16 + length (snd hp) < 2 ^ 32 \<and>
     nlmsg_len (fst hp) = of_nat (16 + length (snd hp)))"

lemma msgs_of_frame:
  "frame_ok (h, p) \<Longrightarrow> msgs_of e (frame_wire e h p @ r) = Inr (h, p) # msgs_of e r"
proof -
  assume ok: "frame_ok (h, p)"
  then have "h\<lparr>nlmsg_len := of_nat (16 + length p)\<rparr> = h" by (simp add: frame_ok_def)
  then have "frame_wire e h p = nl_msg_hdr_as_bytes e h @ p @ attr_pad (length p)"
    by (simp only: frame_wire_def)
  then have "msg_next e (frame_wire e h p @ r) = Some (Inr (h, p), r)"
    using msg_next_frame [of p "attr_pad (length p)" r h e] ok by (simp add: frame_ok_def)
  then show ?thesis unfolding msgs_of_def by (rule msg_it.iter_Some)
qed

lemma msgs_of_frames:
  "list_all frame_ok fs \<Longrightarrow> msgs_of e (concat (map (\<lambda>(h, p). frame_wire e h p) fs)) = map Inr fs"
  by (induction fs) (auto simp: msgs_of_short msgs_of_frame)

text \<open>
  C4. A receive buffer holding any sequence of well-formed frames is split back into
  exactly those frames, header and payload, whatever the payload lengths (the padding is
  skipped) and on either byte order.
\<close>

theorem frames_roundtrip:
  assumes "list_all frame_ok fs"
  shows "msgs_of e (concat (map (\<lambda>(h, p). frame_wire e h p) fs)) = map Inr fs"
  using assms by (rule msgs_of_frames)

theorem frames_roundtrip_witness:
  "msgs_of BigEndian (concat (map (\<lambda>(h, p). frame_wire BigEndian h p)
     [(nl_msg_hdr_new 16 1\<lparr>nlmsg_len := 19\<rparr>, [1, 2, 3]), (nl_msg_hdr_new 3 2, [])]))
   = [Inr (nl_msg_hdr_new 16 1\<lparr>nlmsg_len := 19\<rparr>, [1, 2, 3]), Inr (nl_msg_hdr_new 3 2, [])]"
  using frames_roundtrip
    [of "[(nl_msg_hdr_new 16 1\<lparr>nlmsg_len := 19\<rparr>, [1, 2, 3]), (nl_msg_hdr_new 3 2, [])]" BigEndian]
  by (simp add: frame_ok_def nl_msg_hdr_new_def)

lemma msg_next_slots:
  "msg_next e data = Some (Inr a, rest) \<Longrightarrow> length rest + 16 \<le> length data"
  by (auto simp: msg_next_def Let_def nla_align_def split: if_splits sum.splits)

lemma msg_next_payload:
  assumes "msg_next e data = Some (Inr (h, p), rest)"
  shows "sublist p data" "sublist rest data"
proof -
  have "p = drop 16 (take (unat (nlmsg_len h)) data)" "\<exists>n. rest = drop n data"
    using assms by (auto simp: msg_next_def Let_def split: if_splits sum.splits)
  then show "sublist p data" "sublist rest data"
    by (auto intro: sublist_order.order_trans [of _ "take (unat (nlmsg_len h)) data"])
qed

text \<open>
  C2. On arbitrary bytes the frame iterator terminates after at most one item per
  header-sized slot; every item but the last is a frame, so an error ends the
  iteration and is never repeated; and the payloads are parts of the buffer.
\<close>

theorem msg_iter_safe:
  "16 * length (msgs_of e data) \<le> length data
   \<and> (\<forall>i < length (msgs_of e data). isl (msgs_of e data ! i) \<longrightarrow> Suc i = length (msgs_of e data))
   \<and> list_all (case_sum (\<lambda>_. True) (\<lambda>(h, p). sublist p data)) (msgs_of e data)"
  unfolding msgs_of_def
proof (induction data rule: msg_it.iter_induct [where e = e])
  case (1 s)
  then show ?case by (simp add: msg_it.iter_None)
next
  case (2 s i s')
  note unfold = msg_it.iter_Some [OF 2(1)]
  show ?case
  proof (cases i)
    case (Inl err)
    with 2(1) have "s' = []" by (simp add: msg_next_error)
    moreover have "16 \<le> length s" using 2(1) by (auto simp: msg_next_def split: if_splits)
    ultimately show ?thesis
      using unfold Inl by (simp add: msgs_of_short [unfolded msgs_of_def])
  next
    case (Inr hp)
    obtain h p where hp: "hp = (h, p)" by fastforce
    have sub: "sublist p s" "sublist s' s" using 2(1) Inr hp msg_next_payload by auto
    have "list_all (case_sum (\<lambda>_. True) (\<lambda>(h, p). sublist p s)) (iter_all (msg_next e) s')"
      using 2(2) sub(2) by (auto simp: list_all_iff split: sum.splits intro: sublist_order.order_trans)
    moreover have "length s' + 16 \<le> length s" using 2(1) Inr msg_next_slots by auto
    ultimately show ?thesis
      using 2(2) unfold Inr hp sub(1) by (auto simp: nth_Cons split: nat.splits)
  qed
qed

theorem msg_iter_safe_witness:
  "isl (msgs_of LittleEndian (replicate 40 0) ! 0) \<and> length (msgs_of LittleEndian (replicate 40 0)) = 1"
proof -
  have "isl (msgs_of LittleEndian (replicate 40 0) ! 0) \<and> 0 < length (msgs_of LittleEndian (replicate 40 0))"
    by code_simp
  with msg_iter_safe [of LittleEndian "replicate 40 0"] show ?thesis by force
qed

definition error_wire :: "endian \<Rightarrow> i32 \<Rightarrow> nl_msg_hdr \<Rightarrow> bytes \<Rightarrow> bytes" where
  "error_wire e code h rest = ne_bytes e 4 code @ nl_msg_hdr_as_bytes e h @ rest"

lemma nl_msg_error_wire [simp]:
  "nl_msg_error_from_bytes e (error_wire e code h rest) = Inr \<lparr>error_code = code, error_msg = h\<rparr>"
  by (simp add: nl_msg_error_from_bytes_def error_wire_def ne_word_bytes)

lemma error_attrs_wire [simp]: "error_attrs (error_wire e code h rest) = rest"
  by (simp add: error_attrs_def error_wire_def)

text \<open>
  The extended ack of a capped error response is read back in full: the kernel's
  text up to its NUL, the request offset, and the positive errno, on either byte order
  and whatever follows the two attributes' padding.
\<close>

theorem ext_ack_roundtrip:
  assumes "s \<noteq> []" "0 \<notin> set (bytes_of_str s)" "utf8_valid (bytes_of_str s)" "length s \<le> 65530"
  shows "into_error e se \<lparr>error_code = code, error_msg = h\<rparr>
      (error_wire e code h (attr_wire e NLMSGERR_ATTR_MSG (bytes_of_str s @ [0])
                            @ attr_wire e NLMSGERR_ATTR_OFFS (ne_bytes e 4 off)))
    = Kernel (i32_abs code) (se (i32_abs code)) (Some s) (Some off)"
proof -
  have "bytes_of_str s \<noteq> []" using assms(1) by (simp add: bytes_of_str_def)
  moreover have "attrs_of e (attr_wire e NLMSGERR_ATTR_MSG (bytes_of_str s @ [0])
      @ attr_wire e NLMSGERR_ATTR_OFFS (ne_bytes e 4 off))
    = [(NLMSGERR_ATTR_MSG, bytes_of_str s @ [0]), (NLMSGERR_ATTR_OFFS, ne_bytes e 4 off)]"
    using assms(4) attrs_of_wire [of "ne_bytes e 4 off" e NLMSGERR_ATTR_OFFS "[]"]
    by (simp add: attrs_of_wire NLMSGERR_ATTR_MSG_def NLMSGERR_ATTR_OFFS_def)
  moreover have "NLMSGERR_ATTR_OFFS \<noteq> NLMSGERR_ATTR_MSG"
    by (simp add: NLMSGERR_ATTR_MSG_def NLMSGERR_ATTR_OFFS_def)
  ultimately show ?thesis
    using assms
    by (simp add: into_error_def parsed_ext_ack_of_def ext_ack_step_def until_nul_append
        from_utf8_lossy_def utf8_lossy_valid ne_word_bytes from_errno_ext_ack_def Let_def)
qed

lemma utf8_ascii_string: "\<forall>c\<in>set s. of_char c < (128 :: nat) \<Longrightarrow> utf8_valid (bytes_of_str s)"
  by (rule utf8_valid_ascii)
    (auto simp: bytes_of_str_def char_byte_def word_less_nat_alt unat_of_nat)

theorem ext_ack_roundtrip_witness:
  "into_error LittleEndian (\<lambda>_. []) \<lparr>error_code = - 22, error_msg = nl_msg_hdr_new 16 5\<rparr>
      (error_wire LittleEndian (- 22) (nl_msg_hdr_new 16 5)
        (attr_wire LittleEndian NLMSGERR_ATTR_MSG (bytes_of_str ''bad mtu'' @ [0])
         @ attr_wire LittleEndian NLMSGERR_ATTR_OFFS (ne_bytes LittleEndian 4 (42 :: u32))))
    = Kernel 22 [] (Some ''bad mtu'') (Some 42)"
proof -
  have "0 \<notin> set (bytes_of_str ''bad mtu'')"
    by (simp add: bytes_of_str_def char_byte_def)
  then show ?thesis
    using ext_ack_roundtrip [of "''bad mtu''" LittleEndian "\<lambda>_. []" "- 22" "nl_msg_hdr_new 16 5" 42]
    by (simp add: utf8_ascii_string i32_abs_def)
qed

text \<open>
  When the response is not capped, the echoed request stands between the embedded
  header and the attributes (the layout of a socket without \<open>NETLINK_CAP_ACK\<close>).  The
  parser reads the echoed body as attributes, so for a body that starts with two zero
  bytes (an \<open>ifinfomsg\<close> or \<open>tcmsg\<close> with family \<open>AF_UNSPEC\<close>) the whole extended ack is lost,
  whatever it says.
\<close>

theorem uncapped_ext_ack_lost:
  "parsed_ext_ack_of e (error_wire e code h ([0, 0] @ body @ acks))
     = \<lparr>ack_message = None, ack_offset = None\<rparr>"
proof -
  have "ne_word e [0, 0] = (0 :: u16)" by (cases e) (simp_all add: ne_word_def)
  then have "attr_next e ([0, 0] @ body @ acks) = None"
    by (auto simp: attr_next_def nl_attr_from_bytes_def Let_def)
  then have "attrs_of e ([0, 0] @ body @ acks) = []"
    unfolding attrs_of_def by (rule attr_it.iter_None)
  then show ?thesis by (simp add: parsed_ext_ack_of_def)
qed

section \<open>Saturating and checked alignment\<close>

lemma nlmsg_align_small:
  assumes "unat len + 3 < 2 ^ 64"
  shows "nlmsg_align_checked len = Some (nlmsg_align_usize len)
    \<and> unat (nlmsg_align_usize len) = nlmsg_align (unat len)"
  using assms usize_align_mask [of len]
  by (simp add: nlmsg_align_checked_def nlmsg_align_usize_def usize_saturating_add_def Let_def)

text \<open>
  The two \<open>usize\<close> variants agree with each other and with the unbounded function as
  long as nothing overflows; on overflow the checked one reports it, and the saturating
  one returns the largest multiple of four, not \<open>usize::MAX\<close>.
\<close>

theorem nlmsg_align_usize_spec:
  "if unat len + 3 < 2 ^ 64
   then nlmsg_align_checked len = Some (nlmsg_align_usize len)
        \<and> unat (nlmsg_align_usize len) = nlmsg_align (unat len)
   else nlmsg_align_checked len = None \<and> nlmsg_align_usize len = - 4"
  using nlmsg_align_small [of len]
  by (auto simp: nlmsg_align_checked_def nlmsg_align_usize_def usize_saturating_add_def Let_def)

end
