(* ===== verification/Netlink_Parse.thy ===== *)
theory Netlink_Parse
  imports Ip_Addr Netlink_Message
begin

text \<open>
  The parser combinators of \<open>netlink/parse.rs\<close> and its \<open>FromNetlink\<close> and \<open>ToNetlink\<close>
  implementations.  The combinators come from the \<open>winnow\<close> crate, which is not part of the
  repository: they are the record \<open>w\<close> of parsers, and \<open>winnow_ok w\<close> states the documented
  behaviour the source relies on.
\<close>

section \<open>The combinators of winnow\<close>

datatype err_mode = Backtrack | Cut

type_synonym 'a parser = "bytes \<Rightarrow> (err_mode + 'a) \<times> bytes"

record winnow =
  w_take :: "nat \<Rightarrow> bytes parser"
  w_le_u8 :: "u8 parser"
  w_le_u16 :: "u16 parser"
  w_le_u32 :: "u32 parser"

text \<open>
  \<open>take(n)\<close> yields the next \<open>n\<close> bytes or fails, \<open>le_uN\<close> decodes the next bytes as a
  little-endian integer or fails.
\<close>

definition winnow_ok :: "winnow \<Rightarrow> bool" where
  "winnow_ok w =
     ((\<forall>n s. n \<le> length s \<longrightarrow> w_take w n s = (Inr (take n s), drop n s)) \<and>
      (\<forall>n s. length s < n \<longrightarrow> isl (fst (w_take w n s))) \<and>
      (\<forall>s. 1 \<le> length s \<longrightarrow> w_le_u8 w s = (Inr (le_word (take 1 s)), drop 1 s)) \<and>
      (\<forall>s. length s < 1 \<longrightarrow> isl (fst (w_le_u8 w s))) \<and>
      (\<forall>s. 2 \<le> length s \<longrightarrow> w_le_u16 w s = (Inr (le_word (take 2 s)), drop 2 s)) \<and>
      (\<forall>s. length s < 2 \<longrightarrow> isl (fst (w_le_u16 w s))) \<and>
      (\<forall>s. 4 \<le> length s \<longrightarrow> w_le_u32 w s = (Inr (le_word (take 4 s)), drop 4 s)) \<and>
      (\<forall>s. length s < 4 \<longrightarrow> isl (fst (w_le_u32 w s))))"

definition ref_parser :: "nat \<Rightarrow> (bytes \<Rightarrow> 'a) \<Rightarrow> 'a parser" where
  "ref_parser n f s = (if length s < n then (Inl Backtrack, s) else (Inr (f (take n s)), drop n s))"

definition winnow_ref :: winnow where
  "winnow_ref = \<lparr>w_take = (\<lambda>n. ref_parser n (\<lambda>b. b)), w_le_u8 = ref_parser 1 le_word,
     w_le_u16 = ref_parser 2 le_word, w_le_u32 = ref_parser 4 le_word\<rparr>"

lemma winnow_ref_ok: "winnow_ok winnow_ref"
  by (simp add: winnow_ok_def winnow_ref_def ref_parser_def)

text \<open>The \<open>?\<close> operator.\<close>

definition pbind :: "'a parser \<Rightarrow> ('a \<Rightarrow> 'b parser) \<Rightarrow> 'b parser" where
  "pbind p f s = (case p s of (Inl e, s') \<Rightarrow> (Inl e, s') | (Inr x, s') \<Rightarrow> f x s')"

definition preturn :: "'a \<Rightarrow> 'a parser" where
  "preturn x s = (Inr x, s)"

definition pfail :: "err_mode \<Rightarrow> 'a parser" where
  "pfail m s = (Inl m, s)"

section \<open>Headers and attributes\<close>

definition parse_nlmsghdr :: "winnow \<Rightarrow> nl_msg_hdr parser" where
  "parse_nlmsghdr w =
     pbind (w_le_u32 w) (\<lambda>len. pbind (w_le_u16 w) (\<lambda>msg_type. pbind (w_le_u16 w) (\<lambda>flags.
     pbind (w_le_u32 w) (\<lambda>seq. pbind (w_le_u32 w) (\<lambda>pid.
       preturn \<lparr>nlmsg_len = len, nlmsg_type = msg_type, nlmsg_flags = flags,
                nlmsg_seq = seq, nlmsg_pid = pid\<rparr>)))))"

definition parse_attr :: "winnow \<Rightarrow> (u16 \<times> bytes) parser" where
  "parse_attr w =
     pbind (w_le_u16 w) (\<lambda>len16. let len = unat len16 in
     pbind (w_le_u16 w) (\<lambda>attr_type.
       if len < 4 then pfail Cut
       else pbind (w_take w (len - 4)) (\<lambda>payload.
         let aligned = nla_align len; padding = aligned - len in
         (\<lambda>s. if length s \<ge> padding
               then pbind (w_take w padding) (\<lambda>_. preturn (attr_type, payload)) s
               else preturn (attr_type, payload) s))))"

definition parse_attr_next :: "winnow \<Rightarrow> bytes \<Rightarrow> ((u16 \<times> bytes) \<times> bytes) option" where
  "parse_attr_next w input =
     (if input \<noteq> [] \<and> length input \<ge> 4
      then case parse_attr w input of (Inl _, _) \<Rightarrow> None | (Inr attr, rest) \<Rightarrow> Some (attr, rest)
      else None)"

text \<open>The list \<open>parse_attrs\<close> returns.\<close>

definition parse_attrs :: "winnow \<Rightarrow> bytes \<Rightarrow> (u16 \<times> bytes) list" where
  "parse_attrs w input = iter_all (parse_attr_next w) input"

section \<open>Primitive values\<close>

definition parse_u8 :: "winnow \<Rightarrow> u8 parser" where
  "parse_u8 w = w_le_u8 w"

definition parse_u16_ne :: "winnow \<Rightarrow> endian \<Rightarrow> u16 parser" where
  "parse_u16_ne w e = pbind (w_take w 2) (\<lambda>b. preturn (ne_word e b))"

definition parse_u32_ne :: "winnow \<Rightarrow> endian \<Rightarrow> u32 parser" where
  "parse_u32_ne w e = pbind (w_take w 4) (\<lambda>b. preturn (ne_word e b))"

definition parse_u64_ne :: "winnow \<Rightarrow> endian \<Rightarrow> u64 parser" where
  "parse_u64_ne w e = pbind (w_take w 8) (\<lambda>b. preturn (ne_word e b))"

definition parse_i32_ne :: "winnow \<Rightarrow> endian \<Rightarrow> i32 parser" where
  "parse_i32_ne w e = pbind (w_take w 4) (\<lambda>b. preturn (ne_word e b))"

definition parse_cstring :: "winnow \<Rightarrow> string parser" where
  "parse_cstring w input =
     (let end = length (until_nul input) in
      case from_utf8 (take end input) of
        None \<Rightarrow> (Inl Cut, input)
      | Some s \<Rightarrow> let consume = (if end < length input then end + 1 else end)
                  in pbind (w_take w consume) (\<lambda>_. preturn s) input)"

definition parse_string_from_bytes :: "bytes \<Rightarrow> string" where
  "parse_string_from_bytes data = from_utf8_lossy (until_nul data)"

definition parse_ipv4 :: "winnow \<Rightarrow> ipv4 parser" where
  "parse_ipv4 w = pbind (w_take w 4) (\<lambda>b. preturn (ipv4_new (b ! 0) (b ! 1) (b ! 2) (b ! 3)))"

definition parse_ipv6 :: "winnow \<Rightarrow> ipv6 parser" where
  "parse_ipv6 w = pbind (w_take w 16) (\<lambda>b. preturn (ipv6_from b))"

definition parse_ip_addr :: "bytes \<Rightarrow> u8 \<Rightarrow> ip_addr nl_result" where
  "parse_ip_addr data family =
     (if family = 2 then
        (if length data < 4 then Inl (Truncated 4 (length data))
         else Inr (V4 (ipv4_new (data ! 0) (data ! 1) (data ! 2) (data ! 3))))
      else if family = 10 then
        (if length data < 16 then Inl (Truncated 16 (length data))
         else Inr (V6 (ipv6_from (take 16 data))))
      else Inl (InvalidMessage (''unknown address family: '' @ show_nat (unat family))))"

definition parse_mac_addr :: "winnow \<Rightarrow> bytes parser" where
  "parse_mac_addr w = w_take w 6"

definition format_mac_addr :: "bytes \<Rightarrow> string" where
  "format_mac_addr mac = join_with '':'' (map show_hex2 (take 6 mac))"

text \<open>
  \<open>FromNetlink::from_bytes\<close>: the parser must consume the whole input.  \<open>msg\<close> is the text
  \<open>winnow\<close> gives its error.
\<close>

definition from_bytes :: "(bytes \<Rightarrow> string) \<Rightarrow> 'a parser \<Rightarrow> bytes \<Rightarrow> 'a nl_result" where
  "from_bytes msg p data =
     (case p data of
        (Inr x, []) \<Rightarrow> Inr x
      | _ \<Rightarrow> Inl (InvalidMessage (''parse error: '' @ msg data)))"

section \<open>Serialisation\<close>

definition write_u8 :: "u8 \<Rightarrow> bytes \<Rightarrow> nat \<times> bytes" where
  "write_u8 v buf = (1, buf @ [v])"

definition write_u16 :: "endian \<Rightarrow> u16 \<Rightarrow> bytes \<Rightarrow> nat \<times> bytes" where
  "write_u16 e v buf = (2, buf @ ne_bytes e 2 v)"

definition write_u32 :: "endian \<Rightarrow> u32 \<Rightarrow> bytes \<Rightarrow> nat \<times> bytes" where
  "write_u32 e v buf = (4, buf @ ne_bytes e 4 v)"

definition write_u64 :: "endian \<Rightarrow> u64 \<Rightarrow> bytes \<Rightarrow> nat \<times> bytes" where
  "write_u64 e v buf = (8, buf @ ne_bytes e 8 v)"

definition write_i32 :: "endian \<Rightarrow> i32 \<Rightarrow> bytes \<Rightarrow> nat \<times> bytes" where
  "write_i32 e v buf = (4, buf @ ne_bytes e 4 v)"

definition write_string :: "string \<Rightarrow> bytes \<Rightarrow> nat \<times> bytes" where
  "write_string s buf = (length s + 1, buf @ bytes_of_str s @ [0])"

fun write_ip :: "ip_addr \<Rightarrow> bytes \<Rightarrow> nat \<times> bytes" where
  "write_ip (V4 a) buf = (4, buf @ ip_octets (V4 a))"
| "write_ip (V6 a) buf = (16, buf @ ip_octets (V6 a))"

definition write_bytes :: "bytes \<Rightarrow> bytes \<Rightarrow> nat \<times> bytes" where
  "write_bytes v buf = (length v, buf @ v)"

fun ip_netlink_len :: "ip_addr \<Rightarrow> nat" where
  "ip_netlink_len (V4 a) = 4"
| "ip_netlink_len (V6 a) = 16"

definition parse_nla_align :: "nat \<Rightarrow> nat" where
  "parse_nla_align len = (len + 3) div 4 * 4"

definition nla_size :: "nat \<Rightarrow> nat" where
  "nla_size payload_len = parse_nla_align (4 + payload_len)"

section \<open>Properties\<close>

lemma winnow_take:
  "winnow_ok w \<Longrightarrow> n \<le> length s \<Longrightarrow> w_take w n s = (Inr (take n s), drop n s)"
  by (simp add: winnow_ok_def)

lemma winnow_take_short:
  "winnow_ok w \<Longrightarrow> length s < n \<Longrightarrow> \<exists>m s'. w_take w n s = (Inl m, s')"
  unfolding winnow_ok_def by (metis isl_def prod.collapse)

lemma winnow_ints:
  "winnow_ok w \<Longrightarrow> 2 \<le> length s \<Longrightarrow> w_le_u16 w s = (Inr (le_word (take 2 s)), drop 2 s)"
  "winnow_ok w \<Longrightarrow> 4 \<le> length s \<Longrightarrow> w_le_u32 w s = (Inr (le_word (take 4 s)), drop 4 s)"
  by (simp_all add: winnow_ok_def)

lemma nl_attr_le:
  "4 \<le> length s \<Longrightarrow> nl_attr_from_bytes LittleEndian s =
     Inr \<lparr>nla_len = le_word (take 2 s), nla_type = le_word (take 2 (drop 2 s))\<rparr>"
  by (simp add: nl_attr_from_bytes_def ne_word_def)

lemma parse_attr_head:
  assumes "winnow_ok w" "4 \<le> length s"
  shows "parse_attr w s =
    (let len = unat (le_word (take 2 s) :: u16); t = le_word (take 2 (drop 2 s)) in
     if len < 4 then (Inl Cut, drop 4 s)
     else pbind (w_take w (len - 4)) (\<lambda>payload.
         let aligned = nla_align len; padding = aligned - len in
         (\<lambda>s. if length s \<ge> padding
               then pbind (w_take w padding) (\<lambda>_. preturn (t, payload)) s
               else preturn (t, payload) s)) (drop 4 s))"
  using assms by (simp add: parse_attr_def pbind_def pfail_def winnow_ints Let_def)

text \<open>
  The two readers take the same step on a little-endian host, except that the iterator
  masks the type and drops an incomplete padding.
\<close>

lemma parse_attr_next_step:
  assumes ok: "winnow_ok w" and len: "4 \<le> length s"
  shows "case attr_next LittleEndian s of
      None \<Rightarrow> parse_attr_next w s = None
    | Some ((k, p), rest) \<Rightarrow>
        (\<exists>t rest'. parse_attr_next w s = Some ((t, p), rest') \<and> t AND NLA_TYPE_MASK = k \<and>
           (rest' = rest \<or> (rest = [] \<and> length rest' < 4)))"
proof -
  define n where "n = unat (le_word (take 2 s) :: u16)"
  define t :: u16 where "t = le_word (take 2 (drop 2 s))"
  note head = parse_attr_head [OF ok len, folded n_def t_def, unfolded Let_def]
  have an: "attr_next LittleEndian s =
      (if n < 4 \<or> n > length s then None
       else Some ((t AND NLA_TYPE_MASK, drop 4 (take n s)),
                  if nla_align n \<ge> length s then [] else drop (nla_align n) s))"
    using len by (simp add: attr_next_def nl_attr_le nla_kind_def Let_def n_def t_def)
  have ne: "s \<noteq> []" using len by auto
  consider "n < 4" | "4 \<le> n" "length s < n" | "4 \<le> n" "n \<le> length s" by linarith
  then show ?thesis
  proof cases
    case 1
    then show ?thesis using an head len ne by (simp add: parse_attr_next_def)
  next
    case 2
    then have "length (drop 4 s) < n - 4" using len by simp
    then obtain m s' where "w_take w (n - 4) (drop 4 s) = (Inl m, s')"
      using winnow_take_short [OF ok] by blast
    with 2 show ?thesis using an head len ne by (simp add: parse_attr_next_def pbind_def)
  next
    case 3
    have tk: "w_take w (n - 4) (drop 4 s) = (Inr (drop 4 (take n s)), drop n s)"
      using 3 by (simp add: winnow_take [OF ok] drop_take)
    show ?thesis
    proof (cases "nla_align n - n \<le> length s - n")
      case True
      have pad: "w_take w (nla_align n - n) (drop n s) = (Inr (take (nla_align n - n) (drop n s)), drop (nla_align n) s)"
        using True by (simp add: winnow_take [OF ok])
      then show ?thesis
        using an head len ne tk True 3 by (auto simp: parse_attr_next_def pbind_def preturn_def)
    next
      case False
      then have "length (drop n s) < 4" "nla_align n \<ge> length s" using nla_align_lt [of n] by auto
      then show ?thesis
        using an head len ne tk False 3 by (auto simp: parse_attr_next_def pbind_def preturn_def)
    qed
  qed
qed

lemma parse_attr_next_progress:
  assumes "winnow_ok w"
  shows "byte_iter (parse_attr_next w)"
proof
  fix s i s'
  assume step: "parse_attr_next w s = Some (i, s')"
  then have len: "4 \<le> length s" by (simp add: parse_attr_next_def split: if_splits)
  show "length s' < length s"
    using parse_attr_next_step [OF assms len] step attr_next_progress [of LittleEndian s] len
    by (fastforce split: option.splits)
qed

text \<open>
  On a little-endian host the two attribute readers of the library agree on every
  input: \<open>parse_attrs\<close> returns the attributes the iterator visits, except that it leaves the
  flag bits in the types.
\<close>

theorem parse_attrs_agree:
  assumes "winnow_ok w"
  shows "map (\<lambda>(t, p). (t AND NLA_TYPE_MASK, p)) (parse_attrs w data) = attrs_of LittleEndian data"
  unfolding attrs_of_def parse_attrs_def
proof (induction data rule: attr_it.iter_induct [where e = LittleEndian])
  case (1 s)
  have "parse_attr_next w s = None"
  proof (cases "4 \<le> length s")
    case True
    then show ?thesis using parse_attr_next_step [OF assms True] 1 by simp
  qed (simp add: parse_attr_next_def)
  then show ?case
    using 1 by (simp add: attr_it.iter_None byte_iter.iter_None [OF parse_attr_next_progress [OF assms]])
next
  case (2 s i s')
  have len: "4 \<le> length s" using 2(1) by (auto simp: attr_next_def split: if_splits)
  obtain k p where i: "i = (k, p)" by fastforce
  obtain t rest where step: "parse_attr_next w s = Some ((t, p), rest)" "t AND NLA_TYPE_MASK = k"
    and rest: "rest = s' \<or> (s' = [] \<and> length rest < 4)"
    using parse_attr_next_step [OF assms len] 2(1) i by auto
  have "map (\<lambda>(t, p). (t AND NLA_TYPE_MASK, p)) (iter_all (parse_attr_next w) rest)
      = iter_all (attr_next LittleEndian) s'"
  proof (cases "rest = s'")
    case True
    then show ?thesis using 2(2) by simp
  next
    case False
    with rest have "parse_attr_next w rest = None" "attr_next LittleEndian s' = None"
      by (auto simp: parse_attr_next_def attr_next_def)
    then show ?thesis
      by (simp add: attr_it.iter_None byte_iter.iter_None [OF parse_attr_next_progress [OF assms]])
  qed
  then show ?case
    using 2(1) i step
    by (simp add: attr_it.iter_Some byte_iter.iter_Some [OF parse_attr_next_progress [OF assms]])
qed

theorem parse_attrs_agree_witness:
  "map (\<lambda>(t, p). (t AND NLA_TYPE_MASK, p))
     (parse_attrs winnow_ref (attr_wire LittleEndian 0x8001 [1, 2, 3] @ attr_wire LittleEndian 2 []))
   = [(1, [1, 2, 3]), (2, [])]"
  using parse_attrs_agree
    [OF winnow_ref_ok, of "attr_wire LittleEndian 0x8001 [1, 2, 3] @ attr_wire LittleEndian 2 []"]
    attrs_of_wire [of "[]" LittleEndian 2 "[]"]
  by (simp add: attrs_of_wire)

text \<open>
  \<open>parse_nlmsghdr\<close> decodes the fields as little-endian although the kernel and the
  rest of the library use the host order: it inverts \<open>NlMsgHdr::as_bytes\<close> on a
  little-endian host, and on a big-endian host it misreads every header the builder
  makes, starting with a length of 16 read as 0x10000000.
\<close>

theorem parse_nlmsghdr_endian:
  assumes "winnow_ok w"
  shows "parse_nlmsghdr w (nl_msg_hdr_as_bytes LittleEndian h @ r) = (Inr h, r)
    \<and> (\<exists>h'. parse_nlmsghdr w (nl_msg_hdr_as_bytes BigEndian (nl_msg_hdr_new t f) @ r) = (Inr h', r)
         \<and> nlmsg_len h' = 0x10000000)"
proof
  show "parse_nlmsghdr w (nl_msg_hdr_as_bytes LittleEndian h @ r) = (Inr h, r)"
    using le_word_bytes [of 4 "nlmsg_len h"] le_word_bytes [of 2 "nlmsg_type h"]
      le_word_bytes [of 2 "nlmsg_flags h"] le_word_bytes [of 4 "nlmsg_seq h"]
      le_word_bytes [of 4 "nlmsg_pid h"]
    by (simp add: parse_nlmsghdr_def pbind_def preturn_def winnow_ints [OF assms]
        nl_msg_hdr_as_bytes_def ne_bytes_def take_bit_word_eq_self)
  have "be_bytes 4 (16 :: u32) = [0, 0, 0, 16]"
    by code_simp
  then show "\<exists>h'. parse_nlmsghdr w (nl_msg_hdr_as_bytes BigEndian (nl_msg_hdr_new t f) @ r) = (Inr h', r)
      \<and> nlmsg_len h' = 0x10000000"
    by (simp add: parse_nlmsghdr_def pbind_def preturn_def winnow_ints [OF assms]
        nl_msg_hdr_as_bytes_def nl_msg_hdr_new_def)
qed

theorem parse_nlmsghdr_endian_witness:
  "fst (parse_nlmsghdr winnow_ref (nl_msg_hdr_as_bytes LittleEndian (nl_msg_hdr_new 16 1)))
     = Inr (nl_msg_hdr_new 16 1)"
  using parse_nlmsghdr_endian [OF winnow_ref_ok, of "nl_msg_hdr_new 16 1" "[]"] by simp

lemma ipv4_octets_new:
  "ipv4_new (be_bytes 4 a ! 0) (be_bytes 4 a ! 1) (be_bytes 4 a ! 2) (be_bytes 4 a ! 3) = a"
proof -
  have "[be_bytes 4 a ! 0, be_bytes 4 a ! 1, be_bytes 4 a ! 2, be_bytes 4 a ! 3] = be_bytes 4 a"
    using take_4 [of "be_bytes 4 a"] by simp
  then show ?thesis by (simp add: ipv4_new_def ne_word_bytes del: One_nat_def)
qed

text \<open>
  Addresses survive the wire: the octets written for an address parse back to it
  under its own family, also with trailing bytes, and an unknown family or a short buffer
  is an error, never a wrong address.
\<close>

theorem ip_addr_roundtrip:
  "parse_ip_addr (snd (write_ip a []) @ r) (if is_ipv4 a then 2 else 10) = Inr a
   \<and> fst (write_ip a buf) = ip_netlink_len a
   \<and> length (snd (write_ip a buf)) = length buf + ip_netlink_len a
   \<and> (isl (parse_ip_addr data f) \<longleftrightarrow>
        f \<noteq> 2 \<and> f \<noteq> 10 \<or> f = 2 \<and> length data < 4 \<or> f = 10 \<and> length data < 16)"
proof -
  have "parse_ip_addr (snd (write_ip a []) @ r) (if is_ipv4 a then 2 else 10) = Inr a"
    by (cases a) (simp_all add: parse_ip_addr_def nth_append 
        ipv4_octets_new [unfolded One_nat_def] ipv6_from_def ne_word_bytes)
  moreover have "fst (write_ip a buf) = ip_netlink_len a
      \<and> length (snd (write_ip a buf)) = length buf + ip_netlink_len a"
    by (cases a) simp_all
  ultimately show ?thesis by (auto simp: parse_ip_addr_def)
qed

end
