(* ===== verification/Filter_Expr.thy ===== *)
theory Filter_Expr
  imports Ip_Addr
begin

text \<open>
  Socket filter expressions (\<open>sockdiag/expr.rs\<close>): the syntax tree, and its evaluation
  against a socket on the client side, with the socket states of \<open>sockdiag/types.rs\<close> and the
  part of \<open>InetSocket\<close> (\<open>sockdiag/socket.rs\<close>) that the predicates read.
\<close>

section \<open>Sockets\<close>

datatype tcp_state =
    Unknown | Established | SynSent | SynRecv | FinWait1 | FinWait2 | TimeWait | Close
  | CloseWait | LastAck | Listen | Closing | NewSynRecv | BoundInactive

definition tcp_state_from_u8 :: "u8 \<Rightarrow> tcp_state" where
  "tcp_state_from_u8 v =
     (if v = 1 then Established else if v = 2 then SynSent else if v = 3 then SynRecv
      else if v = 4 then FinWait1 else if v = 5 then FinWait2 else if v = 6 then TimeWait
      else if v = 7 then Close else if v = 8 then CloseWait else if v = 9 then LastAck
      else if v = 10 then Listen else if v = 11 then Closing else if v = 12 then NewSynRecv
      else if v = 13 then BoundInactive else Unknown)"

fun tcp_state_code :: "tcp_state \<Rightarrow> nat" where
  "tcp_state_code Unknown = 0" | "tcp_state_code Established = 1" | "tcp_state_code SynSent = 2"
| "tcp_state_code SynRecv = 3" | "tcp_state_code FinWait1 = 4" | "tcp_state_code FinWait2 = 5"
| "tcp_state_code TimeWait = 6" | "tcp_state_code Close = 7" | "tcp_state_code CloseWait = 8"
| "tcp_state_code LastAck = 9" | "tcp_state_code Listen = 10" | "tcp_state_code Closing = 11"
| "tcp_state_code NewSynRecv = 12" | "tcp_state_code BoundInactive = 13"

fun tcp_state_name :: "tcp_state \<Rightarrow> string" where
  "tcp_state_name Unknown = ''UNKNOWN''" | "tcp_state_name Established = ''ESTAB''"
| "tcp_state_name SynSent = ''SYN-SENT''" | "tcp_state_name SynRecv = ''SYN-RECV''"
| "tcp_state_name FinWait1 = ''FIN-WAIT-1''" | "tcp_state_name FinWait2 = ''FIN-WAIT-2''"
| "tcp_state_name TimeWait = ''TIME-WAIT''" | "tcp_state_name Close = ''UNCONN''"
| "tcp_state_name CloseWait = ''CLOSE-WAIT''" | "tcp_state_name LastAck = ''LAST-ACK''"
| "tcp_state_name Listen = ''LISTEN''" | "tcp_state_name Closing = ''CLOSING''"
| "tcp_state_name NewSynRecv = ''NEW-SYN-RECV''" | "tcp_state_name BoundInactive = ''BOUND-INACTIVE''"

definition tcp_mask :: "tcp_state \<Rightarrow> u32" where
  "tcp_mask s = push_bit (tcp_state_code s) 1"

definition all_mask :: u32 where
  "all_mask = push_bit 14 1 - 1"

definition connected_mask :: u32 where
  "connected_mask =
     all_mask AND NOT (tcp_mask Listen OR tcp_mask Close OR tcp_mask TimeWait OR tcp_mask SynRecv)"

datatype socket_state = Tcp tcp_state | SockClose | SockEstablished | SockListen

fun socket_state_name :: "socket_state \<Rightarrow> string" where
  "socket_state_name (Tcp s) = tcp_state_name s"
| "socket_state_name SockClose = ''UNCONN''"
| "socket_state_name SockEstablished = ''ESTAB''"
| "socket_state_name SockListen = ''LISTEN''"

text \<open>\<open>std::net::SocketAddr\<close>, and the fields of \<open>InetSocket\<close> that filters read.\<close>

record socket_addr =
  sa_ip :: ip_addr
  sa_port :: u16

record inet_socket =
  is_state :: socket_state
  is_local :: socket_addr
  is_remote :: socket_addr

datatype socket_info = Inet inet_socket | OtherSocket

section \<open>Expressions\<close>

datatype comparison = CmpEq | CmpNe | CmpLt | CmpLe | CmpGt | CmpGe

datatype filter_expr =
    Sport comparison u16
  | Dport comparison u16
  | Src ip_addr u8
  | Dst ip_addr u8
  | State socket_state
  | And filter_expr filter_expr
  | Or filter_expr filter_expr
  | Not filter_expr

fun cmp_apply :: "comparison \<Rightarrow> u16 \<Rightarrow> u16 \<Rightarrow> bool" where
  "cmp_apply CmpEq lhs rhs = (lhs = rhs)"
| "cmp_apply CmpNe lhs rhs = (lhs \<noteq> rhs)"
| "cmp_apply CmpLt lhs rhs = (lhs < rhs)"
| "cmp_apply CmpLe lhs rhs = (lhs \<le> rhs)"
| "cmp_apply CmpGt lhs rhs = (lhs > rhs)"
| "cmp_apply CmpGe lhs rhs = (lhs \<ge> rhs)"

fun ip_matches :: "ip_addr \<Rightarrow> ip_addr \<Rightarrow> u8 \<Rightarrow> bool" where
  "ip_matches (V4 sock) (V4 flt) prefix_len =
     (if prefix_len \<ge> 32 then sock = flt
      else let mask = (if prefix_len = 0 then 0 else push_bit (unat (32 - prefix_len)) (- 1))
           in (sock AND mask) = (flt AND mask))"
| "ip_matches (V6 sock) (V6 flt) prefix_len =
     (if prefix_len \<ge> 128 then sock = flt
      else let mask = (if prefix_len = 0 then 0 else push_bit (unat (128 - prefix_len)) (- 1))
           in (sock AND mask) = (flt AND mask))"
| "ip_matches _ _ _ = False"

fun matches :: "filter_expr \<Rightarrow> inet_socket \<Rightarrow> bool" where
  "matches (Sport cmp port) s = cmp_apply cmp (sa_port (is_local s)) port"
| "matches (Dport cmp port) s = cmp_apply cmp (sa_port (is_remote s)) port"
| "matches (Src addr prefix_len) s = ip_matches (sa_ip (is_local s)) addr prefix_len"
| "matches (Dst addr prefix_len) s = ip_matches (sa_ip (is_remote s)) addr prefix_len"
| "matches (State st) s = (is_state s = st)"
| "matches (And a b) s = (matches a s \<and> matches b s)"
| "matches (Or a b) s = (matches a s \<or> matches b s)"
| "matches (Not a) s = (\<not> matches a s)"

fun matches_socket_info :: "filter_expr \<Rightarrow> socket_info \<Rightarrow> bool" where
  "matches_socket_info ex (Inet s) = matches ex s"
| "matches_socket_info ex OtherSocket = False"

section \<open>Lemmas\<close>

lemma tcp_state_code_inj: "tcp_state_code s = tcp_state_code t \<Longrightarrow> s = t"
  by (cases s; cases t) simp_all

lemma tcp_state_code_lt: "tcp_state_code s < 14"
  by (cases s) simp_all

lemma tcp_state_roundtrip: "tcp_state_from_u8 (of_nat (tcp_state_code s)) = s"
  by (cases s) (simp_all add: tcp_state_from_u8_def)

lemma bit_tcp_mask: "bit (tcp_mask s) n = (n = tcp_state_code s)"
  using tcp_state_code_lt [of s] by (auto simp: tcp_mask_def bit_simps)

lemma bit_mask_word: "bit (mask k :: u32) n = (n < k \<and> n < 32)"
  by (auto simp: bit_simps)

lemma bit_all_mask: "bit all_mask n = (n < 14)"
proof -
  have "all_mask = mask 14" by (simp add: all_mask_def mask_eq_exp_minus_1)
  then have "bit all_mask n = (n < 14 \<and> n < 32)" by (metis bit_mask_word)
  then show ?thesis by linarith
qed

lemma drop_all_bits: "n = LENGTH('a) \<Longrightarrow> drop_bit n (a :: 'a::len word) = 0"
  by (rule bit_eqI) (auto simp: bit_simps dest: bit_imp_le_length)

lemma prefix_match_bits:
  fixes a b :: "'a::len word" and p w :: u8
  assumes "p < w" "unat w = LENGTH('a)"
  shows "(a AND (if p = 0 then 0 else push_bit (unat (w - p)) (- 1))
        = b AND (if p = 0 then 0 else push_bit (unat (w - p)) (- 1)))
    = (drop_bit (unat w - unat p) a = drop_bit (unat w - unat p) b)"
proof (cases "p = 0")
  case True
  then show ?thesis using assms(2) by (simp add: drop_all_bits)
next
  case False
  have "unat (w - p) = unat w - unat p"
    using assms(1) by (intro unat_sub) simp
  then have "push_bit (unat (w - p)) (- 1) = (prefix_mask (unat p) :: 'a word)"
    using assms(2) by (simp only: prefix_mask_def)
  with False prefix_mask_agree [of a "unat p" b] assms(2) show ?thesis by (simp only: if_False)
qed

text \<open>
  An address matches a prefix exactly when it is of the same family and its first
  \<open>prefix_len\<close> bits (all of them from the width on) are those of the filter address; in
  particular \<open>/0\<close> matches every address of the family.
\<close>

theorem ip_matches_prefix:
  "ip_matches (V4 a) (V4 b) p = (drop_bit (32 - unat p) a = drop_bit (32 - unat p) b)
   \<and> ip_matches (V6 c) (V6 d) p = (drop_bit (128 - unat p) c = drop_bit (128 - unat p) d)
   \<and> \<not> ip_matches (V4 a) (V6 d) p \<and> \<not> ip_matches (V6 c) (V4 b) p
   \<and> ip_matches (V4 a) (V4 b) 0 \<and> ip_matches (V6 c) (V6 d) 0"
proof -
  have v4: "ip_matches (V4 a) (V4 b) p = (drop_bit (32 - unat p) a = drop_bit (32 - unat p) b)" for p
  proof (cases "p \<ge> 32")
    case True
    then have "32 - unat p = 0" by (simp add: word_le_nat_alt)
    with True show ?thesis by simp
  next
    case False
    then have "p < 32" by (simp add: not_le)
    moreover have u: "unat (32 :: u8) = 32" by simp
    ultimately show ?thesis
      using prefix_match_bits [of p 32 a b]
      by (simp only: ip_matches.simps Let_def if_not_P [OF False] u) simp
  qed
  have v6: "ip_matches (V6 c) (V6 d) p = (drop_bit (128 - unat p) c = drop_bit (128 - unat p) d)" for p
  proof (cases "p \<ge> 128")
    case True
    then have "128 - unat p = 0" by (simp add: word_le_nat_alt)
    with True show ?thesis by simp
  next
    case False
    then have "p < 128" by (simp add: not_le)
    moreover have u: "unat (128 :: u8) = 128" by simp
    ultimately show ?thesis
      using prefix_match_bits [of p 128 c d]
      by (simp only: ip_matches.simps Let_def if_not_P [OF False] u) simp
  qed
  show ?thesis
  proof (intro conjI v4 v6)
    show "\<not> ip_matches (V4 a) (V6 d) p" "\<not> ip_matches (V6 c) (V4 b) p" by simp_all
    show "ip_matches (V4 a) (V4 b) 0" "ip_matches (V6 c) (V6 d) 0"
      unfolding v4 v6 by (simp_all add: drop_all_bits del: ip_matches.simps)
  qed
qed

end
