(* ===== verification/Sock_Bytecode.thy ===== *)
theory Sock_Bytecode
  imports Filter_Expr
begin

text \<open>
  The compiler from filter expressions to \<open>INET_DIAG_REQ_BYTECODE\<close> programs
  (\<open>sockdiag/bytecode.rs\<close>): lowering to negation normal form, code generation with forward
  labels, resolution to bytes, hoisting of state predicates into the request mask, and
  \<open>compile_filter\<close>.  The machine that runs the programs is the kernel's, outside the
  repository: it is an argument of the theorems (next theory), with the behaviour the
  source documents.
\<close>

section \<open>Primitives and normal form\<close>

abbreviation "INET_DIAG_BC_JMP \<equiv> (1 :: u8)"
abbreviation "INET_DIAG_BC_S_GE \<equiv> (2 :: u8)"
abbreviation "INET_DIAG_BC_S_LE \<equiv> (3 :: u8)"
abbreviation "INET_DIAG_BC_D_GE \<equiv> (4 :: u8)"
abbreviation "INET_DIAG_BC_D_LE \<equiv> (5 :: u8)"
abbreviation "INET_DIAG_BC_S_COND \<equiv> (7 :: u8)"
abbreviation "INET_DIAG_BC_D_COND \<equiv> (8 :: u8)"

record compiled_filter =
  cf_states :: "u32 option"
  cf_bytecode :: "bytes option"
  cf_exact :: bool

text \<open>\<open>HostAddr::V4([u8; 4])\<close> and \<open>HostAddr::V6([u8; 16])\<close>, the arrays as the addresses they spell.\<close>

datatype host_addr = HostV4 bytes | HostV6 bytes

fun host_addr_len :: "host_addr \<Rightarrow> nat" where
  "host_addr_len (HostV4 _) = 4"
| "host_addr_len (HostV6 _) = 16"

fun host_addr_bytes :: "host_addr \<Rightarrow> bytes" where
  "host_addr_bytes (HostV4 o4) = o4"
| "host_addr_bytes (HostV6 o6) = o6"

datatype prim =
    PPort u8 u16
  | PHost u8 u8 u8 host_addr
  | PJmp

fun prim_size :: "prim \<Rightarrow> nat" where
  "prim_size (PPort _ _) = 8"
| "prim_size (PHost _ _ _ addr) = 4 + 8 + host_addr_len addr"
| "prim_size PJmp = 4"

datatype nnf = NAnd "nnf list" | NOr "nnf list" | NLeaf prim

fun flip :: "comparison \<Rightarrow> comparison" where
  "flip CmpEq = CmpNe"
| "flip CmpNe = CmpEq"
| "flip CmpLt = CmpGe"
| "flip CmpGe = CmpLt"
| "flip CmpLe = CmpGt"
| "flip CmpGt = CmpLe"

definition u16_checked_add1 :: "u16 \<Rightarrow> u16 option" where
  "u16_checked_add1 x = (if x = 0xFFFF then None else Some (x + 1))"

definition u16_checked_sub1 :: "u16 \<Rightarrow> u16 option" where
  "u16_checked_sub1 x = (if x = 0 then None else Some (x - 1))"

text \<open>The \<open>unreachable!\<close> arm of \<open>!=\<close> is \<open>None\<close> here; no port reaches it.\<close>

definition lower_port_cmp :: "bool \<Rightarrow> comparison \<Rightarrow> u16 \<Rightarrow> nnf option" where
  "lower_port_cmp is_source cmp port =
     (let ge = (if is_source then INET_DIAG_BC_S_GE else INET_DIAG_BC_D_GE);
          le = (if is_source then INET_DIAG_BC_S_LE else INET_DIAG_BC_D_LE);
          leaf = (\<lambda>code port. NLeaf (PPort code port))
      in case cmp of
           CmpEq \<Rightarrow> Some (NAnd [leaf ge port, leaf le port])
         | CmpGe \<Rightarrow> Some (leaf ge port)
         | CmpLe \<Rightarrow> Some (leaf le port)
         | CmpGt \<Rightarrow> map_option (leaf ge) (u16_checked_add1 port)
         | CmpLt \<Rightarrow> map_option (leaf le) (u16_checked_sub1 port)
         | CmpNe \<Rightarrow>
             (case (u16_checked_sub1 port, u16_checked_add1 port) of
                (Some lo, Some hi) \<Rightarrow> Some (NOr [leaf le lo, leaf ge hi])
              | (None, Some hi) \<Rightarrow> Some (leaf ge hi)
              | (Some lo, None) \<Rightarrow> Some (leaf le lo)
              | (None, None) \<Rightarrow> None))"

fun lower_host :: "bool \<Rightarrow> ip_addr \<Rightarrow> u8 \<Rightarrow> prim" where
  "lower_host is_source (V4 v4) prefix_len =
     PHost (if is_source then INET_DIAG_BC_S_COND else INET_DIAG_BC_D_COND)
       2 (min prefix_len 32) (HostV4 (ip_octets (V4 v4)))"
| "lower_host is_source (V6 v6) prefix_len =
     PHost (if is_source then INET_DIAG_BC_S_COND else INET_DIAG_BC_D_COND)
       10 (min prefix_len 128) (HostV6 (ip_octets (V6 v6)))"

fun lower :: "filter_expr \<Rightarrow> bool \<Rightarrow> nnf option" where
  "lower (And a b) negated =
     (case lower a negated of None \<Rightarrow> None | Some a' \<Rightarrow>
        case lower b negated of None \<Rightarrow> None | Some b' \<Rightarrow>
          Some (if negated then NOr [a', b'] else NAnd [a', b']))"
| "lower (Or a b) negated =
     (case lower a negated of None \<Rightarrow> None | Some a' \<Rightarrow>
        case lower b negated of None \<Rightarrow> None | Some b' \<Rightarrow>
          Some (if negated then NAnd [a', b'] else NOr [a', b']))"
| "lower (Not inner) negated = lower inner (\<not> negated)"
| "lower (Sport cmp port) negated = lower_port_cmp True (if negated then flip cmp else cmp) port"
| "lower (Dport cmp port) negated = lower_port_cmp False (if negated then flip cmp else cmp) port"
| "lower (Src addr plen) negated = (if negated then None else Some (NLeaf (lower_host True addr plen)))"
| "lower (Dst addr plen) negated = (if negated then None else Some (NLeaf (lower_host False addr plen)))"
| "lower (State _) negated = None"

section \<open>Code generation\<close>

type_synonym label_id = nat

datatype target = Reject | Label label_id

text \<open>\<open>labels\<close>: the instruction a label is bound to, \<open>None\<close> for the initial \<open>usize::MAX\<close>.\<close>

record program =
  instrs :: "(prim \<times> target) list"
  labels :: "nat option list"

definition prog_new :: program where
  "prog_new = \<lparr>instrs = [], labels = []\<rparr>"

definition new_label :: "program \<Rightarrow> label_id \<times> program" where
  "new_label p = (length (labels p), p\<lparr>labels := labels p @ [None]\<rparr>)"

definition bind_label :: "label_id \<Rightarrow> program \<Rightarrow> program" where
  "bind_label l p = p\<lparr>labels := (labels p)[l := Some (length (instrs p))]\<rparr>"

definition push_instr :: "prim \<times> target \<Rightarrow> program \<Rightarrow> program" where
  "push_instr i p = p\<lparr>instrs := instrs p @ [i]\<rparr>"

fun emit_nnf :: "nnf \<Rightarrow> target \<Rightarrow> program \<Rightarrow> program"
and emit_and :: "nnf list \<Rightarrow> target \<Rightarrow> program \<Rightarrow> program"
and emit_or :: "nnf list \<Rightarrow> label_id \<Rightarrow> target \<Rightarrow> program \<Rightarrow> program" where
  "emit_nnf (NAnd parts) fail p = emit_and parts fail p"
| "emit_nnf (NOr parts) fail p =
     (case new_label p of (done, p1) \<Rightarrow> bind_label done (emit_or parts done fail p1))"
| "emit_nnf (NLeaf pr) fail p = push_instr (pr, fail) p"
| "emit_and [] fail p = p"
| "emit_and (x # xs) fail p = emit_and xs fail (emit_nnf x fail p)"
| "emit_or [] done fail p = p"
| "emit_or [x] done fail p = emit_nnf x fail p"
| "emit_or (x # y # ys) done fail p =
     (case new_label p of (next_alt, p1) \<Rightarrow>
        emit_or (y # ys) done fail
          (bind_label next_alt
            (push_instr (PJmp, Label done) (emit_nnf x (Label next_alt) p1))))"

section \<open>Resolution to bytes\<close>

definition code_size :: "(prim \<times> target) list \<Rightarrow> nat" where
  "code_size is = sum_list (map (\<lambda>(pr, t). prim_size pr) is)"

text \<open>\<open>offsets[i]\<close>: the byte offset of instruction \<open>i\<close>, the total at the end.\<close>

definition offset_of :: "(prim \<times> target) list \<Rightarrow> nat \<Rightarrow> nat" where
  "offset_of is i = code_size (take i is)"

definition resolve_no :: "program \<Rightarrow> nat \<Rightarrow> target \<Rightarrow> nat" where
  "resolve_no p i target =
     (let total = code_size (instrs p); here = offset_of (instrs p) i in
      case target of
        Reject \<Rightarrow> total - here + 4
      | Label l \<Rightarrow>
          (case labels p ! l of
             None \<Rightarrow> total
           | Some idx \<Rightarrow> if idx \<ge> length (instrs p) then total else offset_of (instrs p) idx) - here)"

fun prim_bytes :: "endian \<Rightarrow> prim \<Rightarrow> u8 \<Rightarrow> u16 \<Rightarrow> bytes" where
  "prim_bytes e (PPort code port) yes no =
     [code, yes] @ ne_bytes e 2 no @ [0, 0] @ ne_bytes e 2 port"
| "prim_bytes e (PHost code family prefix_len addr) yes no =
     [code, yes] @ ne_bytes e 2 no @ [family, prefix_len, 0, 0] @ ne_bytes e 4 (- 1 :: i32) @
     host_addr_bytes addr"
| "prim_bytes e PJmp yes no = [INET_DIAG_BC_JMP, yes] @ ne_bytes e 2 no"

text \<open>One round of the serialising loop; the two \<open>try_from\<close> are the size guards.\<close>

definition instr_bytes :: "endian \<Rightarrow> program \<Rightarrow> nat \<Rightarrow> bytes option" where
  "instr_bytes e p i =
     (case instrs p ! i of (pr, target) \<Rightarrow>
        let no = resolve_no p i target; yes = prim_size pr in
        if no < 65536 \<and> yes < 256 then Some (prim_bytes e pr (of_nat yes) (of_nat no)) else None)"

fun resolve_from :: "endian \<Rightarrow> program \<Rightarrow> nat list \<Rightarrow> bytes option" where
  "resolve_from e p [] = Some []"
| "resolve_from e p (i # is) =
     (case instr_bytes e p i of None \<Rightarrow> None | Some b \<Rightarrow>
        case resolve_from e p is of None \<Rightarrow> None | Some bs \<Rightarrow> Some (b @ bs))"

definition resolve :: "endian \<Rightarrow> program \<Rightarrow> bytes option" where
  "resolve e p =
     (if code_size (instrs p) > 65535 - 8 then None
      else resolve_from e p [0..<length (instrs p)])"

fun nnf_is_exact :: "nnf \<Rightarrow> bool" where
  "nnf_is_exact (NAnd parts) = list_all nnf_is_exact parts"
| "nnf_is_exact (NOr parts) = list_all nnf_is_exact parts"
| "nnf_is_exact (NLeaf (PPort _ _)) = True"
| "nnf_is_exact (NLeaf _) = False"

section \<open>State hoisting and entry points\<close>

fun state_mask :: "socket_state \<Rightarrow> u32" where
  "state_mask (Tcp s) = tcp_mask s"
| "state_mask SockClose = tcp_mask Close"
| "state_mask SockEstablished = tcp_mask Established"
| "state_mask SockListen = tcp_mask Listen"

fun eval_state_mask :: "filter_expr \<Rightarrow> u32 option" where
  "eval_state_mask (State s) = Some (state_mask s)"
| "eval_state_mask (And a b) =
     (case (eval_state_mask a, eval_state_mask b) of
        (Some x, Some y) \<Rightarrow> Some (x AND y) | _ \<Rightarrow> None)"
| "eval_state_mask (Or a b) =
     (case (eval_state_mask a, eval_state_mask b) of
        (Some x, Some y) \<Rightarrow> Some (x OR y) | _ \<Rightarrow> None)"
| "eval_state_mask (Not inner) =
     map_option (\<lambda>x. NOT x AND all_mask) (eval_state_mask inner)"
| "eval_state_mask _ = None"

fun contains_state :: "filter_expr \<Rightarrow> bool" where
  "contains_state (State _) = True"
| "contains_state (And a b) = (contains_state a \<or> contains_state b)"
| "contains_state (Or a b) = (contains_state a \<or> contains_state b)"
| "contains_state (Not inner) = contains_state inner"
| "contains_state _ = False"

fun conjuncts :: "filter_expr \<Rightarrow> filter_expr list" where
  "conjuncts (And a b) = conjuncts a @ conjuncts b"
| "conjuncts other = [other]"

text \<open>The first loop of \<open>compile_filter\<close>: state, bytecode parts and exactness so far.\<close>

definition split_step ::
  "u32 option \<times> filter_expr list \<times> bool \<Rightarrow> filter_expr \<Rightarrow> u32 option \<times> filter_expr list \<times> bool" where
  "split_step acc c =
     (case acc of (states, bc_parts, exact) \<Rightarrow>
        case eval_state_mask c of
          Some m \<Rightarrow> (Some ((case states of None \<Rightarrow> - 1 | Some m0 \<Rightarrow> m0) AND m), bc_parts, exact)
        | None \<Rightarrow> if \<not> contains_state c then (states, bc_parts @ [c], exact)
                  else (states, bc_parts, False))"

text \<open>The second loop: lower each part on its own, dropping those that do not lower.\<close>

definition lower_step :: "nnf list \<times> bool \<Rightarrow> filter_expr \<Rightarrow> nnf list \<times> bool" where
  "lower_step acc c =
     (case acc of (lowered, exact) \<Rightarrow>
        case lower c False of Some n \<Rightarrow> (lowered @ [n], exact) | None \<Rightarrow> (lowered, False))"

definition compile_filter :: "endian \<Rightarrow> filter_expr \<Rightarrow> compiled_filter" where
  "compile_filter e expr =
     (case foldl split_step (None, [], True) (conjuncts expr) of
        (states, bc_parts, exact) \<Rightarrow>
      case foldl lower_step ([], exact) bc_parts of
        (lowered, exact) \<Rightarrow>
      if lowered = [] then \<lparr>cf_states = states, cf_bytecode = None, cf_exact = exact\<rparr>
      else
        (let nnf = NAnd lowered;
             exact = (if \<not> nnf_is_exact nnf then False else exact);
             bytes = resolve e (emit_nnf nnf Reject prog_new);
             exact = (if bytes = None then False else exact)
         in \<lparr>cf_states = states, cf_bytecode = bytes, cf_exact = exact\<rparr>))"

definition compile :: "endian \<Rightarrow> filter_expr \<Rightarrow> bytes option" where
  "compile e expr =
     (case lower expr False of None \<Rightarrow> None
      | Some nnf \<Rightarrow> resolve e (emit_nnf nnf Reject prog_new))"

definition for_ports :: "endian \<Rightarrow> u16 option \<Rightarrow> u16 option \<Rightarrow> bytes option" where
  "for_ports e sport dport =
     (case (case sport of None \<Rightarrow> Some [] | Some s \<Rightarrow> map_option (\<lambda>n. [n]) (lower_port_cmp True CmpEq s)) of
        None \<Rightarrow> None
      | Some ps \<Rightarrow>
      case (case dport of None \<Rightarrow> Some [] | Some d \<Rightarrow> map_option (\<lambda>n. [n]) (lower_port_cmp False CmpEq d)) of
        None \<Rightarrow> None
      | Some pd \<Rightarrow>
        if ps @ pd = [] then None
        else resolve e (emit_nnf (NAnd (ps @ pd)) Reject prog_new))"

end
