(* ===== verification/Sock_Kernel.thy ===== *)
theory Sock_Kernel
  imports Sock_Bytecode
begin

text \<open>
  What the bytecode compiler promises, against the machine that runs its programs.  The
  machine is the kernel's \<open>inet_diag_bc_run\<close>: a record \<open>k\<close> of two functions, with
  \<open>kernel_ok e k\<close> the behaviour that the comments of \<open>sockdiag/bytecode.rs\<close> document.
  \<open>vm_kernel\<close> is an interpreter that has this behaviour.
\<close>

section \<open>The machine\<close>

record kernel_bc =
  k_run :: "bytes \<Rightarrow> nat \<Rightarrow> inet_socket \<Rightarrow> bool"
  k_host :: "u8 \<Rightarrow> u8 \<Rightarrow> u8 \<Rightarrow> bytes \<Rightarrow> inet_socket \<Rightarrow> bool"

definition port_op :: "u8 \<Rightarrow> u16 \<Rightarrow> inet_socket \<Rightarrow> bool" where
  "port_op code port s =
     (if code = INET_DIAG_BC_S_GE then port \<le> sa_port (is_local s)
      else if code = INET_DIAG_BC_S_LE then sa_port (is_local s) \<le> port
      else if code = INET_DIAG_BC_D_GE then port \<le> sa_port (is_remote s)
      else sa_port (is_remote s) \<le> port)"

fun prim_ok :: "prim \<Rightarrow> bool" where
  "prim_ok (PPort code port) = (code \<in> {2, 3, 4, 5})"
| "prim_ok (PHost code family plen (HostV4 b)) = (code \<in> {7, 8} \<and> family = 2 \<and> length b = 4 \<and> plen \<le> 32)"
| "prim_ok (PHost code family plen (HostV6 b)) = (code \<in> {7, 8} \<and> family = 10 \<and> length b = 16 \<and> plen \<le> 128)"
| "prim_ok PJmp = True"

fun prim_holds :: "kernel_bc \<Rightarrow> prim \<Rightarrow> inet_socket \<Rightarrow> bool" where
  "prim_holds k (PPort code port) s = port_op code port s"
| "prim_holds k (PHost code family plen addr) s = k_host k code family plen (host_addr_bytes addr) s"
| "prim_holds k PJmp s = False"

text \<open>
  On a matching op the machine advances by \<open>yes\<close>, else by \<open>no\<close>; it accepts at the exact end
  and rejects past it.  A host condition matches at least the addresses of the same family
  under the prefix.
\<close>

definition kernel_steps :: "endian \<Rightarrow> kernel_bc \<Rightarrow> bool" where
  "kernel_steps e k =
     ((\<forall>prog s. k_run k prog (length prog) s) \<and>
      (\<forall>prog at s. length prog < at \<longrightarrow> \<not> k_run k prog at s) \<and>
      (\<forall>pre pr yes no post s. prim_ok pr \<and> 0 < yes \<and> 0 < no \<longrightarrow>
         k_run k (pre @ prim_bytes e pr yes no @ post) (length pre) s =
         k_run k (pre @ prim_bytes e pr yes no @ post)
           (length pre + (if prim_holds k pr s then unat yes else unat no)) s))"

definition kernel_hosts :: "kernel_bc \<Rightarrow> bool" where
  "kernel_hosts k =
     (\<forall>a p s.
        (ip_matches (sa_ip (is_local s)) a p \<longrightarrow> prim_holds k (lower_host True a p) s) \<and>
        (ip_matches (sa_ip (is_remote s)) a p \<longrightarrow> prim_holds k (lower_host False a p) s))"

definition kernel_ok :: "endian \<Rightarrow> kernel_bc \<Rightarrow> bool" where
  "kernel_ok e k = (kernel_steps e k \<and> kernel_hosts k)"

section \<open>Lowering\<close>

fun nnf_holds :: "kernel_bc \<Rightarrow> inet_socket \<Rightarrow> nnf \<Rightarrow> bool" where
  "nnf_holds k s (NAnd ns) = list_all (nnf_holds k s) ns"
| "nnf_holds k s (NOr ns) = list_ex (nnf_holds k s) ns"
| "nnf_holds k s (NLeaf pr) = prim_holds k pr s"

text \<open>Every disjunction has an alternative and every primitive is one the kernel knows.\<close>

fun nnf_ok :: "nnf \<Rightarrow> bool" where
  "nnf_ok (NAnd ns) = list_all nnf_ok ns"
| "nnf_ok (NOr ns) = (ns \<noteq> [] \<and> list_all nnf_ok ns)"
| "nnf_ok (NLeaf pr) = (prim_ok pr \<and> pr \<noteq> PJmp)"

lemma u16_max: "(- 1 :: u16) = 0xFFFF"
  by code_simp

lemma word_add1_le: "(x :: u16) \<noteq> 0xFFFF \<Longrightarrow> (x + 1 \<le> y) = (x < y)"
  using inc_less_eq_iff [of x y] by (simp only: u16_max) simp

lemma word_le_sub1: "(x :: u16) \<noteq> 0 \<Longrightarrow> (y \<le> x - 1) = (y < x)"
  using less_eq_dec_iff [of y x] by simp

lemma u16_le_max: "(y :: u16) \<le> 0xFFFF"
  by (simp add: word_le_nat_alt) (use unsigned_less [of y, where ?'a = nat] in simp)

lemma flip_negates: "cmp_apply (flip cmp) a b = (\<not> cmp_apply cmp a b)"
  by (cases cmp) auto

definition op_port :: "bool \<Rightarrow> inet_socket \<Rightarrow> u16" where
  "op_port src s = sa_port (if src then is_local s else is_remote s)"

lemma ge_le_ops [simp]:
  "port_op (if src then INET_DIAG_BC_S_GE else INET_DIAG_BC_D_GE) port s = (port \<le> op_port src s)"
  "port_op (if src then INET_DIAG_BC_S_LE else INET_DIAG_BC_D_LE) port s = (op_port src s \<le> port)"
  by (simp_all add: port_op_def op_port_def)

text \<open>A lowered port comparison is exact.\<close>

lemma lower_port_cmp_cases:
  assumes "lower_port_cmp src cmp port = Some n"
  defines "ge \<equiv> (if src then INET_DIAG_BC_S_GE else INET_DIAG_BC_D_GE)"
    and "le \<equiv> (if src then INET_DIAG_BC_S_LE else INET_DIAG_BC_D_LE)"
  obtains "cmp = CmpEq" "n = NAnd [NLeaf (PPort ge port), NLeaf (PPort le port)]"
  | "cmp = CmpGe" "n = NLeaf (PPort ge port)"
  | "cmp = CmpLe" "n = NLeaf (PPort le port)"
  | "cmp = CmpGt" "port \<noteq> 0xFFFF" "n = NLeaf (PPort ge (port + 1))"
  | "cmp = CmpLt" "port \<noteq> 0" "n = NLeaf (PPort le (port - 1))"
  | "cmp = CmpNe" "port \<noteq> 0" "port \<noteq> 0xFFFF"
      "n = NOr [NLeaf (PPort le (port - 1)), NLeaf (PPort ge (port + 1))]"
  | "cmp = CmpNe" "port = 0" "n = NLeaf (PPort ge (port + 1))"
  | "cmp = CmpNe" "port = 0xFFFF" "n = NLeaf (PPort le (port - 1))"
  using assms(1) unfolding ge_def [symmetric] le_def [symmetric] lower_port_cmp_def Let_def
  by (cases cmp) (auto simp: u16_checked_add1_def u16_checked_sub1_def split: if_splits)

lemma lower_port_cmp_holds:
  assumes "lower_port_cmp src cmp port = Some n"
  shows "nnf_holds k s n = cmp_apply cmp (op_port src s) port"
  using assms
proof (cases rule: lower_port_cmp_cases)
  case 6
  then show ?thesis by (simp add: word_add1_le word_le_sub1 neq_iff)
next
  case 7
  then show ?thesis using word_add1_le [of 0 "op_port src s"] by (simp add: word_neq_0_conv)
next
  case 8
  then show ?thesis
    using u16_le_max [of "op_port src s"] word_le_sub1 [of "0xFFFF" "op_port src s"]
    by (auto simp: order.order_iff_strict)
qed (auto simp: word_add1_le word_le_sub1)

lemma lower_port_cmp_ok:
  "lower_port_cmp src cmp port = Some n \<Longrightarrow> nnf_ok n \<and> nnf_is_exact n"
  by (erule lower_port_cmp_cases) auto

lemma min_le_u8: "min (p :: u8) m \<le> m"
  by simp

lemma lower_host_ok: "prim_ok (lower_host src a p)" "lower_host src a p \<noteq> PJmp"
  by (cases a; simp)+

lemma op_port_local [simp]: "op_port True s = sa_port (is_local s)" "op_port False s = sa_port (is_remote s)"
  by (simp_all add: op_port_def)

lemma lower_ok: "lower ex negated = Some n \<Longrightarrow> nnf_ok n"
  by (induction ex negated arbitrary: n rule: lower.induct)
    (auto simp: lower_port_cmp_ok lower_host_ok split: option.splits if_splits)

text \<open>
  Lowering never loses a socket, and it is exact when no host condition is left.
\<close>

lemma lower_sound:
  assumes "kernel_hosts k"
  shows "lower ex negated = Some n \<Longrightarrow> matches ex s \<noteq> negated \<Longrightarrow> nnf_holds k s n"
proof (induction ex negated arbitrary: n rule: lower.induct)
  case (6 addr plen negated)
  then show ?case using assms by (auto simp: kernel_hosts_def split: if_splits)
next
  case (7 addr plen negated)
  then show ?case using assms by (auto simp: kernel_hosts_def split: if_splits)
qed (auto simp: lower_port_cmp_holds flip_negates split: option.splits if_splits)

lemma lower_exact:
  "lower ex negated = Some n \<Longrightarrow> nnf_is_exact n \<Longrightarrow> nnf_holds k s n = (matches ex s \<noteq> negated)"
proof (induction ex negated arbitrary: n rule: lower.induct)
  case (6 addr plen negated)
  then show ?case by (cases addr) (auto split: if_splits)
next
  case (7 addr plen negated)
  then show ?case by (cases addr) (auto split: if_splits)
qed (auto simp: lower_port_cmp_holds flip_negates split: option.splits if_splits)

section \<open>Running a program by instruction index\<close>

function irun :: "kernel_bc \<Rightarrow> program \<Rightarrow> inet_socket \<Rightarrow> nat \<Rightarrow> bool" where
  "irun k p s i =
     (if length (instrs p) \<le> i then True
      else if prim_holds k (fst (instrs p ! i)) s then irun k p s (Suc i)
      else (case snd (instrs p ! i) of
              Reject \<Rightarrow> False
            | Label l \<Rightarrow> (case labels p ! l of
                None \<Rightarrow> True
              | Some j \<Rightarrow> if i < j then irun k p s j else False)))"
  by pat_completeness auto
termination
  by (relation "measure (\<lambda>(k, p, s, i). length (instrs p) - i)") auto

declare irun.simps [simp del]

definition goto_target :: "kernel_bc \<Rightarrow> program \<Rightarrow> inet_socket \<Rightarrow> target \<Rightarrow> bool" where
  "goto_target k p s t =
     (case t of Reject \<Rightarrow> False
      | Label l \<Rightarrow> (case labels p ! l of None \<Rightarrow> True | Some j \<Rightarrow> irun k p s j))"

text \<open>The target lies after instruction \<open>i\<close>.\<close>

definition tgt_fwd :: "program \<Rightarrow> nat \<Rightarrow> target \<Rightarrow> bool" where
  "tgt_fwd p i t =
     (case t of Reject \<Rightarrow> True
      | Label l \<Rightarrow> l < length (labels p) \<and> (case labels p ! l of None \<Rightarrow> True | Some j \<Rightarrow> i < j))"

definition prog_wf :: "program \<Rightarrow> bool" where
  "prog_wf p =
     (\<forall>i < length (instrs p). prim_ok (fst (instrs p ! i)) \<and> tgt_fwd p i (snd (instrs p ! i)))"

lemma irun_step:
  assumes "i < length (instrs p)" "instrs p ! i = (pr, t)" "tgt_fwd p i t"
  shows "irun k p s i = (if prim_holds k pr s then irun k p s (Suc i) else goto_target k p s t)"
  using assms
  by (subst irun.simps) (auto simp: goto_target_def tgt_fwd_def split: target.splits option.splits)

section \<open>Code generation\<close>

text \<open>
  \<open>part_of P p p'\<close>: the code emitted between the programs \<open>p\<close> and \<open>p'\<close> is in \<open>P\<close> at its
  place, with the labels made in between bound the same way.
\<close>

definition grows :: "program \<Rightarrow> program \<Rightarrow> bool" where
  "grows p p' =
     ((\<exists>new. instrs p' = instrs p @ new) \<and> length (labels p) \<le> length (labels p') \<and>
      (\<forall>l < length (labels p). labels p' ! l = labels p ! l))"

definition part_of :: "program \<Rightarrow> program \<Rightarrow> program \<Rightarrow> bool" where
  "part_of P p p' =
     ((\<exists>rest. instrs P = instrs p' @ rest) \<and> length (labels p') \<le> length (labels P) \<and>
      (\<forall>l. length (labels p) \<le> l \<and> l < length (labels p') \<longrightarrow> labels P ! l = labels p' ! l))"

lemma grows_refl [simp]: "grows p p"
  by (simp add: grows_def)

lemma grows_trans: "grows p q \<Longrightarrow> grows q r \<Longrightarrow> grows p r"
  by (fastforce simp: grows_def)

lemma grows_push [simp]: "grows p (push_instr i p)"
  by (simp add: grows_def push_instr_def)

lemma grows_new [simp]: "grows p (p\<lparr>labels := labels p @ [None]\<rparr>)"
  by (simp add: grows_def nth_append)

lemma grows_bind: "grows p q \<Longrightarrow> length (labels p) \<le> l \<Longrightarrow> grows p (bind_label l q)"
  by (auto simp: grows_def bind_label_def)

lemma emit_grows:
  "grows p (emit_nnf n fail p)" "grows p (emit_and ns fail p)" "grows p (emit_or ns done fail p)"
proof (induction n fail p and ns fail p and ns "done" fail p rule: emit_nnf_emit_and_emit_or.induct)
  case (2 parts fail p)
  then have "grows p (emit_or parts (length (labels p)) fail (p\<lparr>labels := labels p @ [None]\<rparr>))"
    using grows_trans [OF grows_new] by (simp add: new_label_def)
  then show ?case by (simp add: new_label_def grows_bind)
next
  case (5 x xs fail p)
  then show ?case using grows_trans by auto
next
  case (8 x y ys dn fail p)
  let ?l = "length (labels p)" and ?p1 = "p\<lparr>labels := labels p @ [None]\<rparr>"
  have "grows p (emit_nnf x (Label ?l) ?p1)"
    using 8(1) grows_trans [OF grows_new] by (simp add: new_label_def)
  then have "grows p (bind_label ?l (push_instr (PJmp, Label dn) (emit_nnf x (Label ?l) ?p1)))"
    using grows_trans [OF _ grows_push] by (intro grows_bind) auto
  then show ?case using 8(2) grows_trans by (simp add: new_label_def)
qed (simp_all)

lemma part_of_split:
  "grows p q \<Longrightarrow> grows q r \<Longrightarrow> part_of P p r \<Longrightarrow> part_of P p q \<and> part_of P q r"
  by (fastforce simp: grows_def part_of_def)

lemma grows_instrs: "grows p q \<Longrightarrow> length (instrs p) \<le> length (instrs q)"
  by (auto simp: grows_def)

definition code_ok :: "program \<Rightarrow> nat \<Rightarrow> nat \<Rightarrow> bool" where
  "code_ok P lo hi =
     (\<forall>i. lo \<le> i \<and> i < hi \<longrightarrow> prim_ok (fst (instrs P ! i)) \<and> tgt_fwd P i (snd (instrs P ! i)))"

lemma code_ok_join: "code_ok P a b \<Longrightarrow> code_ok P b c \<Longrightarrow> code_ok P a c"
  unfolding code_ok_def by (metis not_le_imp_less)

lemma part_of_push:
  assumes "part_of P p (push_instr (pr, t) p)"
  shows "length (instrs p) < length (instrs P)" "instrs P ! length (instrs p) = (pr, t)"
  using assms by (auto simp: part_of_def push_instr_def)

lemma part_of_bind:
  assumes "part_of P p (bind_label l q)" "length (labels p) \<le> l" "l < length (labels q)"
  shows "labels P ! l = Some (length (instrs q))" "l < length (labels P)"
    and "length (labels p) = l \<Longrightarrow> part_of P (p\<lparr>labels := labels p @ [None]\<rparr>) q"
  using assms by (auto simp: part_of_def bind_label_def nth_list_update split: if_splits)

abbreviation fwd_until :: "program \<Rightarrow> program \<Rightarrow> target \<Rightarrow> bool" where
  "fwd_until P q t \<equiv> (\<forall>i < length (instrs q). tgt_fwd P i t)"

text \<open>
  Emitted code falls through to its end when the formula holds and transfers to \<open>fail\<close>
  when it does not; a matched alternative leaves for \<open>done\<close>.
\<close>

lemma emit_runs:
  "nnf_ok n \<Longrightarrow> part_of P p (emit_nnf n fail p) \<Longrightarrow> fwd_until P (emit_nnf n fail p) fail \<Longrightarrow>
     code_ok P (length (instrs p)) (length (instrs (emit_nnf n fail p))) \<and>
     irun k P s (length (instrs p)) =
       (if nnf_holds k s n then irun k P s (length (instrs (emit_nnf n fail p)))
        else goto_target k P s fail)"
  "list_all nnf_ok ns \<Longrightarrow> part_of P p (emit_and ns fail p) \<Longrightarrow> fwd_until P (emit_and ns fail p) fail \<Longrightarrow>
     code_ok P (length (instrs p)) (length (instrs (emit_and ns fail p))) \<and>
     irun k P s (length (instrs p)) =
       (if list_all (nnf_holds k s) ns then irun k P s (length (instrs (emit_and ns fail p)))
        else goto_target k P s fail)"
  "ns \<noteq> [] \<Longrightarrow> list_all nnf_ok ns \<Longrightarrow> part_of P p (emit_or ns dn fail p) \<Longrightarrow>
     fwd_until P (emit_or ns dn fail p) fail \<Longrightarrow>
     dn < length (labels P) \<Longrightarrow> labels P ! dn = Some (length (instrs (emit_or ns dn fail p))) \<Longrightarrow>
     code_ok P (length (instrs p)) (length (instrs (emit_or ns dn fail p))) \<and>
     irun k P s (length (instrs p)) =
       (if list_ex (nnf_holds k s) ns then irun k P s (length (instrs (emit_or ns dn fail p)))
        else goto_target k P s fail)"
proof (induction n fail p and ns fail p and ns dn fail p rule: emit_nnf_emit_and_emit_or.induct)
  case (1 parts fail p)
  then show ?case by simp
next
  case (2 parts fail p)
  let ?l = "length (labels p)" and ?p1 = "p\<lparr>labels := labels p @ [None]\<rparr>"
  let ?q = "emit_or parts ?l fail ?p1"
  have q: "emit_nnf (NOr parts) fail p = bind_label ?l ?q" by (simp add: new_label_def)
  have g: "grows ?p1 ?q" by (rule emit_grows)
  then have l: "?l < length (labels ?q)" by (auto simp: grows_def)
  note pb = part_of_bind [OF "2.prems"(2) [unfolded q] order_refl l]
  have len: "length (instrs (bind_label ?l ?q)) = length (instrs ?q)" by (simp add: bind_label_def)
  have "code_ok P (length (instrs ?p1)) (length (instrs ?q)) \<and>
     irun k P s (length (instrs ?p1)) =
       (if list_ex (nnf_holds k s) parts then irun k P s (length (instrs ?q)) else goto_target k P s fail)"
    using "2.IH" [of ?l ?p1] "2.prems" pb len q by (simp add: new_label_def)
  then show ?case by (simp add: q len del: emit_nnf.simps)
next
  case (3 pr fail p)
  note at = part_of_push [OF "3.prems"(2) [unfolded emit_nnf.simps]]
  have "tgt_fwd P (length (instrs p)) fail" using "3.prems"(3) by (simp add: push_instr_def)
  then have "irun k P s (length (instrs p))
      = (if prim_holds k pr s then irun k P s (Suc (length (instrs p))) else goto_target k P s fail)"
    using at by (intro irun_step)
  moreover have "code_ok P (length (instrs p)) (Suc (length (instrs p)))"
    using at "3.prems"(1) \<open>tgt_fwd P (length (instrs p)) fail\<close> by (auto simp: code_ok_def le_less_Suc_eq)
  ultimately show ?case by (simp add: push_instr_def)
next
  case (4 fail p)
  then show ?case by (auto simp: code_ok_def)
next
  case (5 x xs fail p)
  let ?p1 = "emit_nnf x fail p" and ?q = "emit_and (x # xs) fail p"
  have g: "grows p ?p1" "grows ?p1 ?q" by (simp_all add: emit_grows)
  have parts: "part_of P p ?p1" "part_of P ?p1 ?q"
    using part_of_split [OF g "5.prems"(2)] by simp_all
  have f: "fwd_until P ?p1 fail" using "5.prems"(3) grows_instrs [OF g(2)] by auto
  have a: "code_ok P (length (instrs p)) (length (instrs ?p1)) \<and>
     irun k P s (length (instrs p)) =
       (if nnf_holds k s x then irun k P s (length (instrs ?p1)) else goto_target k P s fail)"
    using "5.IH"(1) "5.prems"(1) parts(1) f by simp
  have b: "code_ok P (length (instrs ?p1)) (length (instrs ?q)) \<and>
     irun k P s (length (instrs ?p1)) =
       (if list_all (nnf_holds k s) xs then irun k P s (length (instrs ?q)) else goto_target k P s fail)"
    using "5.IH"(2) "5.prems" parts(2) by simp
  show ?case using a b code_ok_join by auto
next
  case (6 dn fail p)
  then show ?case by simp
next
  case (7 x dn fail p)
  then show ?case by simp
next
  case (8 x y ys dn fail p)
  let ?l = "length (labels p)" and ?p1 = "p\<lparr>labels := labels p @ [None]\<rparr>"
  let ?p2 = "emit_nnf x (Label ?l) ?p1"
  let ?p3 = "push_instr (PJmp, Label dn) ?p2"
  let ?p4 = "bind_label ?l ?p3"
  let ?q = "emit_or (y # ys) dn fail ?p4"
  have q: "emit_or (x # y # ys) dn fail p = ?q" by (simp add: new_label_def)
  have g2: "grows ?p1 ?p2" "grows ?p4 ?q" by (rule emit_grows)+
  then have l: "?l < length (labels ?p3)" by (auto simp: grows_def push_instr_def)
  have g4: "grows p ?p4"
    using grows_trans [OF grows_new grows_trans [OF g2(1) grows_push]] by (intro grows_bind) auto
  have parts: "part_of P p ?p4" "part_of P ?p4 ?q"
    using part_of_split [OF g4 g2(2) "8.prems"(3) [unfolded q]] by simp_all
  note pb = part_of_bind [OF parts(1) order_refl l]
  have parts2: "part_of P ?p1 ?p2" "part_of P ?p2 ?p3"
    using part_of_split [OF g2(1) grows_push pb(3) [OF refl]] by simp_all
  have len3: "length (instrs ?p3) = Suc (length (instrs ?p2))" by (simp add: push_instr_def)
  have len4: "length (instrs ?p4) = length (instrs ?p3)" by (simp add: bind_label_def)
  have len: "length (instrs ?p4) \<le> length (instrs ?q)" by (rule grows_instrs [OF g2(2)])
  have "fwd_until P ?p2 (Label ?l)"
    using pb(1,2) len3 by (auto simp: tgt_fwd_def)
  then have a: "code_ok P (length (instrs p)) (length (instrs ?p2)) \<and>
     irun k P s (length (instrs p)) =
       (if nnf_holds k s x then irun k P s (length (instrs ?p2)) else goto_target k P s (Label ?l))"
    using "8.IH"(1) [of ?l ?p1] "8.prems"(2) parts2(1) by (simp add: new_label_def)
  note jmp = part_of_push [OF parts2(2)]
  have fj: "tgt_fwd P (length (instrs ?p2)) (Label dn)"
    using "8.prems"(5,6) len len3 len4 by (simp add: q tgt_fwd_def del: emit_or.simps)
  then have b: "irun k P s (length (instrs ?p2)) = irun k P s (length (instrs ?q))"
    using irun_step [OF jmp fj] "8.prems"(6) by (simp add: q goto_target_def del: emit_or.simps)
  have cj: "code_ok P (length (instrs ?p2)) (length (instrs ?p4))"
    using jmp fj len3 len4 by (auto simp: code_ok_def le_less_Suc_eq)
  have c: "code_ok P (length (instrs ?p4)) (length (instrs ?q)) \<and>
     irun k P s (length (instrs ?p4)) =
       (if list_ex (nnf_holds k s) (y # ys) then irun k P s (length (instrs ?q)) else goto_target k P s fail)"
    using "8.IH"(2) [of ?l ?p1] "8.prems"(2,4,5,6) parts(2)
    by (simp add: new_label_def q del: emit_or.simps)
  have "goto_target k P s (Label ?l) = irun k P s (length (instrs ?p4))"
    using pb(1) len4 by (simp add: goto_target_def)
  then show ?case
    using a b c code_ok_join [OF code_ok_join [OF conjunct1 [OF a] cj] conjunct1 [OF c]]
    by (auto simp: q simp del: emit_or.simps)
qed

text \<open>The whole program: well-formed, and accepting exactly when the formula holds.\<close>

lemma emit_program:
  assumes "nnf_ok n"
  defines "p \<equiv> emit_nnf n Reject prog_new"
  shows "prog_wf p" "irun k p s 0 = nnf_holds k s n"
proof -
  have "part_of p prog_new p" by (simp add: part_of_def prog_new_def)
  moreover have "fwd_until p p Reject" by (simp add: tgt_fwd_def)
  ultimately have *: "code_ok p 0 (length (instrs p)) \<and>
      irun k p s 0 = (if nnf_holds k s n then irun k p s (length (instrs p)) else False)"
    using emit_runs(1) [OF assms(1), of p prog_new Reject k s]
    by (simp add: p_def prog_new_def goto_target_def)
  then show "prog_wf p" by (simp add: prog_wf_def code_ok_def)
  show "irun k p s 0 = nnf_holds k s n" using * by (simp add: irun.simps [of k p s "length (instrs p)"])
qed

section \<open>Resolution\<close>

lemma length_prim_bytes: "prim_ok pr \<Longrightarrow> length (prim_bytes e pr yes no) = prim_size pr"
  by (induction pr rule: prim_ok.induct) auto

lemma prim_size_pos: "0 < prim_size pr" "prim_size pr < 256"
proof -
  show "0 < prim_size pr" by (cases pr) auto
  have "host_addr_len a < 244" for a by (cases a) auto
  then show "prim_size pr < 256" by (cases pr) auto
qed

lemma offset_Suc:
  "i < length is \<Longrightarrow> offset_of is (Suc i) = offset_of is i + prim_size (fst (is ! i))"
  by (simp add: offset_of_def code_size_def take_Suc_conv_app_nth split_def)

lemma offset_mono: "i \<le> j \<Longrightarrow> j \<le> length is \<Longrightarrow> offset_of is i \<le> offset_of is j"
proof (induction j)
  case 0
  then show ?case by simp
next
  case (Suc j)
  then show ?case by (cases "i = Suc j") (auto simp: offset_Suc)
qed

lemma offset_strict: "i < j \<Longrightarrow> j \<le> length is \<Longrightarrow> offset_of is i < offset_of is j"
  using offset_mono [of "Suc i" j "is"] prim_size_pos(1) [of "fst (is ! i)"]
  by (simp add: offset_Suc)

lemma offset_end: "offset_of is (length is) = code_size is"
  by (simp add: offset_of_def)

lemma resolve_from_Some:
  "resolve_from e p is = Some bs \<Longrightarrow>
     (\<forall>i\<in>set is. instr_bytes e p i \<noteq> None) \<and> bs = concat (map (\<lambda>i. the (instr_bytes e p i)) is)"
  by (induction "is" arbitrary: bs) (auto split: option.splits)

lemma instr_bytes_Some:
  assumes "instr_bytes e p i = Some b" "instrs p ! i = (pr, t)"
  shows "resolve_no p i t < 65536" "b = prim_bytes e pr (of_nat (prim_size pr)) (of_nat (resolve_no p i t))"
  using assms by (auto simp: instr_bytes_def Let_def split: if_splits)

lemma resolve_shape:
  assumes "prog_wf p" "resolve e p = Some bc"
  defines "B \<equiv> \<lambda>i. the (instr_bytes e p i)"
  shows "\<forall>i < length (instrs p). instr_bytes e p i \<noteq> None"
    and "bc = concat (map B [0..<length (instrs p)])"
    and "j \<le> length (instrs p) \<Longrightarrow> length (concat (map B [0..<j])) = offset_of (instrs p) j"
proof -
  let ?n = "length (instrs p)"
  show from_all: "\<forall>i < ?n. instr_bytes e p i \<noteq> None" and "bc = concat (map B [0..<?n])"
    using assms(2) resolve_from_Some [of e p "[0..<?n]" bc]
    by (auto simp: resolve_def B_def split: if_splits)
  have len: "length (B j) = prim_size (fst (instrs p ! j))" if "j < ?n" for j
    using from_all assms(1) that unfolding B_def
    by (cases "instrs p ! j") (fastforce simp: prog_wf_def length_prim_bytes dest: instr_bytes_Some(2))
  show "length (concat (map B [0..<j])) = offset_of (instrs p) j" if "j \<le> ?n" for j
    using that
  proof (induction j)
    case 0
    then show ?case by (simp add: offset_of_def code_size_def)
  qed (simp add: offset_Suc len)
qed

lemma resolve_split:
  assumes "prog_wf p" "resolve e p = Some bc" "i < length (instrs p)" "instrs p ! i = (pr, t)"
  shows "resolve_no p i t < 65536"
    and "\<exists>pre post. length pre = offset_of (instrs p) i \<and>
      bc = pre @ prim_bytes e pr (of_nat (prim_size pr)) (of_nat (resolve_no p i t)) @ post"
proof -
  let ?n = "length (instrs p)" and ?B = "\<lambda>i. the (instr_bytes e p i)"
  note shape = resolve_shape [OF assms(1,2)]
  obtain b where b: "instr_bytes e p i = Some b" using shape(1) assms(3) by auto
  show "resolve_no p i t < 65536" using instr_bytes_Some(1) [OF b assms(4)] .
  have "[0..<?n] = [0..<i] @ i # [Suc i..<?n]"
    using assms(3) upt_add_eq_append [of 0 i "?n - i"] by (simp add: upt_conv_Cons)
  then have "bc = concat (map ?B [0..<i]) @ b @ concat (map ?B [Suc i..<?n])"
    using shape(2) b by simp
  then show "\<exists>pre post. length pre = offset_of (instrs p) i \<and>
      bc = pre @ prim_bytes e pr (of_nat (prim_size pr)) (of_nat (resolve_no p i t)) @ post"
    using shape(3) [of i] assms(3) instr_bytes_Some(2) [OF b assms(4)] by (metis less_or_eq_imp_le)
qed

lemma length_resolve:
  "prog_wf p \<Longrightarrow> resolve e p = Some bc \<Longrightarrow> length bc = code_size (instrs p)"
  using resolve_shape(2) [of p e bc] resolve_shape(3) [of p e bc "length (instrs p)"]
  by (simp add: offset_end)

text \<open>The jump distances of a well-formed program reach past their instruction.\<close>

lemma resolve_no_cases:
  assumes "prog_wf p" "i < length (instrs p)" "instrs p ! i = (pr, t)"
  obtains (reject) "t = Reject" "offset_of (instrs p) i + resolve_no p i t = code_size (instrs p) + 4"
  | (finish) l where "t = Label l" "offset_of (instrs p) i + resolve_no p i t = code_size (instrs p)"
      "labels p ! l = None \<or> (\<exists>j. labels p ! l = Some j \<and> length (instrs p) \<le> j)"
  | (jump) l j where "t = Label l" "labels p ! l = Some j" "i < j" "j < length (instrs p)"
      "offset_of (instrs p) i + resolve_no p i t = offset_of (instrs p) j"
proof -
  have end_le: "offset_of (instrs p) i < code_size (instrs p)"
    using offset_strict [of i "length (instrs p)" "instrs p"] assms(2) offset_end [of "instrs p"] by simp
  have fwd: "tgt_fwd p i t" using assms by (auto simp: prog_wf_def)
  show ?thesis
  proof (cases t)
    case Reject
    then show ?thesis using end_le by (intro reject) (auto simp: resolve_no_def Let_def)
  next
    case (Label l)
    show ?thesis
    proof (cases "labels p ! l")
      case None
      then show ?thesis using Label end_le
        by (intro finish [of l]) (auto simp: resolve_no_def Let_def)
    next
      case (Some j)
      then have "i < j" using fwd Label by (simp add: tgt_fwd_def)
      show ?thesis
      proof (cases "length (instrs p) \<le> j")
        case True
        then show ?thesis using Label Some end_le
          by (intro finish [of l]) (auto simp: resolve_no_def Let_def)
      next
        case False
        then have "offset_of (instrs p) i < offset_of (instrs p) j"
          using \<open>i < j\<close> by (intro offset_strict) auto
        then show ?thesis using Label Some False \<open>i < j\<close>
          by (intro jump [of l j]) (auto simp: resolve_no_def Let_def)
      qed
    qed
  qed
qed

lemma run_refines:
  assumes "prog_wf p" "resolve e p = Some bc" "kernel_steps e k"
  shows "i \<le> length (instrs p) \<Longrightarrow> k_run k bc (offset_of (instrs p) i) s = irun k p s i"
proof (induction "length (instrs p) - i" arbitrary: i rule: less_induct)
  case less
  have len: "length bc = code_size (instrs p)" by (rule length_resolve [OF assms(1,2)])
  have accept: "k_run k bc (code_size (instrs p)) s"
    using assms(3) len [symmetric] by (simp add: kernel_steps_def)
  show ?case
  proof (cases "i = length (instrs p)")
    case True
    then show ?thesis using accept 
      by (simp add: offset_end irun.simps [of k p s "length (instrs p)"])
  next
    case False
    then have i: "i < length (instrs p)" using less.prems by simp
    obtain pr t where it: "instrs p ! i = (pr, t)" by fastforce
    have pok: "prim_ok pr" and fwd: "tgt_fwd p i t" using assms(1) i it by (auto simp: prog_wf_def)
    let ?no = "resolve_no p i t" and ?o = "offset_of (instrs p) i"
    obtain pre post where pre: "length pre = ?o"
      and bc: "bc = pre @ prim_bytes e pr (of_nat (prim_size pr)) (of_nat ?no) @ post"
      using resolve_split(2) [OF assms(1,2) i it] by blast
    have no: "unat (of_nat ?no :: u16) = ?no"
      using resolve_split(1) [OF assms(1,2) i it] by (intro unat_of_nat_id) simp
    have yes: "unat (of_nat (prim_size pr) :: u8) = prim_size pr"
      using prim_size_pos(2) by (intro unat_of_nat_id) simp
    have grow: "?o < code_size (instrs p)"
      using offset_strict [of i "length (instrs p)" "instrs p"] i offset_end [of "instrs p"] by simp
    have no_pos: "0 < ?no"
      using i grow by (cases rule: resolve_no_cases [OF assms(1) i it])
        (use offset_strict [of i _ "instrs p"] in fastforce)+
    have "(0 :: u16) < of_nat ?no" "(0 :: u8) < of_nat (prim_size pr)"
      using no no_pos yes prim_size_pos(1) by (simp_all add: word_less_nat_alt)
    then have step: "k_run k bc ?o s = k_run k bc (?o + (if prim_holds k pr s then prim_size pr else ?no)) s"
      using assms(3) pok unfolding kernel_steps_def bc pre [symmetric]
      by (metis no yes)
    have istep: "irun k p s i = (if prim_holds k pr s then irun k p s (Suc i) else goto_target k p s t)"
      by (rule irun_step [OF i it fwd])
    show ?thesis
    proof (cases "prim_holds k pr s")
      case True
      have "?o + prim_size pr = offset_of (instrs p) (Suc i)" using offset_Suc [OF i] it by simp
      then show ?thesis using True step istep less.hyps [of "Suc i"] i by simp
    next
      case False
      show ?thesis
        using assms(1) i it
      proof (cases rule: resolve_no_cases)
        case reject
        then have "\<not> k_run k bc (?o + ?no) s"
          using assms(3) len by (simp add: kernel_steps_def)
        then show ?thesis using False step istep reject(1) by (simp add: goto_target_def)
      next
        case (finish l)
        then have "goto_target k p s t"
          by (auto simp: goto_target_def irun.simps [of k p s])
        then show ?thesis using False step istep finish(2) accept by simp
      next
        case (jump l j)
        then have "k_run k bc (offset_of (instrs p) j) s = irun k p s j"
          using less.hyps [of j] i by simp
        then show ?thesis using False step istep jump by (simp add: goto_target_def)
      qed
    qed
  qed
qed

lemma resolve_correct:
  assumes "nnf_ok n" "kernel_steps e k" "resolve e (emit_nnf n Reject prog_new) = Some bc"
  shows "k_run k bc 0 s = nnf_holds k s n"
  using run_refines [OF emit_program(1) [OF assms(1)] assms(3,2), of 0 s] emit_program(2) [OF assms(1)]
  by (simp add: offset_of_def code_size_def)

section \<open>State masks\<close>

text \<open>The state leaves are TCP states, as every parsed expression has them.\<close>

fun tcp_leaves :: "filter_expr \<Rightarrow> bool" where
  "tcp_leaves (State (Tcp s)) = True"
| "tcp_leaves (State _) = False"
| "tcp_leaves (And a b) = (tcp_leaves a \<and> tcp_leaves b)"
| "tcp_leaves (Or a b) = (tcp_leaves a \<and> tcp_leaves b)"
| "tcp_leaves (Not a) = tcp_leaves a"
| "tcp_leaves _ = True"

lemma eval_state_mask_correct:
  "eval_state_mask ex = Some m \<Longrightarrow> tcp_leaves ex \<Longrightarrow> is_state s = Tcp st \<Longrightarrow>
     bit m (tcp_state_code st) = matches ex s"
proof (induction ex arbitrary: m rule: tcp_leaves.induct)
  case (1 t)
  then show ?case by (auto simp: bit_tcp_mask dest: tcp_state_code_inj)
next
  case (5 a)
  then show ?case
    using tcp_state_code_lt [of st]
    by (auto simp: bit_and_iff bit_not_iff bit_all_mask possible_bit_def)
qed (auto simp: bit_and_iff bit_or_iff split: option.splits)

section \<open>Compiled filters\<close>

definition state_passes :: "u32 option \<Rightarrow> inet_socket \<Rightarrow> bool" where
  "state_passes states s =
     (case states of None \<Rightarrow> True
      | Some m \<Rightarrow> (case is_state s of Tcp st \<Rightarrow> bit m (tcp_state_code st) | _ \<Rightarrow> False))"

definition kernel_passes :: "kernel_bc \<Rightarrow> compiled_filter \<Rightarrow> inet_socket \<Rightarrow> bool" where
  "kernel_passes k cf s =
     (state_passes (cf_states cf) s \<and>
      (case cf_bytecode cf of None \<Rightarrow> True | Some bc \<Rightarrow> k_run k bc 0 s))"

lemma matches_conjuncts: "(\<forall>c\<in>set (conjuncts ex). matches c s) = matches ex s"
  by (induction ex rule: conjuncts.induct) auto

lemma conjuncts_tcp: "tcp_leaves ex \<Longrightarrow> list_all tcp_leaves (conjuncts ex)"
  by (induction ex rule: conjuncts.induct) auto

definition bc_part :: "filter_expr \<Rightarrow> bool" where
  "bc_part c = (eval_state_mask c = None \<and> \<not> contains_state c)"

lemma split_fold:
  assumes "foldl split_step (st0, ps0, ex0) cs = (st, ps, ex)" "list_all tcp_leaves cs" "is_state s = Tcp t"
  shows "state_passes st s = (state_passes st0 s \<and> (\<forall>c\<in>set cs. eval_state_mask c \<noteq> None \<longrightarrow> matches c s))
    \<and> ps = ps0 @ filter bc_part cs
    \<and> ex = (ex0 \<and> (\<forall>c\<in>set cs. eval_state_mask c \<noteq> None \<or> bc_part c))"
  using assms(1,2)
proof (induction cs arbitrary: st0 ps0 ex0)
  case Nil
  then show ?case by simp
next
  case (Cons c cs)
  show ?case
  proof (cases "eval_state_mask c")
    case (Some m)
    have "bit m (tcp_state_code t) = matches c s"
      using eval_state_mask_correct [OF Some] Cons.prems(2) assms(3) by simp
    moreover have "tcp_state_code t < 32" using tcp_state_code_lt [of t] by simp
    ultimately have "state_passes (Some ((case st0 of None \<Rightarrow> - 1 | Some m0 \<Rightarrow> m0) AND m)) s
        = (state_passes st0 s \<and> matches c s)"
      using assms(3) by (cases st0) (auto simp: state_passes_def bit_and_iff)
    then show ?thesis
      using Cons.IH [of "Some ((case st0 of None \<Rightarrow> - 1 | Some m0 \<Rightarrow> m0) AND m)" ps0 ex0] Cons.prems Some
      by (auto simp: split_step_def bc_part_def)
  next
    case None
    then show ?thesis
      using Cons.IH [of st0 "ps0 @ [c]" ex0] Cons.IH [of st0 ps0 False] Cons.prems
      by (cases "contains_state c") (auto simp: split_step_def bc_part_def)
  qed
qed

lemma lower_fold:
  "foldl lower_step (l0, ex0) cs = (l, ex) \<Longrightarrow>
     l = l0 @ List.map_filter (\<lambda>c. lower c False) cs \<and>
     ex = (ex0 \<and> (\<forall>c\<in>set cs. lower c False \<noteq> None))"
proof (induction cs arbitrary: l0 ex0)
  case (Cons c cs)
  show ?case
  proof (cases "lower c False")
    case None
    then have "lower_step (l0, ex0) c = (l0, False)" by (simp add: lower_step_def)
    then show ?thesis using Cons.IH [of l0 False] Cons.prems None by auto
  next
    case (Some n)
    then have "lower_step (l0, ex0) c = (l0 @ [n], ex0)" by (simp add: lower_step_def)
    then show ?thesis using Cons.IH [of "l0 @ [n]" ex0] Cons.prems Some by auto
  qed
qed simp

lemma map_filter_ok: "list_all nnf_ok (List.map_filter (\<lambda>c. lower c False) cs)"
  by (induction cs) (auto simp: lower_ok split: option.splits)

lemma lowered_sound:
  "kernel_hosts k \<Longrightarrow> \<forall>c\<in>set cs. matches c s \<Longrightarrow>
     list_all (nnf_holds k s) (List.map_filter (\<lambda>c. lower c False) cs)"
  by (induction cs) (auto simp: lower_sound split: option.splits)

lemma lowered_exact:
  "\<forall>c\<in>set cs. lower c False \<noteq> None \<Longrightarrow> list_all nnf_is_exact (List.map_filter (\<lambda>c. lower c False) cs) \<Longrightarrow>
     list_all (nnf_holds k s) (List.map_filter (\<lambda>c. lower c False) cs) = (\<forall>c\<in>set cs. matches c s)"
  by (induction cs) (auto simp: lower_exact split: option.splits)

text \<open>The parts of a compiled filter, named.\<close>

lemma compile_filter_parts:
  assumes "is_state s = Tcp t" "tcp_leaves ex"
  defines "cs \<equiv> conjuncts ex"
  defines "ps \<equiv> filter bc_part cs"
  defines "l \<equiv> List.map_filter (\<lambda>c. lower c False) ps"
  shows "state_passes (cf_states (compile_filter e ex)) s
      = (\<forall>c\<in>set cs. eval_state_mask c \<noteq> None \<longrightarrow> matches c s)"
    and "cf_bytecode (compile_filter e ex)
      = (if l = [] then None else resolve e (emit_nnf (NAnd l) Reject prog_new))"
    and "cf_exact (compile_filter e ex) =
      ((\<forall>c\<in>set cs. eval_state_mask c \<noteq> None \<or> bc_part c) \<and> (\<forall>c\<in>set ps. lower c False \<noteq> None)
       \<and> list_all nnf_is_exact l \<and> (l = [] \<or> cf_bytecode (compile_filter e ex) \<noteq> None))"
proof -
  obtain st ps' x where sf: "foldl split_step (None, [], True) cs = (st, ps', x)"
    by (metis prod_cases3)
  obtain l' y where lf: "foldl lower_step ([], x) ps' = (l', y)" by fastforce
  have a: "state_passes st s = (\<forall>c\<in>set cs. eval_state_mask c \<noteq> None \<longrightarrow> matches c s)"
      "ps' = ps" "x = (\<forall>c\<in>set cs. eval_state_mask c \<noteq> None \<or> bc_part c)"
    using split_fold [OF sf _ assms(1)] conjuncts_tcp [OF assms(2)]
    by (auto simp: cs_def ps_def state_passes_def)
  have b: "l' = l" "y = (x \<and> (\<forall>c\<in>set ps. lower c False \<noteq> None))"
    using lower_fold [OF lf] a(2) by (auto simp: l_def)
  have c: "compile_filter e ex =
      (if l = [] then \<lparr>cf_states = st, cf_bytecode = None, cf_exact = y\<rparr>
       else \<lparr>cf_states = st, cf_bytecode = resolve e (emit_nnf (NAnd l) Reject prog_new),
             cf_exact = (y \<and> nnf_is_exact (NAnd l) \<and> resolve e (emit_nnf (NAnd l) Reject prog_new) \<noteq> None)\<rparr>)"
    using sf lf b(1) by (simp add: compile_filter_def cs_def Let_def)
  show "state_passes (cf_states (compile_filter e ex)) s
      = (\<forall>c\<in>set cs. eval_state_mask c \<noteq> None \<longrightarrow> matches c s)"
    using a(1) c by simp
  show "cf_bytecode (compile_filter e ex)
      = (if l = [] then None else resolve e (emit_nnf (NAnd l) Reject prog_new))"
    using c by simp
  show "cf_exact (compile_filter e ex) =
      ((\<forall>c\<in>set cs. eval_state_mask c \<noteq> None \<or> bc_part c) \<and> (\<forall>c\<in>set ps. lower c False \<noteq> None)
       \<and> list_all nnf_is_exact l \<and> (l = [] \<or> cf_bytecode (compile_filter e ex) \<noteq> None))"
    using c a(3) b(2) by auto
qed

lemma compile_superset:
  assumes "kernel_ok e k" "tcp_leaves ex" "is_state s = Tcp t" "matches ex s"
  shows "kernel_passes k (compile_filter e ex) s"
proof -
  let ?cs = "conjuncts ex"
  define l where "l = List.map_filter (\<lambda>c. lower c False) (filter bc_part ?cs)"
  note parts = compile_filter_parts [OF assms(3,2), of e, folded l_def]
  have all: "\<forall>c\<in>set ?cs. matches c s" using assms(4) by (simp only: matches_conjuncts)
  have "nnf_holds k s (NAnd l)"
    using lowered_sound [of k "filter bc_part ?cs" s] assms(1) all by (simp add: kernel_ok_def l_def)
  moreover have "nnf_ok (NAnd l)" using map_filter_ok by (simp add: l_def)
  ultimately have run: "k_run k bc 0 s" if "resolve e (emit_nnf (NAnd l) Reject prog_new) = Some bc" for bc
    using resolve_correct [OF _ _ that, of k s] assms(1) by (simp add: kernel_ok_def)
  show ?thesis unfolding kernel_passes_def
  proof
    show "state_passes (cf_states (compile_filter e ex)) s" using parts(1) all by blast
    show "case cf_bytecode (compile_filter e ex) of None \<Rightarrow> True | Some bc \<Rightarrow> k_run k bc 0 s"
    proof (cases "cf_bytecode (compile_filter e ex)")
      case (Some bc)
      then have "resolve e (emit_nnf (NAnd l) Reject prog_new) = Some bc"
        using parts(2) by (simp del: emit_nnf.simps split: if_splits)
      then show ?thesis using run Some by simp
    qed simp
  qed
qed

lemma compile_exact:
  assumes "kernel_ok e k" "tcp_leaves ex" "is_state s = Tcp t" "cf_exact (compile_filter e ex)"
    and pass: "kernel_passes k (compile_filter e ex) s"
  shows "matches ex s"
proof -
  let ?cs = "conjuncts ex"
  define ps where "ps = filter bc_part ?cs"
  define l where "l = List.map_filter (\<lambda>c. lower c False) ps"
  note parts = compile_filter_parts [OF assms(3,2), of e, folded ps_def, folded l_def]
  note ex = assms(4) [unfolded parts(3)]
  have states: "\<forall>c\<in>set ?cs. eval_state_mask c \<noteq> None \<longrightarrow> matches c s"
    using pass parts(1) unfolding kernel_passes_def by blast
  have "list_all (nnf_holds k s) l"
  proof (cases "l = []")
    case False
    then obtain bc where bc: "resolve e (emit_nnf (NAnd l) Reject prog_new) = Some bc"
      and cf: "cf_bytecode (compile_filter e ex) = Some bc"
      using ex parts(2) by (auto simp del: emit_nnf.simps)
    then have "k_run k bc 0 s" using pass by (simp add: kernel_passes_def)
    moreover have "nnf_ok (NAnd l)" using map_filter_ok by (simp add: l_def)
    ultimately have "nnf_holds k s (NAnd l)"
      using resolve_correct [OF _ _ bc, of k s] assms(1) by (simp add: kernel_ok_def)
    then show ?thesis by simp
  qed simp
  then have "\<forall>c\<in>set ps. matches c s"
    using lowered_exact [of ps k s] ex unfolding l_def by blast
  then have "\<forall>c\<in>set ?cs. matches c s" using states ex unfolding ps_def by auto
  then show "matches ex s" by (simp only: matches_conjuncts)
qed

section \<open>A machine with the documented behaviour\<close>

text \<open>
  A host condition of family \<open>AF_INET\<close> also matches v4-mapped IPv6 addresses, as the
  source says the kernel does.
\<close>

definition v4_mapped :: "ip_addr \<Rightarrow> ip_addr" where
  "v4_mapped ip =
     (case ip of V6 a \<Rightarrow> (if drop_bit 32 a = 0xFFFF then V4 (ucast a) else V6 a) | V4 a \<Rightarrow> V4 a)"

definition vm_host :: "u8 \<Rightarrow> u8 \<Rightarrow> u8 \<Rightarrow> bytes \<Rightarrow> inet_socket \<Rightarrow> bool" where
  "vm_host code family plen addr s =
     (let ip = sa_ip (if code = INET_DIAG_BC_S_COND then is_local s else is_remote s) in
      if family = 2 then ip_matches (v4_mapped ip) (V4 (be_word addr)) plen
      else ip_matches ip (V6 (be_word addr)) plen)"

definition vm_cond :: "endian \<Rightarrow> bytes \<Rightarrow> inet_socket \<Rightarrow> bool" where
  "vm_cond e op s =
     (let code = op ! 0 in
      if code = INET_DIAG_BC_JMP then False
      else if code = INET_DIAG_BC_S_COND \<or> code = INET_DIAG_BC_D_COND then
        vm_host code (op ! 4) (op ! 5) (take (if op ! 4 = 2 then 4 else 16) (drop 12 op)) s
      else port_op code (ne_word e (take 2 (drop 6 op))) s)"

definition vm_dist :: "endian \<Rightarrow> bytes \<Rightarrow> inet_socket \<Rightarrow> nat" where
  "vm_dist e op s =
     (if vm_cond e op s then unat (op ! 1) else unat (ne_word e (take 2 (drop 2 op)) :: u16))"

function vm_run :: "endian \<Rightarrow> bytes \<Rightarrow> nat \<Rightarrow> inet_socket \<Rightarrow> bool" where
  "vm_run e prog at s =
     (if at = length prog then True
      else if length prog < at then False
      else if vm_dist e (drop at prog) s = 0 then False
      else vm_run e prog (at + vm_dist e (drop at prog) s) s)"
  by pat_completeness auto
termination
  by (relation "measure (\<lambda>(e, prog, at, s). length prog - at)") auto

declare vm_run.simps [simp del]

definition vm_kernel :: "endian \<Rightarrow> kernel_bc" where
  "vm_kernel e = \<lparr>k_run = vm_run e, k_host = vm_host\<rparr>"

lemma vm_cond_prim:
  assumes "prim_ok pr"
  shows "vm_cond e (prim_bytes e pr yes no @ post) s = prim_holds (vm_kernel e) pr s"
    and "prim_bytes e pr yes no @ post = [] \<Longrightarrow> False"
    and "(prim_bytes e pr yes no @ post) ! 1 = yes"
    and "ne_word e (take 2 (drop 2 (prim_bytes e pr yes no @ post))) = no"
  using assms
  by (induction pr rule: prim_ok.induct)
    (auto simp: vm_cond_def Let_def vm_kernel_def ne_word_bytes nth_append drop_Cons')

lemma vm_kernel_steps: "kernel_steps e (vm_kernel e)"
  unfolding kernel_steps_def
proof (intro conjI allI impI)
  fix prog :: bytes and s :: inet_socket
  show "k_run (vm_kernel e) prog (length prog) s"
    by (simp add: vm_kernel_def vm_run.simps)
next
  fix prog :: bytes and at :: nat and s :: inet_socket
  assume "length prog < at"
  then show "\<not> k_run (vm_kernel e) prog at s"
    by (simp add: vm_kernel_def vm_run.simps)
next
  fix pre post :: bytes and pr :: prim and yes :: u8 and no :: u16 and s :: inet_socket
  assume a: "prim_ok pr \<and> 0 < yes \<and> 0 < no"
  let ?op = "prim_bytes e pr yes no @ post"
  note f = vm_cond_prim [OF conjunct1 [OF a], of e]
  have d: "vm_dist e ?op s = (if prim_holds (vm_kernel e) pr s then unat yes else unat no)"
    using f(1,3,4) by (simp add: vm_dist_def)
  have "unat yes \<noteq> 0" "unat no \<noteq> 0" using a by (auto simp: unat_eq_zero)
  then have "vm_dist e ?op s \<noteq> 0" using d by simp
  moreover have "?op \<noteq> []" using f(2) by blast
  then have "0 < length ?op" by (rule length_greater_0_conv [THEN iffD2])
  then have "length pre < length (pre @ ?op)" by simp
  ultimately have "vm_run e (pre @ ?op) (length pre) s = vm_run e (pre @ ?op) (length pre + vm_dist e ?op s) s"
    using vm_run.simps [of e "pre @ ?op" "length pre" s] by (simp only: append_eq_conv_conj drop_append) auto
  then show "k_run (vm_kernel e) (pre @ ?op) (length pre) s =
      k_run (vm_kernel e) (pre @ ?op)
        (length pre + (if prim_holds (vm_kernel e) pr s then unat yes else unat no)) s"
    by (simp only: vm_kernel_def kernel_bc.simps d)
qed

lemma be_octets: "be_word (be_bytes 4 (a :: u32)) = a" "be_word (be_bytes 16 (b :: u128)) = b"
  by (rule ne_word_bytes; simp)+

lemma vm_kernel_hosts: "kernel_hosts (vm_kernel e)"
proof -
  have v4: "ip_matches ip (V4 a) p \<Longrightarrow> ip_matches (v4_mapped ip) (V4 a) (min p 32)" for ip a p
    by (cases ip) (auto simp: v4_mapped_def min_def Let_def split: if_splits)
  have v6: "ip_matches ip (V6 a) p \<Longrightarrow> ip_matches ip (V6 a) (min p 128)" for ip a p
    by (cases ip) (auto simp: min_def Let_def split: if_splits)
  show ?thesis
    unfolding kernel_hosts_def
  proof (intro allI conjI impI)
    fix a p and s :: inet_socket
    assume m: "ip_matches (sa_ip (is_local s)) a p"
    show "prim_holds (vm_kernel e) (lower_host True a p) s"
      using m by (cases a) (simp_all add: vm_kernel_def vm_host_def be_octets v4 v6 del: ip_matches.simps)
  next
    fix a p and s :: inet_socket
    assume m: "ip_matches (sa_ip (is_remote s)) a p"
    show "prim_holds (vm_kernel e) (lower_host False a p) s"
      using m by (cases a) (simp_all add: vm_kernel_def vm_host_def be_octets v4 v6 del: ip_matches.simps)
  qed
qed

lemma vm_kernel_ok: "kernel_ok e (vm_kernel e)"
  by (simp add: kernel_ok_def vm_kernel_steps vm_kernel_hosts)

lemmas codegen_eval =
  resolve_def instr_bytes_def resolve_no_def offset_of_def code_size_def new_label_def bind_label_def
  push_instr_def prog_new_def Let_def upt_rec

section \<open>Properties\<close>

text \<open>
  C12. The compiler never under-approximates: a socket that matches the expression passes
  whatever the kernel is told to run, state mask and program together, for every
  expression whose state leaves are TCP states.
\<close>

theorem compile_filter_superset:
  assumes "kernel_ok e k" "tcp_leaves ex" "is_state s = Tcp t" "matches ex s"
  shows "kernel_passes k (compile_filter e ex) s"
  by (rule compile_superset [OF assms])

definition ssh_socket :: inet_socket where
  "ssh_socket = \<lparr>is_state = Tcp Established, is_local = \<lparr>sa_ip = V4 0x0A000001, sa_port = 22\<rparr>,
     is_remote = \<lparr>sa_ip = V4 0x0A000002, sa_port = 50000\<rparr>\<rparr>"

theorem compile_filter_superset_witness:
  "kernel_passes (vm_kernel LittleEndian)
     (compile_filter LittleEndian (And (Or (Sport CmpEq 22) (Dport CmpGt 65535)) (State (Tcp Established))))
     ssh_socket"
proof (rule compile_filter_superset [OF vm_kernel_ok])
  show "tcp_leaves (And (Or (Sport CmpEq 22) (Dport CmpGt 65535)) (State (Tcp Established)))" by simp
  show "is_state ssh_socket = Tcp Established" by (simp add: ssh_socket_def)
  show "matches (And (Or (Sport CmpEq 22) (Dport CmpGt 65535)) (State (Tcp Established))) ssh_socket"
    by (simp add: ssh_socket_def)
qed

text \<open>
  C13. When the compiler says the lowering is exact, the expression's states are TCP states and the socket has one, the
  kernel passes the socket if and only if the expression matches it, so the client-side check may be skipped.  For the
  generic states the flag does not mean that (\<open>generic_state_under_approximates\<close>).
\<close>

theorem compile_filter_exact:
  assumes "kernel_ok e k" "tcp_leaves ex" "is_state s = Tcp t" "cf_exact (compile_filter e ex)"
  shows "kernel_passes k (compile_filter e ex) s = matches ex s"
  using compile_superset [OF assms(1-3)] compile_exact [OF assms] by blast

theorem compile_filter_exact_witness:
  "\<not> kernel_passes (vm_kernel LittleEndian)
     (compile_filter LittleEndian (And (Not (Sport CmpNe 80)) (State (Tcp Established)))) ssh_socket"
proof -
  let ?e = "And (Not (Sport CmpNe 80)) (State (Tcp Established))"
  have x: "cf_exact (compile_filter LittleEndian ?e)"
    by (simp add: compile_filter_def split_step_def lower_step_def lower_port_cmp_def codegen_eval)
  have t: "tcp_leaves ?e" "is_state ssh_socket = Tcp Established" by (simp_all add: ssh_socket_def)
  have "\<not> matches ?e ssh_socket" by (simp add: ssh_socket_def)
  with compile_filter_exact [OF vm_kernel_ok t x] show ?thesis by blast
qed

text \<open>
  C14. Code generation is correct: a resolved program accepts a socket exactly when the
  normal form it was generated from holds, for every nesting of conjunctions and
  disjunctions, on every machine with the documented jump behaviour.
\<close>

theorem codegen_correct:
  assumes "nnf_ok n" "kernel_steps e k" "resolve e (emit_nnf n Reject prog_new) = Some bc"
  shows "k_run k bc 0 s = nnf_holds k s n \<and> length bc = code_size (instrs (emit_nnf n Reject prog_new))"
  using resolve_correct [OF assms] length_resolve [OF emit_program(1) [OF assms(1)] assms(3)] by simp

theorem codegen_correct_witness:
  "\<exists>bc. resolve BigEndian (emit_nnf (NOr [NLeaf (PPort 2 80), NAnd [NLeaf (PPort 3 22), NLeaf (PPort 2 22)]])
        Reject prog_new) = Some bc
     \<and> k_run (vm_kernel BigEndian) bc 0 ssh_socket"
proof -
  let ?n = "NOr [NLeaf (PPort 2 80), NAnd [NLeaf (PPort 3 22), NLeaf (PPort 2 22)]]"
  have "resolve BigEndian (emit_nnf ?n Reject prog_new) \<noteq> None"
    by (simp add: codegen_eval)
  then obtain bc where bc: "resolve BigEndian (emit_nnf ?n Reject prog_new) = Some bc" by auto
  have n: "nnf_ok ?n" "nnf_holds (vm_kernel BigEndian) ssh_socket ?n"
    by (simp_all add: ssh_socket_def port_op_def)
  have "k_run (vm_kernel BigEndian) bc 0 ssh_socket"
    using codegen_correct [OF n(1) vm_kernel_steps bc, of ssh_socket] n(2) by blast
  with bc show ?thesis by blast
qed

text \<open>
  The promise does not extend to state leaves of the non-TCP kind, which the public
  constructors allow: for \<open>not (state == SocketState::Close)\<close> the hoisted mask excludes every
  closed TCP socket, although the expression matches all TCP sockets, and the compiler
  calls the lowering exact.
\<close>

theorem generic_state_under_approximates:
  assumes "is_state s = Tcp Close"
  shows "matches (Not (State SockClose)) s
    \<and> cf_exact (compile_filter e (Not (State SockClose)))
    \<and> \<not> kernel_passes k (compile_filter e (Not (State SockClose))) s"
proof -
  have "compile_filter e (Not (State SockClose)) =
      \<lparr>cf_states = Some (- 1 AND (NOT (tcp_mask Close) AND all_mask)), cf_bytecode = None, cf_exact = True\<rparr>"
    by (simp add: compile_filter_def split_step_def del: and_minus_numerals)
  then show ?thesis
    using assms by (simp add: kernel_passes_def state_passes_def bit_and_iff bit_not_iff bit_tcp_mask)
qed

theorem generic_state_under_approximates_witness:
  "matches (Not (State SockClose)) (ssh_socket\<lparr>is_state := Tcp Close\<rparr>)
   \<and> \<not> kernel_passes (vm_kernel LittleEndian) (compile_filter LittleEndian (Not (State SockClose)))
        (ssh_socket\<lparr>is_state := Tcp Close\<rparr>)"
  using generic_state_under_approximates
    [of "ssh_socket\<lparr>is_state := Tcp Close\<rparr>" LittleEndian "vm_kernel LittleEndian"] by simp

end
