(* ===== verification/Sock_Audit.thy ===== *)
theory Sock_Audit
  imports Sock_Kernel
begin

text \<open>
  The audit the kernel makes of a bytecode program before it runs it, as
  \<open>sockdiag/bytecode.rs\<close> re-implements it next to its tests (\<open>audit\<close>), and the proof that
  every program the compiler resolves passes it.
\<close>

section \<open>The audit\<close>

definition audit_min_len :: "bytes \<Rightarrow> u8 \<Rightarrow> nat \<Rightarrow> nat \<Rightarrow> nat option" where
  "audit_min_len prog code remaining at =
     (if code = 1 then Some 4
      else if 2 \<le> code \<and> code \<le> 5 then Some 8
      else if code = 7 \<or> code = 8 then
        (if remaining < 12 then None
         else
           (let family = prog ! (at + 4);
                addr_len = (if family = 0 then Some 0 else if family = 2 then Some 4
                            else if family = 10 then Some 16 else None :: nat option)
            in case addr_len of None \<Rightarrow> None
               | Some n \<Rightarrow> if unat (prog ! (at + 5)) > 8 * n then None else Some (4 + 8 + n)))
      else None)"

abbreviation audit_no :: "endian \<Rightarrow> bytes \<Rightarrow> nat \<Rightarrow> nat" where
  "audit_no e prog at \<equiv> unat (ne_word e (take 2 (drop (at + 2) prog)) :: u16)"

text \<open>The first pass: the offsets reached by success, or \<open>None\<close> for a malformed op.\<close>

function audit_walk :: "endian \<Rightarrow> bytes \<Rightarrow> nat \<Rightarrow> nat list option" where
  "audit_walk e prog at =
     (if length prog \<le> at then Some []
      else if length prog - at < 4 then None
      else case audit_min_len prog (prog ! at) (length prog - at) at of
        None \<Rightarrow> None
      | Some ml \<Rightarrow>
          if unat (prog ! (at + 1)) < ml \<or> unat (prog ! (at + 1)) > length prog - at
             \<or> unat (prog ! (at + 1)) mod 4 \<noteq> 0 \<or> unat (prog ! (at + 1)) = 0 then None
          else if audit_no e prog at < ml \<or> audit_no e prog at > length prog - at + 4
             \<or> audit_no e prog at mod 4 \<noteq> 0 then None
          else map_option (\<lambda>rest. at # rest) (audit_walk e prog (at + unat (prog ! (at + 1)))))"
  by pat_completeness auto
termination
  by (relation "measure (\<lambda>(e, prog, at). length prog - at)") auto

declare audit_walk.simps [simp del]

definition audit :: "endian \<Rightarrow> bytes \<Rightarrow> bool" where
  "audit e prog =
     (case audit_walk e prog 0 of
        None \<Rightarrow> False
      | Some yes_chain \<Rightarrow>
          list_all (\<lambda>start.
            let dest = start + audit_no e prog start in
            \<not> (dest < length prog \<and> dest \<notin> set yes_chain) \<and> \<not> (dest > length prog + 4)) yes_chain)"

section \<open>Emitted programs pass\<close>

lemma prim_size_4: "prim_ok pr \<Longrightarrow> prim_size pr mod 4 = 0"
  by (induction pr rule: prim_ok.induct) auto

lemma offset_4: "prog_wf p \<Longrightarrow> i \<le> length (instrs p) \<Longrightarrow> offset_of (instrs p) i mod 4 = 0"
proof (induction i)
  case 0
  then show ?case by (simp add: offset_of_def code_size_def)
next
  case (Suc i)
  then have "prim_size (fst (instrs p ! i)) mod 4 = 0" by (auto simp: prog_wf_def prim_size_4)
  with Suc show ?case by (simp add: offset_Suc) presburger
qed

text \<open>What the audit reads at the place of an instruction.\<close>

lemma audit_reads:
  assumes "prim_ok pr" "prog = pre @ prim_bytes e pr yes no @ post" "at = length pre"
  shows "audit_min_len prog (prog ! at) (length prog - at) at = Some (prim_size pr)"
    and "prog ! (at + 1) = yes" and "audit_no e prog at = unat no"
proof -
  have *: "prog ! (at + i) = (prim_bytes e pr yes no @ post) ! i" for i
    by (simp add: assms(2,3) nth_append)
  show "prog ! (at + 1) = yes" unfolding * by (rule vm_cond_prim(3) [OF assms(1)])
  have "drop (at + 2) prog = drop 2 (prim_bytes e pr yes no @ post)"
    by (simp add: assms(2,3))
  then show "audit_no e prog at = unat no"
    using vm_cond_prim(4) [OF assms(1), of e yes no post] by simp
  have len: "length prog - at = prim_size pr + length post"
    using length_prim_bytes [OF assms(1), of e yes no] by (simp add: assms(2,3))
  show "audit_min_len prog (prog ! at) (length prog - at) at = Some (prim_size pr)"
    using assms(1) *[of 0] *[of 4] *[of 5] len
    by (induction pr rule: prim_ok.induct)
      (auto simp: audit_min_len_def Let_def nth_append word_le_nat_alt)
qed

lemma no_bounds:
  assumes "prog_wf p" "i < length (instrs p)" "instrs p ! i = (pr, t)"
  defines "o' \<equiv> offset_of (instrs p) i + resolve_no p i t"
  shows "offset_of (instrs p) (Suc i) \<le> o'" "o' \<le> code_size (instrs p) + 4" "resolve_no p i t mod 4 = 0"
    and "o' < code_size (instrs p) \<Longrightarrow> \<exists>j < length (instrs p). o' = offset_of (instrs p) j"
proof -
  have o_end: "offset_of (instrs p) (Suc i) \<le> code_size (instrs p)"
    using offset_mono [of "Suc i" "length (instrs p)" "instrs p"] assms(2) offset_end [of "instrs p"] by simp
  have four: "offset_of (instrs p) j mod 4 = 0" if "j \<le> length (instrs p)" for j
    using offset_4 [OF assms(1) that] .
  have tot4: "code_size (instrs p) mod 4 = 0" using four [of "length (instrs p)"] offset_end by simp
  have i4: "offset_of (instrs p) i mod 4 = 0" using four assms(2) by simp
  have mod4: "n mod 4 = 0" if "a + n = b" "a mod 4 = 0" "b mod 4 = 0" for a b n :: nat
    using that by presburger
  have "offset_of (instrs p) (Suc i) \<le> o' \<and> o' \<le> code_size (instrs p) + 4 \<and> resolve_no p i t mod 4 = 0
    \<and> (o' < code_size (instrs p) \<longrightarrow> (\<exists>j < length (instrs p). o' = offset_of (instrs p) j))"
    using assms(1-3)
  proof (cases rule: resolve_no_cases)
    case reject
    have "(code_size (instrs p) + 4) mod 4 = 0" using tot4 by presburger
    then have "resolve_no p i t mod 4 = 0" using mod4 [OF reject(2) i4] by simp
    then show ?thesis using reject o_end by (simp add: o'_def)
  next
    case (finish l)
    then show ?thesis using o_end mod4 [OF finish(2) i4 tot4] by (simp add: o'_def)
  next
    case (jump l j)
    have "offset_of (instrs p) j mod 4 = 0" using four jump by simp
    then have "resolve_no p i t mod 4 = 0" using mod4 [OF jump(5) i4] by simp
    moreover have "offset_of (instrs p) j \<le> code_size (instrs p)"
      using offset_mono [of j "length (instrs p)" "instrs p"] jump offset_end [of "instrs p"] by simp
    moreover have "offset_of (instrs p) (Suc i) \<le> offset_of (instrs p) j"
      using jump by (intro offset_mono) auto
    ultimately show ?thesis using jump by (auto simp: o'_def)
  qed
  then show "offset_of (instrs p) (Suc i) \<le> o'" "o' \<le> code_size (instrs p) + 4" "resolve_no p i t mod 4 = 0"
    and "o' < code_size (instrs p) \<Longrightarrow> \<exists>j < length (instrs p). o' = offset_of (instrs p) j"
    by auto
qed

lemma audit_instr:
  assumes "prog_wf p" "resolve e p = Some bc" "i < length (instrs p)" "instrs p ! i = (pr, t)"
  defines "at \<equiv> offset_of (instrs p) i"
  shows "audit_min_len bc (bc ! at) (length bc - at) at = Some (prim_size pr)"
    and "unat (bc ! (at + 1)) = prim_size pr" and "audit_no e bc at = resolve_no p i t"
proof -
  have ok: "prim_ok pr" using assms(1,3,4) by (auto simp: prog_wf_def)
  obtain pre post where *: "length pre = at"
      "bc = pre @ prim_bytes e pr (of_nat (prim_size pr)) (of_nat (resolve_no p i t)) @ post"
    using resolve_split(2) [OF assms(1-4)] by (auto simp: at_def)
  note r = audit_reads [OF ok *(2) *(1) [symmetric]]
  show "audit_min_len bc (bc ! at) (length bc - at) at = Some (prim_size pr)" by (rule r(1))
  show "unat (bc ! (at + 1)) = prim_size pr"
    unfolding r(2) using prim_size_pos(2) by (intro unat_of_nat_id) simp
  show "audit_no e bc at = resolve_no p i t"
    unfolding r(3) using resolve_split(1) [OF assms(1-4)] by (intro unat_of_nat_id) simp
qed

lemma audit_walk_resolved:
  assumes "prog_wf p" "resolve e p = Some bc"
  shows "i \<le> length (instrs p) \<Longrightarrow>
    audit_walk e bc (offset_of (instrs p) i) = Some (map (offset_of (instrs p)) [i..<length (instrs p)])"
proof (induction "length (instrs p) - i" arbitrary: i)
  case 0
  then have "i = length (instrs p)" by simp
  then show ?case
    using length_resolve [OF assms] by (subst audit_walk.simps) (simp add: offset_end)
next
  case (Suc m)
  then have i: "i < length (instrs p)" by simp
  obtain pr t where it: "instrs p ! i = (pr, t)" by fastforce
  let ?at = "offset_of (instrs p) i"
  have ok: "prim_ok pr" using assms(1) i it by (auto simp: prog_wf_def)
  note r = audit_instr [OF assms i it]
  note b = no_bounds [OF assms(1) i it]
  have len: "length bc = code_size (instrs p)" by (rule length_resolve [OF assms])
  have next_at: "offset_of (instrs p) (Suc i) = ?at + prim_size pr" using offset_Suc [OF i] it by simp
  have fits: "?at + prim_size pr \<le> length bc"
    using offset_mono [of "Suc i" "length (instrs p)" "instrs p"] i offset_end [of "instrs p"] len next_at by simp
  have four: "4 \<le> prim_size pr" using prim_size_4 [OF ok] prim_size_pos(1) [of pr] by presburger
  have no: "prim_size pr \<le> resolve_no p i t" "resolve_no p i t \<le> length bc - ?at + 4"
    using b(1,2) next_at len fits by linarith+
  have "audit_walk e bc (?at + prim_size pr)
      = Some (map (offset_of (instrs p)) [Suc i..<length (instrs p)])"
    using Suc.hyps(1) [of "Suc i"] Suc.hyps(2) i next_at by simp
  then show ?case
    using i fits four no b(3) r prim_size_4 [OF ok]
    by (subst audit_walk.simps) (simp add: upt_conv_Cons)
qed

lemma audit_resolved:
  assumes "prog_wf p" "resolve e p = Some bc"
  shows "audit e bc"
proof -
  let ?n = "length (instrs p)"
  have "offset_of (instrs p) 0 = 0" by (simp add: offset_of_def code_size_def)
  then have walk: "audit_walk e bc 0 = Some (map (offset_of (instrs p)) [0..<?n])"
    using audit_walk_resolved [OF assms, of 0] by simp
  have len: "length bc = code_size (instrs p)" by (rule length_resolve [OF assms])
  have "let dest = offset_of (instrs p) i + audit_no e bc (offset_of (instrs p) i) in
      \<not> (dest < length bc \<and> dest \<notin> set (map (offset_of (instrs p)) [0..<?n])) \<and> \<not> (dest > length bc + 4)"
    if i: "i < ?n" for i
  proof -
    obtain pr t where it: "instrs p ! i = (pr, t)" by fastforce
    show ?thesis
      using audit_instr(3) [OF assms i it] no_bounds(2,4) [OF assms(1) i it] len
      by (auto simp: Let_def)
  qed
  then show ?thesis using walk by (simp add: audit_def list_all_iff Let_def)
qed

lemma audit_emitted:
  "nnf_ok n \<Longrightarrow> resolve e (emit_nnf n Reject prog_new) = Some bc \<Longrightarrow> audit e bc"
  by (rule audit_resolved [OF emit_program(1)])

lemma compile_filter_bytecode:
  assumes "cf_bytecode (compile_filter e ex) = Some bc"
  shows "\<exists>l. list_all nnf_ok l \<and> resolve e (emit_nnf (NAnd l) Reject prog_new) = Some bc"
proof -
  obtain st ps x where sf: "foldl split_step (None, [], True) (conjuncts ex) = (st, ps, x)"
    by (metis prod_cases3)
  obtain l y where lf: "foldl lower_step ([], x) ps = (l, y)" by fastforce
  have "list_all nnf_ok l" using lower_fold [OF lf] map_filter_ok by simp
  moreover have "resolve e (emit_nnf (NAnd l) Reject prog_new) = Some bc"
    using assms by (simp add: compile_filter_def sf lf Let_def del: emit_nnf.simps split: if_splits)
  ultimately show ?thesis by blast
qed

lemma for_ports_nnf:
  assumes "for_ports e sp dp = Some bc"
  shows "\<exists>l. list_all nnf_ok l \<and> resolve e (emit_nnf (NAnd l) Reject prog_new) = Some bc"
proof -
  define part where "part = (\<lambda>src. case_option (Some []) (\<lambda>x. map_option (\<lambda>n. [n]) (lower_port_cmp src CmpEq x)))"
  have ok: "part src x = Some l \<Longrightarrow> list_all nnf_ok l" for src x l
    by (auto simp: part_def lower_port_cmp_ok split: option.splits)
  have "for_ports e sp dp =
      (case part True sp of None \<Rightarrow> None | Some ps \<Rightarrow>
       case part False dp of None \<Rightarrow> None | Some pd \<Rightarrow>
         if ps @ pd = [] then None else resolve e (emit_nnf (NAnd (ps @ pd)) Reject prog_new))"
    by (simp only: for_ports_def part_def)
  with assms obtain ps pd where "part True sp = Some ps" "part False dp = Some pd"
      "resolve e (emit_nnf (NAnd (ps @ pd)) Reject prog_new) = Some bc"
    by (auto simp del: emit_nnf.simps split: option.splits if_splits)
  with ok show ?thesis by (intro exI [of _ "ps @ pd"]) auto
qed

lemma compile_nnf:
  "compile e ex = Some bc \<Longrightarrow> \<exists>n. nnf_ok n \<and> resolve e (emit_nnf n Reject prog_new) = Some bc"
  by (auto simp: compile_def dest: lower_ok split: option.splits)

text \<open>
  Whatever expression is compiled, the emitted program passes the kernel's audit:
  every success chain step and every jump lands on an instruction, at the exact end, or one
  word past it, so a dump is never refused with \<open>EINVAL\<close> because of the compiler.
\<close>

theorem compiled_programs_audited:
  "(compile e ex = Some bc \<or> cf_bytecode (compile_filter e ex) = Some bc \<or> for_ports e sp dp = Some bc)
     \<Longrightarrow> audit e bc"
proof (elim disjE)
  assume "compile e ex = Some bc"
  then show ?thesis using compile_nnf audit_emitted by blast
next
  assume "cf_bytecode (compile_filter e ex) = Some bc"
  then obtain l where "nnf_ok (NAnd l)" "resolve e (emit_nnf (NAnd l) Reject prog_new) = Some bc"
    using compile_filter_bytecode by (metis nnf_ok.simps(1))
  then show ?thesis by (rule audit_emitted)
next
  assume "for_ports e sp dp = Some bc"
  then obtain l where "nnf_ok (NAnd l)" "resolve e (emit_nnf (NAnd l) Reject prog_new) = Some bc"
    using for_ports_nnf by (metis nnf_ok.simps(1))
  then show ?thesis by (rule audit_emitted)
qed

theorem compiled_programs_audited_witness:
  "\<exists>bc. for_ports LittleEndian (Some 22) None = Some bc \<and> audit LittleEndian bc"
proof -
  have "for_ports LittleEndian (Some 22) None \<noteq> None"
    by (simp add: for_ports_def lower_port_cmp_def codegen_eval)
  then obtain bc where bc: "for_ports LittleEndian (Some 22) None = Some bc" by auto
  then show ?thesis
    using compiled_programs_audited [of LittleEndian "Sport CmpEq 0" bc "Some 22" None] by blast
qed

end
