(* ===== verification/Pool.thy ===== *)
theory Pool
  imports Netlink_Error
begin

text \<open>
  The bounded connection pool (\<open>netlink/pool/\<close>): the channel of idle connections, the guards
  that lend them out, and the tasks that rebuild invalidated ones.  Opening a connection is
  the environment's; the order in which tasks and guards act is any order, the steps of
  \<open>pool_step\<close>.
\<close>

section \<open>The channel\<close>

text \<open>A bounded queue; it is closed for the receiver once no sender is left.\<close>

record 'c channel =
  ch_capacity :: nat
  ch_queue :: "'c list"
  ch_senders :: nat

datatype 'c mpsc_item = Got 'c | ChannelClosed | WouldWait

definition try_send :: "'c \<Rightarrow> 'c channel \<Rightarrow> bool \<times> 'c channel" where
  "try_send c ch =
     (if length (ch_queue ch) < ch_capacity ch
      then (True, ch\<lparr>ch_queue := ch_queue ch @ [c]\<rparr>) else (False, ch))"

definition recv :: "'c channel \<Rightarrow> 'c mpsc_item \<times> 'c channel" where
  "recv ch =
     (case ch_queue ch of
        c # cs \<Rightarrow> (Got c, ch\<lparr>ch_queue := cs\<rparr>)
      | [] \<Rightarrow> (if ch_senders ch = 0 then ChannelClosed else WouldWait, ch))"

section \<open>The builder\<close>

text \<open>\<open>default_size\<close> is \<open>available_parallelism\<close>, where the system reports it; times are in
  nanoseconds.\<close>

record pool_builder =
  pb_size :: nat
  pb_acquire_timeout :: nat
  pb_namespace :: "string option"

definition builder_new :: "nat option \<Rightarrow> pool_builder" where
  "builder_new default_size =
     \<lparr>pb_size = (case default_size of Some n \<Rightarrow> n | None \<Rightarrow> 4),
      pb_acquire_timeout = 5 * 1000000000, pb_namespace = None\<rparr>"

definition builder_size :: "nat \<Rightarrow> pool_builder \<Rightarrow> pool_builder" where
  "builder_size n b = b\<lparr>pb_size := max n 1\<rparr>"

definition builder_acquire_timeout :: "nat \<Rightarrow> pool_builder \<Rightarrow> pool_builder" where
  "builder_acquire_timeout t b = b\<lparr>pb_acquire_timeout := t\<rparr>"

definition builder_namespace :: "string \<Rightarrow> pool_builder \<Rightarrow> pool_builder" where
  "builder_namespace ns b = b\<lparr>pb_namespace := Some ns\<rparr>"

section \<open>The pool\<close>

text \<open>
  \<open>pl_guards\<close> are the connections of the live \<open>PooledConnection\<close>s, \<open>pl_tasks\<close> the number of
  spawned replenish tasks that have not ended, and \<open>pl_handle\<close> whether the pool itself still
  exists; guards borrow it.
\<close>

record 'c pool =
  pl_channel :: "'c channel"
  pl_namespace :: "string option"
  pl_size :: nat
  pl_timeout :: nat
  pl_guards :: "'c list"
  pl_tasks :: nat
  pl_handle :: bool

text \<open>
  \<open>connect ns i\<close> is the result of opening the \<open>i\<close>-th connection in namespace \<open>ns\<close>.  A send to
  a full channel would wait for ever; \<open>None\<close> says so.
\<close>

fun seed :: "(string option \<Rightarrow> nat \<Rightarrow> 'c nl_result) \<Rightarrow> string option \<Rightarrow> nat \<Rightarrow> nat \<Rightarrow> 'c channel \<Rightarrow>
    'c channel nl_result option" where
  "seed connect ns i 0 ch = Some (Inr ch)"
| "seed connect ns i (Suc n) ch =
     (case connect ns i of
        Inl e \<Rightarrow> Some (Inl e)
      | Inr c \<Rightarrow>
          (case try_send c ch of
             (False, _) \<Rightarrow> None
           | (True, ch') \<Rightarrow> seed connect ns (Suc i) n ch'))"

definition build :: "(string option \<Rightarrow> nat \<Rightarrow> 'c nl_result) \<Rightarrow> pool_builder \<Rightarrow>
    'c pool nl_result option" where
  "build connect b =
     (case seed connect (pb_namespace b) 0 (pb_size b)
        \<lparr>ch_capacity = pb_size b, ch_queue = [], ch_senders = 1\<rparr> of
        None \<Rightarrow> None
      | Some (Inl e) \<Rightarrow> Some (Inl e)
      | Some (Inr ch) \<Rightarrow>
          Some (Inr \<lparr>pl_channel = ch, pl_namespace = pb_namespace b, pl_size = pb_size b,
            pl_timeout = pb_acquire_timeout b, pl_guards = [], pl_tasks = 0,
            pl_handle = True\<rparr>))"

definition for_namespace :: "(string option \<Rightarrow> nat \<Rightarrow> 'c nl_result) \<Rightarrow> nat option \<Rightarrow> string \<Rightarrow> nat \<Rightarrow>
    'c pool nl_result option" where
  "for_namespace connect default_size ns n =
     build connect (builder_size n (builder_namespace ns (builder_new default_size)))"

text \<open>
  \<open>acquire\<close>, at the moment its wait ends: an idle connection is handed out, and an empty
  channel is the timeout.
\<close>

definition acquire :: "'c pool \<Rightarrow> 'c nl_result \<times> 'c pool" where
  "acquire p =
     (case recv (pl_channel p) of
        (Got c, ch) \<Rightarrow> (Inr c, p\<lparr>pl_channel := ch, pl_guards := pl_guards p @ [c]\<rparr>)
      | (ChannelClosed, ch) \<Rightarrow> (Inl PoolClosed, p)
      | (WouldWait, ch) \<Rightarrow> (Inl (PoolExhausted (pl_size p) (pl_timeout p)), p))"

text \<open>Dropping a guard, and \<open>invalidate\<close>; the task of the latter ends in \<open>replenish\<close>.\<close>

definition release :: "'c \<Rightarrow> 'c pool \<Rightarrow> 'c pool" where
  "release c p =
     p\<lparr>pl_guards := remove1 c (pl_guards p),
       pl_channel := snd (try_send c (pl_channel p))\<rparr>"

definition invalidate :: "'c \<Rightarrow> 'c pool \<Rightarrow> 'c pool" where
  "invalidate c p =
     p\<lparr>pl_guards := remove1 c (pl_guards p), pl_tasks := Suc (pl_tasks p)\<rparr>"

definition replenish :: "'c nl_result \<Rightarrow> 'c pool \<Rightarrow> 'c pool" where
  "replenish built p =
     (case built of
        Inr fresh \<Rightarrow> p\<lparr>pl_tasks := pl_tasks p - 1,
                       pl_channel := snd (try_send fresh (pl_channel p))\<rparr>
      | Inl e \<Rightarrow> p\<lparr>pl_tasks := pl_tasks p - 1\<rparr>)"

section \<open>Runs\<close>

datatype 'c pool_event =
    Acquire "'c nl_result"
  | Release 'c
  | Invalidate 'c
  | Replenish "'c nl_result"
  | DropPool

text \<open>
  A guard is dropped or invalidated while it is live, the pool only while no guard borrows
  it, and a fresh connection is a new one.
\<close>

inductive pool_step :: "'c pool \<Rightarrow> 'c pool_event \<Rightarrow> 'c pool \<Rightarrow> bool" where
  step_acquire: "pl_handle p \<Longrightarrow> acquire p = (r, p') \<Longrightarrow> pool_step p (Acquire r) p'"
| step_release: "c \<in> set (pl_guards p) \<Longrightarrow> pool_step p (Release c) (release c p)"
| step_invalidate: "c \<in> set (pl_guards p) \<Longrightarrow> pool_step p (Invalidate c) (invalidate c p)"
| step_replenish:
    "0 < pl_tasks p \<Longrightarrow>
     (\<And>fresh. built = Inr fresh \<Longrightarrow> fresh \<notin> set (ch_queue (pl_channel p)) \<union> set (pl_guards p)) \<Longrightarrow>
     pool_step p (Replenish built) (replenish built p)"
| step_drop:
    "pl_guards p = [] \<Longrightarrow> pl_handle p \<Longrightarrow> pool_step p DropPool (p\<lparr>pl_handle := False\<rparr>)"

inductive_cases pool_stepE: "pool_step p ev p'"

inductive pool_run :: "'c pool \<Rightarrow> 'c pool_event list \<Rightarrow> 'c pool \<Rightarrow> bool" where
  run_nil: "pool_run p [] p"
| run_snoc: "pool_run p evs p' \<Longrightarrow> pool_step p' ev p'' \<Longrightarrow> pool_run p (evs @ [ev]) p''"

text \<open>The connections the pool still accounts for: idle, lent or being rebuilt.\<close>

definition capacity :: "'c pool \<Rightarrow> nat" where
  "capacity p = length (ch_queue (pl_channel p)) + length (pl_guards p) + pl_tasks p"

definition pool_ok :: "'c pool \<Rightarrow> bool" where
  "pool_ok p = (ch_capacity (pl_channel p) = pl_size p \<and> 0 < ch_senders (pl_channel p) \<and>
     capacity p \<le> pl_size p \<and> distinct (ch_queue (pl_channel p) @ pl_guards p))"

fun replenish_failed :: "'c pool_event \<Rightarrow> bool" where
  "replenish_failed (Replenish (Inl e)) = True"
| "replenish_failed _ = False"

lemmas pool_defs = acquire_def release_def invalidate_def replenish_def try_send_def recv_def
  capacity_def pool_ok_def

lemma length_remove1_Suc: "c \<in> set xs \<Longrightarrow> Suc (length (remove1 c xs)) = length xs"
  by (induction xs) auto

lemma pool_step_ok: "pool_step p ev p' \<Longrightarrow> pool_ok p \<Longrightarrow> pool_ok p'"
  by (erule pool_stepE)
    (auto simp: pool_defs notin_set_remove1 split: list.splits if_splits sum.splits
      prod.splits mpsc_item.splits dest: length_remove1_Suc)

lemma pool_step_capacity:
  "pool_step p ev p' \<Longrightarrow> pool_ok p \<Longrightarrow>
   capacity p' + (if replenish_failed ev then 1 else 0) = capacity p"
  by (erule pool_stepE)
    (auto simp: pool_defs split: list.splits if_splits sum.splits
      prod.splits mpsc_item.splits dest: length_remove1_Suc)

lemma pool_step_const:
  "pool_step p ev p' \<Longrightarrow> pl_size p' = pl_size p \<and> pl_timeout p' = pl_timeout p"
  by (erule pool_stepE)
    (auto simp: pool_defs split: list.splits if_splits sum.splits prod.splits mpsc_item.splits)

lemma pool_run_ok: "pool_run p evs p' \<Longrightarrow> pool_ok p \<Longrightarrow> pool_ok p'"
  by (induction rule: pool_run.induct) (auto intro: pool_step_ok)

lemma pool_run_capacity:
  "pool_run p evs p' \<Longrightarrow> pool_ok p \<Longrightarrow>
   capacity p' + length (filter replenish_failed evs) = capacity p"
proof (induction rule: pool_run.induct)
  case (run_snoc p evs p' ev p'')
  then show ?case
    using pool_step_capacity[of p' ev p''] pool_run_ok[of p evs p'] by auto
qed simp

lemma pool_run_size: "pool_run p evs p' \<Longrightarrow> pl_size p' = pl_size p \<and> pl_timeout p' = pl_timeout p"
  by (induction rule: pool_run.induct) (auto dest: pool_step_const)

section \<open>Building\<close>

lemma seed_ok:
  assumes "\<And>j. i \<le> j \<Longrightarrow> j < i + n \<Longrightarrow> connect ns j = Inr (f j)"
    "length (ch_queue ch) + n \<le> ch_capacity ch"
  shows "seed connect ns i n ch = Some (Inr (ch\<lparr>ch_queue := ch_queue ch @ map f [i..<i + n]\<rparr>))"
  using assms
proof (induction n arbitrary: i ch)
  case (Suc n)
  let ?ch = "ch\<lparr>ch_queue := ch_queue ch @ [f i]\<rparr>"
  have "seed connect ns (Suc i) n ?ch =
    Some (Inr (?ch\<lparr>ch_queue := ch_queue ?ch @ map f [Suc i..<Suc i + n]\<rparr>))"
    by (rule Suc.IH) (use Suc.prems in auto)
  then show ?case
    using Suc.prems(1)[of i] Suc.prems(2) by (simp add: try_send_def upt_conv_Cons del: upt_Suc)
qed simp

lemma seed_error:
  assumes "\<And>j. i \<le> j \<Longrightarrow> j < k \<Longrightarrow> \<exists>c. connect ns j = Inr c" "connect ns k = Inl e"
    "i \<le> k" "k < i + n" "length (ch_queue ch) + n \<le> ch_capacity ch"
  shows "seed connect ns i n ch = Some (Inl e)"
  using assms
proof (induction n arbitrary: i ch)
  case (Suc n)
  show ?case
  proof (cases "i = k")
    case False
    obtain c where "connect ns i = Inr c" using Suc.prems(1)[of i] Suc.prems(3) False by auto
    moreover have "seed connect ns (Suc i) n (ch\<lparr>ch_queue := ch_queue ch @ [c]\<rparr>) = Some (Inl e)"
      by (rule Suc.IH) (use Suc.prems False in auto)
    ultimately show ?thesis using Suc.prems(5) by (simp add: try_send_def)
  qed (use Suc.prems in simp)
qed simp

text \<open>
  Building never waits on its own channel: with every connection opened the pool holds
  them all, idle and in order, and otherwise the result is the error of the first one that
  failed.
\<close>

theorem build_outcome:
  "(\<forall>j < pb_size b. connect (pb_namespace b) j = Inr (f j)) \<Longrightarrow>
   \<exists>p. build connect b = Some (Inr p) \<and> ch_queue (pl_channel p) = map f [0..<pb_size b] \<and>
     pl_guards p = [] \<and> pl_tasks p = 0 \<and> pl_handle p"
  "(\<forall>j < k. \<exists>c. connect (pb_namespace b) j = Inr c) \<Longrightarrow> k < pb_size b \<Longrightarrow>
   connect (pb_namespace b) k = Inl e \<Longrightarrow> build connect b = Some (Inl e)"
proof -
  let ?ch = "\<lparr>ch_capacity = pb_size b, ch_queue = [], ch_senders = 1\<rparr> :: 'a channel"
  show "\<exists>p. build connect b = Some (Inr p) \<and> ch_queue (pl_channel p) = map f [0..<pb_size b] \<and>
     pl_guards p = [] \<and> pl_tasks p = 0 \<and> pl_handle p"
    if "\<forall>j < pb_size b. connect (pb_namespace b) j = Inr (f j)"
    using seed_ok[of 0 "pb_size b" connect "pb_namespace b" f ?ch] that
    by (simp add: build_def)
  show "build connect b = Some (Inl e)"
    if "\<forall>j < k. \<exists>c. connect (pb_namespace b) j = Inr c" "k < pb_size b"
      "connect (pb_namespace b) k = Inl e"
    using seed_error[of 0 k connect "pb_namespace b" e "pb_size b" ?ch] that
    by (simp add: build_def)
qed

theorem build_outcome_witness:
  "build (\<lambda>ns i. if i = 1 then Inl Timeout else Inr i)
     (builder_size 3 (builder_new None)) = Some (Inl Timeout)"
  by (rule build_outcome(2)[where k = 1]) (auto simp: builder_size_def)

lemma build_fresh_ok:
  assumes "build connect b = Some (Inr p)" "\<And>j. connect (pb_namespace b) j = Inr (f j)" "inj f"
  shows "pool_ok p \<and> capacity p = pl_size p \<and> pl_size p = pb_size b"
proof -
  let ?ch = "\<lparr>ch_capacity = pb_size b, ch_queue = [], ch_senders = 1\<rparr> :: 'a channel"
  have "seed connect (pb_namespace b) 0 (pb_size b) ?ch =
    Some (Inr (?ch\<lparr>ch_queue := map f [0..<pb_size b]\<rparr>))"
    using seed_ok[of 0 "pb_size b" connect "pb_namespace b" f ?ch] assms(2) by simp
  then show ?thesis
    using assms(1) inj_on_subset[OF assms(3), of "{0..<pb_size b}"]
    by (auto simp: build_def pool_ok_def capacity_def distinct_map)
qed

section \<open>What a run of the pool guarantees\<close>

lemma pool_accounts:
  assumes "build connect b = Some (Inr p)" "\<And>j. connect (pb_namespace b) j = Inr (f j)" "inj f"
    "pool_run p evs p'"
  shows "pool_ok p'" "capacity p' + length (filter replenish_failed evs) = pb_size b"
    "pl_size p' = pb_size b" "pl_timeout p' = pl_timeout p"
  using build_fresh_ok[OF assms(1-3)] pool_run_ok[OF assms(4)] pool_run_capacity[OF assms(4)]
    pool_run_size[OF assms(4)]
  by auto

text \<open>
  C11. The pool accounts for every connection: after any run of acquires, releases,
  invalidations and replenishments the idle, lent and rebuilding connections number the
  configured size less one for each replenishment that failed (so nothing ever restores a
  lost place), and no connection is idle or lent twice.
\<close>

theorem pool_accounting:
  assumes "build connect b = Some (Inr p)" "\<And>j. connect (pb_namespace b) j = Inr (f j)" "inj f"
    "pool_run p evs p'"
  shows "capacity p' = pb_size b - length (filter replenish_failed evs) \<and>
    length (filter replenish_failed evs) \<le> pb_size b \<and>
    distinct (ch_queue (pl_channel p') @ pl_guards p')"
  using pool_accounts[OF assms] by (auto simp: pool_ok_def)

text \<open>A pool of two numbered connections, used by the witnesses.\<close>

definition two_pool :: "nat pool" where
  "two_pool = \<lparr>pl_channel = \<lparr>ch_capacity = 2, ch_queue = [0, 1], ch_senders = 1\<rparr>,
     pl_namespace = None, pl_size = 2, pl_timeout = 5000000000, pl_guards = [], pl_tasks = 0,
     pl_handle = True\<rparr>"

lemma two_pool_built:
  "build (\<lambda>ns i. Inr i) (builder_size 2 (builder_new None)) = Some (Inr two_pool)"
  by (simp add: build_def builder_size_def builder_new_def two_pool_def try_send_def
      numeral_2_eq_2)

definition two_pool_lost :: "nat pool" where
  "two_pool_lost = replenish (Inl Timeout) (invalidate 0 (snd (acquire two_pool)))"

lemma two_pool_run:
  "pool_run two_pool [Acquire (Inr 0), Invalidate 0, Replenish (Inl Timeout)] two_pool_lost"
proof -
  let ?p1 = "snd (acquire two_pool)"
  have "pool_run two_pool ([] @ [Acquire (Inr 0)]) ?p1"
    by (rule run_snoc[OF run_nil step_acquire])
      (auto simp: acquire_def recv_def two_pool_def)
  from run_snoc[OF this step_invalidate[of 0 ?p1]]
  have "pool_run two_pool ([Acquire (Inr 0)] @ [Invalidate 0]) (invalidate 0 ?p1)"
    by (simp add: acquire_def recv_def two_pool_def)
  from run_snoc[OF this step_replenish[of _ "Inl Timeout"]]
  show ?thesis by (simp add: two_pool_lost_def invalidate_def)
qed

theorem pool_accounting_witness:
  "capacity two_pool_lost = 1 \<and>
   distinct (ch_queue (pl_channel two_pool_lost) @ pl_guards two_pool_lost)"
  using pool_accounting[OF two_pool_built, of "\<lambda>i. i", OF _ _ two_pool_run]
  by (simp add: builder_size_def)

text \<open>
  Giving back never fails: in every reachable state a dropped guard's connection
  arrives at the end of the idle queue, and a rebuilt connection too.
\<close>

theorem pool_send_succeeds:
  assumes "build connect b = Some (Inr p)" "\<And>j. connect (pb_namespace b) j = Inr (f j)" "inj f"
    "pool_run p evs p'"
  shows "c \<in> set (pl_guards p') \<Longrightarrow>
      ch_queue (pl_channel (release c p')) = ch_queue (pl_channel p') @ [c]"
    "0 < pl_tasks p' \<Longrightarrow>
      ch_queue (pl_channel (replenish (Inr fresh) p')) = ch_queue (pl_channel p') @ [fresh]"
  using pool_accounts(1)[OF assms] length_remove1_Suc[of c "pl_guards p'"]
  by (auto simp: pool_defs)

theorem pool_send_succeeds_witness:
  "ch_queue (pl_channel (release 0 (snd (acquire two_pool)))) = [1, 0]"
proof -
  have run: "pool_run two_pool ([] @ [Acquire (Inr 0)]) (snd (acquire two_pool))"
    by (rule run_snoc[OF run_nil step_acquire])
      (auto simp: acquire_def recv_def two_pool_def)
  show ?thesis
    using pool_send_succeeds(1)[OF two_pool_built, of "\<lambda>i. i", OF _ _ run, of 0]
    by (simp add: acquire_def recv_def two_pool_def)
qed

text \<open>
  What \<open>acquire\<close> answers in a reachable state: the oldest idle connection, which no
  guard holds, or, when none is idle, the exhaustion error with the configured size and
  timeout.  It never answers \<open>PoolClosed\<close>.
\<close>

theorem acquire_outcome:
  assumes "build connect b = Some (Inr p)" "\<And>j. connect (pb_namespace b) j = Inr (f j)" "inj f"
    "pool_run p evs p'"
  shows "case ch_queue (pl_channel p') of
      [] \<Rightarrow> acquire p' = (Inl (PoolExhausted (pb_size b) (pb_acquire_timeout b)), p')
    | c # cs \<Rightarrow> fst (acquire p') = Inr c \<and> c \<notin> set (pl_guards p') \<and>
        ch_queue (pl_channel (snd (acquire p'))) = cs"
proof -
  have "pl_timeout p = pb_acquire_timeout b"
    using assms(1) by (auto simp: build_def split: option.splits sum.splits)
  then show ?thesis
    using pool_accounts[OF assms] by (auto simp: pool_defs split: list.splits)
qed

theorem acquire_outcome_witness:
  "fst (acquire two_pool_lost) = Inr 1"
  using acquire_outcome[OF two_pool_built, of "\<lambda>i. i", OF _ _ two_pool_run]
  by (simp add: two_pool_lost_def two_pool_def pool_defs)

text \<open>
  C17. Availability: while no replenishment has failed, none is running and fewer than the
  configured number of guards is live, \<open>acquire\<close> succeeds at once; once as many
  replenishments have failed as the pool is large it times out for ever.
\<close>

theorem pool_availability:
  assumes "build connect b = Some (Inr p)" "\<And>j. connect (pb_namespace b) j = Inr (f j)" "inj f"
    "pool_run p evs p'"
  shows "(filter replenish_failed evs = [] \<and> pl_tasks p' = 0 \<and> length (pl_guards p') < pb_size b \<longrightarrow>
       (\<exists>c. fst (acquire p') = Inr c)) \<and>
    (length (filter replenish_failed evs) = pb_size b \<longrightarrow>
       fst (acquire p') = Inl (PoolExhausted (pb_size b) (pl_timeout p)))"
  using pool_accounts[OF assms] by (auto simp: pool_defs split: list.splits)

theorem pool_availability_witness:
  "\<exists>c. fst (acquire (snd (acquire two_pool))) = Inr c"
proof -
  have run: "pool_run two_pool ([] @ [Acquire (Inr 0)]) (snd (acquire two_pool))"
    by (rule run_snoc[OF run_nil step_acquire])
      (auto simp: acquire_def recv_def two_pool_def)
  show ?thesis
    by (rule pool_availability[THEN conjunct1, rule_format, OF two_pool_built, of "\<lambda>i. i", OF _ _ run])
      (auto simp: acquire_def recv_def two_pool_def builder_size_def)
qed

end
