(* ===== verification/Socket.thy ===== *)
theory Socket
  imports Netlink_Message
begin

text \<open>
  The socket of \<open>netlink/socket.rs\<close>: sequence numbers, the bounded retries of \<open>send\<close>, and the
  receive paths \<open>recv_msg\<close> and \<open>poll_recv\<close>.  The kernel is a queue of what its \<open>recv\<close> calls
  find; as the manual page says, \<open>recv\<close> with \<open>MSG_TRUNC\<close> and without \<open>MSG_PEEK\<close> takes the
  datagram off the queue, copies what fits and returns its real length.
\<close>

section \<open>Sequence numbers\<close>

text \<open>The counter wraps, and zero (the number of multicast messages) is skipped.\<close>

function next_nonzero_seq :: "u32 \<Rightarrow> u32 \<times> u32" where
  "next_nonzero_seq counter =
     (let s = counter; counter' = counter + 1
      in if s \<noteq> 0 then (s, counter') else next_nonzero_seq counter')"
  by pat_completeness auto
termination
  by (relation "measure (\<lambda>c. if c = 0 then 1 else 0)") auto

declare next_nonzero_seq.simps [simp del]

lemma next_nonzero_seq_cases:
  "next_nonzero_seq c = (if c = 0 then (1, 2) else (c, c + 1))"
  by (simp add: next_nonzero_seq.simps[of c] next_nonzero_seq.simps[of 1] Let_def)

text \<open>The numbers of \<open>n\<close> successive requests.\<close>

fun seqs :: "nat \<Rightarrow> u32 \<Rightarrow> u32 list" where
  "seqs 0 c = []"
| "seqs (Suc n) c = (case next_nonzero_seq c of (s, c') \<Rightarrow> s # seqs n c')"

text \<open>The \<open>k\<close>-th number, for a counter at \<open>i + 1\<close>.\<close>

lemma seqs_closed:
  assumes "i < 2 ^ 32 - 1"
  shows "seqs n (of_nat (Suc i)) = map (\<lambda>k. of_nat (Suc ((i + k) mod (2 ^ 32 - 1)))) [0..<n]"
  using assms
proof (induction n arbitrary: i)
  case (Suc n)
  have nz: "(of_nat (Suc i) :: u32) \<noteq> 0"
  proof
    assume "(of_nat (Suc i) :: u32) = 0"
    then have "unat (of_nat (Suc i) :: u32) = 0" by simp
    then show False using Suc.prems by (simp add: unat_of_nat_id del: of_nat_Suc)
  qed
  let ?j = "if Suc i = 2 ^ 32 - 1 then 0 else Suc i"
  have shift: "map (\<lambda>k. of_nat (Suc ((?j + k) mod (2 ^ 32 - 1)))) [0..<n] =
    map (\<lambda>k. of_nat (Suc ((i + k) mod (2 ^ 32 - 1))) :: u32) [1..<Suc n]"
  proof -
    have "(?j + k) mod (2 ^ 32 - 1) = (i + Suc k) mod (2 ^ 32 - 1)" for k
    proof (cases "Suc i = 2 ^ 32 - 1")
      case True
      then have "i + Suc k = k + (2 ^ 32 - 1)" by simp
      then show ?thesis using True by (simp only: refl if_True mod_add_self2 add_0 simp_thms)
    qed simp
    then show ?thesis by (simp add: map_Suc_upt[symmetric] o_def del: upt_Suc of_nat_Suc)
  qed
  have step: "seqs n (of_nat (Suc i) + 1) = seqs n (of_nat (Suc ?j))"
  proof (cases "Suc i = 2 ^ 32 - 1")
    case True
    then have "Suc i + 1 = 2 ^ 32" by simp
    then have "of_nat (Suc i + 1) = (of_nat (2 ^ 32) :: u32)" by (simp only:)
    also have "\<dots> = 0" by simp
    finally have "(of_nat (Suc i) :: u32) + 1 = 0" by (simp only: of_nat_add of_nat_1)
    moreover have "seqs n 0 = seqs n (of_nat (Suc 0))"
      by (cases n) (simp_all add: next_nonzero_seq_cases)
    ultimately show ?thesis using True by (simp only: refl if_True simp_thms)
  qed (simp add: ac_simps)
  have "seqs (Suc n) (of_nat (Suc i)) = of_nat (Suc i) # seqs n (of_nat (Suc i) + 1)"
    using nz by (simp add: next_nonzero_seq_cases)
  also have "seqs n (of_nat (Suc i) + 1) =
      map (\<lambda>k. of_nat (Suc ((?j + k) mod (2 ^ 32 - 1)))) [0..<n]"
    unfolding step by (rule Suc.IH) (use Suc.prems in auto)
  finally show ?case
    unfolding shift using Suc.prems by (simp add: upt_conv_Cons del: upt_Suc of_nat_Suc)
qed simp

section \<open>Sending\<close>

datatype io_try = TryOk | TryErr io_error | TryWouldBlock

definition SEND_WOULDBLOCK_LIMIT :: u32 where "SEND_WOULDBLOCK_LIMIT = 32"

text \<open>The outcomes of the successive \<open>send\<close> calls; \<open>None\<close> waits for the socket.\<close>

fun send_loop :: "u32 \<Rightarrow> io_try list \<Rightarrow> unit nl_result option" where
  "send_loop would_block_count [] = None"
| "send_loop would_block_count (TryOk # ts) = Some (Inr ())"
| "send_loop would_block_count (TryErr err # ts) = Some (Inl (Io err))"
| "send_loop would_block_count (TryWouldBlock # ts) =
     (let n = would_block_count + 1
      in if n \<ge> SEND_WOULDBLOCK_LIMIT then Some (Inl (Backpressure True)) else send_loop n ts)"

definition socket_send :: "io_try list \<Rightarrow> unit nl_result option" where
  "socket_send ts = send_loop 0 ts"

section \<open>Receiving\<close>

datatype queue_item = Datagram bytes | RecvErr io_error | RecvWouldBlock

definition RECV_INITIAL_CAPACITY :: nat where "RECV_INITIAL_CAPACITY = 32 * 1024"
definition RECV_MAX_CAPACITY :: nat where "RECV_MAX_CAPACITY = 1024 * 1024"

definition next_multiple_of :: "nat \<Rightarrow> nat \<Rightarrow> nat" where
  "next_multiple_of n m = (if n mod m = 0 then n else n + (m - n mod m))"

text \<open>
  The result, the queue that is left, and how many times the overflow was announced to the
  subscribers (\<open>fan_out_enobufs\<close>).
\<close>

fun recv_msg_at :: "nat \<Rightarrow> queue_item list \<Rightarrow> bytes nl_result option \<times> queue_item list \<times> nat" where
  "recv_msg_at capacity [] = (None, [], 0)"
| "recv_msg_at capacity (RecvWouldBlock # q) = recv_msg_at capacity q"
| "recv_msg_at capacity (RecvErr err # q) =
     (Some (Inl (Io err)), q, if err = OsError ENOBUFS then 1 else 0)"
| "recv_msg_at capacity (Datagram d # q) =
     (let received = length d; buf = take capacity d
      in if received \<le> capacity then (Some (Inr buf), q, 0)
         else let next_cap = next_multiple_of received 4096
              in if next_cap > RECV_MAX_CAPACITY
                 then (Some (Inl (FrameTruncated received capacity)), q, 0)
                 else recv_msg_at next_cap q)"

definition recv_msg :: "queue_item list \<Rightarrow> bytes nl_result option \<times> queue_item list \<times> nat" where
  "recv_msg q = recv_msg_at RECV_INITIAL_CAPACITY q"

fun poll_recv :: "queue_item list \<Rightarrow> bytes nl_result option \<times> queue_item list \<times> nat" where
  "poll_recv [] = (None, [], 0)"
| "poll_recv (RecvWouldBlock # q) = poll_recv q"
| "poll_recv (RecvErr err # q) =
     (Some (Inl (Io err)), q, if err = OsError ENOBUFS then 1 else 0)"
| "poll_recv (Datagram d # q) =
     (if length d > RECV_INITIAL_CAPACITY
      then (Some (Inl (FrameTruncated (length d) RECV_INITIAL_CAPACITY)), q, 0)
      else (Some (Inr (take RECV_INITIAL_CAPACITY d)), q, 0))"

lemma seqs_start: "\<exists>i < 2 ^ 32 - 1. seqs n c = seqs n (of_nat (Suc i))"
proof (cases "c = 0")
  case True
  then have "seqs n c = seqs n (of_nat (Suc 0))"
    by (cases n) (simp_all add: next_nonzero_seq_cases)
  then show ?thesis by (intro exI[of _ 0]) simp
next
  case False
  then obtain i where i: "unat c = Suc i" by (metis unat_eq_zero not0_implies_Suc)
  have "i < 2 ^ 32 - 1" using i unsigned_less[where 'a = nat, of c] by simp
  moreover have "of_nat (Suc i) = c" unfolding i[symmetric] by simp
  ultimately show ?thesis by metis
qed

lemma seq_of_index: "unat (of_nat (Suc (j mod (2 ^ 32 - 1))) :: u32) = Suc (j mod (2 ^ 32 - 1))"
  by (rule unat_of_nat_id) simp

lemma mod_shift_eq:
  fixes a b m :: nat
  assumes "(i + a) mod m = (i + b) mod m" "a < m" "b < m"
  shows "a = b"
proof -
  have "b \<le> a \<Longrightarrow> (i + a) mod m = (i + b) mod m \<Longrightarrow> a < m \<Longrightarrow> a = b" for a b
    using mod_eq_dvd_iff_nat[of "i + b" "i + a" m] nat_dvd_not_less[of "a - b" m]
    by (cases "a = b") auto
  then show ?thesis using assms by (metis linorder_linear)
qed

text \<open>
  Sequence numbers: none is zero, and any \<open>2 ^ 32 - 1\<close> consecutive ones differ, across
  the wrap of the counter.
\<close>

theorem seqs_fresh:
  assumes "n \<le> 2 ^ 32 - 1"
  shows "distinct (seqs n c) \<and> 0 \<notin> set (seqs n c)"
proof -
  obtain i where i: "i < 2 ^ 32 - 1" "seqs n c = seqs n (of_nat (Suc i))"
    using seqs_start by blast
  let ?f = "\<lambda>k. of_nat (Suc ((i + k) mod (2 ^ 32 - 1))) :: u32"
  have eq: "seqs n c = map ?f [0..<n]" unfolding i(2) by (rule seqs_closed) (rule i(1))
  have "inj_on ?f {0..<n}"
  proof (rule inj_onI)
    fix a b assume ab: "a \<in> {0..<n}" "b \<in> {0..<n}" and same: "?f a = ?f b"
    have "Suc ((i + a) mod (2 ^ 32 - 1)) = Suc ((i + b) mod (2 ^ 32 - 1))"
      using arg_cong[OF same, of unat] by (simp only: seq_of_index)
    then have "(i + a) mod (2 ^ 32 - 1) = (i + b) mod (2 ^ 32 - 1)" by (rule Suc_inject)
    then show "a = b" by (rule mod_shift_eq) (use ab assms in auto)
  qed
  moreover have "?f k \<noteq> 0" for k
    using seq_of_index[of "i + k"] by (metis unat_0 nat.distinct(1))
  ultimately show ?thesis unfolding eq by (auto simp: distinct_map simp del: of_nat_Suc)
qed

theorem seqs_fresh_witness:
  "distinct (seqs 3 0xFFFFFFFE) \<and> 0 \<notin> set (seqs 3 0xFFFFFFFE)"
  by (rule seqs_fresh) simp

text \<open>A datagram that fits the initial buffer is handed over whole, in order.\<close>

lemma recv_msg_fits:
  "length d \<le> 32768 \<Longrightarrow> recv_msg (Datagram d # q) = (Some (Inr d), q, 0)"
  by (simp add: recv_msg_def RECV_INITIAL_CAPACITY_def Let_def)

lemma next_multiple_of_le:
  assumes "0 < m" "n \<le> k * m"
  shows "n \<le> next_multiple_of n m" "next_multiple_of n m \<le> k * m"
proof -
  have eq: "next_multiple_of n m = (if n mod m = 0 then n else (n div m + 1) * m)"
  proof (cases "n mod m = 0")
    case False
    have "n + (m - n mod m) = n div m * m + n mod m + (m - n mod m)"
      by (simp only: div_mult_mod_eq)
    also have "\<dots> = n div m * m + m"
      using mod_less_divisor[OF assms(1), of n] by linarith
    finally show ?thesis using False by (simp add: next_multiple_of_def)
  qed (simp add: next_multiple_of_def)
  have "n mod m < m" using assms(1) by simp
  then show "n \<le> next_multiple_of n m"
    unfolding next_multiple_of_def by (cases "n mod m = 0") (simp_all only: if_True if_False refl simp_thms le_add1 order_refl)
  have "n div m < k" if "n mod m \<noteq> 0"
  proof -
    have "n \<noteq> k * m" using that by auto
    then have "n < k * m" using assms(2) by simp
    then show ?thesis using assms(1) by (simp add: less_mult_imp_div_less)
  qed
  then have "(n div m + 1) * m \<le> k * m" if "n mod m \<noteq> 0"
    using that by (intro mult_le_mono1) auto
  then show "next_multiple_of n m \<le> k * m" using assms(2) eq by auto
qed

text \<open>
  Auto-grow loses the frame it grows for: when a datagram between 32 KiB and 1 MiB is
  followed by a small one, \<open>recv_msg\<close> reports neither the large datagram nor an error; it
  returns the following datagram.  With nothing behind it, it waits.
\<close>

theorem recv_msg_loses_large_datagram:
  assumes "32768 < length big" "length big \<le> 1048576" "length d \<le> 32768"
  shows "recv_msg (Datagram big # Datagram d # q) = (Some (Inr d), q, 0) \<and>
    recv_msg [Datagram big] = (None, [], 0)"
proof -
  have "length big \<le> next_multiple_of (length big) 4096"
    "next_multiple_of (length big) 4096 \<le> 1048576"
    using next_multiple_of_le[of 4096 "length big" 256] assms(2) by simp_all
  then show ?thesis
    using assms by (simp_all add: recv_msg_def RECV_INITIAL_CAPACITY_def RECV_MAX_CAPACITY_def Let_def)
qed

theorem recv_msg_loses_large_datagram_witness:
  "recv_msg [Datagram (replicate 40000 1), Datagram [7], Datagram [8]] =
     (Some (Inr [7]), [Datagram [8]], 0)"
  by (rule recv_msg_loses_large_datagram[THEN conjunct1]) simp_all

text \<open>
  The poll variant cannot grow its buffer: it reports the truncation.  Sending gives up after
  the limit of attempts.
\<close>

lemma poll_recv_reports_truncation:
  "32768 < length big \<Longrightarrow>
   poll_recv (Datagram big # q) = (Some (Inl (FrameTruncated (length big) 32768)), q, 0)"
  by (simp add: RECV_INITIAL_CAPACITY_def)

lemma send_loop_blocked:
  "unat c + n < 32 \<Longrightarrow> send_loop c (replicate n TryWouldBlock @ ts) = send_loop (c + of_nat n) ts"
proof (induction n arbitrary: c)
  case (Suc n)
  have "unat (c + 1) = unat c + 1"
    using Suc.prems unat_add_lem[of c 1] by simp
  moreover have "unat (32 :: u32) = 32" by simp
  ultimately have "\<not> c + 1 \<ge> SEND_WOULDBLOCK_LIMIT"
    using Suc.prems unfolding SEND_WOULDBLOCK_LIMIT_def word_le_nat_alt by linarith
  then show ?case
    using Suc.IH[of "c + 1"] Suc.prems \<open>unat (c + 1) = unat c + 1\<close>
    by (simp add: Let_def ac_simps)
qed simp

lemma send_backpressure:
  "socket_send (replicate 32 TryWouldBlock @ ts) = Some (Inl (Backpressure True))"
proof -
  have "replicate 32 TryWouldBlock @ ts = replicate 31 TryWouldBlock @ TryWouldBlock # ts"
    by (simp add: numeral_eq_Suc)
  then show ?thesis
    using send_loop_blocked[of 0 31 "TryWouldBlock # ts"]
    by (simp add: socket_send_def SEND_WOULDBLOCK_LIMIT_def Let_def)
qed

end
