(* ===== verification/Netlink_Builder.thy ===== *)
theory Netlink_Builder
  imports Netlink_Message
begin

text \<open>
  The message builder (\<open>netlink/builder.rs\<close>).  Its operations change one growing buffer;
  those that index into it return \<open>None\<close> where the source would panic.  The abstract
  specification is a tree of attributes: what the calls \<open>append_attr\<close>, \<open>nest_start\<close> and
  \<open>nest_end\<close> build is the serialisation of the tree, and the iterators of the receive
  side read it back.
\<close>

section \<open>State and operations\<close>

record message_builder =
  mb_buf :: bytes

type_synonym nest_token = nat

definition patch :: "nat \<Rightarrow> bytes \<Rightarrow> bytes \<Rightarrow> bytes option" where
  "patch off new buf =
     (if off + length new \<le> length buf
      then Some (take off buf @ new @ drop (off + length new) buf) else None)"

definition resize :: "nat \<Rightarrow> bytes \<Rightarrow> bytes" where
  "resize n buf = take n buf @ replicate (n - length buf) 0"

definition mb_with_header :: "endian \<Rightarrow> nl_msg_hdr \<Rightarrow> message_builder" where
  "mb_with_header e header = \<lparr>mb_buf = nl_msg_hdr_as_bytes e header\<rparr>"

definition mb_new :: "endian \<Rightarrow> u16 \<Rightarrow> u16 \<Rightarrow> message_builder" where
  "mb_new e msg_type flags = \<lparr>mb_buf = nl_msg_hdr_as_bytes e (nl_msg_hdr_new msg_type flags)\<rparr>"

definition mb_len :: "message_builder \<Rightarrow> nat" where
  "mb_len b = length (mb_buf b)"

definition mb_is_empty :: "message_builder \<Rightarrow> bool" where
  "mb_is_empty b = (length (mb_buf b) = NLMSG_HDRLEN)"

definition append_bytes :: "bytes \<Rightarrow> message_builder \<Rightarrow> message_builder" where
  "append_bytes data b =
     (let buf = mb_buf b @ data in b\<lparr>mb_buf := resize (nlmsg_align (length buf)) buf\<rparr>)"

definition append_attr :: "endian \<Rightarrow> u16 \<Rightarrow> bytes \<Rightarrow> message_builder \<Rightarrow> message_builder" where
  "append_attr e attr_type data b =
     (let attr = nl_attr_new attr_type (length data);
          buf = mb_buf b @ nl_attr_as_bytes e attr;
          buf = buf @ data
      in b\<lparr>mb_buf := resize (nla_align (length buf)) buf\<rparr>)"

definition append_attr_u8 :: "endian \<Rightarrow> u16 \<Rightarrow> u8 \<Rightarrow> message_builder \<Rightarrow> message_builder" where
  "append_attr_u8 e t v = append_attr e t [v]"

definition append_attr_empty :: "endian \<Rightarrow> u16 \<Rightarrow> message_builder \<Rightarrow> message_builder" where
  "append_attr_empty e t = append_attr e t []"

definition append_attr_u16 :: "endian \<Rightarrow> u16 \<Rightarrow> u16 \<Rightarrow> message_builder \<Rightarrow> message_builder" where
  "append_attr_u16 e t v = append_attr e t (ne_bytes e 2 v)"

definition append_attr_u32 :: "endian \<Rightarrow> u16 \<Rightarrow> u32 \<Rightarrow> message_builder \<Rightarrow> message_builder" where
  "append_attr_u32 e t v = append_attr e t (ne_bytes e 4 v)"

definition append_attr_u64 :: "endian \<Rightarrow> u16 \<Rightarrow> u64 \<Rightarrow> message_builder \<Rightarrow> message_builder" where
  "append_attr_u64 e t v = append_attr e t (ne_bytes e 8 v)"

definition append_attr_u64_be :: "endian \<Rightarrow> u16 \<Rightarrow> u64 \<Rightarrow> message_builder \<Rightarrow> message_builder" where
  "append_attr_u64_be e t v = append_attr e t (be_bytes 8 v)"

definition append_attr_u16_be :: "endian \<Rightarrow> u16 \<Rightarrow> u16 \<Rightarrow> message_builder \<Rightarrow> message_builder" where
  "append_attr_u16_be e t v = append_attr e t (be_bytes 2 v)"

definition append_attr_u32_be :: "endian \<Rightarrow> u16 \<Rightarrow> u32 \<Rightarrow> message_builder \<Rightarrow> message_builder" where
  "append_attr_u32_be e t v = append_attr e t (be_bytes 4 v)"

definition append_attr_str :: "endian \<Rightarrow> u16 \<Rightarrow> string \<Rightarrow> message_builder \<Rightarrow> message_builder" where
  "append_attr_str e t v = append_attr e t (bytes_of_str v @ [0])"

definition append_attr_string :: "endian \<Rightarrow> u16 \<Rightarrow> string \<Rightarrow> message_builder \<Rightarrow> message_builder" where
  "append_attr_string e t v = append_attr e t (bytes_of_str v)"

definition nest_start :: "endian \<Rightarrow> u16 \<Rightarrow> message_builder \<Rightarrow> nest_token \<times> message_builder" where
  "nest_start e attr_type b =
     (let attr = nl_attr_new (attr_type OR NLA_F_NESTED) 0
      in (length (mb_buf b), b\<lparr>mb_buf := mb_buf b @ nl_attr_as_bytes e attr\<rparr>))"

text \<open>The release build; the debug build also stops when the length exceeds \<open>u16::MAX\<close>.\<close>

definition nest_end :: "endian \<Rightarrow> nest_token \<Rightarrow> message_builder \<Rightarrow> message_builder option" where
  "nest_end e token b =
     (if token > length (mb_buf b) then None
      else do {
        let len = length (mb_buf b) - token;
        buf \<leftarrow> patch token (ne_bytes e 2 (of_nat (min len 65535) :: u16)) (mb_buf b);
        Some (b\<lparr>mb_buf := resize (nla_align (length buf)) buf\<rparr>)
      })"

definition set_seq :: "endian \<Rightarrow> u32 \<Rightarrow> message_builder \<Rightarrow> message_builder option" where
  "set_seq e seq b = do {
     buf \<leftarrow> patch 8 (ne_bytes e 4 seq) (mb_buf b);
     Some (b\<lparr>mb_buf := buf\<rparr>)
   }"

definition set_pid :: "endian \<Rightarrow> u32 \<Rightarrow> message_builder \<Rightarrow> message_builder option" where
  "set_pid e pid b = do {
     buf \<leftarrow> patch 12 (ne_bytes e 4 pid) (mb_buf b);
     Some (b\<lparr>mb_buf := buf\<rparr>)
   }"

definition mb_finish :: "endian \<Rightarrow> message_builder \<Rightarrow> bytes option" where
  "mb_finish e b = patch 0 (ne_bytes e 4 (of_nat (length (mb_buf b)) :: u32)) (mb_buf b)"

section \<open>Well-formed builders\<close>

text \<open>
  Every builder a caller can hold has a whole header in front and ends on an alignment
  boundary.
\<close>

definition mb_wf :: "message_builder \<Rightarrow> bool" where
  "mb_wf b = (16 \<le> length (mb_buf b) \<and> 4 dvd length (mb_buf b))"

lemma resize_ge: "length buf \<le> n \<Longrightarrow> resize n buf = buf @ replicate (n - length buf) 0"
  by (simp add: resize_def)

lemma length_patch: "patch off new buf = Some buf' \<Longrightarrow> length buf' = length buf"
  by (auto simp: patch_def split: if_splits)

lemma mb_wf_new [simp]: "mb_wf (mb_new e t f)" "mb_wf (mb_with_header e h)"
  by (simp_all add: mb_wf_def mb_new_def mb_with_header_def)

lemma append_attr_wire:
  "4 dvd length (mb_buf b) \<Longrightarrow> append_attr e t d b = b\<lparr>mb_buf := mb_buf b @ attr_wire e t d\<rparr>"
  by (simp add: append_attr_def Let_def resize_ge nla_align_add attr_wire_def attr_pad_def)

lemma append_bytes_pad:
  "4 dvd length (mb_buf b) \<Longrightarrow>
     append_bytes d b = b\<lparr>mb_buf := mb_buf b @ d @ attr_pad (length d)\<rparr>"
  by (simp add: append_bytes_def Let_def resize_ge nla_align_add attr_pad_def)

lemma mb_wf_append [simp]:
  "mb_wf b \<Longrightarrow> mb_wf (append_attr e t d b)" "mb_wf b \<Longrightarrow> mb_wf (append_bytes d b)"
  by (auto simp: mb_wf_def append_attr_wire append_bytes_pad length_attr_wire length_wire_pad)

lemma set_seq_wf: "mb_wf b \<Longrightarrow> \<exists>b'. set_seq e s b = Some b' \<and> mb_wf b'"
  by (auto simp: mb_wf_def set_seq_def patch_def)

lemma set_pid_wf: "mb_wf b \<Longrightarrow> \<exists>b'. set_pid e s b = Some b' \<and> mb_wf b'"
  by (auto simp: mb_wf_def set_pid_def patch_def)

section \<open>Attribute trees\<close>

datatype attr_tree = Leaf u16 bytes | Nest u16 "attr_tree list"

fun wire_tree :: "endian \<Rightarrow> attr_tree \<Rightarrow> bytes" where
  "wire_tree e (Leaf t d) = attr_wire e t d"
| "wire_tree e (Nest t ts) = attr_wire e (t OR NLA_F_NESTED) (concat (map (wire_tree e) ts))"

text \<open>The attribute payloads, nested ones included, fit the 16-bit length.\<close>

fun tree_fits :: "endian \<Rightarrow> attr_tree \<Rightarrow> bool" where
  "tree_fits e (Leaf t d) = (length d \<le> 65531)"
| "tree_fits e (Nest t ts) =
     (list_all (tree_fits e) ts \<and> length (concat (map (wire_tree e) ts)) \<le> 65531)"

text \<open>The calls a caller makes to send a tree.\<close>

fun emit_tree :: "endian \<Rightarrow> attr_tree \<Rightarrow> message_builder \<Rightarrow> message_builder option"
and emit_trees :: "endian \<Rightarrow> attr_tree list \<Rightarrow> message_builder \<Rightarrow> message_builder option" where
  "emit_tree e (Leaf t d) b = Some (append_attr e t d b)"
| "emit_tree e (Nest t ts) b =
     (case nest_start e t b of (token, b1) \<Rightarrow>
        case emit_trees e ts b1 of None \<Rightarrow> None | Some b2 \<Rightarrow> nest_end e token b2)"
| "emit_trees e [] b = Some b"
| "emit_trees e (t # ts) b =
     (case emit_tree e t b of None \<Rightarrow> None | Some b1 \<Rightarrow> emit_trees e ts b1)"

lemma wire_tree_dvd [simp]: "4 dvd length (wire_tree e t)"
  by (cases t) simp_all

lemma wire_trees_dvd [simp]: "4 dvd length (concat (map (wire_tree e) ts))"
  by (induction ts) auto

lemma nest_end_closes:
  assumes "4 dvd length pre" "4 dvd length inner" "length inner \<le> 65531"
  shows "nest_end e (length pre)
      (b\<lparr>mb_buf := pre @ nl_attr_as_bytes e (nl_attr_new t 0) @ inner\<rparr>)
    = Some (b\<lparr>mb_buf := pre @ attr_wire e t inner\<rparr>)"
proof -
  let ?h = "nl_attr_as_bytes e (nl_attr_new t 0)"
  have "patch (length pre) (ne_bytes e 2 (of_nat (min (4 + length inner) 65535) :: u16)) (pre @ ?h @ inner)
      = Some (pre @ nl_attr_as_bytes e (nl_attr_new t (length inner)) @ inner)"
    by (simp add: patch_def nl_attr_as_bytes_def nl_attr_new_def)
  moreover have "nla_align (length inner) = length inner" using assms(2) by (rule nla_align_id)
  ultimately show ?thesis
    using assms
    by (simp add: nest_end_def attr_wire_def attr_pad_def resize_ge nla_align_add add.assoc)
qed

lemma emit_correct:
  "tree_fits e t \<Longrightarrow> 4 dvd length (mb_buf b) \<Longrightarrow>
     emit_tree e t b = Some (b\<lparr>mb_buf := mb_buf b @ wire_tree e t\<rparr>)"
  "list_all (tree_fits e) ts \<Longrightarrow> 4 dvd length (mb_buf b) \<Longrightarrow>
     emit_trees e ts b = Some (b\<lparr>mb_buf := mb_buf b @ concat (map (wire_tree e) ts)\<rparr>)"
proof (induction e t b and e ts b rule: emit_tree_emit_trees.induct)
  case (1 e t d b)
  then show ?case by (simp add: append_attr_wire)
next
  case (2 e t ts b)
  let ?h = "nl_attr_as_bytes e (nl_attr_new (t OR NLA_F_NESTED) 0)"
  have "emit_trees e ts (b\<lparr>mb_buf := mb_buf b @ ?h\<rparr>)
      = Some (b\<lparr>mb_buf := mb_buf b @ ?h @ concat (map (wire_tree e) ts)\<rparr>)"
    using 2 by (simp add: nest_start_def)
  with nest_end_closes [of "mb_buf b" "concat (map (wire_tree e) ts)" e _ b] 2(2,3)
  show ?case by (simp add: nest_start_def)
qed auto

section \<open>Reading the tree back\<close>

fun tree_item :: "endian \<Rightarrow> attr_tree \<Rightarrow> u16 \<times> bytes" where
  "tree_item e (Leaf t d) = (t AND NLA_TYPE_MASK, d)"
| "tree_item e (Nest t ts) = (t AND NLA_TYPE_MASK, concat (map (wire_tree e) ts))"

lemma nested_kind: "((t :: u16) OR NLA_F_NESTED) AND - 49153 = t AND - 49153"
  by (simp add: bit.conj_disj_distrib2)

lemma attrs_of_tree:
  "tree_fits e t \<Longrightarrow> attrs_of e (wire_tree e t @ r) = tree_item e t # attrs_of e r"
  by (cases t) (simp_all add: attrs_of_wire nested_kind)

lemma attrs_of_trees:
  "list_all (tree_fits e) ts \<Longrightarrow> attrs_of e (concat (map (wire_tree e) ts)) = map (tree_item e) ts"
  by (induction ts) (simp_all add: attrs_of_tree)

section \<open>Properties\<close>

text \<open>
  C3. Building is serialisation: on a well-formed builder the nested calls for any
  attribute tree whose payloads fit the 16-bit length never panic, append exactly the
  serialisation of the tree (nested lengths back-patched, flags set, padding in place) and
  leave the builder well-formed.
\<close>

theorem builder_serialises:
  assumes "list_all (tree_fits e) ts" "mb_wf b"
  shows "\<exists>b'. emit_trees e ts b = Some b' \<and> mb_wf b'
    \<and> mb_buf b' = mb_buf b @ concat (map (wire_tree e) ts)"
  using assms emit_correct(2) [of e ts b] by (auto simp: mb_wf_def)

theorem builder_serialises_witness:
  "mb_wf (mb_new LittleEndian 16 1)
   \<and> (\<exists>b'. emit_trees LittleEndian [Nest 1 [Leaf 2 [100, 0, 0, 0]], Leaf 3 [7]] (mb_new LittleEndian 16 1)
         = Some b' \<and> mb_wf b')"
  using builder_serialises
    [of LittleEndian "[Nest 1 [Leaf 2 [100, 0, 0, 0]], Leaf 3 [7]]" "mb_new LittleEndian 16 1"]
  by (auto simp: length_attr_wire nla_align_def)

definition send_tree :: "endian \<Rightarrow> u16 \<Rightarrow> u16 \<Rightarrow> u32 \<Rightarrow> attr_tree list \<Rightarrow> bytes option" where
  "send_tree e ty fl seq ts =
     (case emit_trees e ts (mb_new e ty fl) of None \<Rightarrow> None
      | Some b \<Rightarrow> case set_seq e seq b of None \<Rightarrow> None | Some b' \<Rightarrow> mb_finish e b')"

lemma send_tree_bytes:
  assumes "list_all (tree_fits e) ts"
  shows "send_tree e ty fl seq ts = Some (nl_msg_hdr_as_bytes e
      (nl_msg_hdr_new ty fl\<lparr>nlmsg_len := of_nat (16 + length (concat (map (wire_tree e) ts))),
                            nlmsg_seq := seq\<rparr>) @ concat (map (wire_tree e) ts))"
proof -
  let ?w = "concat (map (wire_tree e) ts)"
  let ?h = "nl_msg_hdr_new ty fl"
  have "emit_trees e ts (mb_new e ty fl) = Some \<lparr>mb_buf = nl_msg_hdr_as_bytes e ?h @ ?w\<rparr>"
    using emit_correct(2) [OF assms, of "mb_new e ty fl"] by (simp add: mb_new_def)
  moreover have "patch 8 (ne_bytes e 4 seq) (nl_msg_hdr_as_bytes e ?h @ ?w)
      = Some (nl_msg_hdr_as_bytes e (?h\<lparr>nlmsg_seq := seq\<rparr>) @ ?w)"
    by (simp add: patch_def nl_msg_hdr_as_bytes_def)
  moreover have "patch 0 (ne_bytes e 4 n) (nl_msg_hdr_as_bytes e (?h\<lparr>nlmsg_seq := seq\<rparr>) @ ?w)
      = Some (nl_msg_hdr_as_bytes e (?h\<lparr>nlmsg_len := n, nlmsg_seq := seq\<rparr>) @ ?w)" for n
    by (simp add: patch_def nl_msg_hdr_as_bytes_def)
  ultimately show ?thesis by (simp add: send_tree_def set_seq_def mb_finish_def)
qed

text \<open>
  C1. What the builder sends, the receive side reads: after \<open>new\<close>, any tree of
  attributes, \<open>set_seq\<close> and \<open>finish\<close>, the frame iterator yields one frame with the
  builder's type, flags and sequence number, and the attribute iterator yields the
  attributes of the tree in order, at every nesting level.
\<close>

theorem send_receive:
  assumes "list_all (tree_fits e) ts" "16 + length (concat (map (wire_tree e) ts)) < 2 ^ 32"
  shows "\<exists>frame h payload. send_tree e ty fl seq ts = Some frame
    \<and> msgs_of e frame = [Inr (h, payload)]
    \<and> nlmsg_type h = ty \<and> nlmsg_flags h = fl \<and> nlmsg_seq h = seq
    \<and> unat (nlmsg_len h) = length frame
    \<and> attrs_of e payload = map (tree_item e) ts
    \<and> (\<forall>t us. Nest t us \<in> set ts \<longrightarrow>
         attrs_of e (snd (tree_item e (Nest t us))) = map (tree_item e) us)"
proof -
  let ?w = "concat (map (wire_tree e) ts)"
  let ?h = "nl_msg_hdr_new ty fl\<lparr>nlmsg_len := of_nat (16 + length ?w), nlmsg_seq := seq\<rparr>"
  define f where "f = nl_msg_hdr_as_bytes e ?h @ ?w"
  have sent: "send_tree e ty fl seq ts = Some f"
    using send_tree_bytes [OF assms(1)] by (simp add: f_def)
  have "msg_next e (nl_msg_hdr_as_bytes e ?h @ ?w @ [] @ []) = Some (Inr (?h, ?w), [])"
    by (rule msg_next_frame) (use assms(2) in simp_all)
  then have "msgs_of e f = Inr (?h, ?w) # msgs_of e []"
    unfolding msgs_of_def f_def by (simp add: msg_it.iter_Some)
  then have recv: "msgs_of e f = [Inr (?h, ?w)]" by (simp add: msgs_of_short)
  have "unat (of_nat (16 + length ?w) :: u32) = 16 + length ?w"
    by (rule unat_of_nat_id) (use assms(2) in simp)
  then have len: "unat (nlmsg_len ?h) = length f"
    by (simp only: f_def length_append length_nl_msg_hdr_as_bytes) simp
  have nested: "\<forall>t us. Nest t us \<in> set ts \<longrightarrow>
      attrs_of e (snd (tree_item e (Nest t us))) = map (tree_item e) us"
    using assms(1) by (fastforce simp: list_all_iff attrs_of_trees)
  show ?thesis
    using sent recv len nested attrs_of_trees [OF assms(1)]
    by (intro exI [of _ f] exI [of _ ?h] exI [of _ ?w] conjI) (simp_all add: nl_msg_hdr_new_def)
qed

theorem send_receive_witness:
  "\<exists>frame h payload. send_tree BigEndian 16 5 9 [Nest 1 [Leaf 2 [100, 0, 0, 0]]] = Some frame
    \<and> msgs_of BigEndian frame = [Inr (h, payload)] \<and> nlmsg_seq h = 9
    \<and> map fst (attrs_of BigEndian payload) = [1]"
  using send_receive [of BigEndian "[Nest 1 [Leaf 2 [100, 0, 0, 0]]]" 16 5 9]
  by (auto simp: length_attr_wire nla_align_def)

text \<open>
  An oversized payload is not misrepresented: the header of an attribute that does
  not fit is saturated to 65535, never wrapped to a small length, and the debug build
  stops exactly in that case.
\<close>

theorem nl_attr_new_saturates:
  "unat (nla_len (nl_attr_new t n)) = min (4 + n) 65535
   \<and> (nl_attr_new_debug t n = None \<longleftrightarrow> 65535 < 4 + n)"
proof -
  have "unat (of_nat (min (4 + n) 65535) :: u16) = min (4 + n) 65535"
    by (rule unat_of_nat_id) simp
  moreover have "nla_len (nl_attr_new t n) = of_nat (min (4 + n) 65535)"
    by (simp only: nl_attr_new_def nl_attr.simps)
  ultimately show ?thesis by (simp add: nl_attr_new_debug_def not_le)
qed

end
