(* ===== verification/Connection.thy ===== *)
theory Connection
  imports Socket Netlink_Builder
begin

text \<open>
  The request cycles of \<open>netlink/connection.rs\<close>: send a message under a fresh sequence number
  and read datagrams until the answer is there.  The kernel's datagrams (and receive errors)
  are a list; when it is used up the loop is still waiting, which the operation timeout turns
  into an error.  The same loops serve the mutex mode, where the list is what the socket
  delivers, and the dispatcher mode, where it is what the driver routes to the request.
\<close>

section \<open>Outcomes and the receive loop\<close>

datatype 'r outcome = Returned "'r nl_result" | Waiting | Panicked

datatype ('s, 'r) scan = Return "'r nl_result" | Continue 's

fun recv_loop :: "('s \<Rightarrow> bytes \<Rightarrow> ('s, 'r) scan) \<Rightarrow> 's \<Rightarrow> bytes nl_result list \<Rightarrow> 'r outcome" where
  "recv_loop step s [] = Waiting"
| "recv_loop step s (Inl e # rs) = Returned (Inl e)"
| "recv_loop step s (Inr buf # rs) =
     (case step s buf of
        Return r \<Rightarrow> Returned r
      | Continue s' \<Rightarrow> recv_loop step s' rs)"

definition with_timeout :: "nat option \<Rightarrow> 'r outcome \<Rightarrow> 'r outcome" where
  "with_timeout limit out =
     (case out of
        Waiting \<Rightarrow> (case limit of Some d \<Rightarrow> Returned (Inl Timeout) | None \<Rightarrow> Waiting)
      | _ \<Rightarrow> out)"

record connection =
  cn_seq :: u32
  cn_pid :: u32
  cn_timeout :: "nat option"

definition DEFAULT_OPERATION_TIMEOUT :: nat where
  "DEFAULT_OPERATION_TIMEOUT = 30 * 1000000000"

definition from_parts :: "u32 \<Rightarrow> u32 \<Rightarrow> connection" where
  "from_parts counter pid =
     \<lparr>cn_seq = counter, cn_pid = pid, cn_timeout = Some DEFAULT_OPERATION_TIMEOUT\<rparr>"

definition no_timeout :: "connection \<Rightarrow> connection" where
  "no_timeout c = c\<lparr>cn_timeout := None\<rparr>"

definition set_timeout :: "nat \<Rightarrow> connection \<Rightarrow> connection" where
  "set_timeout d c = c\<lparr>cn_timeout := Some d\<rparr>"

text \<open>Stamping a request: the sequence number, the bytes to send and the connection after it.\<close>

definition stamp :: "endian \<Rightarrow> connection \<Rightarrow> message_builder \<Rightarrow> (u32 \<times> bytes) option \<times> connection" where
  "stamp e c b =
     (case next_nonzero_seq (cn_seq c) of
        (seq, counter) \<Rightarrow>
          (do {
             b1 \<leftarrow> set_seq e seq b;
             b2 \<leftarrow> set_pid e (cn_pid c) b1;
             msg \<leftarrow> mb_finish e b2;
             Some (seq, msg)
           }, c\<lparr>cn_seq := counter\<rparr>))"

text \<open>
  One cycle: stamp, send, then the loop.  \<open>sent\<close> is the outcome of the socket's \<open>send\<close>, and
  \<open>rs\<close> what is received after it.
\<close>

definition cycle :: "endian \<Rightarrow> connection \<Rightarrow> message_builder \<Rightarrow> (bytes \<Rightarrow> unit nl_result option) \<Rightarrow>
    (u32 \<Rightarrow> bytes nl_result list \<Rightarrow> 'r outcome) \<Rightarrow> bytes nl_result list \<Rightarrow>
    'r outcome \<times> connection" where
  "cycle e c b sent loop rs =
     (case stamp e c b of
        (None, c') \<Rightarrow> (Panicked, c')
      | (Some (seq, msg), c') \<Rightarrow>
          (with_timeout (cn_timeout c)
             (case sent msg of
                None \<Rightarrow> Waiting
              | Some (Inl err) \<Rightarrow> Returned (Inl err)
              | Some (Inr _) \<Rightarrow> loop seq rs), c'))"

section \<open>Scanning a datagram\<close>

text \<open>
  The error branch the loops share: a decoding error, the kernel's error, or none for an
  acknowledgement and for a message that is no error message.
\<close>

definition kernel_error :: "endian \<Rightarrow> (i32 \<Rightarrow> string) \<Rightarrow> nl_msg_hdr \<Rightarrow> bytes \<Rightarrow> nl_error option" where
  "kernel_error e se header payload =
     (if hdr_is_error header then
        (case nl_msg_error_from_bytes e payload of
           Inl err \<Rightarrow> Some err
         | Inr err \<Rightarrow> if is_ack err then None else Some (into_error e se err payload))
      else None)"

text \<open>\<open>send_request\<close>: the whole datagram is the answer once it holds an own message.\<close>

fun request_scan :: "endian \<Rightarrow> (i32 \<Rightarrow> string) \<Rightarrow> u32 \<Rightarrow> bool \<Rightarrow> (nl_msg_hdr \<times> bytes) nl_result list \<Rightarrow>
    (bool, bytes) scan" where
  "request_scan e se seq found [] = Continue found"
| "request_scan e se seq found (Inl _ # fs) = request_scan e se seq found fs"
| "request_scan e se seq found (Inr (header, payload) # fs) =
     (if nlmsg_seq header \<noteq> seq then request_scan e se seq found fs
      else case kernel_error e se header payload of
        Some err \<Rightarrow> Return (Inl err)
      | None \<Rightarrow> request_scan e se seq True fs)"

definition request_step :: "endian \<Rightarrow> (i32 \<Rightarrow> string) \<Rightarrow> u32 \<Rightarrow> unit \<Rightarrow> bytes \<Rightarrow> (unit, bytes) scan" where
  "request_step e se seq s response =
     (case request_scan e se seq False (msgs_of e response) of
        Return r \<Rightarrow> Return r
      | Continue found_seq \<Rightarrow> if found_seq then Return (Inr response) else Continue ())"

text \<open>\<open>send_ack\<close>: the first own message decides.\<close>

definition ack_data_error :: "u32 \<Rightarrow> nl_msg_hdr \<Rightarrow> nl_error" where
  "ack_data_error seq header =
     InvalidMessage (''send_ack: expected ACK or error for seq '' @ show_nat (unat seq) @
       '', got nlmsg_type '' @ show_nat (unat (nlmsg_type header)) @
       '' (kernel returned data on an ack-only request)'')"

fun ack_scan :: "endian \<Rightarrow> (i32 \<Rightarrow> string) \<Rightarrow> u32 \<Rightarrow> (nl_msg_hdr \<times> bytes) nl_result list \<Rightarrow>
    (unit, unit) scan" where
  "ack_scan e se seq [] = Continue ()"
| "ack_scan e se seq (Inl _ # fs) = ack_scan e se seq fs"
| "ack_scan e se seq (Inr (header, payload) # fs) =
     (if nlmsg_seq header \<noteq> seq then ack_scan e se seq fs
      else if hdr_is_error header then
        (case kernel_error e se header payload of
           Some err \<Rightarrow> Return (Inl err)
         | None \<Rightarrow> Return (Inr ()))
      else Return (Inl (ack_data_error seq header)))"

definition ack_step :: "endian \<Rightarrow> (i32 \<Rightarrow> string) \<Rightarrow> u32 \<Rightarrow> unit \<Rightarrow> bytes \<Rightarrow> (unit, unit) scan" where
  "ack_step e se seq s response = ack_scan e se seq (msgs_of e response)"

text \<open>
  \<open>send_dump\<close>: own messages are copied out of the datagram at the running offset until
  \<open>NLMSG_DONE\<close>; a malformed message ends the datagram.
\<close>

definition usize_sat_add :: "nat \<Rightarrow> nat \<Rightarrow> nat" where
  "usize_sat_add a b = min (a + b) (2 ^ 64 - 1)"

fun dump_scan :: "endian \<Rightarrow> (i32 \<Rightarrow> string) \<Rightarrow> u32 \<Rightarrow> bytes \<Rightarrow> nat \<Rightarrow> bytes list \<Rightarrow>
    (nl_msg_hdr \<times> bytes) nl_result list \<Rightarrow> (bytes list, bytes list) scan" where
  "dump_scan e se seq data msg_start responses [] = Continue responses"
| "dump_scan e se seq data msg_start responses (Inl _ # fs) = Continue responses"
| "dump_scan e se seq data msg_start responses (Inr (header, payload) # fs) =
     (let msg_len = unat (nlmsg_len header);
          next_start = usize_sat_add msg_start (nlmsg_align msg_len)
      in if nlmsg_seq header \<noteq> seq then dump_scan e se seq data next_start responses fs
         else if hdr_is_dump_interrupted header then Return (Inl DumpInterrupted)
         else case kernel_error e se header payload of
           Some err \<Rightarrow> Return (Inl err)
         | None \<Rightarrow>
             if hdr_is_done header then Return (Inr responses)
             else dump_scan e se seq data next_start
               (if msg_start + msg_len \<le> length data
                then responses @ [take msg_len (drop msg_start data)] else responses) fs)"

definition dump_step :: "endian \<Rightarrow> (i32 \<Rightarrow> string) \<Rightarrow> u32 \<Rightarrow> bytes list \<Rightarrow> bytes \<Rightarrow>
    (bytes list, bytes list) scan" where
  "dump_step e se seq responses data = dump_scan e se seq data 0 responses (msgs_of e data)"

section \<open>The operations\<close>

definition send_request :: "endian \<Rightarrow> (i32 \<Rightarrow> string) \<Rightarrow> connection \<Rightarrow> message_builder \<Rightarrow>
    (bytes \<Rightarrow> unit nl_result option) \<Rightarrow> bytes nl_result list \<Rightarrow> bytes outcome \<times> connection" where
  "send_request e se c b sent rs = cycle e c b sent (\<lambda>seq. recv_loop (request_step e se seq) ()) rs"

definition send_ack :: "endian \<Rightarrow> (i32 \<Rightarrow> string) \<Rightarrow> connection \<Rightarrow> message_builder \<Rightarrow>
    (bytes \<Rightarrow> unit nl_result option) \<Rightarrow> bytes nl_result list \<Rightarrow> unit outcome \<times> connection" where
  "send_ack e se c b sent rs = cycle e c b sent (\<lambda>seq. recv_loop (ack_step e se seq) ()) rs"

definition send_dump :: "endian \<Rightarrow> (i32 \<Rightarrow> string) \<Rightarrow> connection \<Rightarrow> message_builder \<Rightarrow>
    (bytes \<Rightarrow> unit nl_result option) \<Rightarrow> bytes nl_result list \<Rightarrow> bytes list outcome \<times> connection" where
  "send_dump e se c b sent rs = cycle e c b sent (\<lambda>seq. recv_loop (dump_step e se seq) []) rs"

text \<open>The trait \<open>FromNetlink\<close> of the message types, as the record of what the loops call.\<close>

record 't from_netlink =
  fn_from_bytes :: "bytes \<Rightarrow> 't nl_result"
  fn_set_msg_type :: "u16 \<Rightarrow> 't \<Rightarrow> 't"
  fn_dump_header :: bytes

definition dump_request :: "endian \<Rightarrow> u16 \<Rightarrow> message_builder" where
  "dump_request e msg_type = mb_new e msg_type (NLM_F_REQUEST OR NLM_F_DUMP)"

definition ack_request :: "endian \<Rightarrow> u16 \<Rightarrow> message_builder" where
  "ack_request e msg_type = mb_new e msg_type (NLM_F_REQUEST OR NLM_F_ACK)"

definition create_request :: "endian \<Rightarrow> u16 \<Rightarrow> message_builder" where
  "create_request e msg_type = mb_new e msg_type (NLM_F_REQUEST OR NLM_F_ACK OR 0x400)"

definition replace_request :: "endian \<Rightarrow> u16 \<Rightarrow> message_builder" where
  "replace_request e msg_type = mb_new e msg_type (NLM_F_REQUEST OR NLM_F_ACK OR 0x400 OR 0x100)"

fun parse_rows :: "endian \<Rightarrow> 't from_netlink \<Rightarrow> bytes list \<Rightarrow> 't list" where
  "parse_rows e T [] = []"
| "parse_rows e T (response # responses) =
     (if length response < NLMSG_HDRLEN then parse_rows e T responses
      else case fn_from_bytes T (drop NLMSG_HDRLEN response) of
        Inl err \<Rightarrow> parse_rows e T responses
      | Inr msg \<Rightarrow>
          (case nl_msg_hdr_from_bytes e (take NLMSG_HDRLEN response) of
             Inr header \<Rightarrow> fn_set_msg_type T (nlmsg_type header) msg
           | Inl err \<Rightarrow> msg) # parse_rows e T responses)"

fun outcome_map :: "('a \<Rightarrow> 'b) \<Rightarrow> 'a outcome \<Rightarrow> 'b outcome" where
  "outcome_map f (Returned (Inr r)) = Returned (Inr (f r))"
| "outcome_map f (Returned (Inl err)) = Returned (Inl err)"
| "outcome_map f Waiting = Waiting"
| "outcome_map f Panicked = Panicked"

definition dump_typed :: "endian \<Rightarrow> (i32 \<Rightarrow> string) \<Rightarrow> 't from_netlink \<Rightarrow> connection \<Rightarrow> u16 \<Rightarrow>
    (bytes \<Rightarrow> unit nl_result option) \<Rightarrow> bytes nl_result list \<Rightarrow> 't list outcome \<times> connection" where
  "dump_typed e se T c msg_type sent rs =
     (case send_dump e se c (append_bytes (fn_dump_header T) (dump_request e msg_type)) sent rs of
        (out, c') \<Rightarrow> (outcome_map (parse_rows e T) out, c'))"

definition parse_response :: "endian \<Rightarrow> 't from_netlink \<Rightarrow> bytes \<Rightarrow> 't nl_result" where
  "parse_response e T response =
     (if length response < NLMSG_HDRLEN then Inl (Truncated NLMSG_HDRLEN (length response))
      else case fn_from_bytes T (drop NLMSG_HDRLEN response) of
        Inl err \<Rightarrow> Inl err
      | Inr msg \<Rightarrow>
          (case nl_msg_hdr_from_bytes e (take NLMSG_HDRLEN response) of
             Inr header \<Rightarrow> Inr (fn_set_msg_type T (nlmsg_type header) msg)
           | Inl err \<Rightarrow> Inr msg))"

section \<open>The bytes a dump collects\<close>

lemma nl_msg_hdr_read_take: "16 \<le> n \<Longrightarrow> nl_msg_hdr_read e (take n bs) = nl_msg_hdr_read e bs"
  by (simp add: nl_msg_hdr_read_def min_def drop_take)

lemma msg_next_slice:
  assumes "msg_next e bs = Some (Inr (h, p), rest)"
  defines "n \<equiv> unat (nlmsg_len h)"
  shows "16 \<le> n" "n \<le> length bs" "nl_msg_hdr_read e (take n bs) = h" "drop 16 (take n bs) = p"
    "rest = drop (nlmsg_align n) bs"
  using assms
  by (auto simp: msg_next_def Let_def nl_msg_hdr_from_bytes_def nl_msg_hdr_read_take
      split: if_splits sum.splits)

text \<open>A collected response read back as a frame.\<close>

definition frame_of :: "endian \<Rightarrow> bytes \<Rightarrow> nl_msg_hdr \<times> bytes" where
  "frame_of e r = (nl_msg_hdr_read e r, drop 16 r)"

text \<open>The dump on frames alone, without offsets.\<close>

fun dump_walk :: "endian \<Rightarrow> (i32 \<Rightarrow> string) \<Rightarrow> u32 \<Rightarrow> (nl_msg_hdr \<times> bytes) list \<Rightarrow>
    (nl_msg_hdr \<times> bytes) nl_result list \<Rightarrow>
    ((nl_msg_hdr \<times> bytes) list, (nl_msg_hdr \<times> bytes) list) scan" where
  "dump_walk e se seq acc [] = Continue acc"
| "dump_walk e se seq acc (Inl _ # fs) = Continue acc"
| "dump_walk e se seq acc (Inr (h, p) # fs) =
     (if nlmsg_seq h \<noteq> seq then dump_walk e se seq acc fs
      else if hdr_is_dump_interrupted h then Return (Inl DumpInterrupted)
      else case kernel_error e se h p of
        Some err \<Rightarrow> Return (Inl err)
      | None \<Rightarrow> if hdr_is_done h then Return (Inr acc) else dump_walk e se seq (acc @ [(h, p)]) fs)"

fun scan_map :: "('a \<Rightarrow> 'b) \<Rightarrow> ('a, 'a) scan \<Rightarrow> ('b, 'b) scan" where
  "scan_map f (Continue a) = Continue (f a)"
| "scan_map f (Return (Inr a)) = Return (Inr (f a))"
| "scan_map f (Return (Inl err)) = Return (Inl err)"

abbreviation frames_of :: "endian \<Rightarrow> bytes list \<Rightarrow> (nl_msg_hdr \<times> bytes) list" where
  "frames_of e \<equiv> map (frame_of e)"

lemma sat_drop:
  assumes "length data < 2 ^ 63"
  shows "drop (usize_sat_add a b) data = drop b (drop a data)"
  using assms by (cases "a + b \<le> 2 ^ 64 - 1") (auto simp: usize_sat_add_def add.commute)

lemma dump_scan_walk:
  assumes "length data < 2 ^ 63"
  shows "scan_map (frames_of e) (dump_scan e se seq data k acc (msgs_of e (drop k data))) =
    dump_walk e se seq (frames_of e acc) (msgs_of e (drop k data))"
proof (induction "drop k data" arbitrary: k acc rule: msg_it.iter_induct[where e = e])
  case 1
  then show ?case by (simp add: msgs_of_def msg_it.iter_None)
next
  case (2 i s')
  note unfold = msg_it.iter_Some[OF 2(1), folded msgs_of_def]
  show ?case
  proof (cases i)
    case (Inl err)
    then show ?thesis unfolding unfold by simp
  next
    case (Inr hp)
    obtain h p where hp: "hp = (h, p)" by fastforce
    let ?n = "unat (nlmsg_len h)" and ?k = "usize_sat_add k (nlmsg_align (unat (nlmsg_len h)))"
    note slice = msg_next_slice[OF 2(1)[unfolded Inr hp]]
    have rest: "s' = drop ?k data"
      unfolding slice(5) by (rule sat_drop[OF assms, symmetric])
    have fits: "k + ?n \<le> length data" using slice(1,2) by auto
    have "frame_of e (take ?n (drop k data)) = (h, p)"
      unfolding frame_of_def slice(3,4) ..
    then show ?thesis
      unfolding unfold Inr hp
      using 2(2)[OF rest, of acc] 2(2)[OF rest, of "acc @ [take ?n (drop k data)]"] fits rest
      by (auto simp: Let_def split: option.splits)
  qed
qed

lemma dump_step_walk:
  assumes "length data < 2 ^ 63"
  shows "scan_map (frames_of e) (dump_step e se seq acc data) =
    dump_walk e se seq (frames_of e acc) (msgs_of e data)"
  using dump_scan_walk[OF assms, of e se seq 0 acc] by (simp add: dump_step_def)

lemma dump_loop_walk:
  assumes "\<forall>buf. Inr buf \<in> set rs \<longrightarrow> length buf < 2 ^ 63"
  shows "outcome_map (frames_of e) (recv_loop (dump_step e se seq) acc rs) =
    recv_loop (\<lambda>acc buf. dump_walk e se seq acc (msgs_of e buf)) (frames_of e acc) rs"
  using assms
proof (induction rs arbitrary: acc)
  case (Cons r rs)
  show ?case
  proof (cases r)
    case (Inr buf)
    have "scan_map (frames_of e) (dump_step e se seq acc buf) =
      dump_walk e se seq (frames_of e acc) (msgs_of e buf)"
      by (rule dump_step_walk) (use Cons.prems Inr in simp)
    then show ?thesis
      using Cons Inr
      by (cases "dump_step e se seq acc buf"; cases "dump_walk e se seq (frames_of e acc) (msgs_of e buf)")
        (auto split: sum.splits elim: scan_map.elims)
  qed simp
qed simp

section \<open>What the kernel sends\<close>

text \<open>Datagrams as lists of frames, and their bytes.\<close>

type_synonym frame = "nl_msg_hdr \<times> bytes"

definition datagram :: "endian \<Rightarrow> frame list \<Rightarrow> bytes" where
  "datagram e fs = concat (map (\<lambda>(h, p). frame_wire e h p) fs)"

definition received :: "endian \<Rightarrow> frame list list \<Rightarrow> bytes nl_result list" where
  "received e ds = map (Inr \<circ> datagram e) ds"

definition datagrams_ok :: "endian \<Rightarrow> frame list list \<Rightarrow> bool" where
  "datagrams_ok e ds = (list_all (list_all frame_ok) ds \<and>
     list_all (\<lambda>d. length (datagram e d) < 2 ^ 63) ds)"

definition own :: "u32 \<Rightarrow> frame list list \<Rightarrow> frame list" where
  "own seq ds = filter (\<lambda>(h, p). nlmsg_seq h = seq) (concat ds)"

lemma msgs_of_datagram: "list_all frame_ok fs \<Longrightarrow> msgs_of e (datagram e fs) = map Inr fs"
  unfolding datagram_def by (rule msgs_of_frames)

text \<open>A row of a dump: neither an error nor the end, and the dump is not marked interrupted.\<close>

definition is_row :: "frame \<Rightarrow> bool" where
  "is_row f = (\<not> hdr_is_error (fst f) \<and> \<not> hdr_is_done (fst f) \<and> \<not> hdr_is_dump_interrupted (fst f))"

fun typed_rows :: "'t from_netlink \<Rightarrow> frame list \<Rightarrow> 't list" where
  "typed_rows T [] = []"
| "typed_rows T ((h, p) # fs) =
     (case fn_from_bytes T p of
        Inl err \<Rightarrow> typed_rows T fs
      | Inr msg \<Rightarrow> fn_set_msg_type T (nlmsg_type h) msg # typed_rows T fs)"

section \<open>Loops over the kernel's datagrams\<close>

lemma dump_walk_append:
  "dump_walk e se seq acc (map Inr xs @ ys) =
     (case dump_walk e se seq acc (map Inr xs) of
        Return r \<Rightarrow> Return r
      | Continue acc' \<Rightarrow> dump_walk e se seq acc' ys)"
  by (induction xs arbitrary: acc) (auto split: option.splits)

lemma dump_walk_own:
  "dump_walk e se seq acc (map Inr fs) =
   dump_walk e se seq acc (map Inr (filter (\<lambda>(h, p). nlmsg_seq h = seq) fs))"
  by (induction fs arbitrary: acc) (auto split: option.splits)

lemma kernel_error_row: "is_row (h, p) \<Longrightarrow> kernel_error e se h p = None"
  by (simp add: is_row_def kernel_error_def)

lemma dump_walk_rows:
  assumes "list_all is_row rows" "list_all (\<lambda>(h, p). nlmsg_seq h = seq) rows"
  shows "dump_walk e se seq acc (map Inr rows @ ys) = dump_walk e se seq (acc @ rows) ys"
  using assms by (induction rows arbitrary: acc) (auto simp: kernel_error_row is_row_def kernel_error_def)

lemma dump_loop_datagrams:
  assumes "list_all (list_all frame_ok) ds"
  shows "recv_loop (\<lambda>acc buf. dump_walk e se seq acc (msgs_of e buf)) acc (received e ds) =
    (case dump_walk e se seq acc (map Inr (own seq ds)) of
       Return r \<Rightarrow> Returned r | Continue _ \<Rightarrow> Waiting)"
proof -
  have "recv_loop (\<lambda>acc buf. dump_walk e se seq acc (msgs_of e buf)) acc (received e ds) =
    (case dump_walk e se seq acc (map Inr (concat ds)) of
       Return r \<Rightarrow> Returned r | Continue _ \<Rightarrow> Waiting)"
    using assms
  proof (induction ds arbitrary: acc)
    case (Cons fs ds)
    then show ?case
      by (simp add: received_def msgs_of_datagram dump_walk_append split: scan.splits)
  qed (simp add: received_def)
  then show ?thesis unfolding own_def dump_walk_own[of e se seq acc "concat ds"] .
qed

lemma msgs_of_len: "Inr (h, p) \<in> set (msgs_of e d) \<Longrightarrow> 16 \<le> unat (nlmsg_len h)"
proof (induction d rule: msg_it.iter_induct[where e = e])
  case (1 s)
  then show ?case by (simp add: msgs_of_def msg_it.iter_None)
next
  case (2 s i s')
  then show ?case
    using msg_next_slice(1)[of e s h p s']
    by (auto simp: msg_it.iter_Some[OF 2(1), folded msgs_of_def])
qed

lemma dump_scan_lengths:
  assumes "list_all (\<lambda>r. 16 \<le> length r) acc"
    "\<forall>h p. Inr (h, p) \<in> set fs \<longrightarrow> 16 \<le> unat (nlmsg_len h)"
  shows "case dump_scan e se seq data k acc fs of
      Continue rs \<Rightarrow> list_all (\<lambda>r. 16 \<le> length r) rs
    | Return (Inr rs) \<Rightarrow> list_all (\<lambda>r. 16 \<le> length r) rs
    | Return (Inl _) \<Rightarrow> True"
  using assms
proof (induction e se seq data k acc fs rule: dump_scan.induct)
  case (3 e se seq data k acc h p fs)
  have "16 \<le> unat (nlmsg_len h)" using 3(4) by auto
  then show ?case
    using 3 by (auto simp: Let_def split: option.splits if_splits)
qed auto

lemma dump_loop_lengths:
  assumes "list_all (\<lambda>r. 16 \<le> length r) acc" "recv_loop (dump_step e se seq) acc rs = Returned (Inr out)"
  shows "list_all (\<lambda>r. 16 \<le> length r) out"
  using assms
proof (induction rs arbitrary: acc)
  case (Cons r rs)
  show ?case
  proof (cases r)
    case (Inr buf)
    have "case dump_step e se seq acc buf of
        Continue rs \<Rightarrow> list_all (\<lambda>r. 16 \<le> length r) rs
      | Return (Inr rs) \<Rightarrow> list_all (\<lambda>r. 16 \<le> length r) rs
      | Return (Inl _) \<Rightarrow> True"
      unfolding dump_step_def
      by (rule dump_scan_lengths) (use Cons.prems msgs_of_len in auto)
    then show ?thesis using Cons Inr by (auto split: scan.splits)
  qed (use Cons in simp)
qed simp

lemma parse_rows_frames:
  "list_all (\<lambda>r. 16 \<le> length r) rs \<Longrightarrow> parse_rows e T rs = typed_rows T (frames_of e rs)"
  by (induction rs)
    (auto simp: frame_of_def nl_msg_hdr_from_bytes_def nl_msg_hdr_read_take split: sum.splits)

lemma outcome_map_Returned:
  "outcome_map f out = Returned (Inr b) \<longleftrightarrow> (\<exists>a. out = Returned (Inr a) \<and> b = f a)"
  "outcome_map f out = Returned (Inl err) \<longleftrightarrow> out = Returned (Inl err)"
  by (cases "(f, out)" rule: outcome_map.cases; auto)+

section \<open>Requests\<close>

lemma stamp_wf:
  assumes "mb_wf b"
  shows "\<exists>msg. stamp e c b =
    (Some (fst (next_nonzero_seq (cn_seq c)), msg),
     c\<lparr>cn_seq := snd (next_nonzero_seq (cn_seq c))\<rparr>)"
proof -
  obtain b1 where b1: "set_seq e (fst (next_nonzero_seq (cn_seq c))) b = Some b1" "mb_wf b1"
    using set_seq_wf[OF assms] by blast
  obtain b2 where b2: "set_pid e (cn_pid c) b1 = Some b2" "mb_wf b2"
    using set_pid_wf[OF b1(2)] by blast
  have "\<exists>msg. mb_finish e b2 = Some msg"
    using b2(2) by (simp add: mb_finish_def patch_def mb_wf_def)
  then show ?thesis using b1 b2 by (auto simp: stamp_def split: prod.splits)
qed

abbreviation next_seq_of :: "connection \<Rightarrow> u32" where
  "next_seq_of c \<equiv> fst (next_nonzero_seq (cn_seq c))"

lemma cycle_sent:
  assumes "mb_wf b" "\<And>msg. sent msg = Some (Inr ())"
  shows "fst (cycle e c b sent loop rs) = with_timeout (cn_timeout c) (loop (next_seq_of c) rs)"
  using stamp_wf[OF assms(1), of e c] assms(2) by (auto simp: cycle_def)

lemma mb_wf_requests [simp]:
  "mb_wf (dump_request e ty)" "mb_wf (ack_request e ty)" "mb_wf (create_request e ty)"
  "mb_wf (replace_request e ty)"
  by (simp_all add: dump_request_def ack_request_def create_request_def replace_request_def)

lemma dump_loop_outcome:
  assumes "datagrams_ok e ds" "own seq ds = rows @ (h, p) # later" "list_all is_row rows"
    "hdr_is_done h \<or> hdr_is_dump_interrupted h"
  shows "outcome_map (frames_of e) (recv_loop (dump_step e se seq) [] (received e ds)) =
     Returned (if hdr_is_dump_interrupted h then Inl DumpInterrupted else Inr rows)"
proof -
  have noerr: "hdr_is_done h \<Longrightarrow> kernel_error e se h p = None"
    by (simp add: kernel_error_def hdr_is_error_def hdr_is_done_def ERROR_def DONE_def)
  have seq: "list_all (\<lambda>(h, p). nlmsg_seq h = seq) (rows @ (h, p) # later)"
    unfolding assms(2)[symmetric] own_def by (auto simp: list_all_iff)
  have "outcome_map (frames_of e) (recv_loop (dump_step e se seq) [] (received e ds)) =
    (case dump_walk e se seq [] (map Inr (own seq ds)) of
       Return r \<Rightarrow> Returned r | Continue _ \<Rightarrow> Waiting)"
    using dump_loop_walk[of "received e ds" e se seq "[]"] assms(1)
      dump_loop_datagrams[of ds e se seq "[]"]
    by (force simp: datagrams_ok_def received_def list_all_iff)
  moreover have "dump_walk e se seq [] (map Inr (rows @ (h, p) # later)) =
    dump_walk e se seq rows (map Inr ((h, p) # later))"
    using dump_walk_rows[of rows seq e se "[]" "map Inr ((h, p) # later)"] assms(3) seq by simp
  ultimately show ?thesis
    using seq assms(4) noerr unfolding assms(2) by auto
qed

lemma fst_dump_typed:
  "fst (dump_typed e se T c ty sent rs) =
   outcome_map (parse_rows e T)
     (fst (send_dump e se c (append_bytes (fn_dump_header T) (dump_request e ty)) sent rs))"
  by (simp add: dump_typed_def split_beta)

lemma dump_typed_outcome:
  assumes "datagrams_ok e ds" "own (next_seq_of c) ds = rows @ (h, p) # later"
    "list_all is_row rows" "hdr_is_done h \<or> hdr_is_dump_interrupted h"
    "\<And>msg. sent msg = Some (Inr ())"
  shows "fst (dump_typed e se T c ty sent (received e ds)) =
    (if hdr_is_dump_interrupted h then Returned (Inl DumpInterrupted)
     else Returned (Inr (typed_rows T rows)))"
proof -
  let ?loop = "recv_loop (dump_step e se (next_seq_of c)) [] (received e ds)"
  have out: "outcome_map (frames_of e) ?loop =
     Returned (if hdr_is_dump_interrupted h then Inl DumpInterrupted else Inr rows)"
    by (rule dump_loop_outcome[OF assms(1-4)])
  have cyc: "fst (send_dump e se c (append_bytes (fn_dump_header T) (dump_request e ty)) sent (received e ds))
    = with_timeout (cn_timeout c) ?loop"
    unfolding send_dump_def by (rule cycle_sent) (simp_all add: assms(5))
  show ?thesis
  proof (cases "hdr_is_dump_interrupted h")
    case True
    then have "?loop = Returned (Inl DumpInterrupted)"
      using out by (simp add: outcome_map_Returned)
    then show ?thesis
      using True cyc by (simp add: fst_dump_typed with_timeout_def)
  next
    case False
    then obtain rs where rs: "?loop = Returned (Inr rs)" "rows = frames_of e rs"
      using out by (auto simp: outcome_map_Returned)
    have "parse_rows e T rs = typed_rows T rows"
      unfolding rs(2) by (rule parse_rows_frames, rule dump_loop_lengths[OF _ rs(1)]) simp
    then show ?thesis
      using False cyc rs(1) by (simp add: fst_dump_typed with_timeout_def)
  qed
qed

text \<open>
  C5. A dump is complete and in order: however the kernel splits its answer into
  datagrams - each received whole, as below the 32 KiB above which \<open>recv_msg\<close> loses them -
  and whatever frames of other sequence numbers are mixed in, when the frames of
  this request are rows followed by \<open>NLMSG_DONE\<close> the result is exactly the parsed rows, each
  given its message type.
\<close>

theorem dump_typed_complete:
  assumes "datagrams_ok e ds" "own (next_seq_of c) ds = rows @ (h, p) # later"
    "list_all is_row rows" "hdr_is_done h" "\<not> hdr_is_dump_interrupted h"
    "\<And>msg. sent msg = Some (Inr ())"
  shows "fst (dump_typed e se T c ty sent (received e ds)) = Returned (Inr (typed_rows T rows))"
  using dump_typed_outcome[OF assms(1-3) disjI1[OF assms(4)] assms(6)] assms(5) by simp

text \<open>A concrete kernel answer, used by the witnesses: a foreign frame, two rows and the end.\<close>

definition frame_at :: "u16 \<Rightarrow> u16 \<Rightarrow> u32 \<Rightarrow> bytes \<Rightarrow> frame" where
  "frame_at ty flags seq p =
     (\<lparr>nlmsg_len = of_nat (16 + length p), nlmsg_type = ty, nlmsg_flags = flags, nlmsg_seq = seq,
       nlmsg_pid = 0\<rparr>, p)"

definition byte_rows :: "bytes from_netlink" where
  "byte_rows = \<lparr>fn_from_bytes = (\<lambda>p. if p = [] then Inl (Truncated 1 0) else Inr p),
     fn_set_msg_type = (\<lambda>ty p. ucast ty # p), fn_dump_header = replicate 16 0\<rparr>"

definition two_datagrams :: "u16 \<Rightarrow> frame list list" where
  "two_datagrams flags =
     [[frame_at 16 0 0 [9], frame_at 16 2 7 [1, 2]], [frame_at 16 2 7 [3], frame_at 3 flags 7 [0, 0, 0, 0]]]"

lemmas witness_frames = two_datagrams_def frame_at_def datagrams_ok_def own_def is_row_def
  hdr_is_error_def hdr_is_done_def hdr_is_dump_interrupted_def ERROR_def DONE_def
  NLM_F_DUMP_INTR_def frame_ok_def datagram_def frame_wire_def attr_pad_def nla_align_def

definition conn7 :: connection where
  "conn7 = from_parts 7 100"

lemma conn7_seq [simp]: "next_seq_of conn7 = 7"
  by (simp add: conn7_def from_parts_def next_nonzero_seq_cases)

theorem dump_typed_complete_witness:
  "fst (dump_typed LittleEndian (\<lambda>_. []) byte_rows conn7 18 (\<lambda>_. Some (Inr ()))
     (received LittleEndian (two_datagrams 2))) = Returned (Inr [[16, 1, 2], [16, 3]])"
proof -
  let ?rows = "[frame_at 16 2 7 [1, 2], frame_at 16 2 7 [3]]"
  have "fst (dump_typed LittleEndian (\<lambda>_. []) byte_rows conn7 18 (\<lambda>_. Some (Inr ()))
     (received LittleEndian (two_datagrams 2))) = Returned (Inr (typed_rows byte_rows ?rows))"
    by (rule dump_typed_complete[where h = "fst (frame_at 3 2 7 [0, 0, 0, 0])"
          and p = "[0, 0, 0, 0]" and later = "[]"])
      (simp_all add: witness_frames)
  then show ?thesis by (simp add: frame_at_def byte_rows_def)
qed

text \<open>
  An interrupted dump is never handed out as a result: when the first frame of the
  answer that is no plain row (the end message or an earlier one) carries the kernel's
  interruption mark, the result is \<open>DumpInterrupted\<close>.
\<close>

theorem dump_typed_interrupted:
  assumes "datagrams_ok e ds" "own (next_seq_of c) ds = rows @ (h, p) # later"
    "list_all is_row rows" "hdr_is_dump_interrupted h" "\<And>msg. sent msg = Some (Inr ())"
  shows "fst (dump_typed e se T c ty sent (received e ds)) = Returned (Inl DumpInterrupted)"
  using dump_typed_outcome[OF assms(1-3) disjI2[OF assms(4)] assms(5)] assms(4) by simp

theorem dump_typed_interrupted_witness:
  "fst (dump_typed LittleEndian (\<lambda>_. []) byte_rows conn7 18 (\<lambda>_. Some (Inr ()))
     (received LittleEndian (two_datagrams 0x12))) = Returned (Inl DumpInterrupted)"
  by (rule dump_typed_interrupted[where h = "fst (frame_at 3 0x12 7 [0, 0, 0, 0])"
        and p = "[0, 0, 0, 0]" and later = "[]" and rows = "[frame_at 16 2 7 [1, 2], frame_at 16 2 7 [3]]"])
    (simp_all add: witness_frames)

section \<open>Acknowledged requests\<close>

text \<open>What the first own frame of the answer means for \<open>send_ack\<close>.\<close>

definition ack_verdict :: "endian \<Rightarrow> (i32 \<Rightarrow> string) \<Rightarrow> u32 \<Rightarrow> frame \<Rightarrow> unit nl_result" where
  "ack_verdict e se seq f =
     (if hdr_is_error (fst f) then
        (case nl_msg_error_from_bytes e (snd f) of
           Inl err \<Rightarrow> Inl err
         | Inr err \<Rightarrow> if error_code err = 0 then Inr () else Inl (into_error e se err (snd f)))
      else Inl (ack_data_error seq (fst f)))"

lemma ack_scan_frames:
  "ack_scan e se seq (map Inr fs) =
     (case filter (\<lambda>(h, p). nlmsg_seq h = seq) fs of
        [] \<Rightarrow> Continue ()
      | f # _ \<Rightarrow> Return (ack_verdict e se seq f))"
proof (induction fs)
  case (Cons f fs)
  obtain h p where f: "f = (h, p)" by fastforce
  show ?case
    using Cons by (auto simp: f ack_verdict_def kernel_error_def is_ack_def split: sum.splits)
qed simp

lemma ack_loop:
  assumes "list_all (list_all frame_ok) ds"
  shows "recv_loop (ack_step e se seq) () (received e ds) =
    (case own seq ds of [] \<Rightarrow> Waiting | f # _ \<Rightarrow> Returned (ack_verdict e se seq f))"
  using assms
proof (induction ds)
  case (Cons fs ds)
  then show ?case
    by (auto simp: received_def own_def ack_step_def msgs_of_datagram ack_scan_frames
        split: list.splits)
qed (simp add: received_def own_def)

text \<open>
  C15. An acknowledged request answers what the kernel said to it and to nothing else: the
  first frame with its sequence number decides (success for code zero, the kernel's error
  otherwise, an explicit error for a data frame), frames of other requests and multicast
  frames before it are ignored, and with no such frame the configured timeout is the answer.
\<close>

theorem send_ack_outcome:
  assumes "list_all (list_all frame_ok) ds" "mb_wf b" "\<And>msg. sent msg = Some (Inr ())"
  shows "fst (send_ack e se c b sent (received e ds)) =
    (case own (next_seq_of c) ds of
       f # _ \<Rightarrow> Returned (ack_verdict e se (next_seq_of c) f)
     | [] \<Rightarrow> (case cn_timeout c of Some _ \<Rightarrow> Returned (Inl Timeout) | None \<Rightarrow> Waiting))"
  unfolding send_ack_def cycle_sent[of b sent, OF assms(2,3)] ack_loop[OF assms(1)]
  by (auto simp: with_timeout_def split: list.splits option.splits)

theorem send_ack_outcome_witness:
  "fst (send_ack LittleEndian (\<lambda>_. []) conn7 (ack_request LittleEndian 16) (\<lambda>_. Some (Inr ()))
     (received LittleEndian [[frame_at 16 0 0 [1]], [frame_at 2 0 7 (replicate 20 0)]])) =
   Returned (Inr ())"
proof -
  have "nl_msg_error_from_bytes LittleEndian (replicate 20 0) =
    Inr \<lparr>error_code = 0, error_msg = nl_msg_hdr_read LittleEndian (replicate 16 0)\<rparr>"
    by (simp add: nl_msg_error_from_bytes_def ne_word_def numeral_eq_Suc)
  then show ?thesis
    using send_ack_outcome[of "[[frame_at 16 0 0 [1]], [frame_at 2 0 7 (replicate 20 0)]]"
        "ack_request LittleEndian 16" "\<lambda>_. Some (Inr ())" LittleEndian "\<lambda>_. []" conn7]
    by (simp add: witness_frames ack_verdict_def)
qed

end
