(* ===== verification/Poll_Stream.thy ===== *)
theory Poll_Stream
  imports Netlink_Error
begin

text \<open>
  Streams polled to completion.  A stream is a state and its \<open>poll_next\<close>; its environment (the
  socket, the futures it awaits) is a list of answers, each after a number of \<open>Pending\<close>s.
  The locale \<open>poll_stream\<close> is the contract between an adapter and its consumer: an adapter
  that takes one item off its specification at each ready poll delivers the whole of it.
\<close>

datatype 'a poll = Pending | Ready 'a

type_synonym 'r delayed = "nat \<times> 'r"

text \<open>One poll of a scripted stream, and one of a scripted future.\<close>

fun inner_poll :: "'r delayed list \<Rightarrow> 'r option poll \<times> 'r delayed list" where
  "inner_poll [] = (Ready None, [])"
| "inner_poll ((0, r) # xs) = (Ready (Some r), xs)"
| "inner_poll ((Suc k, r) # xs) = (Pending, (k, r) # xs)"

fun fut_poll :: "'r delayed \<Rightarrow> 'r poll \<times> 'r delayed" where
  "fut_poll (0, r) = (Ready r, (0, r))"
| "fut_poll (Suc k, r) = (Pending, (k, r))"

text \<open>The items a consumer sees in \<open>n\<close> polls; it stops at the end of the stream.\<close>

fun drive :: "nat \<Rightarrow> ('s \<Rightarrow> 'a option poll \<times> 's) \<Rightarrow> 's \<Rightarrow> 'a list" where
  "drive 0 poll st = []"
| "drive (Suc n) poll st =
     (case poll st of
        (Pending, st') \<Rightarrow> drive n poll st'
      | (Ready None, st') \<Rightarrow> []
      | (Ready (Some r), st') \<Rightarrow> r # drive n poll st')"

text \<open>The state after \<open>n\<close> polls.\<close>

fun after_polls :: "nat \<Rightarrow> ('s \<Rightarrow> 'a option poll \<times> 's) \<Rightarrow> 's \<Rightarrow> 's" where
  "after_polls 0 poll st = st"
| "after_polls (Suc n) poll st =
     (case poll st of
        (Ready None, st') \<Rightarrow> st'
      | (_, st') \<Rightarrow> after_polls n poll st')"

text \<open>
  One poll against a specification: \<open>rest\<close> is what is still to come and \<open>left\<close> bounds the
  polls that are needed for it.  A stream with nothing to come may stay pending for ever.
\<close>

fun poll_step :: "('s \<Rightarrow> 'a list) \<Rightarrow> ('s \<Rightarrow> nat) \<Rightarrow> 's \<Rightarrow> 'a option poll \<times> 's \<Rightarrow> bool" where
  "poll_step rest left st (Pending, st') =
     (rest st = rest st' \<and> (left st' < left st \<or> rest st = []))"
| "poll_step rest left st (Ready (Some r), st') = (rest st = r # rest st' \<and> left st' < left st)"
| "poll_step rest left st (Ready None, st') = (rest st = [] \<and> rest st' = [])"

lemma poll_step_same:
  assumes "poll_step rest left st out" "rest st = rest st2" "left st \<le> left st2"
  shows "poll_step rest left st2 out"
  using assms by (cases "(rest, left, st, out)" rule: poll_step.cases) auto

locale poll_stream =
  fixes poll :: "'s \<Rightarrow> 'a option poll \<times> 's"
    and rest :: "'s \<Rightarrow> 'a list"
    and left :: "'s \<Rightarrow> nat"
  assumes step: "poll_step rest left st (poll st)"
    and left_0: "left st = 0 \<Longrightarrow> rest st = []"
begin

lemma drive_prefix: "\<exists>later. rest st = drive n poll st @ later"
proof (induction n arbitrary: st)
  case 0
  then show ?case by simp
next
  case (Suc n)
  show ?case
    using step[of st] Suc
    by (cases "(rest, left, st, poll st)" rule: poll_step.cases) auto
qed

lemma drive_finished: "rest st = [] \<Longrightarrow> drive n poll st = []"
  using drive_prefix[of st n] by simp

lemma drive_rest: "left st \<le> n \<Longrightarrow> drive n poll st = rest st"
proof (induction n arbitrary: st)
  case 0
  then show ?case by (simp add: left_0)
next
  case (Suc n)
  show ?case
    using step[of st] Suc drive_finished
    by (cases "(rest, left, st, poll st)" rule: poll_step.cases) auto
qed

end

text \<open>The scripted streams obey the contract.\<close>

definition script_left :: "'r delayed list \<Rightarrow> nat" where
  "script_left xs = sum_list (map (\<lambda>(k, r). Suc k) xs)"

lemma script_left_simps [simp]:
  "script_left [] = 0"
  "script_left ((k, r) # xs) = Suc k + script_left xs"
  by (simp_all add: script_left_def)

interpretation script: poll_stream inner_poll "map snd" script_left
proof
  fix st :: "'r delayed list"
  show "poll_step (map snd) script_left st (inner_poll st)"
    by (cases st rule: inner_poll.cases) auto
  show "map snd st = []" if "script_left st = 0"
    using that by (cases st) auto
qed

end
