(* ===== verification/Dump_Stream.thy ===== *)
theory Dump_Stream
  imports Connection Poll_Stream
begin

text \<open>
  The streaming dump (\<open>netlink/dump_stream.rs\<close>): the same answer as an eager dump, handed out
  message by message.  The source is the socket or the driver's channel: its datagrams and
  errors, each after a number of waits; a used-up source waits for ever.
\<close>

section \<open>The stream\<close>

record 't dump_stream =
  dm_expected_seq :: u32
  dm_pending :: "'t nl_result list"
  dm_done :: bool
  dm_errored :: bool
  dm_skip_malformed :: bool
  dm_source :: "bytes nl_result delayed list"

text \<open>\<open>send_with_body_bytes\<close>: the request, and the stream over what follows it.\<close>

definition stream_request :: "endian \<Rightarrow> u16 \<Rightarrow> bytes \<Rightarrow> message_builder" where
  "stream_request e msg_type body =
     (let b = mb_new e msg_type (NLM_F_REQUEST OR NLM_F_DUMP)
      in if body \<noteq> [] then append_bytes body b else b)"

definition dump_stream_of :: "u32 \<Rightarrow> bytes nl_result delayed list \<Rightarrow> 't dump_stream" where
  "dump_stream_of seq source =
     \<lparr>dm_expected_seq = seq, dm_pending = [], dm_done = False, dm_errored = False,
      dm_skip_malformed = False, dm_source = source\<rparr>"

definition stream_send :: "endian \<Rightarrow> connection \<Rightarrow> u16 \<Rightarrow> bytes \<Rightarrow> (bytes \<Rightarrow> unit nl_result option) \<Rightarrow>
    bytes nl_result delayed list \<Rightarrow> 't dump_stream outcome \<times> connection" where
  "stream_send e c msg_type body sent source =
     (case stamp e c (stream_request e msg_type body) of
        (None, c') \<Rightarrow> (Panicked, c')
      | (Some (seq, msg), c') \<Rightarrow>
          ((case sent msg of
              None \<Rightarrow> Waiting
            | Some (Inl err) \<Rightarrow> Returned (Inl err)
            | Some (Inr _) \<Rightarrow> Returned (Inr (dump_stream_of seq source))), c'))"

definition with_skip_malformed :: "bool \<Rightarrow> 't dump_stream \<Rightarrow> 't dump_stream" where
  "with_skip_malformed skip st = st\<lparr>dm_skip_malformed := skip\<rparr>"

abbreviation push_item :: "'t nl_result \<Rightarrow> 't dump_stream \<Rightarrow> 't dump_stream" where
  "push_item r st \<equiv> st\<lparr>dm_pending := dm_pending st @ [r]\<rparr>"

fun drain_msgs :: "endian \<Rightarrow> (i32 \<Rightarrow> string) \<Rightarrow> 't from_netlink \<Rightarrow> (nl_msg_hdr \<times> bytes) nl_result list \<Rightarrow>
    't dump_stream \<Rightarrow> 't dump_stream" where
  "drain_msgs e se T [] st = st"
| "drain_msgs e se T (Inl err # fs) st =
     (if dm_skip_malformed st then drain_msgs e se T fs st
      else (push_item (Inl err) st)\<lparr>dm_errored := True\<rparr>)"
| "drain_msgs e se T (Inr (header, payload) # fs) st =
     (if nlmsg_seq header \<noteq> dm_expected_seq st then drain_msgs e se T fs st
      else if hdr_is_error header then
        (case nl_msg_error_from_bytes e payload of
           Inr err \<Rightarrow>
             if is_ack err then drain_msgs e se T fs st
             else (push_item (Inl (into_error e se err payload)) st)\<lparr>dm_errored := True\<rparr>
         | Inl err \<Rightarrow>
             if dm_skip_malformed st then drain_msgs e se T fs st
             else (push_item (Inl err) st)\<lparr>dm_errored := True\<rparr>)
      else if hdr_is_done header then st\<lparr>dm_done := True\<rparr>
      else (case fn_from_bytes T payload of
          Inr item \<Rightarrow>
            drain_msgs e se T fs (push_item (Inr (fn_set_msg_type T (nlmsg_type header) item)) st)
        | Inl err \<Rightarrow>
            if dm_skip_malformed st then drain_msgs e se T fs st
            else drain_msgs e se T fs (push_item (Inl err) st)))"

definition drain_into_pending :: "endian \<Rightarrow> (i32 \<Rightarrow> string) \<Rightarrow> 't from_netlink \<Rightarrow> bytes \<Rightarrow>
    't dump_stream \<Rightarrow> 't dump_stream" where
  "drain_into_pending e se T data st = drain_msgs e se T (msgs_of e data) st"

text \<open>The receive loop of \<open>poll_next\<close>, and \<open>poll_next\<close>.\<close>

fun poll_source :: "endian \<Rightarrow> (i32 \<Rightarrow> string) \<Rightarrow> 't from_netlink \<Rightarrow> bytes nl_result delayed list \<Rightarrow>
    't dump_stream \<Rightarrow> 't nl_result option poll \<times> 't dump_stream" where
  "poll_source e se T [] st = (Pending, st\<lparr>dm_source := []\<rparr>)"
| "poll_source e se T ((Suc k, r) # src) st = (Pending, st\<lparr>dm_source := (k, r) # src\<rparr>)"
| "poll_source e se T ((0, Inl err) # src) st =
     (Ready (Some (Inl err)), st\<lparr>dm_source := src, dm_errored := True\<rparr>)"
| "poll_source e se T ((0, Inr data) # src) st =
     (let st' = drain_into_pending e se T data (st\<lparr>dm_source := src\<rparr>)
      in case dm_pending st' of
           item # rest \<Rightarrow> (Ready (Some item), st'\<lparr>dm_pending := rest\<rparr>)
         | [] \<Rightarrow> if dm_done st' \<or> dm_errored st' then (Ready None, st')
                else poll_source e se T src st')"

definition dump_poll_next :: "endian \<Rightarrow> (i32 \<Rightarrow> string) \<Rightarrow> 't from_netlink \<Rightarrow> 't dump_stream \<Rightarrow>
    't nl_result option poll \<times> 't dump_stream" where
  "dump_poll_next e se T st =
     (case dm_pending st of
        item # rest \<Rightarrow> (Ready (Some item), st\<lparr>dm_pending := rest\<rparr>)
      | [] \<Rightarrow>
          if dm_done st \<or> dm_errored st then (Ready None, st)
          else poll_source e se T (dm_source st) st)"

section \<open>The specification\<close>

lemma drain_const [simp]:
  "dm_source (drain_msgs e se T fs st) = dm_source st"
  "dm_skip_malformed (drain_msgs e se T fs st) = dm_skip_malformed st"
  "dm_expected_seq (drain_msgs e se T fs st) = dm_expected_seq st"
  by (induction e se T fs st rule: drain_msgs.induct) (auto split: sum.splits)

text \<open>Draining only appends.\<close>

lemma drain_pending:
  "drain_msgs e se T fs (st\<lparr>dm_pending := xs @ ys\<rparr>) =
   (let st' = drain_msgs e se T fs (st\<lparr>dm_pending := ys\<rparr>) in st'\<lparr>dm_pending := xs @ dm_pending st'\<rparr>)"
proof (induction fs arbitrary: ys)
  case (Cons f fs)
  show ?case
    using Cons[of ys] Cons[of "ys @ [r]" for r]
    by (cases f) (auto simp: Let_def split: sum.splits)
qed simp

text \<open>What one datagram yields, and whether it ends the stream.\<close>

definition drained :: "endian \<Rightarrow> (i32 \<Rightarrow> string) \<Rightarrow> 't from_netlink \<Rightarrow> u32 \<Rightarrow> bool \<Rightarrow> bytes \<Rightarrow>
    't nl_result list \<times> bool" where
  "drained e se T seq skip data =
     (let st = drain_into_pending e se T data (with_skip_malformed skip (dump_stream_of seq []))
      in (dm_pending st, dm_done st \<or> dm_errored st))"

fun stream_trace :: "endian \<Rightarrow> (i32 \<Rightarrow> string) \<Rightarrow> 't from_netlink \<Rightarrow> u32 \<Rightarrow> bool \<Rightarrow>
    bytes nl_result list \<Rightarrow> 't nl_result list" where
  "stream_trace e se T seq skip [] = []"
| "stream_trace e se T seq skip (Inl err # rs) = [Inl err]"
| "stream_trace e se T seq skip (Inr data # rs) =
     (case drained e se T seq skip data of
        (items, ended) \<Rightarrow> items @ (if ended then [] else stream_trace e se T seq skip rs))"

fun stream_polls :: "endian \<Rightarrow> (i32 \<Rightarrow> string) \<Rightarrow> 't from_netlink \<Rightarrow> u32 \<Rightarrow> bool \<Rightarrow>
    bytes nl_result delayed list \<Rightarrow> nat" where
  "stream_polls e se T seq skip [] = 0"
| "stream_polls e se T seq skip ((k, Inl err) # rs) = Suc k"
| "stream_polls e se T seq skip ((k, Inr data) # rs) =
     (case drained e se T seq skip data of
        (items, ended) \<Rightarrow> k + length items + (if ended then 0 else stream_polls e se T seq skip rs))"

abbreviation ended :: "'t dump_stream \<Rightarrow> bool" where
  "ended st \<equiv> dm_done st \<or> dm_errored st"

definition stream_rest :: "endian \<Rightarrow> (i32 \<Rightarrow> string) \<Rightarrow> 't from_netlink \<Rightarrow> 't dump_stream \<Rightarrow> 't nl_result list" where
  "stream_rest e se T st = dm_pending st @
     (if ended st then []
      else stream_trace e se T (dm_expected_seq st) (dm_skip_malformed st) (map snd (dm_source st)))"

definition stream_left :: "endian \<Rightarrow> (i32 \<Rightarrow> string) \<Rightarrow> 't from_netlink \<Rightarrow> 't dump_stream \<Rightarrow> nat" where
  "stream_left e se T st = length (dm_pending st) +
     (if ended st then 0
      else stream_polls e se T (dm_expected_seq st) (dm_skip_malformed st) (dm_source st))"

lemma drain_source:
  "drain_msgs e se T fs (st\<lparr>dm_source := s\<rparr>) = (drain_msgs e se T fs st)\<lparr>dm_source := s\<rparr>"
proof (induction fs arbitrary: st)
  case (Cons f fs)
  have swap: "st\<lparr>dm_source := s, dm_pending := x\<rparr> = st\<lparr>dm_pending := x, dm_source := s\<rparr>" for x
    by (cases st) simp
  show ?case using Cons by (cases f) (auto simp: swap split: sum.splits)
qed simp

lemma drain_fresh:
  assumes "dm_pending st = []" "\<not> ended st"
  shows "drained e se T (dm_expected_seq st) (dm_skip_malformed st) data =
    (dm_pending (drain_into_pending e se T data st), ended (drain_into_pending e se T data st))"
proof -
  have st: "st = (with_skip_malformed (dm_skip_malformed st) (dump_stream_of (dm_expected_seq st) []))
      \<lparr>dm_source := dm_source st\<rparr>"
    using assms by (cases st) (simp add: with_skip_malformed_def dump_stream_of_def)
  show ?thesis
    unfolding drained_def drain_into_pending_def Let_def
    by (subst (3 4 5) st) (simp only: drain_source, simp)
qed

lemma stream_polls_wait:
  "stream_polls e se T seq skip ((Suc k, r) # src) = Suc (stream_polls e se T seq skip ((k, r) # src))"
  by (cases r) (auto split: prod.splits)

lemma poll_source_step:
  assumes "dm_pending st = []" "\<not> ended st" "dm_source st = src"
  shows "poll_step (stream_rest e se T) (stream_left e se T) st (poll_source e se T src st)"
  using assms
proof (induction e se T src st rule: poll_source.induct)
  case (4 e se T data src st)
  let ?st = "st\<lparr>dm_source := src\<rparr>"
  let ?st' = "drain_into_pending e se T data ?st"
  have drained: "drained e se T (dm_expected_seq st) (dm_skip_malformed st) data =
      (dm_pending ?st', ended ?st')"
    using drain_fresh[of ?st] 4(2,3) by simp
  have const: "dm_source ?st' = src" "dm_skip_malformed ?st' = dm_skip_malformed st"
    "dm_expected_seq ?st' = dm_expected_seq st"
    by (simp_all add: drain_into_pending_def)
  have same: "stream_rest e se T ?st' = stream_rest e se T st"
    "stream_left e se T ?st' = stream_left e se T st"
    using 4(2-4) drained const by (auto simp: stream_rest_def stream_left_def 4(4))
  show ?case
  proof (cases "dm_pending ?st'")
    case (Cons item rest)
    then show ?thesis
      using 4(2-4) drained const
      by (auto simp: Let_def stream_rest_def stream_left_def 4(4))
  next
    case Nil
    show ?thesis
    proof (cases "ended ?st'")
      case True
      then show ?thesis
        using Nil 4(2-4) drained const
        by (auto simp: Let_def stream_rest_def 4(4))
    next
      case False
      have "poll_step (stream_rest e se T) (stream_left e se T) ?st' (poll_source e se T src ?st')"
        using 4(1)[OF refl Nil False] False Nil const by simp
      then have "poll_step (stream_rest e se T) (stream_left e se T) st (poll_source e se T src ?st')"
        by (rule poll_step_same) (simp_all add: same)
      then show ?thesis using Nil False by (simp add: Let_def)
    qed
  qed
qed (auto simp: stream_rest_def stream_left_def stream_polls_wait)

interpretation dump_stream: poll_stream
  "dump_poll_next e se T" "stream_rest e se T" "stream_left e se T" for e se T
proof
  show "poll_step (stream_rest e se T) (stream_left e se T) st (dump_poll_next e se T st)" for st
  proof (cases "dm_pending st")
    case Nil
    then show ?thesis
      using poll_source_step[of st "dm_source st" e se T]
      by (auto simp: dump_poll_next_def stream_rest_def)
  qed (auto simp: dump_poll_next_def stream_rest_def stream_left_def)
  have trace: "stream_polls e se T seq skip src = 0 \<Longrightarrow> stream_trace e se T seq skip (map snd src) = []"
    for seq skip src
    by (induction e se T seq skip src rule: stream_polls.induct) (auto split: prod.splits if_splits)
  show "stream_rest e se T st = []" if "stream_left e se T st = 0" for st
    using that trace by (auto simp: stream_rest_def stream_left_def)
qed

lemma stream_of_start:
  "stream_rest e se T (dump_stream_of seq src) = stream_trace e se T seq False (map snd src)"
  "stream_left e se T (dump_stream_of seq src) = stream_polls e se T seq False src"
  by (simp_all add: stream_rest_def stream_left_def dump_stream_of_def)

lemma stream_of_skip_start:
  "stream_rest e se T (with_skip_malformed skip (dump_stream_of seq src)) =
   stream_trace e se T seq skip (map snd src)"
  by (simp add: stream_rest_def dump_stream_of_def with_skip_malformed_def)

section \<open>The stream and the eager dump\<close>

lemma drain_frames_own:
  "drain_msgs e se T (map Inr fs) st =
   drain_msgs e se T (map Inr (filter (\<lambda>(h, p). nlmsg_seq h = dm_expected_seq st) fs)) st"
  by (induction fs arbitrary: st) (auto split: sum.splits)

text \<open>The answer of the kernel, datagram by datagram: what the stream hands out.\<close>

lemma filter_own_Cons: "own seq (d # ds) = filter (\<lambda>(h, p). nlmsg_seq h = seq) d @ own seq ds"
  by (simp add: own_def)

text \<open>What the rows of a dump become in the stream: one that does not parse is an error item, or nothing.\<close>

fun stream_rows :: "'t from_netlink \<Rightarrow> bool \<Rightarrow> frame list \<Rightarrow> 't nl_result list" where
  "stream_rows T skip [] = []"
| "stream_rows T skip ((h, p) # fs) =
     (case fn_from_bytes T p of
        Inl err \<Rightarrow> (if skip then [] else [Inl err])
      | Inr msg \<Rightarrow> [Inr (fn_set_msg_type T (nlmsg_type h) msg)]) @ stream_rows T skip fs"

lemma stream_rows_append: "stream_rows T skip (xs @ ys) = stream_rows T skip xs @ stream_rows T skip ys"
  by (induction T skip xs rule: stream_rows.induct) simp_all

definition received_rows :: "'t nl_result list \<Rightarrow> 't list" where
  "received_rows items = List.map_filter (case_sum (\<lambda>_. None) Some) items"

lemma received_stream_rows: "received_rows (stream_rows T skip fs) = typed_rows T fs"
  by (induction T skip fs rule: stream_rows.induct)
    (auto simp: received_rows_def map_filter_simps split: sum.split)

lemma stream_of_skip_left:
  "stream_left e se T (with_skip_malformed skip (dump_stream_of seq src)) = stream_polls e se T seq skip src"
  by (simp add: stream_left_def dump_stream_of_def with_skip_malformed_def)

lemma stream_trace_rows:
  assumes "list_all (list_all frame_ok) ds" "own seq ds = rows @ (h, p) # later"
    "list_all (\<lambda>f. \<not> hdr_is_error (fst f) \<and> \<not> hdr_is_done (fst f)) rows" "hdr_is_done h"
  shows "stream_trace e se T seq skip (received e ds) = stream_rows T skip rows"
  using assms
proof (induction ds arbitrary: rows)
  case Nil
  then show ?case by (simp add: own_def)
next
  case (Cons d ds)
  let ?st = "with_skip_malformed skip (dump_stream_of seq []) :: 'a dump_stream"
  let ?mine = "filter (\<lambda>(h, p). nlmsg_seq h = seq) d"
  have exp: "dm_expected_seq ?st = seq" and start: "dm_pending ?st = []" "\<not> ended ?st"
    by (simp_all add: with_skip_malformed_def dump_stream_of_def)
  have drained: "drained e se T seq skip (datagram e d) =
      (let st = drain_msgs e se T (map Inr ?mine) ?st in (dm_pending st, ended st))"
    using Cons.prems(1) drain_frames_own[of e se T d ?st] exp
    by (simp add: drained_def drain_into_pending_def msgs_of_datagram)
  have mine: "list_all (\<lambda>(h, p). nlmsg_seq h = dm_expected_seq ?st) ?mine"
    unfolding exp by (auto simp: list_all_iff)
  have drain_plain: "drain_msgs e se T (map Inr xs @ fs) ?st =
      drain_msgs e se T fs (?st\<lparr>dm_pending := dm_pending ?st @ stream_rows T skip xs\<rparr>)"
    if "list_all (\<lambda>f. \<not> hdr_is_error (fst f) \<and> \<not> hdr_is_done (fst f)) xs"
      "list_all (\<lambda>(h, p). nlmsg_seq h = dm_expected_seq ?st) xs" for xs fs
  proof -
    have "drain_msgs e se T (map Inr xs @ fs) st =
      drain_msgs e se T fs (st\<lparr>dm_pending := dm_pending st @ stream_rows T skip xs\<rparr>)"
      if "list_all (\<lambda>(h, p). nlmsg_seq h = dm_expected_seq st) xs" "dm_skip_malformed st = skip" for st :: "'a dump_stream"
      using that \<open>list_all (\<lambda>f. \<not> hdr_is_error (fst f) \<and> \<not> hdr_is_done (fst f)) xs\<close>
      by (induction xs arbitrary: st) (auto split: sum.splits)
    then show ?thesis using that(2) by (simp add: with_skip_malformed_def)
  qed
  have split: "?mine @ own seq ds = rows @ (h, p) # later"
    using Cons.prems(2) by (simp only: filter_own_Cons)
  then consider (whole) us where "rows = ?mine @ us" "own seq ds = us @ (h, p) # later"
    | (ends) us where "?mine = rows @ (h, p) # us"
    by (auto simp: append_eq_append_conv2 append_eq_Cons_conv)
  then show ?case
  proof cases
    case whole
    have "drain_msgs e se T (map Inr ?mine @ []) ?st = ?st\<lparr>dm_pending := stream_rows T skip ?mine\<rparr>"
      using drain_plain[of ?mine "[]"] mine Cons.prems(3) whole(1) start by simp
    then have "drained e se T seq skip (datagram e d) = (stream_rows T skip ?mine, False)"
      using drained start by (simp add: Let_def)
    moreover have "stream_trace e se T seq skip (received e ds) = stream_rows T skip us"
      using Cons.IH[of us] Cons.prems whole by simp
    ultimately show ?thesis using whole(1) by (simp add: received_def stream_rows_append)
  next
    case ends
    have "nlmsg_seq h = seq" "list_all (\<lambda>(h, p). nlmsg_seq h = dm_expected_seq ?st) rows"
      using mine ends exp by auto
    then have "drain_msgs e se T (map Inr ?mine) ?st =
        ?st\<lparr>dm_pending := stream_rows T skip rows, dm_done := True\<rparr>"
      using drain_plain[of rows "map Inr ((h, p) # us)"] Cons.prems(3,4) ends start exp
      by (simp add: hdr_is_error_def hdr_is_done_def ERROR_def DONE_def)
    then have "drained e se T seq skip (datagram e d) = (stream_rows T skip rows, True)"
      using drained by (simp add: Let_def)
    then show ?thesis by (simp add: received_def)
  qed
qed

lemma drive_stream:
  assumes "map snd src = rs" "stream_polls e se T seq skip src \<le> n"
  shows "drive n (dump_poll_next e se T) (with_skip_malformed skip (dump_stream_of seq src)) =
    stream_trace e se T seq skip rs"
  using dump_stream.drive_rest[of e se T "with_skip_malformed skip (dump_stream_of seq src)" n] assms
  by (simp add: stream_of_skip_start stream_of_skip_left)


definition slow_source :: "u16 \<Rightarrow> bytes nl_result delayed list" where
  "slow_source flags = map (\<lambda>r. (2, r)) (received LittleEndian (two_datagrams flags))"

lemma slow_source_items: "map snd (slow_source flags) = received LittleEndian (two_datagrams flags)"
  by (simp add: slow_source_def o_def)

lemma two_rows:
  "own 7 (two_datagrams flags) =
     [frame_at 16 2 7 [1, 2], frame_at 16 2 7 [3]] @ (fst (frame_at 3 flags 7 [0, 0, 0, 0]), [0, 0, 0, 0]) # []"
  by (simp add: witness_frames)


section \<open>Skipping malformed frames\<close>

lemma msgs_of_datagram_append:
  "list_all frame_ok fs \<Longrightarrow> msgs_of e (datagram e fs @ bs) = map Inr fs @ msgs_of e bs"
  by (induction fs) (auto simp: datagram_def msgs_of_frame)

lemma drain_skip_errors:
  assumes "dm_skip_malformed st"
  shows "drain_msgs e se T (fs @ [Inl err]) st = drain_msgs e se T fs st"
  using assms
proof (induction fs arbitrary: st)
  case (Cons f fs)
  then show ?case by (cases f) (auto split: sum.splits)
qed simp

text \<open>
  With \<open>with_skip_malformed\<close> a bad length field costs the rest of its datagram, not one
  frame: whatever valid frames follow it there, the end message included, are never seen, so
  the stream keeps waiting for an end that was delivered.
\<close>

theorem skip_malformed_drops_rest:
  assumes "list_all frame_ok fs" "unat (nlmsg_len bad) < 16"
  shows "drained e se T seq True (datagram e fs @ nl_msg_hdr_as_bytes e bad @ datagram e gs) =
    drained e se T seq True (datagram e fs)"
proof -
  have "msg_next e (nl_msg_hdr_as_bytes e bad @ datagram e gs) =
    Some (Inl (InvalidMessage (''invalid message length: '' @ show_nat (unat (nlmsg_len bad)))), [])"
    using assms(2) by (simp add: msg_next_def Let_def)
  then have "\<exists>err. msgs_of e (nl_msg_hdr_as_bytes e bad @ datagram e gs) = [Inl err]"
    unfolding msgs_of_def by (simp add: msg_it.iter_Some msgs_of_short[unfolded msgs_of_def])
  then obtain err where "msgs_of e (nl_msg_hdr_as_bytes e bad @ datagram e gs) = [Inl err]" ..
  then show ?thesis
    using assms(1)
    by (simp add: drained_def drain_into_pending_def msgs_of_datagram msgs_of_datagram_append
        drain_skip_errors with_skip_malformed_def)
qed

theorem skip_malformed_drops_rest_witness:
  "drained LittleEndian (\<lambda>_. []) byte_rows 7 True
     (datagram LittleEndian [frame_at 16 2 7 [1, 2]] @
      nl_msg_hdr_as_bytes LittleEndian ((nl_msg_hdr_new 16 2)\<lparr>nlmsg_len := 3\<rparr>) @
      datagram LittleEndian [frame_at 3 2 7 [0, 0, 0, 0]]) =
   drained LittleEndian (\<lambda>_. []) byte_rows 7 True (datagram LittleEndian [frame_at 16 2 7 [1, 2]])"
  by (rule skip_malformed_drops_rest) (simp_all add: frame_ok_def frame_at_def nl_msg_hdr_new_def)

end
