(* ===== verification/Resync.thy ===== *)
theory Resync
  imports Poll_Stream
begin

text \<open>
  Recovery from multicast overflow (\<open>netlink/resync.rs\<close>): the \<open>ResyncStream\<close> state machine
  that forwards events, and on \<open>ENOBUFS\<close> runs the caller's snapshot and replays it between
  two markers.  The inner stream and the snapshot futures are the environment: the inner
  stream is the list of its items, each after a number of \<open>Pending\<close> answers, and the \<open>n\<close>-th
  call of the resync closure gives a future that is pending a number of times and then
  resolves.
\<close>

section \<open>Events\<close>

datatype resync_marker = ResyncStart | ResyncEnd

datatype 't resynced_event = Event 't | Resynced 't | Marker resync_marker

fun is_resync_start :: "'t resynced_event \<Rightarrow> bool" where
  "is_resync_start (Marker ResyncStart) = True"
| "is_resync_start _ = False"

fun is_resync_end :: "'t resynced_event \<Rightarrow> bool" where
  "is_resync_end (Marker ResyncEnd) = True"
| "is_resync_end _ = False"

fun into_inner :: "'t resynced_event \<Rightarrow> 't option" where
  "into_inner (Event t) = Some t"
| "into_inner (Resynced t) = Some t"
| "into_inner (Marker _) = None"

section \<open>The state machine\<close>

datatype 't resync_state =
    Forwarding
  | RunningSnapshot "'t list nl_result delayed"
  | Replaying "'t list" bool
  | Done

record 't resync_stream =
  rs_inner :: "'t nl_result delayed list"
  rs_calls :: nat
  rs_state :: "'t resync_state"

fun state_rank :: "'t resync_state \<Rightarrow> nat" where
  "state_rank Forwarding = 2"
| "state_rank (RunningSnapshot _) = 1"
| "state_rank _ = 0"

text \<open>
  \<open>poll_next\<close>: the loop goes round once more only from \<open>Forwarding\<close> to \<open>RunningSnapshot\<close> and
  from there to \<open>Replaying\<close>.
\<close>

function resync_poll_next ::
  "(nat \<Rightarrow> 't list nl_result delayed) \<Rightarrow> 't resync_stream \<Rightarrow>
     't resynced_event nl_result option poll \<times> 't resync_stream" where
  "resync_poll_next resync this =
     (case rs_state this of
        Done \<Rightarrow> (Ready None, this\<lparr>rs_state := Done\<rparr>)
      | Forwarding \<Rightarrow>
          (case inner_poll (rs_inner this) of
             (Ready (Some (Inr item)), inner) \<Rightarrow>
               (Ready (Some (Inr (Event item))), this\<lparr>rs_inner := inner, rs_state := Forwarding\<rparr>)
           | (Ready (Some (Inl e)), inner) \<Rightarrow>
               if is_no_buffer_space e then
                 resync_poll_next resync
                   (this\<lparr>rs_inner := inner, rs_calls := Suc (rs_calls this),
                         rs_state := RunningSnapshot (resync (rs_calls this))\<rparr>)
               else (Ready (Some (Inl e)), this\<lparr>rs_inner := inner, rs_state := Done\<rparr>)
           | (Ready None, inner) \<Rightarrow> (Ready None, this\<lparr>rs_inner := inner, rs_state := Done\<rparr>)
           | (Pending, inner) \<Rightarrow> (Pending, this\<lparr>rs_inner := inner, rs_state := Forwarding\<rparr>))
      | RunningSnapshot fut \<Rightarrow>
          (case fut_poll fut of
             (Ready (Inr items), _) \<Rightarrow>
               resync_poll_next resync (this\<lparr>rs_state := Replaying items False\<rparr>)
           | (Ready (Inl e), _) \<Rightarrow> (Ready (Some (Inl e)), this\<lparr>rs_state := Done\<rparr>)
           | (Pending, fut') \<Rightarrow> (Pending, this\<lparr>rs_state := RunningSnapshot fut'\<rparr>))
      | Replaying items did_emit_start \<Rightarrow>
          if \<not> did_emit_start then
            (Ready (Some (Inr (Marker ResyncStart))), this\<lparr>rs_state := Replaying items True\<rparr>)
          else (case items of
              item # rest \<Rightarrow>
                (Ready (Some (Inr (Resynced item))), this\<lparr>rs_state := Replaying rest True\<rparr>)
            | [] \<Rightarrow> (Ready (Some (Inr (Marker ResyncEnd))), this\<lparr>rs_state := Forwarding\<rparr>)))"
  by pat_completeness auto
termination
  by (relation "measure (\<lambda>(_, this). state_rank (rs_state this))") auto

declare resync_poll_next.simps [simp del]

definition events_with_resync :: "'t nl_result delayed list \<Rightarrow> 't resync_stream" where
  "events_with_resync inner = \<lparr>rs_inner = inner, rs_calls = 0, rs_state = Forwarding\<rparr>"

section \<open>The specification of the stream\<close>

text \<open>
  The specification: the items without any polling.  \<open>c\<close> counts the snapshots taken.
\<close>

fun resync_trace :: "(nat \<Rightarrow> 't list nl_result delayed) \<Rightarrow> nat \<Rightarrow> 't nl_result list \<Rightarrow>
    't resynced_event nl_result list" where
  "resync_trace resync c [] = []"
| "resync_trace resync c (Inr t # rs) = Inr (Event t) # resync_trace resync c rs"
| "resync_trace resync c (Inl e # rs) =
     (if is_no_buffer_space e then
        (case snd (resync c) of
           Inl e' \<Rightarrow> [Inl e']
         | Inr items \<Rightarrow>
             Inr (Marker ResyncStart) # map (Inr \<circ> Resynced) items @ Inr (Marker ResyncEnd) #
             resync_trace resync (Suc c) rs)
      else [Inl e])"

text \<open>What is still to come from a state.\<close>

definition rest_trace :: "(nat \<Rightarrow> 't list nl_result delayed) \<Rightarrow> 't resync_stream \<Rightarrow>
    't resynced_event nl_result list" where
  "rest_trace resync st =
     (let rest = resync_trace resync (rs_calls st) (map snd (rs_inner st)) in
      case rs_state st of
        Done \<Rightarrow> []
      | Forwarding \<Rightarrow> rest
      | RunningSnapshot fut \<Rightarrow>
          (case snd fut of
             Inl e \<Rightarrow> [Inl e]
           | Inr items \<Rightarrow> Inr (Marker ResyncStart) # map (Inr \<circ> Resynced) items @
               Inr (Marker ResyncEnd) # rest)
      | Replaying items started \<Rightarrow>
          (if started then [] else [Inr (Marker ResyncStart)]) @ map (Inr \<circ> Resynced) items @
          Inr (Marker ResyncEnd) # rest)"

text \<open>The polls that are still needed: the waits, and one for each item.\<close>

fun polls_needed :: "(nat \<Rightarrow> 't list nl_result delayed) \<Rightarrow> nat \<Rightarrow> 't nl_result delayed list \<Rightarrow> nat" where
  "polls_needed resync c [] = 0"
| "polls_needed resync c ((k, Inr t) # xs) = Suc k + polls_needed resync c xs"
| "polls_needed resync c ((k, Inl e) # xs) =
     k + (if is_no_buffer_space e then
            fst (resync c) +
            (case snd (resync c) of
               Inl e' \<Rightarrow> 1
             | Inr items \<Rightarrow> 2 + length items + polls_needed resync (Suc c) xs)
          else 1)"

definition polls_left :: "(nat \<Rightarrow> 't list nl_result delayed) \<Rightarrow> 't resync_stream \<Rightarrow> nat" where
  "polls_left resync st =
     (let rest = polls_needed resync (rs_calls st) (rs_inner st) in
      case rs_state st of
        Done \<Rightarrow> 0
      | Forwarding \<Rightarrow> rest
      | RunningSnapshot fut \<Rightarrow>
          fst fut + (case snd fut of Inl e \<Rightarrow> 1 | Inr items \<Rightarrow> 2 + length items + rest)
      | Replaying items started \<Rightarrow> (if started then 1 else 2) + length items + rest)"

lemmas resync_spec = rest_trace_def polls_left_def Let_def

abbreviation resync_step ::
  "(nat \<Rightarrow> 't list nl_result delayed) \<Rightarrow> 't resync_stream \<Rightarrow> bool" where
  "resync_step resync st \<equiv>
     poll_step (rest_trace resync) (polls_left resync) st (resync_poll_next resync st)"

lemma resync_step_replaying:
  assumes "rs_state st = Replaying items started"
  shows "resync_step resync st"
  using assms
  by (subst resync_poll_next.simps) (auto simp: resync_spec split: list.splits)

lemma resync_step_running:
  assumes "rs_state st = RunningSnapshot fut"
  shows "resync_step resync st"
proof (cases "\<exists>items. fut = (0, Inr items)")
  case True
  then obtain items where fut: "fut = (0, Inr items)" by blast
  let ?st = "st\<lparr>rs_state := Replaying items False\<rparr>"
  have "resync_poll_next resync st = resync_poll_next resync ?st"
    using assms fut by (subst resync_poll_next.simps) simp
  moreover have "resync_step resync ?st"
    by (rule resync_step_replaying[of _ items False]) simp
  ultimately show ?thesis
    using assms fut by (auto elim!: poll_step_same simp: resync_spec)
next
  case False
  then show ?thesis using assms
    by (subst resync_poll_next.simps)
      (cases fut rule: fut_poll.cases; auto simp: resync_spec split: sum.splits)
qed

lemma resync_step_forwarding:
  assumes "rs_state st = Forwarding"
  shows "resync_step resync st"
proof (cases "\<exists>e xs. rs_inner st = (0, Inl e) # xs \<and> is_no_buffer_space e")
  case True
  then obtain e xs where inner: "rs_inner st = (0, Inl e) # xs" and e: "is_no_buffer_space e"
    by blast
  let ?st = "st\<lparr>rs_inner := xs, rs_calls := Suc (rs_calls st),
               rs_state := RunningSnapshot (resync (rs_calls st))\<rparr>"
  have "resync_poll_next resync st = resync_poll_next resync ?st"
    using assms inner e by (subst resync_poll_next.simps) simp
  moreover have "resync_step resync ?st"
    by (rule resync_step_running[of _ "resync (rs_calls st)"]) simp
  ultimately show ?thesis
    using assms inner e by (auto elim!: poll_step_same simp: resync_spec split: sum.splits)
next
  case False
  then show ?thesis using assms
    by (subst resync_poll_next.simps)
      (cases "rs_inner st" rule: inner_poll.cases;
       auto simp: resync_spec split: sum.splits if_splits;
       cases "snd (hd (rs_inner st))"; auto)
qed

lemma resync_step_done:
  assumes "rs_state st = Done"
  shows "resync_step resync st"
  using assms by (subst resync_poll_next.simps) (simp add: resync_spec)

lemma polls_needed_0: "polls_needed resync c xs = 0 \<Longrightarrow> xs = []"
  by (cases "(resync, c, xs)" rule: polls_needed.cases) (auto split: if_splits sum.splits)

interpretation resync: poll_stream
  "resync_poll_next resync" "rest_trace resync" "polls_left resync" for resync
proof
  fix st
  show "resync_step resync st"
    by (cases "rs_state st")
      (auto intro: resync_step_forwarding resync_step_running resync_step_replaying
        resync_step_done)
  show "rest_trace resync st = []" if "polls_left resync st = 0"
    using that by (auto simp: resync_spec dest!: polls_needed_0
        split: resync_state.splits sum.splits if_splits)
qed

lemma rest_of_start: "rest_trace resync (events_with_resync inner) = resync_trace resync 0 (map snd inner)"
  by (simp add: rest_trace_def events_with_resync_def)

lemma left_of_start: "polls_left resync (events_with_resync inner) = polls_needed resync 0 inner"
  by (simp add: polls_left_def events_with_resync_def)

text \<open>
  C9. The resync stream refines its specification: whatever waits the inner stream and
  the snapshot futures answer, a consumer that polls at least \<open>polls_needed\<close> times has
  received exactly \<open>resync_trace\<close> of the items: every event in order, and for each
  overflow the start marker, that call's snapshot and the end marker.
\<close>

theorem resync_refines:
  assumes "polls_needed resync 0 inner \<le> n"
  shows "drive n (resync_poll_next resync) (events_with_resync inner) =
    resync_trace resync 0 (map snd inner)"
  using resync.drive_rest[of resync "events_with_resync inner" n] assms
  by (simp add: rest_of_start left_of_start)

theorem resync_refines_witness:
  "drive 8 (resync_poll_next (\<lambda>_. (1, Inr [7::nat])))
     (events_with_resync [(1, Inr 1), (0, Inl (Io (OsError 105))), (0, Inr 2)]) =
   [Inr (Event 1), Inr (Marker ResyncStart), Inr (Resynced 7), Inr (Marker ResyncEnd),
    Inr (Event 2)]"
  using resync_refines[of "\<lambda>_. (1, Inr [7::nat])"
      "[(1, Inr (1::nat)), (0, Inl (Io (OsError 105))), (0, Inr 2)]" 8]
  by (simp add: is_no_buffer_space_def)

section \<open>The bracket discipline\<close>

text \<open>
  What a consumer may rely on: replayed items come only inside a window of markers, live
  events only outside, windows do not nest, and an error ends the stream outside a window.
\<close>

fun bracketed :: "bool \<Rightarrow> 't resynced_event nl_result list \<Rightarrow> bool" where
  "bracketed w [] = True"
| "bracketed w (Inl e # xs) = (\<not> w \<and> xs = [])"
| "bracketed w (Inr (Event t) # xs) = (\<not> w \<and> bracketed w xs)"
| "bracketed w (Inr (Resynced t) # xs) = (w \<and> bracketed w xs)"
| "bracketed w (Inr (Marker ResyncStart) # xs) = (\<not> w \<and> bracketed True xs)"
| "bracketed w (Inr (Marker ResyncEnd) # xs) = (w \<and> bracketed False xs)"

lemma bracketed_prefix: "bracketed w (xs @ ys) \<Longrightarrow> bracketed w xs"
  by (induction w xs rule: bracketed.induct) auto

lemma bracketed_replay:
  "bracketed True (map (Inr \<circ> Resynced) items @ xs) = bracketed True xs"
  by (induction items) auto

lemma bracketed_trace: "bracketed False (resync_trace resync c rs)"
  by (induction resync c rs rule: resync_trace.induct)
    (auto simp: bracketed_replay split: sum.splits)

lemma bracketed_drive:
  "bracketed False (drive n (resync_poll_next resync) (events_with_resync inner))"
  using resync.drive_prefix[of resync "events_with_resync inner" n]
    bracketed_trace[of resync 0 "map snd inner"]
  by (auto simp: rest_of_start dest: bracketed_prefix)

text \<open>
  C18. At every moment of every run of a resync stream, the items handed out so far obey
  the bracket discipline: replayed items only between a start and an end marker, live
  events only outside them, no nesting, and nothing after an error.
\<close>

theorem resync_bracketed:
  "bracketed False (drive n (resync_poll_next resync) (events_with_resync inner))"
  by (rule bracketed_drive)

text \<open>
  An error or the end fuses the stream: the poll that hands out an error leaves a
  state from which every further poll answers the end, without polling the inner stream.
\<close>

lemma poll_error_done:
  assumes "resync_poll_next resync st = (Ready (Some (Inl e)), st')"
  shows "rs_state st' = Done"
  using assms
proof (induction resync st rule: resync_poll_next.induct)
  case (1 resync this)
  show ?case
    using 1(3) unfolding resync_poll_next.simps[of resync this]
    by (auto split: resync_state.splits prod.splits poll.splits option.splits sum.splits
        if_splits list.splits dest: 1(1,2))
qed

theorem resync_fuses:
  assumes "resync_poll_next resync st = (Ready (Some (Inl e)), st')"
  shows "resync_poll_next resync st' = (Ready None, st')"
  using poll_error_done[OF assms] by (subst resync_poll_next.simps) simp

theorem resync_fuses_witness:
  "let st = events_with_resync [(0, Inl (Io (OsError 1))), (0, Inr (5::nat))];
       st' = snd (resync_poll_next (\<lambda>_. (0, Inr [])) st)
   in resync_poll_next (\<lambda>_. (0, Inr [])) st' = (Ready None, st')"
  unfolding Let_def
proof (rule resync_fuses)
  let ?st = "events_with_resync [(0, Inl (Io (OsError 1))), (0, Inr (5::nat))]"
  show "resync_poll_next (\<lambda>_. (0, Inr [])) ?st =
    (Ready (Some (Inl (Io (OsError 1)))), snd (resync_poll_next (\<lambda>_. (0, Inr [])) ?st))"
    by (subst (1 2) resync_poll_next.simps)
      (simp add: events_with_resync_def is_no_buffer_space_def)
qed

end
