(* ===== verification/Dispatcher.thy ===== *)
theory Dispatcher
  imports Connection Poll_Stream Resync
begin

text \<open>
  The dispatcher of \<open>netlink/dispatcher.rs\<close>: per-request channels keyed by sequence number,
  multicast subscribers, event listeners, and the driver task that owns the receive side.
  Every method of the source is one critical section, so a run is a sequence of actions.
\<close>

section \<open>State\<close>

text \<open>
  The channels are numbered.  Their senders live only in the maps of the dispatcher, so a
  channel is closed for its receiver when no entry of the map leads to it any more.  A
  broadcast grp is the list of the event queues of its live receivers; an event listener
  leaves its map when its guard is dropped, so every listener in the map has a receiver.
\<close>

datatype dispatcher_event = Frame bytes | Resync_event resync_marker

record dispatcher =
  dp_subscribers :: "(u32 \<times> dispatcher_event list list) list"
  dp_pending :: "u32 \<rightharpoonup> nat"
  dp_queues :: "nat \<Rightarrow> bytes list"
  dp_next_channel :: nat
  dp_listeners :: "u64 \<rightharpoonup> bytes list"
  dp_next_listener_id :: u64
  dp_fatal :: "string option"
  dp_driver_started :: bool
  dp_driver_running :: bool

definition dispatcher_new :: dispatcher where
  "dispatcher_new =
     \<lparr>dp_subscribers = [], dp_pending = Map.empty, dp_queues = (\<lambda>_. []), dp_next_channel = 0,
      dp_listeners = Map.empty, dp_next_listener_id = 0, dp_fatal = None,
      dp_driver_started = False, dp_driver_running = False\<rparr>"

section \<open>Multicast\<close>

fun add_receiver :: "u32 \<Rightarrow> (u32 \<times> dispatcher_event list list) list \<Rightarrow>
    (u32 \<times> dispatcher_event list list) list" where
  "add_receiver grp [] = [(grp, [[]])]"
| "add_receiver grp ((g, qs) # subs) =
     (if g = grp then (g, qs @ [[]]) # subs else (g, qs) # add_receiver grp subs)"

definition subscribe_multicast :: "u32 \<Rightarrow> dispatcher \<Rightarrow> dispatcher" where
  "subscribe_multicast grp d = d\<lparr>dp_subscribers := add_receiver grp (dp_subscribers d)\<rparr>"

text \<open>
  The queue of a receiver is unbounded here; \<open>broadcast::channel\<close> keeps the last 1024 events and reports a
  receiver that has fallen behind as lagged.
\<close>

definition broadcast :: "dispatcher_event \<Rightarrow> dispatcher_event list list \<Rightarrow> dispatcher_event list list" where
  "broadcast ev qs = map (\<lambda>q. q @ [ev]) qs"

definition emit_enobufs :: "dispatcher \<Rightarrow> dispatcher" where
  "emit_enobufs d =
     d\<lparr>dp_subscribers := map (\<lambda>(g, qs). (g, broadcast (Resync_event ResyncStart) qs)) (dp_subscribers d)\<rparr>"

definition fan_out :: "u32 \<Rightarrow> bytes \<Rightarrow> dispatcher \<Rightarrow> nat \<times> dispatcher" where
  "fan_out grp frame d =
     (case map_of (dp_subscribers d) grp of
        None \<Rightarrow> (0, d)
      | Some qs \<Rightarrow>
          (length qs, d\<lparr>dp_subscribers :=
             map (\<lambda>(g, qs). if g = grp then (g, broadcast (Frame frame) qs) else (g, qs))
               (dp_subscribers d)\<rparr>))"

definition fan_out_all :: "bytes \<Rightarrow> dispatcher \<Rightarrow> nat \<times> dispatcher" where
  "fan_out_all frame d =
     (length (filter (\<lambda>(g, qs). qs \<noteq> []) (dp_subscribers d)),
      d\<lparr>dp_subscribers := map (\<lambda>(g, qs). (g, broadcast (Frame frame) qs)) (dp_subscribers d)\<rparr>)"

definition active_group_count :: "dispatcher \<Rightarrow> nat" where
  "active_group_count d = length (dp_subscribers d)"

definition dispatcher_gc :: "dispatcher \<Rightarrow> dispatcher" where
  "dispatcher_gc d = d\<lparr>dp_subscribers := filter (\<lambda>(g, qs). qs \<noteq> []) (dp_subscribers d)\<rparr>"

definition subscribe_events :: "dispatcher \<Rightarrow> u64 \<times> dispatcher" where
  "subscribe_events d =
     (let listener = dp_next_listener_id d
      in (listener, d\<lparr>dp_next_listener_id := listener + 1,
                     dp_listeners := (dp_listeners d)(listener \<mapsto> [])\<rparr>))"

definition deregister_event_listener :: "u64 \<Rightarrow> dispatcher \<Rightarrow> dispatcher" where
  "deregister_event_listener listener d = d\<lparr>dp_listeners := (dp_listeners d)(listener := None)\<rparr>"

definition fan_out_events :: "bytes \<Rightarrow> dispatcher \<Rightarrow> dispatcher" where
  "fan_out_events frame d =
     d\<lparr>dp_listeners := (\<lambda>i. map_option (\<lambda>q. q @ [frame]) (dp_listeners d i))\<rparr>"

section \<open>Requests\<close>

text \<open>\<open>register\<close> and \<open>register_many\<close> open a fresh channel and return its number.\<close>

definition register :: "u32 \<Rightarrow> dispatcher \<Rightarrow> nat \<times> dispatcher" where
  "register seq d =
     (let rx = dp_next_channel d
      in (rx, d\<lparr>dp_next_channel := Suc rx, dp_queues := (dp_queues d)(rx := []),
               dp_pending := (dp_pending d)(seq \<mapsto> rx)\<rparr>))"

definition register_many :: "u32 list \<Rightarrow> dispatcher \<Rightarrow> nat \<times> dispatcher" where
  "register_many ss d =
     (let rx = dp_next_channel d
      in (rx, d\<lparr>dp_next_channel := Suc rx, dp_queues := (dp_queues d)(rx := []),
               dp_pending := fold (\<lambda>seq p. p(seq \<mapsto> rx)) ss (dp_pending d)\<rparr>))"

definition deregister :: "u32 \<Rightarrow> dispatcher \<Rightarrow> dispatcher" where
  "deregister seq d = d\<lparr>dp_pending := (dp_pending d)(seq := None)\<rparr>"

text \<open>Dropping a \<open>PendingGuard\<close>.\<close>

definition drop_guard :: "u32 list \<Rightarrow> dispatcher \<Rightarrow> dispatcher" where
  "drop_guard ss d = fold deregister ss d"

definition push_frame :: "nat \<Rightarrow> bytes \<Rightarrow> dispatcher \<Rightarrow> dispatcher" where
  "push_frame rx buf d = d\<lparr>dp_queues := (dp_queues d)(rx := dp_queues d rx @ [buf])\<rparr>"

text \<open>\<open>MessageIter::new(&buf).flatten().next()\<close>: the first message that parses.\<close>

definition first_message :: "endian \<Rightarrow> bytes \<Rightarrow> (nl_msg_hdr \<times> bytes) option" where
  "first_message e buf =
     (case List.map_filter (case_sum (\<lambda>_. None) Some) (msgs_of e buf) of
        [] \<Rightarrow> None | f # _ \<Rightarrow> Some f)"

definition route_buffer :: "endian \<Rightarrow> bytes \<Rightarrow> dispatcher \<Rightarrow> dispatcher" where
  "route_buffer e buf d =
     (case first_message e buf of
        None \<Rightarrow> d
      | Some (header, _) \<Rightarrow>
          (let seq = nlmsg_seq header
           in if seq = 0 then fan_out_events buf (snd (fan_out_all buf d))
              else case dp_pending d seq of
                Some tx \<Rightarrow> push_frame tx buf d
              | None \<Rightarrow> d))"

definition fail_all :: "string \<Rightarrow> dispatcher \<Rightarrow> dispatcher" where
  "fail_all message d =
     d\<lparr>dp_fatal := Some message, dp_pending := Map.empty, dp_listeners := Map.empty\<rparr>"

definition take_fatal_error :: "dispatcher \<Rightarrow> nl_error" where
  "take_fatal_error d =
     Io (CustomIo OtherKind (case dp_fatal d of
       Some m \<Rightarrow> ''netlink dispatcher driver stopped: '' @ m
     | None \<Rightarrow> ''netlink dispatcher driver stopped before the response arrived''))"

definition ensure_driver :: "dispatcher \<Rightarrow> dispatcher" where
  "ensure_driver d =
     (if dp_driver_started d then d
      else d\<lparr>dp_driver_started := True, dp_driver_running := True\<rparr>)"

text \<open>\<open>shutdown\<close>, as the driver observes it: the task ends.\<close>

definition shutdown :: "dispatcher \<Rightarrow> dispatcher" where
  "shutdown d = d\<lparr>dp_driver_running := False\<rparr>"

text \<open>What the receiver of channel \<open>rx\<close> finds.\<close>

datatype channel_recv = FrameAt bytes | ClosedChannel | NothingYet

definition channel_poll :: "nat \<Rightarrow> dispatcher \<Rightarrow> channel_recv \<times> dispatcher" where
  "channel_poll rx d =
     (case dp_queues d rx of
        buf # q \<Rightarrow> (FrameAt buf, d\<lparr>dp_queues := (dp_queues d)(rx := q)\<rparr>)
      | [] \<Rightarrow> (if rx \<in> ran (dp_pending d) then NothingYet else ClosedChannel, d))"

section \<open>The driver\<close>

text \<open>
  One iteration of \<open>run_driver\<close>, for one result of \<open>recv_msg\<close>; the announcement of an overflow
  is made inside \<open>recv_msg\<close>.  \<open>to_text\<close> is the \<open>Display\<close> of errors.
\<close>

definition driver_recv :: "endian \<Rightarrow> (nl_error \<Rightarrow> string) \<Rightarrow> bytes nl_result \<Rightarrow> dispatcher \<Rightarrow> dispatcher" where
  "driver_recv e to_text res d =
     (if \<not> dp_driver_running d then d
      else case res of
        Inr buf \<Rightarrow> route_buffer e buf d
      | Inl err \<Rightarrow>
          (let d' = (if err = Io (OsError ENOBUFS) then emit_enobufs d else d)
           in if is_no_buffer_space err then d'
              else (fail_all (to_text err) d')\<lparr>dp_driver_running := False\<rparr>))"

text \<open>The actions of a run.\<close>

datatype action =
    Recv "bytes nl_result"
  | Register u32
  | RegisterMany "u32 list"
  | DropGuard "u32 list"
  | SubscribeMulticast u32
  | SubscribeEvents
  | DropListener u64
  | EnsureDriver
  | Shutdown

fun act :: "endian \<Rightarrow> (nl_error \<Rightarrow> string) \<Rightarrow> action \<Rightarrow> dispatcher \<Rightarrow> dispatcher" where
  "act e to_text (Recv res) d = driver_recv e to_text res d"
| "act e to_text (Register seq) d = snd (register seq d)"
| "act e to_text (RegisterMany ss) d = snd (register_many ss d)"
| "act e to_text (DropGuard ss) d = drop_guard ss d"
| "act e to_text (SubscribeMulticast g) d = subscribe_multicast g d"
| "act e to_text SubscribeEvents d = snd (subscribe_events d)"
| "act e to_text (DropListener i) d = deregister_event_listener i d"
| "act e to_text EnsureDriver d = ensure_driver d"
| "act e to_text Shutdown d = shutdown d"

definition acts :: "endian \<Rightarrow> (nl_error \<Rightarrow> string) \<Rightarrow> action list \<Rightarrow> dispatcher \<Rightarrow> dispatcher" where
  "acts e to_text as d = fold (act e to_text) as d"

section \<open>What a request receives\<close>

text \<open>The datagrams of a run that are routed to a sequence number.\<close>

definition routed_to :: "endian \<Rightarrow> u32 \<Rightarrow> bytes \<Rightarrow> bool" where
  "routed_to e seq buf =
     (case first_message e buf of None \<Rightarrow> False | Some (header, _) \<Rightarrow> nlmsg_seq header = seq)"

fun routed :: "endian \<Rightarrow> u32 \<Rightarrow> action list \<Rightarrow> bytes list" where
  "routed e seq [] = []"
| "routed e seq (Recv (Inr buf) # as) =
     (if routed_to e seq buf then buf # routed e seq as else routed e seq as)"
| "routed e seq (_ # as) = routed e seq as"

text \<open>
  Actions that leave a request alone: no fatal error, no shutdown, and no other registration
  or guard of its sequence number.
\<close>

fun leaves :: "u32 \<Rightarrow> action \<Rightarrow> bool" where
  "leaves seq (Recv (Inr buf)) = True"
| "leaves seq (Recv (Inl err)) = is_no_buffer_space err"
| "leaves seq (Register s) = (s \<noteq> seq)"
| "leaves seq (RegisterMany ss) = (seq \<notin> set ss)"
| "leaves seq (DropGuard ss) = (seq \<notin> set ss)"
| "leaves seq Shutdown = False"
| "leaves seq _ = True"

text \<open>
  The invariant of the registry: channel numbers in use are below the counter, and only the
  sequence numbers of one registration share a channel.
\<close>

definition registry_ok :: "dispatcher \<Rightarrow> bool" where
  "registry_ok d = (\<forall>rx \<in> ran (dp_pending d). rx < dp_next_channel d)"

definition sole_owner :: "u32 \<Rightarrow> nat \<Rightarrow> dispatcher \<Rightarrow> bool" where
  "sole_owner seq rx d =
     (dp_pending d seq = Some rx \<and> rx < dp_next_channel d \<and>
      (\<forall>s. dp_pending d s = Some rx \<longrightarrow> s = seq))"

lemmas dispatcher_defs = register_def register_many_def deregister_def push_frame_def
  route_buffer_def fan_out_all_def fan_out_events_def driver_recv_def emit_enobufs_def
  subscribe_multicast_def subscribe_events_def deregister_event_listener_def ensure_driver_def
  shutdown_def fail_all_def Let_def

lemma fold_upd: "fold (\<lambda>s p. p(s \<mapsto> (r::nat))) ss p k = (if k \<in> set ss then Some r else p k)"
  by (induction ss arbitrary: p) auto

lemma drop_guard_pending:
  "drop_guard ss d = d\<lparr>dp_pending := (\<lambda>s. if s \<in> set ss then None else dp_pending d s)\<rparr>"
proof (induction ss arbitrary: d)
  case (Cons s ss)
  have "drop_guard (s # ss) d = drop_guard ss (deregister s d)" by (simp add: drop_guard_def)
  then show ?case
    unfolding Cons by (simp add: deregister_def fun_upd_def cong: if_cong) (metis (mono_tags))
qed (simp add: drop_guard_def)

text \<open>Every action keeps the registry well-formed.\<close>

lemma registry_ok_act: "registry_ok d \<Longrightarrow> registry_ok (act e to_text a d)"
  by (cases a)
    (auto simp: registry_ok_def dispatcher_defs drop_guard_pending fold_upd ran_def less_Suc_eq
      split: if_splits sum.splits option.splits)

lemma registry_ok_acts: "registry_ok d \<Longrightarrow> registry_ok (acts e to_text as d)"
  unfolding acts_def by (induction as arbitrary: d) (auto intro: registry_ok_act)

lemma register_sole_owner:
  assumes "registry_ok d"
  shows "sole_owner seq (fst (register seq d)) (snd (register seq d))"
    "dp_queues (snd (register seq d)) (fst (register seq d)) = []"
  using assms by (auto simp: sole_owner_def register_def registry_ok_def Let_def ran_def)

lemma act_leaves:
  assumes "sole_owner seq rx d" "seq \<noteq> 0" "leaves seq a" "dp_driver_running d"
  shows "sole_owner seq rx (act e to_text a d) \<and> dp_driver_running (act e to_text a d) \<and>
    dp_queues (act e to_text a d) rx = dp_queues d rx @ routed e seq [a]"
  using assms
proof (cases a)
  case (Recv res)
  show ?thesis
  proof (cases res)
    case (Inr buf)
    then show ?thesis
      using assms Recv
      by (auto simp: sole_owner_def routed_to_def driver_recv_def route_buffer_def push_frame_def
          fan_out_all_def fan_out_events_def Let_def split: option.splits)
  qed (use assms Recv in \<open>auto simp: sole_owner_def dispatcher_defs\<close>)
qed (auto simp: sole_owner_def dispatcher_defs drop_guard_pending fold_upd split: if_splits)

lemma acts_leave:
  assumes "sole_owner seq rx d" "seq \<noteq> 0" "list_all (leaves seq) as" "dp_driver_running d"
  shows "sole_owner seq rx (acts e to_text as d) \<and> dp_driver_running (acts e to_text as d) \<and>
    dp_queues (acts e to_text as d) rx = dp_queues d rx @ routed e seq as"
  using assms
proof (induction as arbitrary: d)
  case (Cons a as)
  have step: "sole_owner seq rx (act e to_text a d) \<and> dp_driver_running (act e to_text a d) \<and>
    dp_queues (act e to_text a d) rx = dp_queues d rx @ routed e seq [a]"
    using act_leaves[of seq rx d a] Cons.prems by simp
  have "routed e seq (a # as) = routed e seq [a] @ routed e seq as"
    by (cases "(e, seq, a # as)" rule: routed.cases) auto
  then show ?case
    using Cons.IH[of "act e to_text a d"] Cons.prems step by (simp add: acts_def)
qed (simp add: acts_def)

section \<open>Dispatcher mode and mutex mode\<close>

text \<open>
  All datagrams of a run, as the mutex-mode loop would read them off the socket, and the
  kernel's habit the router relies on: the messages of one datagram answer one request.
\<close>

fun datagrams_in :: "action list \<Rightarrow> bytes list" where
  "datagrams_in [] = []"
| "datagrams_in (Recv (Inr buf) # as) = buf # datagrams_in as"
| "datagrams_in (_ # as) = datagrams_in as"

definition homogeneous :: "endian \<Rightarrow> bytes \<Rightarrow> bool" where
  "homogeneous e buf =
     list_all (case_sum (\<lambda>_. True) (\<lambda>(h, p). routed_to e (nlmsg_seq h) buf)) (msgs_of e buf)"

lemma routed_filter: "routed e seq as = filter (routed_to e seq) (datagrams_in as)"
  by (induction e seq as rule: routed.induct) auto

text \<open>A loop that passes over foreign datagrams sees only its own.\<close>

lemma recv_loop_filter:
  assumes "\<And>buf s. buf \<in> set bufs \<Longrightarrow> \<not> P buf \<Longrightarrow> step s buf = Continue s"
  shows "recv_loop step s (map Inr (filter P bufs)) = recv_loop step s (map Inr bufs)"
  using assms by (induction bufs arbitrary: s) (auto split: scan.splits)

definition all_foreign :: "u32 \<Rightarrow> (nl_msg_hdr \<times> bytes) nl_result list \<Rightarrow> bool" where
  "all_foreign seq fs = list_all (case_sum (\<lambda>_. True) (\<lambda>(h, p). nlmsg_seq h \<noteq> seq)) fs"

lemma scan_foreign:
  "all_foreign seq fs \<Longrightarrow> request_scan e se seq found fs = Continue found"
  "all_foreign seq fs \<Longrightarrow> ack_scan e se seq fs = Continue ()"
  "all_foreign seq fs \<Longrightarrow> dump_scan e se seq data k acc fs = Continue acc"
  by (induction fs arbitrary: k; auto simp: all_foreign_def Let_def split: sum.splits)+

lemma foreign_datagram:
  assumes "homogeneous e buf" "\<not> routed_to e seq buf"
  shows "all_foreign seq (msgs_of e buf)"
  using assms by (auto simp: homogeneous_def all_foreign_def list_all_iff split: sum.splits)

lemma steps_foreign:
  assumes "homogeneous e buf" "\<not> routed_to e seq buf"
  shows "request_step e se seq s buf = Continue s" "ack_step e se seq s buf = Continue s"
    "dump_step e se seq acc buf = Continue acc"
  using scan_foreign[OF foreign_datagram[OF assms]]
  by (simp_all add: request_step_def ack_step_def dump_step_def)

text \<open>
  What the two modes answer, the loop of the exclusive mode reading the socket itself: overflows
  included, which it returns as an error while the driver reads on.
\<close>

fun socket_in :: "action list \<Rightarrow> bytes nl_result list" where
  "socket_in [] = []"
| "socket_in (Recv res # as) = res # socket_in as"
| "socket_in (_ # as) = socket_in as"

definition modes_agree :: "('s \<Rightarrow> bytes \<Rightarrow> ('s, 'r) scan) \<Rightarrow> 's \<Rightarrow> bytes list \<Rightarrow> bytes nl_result list \<Rightarrow> bool" where
  "modes_agree step s mine all =
     (recv_loop step s (map Inr mine) = recv_loop step s (filter (\<lambda>res. \<not> isl res) all) \<and>
      (recv_loop step s all = recv_loop step s (map Inr mine) \<or>
       (\<exists>err. Inl err \<in> set all \<and> is_no_buffer_space err \<and> recv_loop step s all = Returned (Inl err))))"

lemma datagrams_socket: "map Inr (datagrams_in as) = filter (\<lambda>res. \<not> isl res) (socket_in as)"
  by (induction as rule: datagrams_in.induct) simp_all

lemma overflow_only: "list_all (leaves seq) as \<Longrightarrow> Inl err \<in> set (socket_in as) \<Longrightarrow> is_no_buffer_space err"
  by (induction as rule: datagrams_in.induct) auto

lemma recv_loop_errors:
  "recv_loop step s rs = recv_loop step s (filter (\<lambda>res. \<not> isl res) rs) \<or>
   (\<exists>err. Inl err \<in> set rs \<and> recv_loop step s rs = Returned (Inl err))"
proof (induction rs arbitrary: s)
  case (Cons res rs)
  show ?case
  proof (cases res)
    case (Inr buf)
    then show ?thesis using Cons.IH by (auto split: scan.split)
  qed auto
qed simp

lemma modes_agreeI:
  assumes "list_all (leaves seq) as" "\<And>buf s. buf \<in> set (datagrams_in as) \<Longrightarrow> \<not> P buf \<Longrightarrow> step s buf = Continue s"
  shows "modes_agree step s (filter P (datagrams_in as)) (socket_in as)"
  using recv_loop_errors[of step s "socket_in as"] overflow_only[OF assms(1)]
  by (auto simp: modes_agree_def recv_loop_filter[OF assms(2)] datagrams_socket)

text \<open>
  C6. The dispatcher preserves the meaning of a request.  While the driver runs, the request stays registered and
  every datagram of the kernel answers one request, whatever other requests, cancellations, subscriptions and
  overflows happen in between: on the datagrams in its channel, \<open>send_request\<close>, \<open>send_ack\<close> and \<open>send_dump\<close> answer
  exactly what the exclusive loop answers on all datagrams the socket delivered, and the answer of that loop on the
  socket itself differs only by the error of an overflow, which ends it and not the driver.
\<close>

theorem dispatcher_agrees_with_mutex:
  assumes "registry_ok d" "dp_driver_running d" "seq \<noteq> 0" "register seq d = (rx, d1)"
    "list_all (leaves seq) as" "list_all (homogeneous e) (datagrams_in as)"
  shows "let mine = dp_queues (acts e to_text as d1) rx; all = socket_in as
         in modes_agree (request_step e se seq) () mine all \<and> modes_agree (ack_step e se seq) () mine all \<and>
            modes_agree (dump_step e se seq) [] mine all"
proof -
  have "sole_owner seq rx d1" "dp_queues d1 rx = []" "dp_driver_running d1"
    using register_sole_owner[OF assms(1), of seq] assms(2,4) by (auto simp: register_def Let_def)
  then have queue: "dp_queues (acts e to_text as d1) rx = filter (routed_to e seq) (datagrams_in as)"
    using acts_leave[of seq rx d1 as e to_text] assms(3,5) by (simp add: routed_filter)
  have hom: "homogeneous e buf" if "buf \<in> set (datagrams_in as)" for buf
    using that assms(6) by (simp add: list_all_iff)
  show ?thesis
    unfolding queue Let_def
    by (intro conjI modes_agreeI[OF assms(5)]) (auto intro!: steps_foreign hom)
qed

theorem dispatcher_agrees_with_mutex_witness:
  "let d1 = snd (register 7 (ensure_driver dispatcher_new));
       as = [Recv (Inr (datagram LittleEndian [frame_at 16 0 0 [9]])), Register 8, Recv (Inl (Io (OsError ENOBUFS))),
             Recv (Inr (datagram LittleEndian [frame_at 2 0 7 (replicate 20 0)]))]
   in modes_agree (ack_step LittleEndian (\<lambda>_. []) 7) () (dp_queues (acts LittleEndian (\<lambda>_. []) as d1) 0) (socket_in as)"
proof -
  let ?d = "ensure_driver dispatcher_new"
  let ?b1 = "datagram LittleEndian [frame_at 16 0 0 [9]]"
  let ?b2 = "datagram LittleEndian [frame_at 2 0 7 (replicate 20 0)]"
  let ?as = "[Recv (Inr ?b1), Register 8, Recv (Inl (Io (OsError ENOBUFS))), Recv (Inr ?b2)]"
  have ms: "msgs_of LittleEndian ?b1 = [Inr (frame_at 16 0 0 [9])]"
    "msgs_of LittleEndian ?b2 = [Inr (frame_at 2 0 7 (replicate 20 0))]"
    by (simp_all add: msgs_of_datagram frame_ok_def frame_at_def)
  have hom: "homogeneous LittleEndian ?b1" "homogeneous LittleEndian ?b2"
    by (simp_all add: homogeneous_def ms routed_to_def first_message_def List.map_filter_def)
      (simp_all add: frame_at_def)
  have reg: "register 7 ?d = (0, snd (register 7 ?d))"
    by (simp add: register_def dispatcher_new_def ensure_driver_def Let_def)
  have ok: "registry_ok ?d" "dp_driver_running ?d"
    by (simp_all add: registry_ok_def ensure_driver_def dispatcher_new_def)
  have "list_all (leaves 7) ?as" "list_all (homogeneous LittleEndian) (datagrams_in ?as)"
    by (simp_all add: hom is_no_buffer_space_def)
  from dispatcher_agrees_with_mutex[OF ok _ reg this, where to_text = "\<lambda>_. []" and se = "\<lambda>_. []"]
  show ?thesis by (simp add: Let_def)
qed

section \<open>Overflow and failure\<close>

text \<open>
  An overflow is announced to every multicast subscriber, once each, and touches no
  request: the registry, the channels, the event listeners and the driver stay as they were.
\<close>

lemma driver_overflow:
  assumes "dp_driver_running d"
  shows "driver_recv e to_text (Inl (Io (OsError ENOBUFS))) d = emit_enobufs d"
  using assms by (simp add: driver_recv_def is_no_buffer_space_def Let_def)

theorem overflow_announced:
  assumes "dp_driver_running d"
  shows "driver_recv e to_text (Inl (Io (OsError ENOBUFS))) d =
    d\<lparr>dp_subscribers := map (\<lambda>(g, qs). (g, map (\<lambda>q. q @ [Resync_event ResyncStart]) qs)) (dp_subscribers d)\<rparr>"
  unfolding driver_overflow[OF assms] by (simp add: emit_enobufs_def broadcast_def)

theorem overflow_announced_witness:
  "dp_subscribers (driver_recv LittleEndian (\<lambda>_. []) (Inl (Io (OsError ENOBUFS)))
     (subscribe_multicast 1 (ensure_driver dispatcher_new))) =
   [(1, [[Resync_event ResyncStart]])]"
  by (subst overflow_announced)
    (simp_all add: subscribe_multicast_def ensure_driver_def dispatcher_new_def)

lemma driver_fatal:
  assumes "dp_driver_running d" "\<not> is_no_buffer_space err" "err \<noteq> Io (OsError ENOBUFS)"
  shows "driver_recv e to_text (Inl err) d = (fail_all (to_text err) d)\<lparr>dp_driver_running := False\<rparr>"
  using assms by (simp add: driver_recv_def)

text \<open>
  C16. A fatal receive error reaches everyone who waits: afterwards every channel and every
  event listener is closed once its queue is empty, and the error they report carries the
  driver's message.
\<close>

theorem fatal_error_reaches_waiters:
  assumes "dp_driver_running d" "\<not> is_no_buffer_space err"
    "driver_recv e to_text (Inl err) d = d'"
  shows "(dp_queues d' rx = [] \<longrightarrow> fst (channel_poll rx d') = ClosedChannel) \<and>
    dp_listeners d' = Map.empty \<and>
    take_fatal_error d' = Io (CustomIo OtherKind (''netlink dispatcher driver stopped: '' @ to_text err))"
proof -
  have "err \<noteq> Io (OsError ENOBUFS)"
    using assms(2) by (auto simp: is_no_buffer_space_def)
  note d' = driver_fatal[OF assms(1,2) this, of e to_text, unfolded assms(3)]
  show ?thesis
    unfolding d' by (simp_all add: channel_poll_def fail_all_def take_fatal_error_def)
qed

theorem fatal_error_reaches_waiters_witness:
  "fst (channel_poll 0 (driver_recv LittleEndian (\<lambda>_. ''EBADF'') (Inl (Io (OsError 9)))
     (snd (register 7 (ensure_driver dispatcher_new))))) = ClosedChannel"
proof (rule fatal_error_reaches_waiters[THEN conjunct1, rule_format, OF _ _ refl])
  show "dp_driver_running (snd (register 7 (ensure_driver dispatcher_new)))"
    by (simp add: register_def ensure_driver_def dispatcher_new_def Let_def)
  show "\<not> is_no_buffer_space (Io (OsError 9))" by (simp add: is_no_buffer_space_def)
  then show "dp_queues (driver_recv LittleEndian (\<lambda>_. ''EBADF'') (Inl (Io (OsError 9)))
     (snd (register 7 (ensure_driver dispatcher_new)))) 0 = []"
    by (simp add: register_def ensure_driver_def dispatcher_new_def driver_recv_def fail_all_def Let_def)
qed

fun keeps_request :: "u32 \<Rightarrow> action \<Rightarrow> bool" where
  "keeps_request seq (Recv res) = True"
| "keeps_request seq Shutdown = True"
| "keeps_request seq a = leaves seq a"

definition dead_wait :: "u32 \<Rightarrow> nat \<Rightarrow> dispatcher \<Rightarrow> bool" where
  "dead_wait seq rx d =
     (\<not> dp_driver_running d \<and> dp_driver_started d \<and> sole_owner seq rx d \<and> dp_queues d rx = [])"

lemma dead_act:
  assumes "dead_wait seq rx d" "keeps_request seq a"
  shows "dead_wait seq rx (act e to_text a d) \<and> dp_fatal (act e to_text a d) = dp_fatal d"
  using assms
  by (cases a) (auto simp: dead_wait_def sole_owner_def dispatcher_defs drop_guard_pending fold_upd
      split: if_splits)

lemma dead_acts:
  assumes "dead_wait seq rx d" "list_all (keeps_request seq) as"
  shows "dead_wait seq rx (acts e to_text as d) \<and> dp_fatal (acts e to_text as d) = dp_fatal d"
  using assms
proof (induction as arbitrary: d)
  case (Cons a as)
  then show ?case using dead_act[of seq rx d a e to_text] by (simp add: acts_def)
qed (simp add: acts_def)

text \<open>
  A request made after the driver died waits for nothing: \<open>ensure_driver\<close> starts no
  second driver, so whatever happens later its channel neither holds a datagram nor closes,
  although the fatal error is stored; only the operation timeout ends it.
\<close>

theorem request_after_death_waits:
  assumes "registry_ok d" "dp_driver_started d" "\<not> dp_driver_running d" "dp_fatal d = Some m"
    "register seq (ensure_driver d) = (rx, d1)" "list_all (keeps_request seq) as"
  shows "fst (channel_poll rx (acts e to_text as d1)) = NothingYet \<and>
    dp_fatal (acts e to_text as d1) = Some m"
proof -
  have "ensure_driver d = d" using assms(2) by (simp add: ensure_driver_def)
  then have "dead_wait seq rx d1" "dp_fatal d1 = Some m"
    using register_sole_owner[OF assms(1), of seq] assms(2-5)
    by (auto simp: dead_wait_def register_def Let_def)
  then show ?thesis
    using dead_acts[of seq rx d1 as e to_text] assms(6)
    by (auto simp: dead_wait_def sole_owner_def channel_poll_def ran_def)
qed

theorem request_after_death_waits_witness:
  "let d = driver_recv LittleEndian (\<lambda>_. ''EBADF'') (Inl (Io (OsError 9))) (ensure_driver dispatcher_new)
   in fst (channel_poll 0 (acts LittleEndian (\<lambda>_. []) [EnsureDriver, Recv (Inr [])]
        (snd (register 7 (ensure_driver d))))) = NothingYet"
  unfolding Let_def
proof (rule request_after_death_waits[THEN conjunct1])
  let ?d = "driver_recv LittleEndian (\<lambda>_. ''EBADF'') (Inl (Io (OsError 9))) (ensure_driver dispatcher_new)"
  show "register 7 (ensure_driver ?d) = (0, snd (register 7 (ensure_driver ?d)))"
    "registry_ok ?d" "dp_driver_started ?d" "\<not> dp_driver_running ?d" "dp_fatal ?d = Some ''EBADF''"
    by (simp_all add: driver_recv_def fail_all_def is_no_buffer_space_def Let_def ensure_driver_def
        dispatcher_new_def registry_ok_def register_def)
qed simp

end
