(* ===== verification/Resync_Ext.thy ===== *)
theory Resync_Ext
  imports Resync
begin

text \<open>
  The adapters of \<open>netlink/resync_ext.rs\<close> on resync streams: \<open>PredicateFilter\<close>, which drops
  an item whose key is the one of the last item it let through, and \<open>MapEvent\<close>.  Their
  inner stream is a script of items, each after a number of waits.
\<close>

section \<open>The filter\<close>

record ('t, 'k) predicate_filter =
  pf_inner :: "'t resynced_event nl_result delayed list"
  pf_last_key :: "'k option"

fun is_marker :: "'t resynced_event \<Rightarrow> bool" where
  "is_marker (Marker _) = True"
| "is_marker _ = False"

definition filter_new :: "'t resynced_event nl_result delayed list \<Rightarrow> ('t, 'k) predicate_filter" where
  "filter_new inner = \<lparr>pf_inner = inner, pf_last_key = None\<rparr>"

function filter_poll_next ::
  "('t resynced_event \<Rightarrow> 'k) \<Rightarrow> ('t, 'k) predicate_filter \<Rightarrow>
     't resynced_event nl_result option poll \<times> ('t, 'k) predicate_filter" where
  "filter_poll_next key_fn this =
     (case inner_poll (pf_inner this) of
        (Pending, inner) \<Rightarrow> (Pending, this\<lparr>pf_inner := inner\<rparr>)
      | (Ready None, inner) \<Rightarrow> (Ready None, this\<lparr>pf_inner := inner\<rparr>)
      | (Ready (Some (Inl e)), inner) \<Rightarrow> (Ready (Some (Inl e)), this\<lparr>pf_inner := inner\<rparr>)
      | (Ready (Some (Inr item)), inner) \<Rightarrow>
          if is_marker item then (Ready (Some (Inr item)), this\<lparr>pf_inner := inner\<rparr>)
          else let key = key_fn item in
            if pf_last_key this = Some key then
              filter_poll_next key_fn (this\<lparr>pf_inner := inner\<rparr>)
            else (Ready (Some (Inr item)), this\<lparr>pf_inner := inner, pf_last_key := Some key\<rparr>))"
  by pat_completeness auto
termination
proof (relation "measure (\<lambda>(_, this). length (pf_inner this))", simp, goal_cases)
  case (1 key_fn this x inner)
  then show ?case by (cases "pf_inner this" rule: inner_poll.cases) auto
qed

declare filter_poll_next.simps [simp del]

text \<open>The specification, on the items alone.\<close>

fun filter_trace :: "('t resynced_event \<Rightarrow> 'k) \<Rightarrow> 'k option \<Rightarrow>
    't resynced_event nl_result list \<Rightarrow> 't resynced_event nl_result list" where
  "filter_trace key_fn prev [] = []"
| "filter_trace key_fn prev (Inl e # rs) = Inl e # filter_trace key_fn prev rs"
| "filter_trace key_fn prev (Inr item # rs) =
     (if is_marker item then Inr item # filter_trace key_fn prev rs
      else if prev = Some (key_fn item) then filter_trace key_fn prev rs
      else Inr item # filter_trace key_fn (Some (key_fn item)) rs)"

abbreviation filter_rest ::
  "('t resynced_event \<Rightarrow> 'k) \<Rightarrow> ('t, 'k) predicate_filter \<Rightarrow> 't resynced_event nl_result list" where
  "filter_rest key_fn st \<equiv> filter_trace key_fn (pf_last_key st) (map snd (pf_inner st))"

abbreviation filter_left :: "('t, 'k) predicate_filter \<Rightarrow> nat" where
  "filter_left st \<equiv> script_left (pf_inner st)"

lemma filter_step: "poll_step (filter_rest key_fn) filter_left st (filter_poll_next key_fn st)"
proof (induction key_fn st rule: filter_poll_next.induct)
  case (1 key_fn this)
  show ?case
  proof (cases "pf_inner this" rule: inner_poll.cases)
    case (2 r xs)
    show ?thesis
    proof (cases "\<exists>item. r = Inr item \<and> \<not> is_marker item \<and> pf_last_key this = Some (key_fn item)")
      case True
      then obtain item where item: "r = Inr item" "\<not> is_marker item"
        "pf_last_key this = Some (key_fn item)" by blast
      let ?st = "this\<lparr>pf_inner := xs\<rparr>"
      have eq: "filter_poll_next key_fn this = filter_poll_next key_fn ?st"
        using 2 item by (subst filter_poll_next.simps) simp
      have "poll_step (filter_rest key_fn) filter_left ?st (filter_poll_next key_fn ?st)"
        using 2 item by (intro 1) auto
      then show ?thesis
        unfolding eq by (rule poll_step_same) (use 2 item in auto)
    next
      case False
      then show ?thesis using 2
        by (subst filter_poll_next.simps) (cases r; auto simp: Let_def)
    qed
  qed (subst filter_poll_next.simps, simp)+
qed

interpretation predicate_filter: poll_stream
  "filter_poll_next key_fn" "filter_rest key_fn" filter_left for key_fn
proof
  show "poll_step (filter_rest key_fn) filter_left st (filter_poll_next key_fn st)" for st
    by (rule filter_step)
  show "filter_rest key_fn st = []" if "filter_left st = 0" for st
    using that by (cases "pf_inner st") auto
qed

text \<open>
  The filter refines its specification: polled often enough it hands out the markers
  and errors in their places and of the payload items those whose key differs from the key
  of the last payload item handed out.
\<close>

theorem predicate_filter_refines:
  assumes "script_left inner \<le> n"
  shows "drive n (filter_poll_next key_fn) (filter_new inner) =
    filter_trace key_fn None (map snd inner)"
  using predicate_filter.drive_rest[of "filter_new inner" n key_fn] assms
  by (simp add: filter_new_def)

theorem predicate_filter_refines_witness:
  "drive 5 (filter_poll_next id)
     (filter_new [(0, Inr (Event (1::nat))), (1, Inr (Event 1)), (0, Inr (Event 2))]) =
   [Inr (Event 1), Inr (Event 2)]"
  using predicate_filter_refines[of "[(0, Inr (Event (1::nat))), (1, Inr (Event 1)),
      (0, Inr (Event 2))]" 5 id]
  by simp

section \<open>What the filter does to a resync window\<close>

text \<open>
  The filter neither adds nor removes a marker or an error, so a consumer of the filtered
  stream can still rely on the bracket discipline.
\<close>

lemma bracketed_filter: "bracketed w rs \<Longrightarrow> bracketed w (filter_trace key_fn prev rs)"
  by (induction w rs arbitrary: prev rule: bracketed.induct) auto

text \<open>The keys of the payload items.\<close>

fun payload_keys :: "('t resynced_event \<Rightarrow> 'k) \<Rightarrow> 't resynced_event nl_result list \<Rightarrow> 'k list" where
  "payload_keys key_fn [] = []"
| "payload_keys key_fn (Inl e # rs) = payload_keys key_fn rs"
| "payload_keys key_fn (Inr item # rs) =
     (if is_marker item then payload_keys key_fn rs else key_fn item # payload_keys key_fn rs)"

lemma keys_filter_Some:
  "payload_keys key_fn (filter_trace key_fn (Some k) rs) =
   tl (remdups_adj (k # payload_keys key_fn rs))"
proof (induction rs arbitrary: k)
  case (Cons r rs)
  then show ?case
    by (cases r; cases "payload_keys key_fn rs") (auto simp: remdups_adj_Cons split: list.splits)
qed simp

lemma keys_filter_None:
  "payload_keys key_fn (filter_trace key_fn None rs) = remdups_adj (payload_keys key_fn rs)"
proof (induction rs)
  case (Cons r rs)
  then show ?case
    by (cases r) (auto simp: keys_filter_Some remdups_adj_Cons split: list.splits)
qed simp

fun is_signal :: "'t resynced_event nl_result \<Rightarrow> bool" where
  "is_signal (Inl e) = True"
| "is_signal (Inr item) = is_marker item"

lemma signals_filter: "filter is_signal (filter_trace key_fn prev rs) = filter is_signal rs"
  by (induction key_fn prev rs rule: filter_trace.induct) auto

text \<open>
  What the filter keeps: the keys of the payload items it hands out are the keys of
  its input with runs of equal keys collapsed, every marker and error survives in order, and
  a bracketed input stays bracketed.
\<close>

theorem predicate_filter_keeps:
  "payload_keys key_fn (filter_trace key_fn None rs) = remdups_adj (payload_keys key_fn rs) \<and>
   filter is_signal (filter_trace key_fn None rs) = filter is_signal rs \<and>
   (bracketed w rs \<longrightarrow> bracketed w (filter_trace key_fn None rs))"
  by (simp add: keys_filter_None signals_filter bracketed_filter)

theorem predicate_filter_keeps_witness:
  "bracketed False (filter_trace id None
     [Inr (Event (1::nat)), Inr (Marker ResyncStart), Inr (Resynced 2), Inr (Marker ResyncEnd)])"
  by (rule predicate_filter_keeps[THEN conjunct2, THEN conjunct2, rule_format]) simp

section \<open>The map adapter\<close>

fun map_item :: "('t \<Rightarrow> 'u) \<Rightarrow> 't resynced_event \<Rightarrow> 'u resynced_event" where
  "map_item map_fn (Event t) = Event (map_fn t)"
| "map_item map_fn (Resynced t) = Resynced (map_fn t)"
| "map_item map_fn (Marker k) = Marker k"

definition map_poll_next :: "('t \<Rightarrow> 'u) \<Rightarrow> 't resynced_event nl_result delayed list \<Rightarrow>
    'u resynced_event nl_result option poll \<times> 't resynced_event nl_result delayed list" where
  "map_poll_next map_fn inner =
     (case inner_poll inner of
        (Pending, inner) \<Rightarrow> (Pending, inner)
      | (Ready None, inner) \<Rightarrow> (Ready None, inner)
      | (Ready (Some (Inl e)), inner) \<Rightarrow> (Ready (Some (Inl e)), inner)
      | (Ready (Some (Inr item)), inner) \<Rightarrow> (Ready (Some (Inr (map_item map_fn item))), inner))"

interpretation map_event: poll_stream
  "map_poll_next f" "\<lambda>inner. map (map_sum id (map_item f) \<circ> snd) inner" script_left for f
proof
  show "poll_step (\<lambda>inner. map (map_sum id (map_item f) \<circ> snd) inner) script_left st
    (map_poll_next f st)" for st
    by (cases st rule: inner_poll.cases) (auto simp: map_poll_next_def split: sum.splits)
  show "map (map_sum id (map_item f) \<circ> snd) st = []" if "script_left st = 0"
    for st :: "'a resynced_event nl_result delayed list"
    using that by (cases st) auto
qed

lemma map_event_polls:
  "drive n (map_poll_next f) inner = map (map_sum id (map_item f)) (drive n inner_poll inner)"
proof (induction n arbitrary: inner)
  case (Suc n)
  then show ?case
    by (cases inner rule: inner_poll.cases) (auto simp: map_poll_next_def split: sum.splits)
qed simp

lemma bracketed_map: "bracketed w (map (map_sum id (map_item f)) rs) = bracketed w rs"
  by (induction w rs rule: bracketed.induct) auto

end
