(* ===== verification/Reflector.thy ===== *)
theory Reflector
  imports Resync_Ext "HOL-Library.Mapping"
begin

text \<open>
  The reflector (\<open>netlink/reflector.rs\<close>): a store kept up to date from a resync stream.  The
  shared \<open>HashMap\<close> behind its lock is a \<open>mapping\<close>; every access of the source holds the lock
  for one map operation, so an access is one step.
\<close>

section \<open>The store\<close>

datatype 'k store_op = Upsert 'k | Remove 'k | Ignore

type_synonym ('k, 'v) store = "('k, 'v) mapping"

definition store_new :: "('k, 'v) store" where
  "store_new = Mapping.empty"

definition store_len :: "('k, 'v) store \<Rightarrow> nat" where
  "store_len m = Mapping.size m"

definition store_is_empty :: "('k, 'v) store \<Rightarrow> bool" where
  "store_is_empty m = Mapping.is_empty m"

definition store_contains_key :: "('k, 'v) store \<Rightarrow> 'k \<Rightarrow> bool" where
  "store_contains_key m key = (Mapping.lookup m key \<noteq> None)"

definition store_get :: "('k, 'v) store \<Rightarrow> 'k \<Rightarrow> 'v option" where
  "store_get m key = Mapping.lookup m key"

fun store_apply :: "'k store_op \<Rightarrow> 'v \<Rightarrow> ('k, 'v) store \<Rightarrow> ('k, 'v) store" where
  "store_apply (Upsert k) v m = Mapping.update k v m"
| "store_apply (Remove k) v m = Mapping.delete k m"
| "store_apply Ignore v m = m"

text \<open>
  The contract of the backing map, and what a run of operations leaves under a key: the
  value of the last upsert, unless a removal came after it.
\<close>

fun latest :: "('v \<Rightarrow> 'k store_op) \<Rightarrow> 'k \<Rightarrow> 'v list \<Rightarrow> 'v option \<Rightarrow> 'v option" where
  "latest op k [] old = old"
| "latest op k (v # vs) old =
     latest op k vs
       (case op v of
          Upsert k' \<Rightarrow> if k' = k then Some v else old
        | Remove k' \<Rightarrow> if k' = k then None else old
        | Ignore \<Rightarrow> old)"

locale keyed_store =
  fixes get :: "'m \<Rightarrow> 'k \<Rightarrow> 'v option"
    and app :: "'k store_op \<Rightarrow> 'v \<Rightarrow> 'm \<Rightarrow> 'm"
  assumes get_upsert: "get (app (Upsert k) v m) k' = (if k' = k then Some v else get m k')"
    and get_remove: "get (app (Remove k) v m) k' = (if k' = k then None else get m k')"
    and get_ignore: "get (app Ignore v m) k' = get m k'"
begin

lemma get_fold: "get (fold (\<lambda>v. app (op v) v) vs m) k = latest op k vs (get m k)"
  by (induction vs arbitrary: m)
    (auto simp: get_upsert get_remove get_ignore split: store_op.splits)

lemma get_fold_last:
  assumes "op v = Upsert k" "\<forall>v' \<in> set vs. op v' \<noteq> Upsert k \<and> op v' \<noteq> Remove k"
  shows "get (fold (\<lambda>v. app (op v) v) (us @ v # vs) m) k = Some v"
proof -
  have "latest op k vs old = old" for old
    using assms(2) by (induction vs arbitrary: old) (auto split: store_op.splits)
  moreover have "latest op k (us @ v # vs) old = latest op k vs (Some v)" for old
    using assms(1) by (induction us arbitrary: old) auto
  ultimately show ?thesis by (simp only: get_fold)
qed

end

interpretation store: keyed_store store_get store_apply
  by unfold_locales (auto simp: store_get_def lookup_update' lookup_delete split: if_splits)

lemma store_get_new [simp]: "store_get store_new k = None"
  by (simp add: store_get_def store_new_def)

section \<open>The adapter\<close>

record ('v, 'k) reflect =
  rf_inner :: "'v resynced_event nl_result delayed list"
  rf_store :: "('k, 'v) store"
  rf_staging :: "('k, 'v) store option"

definition reflect_new ::
  "'v resynced_event nl_result delayed list \<Rightarrow> ('k, 'v) store \<Rightarrow> ('v, 'k) reflect" where
  "reflect_new inner store = \<lparr>rf_inner = inner, rf_store = store, rf_staging = None\<rparr>"

text \<open>Inside a window only upserts build the snapshot.\<close>

fun stage :: "'k store_op \<Rightarrow> 'v \<Rightarrow> ('k, 'v) store \<Rightarrow> ('k, 'v) store" where
  "stage (Upsert k) v m = Mapping.update k v m"
| "stage _ v m = m"

definition reflect_payload :: "('v \<Rightarrow> 'k store_op) \<Rightarrow> 'v \<Rightarrow> ('v, 'k) reflect \<Rightarrow> ('v, 'k) reflect" where
  "reflect_payload op v this =
     (case rf_staging this of
        Some staged \<Rightarrow> this\<lparr>rf_staging := Some (stage (op v) v staged)\<rparr>
      | None \<Rightarrow> this\<lparr>rf_store := store_apply (op v) v (rf_store this)\<rparr>)"

fun reflect_item :: "('v \<Rightarrow> 'k store_op) \<Rightarrow> 'v resynced_event \<Rightarrow> ('v, 'k) reflect \<Rightarrow>
    ('v, 'k) reflect" where
  "reflect_item op (Marker ResyncStart) this = this\<lparr>rf_staging := Some Mapping.empty\<rparr>"
| "reflect_item op (Marker ResyncEnd) this =
     (case rf_staging this of
        Some next_map \<Rightarrow> this\<lparr>rf_staging := None, rf_store := next_map\<rparr>
      | None \<Rightarrow> this)"
| "reflect_item op (Event v) this = reflect_payload op v this"
| "reflect_item op (Resynced v) this = reflect_payload op v this"

definition reflect_poll_next :: "('v \<Rightarrow> 'k store_op) \<Rightarrow> ('v, 'k) reflect \<Rightarrow>
    'v resynced_event nl_result option poll \<times> ('v, 'k) reflect" where
  "reflect_poll_next op this =
     (case inner_poll (rf_inner this) of
        (Pending, inner) \<Rightarrow> (Pending, this\<lparr>rf_inner := inner\<rparr>)
      | (Ready None, inner) \<Rightarrow> (Ready None, this\<lparr>rf_inner := inner\<rparr>)
      | (Ready (Some (Inl e)), inner) \<Rightarrow> (Ready (Some (Inl e)), this\<lparr>rf_inner := inner\<rparr>)
      | (Ready (Some (Inr item)), inner) \<Rightarrow>
          (Ready (Some (Inr item)), reflect_item op item (this\<lparr>rf_inner := inner\<rparr>)))"

section \<open>Passing through\<close>

lemma reflect_item_inner [simp]: "rf_inner (reflect_item op item this) = rf_inner this"
  by (cases "(op, item, this)" rule: reflect_item.cases)
    (auto simp: reflect_payload_def split: option.splits)

interpretation reflect: poll_stream
  "reflect_poll_next op" "\<lambda>st. map snd (rf_inner st)" "\<lambda>st. script_left (rf_inner st)" for op
proof
  show "poll_step (\<lambda>st. map snd (rf_inner st)) (\<lambda>st. script_left (rf_inner st)) st
    (reflect_poll_next op st)" for st
    by (cases "rf_inner st" rule: inner_poll.cases)
      (auto simp: reflect_poll_next_def split: sum.splits)
  show "map snd (rf_inner st) = []" if "script_left (rf_inner st) = 0" for st
    using that by (cases "rf_inner st") auto
qed

lemma reflect_passes_polls:
  "drive n (reflect_poll_next op) st = drive n inner_poll (rf_inner st)"
proof (induction n arbitrary: st)
  case (Suc n)
  then show ?case
    by (cases "rf_inner st" rule: inner_poll.cases)
      (auto simp: reflect_poll_next_def split: sum.splits)
qed simp

text \<open>The store is a function of the items handed out.\<close>

fun reflect_result :: "('v \<Rightarrow> 'k store_op) \<Rightarrow> 'v resynced_event nl_result \<Rightarrow> ('v, 'k) reflect \<Rightarrow>
    ('v, 'k) reflect" where
  "reflect_result op (Inl e) this = this"
| "reflect_result op (Inr item) this = reflect_item op item this"

abbreviation view :: "('v, 'k) reflect \<Rightarrow> ('k, 'v) store \<times> ('k, 'v) store option" where
  "view st \<equiv> (rf_store st, rf_staging st)"

lemma view_reflect_item:
  assumes "view st = view st'"
  shows "view (reflect_item op item st) = view (reflect_item op item st')"
  using assms
  by (cases "(op, item, st)" rule: reflect_item.cases)
    (auto simp: reflect_payload_def split: option.splits)

lemma view_reflect_result:
  assumes "view st = view st'"
  shows "view (reflect_result op r st) = view (reflect_result op r st')"
proof (cases r)
  case (Inr item)
  then show ?thesis using view_reflect_item[OF assms, of op item] by simp
qed (use assms in simp)

lemma view_fold:
  "view st = view st' \<Longrightarrow> view (fold (reflect_result op) rs st) = view (fold (reflect_result op) rs st')"
proof (induction rs arbitrary: st st')
  case (Cons r rs)
  show ?case
    using Cons.IH[OF view_reflect_result[OF Cons.prems, of op r]] by simp
qed simp

lemma after_polls_view:
  "view (after_polls n (reflect_poll_next op) st) =
   view (fold (reflect_result op) (drive n inner_poll (rf_inner st)) st)"
proof (induction n arbitrary: st)
  case (Suc n)
  show ?case
  proof (cases "rf_inner st" rule: inner_poll.cases)
    case 1
    then show ?thesis by (simp add: reflect_poll_next_def)
  next
    case (3 k r xs)
    then show ?thesis
      using Suc[of "st\<lparr>rf_inner := (k, r) # xs\<rparr>"]
        view_fold[of "st\<lparr>rf_inner := (k, r) # xs\<rparr>" st op "drive n inner_poll ((k, r) # xs)"]
      by (simp add: reflect_poll_next_def)
  next
    case (2 r xs)
    let ?st = "st\<lparr>rf_inner := xs\<rparr>"
    have "view (reflect_result op r ?st) = view (reflect_result op r st)"
      by (rule view_reflect_result) simp
    from view_fold[OF this, of op "drive n inner_poll xs"] Suc[of "reflect_result op r ?st"]
    show ?thesis
      using 2 by (cases r) (simp_all add: reflect_poll_next_def)
  qed
qed simp

section \<open>The store mirrors the kernel\<close>

text \<open>
  The specification, on the raw events: live events are applied one by one, and a successful
  snapshot replaces everything.  \<open>staged\<close> is the store a snapshot denotes.
\<close>

definition staged :: "('v \<Rightarrow> 'k store_op) \<Rightarrow> 'v list \<Rightarrow> ('k, 'v) store" where
  "staged op items = fold (\<lambda>v. stage (op v) v) items Mapping.empty"

fun mirror :: "('v \<Rightarrow> 'k store_op) \<Rightarrow> (nat \<Rightarrow> 'v list nl_result delayed) \<Rightarrow> nat \<Rightarrow> ('k, 'v) store \<Rightarrow>
    'v nl_result list \<Rightarrow> ('k, 'v) store" where
  "mirror op resync c m [] = m"
| "mirror op resync c m (Inr v # rs) = mirror op resync c (store_apply (op v) v m) rs"
| "mirror op resync c m (Inl e # rs) =
     (if is_no_buffer_space e then
        (case snd (resync c) of
           Inl _ \<Rightarrow> m
         | Inr items \<Rightarrow> mirror op resync (Suc c) (staged op items) rs)
      else m)"

lemma fold_staging:
  assumes "rf_staging st = Some m"
  shows "fold (reflect_result op) (map (Inr \<circ> Resynced) items) st =
    st\<lparr>rf_staging := Some (fold (\<lambda>v. stage (op v) v) items m)\<rparr>"
  using assms
proof (induction items arbitrary: st m)
  case (Cons v items)
  then show ?case by (simp add: reflect_payload_def)
qed simp

lemma fold_mirror:
  assumes "rf_staging st = None"
  shows "view (fold (reflect_result op) (resync_trace resync c rs) st) =
    (mirror op resync c (rf_store st) rs, None)"
  using assms
proof (induction resync c rs arbitrary: st rule: resync_trace.induct)
  case (2 resync c t rs)
  then show ?case by (simp add: reflect_payload_def)
next
  case (3 resync c e rs)
  show ?case
  proof (cases "is_no_buffer_space e")
    case True
    show ?thesis
    proof (cases "snd (resync c)")
      case (Inr items)
      then show ?thesis
        using 3(1)[OF True Inr, of "st\<lparr>rf_staging := None, rf_store := staged op items\<rparr>"] True
        by (simp add: fold_staging[where m = Mapping.empty] staged_def)
    qed (use True 3 in simp)
  qed (use 3 in simp)
qed simp

lemma reflect_mirrors_trace:
  assumes "script_left inner \<le> n" "map snd inner = resync_trace resync 0 rs"
  shows "view (after_polls n (reflect_poll_next op) (reflect_new inner m)) =
    (mirror op resync 0 m rs, None)"
  using script.drive_rest[of inner n] assms
  by (simp add: after_polls_view reflect_new_def fold_mirror)

text \<open>
  C10. The reflector over a resync stream: once all its items are consumed the store is the
  one of the specification (live events applied in order, each successful snapshot replacing
  the whole store) and no window is open.
\<close>

theorem reflector_mirrors:
  assumes "script_left inner \<le> n" "map snd inner = resync_trace resync 0 rs"
  shows "rf_store (after_polls n (reflect_poll_next op) (reflect_new inner m)) =
      mirror op resync 0 m rs \<and>
    rf_staging (after_polls n (reflect_poll_next op) (reflect_new inner m)) = None"
  using reflect_mirrors_trace[OF assms, of op m] by simp_all

text \<open>A store that keeps the value of an event under the event itself.\<close>

definition keep_self :: "nat \<Rightarrow> nat store_op" where
  "keep_self v = Upsert v"

theorem reflector_mirrors_witness:
  "rf_store (after_polls 6 (reflect_poll_next keep_self)
      (reflect_new [(0, Inr (Event 1)), (1, Inr (Marker ResyncStart)), (0, Inr (Resynced 7)),
        (0, Inr (Marker ResyncEnd))] store_new)) =
   Mapping.update 7 7 Mapping.empty"
  by (subst reflector_mirrors[where resync = "\<lambda>_. (0, Inr [7])"
        and rs = "[Inr 1, Inl (Io (OsError 105))]", THEN conjunct1])
    (simp_all add: is_no_buffer_space_def staged_def keep_self_def)

text \<open>
  Between a start marker and its end marker no item touches the store, so a reader sees the
  old state or the whole new one.
\<close>

lemma open_window_keeps_store:
  assumes "rf_staging st \<noteq> None" "Inr (Marker ResyncEnd) \<notin> set rs"
  shows "rf_store (fold (reflect_result op) rs st) = rf_store st \<and>
    rf_staging (fold (reflect_result op) rs st) \<noteq> None"
  using assms
proof (induction rs arbitrary: st)
  case (Cons r rs)
  have "rf_store (reflect_result op r st) = rf_store st \<and> rf_staging (reflect_result op r st) \<noteq> None"
    using Cons.prems
    by (cases "(op, r, st)" rule: reflect_result.cases;
        cases "(op, projr r, st)" rule: reflect_item.cases)
      (auto simp: reflect_payload_def split: option.splits)
  then show ?case using Cons by simp
qed simp

text \<open>
  The swap is atomic: whatever was polled before, from the start marker on and as long
  as the end marker has not been handed out, every poll leaves the store as it was at the
  start marker.
\<close>

theorem reflector_swap_atomic:
  assumes "Inr (Marker ResyncEnd) \<notin> set (drive n inner_poll inner)"
    "rf_inner st = (0, Inr (Marker ResyncStart)) # inner"
  shows "rf_store (after_polls (Suc n) (reflect_poll_next op) st) = rf_store st"
proof -
  let ?st = "reflect_item op (Marker ResyncStart) st"
  have "view (after_polls (Suc n) (reflect_poll_next op) st) =
    view (fold (reflect_result op) (drive n inner_poll inner) ?st)"
    unfolding after_polls_view using assms(2) by simp
  then show ?thesis
    using open_window_keeps_store[of ?st "drive n inner_poll inner" op] assms(1) by simp
qed

theorem reflector_swap_atomic_witness:
  "rf_store (after_polls 3 (reflect_poll_next keep_self)
     (reflect_new [(0, Inr (Marker ResyncStart)), (0, Inr (Resynced 7)), (0, Inr (Resynced 8))]
       store_new)) = store_new"
  using reflector_swap_atomic[of 2 "[(0, Inr (Resynced 7)), (0, Inr (Resynced 8))]"
      "reflect_new [(0, Inr (Marker ResyncStart)), (0, Inr (Resynced 7)), (0, Inr (Resynced 8))]
       store_new" keep_self]
  by (simp add: reflect_new_def numeral_eq_Suc)

text \<open>
  The two adapters do not compose: with the filter between a resync stream and the
  reflector, an object whose last live event has the key of its snapshot item is in the
  snapshot and not in the store after the window.
\<close>

theorem filtered_reflector_loses_object:
  assumes "is_no_buffer_space e" "snd (resync 0) = Inr [v]" "op v = Upsert k"
    "key_fn (Event v) = key_fn (Resynced v)"
    "map snd inner = filter_trace key_fn None (resync_trace resync 0 [Inr v, Inl e])"
    "script_left inner \<le> n"
  shows "store_get (mirror op resync 0 m [Inr v, Inl e]) k = Some v \<and>
    store_get (rf_store (after_polls n (reflect_poll_next op) (reflect_new inner m))) k = None"
proof -
  have "view (after_polls n (reflect_poll_next op) (reflect_new inner m)) =
    view (fold (reflect_result op) (map snd inner) (reflect_new inner m))"
    using script.drive_rest[OF assms(6)] by (simp add: after_polls_view reflect_new_def)
  then show ?thesis
    unfolding assms(5) using assms(1-4)
    by (simp add: reflect_payload_def reflect_new_def store_get_def staged_def)
qed

theorem filtered_reflector_loses_object_witness:
  "store_get (mirror keep_self (\<lambda>_. (0, Inr [5])) 0 store_new
     [Inr 5, Inl (Io (OsError 105))]) 5 = Some 5 \<and>
   store_get (rf_store (after_polls 3 (reflect_poll_next keep_self)
     (reflect_new [(0, Inr (Event 5)), (0, Inr (Marker ResyncStart)),
       (0, Inr (Marker ResyncEnd))] store_new))) 5 = None"
  by (rule filtered_reflector_loses_object[where v = 5 and key_fn = into_inner])
    (simp_all add: is_no_buffer_space_def keep_self_def)

end
