(* ===== verification/Event_Stream.thy ===== *)
theory Event_Stream
  imports Dispatcher Reflector
begin

text \<open>
  The event streams of \<open>netlink/stream.rs\<close>, over both backends, and what the choice of backend
  means for the resync wrapper.  The protocol's \<open>parse_events\<close> is an argument, as it is a
  trait method in the source.
\<close>

section \<open>The stream\<close>

text \<open>
  A \<open>Direct\<close> source answers datagrams and errors; a \<open>Dispatched\<close> one datagrams and, once the
  driver has stopped, the closed channel with the error stored by the driver.
\<close>

datatype event_backend = Direct | Dispatched

datatype source_item = SourceData bytes | SourceError nl_error | SourceClosed nl_error

record 'ev event_stream =
  es_backend :: event_backend
  es_source :: "source_item delayed list"
  es_pending :: "'ev list"
  es_terminated :: bool

definition event_stream_new :: "event_backend \<Rightarrow> source_item delayed list \<Rightarrow> 'ev event_stream" where
  "event_stream_new backend source =
     \<lparr>es_backend = backend, es_source = source, es_pending = [], es_terminated = False\<rparr>"

text \<open>\<open>pending\<close> is kept reversed and popped at its end.\<close>

fun poll_events :: "(bytes \<Rightarrow> 'ev list) \<Rightarrow> source_item delayed list \<Rightarrow> 'ev event_stream \<Rightarrow>
    'ev nl_result option poll \<times> 'ev event_stream" where
  "poll_events parse [] st = (Pending, st\<lparr>es_source := []\<rparr>)"
| "poll_events parse ((Suc k, r) # src) st = (Pending, st\<lparr>es_source := (k, r) # src\<rparr>)"
| "poll_events parse ((0, SourceError err) # src) st =
     (Ready (Some (Inl err)), st\<lparr>es_source := src\<rparr>)"
| "poll_events parse ((0, SourceClosed err) # src) st =
     (Ready (Some (Inl err)), st\<lparr>es_source := src, es_terminated := True\<rparr>)"
| "poll_events parse ((0, SourceData data) # src) st =
     (let evs = rev (parse data)
      in if evs \<noteq> [] then
           (Ready (Some (Inr (last evs))), st\<lparr>es_source := src, es_pending := butlast evs\<rparr>)
         else poll_events parse src (st\<lparr>es_source := src, es_pending := evs\<rparr>))"

definition event_poll_next :: "(bytes \<Rightarrow> 'ev list) \<Rightarrow> 'ev event_stream \<Rightarrow>
    'ev nl_result option poll \<times> 'ev event_stream" where
  "event_poll_next parse st =
     (if es_pending st \<noteq> [] then
        (Ready (Some (Inr (last (es_pending st)))), st\<lparr>es_pending := butlast (es_pending st)\<rparr>)
      else if es_terminated st then (Ready None, st)
      else poll_events parse (es_source st) st)"

section \<open>The specification\<close>

fun event_trace :: "(bytes \<Rightarrow> 'ev list) \<Rightarrow> source_item list \<Rightarrow> 'ev nl_result list" where
  "event_trace parse [] = []"
| "event_trace parse (SourceData data # rs) = map Inr (parse data) @ event_trace parse rs"
| "event_trace parse (SourceError err # rs) = Inl err # event_trace parse rs"
| "event_trace parse (SourceClosed err # rs) = [Inl err]"

fun event_polls :: "(bytes \<Rightarrow> 'ev list) \<Rightarrow> source_item delayed list \<Rightarrow> nat" where
  "event_polls parse [] = 0"
| "event_polls parse ((k, SourceData data) # rs) = k + length (parse data) + event_polls parse rs"
| "event_polls parse ((k, SourceError err) # rs) = Suc k + event_polls parse rs"
| "event_polls parse ((k, SourceClosed err) # rs) = Suc k"

definition event_rest :: "(bytes \<Rightarrow> 'ev list) \<Rightarrow> 'ev event_stream \<Rightarrow> 'ev nl_result list" where
  "event_rest parse st = map Inr (rev (es_pending st)) @
     (if es_terminated st then [] else event_trace parse (map snd (es_source st)))"

definition event_left :: "(bytes \<Rightarrow> 'ev list) \<Rightarrow> 'ev event_stream \<Rightarrow> nat" where
  "event_left parse st = length (es_pending st) +
     (if es_terminated st then 0 else event_polls parse (es_source st))"

lemma event_polls_wait:
  "event_polls parse ((Suc k, r) # src) = Suc (event_polls parse ((k, r) # src))"
  by (cases r) auto

lemma rev_butlast_last: "xs \<noteq> [] \<Longrightarrow> rev xs = last xs # rev (butlast xs)"
  by (metis append_butlast_last_id rev_eq_Cons_iff rev_rev_ident rev.simps(2) rev_append)

lemma poll_events_step:
  assumes "es_pending st = []" "\<not> es_terminated st" "es_source st = src"
  shows "poll_step (event_rest parse) (event_left parse) st (poll_events parse src st)"
  using assms
proof (induction parse src st rule: poll_events.induct)
  case (5 parse data src st)
  show ?case
  proof (cases "parse data = []")
    case True
    let ?st = "st\<lparr>es_source := src, es_pending := []\<rparr>"
    have "poll_step (event_rest parse) (event_left parse) ?st (poll_events parse src ?st)"
      using 5(1)[OF refl] True 5(2-4) by simp
    then have "poll_step (event_rest parse) (event_left parse) st (poll_events parse src ?st)"
      by (rule poll_step_same) (use True 5(2-4) in \<open>simp_all add: event_rest_def event_left_def\<close>)
    then show ?thesis using True by simp
  next
    case False
    then obtain x xs where xs: "parse data = x # xs" by (cases "parse data") auto
    then show ?thesis
      using 5(2-4) by (simp add: event_rest_def event_left_def Let_def butlast_append)
  qed
qed (auto simp: event_rest_def event_left_def event_polls_wait)

interpretation events: poll_stream
  "event_poll_next parse" "event_rest parse" "event_left parse" for parse
proof
  show "poll_step (event_rest parse) (event_left parse) st (event_poll_next parse st)" for st
  proof (cases "es_pending st = []")
    case True
    then show ?thesis
      using poll_events_step[of st "es_source st" parse]
      by (auto simp: event_poll_next_def event_rest_def)
  next
    case False
    then show ?thesis
      by (cases "es_pending st" rule: rev_cases)
        (auto simp: event_poll_next_def event_rest_def event_left_def)
  qed
  have trace: "event_polls parse src = 0 \<Longrightarrow> event_trace parse (map snd src) = []" for src
    by (induction parse src rule: event_polls.induct) auto
  show "event_rest parse st = []" if "event_left parse st = 0" for st
    using that trace by (auto simp: event_rest_def event_left_def)
qed

lemma drive_events:
  assumes "event_polls parse src \<le> n"
  shows "drive n (event_poll_next parse) (event_stream_new b src) = event_trace parse (map snd src)"
  using events.drive_rest[of parse "event_stream_new b src" n] assms
  by (simp add: event_rest_def event_left_def event_stream_new_def)

section \<open>Backends\<close>

text \<open>
  What each mode offers the stream for the same results of the kernel's \<open>recv\<close>: the socket
  itself, or the queue the driver fills for a listener.
\<close>

fun direct_items :: "bytes nl_result list \<Rightarrow> source_item list" where
  "direct_items [] = []"
| "direct_items (Inr data # rs) = SourceData data # direct_items rs"
| "direct_items (Inl err # rs) = SourceError err # direct_items rs"

definition listener_queue :: "u64 \<Rightarrow> dispatcher \<Rightarrow> bytes list" where
  "listener_queue i d = (case dp_listeners d i of Some q \<Rightarrow> q | None \<Rightarrow> [])"

fun multicasts :: "endian \<Rightarrow> bytes nl_result list \<Rightarrow> bytes list" where
  "multicasts e [] = []"
| "multicasts e (Inl err # rs) = multicasts e rs"
| "multicasts e (Inr buf # rs) =
     (if routed_to e 0 buf then buf # multicasts e rs else multicasts e rs)"

lemma multicasts_Inr: "multicasts e (map Inr bufs @ rs) = filter (routed_to e 0) bufs @ multicasts e rs"
  by (induction bufs) auto

lemma listener_recv:
  assumes "dp_listeners d i = Some q" "dp_driver_running d"
    "list_all (\<lambda>r. case r of Inl err \<Rightarrow> is_no_buffer_space err | Inr buf \<Rightarrow> True) rs"
  shows "dp_listeners (acts e to_text (map Recv rs) d) i =
      Some (q @ multicasts e rs) \<and>
    dp_driver_running (acts e to_text (map Recv rs) d)"
  using assms
proof (induction rs arbitrary: d q)
  case (Cons r rs)
  have step: "acts e to_text (map Recv (r # rs)) d = acts e to_text (map Recv rs) (driver_recv e to_text r d)"
    by (simp add: acts_def)
  show ?case
  proof (cases r)
    case (Inl err)
    have "dp_listeners (driver_recv e to_text r d) i = Some q \<and> dp_driver_running (driver_recv e to_text r d)"
      using Cons.prems Inl by (simp add: driver_recv_def emit_enobufs_def Let_def)
    then show ?thesis using Cons.IH Cons.prems(3) Inl unfolding step by simp
  next
    case (Inr buf)
    have "dp_listeners (driver_recv e to_text r d) i =
        Some (if routed_to e 0 buf then q @ [buf] else q) \<and> dp_driver_running (driver_recv e to_text r d)"
      using Cons.prems Inr
      by (auto simp: driver_recv_def route_buffer_def routed_to_def fan_out_events_def
          fan_out_all_def push_frame_def Let_def split: option.splits)
    then show ?thesis
      using Cons.IH[of "driver_recv e to_text r d" "if routed_to e 0 buf then q @ [buf] else q"]
        Cons.prems(3) Inr unfolding step by auto
  qed
qed (simp add: acts_def)

lemma direct_items_append: "direct_items (xs @ ys) = direct_items xs @ direct_items ys"
  by (induction xs rule: direct_items.induct) auto

lemma event_trace_direct:
  "event_trace parse (direct_items (map Inr bufs @ rs)) =
   map Inr (concat (map parse bufs)) @ event_trace parse (direct_items rs)"
  by (induction bufs) auto

lemma event_trace_data:
  "event_trace parse (map SourceData bufs) = map Inr (concat (map parse bufs))"
  by (induction bufs) auto

lemma resync_trace_events:
  "resync_trace resync c (map Inr ts @ rs) = map (Inr \<circ> Event) ts @ resync_trace resync c rs"
  by (induction ts) auto

text \<open>
  In dispatcher mode an overflow never reaches an event stream: for the same kernel
  answers, multicast datagrams with an overflow between them, the mutex-mode stream hands
  out the error in its place, so the resync wrapper takes a snapshot, and the
  dispatcher-mode stream hands out the events around the gap as if nothing was lost.
\<close>

theorem dispatcher_hides_overflow:
  assumes "\<forall>buf \<in> set (before @ after). routed_to e 0 buf" "dp_driver_running d"
    "subscribe_events d = (i, d1)" "snd (resync 0) = Inr snapshot"
    "overflow = Io (OsError ENOBUFS)"
  shows "resync_trace resync 0 (event_trace parse (direct_items (map Inr before @ Inl overflow # map Inr after))) =
      map (Inr \<circ> Event) (concat (map parse before)) @
      Inr (Marker ResyncStart) # map (Inr \<circ> Resynced) snapshot @ Inr (Marker ResyncEnd) #
      map (Inr \<circ> Event) (concat (map parse after)) \<and>
    resync_trace resync 0 (event_trace parse (map SourceData
        (listener_queue i (acts e to_text (map Recv (map Inr before @ Inl overflow # map Inr after)) d1)))) =
      map (Inr \<circ> Event) (concat (map parse (before @ after)))"
proof -
  have enobufs: "is_no_buffer_space overflow" by (simp add: assms(5) is_no_buffer_space_def)
  have "resync_trace resync 0 (event_trace parse (direct_items (map Inr before @ Inl overflow # map Inr after))) =
      map (Inr \<circ> Event) (concat (map parse before)) @
      Inr (Marker ResyncStart) # map (Inr \<circ> Resynced) snapshot @ Inr (Marker ResyncEnd) #
      map (Inr \<circ> Event) (concat (map parse after))"
    using enobufs assms(4) event_trace_direct[of parse after "[]"]
      resync_trace_events[of resync "Suc 0" "concat (map parse after)" "[]"]
    by (simp add: event_trace_direct resync_trace_events)
  moreover
  let ?rs = "map Inr before @ Inl overflow # map Inr after :: bytes nl_result list"
  have open_queue: "dp_listeners d1 i = Some []" "dp_driver_running d1"
    using assms(2,3) by (auto simp: subscribe_events_def Let_def)
  have noise: "list_all (\<lambda>r. case r of Inl err \<Rightarrow> is_no_buffer_space err | Inr buf \<Rightarrow> True) ?rs"
    using enobufs by (auto simp: list_all_iff)
  have "listener_queue i (acts e to_text (map Recv ?rs) d1) =
      filter (routed_to e 0) before @ filter (routed_to e 0) after"
    using open_queue noise listener_recv[of d1 i "[]" ?rs e to_text] multicasts_Inr[of e after "[]"]
    by (simp add: listener_queue_def multicasts_Inr)
  then have queue: "listener_queue i (acts e to_text (map Recv ?rs) d1) = before @ after"
    using assms(1) by (simp add: filter_id_conv)
  have "resync_trace resync 0 (event_trace parse (map SourceData
        (listener_queue i (acts e to_text (map Recv ?rs) d1)))) =
      map (Inr \<circ> Event) (concat (map parse (before @ after)))"
    unfolding queue event_trace_data
    using resync_trace_events[of resync 0 "concat (map parse (before @ after))" "[]"] by simp
  ultimately show ?thesis by blast
qed

text \<open>One event per datagram, its length.\<close>

definition one_event :: "bytes \<Rightarrow> nat list" where
  "one_event data = [length data]"

theorem dispatcher_hides_overflow_witness:
  "let d = ensure_driver dispatcher_new; m = datagram LittleEndian [frame_at 16 0 0 [9]]
   in resync_trace (\<lambda>_. (0, Inr [5])) 0 (event_trace one_event (map SourceData
        (listener_queue 0 (acts LittleEndian (\<lambda>_. [])
          (map Recv (map Inr [m] @ Inl (Io (OsError 105)) # map Inr [m]))
          (snd (subscribe_events d)))))) =
      map (Inr \<circ> Event) (concat (map one_event ([m] @ [m])))"
  unfolding Let_def
proof (rule dispatcher_hides_overflow[where d = "ensure_driver dispatcher_new", THEN conjunct2])
  let ?m = "datagram LittleEndian [frame_at 16 0 0 [9]]"
  have "msgs_of LittleEndian ?m = [Inr (frame_at 16 0 0 [9])]"
    by (simp add: msgs_of_datagram frame_ok_def frame_at_def)
  then show "\<forall>buf \<in> set ([?m] @ [?m]). routed_to LittleEndian 0 buf"
    by (simp add: routed_to_def first_message_def List.map_filter_def) (simp add: frame_at_def)
qed (simp_all add: ensure_driver_def dispatcher_new_def subscribe_events_def Let_def)

end
