(* ===== verification/Rtnl_Headers.thy ===== *)
theory Rtnl_Headers
  imports Netlink_Builder
begin

text \<open>
  The fixed headers of the routing messages (\<open>netlink/types/\<close>), as the C structures the kernel
  defines: their images in memory, their readers, their setters, and for each the contract
  \<open>wire_codec\<close>.
\<close>

section \<open>Consecutive fields\<close>

lemma field_join:
  "take i bs @ take k (drop i bs) = take (i + k) bs"
  "m + i = j \<Longrightarrow> take i (drop m bs) @ take k (drop j bs) = take (i + k) (drop m bs)"
  by (auto simp: take_add add.commute)

section \<open>\<open>IfInfoMsg\<close>\<close>

record if_info_msg =
  ifi_family :: u8
  ifi_pad :: u8
  ifi_type :: u16
  ifi_index :: i32
  ifi_flags :: u32
  ifi_change :: u32

definition if_info_msg_new :: if_info_msg where
  "if_info_msg_new = \<lparr>ifi_family = 0, ifi_pad = 0, ifi_type = 0, ifi_index = 0, ifi_flags = 0, ifi_change = 0\<rparr>"

definition if_info_msg_as_bytes :: "endian \<Rightarrow> if_info_msg \<Rightarrow> bytes" where
  "if_info_msg_as_bytes e h =
     ne_bytes e 1 (ifi_family h) @
     ne_bytes e 1 (ifi_pad h) @
     ne_bytes e 2 (ifi_type h) @
     ne_bytes e 4 (ifi_index h) @
     ne_bytes e 4 (ifi_flags h) @
     ne_bytes e 4 (ifi_change h)"

definition if_info_msg_read :: "endian \<Rightarrow> bytes \<Rightarrow> if_info_msg" where
  "if_info_msg_read e data =
     \<lparr>ifi_family = ne_word e (take 1 data),
      ifi_pad = ne_word e (take 1 (drop 1 data)),
      ifi_type = ne_word e (take 2 (drop 2 data)),
      ifi_index = ne_word e (take 4 (drop 4 data)),
      ifi_flags = ne_word e (take 4 (drop 8 data)),
      ifi_change = ne_word e (take 4 (drop 12 data))\<rparr>"

definition if_info_msg_from_bytes :: "endian \<Rightarrow> bytes \<Rightarrow> if_info_msg nl_result" where
  "if_info_msg_from_bytes e data =
     (if length data < 16 then Inl (Truncated 16 (length data)) else Inr (if_info_msg_read e data))"

interpretation if_info_msg: wire_codec "if_info_msg_as_bytes e" "\<lambda>bs. ok_of (if_info_msg_from_bytes e bs)" 16 for e
proof
  fix x r
  show "length (if_info_msg_as_bytes e x) = 16" by (simp add: if_info_msg_as_bytes_def)
  show "ok_of (if_info_msg_from_bytes e (if_info_msg_as_bytes e x @ r)) = Some x"
    by (simp add: if_info_msg_from_bytes_def if_info_msg_read_def if_info_msg_as_bytes_def ne_word_bytes)
next
  fix bs
  show "length bs < 16 \<Longrightarrow> ok_of (if_info_msg_from_bytes e bs) = None"
    by (simp add: if_info_msg_from_bytes_def)
next
  fix bs x
  assume "ok_of (if_info_msg_from_bytes e bs) = Some x"
  then show "if_info_msg_as_bytes e x = take 16 bs"
    by (auto simp: if_info_msg_from_bytes_def if_info_msg_read_def if_info_msg_as_bytes_def ne_bytes_word field_join
        split: if_splits)
qed

section \<open>\<open>IfAddrMsg\<close>\<close>

record if_addr_msg =
  ifa_family :: u8
  ifa_prefixlen :: u8
  ifa_flags :: u8
  ifa_scope :: u8
  ifa_index :: u32

definition if_addr_msg_new :: if_addr_msg where
  "if_addr_msg_new = \<lparr>ifa_family = 0, ifa_prefixlen = 0, ifa_flags = 0, ifa_scope = 0, ifa_index = 0\<rparr>"

definition if_addr_msg_as_bytes :: "endian \<Rightarrow> if_addr_msg \<Rightarrow> bytes" where
  "if_addr_msg_as_bytes e h =
     ne_bytes e 1 (ifa_family h) @
     ne_bytes e 1 (ifa_prefixlen h) @
     ne_bytes e 1 (ifa_flags h) @
     ne_bytes e 1 (ifa_scope h) @
     ne_bytes e 4 (ifa_index h)"

definition if_addr_msg_read :: "endian \<Rightarrow> bytes \<Rightarrow> if_addr_msg" where
  "if_addr_msg_read e data =
     \<lparr>ifa_family = ne_word e (take 1 data),
      ifa_prefixlen = ne_word e (take 1 (drop 1 data)),
      ifa_flags = ne_word e (take 1 (drop 2 data)),
      ifa_scope = ne_word e (take 1 (drop 3 data)),
      ifa_index = ne_word e (take 4 (drop 4 data))\<rparr>"

definition if_addr_msg_from_bytes :: "endian \<Rightarrow> bytes \<Rightarrow> if_addr_msg nl_result" where
  "if_addr_msg_from_bytes e data =
     (if length data < 8 then Inl (Truncated 8 (length data)) else Inr (if_addr_msg_read e data))"

interpretation if_addr_msg: wire_codec "if_addr_msg_as_bytes e" "\<lambda>bs. ok_of (if_addr_msg_from_bytes e bs)" 8 for e
proof
  fix x r
  show "length (if_addr_msg_as_bytes e x) = 8" by (simp add: if_addr_msg_as_bytes_def)
  show "ok_of (if_addr_msg_from_bytes e (if_addr_msg_as_bytes e x @ r)) = Some x"
    by (simp add: if_addr_msg_from_bytes_def if_addr_msg_read_def if_addr_msg_as_bytes_def ne_word_bytes)
next
  fix bs
  show "length bs < 8 \<Longrightarrow> ok_of (if_addr_msg_from_bytes e bs) = None"
    by (simp add: if_addr_msg_from_bytes_def)
next
  fix bs x
  assume "ok_of (if_addr_msg_from_bytes e bs) = Some x"
  then show "if_addr_msg_as_bytes e x = take 8 bs"
    by (auto simp: if_addr_msg_from_bytes_def if_addr_msg_read_def if_addr_msg_as_bytes_def ne_bytes_word field_join
        split: if_splits)
qed

section \<open>\<open>NdMsg\<close>\<close>

record nd_msg =
  ndm_family :: u8
  ndm_pad1 :: u8
  ndm_pad2 :: u16
  ndm_ifindex :: i32
  ndm_state :: u16
  ndm_flags :: u8
  ndm_type :: u8

definition nd_msg_new :: nd_msg where
  "nd_msg_new = \<lparr>ndm_family = 0, ndm_pad1 = 0, ndm_pad2 = 0, ndm_ifindex = 0, ndm_state = 0, ndm_flags = 0, ndm_type = 0\<rparr>"

definition nd_msg_as_bytes :: "endian \<Rightarrow> nd_msg \<Rightarrow> bytes" where
  "nd_msg_as_bytes e h =
     ne_bytes e 1 (ndm_family h) @
     ne_bytes e 1 (ndm_pad1 h) @
     ne_bytes e 2 (ndm_pad2 h) @
     ne_bytes e 4 (ndm_ifindex h) @
     ne_bytes e 2 (ndm_state h) @
     ne_bytes e 1 (ndm_flags h) @
     ne_bytes e 1 (ndm_type h)"

definition nd_msg_read :: "endian \<Rightarrow> bytes \<Rightarrow> nd_msg" where
  "nd_msg_read e data =
     \<lparr>ndm_family = ne_word e (take 1 data),
      ndm_pad1 = ne_word e (take 1 (drop 1 data)),
      ndm_pad2 = ne_word e (take 2 (drop 2 data)),
      ndm_ifindex = ne_word e (take 4 (drop 4 data)),
      ndm_state = ne_word e (take 2 (drop 8 data)),
      ndm_flags = ne_word e (take 1 (drop 10 data)),
      ndm_type = ne_word e (take 1 (drop 11 data))\<rparr>"

definition nd_msg_from_bytes :: "endian \<Rightarrow> bytes \<Rightarrow> nd_msg nl_result" where
  "nd_msg_from_bytes e data =
     (if length data < 12 then Inl (Truncated 12 (length data)) else Inr (nd_msg_read e data))"

interpretation nd_msg: wire_codec "nd_msg_as_bytes e" "\<lambda>bs. ok_of (nd_msg_from_bytes e bs)" 12 for e
proof
  fix x r
  show "length (nd_msg_as_bytes e x) = 12" by (simp add: nd_msg_as_bytes_def)
  show "ok_of (nd_msg_from_bytes e (nd_msg_as_bytes e x @ r)) = Some x"
    by (simp add: nd_msg_from_bytes_def nd_msg_read_def nd_msg_as_bytes_def ne_word_bytes)
next
  fix bs
  show "length bs < 12 \<Longrightarrow> ok_of (nd_msg_from_bytes e bs) = None"
    by (simp add: nd_msg_from_bytes_def)
next
  fix bs x
  assume "ok_of (nd_msg_from_bytes e bs) = Some x"
  then show "nd_msg_as_bytes e x = take 12 bs"
    by (auto simp: nd_msg_from_bytes_def nd_msg_read_def nd_msg_as_bytes_def ne_bytes_word field_join
        split: if_splits)
qed

section \<open>\<open>RtMsg\<close>\<close>

record rt_msg =
  rtm_family :: u8
  rtm_dst_len :: u8
  rtm_src_len :: u8
  rtm_tos :: u8
  rtm_table :: u8
  rtm_protocol :: u8
  rtm_scope :: u8
  rtm_type :: u8
  rtm_flags :: u32

definition rt_msg_new :: rt_msg where
  "rt_msg_new = \<lparr>rtm_family = 0, rtm_dst_len = 0, rtm_src_len = 0, rtm_tos = 0, rtm_table = 0, rtm_protocol = 0, rtm_scope = 0, rtm_type = 0, rtm_flags = 0\<rparr>"

definition rt_msg_as_bytes :: "endian \<Rightarrow> rt_msg \<Rightarrow> bytes" where
  "rt_msg_as_bytes e h =
     ne_bytes e 1 (rtm_family h) @
     ne_bytes e 1 (rtm_dst_len h) @
     ne_bytes e 1 (rtm_src_len h) @
     ne_bytes e 1 (rtm_tos h) @
     ne_bytes e 1 (rtm_table h) @
     ne_bytes e 1 (rtm_protocol h) @
     ne_bytes e 1 (rtm_scope h) @
     ne_bytes e 1 (rtm_type h) @
     ne_bytes e 4 (rtm_flags h)"

definition rt_msg_read :: "endian \<Rightarrow> bytes \<Rightarrow> rt_msg" where
  "rt_msg_read e data =
     \<lparr>rtm_family = ne_word e (take 1 data),
      rtm_dst_len = ne_word e (take 1 (drop 1 data)),
      rtm_src_len = ne_word e (take 1 (drop 2 data)),
      rtm_tos = ne_word e (take 1 (drop 3 data)),
      rtm_table = ne_word e (take 1 (drop 4 data)),
      rtm_protocol = ne_word e (take 1 (drop 5 data)),
      rtm_scope = ne_word e (take 1 (drop 6 data)),
      rtm_type = ne_word e (take 1 (drop 7 data)),
      rtm_flags = ne_word e (take 4 (drop 8 data))\<rparr>"

definition rt_msg_from_bytes :: "endian \<Rightarrow> bytes \<Rightarrow> rt_msg nl_result" where
  "rt_msg_from_bytes e data =
     (if length data < 12 then Inl (Truncated 12 (length data)) else Inr (rt_msg_read e data))"

interpretation rt_msg: wire_codec "rt_msg_as_bytes e" "\<lambda>bs. ok_of (rt_msg_from_bytes e bs)" 12 for e
proof
  fix x r
  show "length (rt_msg_as_bytes e x) = 12" by (simp add: rt_msg_as_bytes_def)
  show "ok_of (rt_msg_from_bytes e (rt_msg_as_bytes e x @ r)) = Some x"
    by (simp add: rt_msg_from_bytes_def rt_msg_read_def rt_msg_as_bytes_def ne_word_bytes)
next
  fix bs
  show "length bs < 12 \<Longrightarrow> ok_of (rt_msg_from_bytes e bs) = None"
    by (simp add: rt_msg_from_bytes_def)
next
  fix bs x
  assume "ok_of (rt_msg_from_bytes e bs) = Some x"
  then show "rt_msg_as_bytes e x = take 12 bs"
    by (auto simp: rt_msg_from_bytes_def rt_msg_read_def rt_msg_as_bytes_def ne_bytes_word field_join
        split: if_splits)
qed

section \<open>\<open>FibRuleHdr\<close>\<close>

record fib_rule_hdr =
  frh_family :: u8
  frh_dst_len :: u8
  frh_src_len :: u8
  frh_tos :: u8
  frh_table :: u8
  frh_res1 :: u8
  frh_res2 :: u8
  frh_action :: u8
  frh_flags :: u32

definition fib_rule_hdr_new :: fib_rule_hdr where
  "fib_rule_hdr_new = \<lparr>frh_family = 0, frh_dst_len = 0, frh_src_len = 0, frh_tos = 0, frh_table = 0, frh_res1 = 0, frh_res2 = 0, frh_action = 0, frh_flags = 0\<rparr>"

definition fib_rule_hdr_as_bytes :: "endian \<Rightarrow> fib_rule_hdr \<Rightarrow> bytes" where
  "fib_rule_hdr_as_bytes e h =
     ne_bytes e 1 (frh_family h) @
     ne_bytes e 1 (frh_dst_len h) @
     ne_bytes e 1 (frh_src_len h) @
     ne_bytes e 1 (frh_tos h) @
     ne_bytes e 1 (frh_table h) @
     ne_bytes e 1 (frh_res1 h) @
     ne_bytes e 1 (frh_res2 h) @
     ne_bytes e 1 (frh_action h) @
     ne_bytes e 4 (frh_flags h)"

definition fib_rule_hdr_read :: "endian \<Rightarrow> bytes \<Rightarrow> fib_rule_hdr" where
  "fib_rule_hdr_read e data =
     \<lparr>frh_family = ne_word e (take 1 data),
      frh_dst_len = ne_word e (take 1 (drop 1 data)),
      frh_src_len = ne_word e (take 1 (drop 2 data)),
      frh_tos = ne_word e (take 1 (drop 3 data)),
      frh_table = ne_word e (take 1 (drop 4 data)),
      frh_res1 = ne_word e (take 1 (drop 5 data)),
      frh_res2 = ne_word e (take 1 (drop 6 data)),
      frh_action = ne_word e (take 1 (drop 7 data)),
      frh_flags = ne_word e (take 4 (drop 8 data))\<rparr>"

definition fib_rule_hdr_from_bytes :: "endian \<Rightarrow> bytes \<Rightarrow> fib_rule_hdr nl_result" where
  "fib_rule_hdr_from_bytes e data =
     (if length data < 12 then Inl (Truncated 12 (length data)) else Inr (fib_rule_hdr_read e data))"

interpretation fib_rule_hdr: wire_codec "fib_rule_hdr_as_bytes e" "\<lambda>bs. ok_of (fib_rule_hdr_from_bytes e bs)" 12 for e
proof
  fix x r
  show "length (fib_rule_hdr_as_bytes e x) = 12" by (simp add: fib_rule_hdr_as_bytes_def)
  show "ok_of (fib_rule_hdr_from_bytes e (fib_rule_hdr_as_bytes e x @ r)) = Some x"
    by (simp add: fib_rule_hdr_from_bytes_def fib_rule_hdr_read_def fib_rule_hdr_as_bytes_def ne_word_bytes)
next
  fix bs
  show "length bs < 12 \<Longrightarrow> ok_of (fib_rule_hdr_from_bytes e bs) = None"
    by (simp add: fib_rule_hdr_from_bytes_def)
next
  fix bs x
  assume "ok_of (fib_rule_hdr_from_bytes e bs) = Some x"
  then show "fib_rule_hdr_as_bytes e x = take 12 bs"
    by (auto simp: fib_rule_hdr_from_bytes_def fib_rule_hdr_read_def fib_rule_hdr_as_bytes_def ne_bytes_word field_join
        split: if_splits)
qed

section \<open>\<open>NhMsg\<close>\<close>

record nh_msg =
  nh_family :: u8
  nh_scope :: u8
  nh_protocol :: u8
  nh_resvd :: u8
  nh_flags :: u32

definition nh_msg_new :: nh_msg where
  "nh_msg_new = \<lparr>nh_family = 0, nh_scope = 0, nh_protocol = 0, nh_resvd = 0, nh_flags = 0\<rparr>"

definition nh_msg_as_bytes :: "endian \<Rightarrow> nh_msg \<Rightarrow> bytes" where
  "nh_msg_as_bytes e h =
     ne_bytes e 1 (nh_family h) @
     ne_bytes e 1 (nh_scope h) @
     ne_bytes e 1 (nh_protocol h) @
     ne_bytes e 1 (nh_resvd h) @
     ne_bytes e 4 (nh_flags h)"

definition nh_msg_read :: "endian \<Rightarrow> bytes \<Rightarrow> nh_msg" where
  "nh_msg_read e data =
     \<lparr>nh_family = ne_word e (take 1 data),
      nh_scope = ne_word e (take 1 (drop 1 data)),
      nh_protocol = ne_word e (take 1 (drop 2 data)),
      nh_resvd = ne_word e (take 1 (drop 3 data)),
      nh_flags = ne_word e (take 4 (drop 4 data))\<rparr>"

definition nh_msg_from_bytes :: "endian \<Rightarrow> bytes \<Rightarrow> nh_msg nl_result" where
  "nh_msg_from_bytes e data =
     (if length data < 8 then Inl (Truncated 8 (length data)) else Inr (nh_msg_read e data))"

interpretation nh_msg: wire_codec "nh_msg_as_bytes e" "\<lambda>bs. ok_of (nh_msg_from_bytes e bs)" 8 for e
proof
  fix x r
  show "length (nh_msg_as_bytes e x) = 8" by (simp add: nh_msg_as_bytes_def)
  show "ok_of (nh_msg_from_bytes e (nh_msg_as_bytes e x @ r)) = Some x"
    by (simp add: nh_msg_from_bytes_def nh_msg_read_def nh_msg_as_bytes_def ne_word_bytes)
next
  fix bs
  show "length bs < 8 \<Longrightarrow> ok_of (nh_msg_from_bytes e bs) = None"
    by (simp add: nh_msg_from_bytes_def)
next
  fix bs x
  assume "ok_of (nh_msg_from_bytes e bs) = Some x"
  then show "nh_msg_as_bytes e x = take 8 bs"
    by (auto simp: nh_msg_from_bytes_def nh_msg_read_def nh_msg_as_bytes_def ne_bytes_word field_join
        split: if_splits)
qed

section \<open>\<open>TcMsg\<close>\<close>

record tc_msg =
  tcm_family :: u8
  tcm_pad1 :: u8
  tcm_pad2 :: u16
  tcm_ifindex :: i32
  tcm_handle :: u32
  tcm_parent :: u32
  tcm_info :: u32

definition tc_msg_new :: tc_msg where
  "tc_msg_new = \<lparr>tcm_family = 0, tcm_pad1 = 0, tcm_pad2 = 0, tcm_ifindex = 0, tcm_handle = 0, tcm_parent = 0, tcm_info = 0\<rparr>"

definition tc_msg_as_bytes :: "endian \<Rightarrow> tc_msg \<Rightarrow> bytes" where
  "tc_msg_as_bytes e h =
     ne_bytes e 1 (tcm_family h) @
     ne_bytes e 1 (tcm_pad1 h) @
     ne_bytes e 2 (tcm_pad2 h) @
     ne_bytes e 4 (tcm_ifindex h) @
     ne_bytes e 4 (tcm_handle h) @
     ne_bytes e 4 (tcm_parent h) @
     ne_bytes e 4 (tcm_info h)"

definition tc_msg_read :: "endian \<Rightarrow> bytes \<Rightarrow> tc_msg" where
  "tc_msg_read e data =
     \<lparr>tcm_family = ne_word e (take 1 data),
      tcm_pad1 = ne_word e (take 1 (drop 1 data)),
      tcm_pad2 = ne_word e (take 2 (drop 2 data)),
      tcm_ifindex = ne_word e (take 4 (drop 4 data)),
      tcm_handle = ne_word e (take 4 (drop 8 data)),
      tcm_parent = ne_word e (take 4 (drop 12 data)),
      tcm_info = ne_word e (take 4 (drop 16 data))\<rparr>"

definition tc_msg_from_bytes :: "endian \<Rightarrow> bytes \<Rightarrow> tc_msg nl_result" where
  "tc_msg_from_bytes e data =
     (if length data < 20 then Inl (Truncated 20 (length data)) else Inr (tc_msg_read e data))"

interpretation tc_msg: wire_codec "tc_msg_as_bytes e" "\<lambda>bs. ok_of (tc_msg_from_bytes e bs)" 20 for e
proof
  fix x r
  show "length (tc_msg_as_bytes e x) = 20" by (simp add: tc_msg_as_bytes_def)
  show "ok_of (tc_msg_from_bytes e (tc_msg_as_bytes e x @ r)) = Some x"
    by (simp add: tc_msg_from_bytes_def tc_msg_read_def tc_msg_as_bytes_def ne_word_bytes)
next
  fix bs
  show "length bs < 20 \<Longrightarrow> ok_of (tc_msg_from_bytes e bs) = None"
    by (simp add: tc_msg_from_bytes_def)
next
  fix bs x
  assume "ok_of (tc_msg_from_bytes e bs) = Some x"
  then show "tc_msg_as_bytes e x = take 20 bs"
    by (auto simp: tc_msg_from_bytes_def tc_msg_read_def tc_msg_as_bytes_def ne_bytes_word field_join
        split: if_splits)
qed

section \<open>Setters\<close>

definition if_info_msg_with_index :: "i32 \<Rightarrow> if_info_msg \<Rightarrow> if_info_msg" where
  "if_info_msg_with_index x h = h\<lparr>ifi_index := x\<rparr>"

definition if_info_msg_with_family :: "u8 \<Rightarrow> if_info_msg \<Rightarrow> if_info_msg" where
  "if_info_msg_with_family x h = h\<lparr>ifi_family := x\<rparr>"

definition if_addr_msg_with_family :: "u8 \<Rightarrow> if_addr_msg \<Rightarrow> if_addr_msg" where
  "if_addr_msg_with_family x h = h\<lparr>ifa_family := x\<rparr>"

definition if_addr_msg_with_prefixlen :: "u8 \<Rightarrow> if_addr_msg \<Rightarrow> if_addr_msg" where
  "if_addr_msg_with_prefixlen x h = h\<lparr>ifa_prefixlen := x\<rparr>"

definition if_addr_msg_with_index :: "u32 \<Rightarrow> if_addr_msg \<Rightarrow> if_addr_msg" where
  "if_addr_msg_with_index x h = h\<lparr>ifa_index := x\<rparr>"

definition if_addr_msg_with_scope :: "u8 \<Rightarrow> if_addr_msg \<Rightarrow> if_addr_msg" where
  "if_addr_msg_with_scope x h = h\<lparr>ifa_scope := x\<rparr>"

definition nd_msg_with_family :: "u8 \<Rightarrow> nd_msg \<Rightarrow> nd_msg" where
  "nd_msg_with_family x h = h\<lparr>ndm_family := x\<rparr>"

definition nd_msg_with_ifindex :: "i32 \<Rightarrow> nd_msg \<Rightarrow> nd_msg" where
  "nd_msg_with_ifindex x h = h\<lparr>ndm_ifindex := x\<rparr>"

definition nd_msg_with_state :: "u16 \<Rightarrow> nd_msg \<Rightarrow> nd_msg" where
  "nd_msg_with_state x h = h\<lparr>ndm_state := x\<rparr>"

definition nd_msg_with_flags :: "u8 \<Rightarrow> nd_msg \<Rightarrow> nd_msg" where
  "nd_msg_with_flags x h = h\<lparr>ndm_flags := x\<rparr>"

definition rt_msg_with_family :: "u8 \<Rightarrow> rt_msg \<Rightarrow> rt_msg" where
  "rt_msg_with_family x h = h\<lparr>rtm_family := x\<rparr>"

definition rt_msg_with_dst_len :: "u8 \<Rightarrow> rt_msg \<Rightarrow> rt_msg" where
  "rt_msg_with_dst_len x h = h\<lparr>rtm_dst_len := x\<rparr>"

definition rt_msg_with_table :: "u8 \<Rightarrow> rt_msg \<Rightarrow> rt_msg" where
  "rt_msg_with_table x h = h\<lparr>rtm_table := x\<rparr>"

definition rt_msg_with_protocol :: "u8 \<Rightarrow> rt_msg \<Rightarrow> rt_msg" where
  "rt_msg_with_protocol x h = h\<lparr>rtm_protocol := x\<rparr>"

definition rt_msg_with_scope :: "u8 \<Rightarrow> rt_msg \<Rightarrow> rt_msg" where
  "rt_msg_with_scope x h = h\<lparr>rtm_scope := x\<rparr>"

definition rt_msg_with_type :: "u8 \<Rightarrow> rt_msg \<Rightarrow> rt_msg" where
  "rt_msg_with_type x h = h\<lparr>rtm_type := x\<rparr>"

definition fib_rule_hdr_with_family :: "u8 \<Rightarrow> fib_rule_hdr \<Rightarrow> fib_rule_hdr" where
  "fib_rule_hdr_with_family x h = h\<lparr>frh_family := x\<rparr>"

definition nh_msg_with_family :: "u8 \<Rightarrow> nh_msg \<Rightarrow> nh_msg" where
  "nh_msg_with_family x h = h\<lparr>nh_family := x\<rparr>"

definition nh_msg_with_scope :: "u8 \<Rightarrow> nh_msg \<Rightarrow> nh_msg" where
  "nh_msg_with_scope x h = h\<lparr>nh_scope := x\<rparr>"

definition nh_msg_with_protocol :: "u8 \<Rightarrow> nh_msg \<Rightarrow> nh_msg" where
  "nh_msg_with_protocol x h = h\<lparr>nh_protocol := x\<rparr>"

definition nh_msg_with_flags :: "u32 \<Rightarrow> nh_msg \<Rightarrow> nh_msg" where
  "nh_msg_with_flags x h = h\<lparr>nh_flags := x\<rparr>"

definition tc_msg_with_ifindex :: "i32 \<Rightarrow> tc_msg \<Rightarrow> tc_msg" where
  "tc_msg_with_ifindex x h = h\<lparr>tcm_ifindex := x\<rparr>"

definition tc_msg_with_handle :: "u32 \<Rightarrow> tc_msg \<Rightarrow> tc_msg" where
  "tc_msg_with_handle x h = h\<lparr>tcm_handle := x\<rparr>"

definition tc_msg_with_parent :: "u32 \<Rightarrow> tc_msg \<Rightarrow> tc_msg" where
  "tc_msg_with_parent x h = h\<lparr>tcm_parent := x\<rparr>"

definition tc_msg_with_info :: "u32 \<Rightarrow> tc_msg \<Rightarrow> tc_msg" where
  "tc_msg_with_info x h = h\<lparr>tcm_info := x\<rparr>"

text \<open>
  A filter's \<open>tcm_info\<close>: the priority above, the ethernet protocol in network byte order
  below.  \<open>u16_to_be\<close> is the value whose memory image is the big-endian image.
\<close>

definition u16_to_be :: "endian \<Rightarrow> u16 \<Rightarrow> u16" where
  "u16_to_be e x = ne_word e (be_bytes 2 x)"

definition tc_msg_with_filter_info :: "endian \<Rightarrow> u16 \<Rightarrow> u16 \<Rightarrow> tc_msg \<Rightarrow> tc_msg" where
  "tc_msg_with_filter_info e protocol priority h =
     tc_msg_with_info (push_bit 16 (ucast priority) OR ucast (u16_to_be e protocol)) h"

lemma u16_to_be_image [simp]: "ne_bytes e 2 (u16_to_be e x) = be_bytes 2 x"
  by (simp add: u16_to_be_def ne_bytes_word)

lemma u16_to_be_twice [simp]: "u16_to_be e (u16_to_be e x) = x"
proof -
  have "be_bytes 2 (u16_to_be e x) = ne_bytes e 2 x"
    by (cases e) (simp_all add: u16_to_be_def ne_word_def ne_bytes_def le_bytes_word ne_word_bytes
        take_bit_word_eq_self le_word_bytes)
  then show ?thesis unfolding u16_to_be_def[of e "u16_to_be e x"] by (simp add: ne_word_bytes)
qed

lemma filter_info_fields:
  "drop_bit 16 (push_bit 16 (ucast (prio :: u16)) OR ucast (p :: u16) :: u32) = ucast prio"
  "ucast (push_bit 16 (ucast (prio :: u16)) OR ucast (p :: u16) :: u32) = p"
  by (rule bit_eqI, auto simp: bit_simps dest: bit_imp_le_length)+

end
