(* ===== verification/Batch.thy ===== *)
theory Batch
  imports Connection Rtnl_Headers
begin

text \<open>
  Batches of requests (\<open>netlink/batch.rs\<close>): messages are buffered, sent in chunks of at most
  200 KiB, and their acknowledgements matched by sequence number.  The configurations are
  values of traits; what they write to the builder is an argument, \<open>None\<close> for a
  configuration that cannot be written.
\<close>

section \<open>Building a batch\<close>

record batch_op =
  op_seq :: u32
  op_msg :: bytes

record batch =
  bt_conn :: connection
  bt_ops :: "batch_op list"

definition batch_new :: "connection \<Rightarrow> batch" where
  "batch_new c = \<lparr>bt_conn = c, bt_ops = []\<rparr>"

definition MAX_BATCH_SIZE :: nat where "MAX_BATCH_SIZE = 200 * 1024"

text \<open>\<open>push\<close>; \<open>None\<close> is a panic of the builder.\<close>

definition batch_push :: "endian \<Rightarrow> message_builder \<Rightarrow> batch \<Rightarrow> batch option" where
  "batch_push e builder b =
     (case stamp e (bt_conn b) builder of
        (None, _) \<Rightarrow> None
      | (Some (seq, msg), c) \<Rightarrow>
          Some \<lparr>bt_conn = c, bt_ops = bt_ops b @ [\<lparr>op_seq = seq, op_msg = msg\<rparr>]\<rparr>)"

type_synonym writer = "message_builder \<Rightarrow> message_builder"
type_synonym fallible_writer = "message_builder \<Rightarrow> message_builder option"

definition create_flags :: u16 where
  "create_flags = NLM_F_REQUEST OR NLM_F_ACK OR NLM_F_CREATE OR NLM_F_EXCL"

definition ack_flags :: u16 where
  "ack_flags = NLM_F_REQUEST OR NLM_F_ACK"

definition batch_add_route :: "endian \<Rightarrow> writer \<Rightarrow> batch \<Rightarrow> batch option" where
  "batch_add_route e write_add b = batch_push e (write_add (mb_new e 24 create_flags)) b"

definition batch_del_route :: "endian \<Rightarrow> writer \<Rightarrow> batch \<Rightarrow> batch option" where
  "batch_del_route e write_delete b = batch_push e (write_delete (mb_new e 25 ack_flags)) b"

definition batch_add_link :: "endian \<Rightarrow> writer \<Rightarrow> batch \<Rightarrow> batch option" where
  "batch_add_link e write_to b =
     batch_push e
       (write_to (append_bytes (if_info_msg_as_bytes e if_info_msg_new) (mb_new e 16 create_flags))) b"

definition batch_del_link_by_index :: "endian \<Rightarrow> u32 \<Rightarrow> batch \<Rightarrow> batch option" where
  "batch_del_link_by_index e ifindex b =
     batch_push e
       (append_bytes (if_info_msg_as_bytes e (if_info_msg_new\<lparr>ifi_index := ifindex\<rparr>))
         (mb_new e 17 ack_flags)) b"

text \<open>A configuration that cannot be written leaves the batch as it is.\<close>

definition batch_push_if_ok :: "endian \<Rightarrow> message_builder option \<Rightarrow> batch \<Rightarrow> batch option" where
  "batch_push_if_ok e written b =
     (case written of Some builder \<Rightarrow> batch_push e builder b | None \<Rightarrow> Some b)"

definition batch_add_address :: "endian \<Rightarrow> fallible_writer \<Rightarrow> batch \<Rightarrow> batch option" where
  "batch_add_address e write_add b = batch_push_if_ok e (write_add (mb_new e 20 create_flags)) b"

definition batch_del_address :: "endian \<Rightarrow> fallible_writer \<Rightarrow> batch \<Rightarrow> batch option" where
  "batch_del_address e write_delete b = batch_push_if_ok e (write_delete (mb_new e 21 ack_flags)) b"

definition batch_add_neighbor :: "endian \<Rightarrow> fallible_writer \<Rightarrow> batch \<Rightarrow> batch option" where
  "batch_add_neighbor e write_add b = batch_push_if_ok e (write_add (mb_new e 28 create_flags)) b"

definition batch_del_neighbor :: "endian \<Rightarrow> fallible_writer \<Rightarrow> batch \<Rightarrow> batch option" where
  "batch_del_neighbor e write_delete b = batch_push_if_ok e (write_delete (mb_new e 29 ack_flags)) b"

definition batch_add_fdb :: "endian \<Rightarrow> writer \<Rightarrow> batch \<Rightarrow> batch option" where
  "batch_add_fdb e write_add b = batch_push e (write_add (mb_new e 28 create_flags)) b"

definition batch_del_fdb :: "endian \<Rightarrow> writer \<Rightarrow> batch \<Rightarrow> batch option" where
  "batch_del_fdb e write_delete b = batch_push e (write_delete (mb_new e 29 ack_flags)) b"

text \<open>\<open>kind\<close>, \<open>default_handle\<close> and \<open>write_options\<close> of a \<open>QdiscConfig\<close>; the root parent is all ones.\<close>

definition batch_add_qdisc :: "endian \<Rightarrow> u32 \<Rightarrow> string \<Rightarrow> u32 option \<Rightarrow> fallible_writer \<Rightarrow> batch \<Rightarrow>
    batch option" where
  "batch_add_qdisc e ifindex kind default_handle write_options b =
     (let tcmsg = tc_msg_with_handle (case default_handle of Some h \<Rightarrow> h | None \<Rightarrow> 0)
            (tc_msg_with_parent 0xFFFFFFFF (tc_msg_with_ifindex ifindex tc_msg_new));
          b1 = append_bytes (tc_msg_as_bytes e tcmsg)
            (mb_new e 36 (NLM_F_REQUEST OR NLM_F_ACK OR NLM_F_CREATE));
          b2 = append_attr_str e 1 kind b1
      in case nest_start e 2 b2 of
        (token, b3) \<Rightarrow>
          (case write_options b3 of
             None \<Rightarrow> Some b
           | Some b4 \<Rightarrow>
               (case nest_end e token b4 of
                  None \<Rightarrow> None
                | Some b5 \<Rightarrow> batch_push e b5 b)))"

definition batch_del_qdisc :: "endian \<Rightarrow> u32 \<Rightarrow> batch \<Rightarrow> batch option" where
  "batch_del_qdisc e ifindex b =
     batch_push e
       (append_bytes (tc_msg_as_bytes e
           (tc_msg_with_parent 0xFFFFFFFF (tc_msg_with_ifindex ifindex tc_msg_new)))
         (mb_new e 37 ack_flags)) b"

definition batch_len :: "batch \<Rightarrow> nat" where
  "batch_len b = length (bt_ops b)"

definition batch_is_empty :: "batch \<Rightarrow> bool" where
  "batch_is_empty b = (bt_ops b = [])"

section \<open>Sending a chunk\<close>

type_synonym op_result = "unit nl_result"

fun position_of :: "u32 \<Rightarrow> batch_op list \<Rightarrow> nat option" where
  "position_of seq [] = None"
| "position_of seq (op # ops) = (if op_seq op = seq then Some 0 else map_option Suc (position_of seq ops))"

text \<open>The messages of one datagram; the state is the results so far and how many are missing.\<close>

fun chunk_scan :: "endian \<Rightarrow> (i32 \<Rightarrow> string) \<Rightarrow> batch_op list \<Rightarrow> op_result option list \<times> nat \<Rightarrow>
    (nl_msg_hdr \<times> bytes) nl_result list \<Rightarrow> (op_result option list \<times> nat, op_result list) scan" where
  "chunk_scan e se ops st [] = Continue st"
| "chunk_scan e se ops st (Inl err # fs) = Return (Inl err)"
| "chunk_scan e se ops (results, remaining) (Inr (header, payload) # fs) =
     (case position_of (nlmsg_seq header) ops of
        None \<Rightarrow> chunk_scan e se ops (results, remaining) fs
      | Some idx \<Rightarrow>
          if results ! idx \<noteq> None then chunk_scan e se ops (results, remaining) fs
          else if hdr_is_error header then
            (case nl_msg_error_from_bytes e payload of
               Inl err \<Rightarrow> Return (Inl err)
             | Inr err \<Rightarrow>
                 (let r = (if is_ack err then Inr () else Inl (into_error e se err payload))
                  in chunk_scan e se ops (results[idx := Some r], remaining - 1) fs))
          else chunk_scan e se ops (results, remaining) fs)"

definition chunk_results :: "op_result option list \<Rightarrow> op_result list" where
  "chunk_results rs = map (\<lambda>r. case r of Some x \<Rightarrow> x | None \<Rightarrow> Inr ()) rs"

definition chunk_step :: "endian \<Rightarrow> (i32 \<Rightarrow> string) \<Rightarrow> batch_op list \<Rightarrow> op_result option list \<times> nat \<Rightarrow>
    bytes \<Rightarrow> (op_result option list \<times> nat, op_result list) scan" where
  "chunk_step e se ops st response =
     (case chunk_scan e se ops st (msgs_of e response) of
        Return r \<Rightarrow> Return r
      | Continue (results, remaining) \<Rightarrow>
          if remaining = 0 then Return (Inr (chunk_results results))
          else Continue (results, remaining))"

text \<open>\<open>while remaining > 0\<close>: an empty chunk needs no answer.\<close>

definition chunk_loop :: "endian \<Rightarrow> (i32 \<Rightarrow> string) \<Rightarrow> batch_op list \<Rightarrow> bytes nl_result list \<Rightarrow>
    op_result list outcome" where
  "chunk_loop e se ops rs =
     (if ops = [] then Returned (Inr [])
      else recv_loop (chunk_step e se ops) (replicate (length ops) None, length ops) rs)"

definition send_chunk :: "endian \<Rightarrow> (i32 \<Rightarrow> string) \<Rightarrow> nat option \<Rightarrow> (bytes \<Rightarrow> unit nl_result option) \<Rightarrow>
    batch_op list \<Rightarrow> bytes nl_result list \<Rightarrow> op_result list outcome" where
  "send_chunk e se limit sent ops rs =
     (case sent (concat (map op_msg ops)) of
        None \<Rightarrow> Waiting
      | Some (Inl err) \<Rightarrow> Returned (Inl err)
      | Some (Inr _) \<Rightarrow> with_timeout limit (chunk_loop e se ops rs))"

section \<open>Executing a batch\<close>

text \<open>
  The splitting loop of \<open>execute\<close>: \<open>start\<close> and \<open>chunk_size\<close> as in the code, \<open>send\<close> the sending of
  one chunk; the \<open>n\<close>-th chunk sent is answered by \<open>answers n\<close>.
\<close>

fun exec_loop :: "(batch_op list \<Rightarrow> nat \<Rightarrow> op_result list outcome) \<Rightarrow> batch_op list \<Rightarrow> nat \<Rightarrow> nat \<Rightarrow> nat \<Rightarrow>
    nat \<Rightarrow> op_result list \<Rightarrow> batch_op list \<Rightarrow> op_result list outcome" where
  "exec_loop send ops n i start chunk_size results [] =
     (if start < length ops then
        (case send (drop start ops) n of
           Returned (Inr rs) \<Rightarrow> Returned (Inr (results @ rs))
         | out \<Rightarrow> out)
      else Returned (Inr results))"
| "exec_loop send ops n i start chunk_size results (op # rest) =
     (if chunk_size + length (op_msg op) > MAX_BATCH_SIZE \<and> chunk_size > 0 then
        (case send (drop start (take i ops)) n of
           Returned (Inr rs) \<Rightarrow>
             exec_loop send ops (Suc n) (Suc i) i (length (op_msg op)) (results @ rs) rest
         | out \<Rightarrow> out)
      else exec_loop send ops n (Suc i) start (chunk_size + length (op_msg op)) results rest)"

definition batch_execute :: "endian \<Rightarrow> (i32 \<Rightarrow> string) \<Rightarrow> (bytes \<Rightarrow> unit nl_result option) \<Rightarrow>
    (nat \<Rightarrow> bytes nl_result list) \<Rightarrow> batch \<Rightarrow> op_result list outcome" where
  "batch_execute e se sent answers b =
     (if bt_ops b = [] then Returned (Inr [])
      else exec_loop (\<lambda>ops n. send_chunk e se (cn_timeout (bt_conn b)) sent ops (answers n))
        (bt_ops b) 0 0 0 0 [] (bt_ops b))"

definition batch_execute_all :: "endian \<Rightarrow> (i32 \<Rightarrow> string) \<Rightarrow> (nl_error \<Rightarrow> string) \<Rightarrow>
    (bytes \<Rightarrow> unit nl_result option) \<Rightarrow> (nat \<Rightarrow> bytes nl_result list) \<Rightarrow> batch \<Rightarrow> unit outcome" where
  "batch_execute_all e se to_text sent answers b =
     (case batch_execute e se sent answers b of
        Returned (Inr rs) \<Rightarrow>
          (case List.find isl rs of
             Some (Inl err) \<Rightarrow> Returned (Inl (InvalidMessage (''batch operation failed: '' @ to_text err)))
           | _ \<Rightarrow> Returned (Inr ()))
      | Returned (Inl err) \<Rightarrow> Returned (Inl err)
      | Waiting \<Rightarrow> Waiting
      | Panicked \<Rightarrow> Panicked)"

text \<open>\<open>BatchResults\<close>.\<close>

definition results_errors :: "op_result list \<Rightarrow> (nat \<times> nl_error) list" where
  "results_errors rs = List.map_filter (\<lambda>(i, r). case r of Inl err \<Rightarrow> Some (i, err) | Inr _ \<Rightarrow> None) (enumerate 0 rs)"

definition results_success_count :: "op_result list \<Rightarrow> nat" where
  "results_success_count rs = length (filter (\<lambda>r. \<not> isl r) rs)"

definition results_error_count :: "op_result list \<Rightarrow> nat" where
  "results_error_count rs = length (filter isl rs)"

definition results_all_ok :: "op_result list \<Rightarrow> bool" where
  "results_all_ok rs = list_all (\<lambda>r. \<not> isl r) rs"

section \<open>The chunks\<close>

text \<open>What the splitting loop sends, as lists.\<close>

fun batch_chunks :: "batch_op list \<Rightarrow> nat \<Rightarrow> batch_op list \<Rightarrow> batch_op list list" where
  "batch_chunks cur chunk_size [] = (if cur = [] then [] else [cur])"
| "batch_chunks cur chunk_size (op # rest) =
     (if chunk_size + length (op_msg op) > MAX_BATCH_SIZE \<and> chunk_size > 0
      then cur # batch_chunks [op] (length (op_msg op)) rest
      else batch_chunks (cur @ [op]) (chunk_size + length (op_msg op)) rest)"

fun send_all :: "(batch_op list \<Rightarrow> nat \<Rightarrow> op_result list outcome) \<Rightarrow> nat \<Rightarrow> op_result list \<Rightarrow>
    batch_op list list \<Rightarrow> op_result list outcome" where
  "send_all send n results [] = Returned (Inr results)"
| "send_all send n results (c # cs) =
     (case send c n of
        Returned (Inr rs) \<Rightarrow> send_all send (Suc n) (results @ rs) cs
      | out \<Rightarrow> out)"

lemma exec_loop_chunks:
  assumes "ops = before @ cur @ rest" "start = length before" "i = length before + length cur"
  shows "exec_loop send ops n i start chunk_size results rest =
    send_all send n results (batch_chunks cur chunk_size rest)"
  using assms
proof (induction rest arbitrary: n i start chunk_size results before cur)
  case Nil
  then show ?case by (auto split: outcome.splits sum.splits)
next
  case (Cons op rest)
  have chunk: "drop start (take i ops) = cur" using Cons.prems by simp
  have next_chunk: "exec_loop send ops (Suc n) (Suc i) i (length (op_msg op)) rs rest =
      send_all send (Suc n) rs (batch_chunks [op] (length (op_msg op)) rest)" for rs
    by (rule Cons.IH[of "before @ cur"]) (use Cons.prems in auto)
  have same_chunk: "exec_loop send ops n (Suc i) start size results rest =
      send_all send n results (batch_chunks (cur @ [op]) size rest)" for size
    by (rule Cons.IH[of before]) (use Cons.prems in auto)
  show ?case
    unfolding exec_loop.simps batch_chunks.simps chunk same_chunk
    by (auto simp: next_chunk split: outcome.splits sum.splits)
qed

abbreviation chunk_bytes :: "batch_op list \<Rightarrow> nat" where
  "chunk_bytes c \<equiv> sum_list (map (\<lambda>op. length (op_msg op)) c)"

lemma batch_chunks_concat: "concat (batch_chunks cur k ops) = cur @ ops"
  by (induction cur k ops rule: batch_chunks.induct) auto

lemma batch_chunks_bound:
  assumes "k = chunk_bytes cur" "k \<le> MAX_BATCH_SIZE \<or> length cur \<le> 1"
    "\<forall>op \<in> set (cur @ ops). op_msg op \<noteq> []"
  shows "\<forall>c \<in> set (batch_chunks cur k ops). c \<noteq> [] \<and> (chunk_bytes c \<le> MAX_BATCH_SIZE \<or> length c = 1)"
  using assms
proof (induction cur k ops rule: batch_chunks.induct)
  case (1 cur k)
  then show ?case by (cases cur) auto
next
  case (2 cur k op rest)
  show ?case
  proof (cases "k + length (op_msg op) > MAX_BATCH_SIZE \<and> k > 0")
    case True
    then have "cur \<noteq> []" using 2(3) by auto
    moreover have "\<forall>c \<in> set (batch_chunks [op] (length (op_msg op)) rest).
        c \<noteq> [] \<and> (chunk_bytes c \<le> MAX_BATCH_SIZE \<or> length c = 1)"
      by (rule 2(1)[OF True]) (use 2(5) in auto)
    moreover have "chunk_bytes cur \<le> MAX_BATCH_SIZE \<or> length cur = 1"
      using 2(3,4) \<open>cur \<noteq> []\<close> by (cases cur) auto
    ultimately show ?thesis using True by auto
  next
    case False
    have "k + length (op_msg op) \<le> MAX_BATCH_SIZE \<or> length (cur @ [op]) \<le> 1"
    proof (cases "k = 0")
      case True
      then have "cur = []" using 2(3,5) by (cases cur) auto
      then show ?thesis by simp
    qed (use False in auto)
    then have "\<forall>c \<in> set (batch_chunks (cur @ [op]) (k + length (op_msg op)) rest).
        c \<noteq> [] \<and> (chunk_bytes c \<le> MAX_BATCH_SIZE \<or> length c = 1)"
      by (intro 2(2)[OF False]) (use 2(3,5) in auto)
    then show ?thesis using False by auto
  qed
qed

section \<open>Matching acknowledgements\<close>

definition is_answer :: "u32 \<Rightarrow> frame \<Rightarrow> bool" where
  "is_answer seq f = (nlmsg_seq (fst f) = seq \<and> hdr_is_error (fst f))"

definition op_verdict :: "endian \<Rightarrow> (i32 \<Rightarrow> string) \<Rightarrow> frame \<Rightarrow> op_result" where
  "op_verdict e se f =
     (case nl_msg_error_from_bytes e (snd f) of
        Inl err \<Rightarrow> Inl err
      | Inr err \<Rightarrow> if is_ack err then Inr () else Inl (into_error e se err (snd f)))"

definition answer_of :: "endian \<Rightarrow> (i32 \<Rightarrow> string) \<Rightarrow> frame list \<Rightarrow> batch_op \<Rightarrow> op_result option" where
  "answer_of e se fs op = map_option (op_verdict e se) (List.find (is_answer (op_seq op)) fs)"

definition chunk_state :: "endian \<Rightarrow> (i32 \<Rightarrow> string) \<Rightarrow> batch_op list \<Rightarrow> frame list \<Rightarrow>
    op_result option list \<times> nat" where
  "chunk_state e se ops fs =
     (map (answer_of e se fs) ops, length (filter (\<lambda>r. r = None) (map (answer_of e se fs) ops)))"

lemma find_append: "List.find P (xs @ ys) = (case List.find P xs of Some x \<Rightarrow> Some x | None \<Rightarrow> List.find P ys)"
  by (induction xs) auto

lemma answer_of_snoc:
  "answer_of e se (fs @ [f]) op =
     (case answer_of e se fs op of
        Some r \<Rightarrow> Some r
      | None \<Rightarrow> if is_answer (op_seq op) f then Some (op_verdict e se f) else None)"
  by (auto simp: answer_of_def find_append split: option.splits)

lemma position_of_None: "position_of s ops = None \<longleftrightarrow> s \<notin> op_seq ` set ops"
  by (induction ops) auto

lemma position_of_Some:
  "position_of s ops = Some i \<Longrightarrow> i < length ops \<and> op_seq (ops ! i) = s"
  by (induction ops arbitrary: i) (auto split: if_splits)

lemma count_update:
  assumes "i < length xs" "P (xs ! i)" "\<not> P v"
  shows "length (filter P (xs[i := v])) = length (filter P xs) - 1"
proof -
  have "filter P xs = filter P (take i xs) @ xs ! i # filter P (drop (Suc i) xs)"
    using assms id_take_nth_drop[of i xs] by (metis filter.simps(2) filter_append)
  moreover have "filter P (xs[i := v]) = filter P (take i xs) @ filter P (drop (Suc i) xs)"
    using assms by (simp add: upd_conv_take_nth_drop)
  ultimately show ?thesis by simp
qed

text \<open>Answers to the operations that can be decoded.\<close>

definition answers_ok :: "endian \<Rightarrow> batch_op list \<Rightarrow> frame list \<Rightarrow> bool" where
  "answers_ok e ops fs =
     list_all (\<lambda>f. hdr_is_error (fst f) \<longrightarrow> nlmsg_seq (fst f) \<in> op_seq ` set ops \<longrightarrow> 20 \<le> length (snd f)) fs"

lemma chunk_scan_step:
  assumes "distinct (map op_seq ops)" "answers_ok e ops [f]"
  shows "chunk_scan e se ops (chunk_state e se ops before) [Inr f] =
    Continue (chunk_state e se ops (before @ [f]))"
proof -
  obtain h p where f: "f = (h, p)" by fastforce
  let ?res = "map (answer_of e se before) ops"
  show ?thesis
  proof (cases "position_of (nlmsg_seq h) ops")
    case None
    then have "answer_of e se (before @ [f]) op = answer_of e se before op" if "op \<in> set ops" for op
      using that by (auto simp: answer_of_snoc is_answer_def f position_of_None split: option.splits)
    then have "map (answer_of e se (before @ [f])) ops = ?res" by simp
    then show ?thesis using None unfolding chunk_state_def by (simp only: f) simp
  next
    case (Some i)
    have i: "i < length ops" "op_seq (ops ! i) = nlmsg_seq h"
      using position_of_Some[OF Some] by auto
    have other: "op_seq (ops ! j) \<noteq> nlmsg_seq h" if "j < length ops" "j \<noteq> i" for j
      using that i assms(1) by (metis length_map nth_eq_iff_index_eq nth_map)
    show ?thesis
    proof (cases "?res ! i = None \<and> hdr_is_error h")
      case False
      have "answer_of e se (before @ [f]) (ops ! j) = answer_of e se before (ops ! j)" if "j < length ops" for j
        using that other[of j] False i
        by (cases "j = i") (auto simp: answer_of_snoc is_answer_def f split: option.splits)
      then have "map (answer_of e se (before @ [f])) ops = ?res" by (simp add: list_eq_iff_nth_eq)
      then have "chunk_state e se ops (before @ [f]) = chunk_state e se ops before"
        unfolding chunk_state_def by (simp only:)
      moreover have "chunk_scan e se ops (chunk_state e se ops before) [Inr f] =
          Continue (chunk_state e se ops before)"
        using Some i False by (auto simp: f chunk_state_def)
      ultimately show ?thesis by simp
    next
      case True
      have "nlmsg_seq h \<in> op_seq ` set ops" using i by (metis imageI nth_mem)
      then have len: "20 \<le> length p" using assms(2) True by (simp add: answers_ok_def f)
      define r where "r = op_verdict e se f"
      have upd: "map (answer_of e se (before @ [f])) ops = ?res[i := Some r]"
      proof (intro nth_equalityI)
        fix j assume "j < length (map (answer_of e se (before @ [f])) ops)"
        then show "map (answer_of e se (before @ [f])) ops ! j = ?res[i := Some r] ! j"
          using other[of j] i True
          by (cases "j = i") (auto simp: answer_of_snoc is_answer_def f r_def split: option.splits)
      qed simp
      have dec: "nl_msg_error_from_bytes e p \<noteq> Inl err" for err
        using len by (simp add: nl_msg_error_from_bytes_def)
      have "length (filter (\<lambda>r. r = None) (?res[i := Some r])) = length (filter (\<lambda>r. r = None) ?res) - 1"
        by (rule count_update) (use i True in auto)
      then show ?thesis
        using Some i True dec
        by (auto simp: f chunk_state_def upd[unfolded f] Let_def r_def op_verdict_def
            simp del: map_append split: sum.splits)
    qed
  qed
qed

lemma chunk_scan_append:
  "chunk_scan e se ops st (map Inr xs @ ys) =
     (case chunk_scan e se ops st (map Inr xs) of
        Return r \<Rightarrow> Return r
      | Continue st' \<Rightarrow> chunk_scan e se ops st' ys)"
proof (induction xs arbitrary: st)
  case (Cons f xs)
  obtain results remaining where st: "st = (results, remaining)" by fastforce
  show ?case using Cons by (cases f) (auto simp: st Let_def split: option.splits sum.splits)
qed simp

lemma chunk_scan_frames:
  assumes "distinct (map op_seq ops)" "answers_ok e ops fs"
  shows "chunk_scan e se ops (chunk_state e se ops before) (map Inr fs) =
    Continue (chunk_state e se ops (before @ fs))"
  using assms(2)
proof (induction fs arbitrary: before)
  case (Cons f fs)
  have "answers_ok e ops [f]" "answers_ok e ops fs" using Cons.prems by (simp_all add: answers_ok_def)
  then show ?case
    using chunk_scan_append[of e se ops "chunk_state e se ops before" "[f]" "map Inr fs"]
      chunk_scan_step[OF assms(1), of e f se before] Cons.IH[of "before @ [f]"]
    by simp
qed simp

lemma answered_stable:
  "answer_of e se fs op = Some r \<Longrightarrow> answer_of e se (fs @ gs) op = Some r"
  by (auto simp: answer_of_def find_append)

lemma chunk_state_done:
  "snd (chunk_state e se ops fs) = 0 \<longleftrightarrow> list_all (\<lambda>op. answer_of e se fs op \<noteq> None) ops"
  by (auto simp: chunk_state_def filter_empty_conv list_all_iff)

lemma chunk_results_state:
  "chunk_results (fst (chunk_state e se ops fs)) =
     map (\<lambda>op. case answer_of e se fs op of Some r \<Rightarrow> r | None \<Rightarrow> Inr ()) ops"
  by (simp add: chunk_results_def chunk_state_def)

lemma chunk_datagrams:
  assumes "distinct (map op_seq ops)" "list_all (list_all frame_ok) ds" "answers_ok e ops (concat ds)"
    "list_all (\<lambda>op. answer_of e se (before @ concat ds) op = Some (verdict op)) ops"
    "snd (chunk_state e se ops before) \<noteq> 0"
  shows "recv_loop (chunk_step e se ops) (chunk_state e se ops before) (received e ds) =
    Returned (Inr (map verdict ops))"
  using assms(2-)
proof (induction ds arbitrary: before)
  case Nil
  then have "list_all (\<lambda>op. answer_of e se before op \<noteq> None) ops" by (simp add: list_all_iff)
  then show ?case using Nil.prems(4) by (simp add: chunk_state_done)
next
  case (Cons d ds)
  have scan: "chunk_scan e se ops (chunk_state e se ops before) (msgs_of e (datagram e d)) =
      Continue (chunk_state e se ops (before @ d))"
    using Cons.prems chunk_scan_frames[OF assms(1), of e d se before]
    by (simp add: msgs_of_datagram answers_ok_def)
  have step: "chunk_step e se ops (chunk_state e se ops before) (datagram e d) =
      (let st = chunk_state e se ops (before @ d)
       in if snd st = 0 then Return (Inr (chunk_results (fst st))) else Continue st)"
    by (simp add: chunk_step_def scan Let_def split: prod.splits)
  show ?case
  proof (cases "snd (chunk_state e se ops (before @ d)) = 0")
    case True
    then have "\<forall>op \<in> set ops. answer_of e se (before @ d) op = Some (verdict op)"
      using Cons.prems(3) answered_stable[of e se "before @ d" _ _ "concat ds"]
      unfolding chunk_state_done by (fastforce simp: list_all_iff)
    then have "chunk_results (fst (chunk_state e se ops (before @ d))) = map verdict ops"
      by (simp add: chunk_results_state)
    then show ?thesis
      using True step by (simp add: received_def)
  next
    case False
    have "recv_loop (chunk_step e se ops) (chunk_state e se ops (before @ d)) (received e ds) =
      Returned (Inr (map verdict ops))"
      by (rule Cons.IH) (use Cons.prems False in \<open>simp_all add: answers_ok_def\<close>)
    then show ?thesis
      using False step by (simp add: received_def)
  qed
qed

lemma chunk_loop_answers:
  assumes "distinct (map op_seq ops)" "list_all (list_all frame_ok) ds" "answers_ok e ops (concat ds)"
    "list_all (\<lambda>op. answer_of e se (concat ds) op = Some (verdict op)) ops"
  shows "chunk_loop e se ops (received e ds) = Returned (Inr (map verdict ops))"
proof (cases "ops = []")
  case False
  have start: "chunk_state e se ops [] = (replicate (length ops) None, length ops)"
    by (simp add: chunk_state_def answer_of_def map_replicate_const[symmetric] filter_replicate o_def)
  then have "snd (chunk_state e se ops []) \<noteq> 0" using False by simp
  then show ?thesis
    using chunk_datagrams[of ops ds e se "[]" verdict] assms False
    by (simp add: chunk_loop_def start)
qed (simp add: chunk_loop_def)

lemma send_all_answers:
  assumes "\<And>k c. k < length cs \<Longrightarrow> c = cs ! k \<Longrightarrow> send c (n + k) = Returned (Inr (map verdict c))"
  shows "send_all send n results cs = Returned (Inr (results @ map verdict (concat cs)))"
  using assms
proof (induction cs arbitrary: n results)
  case (Cons c cs)
  have "send c n = Returned (Inr (map verdict c))" using Cons.prems[of 0 c] by simp
  moreover have "send_all send (Suc n) (results @ map verdict c) cs =
      Returned (Inr ((results @ map verdict c) @ map verdict (concat cs)))"
    by (rule Cons.IH) (use Cons.prems[of "Suc _"] in auto)
  ultimately show ?case by simp
qed simp

text \<open>The kernel's answer to the \<open>k\<close>-th chunk of a batch: it answers every operation.\<close>

definition chunk_answered :: "endian \<Rightarrow> (i32 \<Rightarrow> string) \<Rightarrow> (batch_op \<Rightarrow> op_result) \<Rightarrow> batch_op list \<Rightarrow>
    frame list list \<Rightarrow> bool" where
  "chunk_answered e se verdict c ds =
     (list_all (list_all frame_ok) ds \<and> answers_ok e c (concat ds) \<and>
      list_all (\<lambda>op. answer_of e se (concat ds) op = Some (verdict op)) c)"

text \<open>
  C8. Batches are split and matched correctly, for operations with distinct sequence numbers: the
  chunks are consecutive, none is empty or, unless it is a single message, larger than 200 KiB;
  and when the kernel answers each operation of each chunk, in any order, in any datagrams and
  with other frames mixed in, the results are the verdicts of the operations in the order they
  were added.
\<close>

theorem batch_execute_correct:
  assumes "distinct (map op_seq (bt_ops b))" "\<forall>op \<in> set (bt_ops b). op_msg op \<noteq> []"
    "\<And>msg. sent msg = Some (Inr ())" "chunks = batch_chunks [] 0 (bt_ops b)"
    "\<And>k. k < length chunks \<Longrightarrow> chunk_answered e se verdict (chunks ! k) (ds k)"
  shows "batch_execute e se sent (\<lambda>k. received e (ds k)) b = Returned (Inr (map verdict (bt_ops b))) \<and>
    concat chunks = bt_ops b \<and>
    (\<forall>c \<in> set chunks. c \<noteq> [] \<and> (chunk_bytes c \<le> MAX_BATCH_SIZE \<or> length c = 1))"
proof -
  have concat: "concat chunks = bt_ops b"
    unfolding assms(4) by (simp add: batch_chunks_concat)
  have bound: "\<forall>c \<in> set chunks. c \<noteq> [] \<and> (chunk_bytes c \<le> MAX_BATCH_SIZE \<or> length c = 1)"
    unfolding assms(4) by (rule batch_chunks_bound) (use assms(2) in auto)
  let ?send = "\<lambda>ops n. send_chunk e se (cn_timeout (bt_conn b)) sent ops (received e (ds n))"
  have "?send (chunks ! k) k = Returned (Inr (map verdict (chunks ! k)))" if "k < length chunks" for k
  proof -
    have "distinct (map op_seq (chunks ! k))"
    proof -
      have "distinct (concat (map (map op_seq) chunks))"
        using assms(1) unfolding concat[symmetric] by (simp add: map_concat)
      then show ?thesis using that by (simp add: distinct_concat_iff)
    qed
    then have "chunk_loop e se (chunks ! k) (received e (ds k)) = Returned (Inr (map verdict (chunks ! k)))"
      using assms(5)[OF that] by (intro chunk_loop_answers) (auto simp: chunk_answered_def)
    then show ?thesis by (simp add: send_chunk_def assms(3) with_timeout_def)
  qed
  then have "send_all ?send 0 [] chunks = Returned (Inr (map verdict (bt_ops b)))"
    using send_all_answers[of chunks ?send 0 verdict "[]"] by (simp add: concat)
  moreover have "exec_loop ?send (bt_ops b) 0 0 0 0 [] (bt_ops b) = send_all ?send 0 [] chunks"
    unfolding assms(4) by (rule exec_loop_chunks[of _ "[]"]) simp_all
  ultimately have "batch_execute e se sent (\<lambda>k. received e (ds k)) b =
      Returned (Inr (map verdict (bt_ops b)))"
    by (simp add: batch_execute_def)
  with concat bound show ?thesis by blast
qed

definition two_ops :: batch where
  "two_ops = \<lparr>bt_conn = conn7, bt_ops = [\<lparr>op_seq = 7, op_msg = [1]\<rparr>, \<lparr>op_seq = 8, op_msg = [2]\<rparr>]\<rparr>"

definition two_acks :: "frame list list" where
  "two_acks = [[frame_at 2 0 8 (replicate 20 0)], [frame_at 16 0 0 [5], frame_at 2 0 7 (replicate 20 0)]]"

lemma zero_error: "nl_msg_error_from_bytes LittleEndian (replicate 20 0) =
    Inr \<lparr>error_code = 0, error_msg = nl_msg_hdr_read LittleEndian (replicate 16 0)\<rparr>"
  by (simp add: nl_msg_error_from_bytes_def ne_word_def numeral_eq_Suc)

lemma two_acks_verdict:
  "op_verdict LittleEndian (\<lambda>_. []) (frame_at 2 0 s (replicate 20 0)) = Inr ()"
  unfolding op_verdict_def frame_at_def snd_conv zero_error by (simp add: is_ack_def)

theorem batch_execute_correct_witness:
  "batch_execute LittleEndian (\<lambda>_. []) (\<lambda>_. Some (Inr ())) (\<lambda>k. received LittleEndian two_acks) two_ops =
   Returned (Inr [Inr (), Inr ()])"
proof -
  have chunks: "batch_chunks [] 0 (bt_ops two_ops) = [bt_ops two_ops]"
    by (simp add: two_ops_def MAX_BATCH_SIZE_def)
  have find: "List.find (is_answer 7) (concat two_acks) = Some (frame_at 2 0 7 (replicate 20 0))"
    "List.find (is_answer 8) (concat two_acks) = Some (frame_at 2 0 8 (replicate 20 0))"
    by (simp_all add: two_acks_def is_answer_def frame_at_def hdr_is_error_def ERROR_def)
  have answered: "chunk_answered LittleEndian (\<lambda>_. []) (\<lambda>_. Inr ()) (bt_ops two_ops) two_acks"
    unfolding chunk_answered_def
  proof (intro conjI)
    show "list_all (list_all frame_ok) two_acks"
      by (simp add: two_acks_def frame_ok_def frame_at_def)
    show "answers_ok LittleEndian (bt_ops two_ops) (concat two_acks)"
      by (simp add: answers_ok_def two_acks_def two_ops_def frame_at_def hdr_is_error_def ERROR_def)
    show "list_all (\<lambda>op. answer_of LittleEndian (\<lambda>_. []) (concat two_acks) op = Some (Inr ())) (bt_ops two_ops)"
      using two_acks_verdict by (cases "frame_at 2 0 7 (replicate 20 0)"; cases "frame_at 2 0 8 (replicate 20 0)")
        (simp add: two_ops_def answer_of_def find, metis)
  qed
  have "batch_execute LittleEndian (\<lambda>_. []) (\<lambda>_. Some (Inr ())) (\<lambda>k. received LittleEndian two_acks) two_ops =
    Returned (Inr (map (\<lambda>_. Inr ()) (bt_ops two_ops)))"
    by (rule batch_execute_correct[THEN conjunct1, OF _ _ _ chunks[symmetric]])
      (simp_all add: answered, simp_all add: two_ops_def)
  then show ?thesis by (simp add: two_ops_def)
qed

text \<open>
  An operation whose configuration cannot be written vanishes: the batch is left as it
  was, so the results have no entry for it, the entries after it move up, and a batch of such
  operations only reports that all is well with nothing sent.
\<close>

theorem batch_skips_unwritable:
  assumes "write (mb_new e 20 create_flags) = None"
  shows "batch_add_address e write b = Some b \<and>
    (bt_ops b = [] \<longrightarrow>
       batch_execute e se sent answers (the (batch_add_address e write b)) = Returned (Inr []) \<and>
       results_all_ok [])"
  using assms
  by (simp_all add: batch_add_address_def batch_push_if_ok_def batch_execute_def results_all_ok_def)

theorem batch_skips_unwritable_witness:
  "batch_execute LittleEndian (\<lambda>_. []) (\<lambda>_. None) (\<lambda>_. [])
     (the (batch_add_address LittleEndian (\<lambda>_. None) (batch_new conn7))) = Returned (Inr []) \<and>
   results_all_ok []"
  by (rule batch_skips_unwritable[THEN conjunct2, rule_format]) (simp_all add: batch_new_def)

end
