(* ===== verification/Attr_Walk.thy ===== *)
theory Attr_Walk
  imports Netlink_Parse
begin

text \<open>
  The attribute loop the typed messages of \<open>netlink/messages/\<close> share, over the combinators of
  \<open>winnow\<close>, and its equivalence with the attribute iterator; sequences of optional attributes,
  their bytes, and what a loop over those makes of them.
\<close>

section \<open>The loop\<close>

text \<open>
  One iteration, up to the match on the attribute type: an attribute, or \<open>None\<close> for a
  \<open>break\<close>.
\<close>

definition attr_take :: "winnow \<Rightarrow> endian \<Rightarrow> (u16 \<times> bytes) option parser" where
  "attr_take w e =
     pbind (w_take w 2) (\<lambda>len_bytes. pbind (w_take w 2) (\<lambda>type_bytes.
       let len = unat (ne_word e len_bytes :: u16);
           attr_type = ne_word e type_bytes :: u16
       in if len < 4 then preturn None
          else
            let payload_len = len - 4
            in (\<lambda>input. if length input < payload_len then preturn None input
                else pbind (w_take w payload_len) (\<lambda>attr_data.
                  let padding = nla_align len - len
                  in (\<lambda>input. if length input \<ge> padding
                        then pbind (w_take w padding) (\<lambda>_. preturn (Some (attr_type, attr_data))) input
                        else preturn (Some (attr_type, attr_data)) input)) input)))"

text \<open>Each iteration consumes its header, so the length of the input is fuel enough.\<close>

fun attr_loop :: "winnow \<Rightarrow> endian \<Rightarrow> (u16 \<Rightarrow> bytes \<Rightarrow> 'm \<Rightarrow> 'm) \<Rightarrow> nat \<Rightarrow> 'm \<Rightarrow> 'm parser" where
  "attr_loop w e step 0 msg input = (Inr msg, input)"
| "attr_loop w e step (Suc n) msg input =
     (if input \<noteq> [] \<and> 4 \<le> length input then
        case attr_take w e input of
          (Inl err, rest) \<Rightarrow> (Inl err, rest)
        | (Inr None, rest) \<Rightarrow> (Inr msg, rest)
        | (Inr (Some (attr_type, attr_data)), rest) \<Rightarrow>
            attr_loop w e step n (step (attr_type AND 0x3FFF) attr_data msg) rest
      else (Inr msg, input))"

abbreviation attr_all :: "winnow \<Rightarrow> endian \<Rightarrow> (u16 \<Rightarrow> bytes \<Rightarrow> 'm \<Rightarrow> 'm) \<Rightarrow> 'm \<Rightarrow> 'm parser" where
  "attr_all w e step msg input \<equiv> attr_loop w e step (length input) msg input"

lemma type_mask: "(- 49153 :: u16) = 16383"
  by simp

lemma attr_take_head:
  assumes "winnow_ok w" "4 \<le> length s" "n = unat (ne_word e (take 2 s) :: u16)" "t = ne_word e (take 2 (drop 2 s))"
  shows "attr_take w e s =
     (if n < 4 then preturn None
      else (\<lambda>input. if length input < n - 4 then preturn None input
        else pbind (w_take w (n - 4)) (\<lambda>d. let padding = nla_align n - n in
          (\<lambda>input. if length input \<ge> padding
            then pbind (w_take w padding) (\<lambda>_. preturn (Some (t, d))) input
            else preturn (Some (t, d)) input)) input)) (drop 4 s)"
  using assms by (simp add: attr_take_def pbind_def winnow_take[OF assms(1)] Let_def)

lemma attr_take_step:
  assumes ok: "winnow_ok w" and len: "4 \<le> length s"
  shows "case attr_next e s of
      None \<Rightarrow> \<exists>rest. attr_take w e s = (Inr None, rest)
    | Some ((k, p), rest) \<Rightarrow>
        (\<exists>t rest'. attr_take w e s = (Inr (Some (t, p)), rest') \<and> t AND 0x3FFF = k \<and>
           length rest' < length s \<and> (rest' = rest \<or> (rest = [] \<and> length rest' < 4)))"
proof -
  define n where "n = unat (ne_word e (take 2 s) :: u16)"
  define t :: u16 where "t = ne_word e (take 2 (drop 2 s))"
  have an: "attr_next e s =
      (if n < 4 \<or> n > length s then None
       else Some ((t AND 0x3FFF, drop 4 (take n s)),
                  if nla_align n \<ge> length s then [] else drop (nla_align n) s))"
    using len by (simp add: attr_next_def nl_attr_from_bytes_def nla_kind_def Let_def n_def t_def type_mask)
  note head = attr_take_head[OF ok len n_def t_def]
  show ?thesis
  proof (cases "n < 4 \<or> n > length s")
    case True
    then show ?thesis using len unfolding an head by (auto simp: preturn_def)
  next
    case False
    then have tk: "w_take w (n - 4) (drop 4 s) = (Inr (drop 4 (take n s)), drop n s)"
      using winnow_take[OF ok, of "n - 4" "drop 4 s"] by (simp add: drop_take diff_le_mono)
    have al: "n \<le> nla_align n" "nla_align n < n + 4" by (simp_all add: nla_align_lt)
    moreover have "0 < nla_align n" using al(1) False by linarith
    moreover have pad: "w_take w (nla_align n - n) (drop n s) = (Inr (take (nla_align n - n) (drop n s)), drop (nla_align n) s)"
      if "nla_align n - n \<le> length s - n"
      using winnow_take[OF ok, of "nla_align n - n" "drop n s"] that by simp
    ultimately show ?thesis
      using False len unfolding an head
      by (auto simp: tk pad pbind_def preturn_def Let_def)
  qed
qed

lemma attr_loop_attrs:
  assumes ok: "winnow_ok w" and "length s \<le> n"
  shows "fst (attr_loop w e step n msg s) = Inr (fold (\<lambda>(k, d). step k d) (attrs_of e s) msg)"
  using assms(2)
proof (induction n arbitrary: s msg)
  case (Suc n)
  show ?case
  proof (cases "4 \<le> length s")
    case True
    note step = attr_take_step[OF ok True, of e]
    show ?thesis
    proof (cases "attr_next e s")
      case None
      then show ?thesis
        using step True unfolding attrs_of_def by (auto simp: attr_it.iter_None)
    next
      case (Some kr)
      then obtain k d rest where nx: "attr_next e s = Some ((k, d), rest)" by (metis surj_pair)
      then obtain t rest' where tk: "attr_take w e s = (Inr (Some (t, d)), rest')" "t AND 0x3FFF = k"
        "length rest' < length s" and r: "rest' = rest \<or> (rest = [] \<and> length rest' < 4)"
        using step by auto
      have "attrs_of e rest' = attrs_of e rest"
        using r unfolding attrs_of_def by (auto simp: attr_it.iter_None attr_next_def)
      moreover have "attrs_of e s = (k, d) # attrs_of e rest"
        unfolding attrs_of_def by (rule attr_it.iter_Some[OF nx])
      moreover have "length rest' \<le> n" using tk(3) Suc.prems by simp
      moreover have "s \<noteq> []" using True by auto
      ultimately show ?thesis using Suc.IH[of rest' "step k d msg"] tk True by simp
    qed
  next
    case False
    then have "attr_next e s = None" by (simp add: attr_next_def)
    then show ?thesis using False unfolding attrs_of_def by (auto simp: attr_it.iter_None)
  qed
qed (simp add: attrs_of_def attr_it.iter_None attr_next_def)

section \<open>Sequences of optional attributes\<close>

type_synonym opt_attr = "u16 \<times> bytes option"

definition opt_wire :: "endian \<Rightarrow> opt_attr list \<Rightarrow> bytes" where
  "opt_wire e ats = concat (map (\<lambda>(t, v). case v of None \<Rightarrow> [] | Some d \<Rightarrow> attr_wire e t d) ats)"

definition opt_fold :: "(u16 \<Rightarrow> bytes \<Rightarrow> 'o \<Rightarrow> 'o) \<Rightarrow> opt_attr list \<Rightarrow> 'o \<Rightarrow> 'o" where
  "opt_fold step ats opts = fold (\<lambda>(t, v) acc. case v of None \<Rightarrow> acc | Some d \<Rightarrow> step t d acc) ats opts"

definition opt_ok :: "opt_attr \<Rightarrow> bool" where
  "opt_ok a = (fst a AND 0x3FFF = fst a \<and> (case snd a of None \<Rightarrow> True | Some d \<Rightarrow> length d \<le> 65531))"

lemma opt_wire_simps:
  "opt_wire e [] = []"
  "opt_wire e ((t, v) # ats) = (case v of None \<Rightarrow> [] | Some d \<Rightarrow> attr_wire e t d) @ opt_wire e ats"
  by (simp_all add: opt_wire_def)

lemma opt_wire_dvd: "4 dvd length (opt_wire e ats)"
  by (induction ats) (auto simp: opt_wire_simps split: option.split)

lemma attrs_fold_opts:
  "list_all opt_ok ats \<Longrightarrow> fold (\<lambda>(k, d). step k d) (attrs_of e (opt_wire e ats)) acc = opt_fold step ats acc"
proof (induction ats arbitrary: acc)
  case (Cons a ats)
  then show ?case
    by (cases a; cases "snd a") (auto simp: opt_wire_simps opt_fold_def opt_ok_def attrs_of_wire type_mask)
qed (simp add: opt_wire_simps opt_fold_def)

text \<open>On such a sequence the loop stops at the end of the input.\<close>

lemma attr_take_wire:
  assumes "winnow_ok w" "length d \<le> 65531"
  shows "attr_take w e (attr_wire e t d @ r) = (Inr (Some (t, d)), r)"
proof -
  define s where "s = attr_wire e t d @ r"
  have h: "take 2 s = ne_bytes e 2 (nla_len (nl_attr_new t (length d)))" "take 2 (drop 2 s) = ne_bytes e 2 t"
    "drop 4 s = d @ attr_pad (length d) @ r" "4 \<le> length s"
    by (simp_all add: s_def attr_wire_def nl_attr_as_bytes_def)
  have n: "unat (nla_len (nl_attr_new t (length d))) = 4 + length d" by (rule nl_attr_new_len[OF assms(2)])
  have pad: "length (attr_pad (length d)) = nla_align (4 + length d) - (4 + length d)"
    by (simp add: length_attr_pad)
  have n': "4 + length d = unat (ne_word e (take 2 s) :: u16)" "t = ne_word e (take 2 (drop 2 s))"
    by (simp_all add: h n ne_word_bytes)
  have "attr_take w e s = (Inr (Some (t, d)), r)"
    using winnow_take[OF assms(1), of "length d" "d @ attr_pad (length d) @ r"]
      winnow_take[OF assms(1), of "length (attr_pad (length d))" "attr_pad (length d) @ r"]
    unfolding attr_take_head[OF assms(1) h(4) n'] h(3)
    by (simp add: pbind_def preturn_def Let_def pad[symmetric] del: nla_align_4)
  then show ?thesis by (simp add: s_def)
qed

lemma attr_loop_opts:
  assumes "winnow_ok w" "list_all opt_ok ats" "length (opt_wire e ats) \<le> n"
  shows "attr_loop w e step n msg (opt_wire e ats) = (Inr (opt_fold step ats msg), [])"
  using assms(2,3)
proof (induction ats arbitrary: msg n)
  case Nil
  then show ?case by (cases n) (simp_all add: opt_wire_simps opt_fold_def)
next
  case (Cons a ats)
  obtain t v where a: "a = (t, v)" by fastforce
  show ?case
  proof (cases v)
    case None
    then show ?thesis using Cons a by (simp add: opt_wire_simps opt_fold_def)
  next
    case (Some d)
    have "opt_ok (t, Some d)" and ats: "list_all opt_ok ats" using Cons.prems(1) a Some by simp_all
    then have ok: "length d \<le> 65531" "t AND 0x3FFF = t" by (simp_all add: opt_ok_def)
    have len: "length (opt_wire e ats) + 4 + nla_align (length d) \<le> n"
      using Cons.prems(2) a Some by (simp add: opt_wire_simps length_attr_wire)
    then obtain m where m: "n = Suc m" by (cases n) auto
    have "attr_loop w e step m (step t d msg) (opt_wire e ats) = (Inr (opt_fold step ats (step t d msg)), [])"
      by (rule Cons.IH[OF ats]) (use len m in simp)
    moreover have "attr_wire e t d \<noteq> []" "4 \<le> length (attr_wire e t d)"
      using length_attr_wire[of e t d] by (auto simp flip: length_greater_0_conv)
    ultimately show ?thesis
      using ok a Some m by (simp add: attr_take_wire[OF assms(1)] opt_wire_simps opt_fold_def)
  qed
qed

text \<open>
  Reading a sequence back field by field: the step for an attribute that was written from
  \<open>v\<close> sets the field to \<open>v\<close>.
\<close>

lemma opt_fold_put:
  assumes "\<And>a. v = Some a \<Longrightarrow> step t (g a) acc = put (Some a) acc" "put None acc = acc"
    and "opt_fold step ats (put v acc) = r"
  shows "opt_fold step ((t, map_option g v) # ats) acc = r"
  using assms by (cases v) (simp_all add: opt_fold_def)

lemma opt_fold_Nil: "acc = r \<Longrightarrow> opt_fold step [] acc = r"
  by (simp add: opt_fold_def)

section \<open>Loops without combinators\<close>

text \<open>The loop over attributes that the parsers of options and nests spell out.\<close>

function options_walk :: "endian \<Rightarrow> (u16 \<Rightarrow> bytes \<Rightarrow> 'o \<Rightarrow> 'o) \<Rightarrow> bytes \<Rightarrow> 'o \<Rightarrow> 'o" where
  "options_walk e step input opts =
     (if length input < 4 then opts
      else
        let len = unat (ne_word e (take 2 input) :: u16);
            attr_type = ne_word e (take 2 (drop 2 input)) :: u16
        in if len < 4 \<or> length input < len then opts
           else
             let payload = drop 4 (take len input);
                 opts = step (attr_type AND 0x3FFF) payload opts;
                 aligned = nla_align len
             in if length input \<le> aligned then opts
                else options_walk e step (drop aligned input) opts)"
  by pat_completeness auto
termination
  by (relation "measure (\<lambda>(e, step, input, opts). length input)")
    (auto simp: nla_align_def)

declare options_walk.simps [simp del]

abbreviation read_u32 :: "endian \<Rightarrow> bytes \<Rightarrow> u32" where
  "read_u32 e payload \<equiv> ne_word e (take 4 payload)"

abbreviation read_at :: "endian \<Rightarrow> nat \<Rightarrow> bytes \<Rightarrow> u32" where
  "read_at e off payload \<equiv> ne_word e (take 4 (drop off payload))"

text \<open>The same loop with an index into the data, as the parsers of the bond and BPF nests write it.\<close>

function index_walk :: "endian \<Rightarrow> (u16 \<Rightarrow> bytes \<Rightarrow> 'o \<Rightarrow> 'o) \<Rightarrow> bytes \<Rightarrow> nat \<Rightarrow> 'o \<Rightarrow> 'o" where
  "index_walk e step data pos info =
     (if \<not> pos + 4 \<le> length data then info
      else
        let len = unat (ne_word e (take 2 (drop pos data)) :: u16);
            attr_type = ne_word e (take 2 (drop (pos + 2) data)) AND 0x3FFF
        in if len < 4 \<or> pos + len > length data then info
           else index_walk e step data (pos + nla_align len) (step attr_type (drop 4 (take len (drop pos data))) info))"
  by pat_completeness auto
termination
  by (relation "measure (\<lambda>(e, step, data, pos, info). length data - pos)") (auto simp: nla_align_def)

declare index_walk.simps [simp del]

text \<open>Both are the attribute iterator.\<close>

lemma options_walk_attrs:
  "options_walk e step data opts = fold (\<lambda>(k, d). step k d) (attrs_of e data) opts"
proof (induction e step data opts rule: options_walk.induct)
  case (1 e step input opts)
  show ?case
  proof (cases "attr_next e input")
    case None
    then show ?thesis
      unfolding attrs_of_def
      by (subst options_walk.simps, subst attr_it.iter_None)
        (auto simp: attr_next_def nl_attr_from_bytes_def Let_def split: if_splits)
  next
    case (Some kr)
    then obtain k d rest where kr: "attr_next e input = Some ((k, d), rest)" by (metis surj_pair)
    let ?len = "unat (ne_word e (take 2 input) :: u16)"
    have ok: "\<not> length input < 4" "\<not> (?len < 4 \<or> length input < ?len)"
      and k: "k = (ne_word e (take 2 (drop 2 input)) :: u16) AND 0x3FFF"
      and d: "d = drop 4 (take ?len input)"
      and rest: "rest = (if length input \<le> nla_align ?len then [] else drop (nla_align ?len) input)"
      using kr by (auto simp: attr_next_def nl_attr_from_bytes_def nla_kind_def Let_def type_mask split: if_splits)
    have "attrs_of e input = (k, d) # attrs_of e rest"
      unfolding attrs_of_def by (rule attr_it.iter_Some[OF kr])
    then show ?thesis
      using 1[OF ok(1) refl refl ok(2)] unfolding rest k d
      by (subst options_walk.simps) (use ok in \<open>simp add: Let_def\<close>)
  qed
qed

lemma index_walk_options:
  "index_walk e step data pos info = options_walk e step (drop pos data) info"
proof (induction e step data pos info rule: index_walk.induct)
  case (1 e step data pos info)
  show ?case
  proof (cases "length data < pos + 4")
    case True
    then show ?thesis by (subst index_walk.simps, subst options_walk.simps) auto
  next
    case False
    then show ?thesis
      using 1[OF _ refl refl]
      by (subst index_walk.simps, subst options_walk.simps)
        (auto simp: Let_def add.commute options_walk.simps[of e step "drop _ data"])
  qed
qed

lemma index_walk_attrs: "index_walk e step data 0 info = fold (\<lambda>(k, d). step k d) (attrs_of e data) info"
  by (simp add: index_walk_options options_walk_attrs)

lemma options_walk_opts:
  "list_all opt_ok ats \<Longrightarrow> options_walk e step (opt_wire e ats) opts = opt_fold step ats opts"
  unfolding options_walk_attrs by (rule attrs_fold_opts)

end
