(* ===== verification/Rtnl_Messages.thy ===== *)
theory Rtnl_Messages
  imports Attr_Walk Rtnl_Headers
begin

text \<open>
  The typed messages of addresses and routes (\<open>netlink/messages/address.rs\<close>, \<open>route.rs\<close>):
  their fields and accessors, parsers and writers, and that what is written parses back.
  A structure is read from its bytes wherever they are in memory; the buffers the library
  reads have the alignment \<open>zerocopy\<close> asks for.
\<close>

section \<open>Enumerations of the headers\<close>

datatype scope = ScopeUniverse | ScopeSite | ScopeLink | ScopeHost | ScopeNowhere

definition scope_from :: "u8 \<Rightarrow> scope" where
  "scope_from v =
     (if v = 0 then ScopeUniverse else if v = 200 then ScopeSite else if v = 253 then ScopeLink
      else if v = 254 then ScopeHost else if v = 255 then ScopeNowhere else ScopeUniverse)"

datatype route_type =
    RtUnspec | RtUnicast | RtLocal | RtBroadcast | RtAnycast | RtMulticast | RtBlackhole
  | RtUnreachable | RtProhibit | RtThrow | RtNat | RtExternalResolver

definition route_type_from :: "u8 \<Rightarrow> route_type" where
  "route_type_from v =
     (if v = 0 then RtUnspec else if v = 1 then RtUnicast else if v = 2 then RtLocal
      else if v = 3 then RtBroadcast else if v = 4 then RtAnycast else if v = 5 then RtMulticast
      else if v = 6 then RtBlackhole else if v = 7 then RtUnreachable else if v = 8 then RtProhibit
      else if v = 9 then RtThrow else if v = 10 then RtNat else if v = 11 then RtExternalResolver
      else RtUnspec)"

datatype route_protocol =
    RpUnspec | RpRedirect | RpKernel | RpBoot | RpStatic | RpGated | RpRa | RpMrt | RpZebra | RpBird
  | RpDnrouted | RpXorp | RpNtk | RpDhcp | RpMrouted | RpKeepalived | RpBabel | RpBgp | RpIsis
  | RpOspf | RpRip | RpEigrp

definition route_protocol_from :: "u8 \<Rightarrow> route_protocol" where
  "route_protocol_from v =
     (if v = 0 then RpUnspec else if v = 1 then RpRedirect else if v = 2 then RpKernel
      else if v = 3 then RpBoot else if v = 4 then RpStatic else if v = 8 then RpGated
      else if v = 9 then RpRa else if v = 10 then RpMrt else if v = 11 then RpZebra
      else if v = 12 then RpBird else if v = 13 then RpDnrouted else if v = 14 then RpXorp
      else if v = 15 then RpNtk else if v = 16 then RpDhcp else if v = 17 then RpMrouted
      else if v = 18 then RpKeepalived else if v = 42 then RpBabel else if v = 186 then RpBgp
      else if v = 187 then RpIsis else if v = 188 then RpOspf else if v = 189 then RpRip
      else if v = 192 then RpEigrp else RpUnspec)"

section \<open>Address messages\<close>

record address_cache_info =
  ci_preferred :: u32
  ci_valid :: u32
  ci_created :: u32
  ci_updated :: u32

record address_message =
  am_header :: if_addr_msg
  am_address :: "ip_addr option"
  am_local :: "ip_addr option"
  am_label :: "string option"
  am_broadcast :: "ip_addr option"
  am_anycast :: "ip_addr option"
  am_flags :: "u32 option"
  am_cache_info :: "address_cache_info option"

definition address_message_of :: "if_addr_msg \<Rightarrow> address_message" where
  "address_message_of h =
     \<lparr>am_header = h, am_address = None, am_local = None, am_label = None, am_broadcast = None,
      am_anycast = None, am_flags = None, am_cache_info = None\<rparr>"

definition address_prefix_len :: "address_message \<Rightarrow> u8" where
  "address_prefix_len m = ifa_prefixlen (am_header m)"

definition address_ifindex :: "address_message \<Rightarrow> u32" where
  "address_ifindex m = ifa_index (am_header m)"

definition address_scope :: "address_message \<Rightarrow> scope" where
  "address_scope m = scope_from (ifa_scope (am_header m))"

definition address_flags :: "address_message \<Rightarrow> u32" where
  "address_flags m = (case am_flags m of Some f \<Rightarrow> f | None \<Rightarrow> ucast (ifa_flags (am_header m)))"

definition primary_address :: "address_message \<Rightarrow> ip_addr option" where
  "primary_address m = (case am_local m of Some a \<Rightarrow> Some a | None \<Rightarrow> am_address m)"

definition address_is_ipv4 :: "address_message \<Rightarrow> bool" where
  "address_is_ipv4 m = (ifa_family (am_header m) = 2)"

definition ifa_cacheinfo :: "endian \<Rightarrow> bytes \<Rightarrow> address_cache_info option" where
  "ifa_cacheinfo e d =
     (if length d < 16 then None
      else Some \<lparr>ci_preferred = ne_word e (take 4 d), ci_valid = ne_word e (take 4 (drop 4 d)),
                 ci_created = ne_word e (take 4 (drop 8 d)), ci_updated = ne_word e (take 4 (drop 12 d))\<rparr>)"

definition ip_attr :: "u8 \<Rightarrow> bytes \<Rightarrow> (ip_addr \<Rightarrow> 'm \<Rightarrow> 'm) \<Rightarrow> 'm \<Rightarrow> 'm" where
  "ip_attr family d put m = (case parse_ip_addr d family of Inr a \<Rightarrow> put a m | Inl _ \<Rightarrow> m)"

definition address_attr :: "endian \<Rightarrow> u8 \<Rightarrow> u16 \<Rightarrow> bytes \<Rightarrow> address_message \<Rightarrow> address_message" where
  "address_attr e family t d m =
     (if t = 1 then ip_attr family d (\<lambda>a m. m\<lparr>am_address := Some a\<rparr>) m
      else if t = 2 then ip_attr family d (\<lambda>a m. m\<lparr>am_local := Some a\<rparr>) m
      else if t = 3 then m\<lparr>am_label := Some (parse_string_from_bytes d)\<rparr>
      else if t = 4 then ip_attr family d (\<lambda>a m. m\<lparr>am_broadcast := Some a\<rparr>) m
      else if t = 5 then ip_attr family d (\<lambda>a m. m\<lparr>am_anycast := Some a\<rparr>) m
      else if t = 8 \<and> 4 \<le> length d then m\<lparr>am_flags := Some (ne_word e (take 4 d))\<rparr>
      else if t = 6 then (case ifa_cacheinfo e d of Some i \<Rightarrow> m\<lparr>am_cache_info := Some i\<rparr> | None \<Rightarrow> m)
      else m)"

definition address_parse :: "winnow \<Rightarrow> endian \<Rightarrow> address_message parser" where
  "address_parse w e input =
     (if length input < 8 then pfail Cut input
      else pbind (w_take w 8) (\<lambda>header_bytes.
        case if_addr_msg_from_bytes e header_bytes of
          Inl _ \<Rightarrow> pfail Cut
        | Inr header \<Rightarrow> attr_all w e (address_attr e (ifa_family header)) (address_message_of header)) input)"

text \<open>\<open>write_attr\<close> takes the length of its payload from \<open>netlink_len\<close>.\<close>

definition write_attr :: "endian \<Rightarrow> u16 \<Rightarrow> nat \<Rightarrow> (bytes \<Rightarrow> nat \<times> bytes) \<Rightarrow> bytes \<Rightarrow> bytes" where
  "write_attr e t payload_len write_to buf =
     (let len = 4 + payload_len;
          buf = buf @ ne_bytes e 2 (of_nat len :: u16);
          buf = buf @ ne_bytes e 2 t;
          buf = snd (write_to buf);
          padding = nla_align len - len
      in buf @ replicate padding 0)"

definition write_attr_str :: "endian \<Rightarrow> u16 \<Rightarrow> string \<Rightarrow> bytes \<Rightarrow> bytes" where
  "write_attr_str e t v buf =
     (let len = 4 + (length v + 1);
          buf = buf @ ne_bytes e 2 (of_nat len :: u16);
          buf = buf @ ne_bytes e 2 t;
          buf = buf @ bytes_of_str v @ [0];
          padding = nla_align len - len
      in buf @ replicate padding 0)"

definition on_some :: "'a option \<Rightarrow> ('a \<Rightarrow> 'b \<Rightarrow> 'b) \<Rightarrow> 'b \<Rightarrow> 'b" where
  "on_some v f b = (case v of None \<Rightarrow> b | Some x \<Rightarrow> f x b)"

abbreviation write_attr_addr :: "endian \<Rightarrow> u16 \<Rightarrow> ip_addr \<Rightarrow> bytes \<Rightarrow> bytes" where
  "write_attr_addr e t a \<equiv> write_attr e t (ip_netlink_len a) (write_ip a)"

definition address_write_to :: "endian \<Rightarrow> address_message \<Rightarrow> bytes \<Rightarrow> nat \<times> bytes" where
  "address_write_to e m buf =
     (let start = length buf;
          buf = buf @ if_addr_msg_as_bytes e (am_header m);
          buf = on_some (am_address m) (write_attr_addr e 1) buf;
          buf = on_some (am_local m) (write_attr_addr e 2) buf;
          buf = on_some (am_label m) (write_attr_str e 3) buf;
          buf = on_some (am_broadcast m) (write_attr_addr e 4) buf;
          buf = on_some (am_flags m) (\<lambda>f. write_attr e 8 4 (write_u32 e f)) buf
      in (length buf - start, buf))"

abbreviation opt_len :: "'a option \<Rightarrow> nat \<Rightarrow> nat" where
  "opt_len v n \<equiv> (case v of None \<Rightarrow> 0 | Some _ \<Rightarrow> nla_size n)"

definition address_netlink_len :: "address_message \<Rightarrow> nat" where
  "address_netlink_len m =
     (let ip = (if address_is_ipv4 m then 4 else 16)
      in 8 + opt_len (am_address m) ip + opt_len (am_local m) ip
         + (case am_label m of None \<Rightarrow> 0 | Some l \<Rightarrow> nla_size (length l + 1))
         + opt_len (am_broadcast m) 4 + opt_len (am_flags m) 4)"

section \<open>Route messages\<close>

record parsed_next_hop =
  nh_ifindex :: u32
  nh_weight :: u8
  nh_flags_byte :: u8
  nh_gateway :: "ip_addr option"

record route_message =
  rm_header :: rt_msg
  rm_destination :: "ip_addr option"
  rm_source :: "ip_addr option"
  rm_iif :: "u32 option"
  rm_oif :: "u32 option"
  rm_gateway :: "ip_addr option"
  rm_priority :: "u32 option"
  rm_prefsrc :: "ip_addr option"
  rm_table :: "u32 option"
  rm_pref :: "u8 option"
  rm_expires :: "u32 option"
  rm_multipath :: "parsed_next_hop list option"

definition route_message_of :: "rt_msg \<Rightarrow> route_message" where
  "route_message_of h =
     \<lparr>rm_header = h, rm_destination = None, rm_source = None, rm_iif = None, rm_oif = None,
      rm_gateway = None, rm_priority = None, rm_prefsrc = None, rm_table = None, rm_pref = None,
      rm_expires = None, rm_multipath = None\<rparr>"

definition route_dst_len :: "route_message \<Rightarrow> u8" where
  "route_dst_len m = rtm_dst_len (rm_header m)"

definition route_kind :: "route_message \<Rightarrow> route_type" where
  "route_kind m = route_type_from (rtm_type (rm_header m))"

definition route_protocol_of :: "route_message \<Rightarrow> route_protocol" where
  "route_protocol_of m = route_protocol_from (rtm_protocol (rm_header m))"

definition table_id :: "route_message \<Rightarrow> u32" where
  "table_id m = (case rm_table m of Some t \<Rightarrow> t | None \<Rightarrow> ucast (rtm_table (rm_header m)))"

definition route_is_ipv4 :: "route_message \<Rightarrow> bool" where
  "route_is_ipv4 m = (rtm_family (rm_header m) = 2)"

function nested_gateway :: "endian \<Rightarrow> u8 \<Rightarrow> bytes \<Rightarrow> nat \<Rightarrow> nat \<Rightarrow> ip_addr option \<Rightarrow> ip_addr option" where
  "nested_gateway e family data nested_end nested gateway =
     (if nested + 4 \<le> nested_end then
        let nla_len = unat (ne_word e (take 2 (drop nested data)) :: u16);
            nla_type = ne_word e (take 2 (drop (nested + 2) data)) :: u16
        in if nla_len < 4 \<or> nested + nla_len > nested_end then gateway
           else
             let payload = take (nla_len - 4) (drop (nested + 4) data);
                 gateway = (if nla_type AND 0x3FFF = 5
                    then (case parse_ip_addr payload family of Inr a \<Rightarrow> Some a | Inl _ \<Rightarrow> gateway) else gateway)
             in nested_gateway e family data nested_end (nested + max (nla_align nla_len) 4) gateway
      else gateway)"
  by pat_completeness auto
termination
  by (relation "measure (\<lambda>(e, family, data, nested_end, nested, gateway). nested_end - nested)") auto

function multipath_from :: "endian \<Rightarrow> u8 \<Rightarrow> bytes \<Rightarrow> nat \<Rightarrow> parsed_next_hop list" where
  "multipath_from e family data offset =
     (if offset + 8 \<le> length data then
        let rtnh_len = unat (ne_word e (take 2 (drop offset data)) :: u16);
            flags = data ! (offset + 2);
            hops = data ! (offset + 3);
            ifindex = ne_word e (take 4 (drop (offset + 4) data))
        in if rtnh_len < 8 \<or> offset + rtnh_len > length data then []
           else \<lparr>nh_ifindex = ifindex, nh_weight = (if hops = 255 then 255 else hops + 1),
                 nh_flags_byte = flags,
                 nh_gateway = nested_gateway e family data (offset + rtnh_len) (offset + 8) None\<rparr>
                # multipath_from e family data (offset + max (nla_align rtnh_len) 8)
      else [])"
  by pat_completeness auto
termination
  by (relation "measure (\<lambda>(e, family, data, offset). length data - offset)") auto

declare nested_gateway.simps [simp del] multipath_from.simps [simp del]

definition parse_multipath :: "endian \<Rightarrow> bytes \<Rightarrow> u8 \<Rightarrow> parsed_next_hop list" where
  "parse_multipath e data family = multipath_from e family data 0"

definition route_attr :: "endian \<Rightarrow> u8 \<Rightarrow> u16 \<Rightarrow> bytes \<Rightarrow> route_message \<Rightarrow> route_message" where
  "route_attr e family t d m =
     (if t = 1 then ip_attr family d (\<lambda>a m. m\<lparr>rm_destination := Some a\<rparr>) m
      else if t = 2 then ip_attr family d (\<lambda>a m. m\<lparr>rm_source := Some a\<rparr>) m
      else if t = 3 \<and> 4 \<le> length d then m\<lparr>rm_iif := Some (ne_word e (take 4 d))\<rparr>
      else if t = 4 \<and> 4 \<le> length d then m\<lparr>rm_oif := Some (ne_word e (take 4 d))\<rparr>
      else if t = 5 then ip_attr family d (\<lambda>a m. m\<lparr>rm_gateway := Some a\<rparr>) m
      else if t = 6 \<and> 4 \<le> length d then m\<lparr>rm_priority := Some (ne_word e (take 4 d))\<rparr>
      else if t = 7 then ip_attr family d (\<lambda>a m. m\<lparr>rm_prefsrc := Some a\<rparr>) m
      else if t = 15 \<and> 4 \<le> length d then m\<lparr>rm_table := Some (ne_word e (take 4 d))\<rparr>
      else if t = 20 \<and> d \<noteq> [] then m\<lparr>rm_pref := Some (d ! 0)\<rparr>
      else if t = 23 \<and> 4 \<le> length d then m\<lparr>rm_expires := Some (ne_word e (take 4 d))\<rparr>
      else if t = 9 then
        (let nexthops = parse_multipath e d family
         in if nexthops \<noteq> [] then m\<lparr>rm_multipath := Some nexthops\<rparr> else m)
      else m)"

definition route_parse :: "winnow \<Rightarrow> endian \<Rightarrow> route_message parser" where
  "route_parse w e input =
     (if length input < 12 then pfail Cut input
      else pbind (w_take w 12) (\<lambda>header_bytes.
        case rt_msg_from_bytes e header_bytes of
          Inl _ \<Rightarrow> pfail Cut
        | Inr header \<Rightarrow> attr_all w e (route_attr e (rtm_family header)) (route_message_of header)) input)"

definition write_attr_u32 :: "endian \<Rightarrow> u16 \<Rightarrow> u32 \<Rightarrow> bytes \<Rightarrow> bytes" where
  "write_attr_u32 e t v buf = buf @ ne_bytes e 2 (8 :: u16) @ ne_bytes e 2 t @ ne_bytes e 4 v"

definition write_attr_ip :: "endian \<Rightarrow> u16 \<Rightarrow> ip_addr \<Rightarrow> bytes \<Rightarrow> bytes" where
  "write_attr_ip e t a buf =
     (let octets = ip_octets a;
          len = 4 + length octets
      in buf @ ne_bytes e 2 (of_nat len :: u16) @ ne_bytes e 2 t @ octets @ replicate (nla_align len - len) 0)"

definition write_attr_u8_padded :: "endian \<Rightarrow> u16 \<Rightarrow> u8 \<Rightarrow> bytes \<Rightarrow> bytes" where
  "write_attr_u8_padded e t v buf = buf @ ne_bytes e 2 (5 :: u16) @ ne_bytes e 2 t @ [v] @ [0, 0, 0]"

text \<open>A field written when what it measures is complete.\<close>

definition backfill :: "nat \<Rightarrow> bytes \<Rightarrow> bytes \<Rightarrow> bytes" where
  "backfill off new buf = take off buf @ new @ drop (off + length new) buf"

definition write_next_hop :: "endian \<Rightarrow> parsed_next_hop \<Rightarrow> bytes \<Rightarrow> bytes" where
  "write_next_hop e nh buf =
     (let nh_start = length buf;
          buf = buf @ ne_bytes e 2 (0 :: u16);
          buf = buf @ [nh_flags_byte nh];
          buf = buf @ [if nh_weight nh = 0 then 0 else nh_weight nh - 1];
          buf = buf @ ne_bytes e 4 (nh_ifindex nh);
          buf = on_some (nh_gateway nh) (write_attr_ip e 5) buf;
          rtnh_len = of_nat (length buf - nh_start) :: u16;
          buf = backfill nh_start (ne_bytes e 2 rtnh_len) buf
      in buf @ replicate ((4 - (length buf - nh_start) mod 4) mod 4) 0)"

definition write_attr_multipath :: "endian \<Rightarrow> u16 \<Rightarrow> parsed_next_hop list \<Rightarrow> bytes \<Rightarrow> bytes" where
  "write_attr_multipath e t nexthops buf =
     (let attr_header_offset = length buf;
          buf = buf @ ne_bytes e 2 (0 :: u16);
          buf = buf @ ne_bytes e 2 t;
          buf = fold (write_next_hop e) nexthops buf;
          nla_len = of_nat (length buf - attr_header_offset) :: u16;
          buf = backfill attr_header_offset (ne_bytes e 2 nla_len) buf
      in buf @ replicate ((4 - (length buf - attr_header_offset) mod 4) mod 4) 0)"

definition route_write_to :: "endian \<Rightarrow> route_message \<Rightarrow> bytes \<Rightarrow> nat \<times> bytes" where
  "route_write_to e m buf =
     (let start = length buf;
          buf = buf @ rt_msg_as_bytes e (rm_header m);
          buf = on_some (rm_destination m) (write_attr_ip e 1) buf;
          buf = on_some (rm_gateway m) (write_attr_ip e 5) buf;
          buf = on_some (rm_oif m) (write_attr_u32 e 4) buf;
          buf = on_some (rm_priority m) (write_attr_u32 e 6) buf;
          buf = on_some (rm_prefsrc m) (write_attr_ip e 7) buf;
          buf = on_some (rm_table m) (write_attr_u32 e 15) buf;
          buf = on_some (rm_source m) (write_attr_ip e 2) buf;
          buf = on_some (rm_iif m) (write_attr_u32 e 3) buf;
          buf = on_some (rm_pref m) (write_attr_u8_padded e 20) buf;
          buf = on_some (rm_expires m) (write_attr_u32 e 23) buf;
          buf = on_some (rm_multipath m) (write_attr_multipath e 9) buf
      in (length buf - start, buf))"

definition route_netlink_len :: "route_message \<Rightarrow> nat" where
  "route_netlink_len m =
     (let ip = (if route_is_ipv4 m then 4 else 16)
      in 12 + opt_len (rm_destination m) ip + opt_len (rm_gateway m) ip + opt_len (rm_oif m) 4
         + opt_len (rm_priority m) 4 + opt_len (rm_prefsrc m) ip + opt_len (rm_table m) 4)"

section \<open>Writers append attributes\<close>

lemma raw_attr_wire:
  "length d \<le> 65531 \<Longrightarrow> n = 4 + length d \<Longrightarrow>
   ne_bytes e 2 (of_nat n :: u16) @ ne_bytes e 2 t @ d @ replicate (nla_align n - n) 0 = attr_wire e t d"
  by (simp add: attr_wire_def nl_attr_as_bytes_def nl_attr_new_def attr_pad_def)

lemma length_ip_octets [simp]: "length (ip_octets a) = ip_netlink_len a"
  by (cases a) simp_all

lemma ip_netlink_len_le [simp]: "ip_netlink_len a \<le> 65531"
  by (cases a) simp_all

lemma snd_write_ip [simp]: "snd (write_ip a buf) = buf @ ip_octets a"
  by (cases a) simp_all

lemma write_attr_wires:
  "write_attr_addr e t a buf = buf @ attr_wire e t (ip_octets a)"
  "write_attr e t 4 (write_u32 e f) buf = buf @ attr_wire e t (ne_bytes e 4 f)"
  "length l \<le> 65530 \<Longrightarrow> write_attr_str e t l buf = buf @ attr_wire e t (bytes_of_str l @ [0])"
  "write_attr_ip e t a buf = buf @ attr_wire e t (ip_octets a)"
  "write_attr_u32 e t f buf = buf @ attr_wire e t (ne_bytes e 4 f)"
  "write_attr_u8_padded e t v buf = buf @ attr_wire e t [v]"
proof -
  have pad3: "replicate 3 (0 :: u8) = [0, 0, 0]" by (simp add: numeral_eq_Suc)
  show "write_attr_addr e t a buf = buf @ attr_wire e t (ip_octets a)"
    by (simp add: write_attr_def Let_def raw_attr_wire del: nla_align_4 of_nat_add)
  show "write_attr e t 4 (write_u32 e f) buf = buf @ attr_wire e t (ne_bytes e 4 f)"
    using raw_attr_wire[of "ne_bytes e 4 f" 8 e t] by (simp add: write_attr_def write_u32_def Let_def)
  show "length l \<le> 65530 \<Longrightarrow> write_attr_str e t l buf = buf @ attr_wire e t (bytes_of_str l @ [0])"
    using raw_attr_wire[of "bytes_of_str l @ [0]" "4 + (length l + 1)" e t]
    by (simp add: write_attr_str_def Let_def del: nla_align_4)
  show "write_attr_ip e t a buf = buf @ attr_wire e t (ip_octets a)"
    by (simp add: write_attr_ip_def Let_def raw_attr_wire del: nla_align_4 of_nat_add)
  show "write_attr_u32 e t f buf = buf @ attr_wire e t (ne_bytes e 4 f)"
    using raw_attr_wire[of "ne_bytes e 4 f" 8 e t] by (simp add: write_attr_u32_def nla_align_def)
  show "write_attr_u8_padded e t v buf = buf @ attr_wire e t [v]"
    using raw_attr_wire[of "[v]" 5 e t] pad3 by (simp add: write_attr_u8_padded_def nla_align_def)
qed

lemma on_some_wire:
  "(\<And>x b. v = Some x \<Longrightarrow> f x b = b @ attr_wire e t (g x)) \<Longrightarrow>
   on_some v f buf = buf @ (case map_option g v of None \<Rightarrow> [] | Some d \<Rightarrow> attr_wire e t d)"
  by (cases v) (simp_all add: on_some_def)

lemma on_some_wires:
  "on_some a (write_attr_addr e t) buf = buf @ (case map_option ip_octets a of None \<Rightarrow> [] | Some d \<Rightarrow> attr_wire e t d)"
  "on_some a (write_attr_ip e t) buf = buf @ (case map_option ip_octets a of None \<Rightarrow> [] | Some d \<Rightarrow> attr_wire e t d)"
  "on_some n (write_attr_u32 e t) buf = buf @ (case map_option (ne_bytes e 4) n of None \<Rightarrow> [] | Some d \<Rightarrow> attr_wire e t d)"
  "on_some n (\<lambda>f. write_attr e t 4 (write_u32 e f)) buf =
     buf @ (case map_option (ne_bytes e 4) n of None \<Rightarrow> [] | Some d \<Rightarrow> attr_wire e t d)"
  "on_some b (write_attr_u8_padded e t) buf = buf @ (case map_option (\<lambda>v. [v]) b of None \<Rightarrow> [] | Some d \<Rightarrow> attr_wire e t d)"
  "(\<And>s. l = Some s \<Longrightarrow> length s \<le> 65530) \<Longrightarrow> on_some l (write_attr_str e t) buf =
     buf @ (case map_option (\<lambda>s. bytes_of_str s @ [0]) l of None \<Rightarrow> [] | Some d \<Rightarrow> attr_wire e t d)"
  by (rule on_some_wire, simp add: write_attr_wires)+

lemma attr_wire_size: "length (attr_wire e t d) = nla_size (length d)"
  using nla_align_4[of "length d"] by (simp add: length_attr_wire nla_size_def parse_nla_align_def nla_align_def del: nla_align_4)

section \<open>Address messages round trip\<close>

definition ip_family :: "ip_addr \<Rightarrow> u8" where
  "ip_family a = (if is_ipv4 a then 2 else 10)"

definition ip_ok :: "u8 \<Rightarrow> ip_addr option \<Rightarrow> bool" where
  "ip_ok family a = (case a of None \<Rightarrow> True | Some a \<Rightarrow> ip_family a = family)"

definition address_wf :: "address_message \<Rightarrow> bool" where
  "address_wf m =
     (list_all (ip_ok (ifa_family (am_header m))) [am_address m, am_local m, am_broadcast m] \<and>
      (case am_label m of None \<Rightarrow> True | Some l \<Rightarrow>
         length l \<le> 65530 \<and> utf8_valid (bytes_of_str l) \<and> 0 \<notin> set (bytes_of_str l)))"

lemma ip_attr_octets:
  "ip_ok family (Some a) \<Longrightarrow> ip_attr family (ip_octets a) put m = put a m"
  using ip_addr_roundtrip[of a "[]"] by (simp add: ip_ok_def ip_family_def ip_attr_def)

lemma label_back:
  "utf8_valid (bytes_of_str l) \<Longrightarrow> 0 \<notin> set (bytes_of_str l) \<Longrightarrow> parse_string_from_bytes (bytes_of_str l @ [0]) = l"
  by (simp add: parse_string_from_bytes_def until_nul_append from_utf8_lossy_def utf8_lossy_valid)

definition address_attrs :: "endian \<Rightarrow> address_message \<Rightarrow> opt_attr list" where
  "address_attrs e m =
     [(1, map_option ip_octets (am_address m)), (2, map_option ip_octets (am_local m)),
      (3, map_option (\<lambda>s. bytes_of_str s @ [0]) (am_label m)), (4, map_option ip_octets (am_broadcast m)),
      (8, map_option (ne_bytes e 4) (am_flags m))]"

lemma address_write_wire:
  assumes "address_wf m"
  shows "address_write_to e m buf =
    (8 + length (opt_wire e (address_attrs e m)),
     buf @ if_addr_msg_as_bytes e (am_header m) @ opt_wire e (address_attrs e m))"
proof -
  have "\<And>s. am_label m = Some s \<Longrightarrow> length s \<le> 65530" using assms by (simp add: address_wf_def)
  then show ?thesis
    by (simp add: address_write_to_def Let_def on_some_wires address_attrs_def opt_wire_simps
        if_addr_msg.enc_length)
qed

lemma address_fold:
  assumes "address_wf m" "h = am_header m"
  shows "opt_fold (address_attr e (ifa_family h)) (address_attrs e m) (address_message_of h) =
    m\<lparr>am_anycast := None, am_cache_info := None\<rparr>"
  using assms unfolding address_attrs_def address_wf_def
  apply (intro opt_fold_put[where t = 1 and put = "\<lambda>v m. m\<lparr>am_address := v\<rparr>"]
      opt_fold_put[where t = 2 and put = "\<lambda>v m. m\<lparr>am_local := v\<rparr>"]
      opt_fold_put[where t = 3 and put = "\<lambda>v m. m\<lparr>am_label := v\<rparr>"]
      opt_fold_put[where t = 4 and put = "\<lambda>v m. m\<lparr>am_broadcast := v\<rparr>"]
      opt_fold_put[where t = 8 and put = "\<lambda>v m. m\<lparr>am_flags := v\<rparr>"] opt_fold_Nil)
  apply (simp_all add: address_attr_def ip_attr_octets label_back ne_word_bytes address_message_of_def)
  done

lemma address_attrs_ok: "address_wf m \<Longrightarrow> list_all opt_ok (address_attrs e m)"
  by (auto simp: address_attrs_def opt_ok_def address_wf_def split: option.splits)

lemma header_then_attrs:
  assumes ok: "winnow_ok w" and "length hb = n" "list_all opt_ok ats"
  shows "pbind (w_take w n) (\<lambda>b. attr_all w e (step b) (msg b)) (hb @ opt_wire e ats) =
    (Inr (opt_fold (step hb) ats (msg hb)), [])"
  using assms(2) by (simp add: pbind_def winnow_take[OF ok] attr_loop_opts[OF ok assms(3)])

lemma if_addr_msg_back: "if_addr_msg_from_bytes e (if_addr_msg_as_bytes e h) = Inr h"
  using if_addr_msg.dec_enc_exact[of e h] by (cases "if_addr_msg_from_bytes e (if_addr_msg_as_bytes e h)") simp_all

text \<open>
  An address message whose addresses have the family of its header and whose label is a
  name without a NUL parses back from what \<open>to_bytes\<close> writes, except that \<open>write_to\<close> has no
  case for the anycast address and the cache information: those come back empty.  For IPv4
  the number of bytes written is the one \<open>netlink_len\<close> announces.
\<close>

theorem address_message_roundtrip:
  assumes "winnow_ok w" "address_wf m"
  shows "from_bytes msg (address_parse w e) (snd (address_write_to e m [])) =
      Inr (m\<lparr>am_anycast := None, am_cache_info := None\<rparr>) \<and>
    (address_is_ipv4 m \<longrightarrow> fst (address_write_to e m []) = address_netlink_len m)"
proof
  let ?h = "am_header m"
  have "address_parse w e (if_addr_msg_as_bytes e ?h @ opt_wire e (address_attrs e m)) =
      (Inr (m\<lparr>am_anycast := None, am_cache_info := None\<rparr>), [])"
    using assms address_fold[OF assms(2) refl, of e]
    by (simp add: address_parse_def if_addr_msg.enc_length pbind_def winnow_take if_addr_msg_back
        attr_loop_opts address_attrs_ok)
  then show "from_bytes msg (address_parse w e) (snd (address_write_to e m [])) =
      Inr (m\<lparr>am_anycast := None, am_cache_info := None\<rparr>)"
    by (simp add: address_write_wire[OF assms(2)] from_bytes_def)
  show "address_is_ipv4 m \<longrightarrow> fst (address_write_to e m []) = address_netlink_len m"
    using assms(2) unfolding address_write_wire[OF assms(2)]
    by (auto simp: address_attrs_def opt_wire_simps address_netlink_len_def address_is_ipv4_def address_wf_def
        ip_ok_def ip_family_def attr_wire_size
        split: option.splits if_splits elim!: is_ipv4.elims)
qed

theorem address_message_roundtrip_witness:
  "let m = (address_message_of (if_addr_msg_new\<lparr>ifa_family := 2, ifa_prefixlen := 24, ifa_index := 5\<rparr>))
     \<lparr>am_address := Some (V4 0x0A000001), am_label := Some ''eth0'', am_anycast := Some (V4 7)\<rparr>
   in from_bytes (\<lambda>_. []) (address_parse winnow_ref LittleEndian) (snd (address_write_to LittleEndian m [])) =
        Inr (m\<lparr>am_anycast := None\<rparr>)
      \<and> fst (address_write_to LittleEndian m []) = address_netlink_len m"
proof -
  let ?m = "(address_message_of (if_addr_msg_new\<lparr>ifa_family := 2, ifa_prefixlen := 24, ifa_index := 5\<rparr>))
     \<lparr>am_address := Some (V4 0x0A000001), am_label := Some ''eth0'', am_anycast := Some (V4 7)\<rparr>"
  have "utf8_valid (bytes_of_str ''eth0'')" by (rule utf8_valid_ascii) (simp add: bytes_of_str_def char_byte_def)
  then have "address_wf ?m"
    by (simp add: address_wf_def address_message_of_def ip_ok_def ip_family_def bytes_of_str_def char_byte_def)
  then show ?thesis
    using address_message_roundtrip[OF winnow_ref_ok, of ?m "\<lambda>_. []" LittleEndian]
    by (simp add: Let_def address_is_ipv4_def address_message_of_def)
qed

section \<open>Route messages round trip\<close>

definition next_hop_wire :: "endian \<Rightarrow> parsed_next_hop \<Rightarrow> bytes" where
  "next_hop_wire e nh =
     (let g = opt_wire e [(5, map_option ip_octets (nh_gateway nh))]
      in ne_bytes e 2 (of_nat (8 + length g) :: u16) @ [nh_flags_byte nh, if nh_weight nh = 0 then 0 else nh_weight nh - 1]
         @ ne_bytes e 4 (nh_ifindex nh) @ g)"

definition next_hop_ok :: "u8 \<Rightarrow> parsed_next_hop \<Rightarrow> bool" where
  "next_hop_ok family nh = (nh_weight nh \<noteq> 0 \<and> ip_ok family (nh_gateway nh))"

lemma next_hop_wire_length:
  "length (next_hop_wire e nh) = 8 + length (opt_wire e [(5, map_option ip_octets (nh_gateway nh))])"
  by (simp add: next_hop_wire_def Let_def)

lemma next_hop_wire_dvd: "4 dvd length (next_hop_wire e nh)"
  unfolding next_hop_wire_length using opt_wire_dvd by (intro dvd_add) simp_all

lemma write_next_hop_wire: "write_next_hop e nh buf = buf @ next_hop_wire e nh"
proof -
  let ?g = "opt_wire e [(5, map_option ip_octets (nh_gateway nh))]"
  have "4 dvd 8 + length ?g" using next_hop_wire_dvd[of e nh] by (simp add: next_hop_wire_length)
  then have "(8 + length ?g) mod 4 = 0" by (rule dvd_imp_mod_0)
  then show ?thesis
    by (simp add: write_next_hop_def next_hop_wire_def Let_def on_some_wires backfill_def opt_wire_simps)
qed

lemma fold_next_hops: "fold (write_next_hop e) nhs buf = buf @ concat (map (next_hop_wire e) nhs)"
  by (induction nhs arbitrary: buf) (simp_all add: write_next_hop_wire)

lemma write_multipath_wire:
  assumes "length (concat (map (next_hop_wire e) nhs)) \<le> 65531"
  shows "write_attr_multipath e t nhs buf = buf @ attr_wire e t (concat (map (next_hop_wire e) nhs))"
proof -
  let ?d = "concat (map (next_hop_wire e) nhs)"
  have "4 dvd length ?d" by (induction nhs) (simp_all add: next_hop_wire_dvd)
  then have "(4 + length ?d) mod 4 = 0" "nla_align (4 + length ?d) = 4 + length ?d"
    by (simp_all add: nla_align_id)
  then show ?thesis
    using raw_attr_wire[OF assms refl, of e t]
    by (simp add: write_attr_multipath_def Let_def fold_next_hops backfill_def del: nla_align_4)
qed

lemma nested_gateway_wire:
  assumes "ip_ok family gw" "g = opt_wire e [(5, map_option ip_octets gw)]"
  shows "nested_gateway e family (pre @ g @ post) (length pre + length g) (length pre) None = gw"
proof (cases gw)
  case None
  then show ?thesis using assms(2) by (subst nested_gateway.simps) (simp add: opt_wire_simps)
next
  case (Some a)
  let ?n = "4 + ip_netlink_len a"
  have al: "nla_align ?n = ?n" by (cases a) (simp_all add: nla_align_def)
  then have g: "g = ne_bytes e 2 (of_nat ?n :: u16) @ ne_bytes e 2 (5 :: u16) @ ip_octets a"
    using assms(2) Some raw_attr_wire[of "ip_octets a" ?n e 5] by (simp add: opt_wire_simps del: nla_align_4)
  then have len: "length g = ?n" by simp
  have n: "unat (of_nat ?n :: u16) = ?n" by (cases a) simp_all
  have addr: "parse_ip_addr (ip_octets a) family = Inr a"
    using assms(1) Some ip_addr_roundtrip[of a "[]"] by (simp add: ip_ok_def ip_family_def)
  have stop: "nested_gateway e family D k k x = x" for D k x
    by (subst nested_gateway.simps) simp
  show ?thesis
    unfolding len
    by (subst nested_gateway.simps)
      (simp add: g ne_word_bytes n al addr Some stop Let_def del: of_nat_add nla_align_4)
qed

lemma multipath_from_wire:
  assumes "list_all (next_hop_ok family) nhs"
  shows "multipath_from e family (pre @ concat (map (next_hop_wire e) nhs)) (length pre) = nhs"
  using assms
proof (induction nhs arbitrary: pre)
  case Nil
  then show ?case by (subst multipath_from.simps) simp
next
  case (Cons nh nhs)
  let ?g = "opt_wire e [(5, map_option ip_octets (nh_gateway nh))]" and ?r = "concat (map (next_hop_wire e) nhs)"
  let ?n = "8 + length ?g"
  have nh: "next_hop_ok family nh" and nhs: "list_all (next_hop_ok family) nhs" using Cons.prems by simp_all
  have "length ?g \<le> 24"
  proof (cases "nh_gateway nh")
    case (Some a)
    then show ?thesis by (cases a) (simp_all add: opt_wire_simps length_attr_wire nla_align_def)
  qed (simp add: opt_wire_simps)
  then have n: "unat (of_nat ?n :: u16) = ?n" by (intro unat_of_nat_id) simp
  have al: "nla_align ?n = ?n" using opt_wire_dvd[of e] by (intro nla_align_id dvd_add) simp_all
  have w: "next_hop_wire e nh = ne_bytes e 2 (of_nat ?n :: u16) @ [nh_flags_byte nh, nh_weight nh - 1]
      @ ne_bytes e 4 (nh_ifindex nh) @ ?g"
    using nh by (simp add: next_hop_wire_def Let_def next_hop_ok_def)
  define D where "D = pre @ next_hop_wire e nh @ ?r"
  have IH: "multipath_from e family D (length pre + ?n) = nhs"
    using Cons.IH[OF nhs, of "pre @ next_hop_wire e nh"] by (simp add: next_hop_wire_length D_def)
  have gw: "nested_gateway e family D (length pre + ?n) (length pre + 8) None = nh_gateway nh"
    using nested_gateway_wire[of family "nh_gateway nh" ?g e "pre @ take 8 (next_hop_wire e nh)" ?r] nh
    by (simp add: next_hop_ok_def w D_def add.assoc)
  have at: "take 2 (drop (length pre) D) = ne_bytes e 2 (of_nat ?n :: u16)"
    "D ! Suc (Suc (length pre)) = nh_flags_byte nh" "D ! (length pre + 3) = nh_weight nh - 1"
    "take 4 (drop (length pre + 4) D) = ne_bytes e 4 (nh_ifindex nh)" "length D = length pre + ?n + length ?r"
    by (simp_all add: D_def w nth_append numeral_3_eq_3)
  have "(256 :: u8) = 0" by (simp add: word_uint_eq_iff)
  then have weight: "nh_weight nh \<noteq> 256" using nh unfolding next_hop_ok_def by metis
  have "multipath_from e family D (length pre) = nh # nhs"
    by (subst multipath_from.simps) (simp add: at IH gw n al weight ne_word_bytes Let_def del: of_nat_add)
  then show ?case by (simp add: D_def)
qed

definition route_wf :: "endian \<Rightarrow> route_message \<Rightarrow> bool" where
  "route_wf e m =
     (list_all (ip_ok (rtm_family (rm_header m))) [rm_destination m, rm_source m, rm_gateway m, rm_prefsrc m] \<and>
      (case rm_multipath m of None \<Rightarrow> True | Some nhs \<Rightarrow>
         nhs \<noteq> [] \<and> list_all (next_hop_ok (rtm_family (rm_header m))) nhs \<and>
         length (concat (map (next_hop_wire e) nhs)) \<le> 65531))"

definition route_attrs :: "endian \<Rightarrow> route_message \<Rightarrow> opt_attr list" where
  "route_attrs e m =
     [(1, map_option ip_octets (rm_destination m)), (5, map_option ip_octets (rm_gateway m)),
      (4, map_option (ne_bytes e 4) (rm_oif m)), (6, map_option (ne_bytes e 4) (rm_priority m)),
      (7, map_option ip_octets (rm_prefsrc m)), (15, map_option (ne_bytes e 4) (rm_table m)),
      (2, map_option ip_octets (rm_source m)), (3, map_option (ne_bytes e 4) (rm_iif m)),
      (20, map_option (\<lambda>v. [v]) (rm_pref m)), (23, map_option (ne_bytes e 4) (rm_expires m)),
      (9, map_option (\<lambda>nhs. concat (map (next_hop_wire e) nhs)) (rm_multipath m))]"

lemma route_write_wire:
  assumes "route_wf e m"
  shows "route_write_to e m buf =
    (12 + length (opt_wire e (route_attrs e m)), buf @ rt_msg_as_bytes e (rm_header m) @ opt_wire e (route_attrs e m))"
proof -
  have "on_some (rm_multipath m) (write_attr_multipath e 9) b =
      b @ (case map_option (\<lambda>nhs. concat (map (next_hop_wire e) nhs)) (rm_multipath m) of
        None \<Rightarrow> [] | Some d \<Rightarrow> attr_wire e 9 d)" for b
    by (rule on_some_wire, rule write_multipath_wire) (use assms in \<open>simp add: route_wf_def\<close>)
  then show ?thesis
    by (simp add: route_write_to_def Let_def on_some_wires route_attrs_def opt_wire_simps rt_msg.enc_length)
qed

lemma multipath_back:
  "list_all (next_hop_ok family) nhs \<Longrightarrow> parse_multipath e (concat (map (next_hop_wire e) nhs)) family = nhs"
  using multipath_from_wire[of family nhs e "[]"] by (simp add: parse_multipath_def)

lemma route_fold:
  assumes "route_wf e m" "h = rm_header m"
  shows "opt_fold (route_attr e (rtm_family h)) (route_attrs e m) (route_message_of h) = m"
  using assms unfolding route_attrs_def route_wf_def
  apply (intro opt_fold_put[where t = 1 and put = "\<lambda>v m. m\<lparr>rm_destination := v\<rparr>"]
      opt_fold_put[where t = 5 and put = "\<lambda>v m. m\<lparr>rm_gateway := v\<rparr>"]
      opt_fold_put[where t = 4 and put = "\<lambda>v m. m\<lparr>rm_oif := v\<rparr>"]
      opt_fold_put[where t = 6 and put = "\<lambda>v m. m\<lparr>rm_priority := v\<rparr>"]
      opt_fold_put[where t = 7 and put = "\<lambda>v m. m\<lparr>rm_prefsrc := v\<rparr>"]
      opt_fold_put[where t = 15 and put = "\<lambda>v m. m\<lparr>rm_table := v\<rparr>"]
      opt_fold_put[where t = 2 and put = "\<lambda>v m. m\<lparr>rm_source := v\<rparr>"]
      opt_fold_put[where t = 3 and put = "\<lambda>v m. m\<lparr>rm_iif := v\<rparr>"]
      opt_fold_put[where t = 20 and put = "\<lambda>v m. m\<lparr>rm_pref := v\<rparr>"]
      opt_fold_put[where t = 23 and put = "\<lambda>v m. m\<lparr>rm_expires := v\<rparr>"]
      opt_fold_put[where t = 9 and put = "\<lambda>v m. m\<lparr>rm_multipath := v\<rparr>"] opt_fold_Nil)
  apply (simp_all add: route_attr_def ip_attr_octets multipath_back ne_word_bytes route_message_of_def)
  done

lemma route_attrs_ok: "route_wf e m \<Longrightarrow> list_all opt_ok (route_attrs e m)"
  by (auto simp: route_attrs_def opt_ok_def route_wf_def split: option.splits)

lemma rt_msg_back: "rt_msg_from_bytes e (rt_msg_as_bytes e h) = Inr h"
  using rt_msg.dec_enc_exact[of e h] by (cases "rt_msg_from_bytes e (rt_msg_as_bytes e h)") simp_all

text \<open>
  A route message whose addresses have the family of its header parses back whole from
  what \<open>to_bytes\<close> writes, a multipath chain included, as long as the chain is not empty, its
  weights count from one and it fits an attribute.
\<close>

theorem route_message_roundtrip:
  assumes "winnow_ok w" "route_wf e m"
  shows "from_bytes msg (route_parse w e) (snd (route_write_to e m [])) = Inr m"
proof -
  have "route_parse w e (rt_msg_as_bytes e (rm_header m) @ opt_wire e (route_attrs e m)) = (Inr m, [])"
    using assms route_fold[OF assms(2) refl]
    by (simp add: route_parse_def rt_msg.enc_length pbind_def winnow_take rt_msg_back
        attr_loop_opts route_attrs_ok)
  then show ?thesis by (simp add: route_write_wire[OF assms(2)] from_bytes_def)
qed

theorem route_message_roundtrip_witness:
  "let m = (route_message_of (rt_msg_new\<lparr>rtm_family := 2, rtm_dst_len := 24\<rparr>))
     \<lparr>rm_destination := Some (V4 0x0A000000), rm_table := Some 254, rm_pref := Some 1,
      rm_multipath := Some [\<lparr>nh_ifindex = 3, nh_weight = 1, nh_flags_byte = 0, nh_gateway = Some (V4 0x0A000001)\<rparr>,
                            \<lparr>nh_ifindex = 4, nh_weight = 255, nh_flags_byte = 4, nh_gateway = None\<rparr>]\<rparr>
   in from_bytes (\<lambda>_. []) (route_parse winnow_ref LittleEndian) (snd (route_write_to LittleEndian m [])) = Inr m"
  unfolding Let_def
  by (rule route_message_roundtrip[OF winnow_ref_ok])
    (simp add: route_wf_def route_message_of_def ip_ok_def ip_family_def next_hop_ok_def next_hop_wire_length
      opt_wire_simps attr_wire_size nla_size_def parse_nla_align_def)

text \<open>
  \<open>netlink_len\<close> of a route leaves out the attributes \<open>write_to\<close> gained later: it is below the
  number of bytes written as soon as one of them is present.
\<close>

lemma opt_wire_len:
  "(\<And>a. v = Some a \<Longrightarrow> length (g a) = n) \<Longrightarrow> length (opt_wire e [(t, map_option g v)]) = opt_len v n"
  by (cases v) (simp_all add: opt_wire_simps attr_wire_size)

lemma opt_wire_empty: "length (opt_wire e [(t, map_option g v)]) = 0 \<longleftrightarrow> v = None"
  by (cases v) (auto simp: opt_wire_simps attr_wire_def nl_attr_as_bytes_def simp flip: length_0_conv)

lemma opt_wire_Cons: "length (opt_wire e (a # ats)) = length (opt_wire e [a]) + length (opt_wire e ats)"
  by (cases a) (simp add: opt_wire_simps)

lemma route_netlink_len_short:
  assumes "route_wf e m" "route_is_ipv4 m"
  shows "route_netlink_len m \<le> fst (route_write_to e m buf) \<and>
    (route_netlink_len m = fst (route_write_to e m buf)) =
      (rm_source m = None \<and> rm_iif m = None \<and> rm_pref m = None \<and> rm_expires m = None \<and> rm_multipath m = None)"
proof -
  have v4: "ip_netlink_len a = 4" if "ip_ok 2 (Some a)" for a
    using that by (cases a) (simp_all add: ip_ok_def ip_family_def)
  have "list_all (ip_ok 2) [rm_destination m, rm_source m, rm_gateway m, rm_prefsrc m]"
    using assms by (simp add: route_wf_def route_is_ipv4_def)
  then have ip: "rm_destination m = Some a \<Longrightarrow> ip_netlink_len a = 4"
    "rm_gateway m = Some a \<Longrightarrow> ip_netlink_len a = 4" "rm_prefsrc m = Some a \<Longrightarrow> ip_netlink_len a = 4" for a
    using v4 by simp_all
  let ?late = "[(2, map_option ip_octets (rm_source m)), (3, map_option (ne_bytes e 4) (rm_iif m)),
      (20, map_option (\<lambda>v. [v]) (rm_pref m)), (23, map_option (ne_bytes e 4) (rm_expires m)),
      (9, map_option (\<lambda>nhs. concat (map (next_hop_wire e) nhs)) (rm_multipath m))]"
  have "fst (route_write_to e m buf) = route_netlink_len m + length (opt_wire e ?late)"
    unfolding route_write_wire[OF assms(1)] fst_conv route_attrs_def route_netlink_len_def
    using assms(2) by (simp add: opt_wire_Cons[of e _ "_ # _"] opt_wire_len ip)
  moreover have "length (opt_wire e ?late) = 0 \<longleftrightarrow>
      rm_source m = None \<and> rm_iif m = None \<and> rm_pref m = None \<and> rm_expires m = None \<and> rm_multipath m = None"
    by (simp only: opt_wire_Cons[of e _ "_ # _"] add_is_0 opt_wire_empty)
  ultimately show ?thesis by auto
qed

end
