(* ===== verification/Rust_F64.thy ===== *)
theory Rust_F64
  imports Complex_Main "HOL-Library.Log_Nat"
begin

text \<open>
  The arithmetic of Rust's \<open>f64\<close> the library uses, over rational numbers: each operation is
  the exact one followed by rounding to the nearest number with a 53-bit significand, ties to
  even.  The values the library computes with (percentages, rates, packet sizes, ticks) stay
  far from the largest number; below the smallest normal number the model keeps more digits
  than the hardware, which no conversion to an integer can see.
\<close>

section \<open>Rounding to an integer, ties to even\<close>

definition round_even :: "rat \<Rightarrow> int" where
  "round_even x =
     (let f = \<lfloor>x\<rfloor>; d = x - of_int f
      in if d < 1 / 2 then f else if 1 / 2 < d then f + 1 else if even f then f else f + 1)"

lemma round_even_int [simp]: "round_even (of_int k) = k"
  by (simp add: round_even_def)

lemma round_even_error: "\<bar>of_int (round_even x) - x\<bar> \<le> 1 / 2"
proof -
  have "of_int \<lfloor>x\<rfloor> \<le> x" "x < of_int \<lfloor>x\<rfloor> + 1" by linarith+
  then show ?thesis by (auto simp: round_even_def Let_def)
qed

lemma round_even_mono: "x \<le> y \<Longrightarrow> round_even x \<le> round_even y"
proof (cases "\<lfloor>x\<rfloor> = \<lfloor>y\<rfloor>")
  case True
  assume "x \<le> y"
  then show ?thesis using True by (auto simp: round_even_def Let_def)
next
  case False
  assume "x \<le> y"
  then have "\<lfloor>x\<rfloor> + 1 \<le> \<lfloor>y\<rfloor>" using False floor_mono[of x y] by linarith
  moreover have "round_even x \<le> \<lfloor>x\<rfloor> + 1" "\<lfloor>y\<rfloor> \<le> round_even y"
    by (simp_all add: round_even_def Let_def)
  ultimately show ?thesis by linarith
qed

lemma round_even_le: "x \<le> of_int k \<Longrightarrow> round_even x \<le> k"
  and round_even_ge: "of_int k \<le> x \<Longrightarrow> k \<le> round_even x"
  using round_even_mono[of x "of_int k"] round_even_mono[of "of_int k" x] by simp_all

section \<open>Rounding to a 53-bit significand\<close>

text \<open>The exponent of a positive number: \<open>2 ^ 52 \<le> x / 2 ^ e < 2 ^ 53\<close>.\<close>

definition f64_exp :: "rat \<Rightarrow> int" where
  "f64_exp x =
     (let (p, q) = quotient_of x; k = bitlen p - bitlen q
      in if x < 2 powi k then k - 53 else k - 52)"

definition fl :: "rat \<Rightarrow> rat" where
  "fl x =
     (if x = 0 then 0
      else if x < 0 then - (of_int (round_even (- x / 2 powi f64_exp (- x))) * 2 powi f64_exp (- x))
      else of_int (round_even (x / 2 powi f64_exp x)) * 2 powi f64_exp x)"

lemma bitlen_powi:
  assumes "0 < n"
  shows "2 powi (bitlen n - 1) \<le> (of_int n :: rat)" "(of_int n :: rat) < 2 powi bitlen n"
proof -
  have b: "1 \<le> bitlen n" using assms bitlen_bounds[of n] by (simp add: bitlen_alt_def)
  have "(2 :: rat) powi (bitlen n - 1) = of_int (2 ^ nat (bitlen n - 1))"
    "(2 :: rat) powi bitlen n = of_int (2 ^ nat (bitlen n))"
    using b by (simp_all add: power_int_def)
  then show "2 powi (bitlen n - 1) \<le> (of_int n :: rat)" "(of_int n :: rat) < 2 powi bitlen n"
    using bitlen_bounds[OF assms] by (simp_all only: of_int_le_iff of_int_less_iff)
qed

lemma f64_exp_bounds:
  assumes "0 < x"
  shows "2 powi (f64_exp x + 52) \<le> x" "x < 2 powi (f64_exp x + 53)"
proof -
  obtain p q where pq: "quotient_of x = (p, q)" by fastforce
  have q: "0 < q" and x: "x = of_int p / of_int q"
    using quotient_of_denom_pos[OF pq] quotient_of_div[OF pq] by simp_all
  have p: "0 < p" using assms q by (simp add: x zero_less_divide_iff)
  let ?k = "bitlen p - bitlen q"
  note bp = bitlen_powi[OF p] and bq = bitlen_powi[OF q]
  have "(2 :: rat) powi (?k - 1) * of_int q \<le> 2 powi (?k - 1) * 2 powi bitlen q"
    using bq by (intro mult_left_mono) (simp_all add: power_int_def)
  also have "\<dots> = 2 powi (bitlen p - 1)" by (simp add: power_int_add[symmetric])
  finally have low: "2 powi (?k - 1) \<le> x"
    using q bp by (simp add: x pos_le_divide_eq)
  have "of_int p < (2 :: rat) powi (?k + 1) * 2 powi (bitlen q - 1)"
    using bp by (simp add: power_int_add[symmetric])
  also have "\<dots> \<le> 2 powi (?k + 1) * of_int q"
    using bq by (intro mult_left_mono) (simp_all add: power_int_def)
  finally have high: "x < 2 powi (?k + 1)"
    using q by (simp add: x pos_divide_less_eq)
  show "2 powi (f64_exp x + 52) \<le> x" "x < 2 powi (f64_exp x + 53)"
    using low high by (auto simp: f64_exp_def pq Let_def add.commute)
qed

lemma powi_pos [simp]: "0 < (2 :: rat) powi k"
  by (simp add: power_int_def)

lemma powi_less: "(2 :: rat) powi j < 2 powi k \<longleftrightarrow> j < k"
  using power_int_strict_increasing[of j k "2 :: rat"] power_int_increasing[of k j "2 :: rat"]
  by (cases "j < k") (simp_all add: not_less)

lemma powi_mono: "(2 :: rat) powi j \<le> 2 powi k \<longleftrightarrow> j \<le> k"
  using powi_less[of k j] by (simp add: not_less[symmetric])

text \<open>The exponent is the only one with that property, so it is monotone.\<close>

lemma f64_exp_mono:
  assumes "0 < x" "x \<le> y"
  shows "f64_exp x \<le> f64_exp y"
proof -
  have "2 powi (f64_exp x + 52) < (2 :: rat) powi (f64_exp y + 53)"
    using f64_exp_bounds(1)[OF assms(1)] f64_exp_bounds(2)[of y] assms by linarith
  then show ?thesis by (simp add: powi_less)
qed

lemma scaled_bounds:
  assumes "0 < x"
  shows "2 ^ 52 \<le> x / 2 powi f64_exp x" "x / 2 powi f64_exp x < 2 ^ 53"
  using f64_exp_bounds[OF assms] by (simp_all add: power_int_add pos_le_divide_eq pos_divide_less_eq mult.commute)

lemma fl_0 [simp]: "fl 0 = 0"
  by (simp add: fl_def)

lemma fl_error:
  assumes "0 \<le> x"
  shows "\<bar>fl x - x\<bar> \<le> x / 2 ^ 53"
proof (cases "x = 0")
  case False
  let ?u = "(2 :: rat) powi f64_exp x"
  have u: "0 < ?u" by simp
  have "\<bar>fl x - x\<bar> = \<bar>of_int (round_even (x / ?u)) - x / ?u\<bar> * ?u"
  proof -
    have "fl x - x = (of_int (round_even (x / ?u)) - x / ?u) * ?u"
      using assms False u by (simp add: fl_def left_diff_distrib)
    then show ?thesis using u by (simp only: abs_mult abs_of_pos)
  qed
  also have "\<dots> \<le> 1 / 2 * ?u"
    using round_even_error by (intro mult_right_mono) simp_all
  also have "\<dots> \<le> x / 2 ^ 53"
    using scaled_bounds(1)[of x] False assms u by (simp add: pos_le_divide_eq mult.commute)
  finally show ?thesis .
qed simp

lemma fl_bounds:
  assumes "0 \<le> x"
  shows "x * (1 - 1 / 2 ^ 53) \<le> fl x" "fl x \<le> x * (1 + 1 / 2 ^ 53)"
proof -
  have "x - x / 2 ^ 53 \<le> fl x" "fl x \<le> x + x / 2 ^ 53"
    using fl_error[OF assms] unfolding abs_le_iff by linarith+
  then show "x * (1 - 1 / 2 ^ 53) \<le> fl x" "fl x \<le> x * (1 + 1 / 2 ^ 53)"
    by (simp_all add: algebra_simps)
qed

lemma fl_mono:
  assumes "0 \<le> x" "x \<le> y"
  shows "fl x \<le> fl y"
proof (cases "x = 0")
  case True
  have "round_even 0 = 0" by (simp add: round_even_def)
  then have "0 \<le> round_even (y / 2 powi f64_exp y)"
    using round_even_mono[of 0 "y / 2 powi f64_exp y"] assms by simp
  then show ?thesis using True assms by (simp add: fl_def)
next
  case False
  let ?ux = "(2 :: rat) powi f64_exp x" and ?uy = "(2 :: rat) powi f64_exp y"
  have x: "0 < x" and y: "0 < y" using assms False by simp_all
  have fl: "fl x = of_int (round_even (x / ?ux)) * ?ux" "fl y = of_int (round_even (y / ?uy)) * ?uy"
    using x y by (simp_all add: fl_def)
  show ?thesis
  proof (cases "f64_exp x = f64_exp y")
    case True
    then show ?thesis
      unfolding fl True using round_even_mono[of "x / ?uy" "y / ?uy"] assms
      by (intro mult_right_mono) (simp_all only: of_int_le_iff divide_right_mono powi_pos less_imp_le)
  next
    case False
    then have e: "f64_exp x + 1 \<le> f64_exp y" using f64_exp_mono[OF x assms(2)] by simp
    have "round_even (x / ?ux) \<le> 2 ^ 53"
      using scaled_bounds(2)[OF x] by (intro round_even_le) simp
    then have "fl x \<le> of_int (2 ^ 53) * ?ux"
      unfolding fl by (intro mult_right_mono) (simp_all only: of_int_le_iff powi_pos less_imp_le)
    also have "\<dots> = 2 powi (f64_exp x + 1 + 52)" by (simp add: power_int_add)
    also have "\<dots> \<le> 2 powi (f64_exp y + 52)" using e by (simp only: powi_mono)
    also have "\<dots> = of_int (2 ^ 52) * ?uy" by (simp add: power_int_add)
    also have "\<dots> \<le> fl y"
      unfolding fl using round_even_ge[of "2 ^ 52" "y / ?uy"] scaled_bounds(1)[OF y]
      by (intro mult_right_mono) (simp_all only: of_int_le_iff, simp_all)
    finally show ?thesis .
  qed
qed

lemma fl_nonneg [simp]: "0 \<le> x \<Longrightarrow> 0 \<le> fl x"
  using fl_mono[of 0 x] by simp

text \<open>Relative bounds survive a rounded step.\<close>

lemma fl_rel:
  assumes "0 \<le> y" "a * x \<le> y" "y \<le> b * x"
  shows "a * (1 - 1 / 2 ^ 53) * x \<le> fl y" "fl y \<le> b * (1 + 1 / 2 ^ 53) * x"
proof -
  have "a * x * (1 - 1 / 2 ^ 53) \<le> y * (1 - 1 / 2 ^ 53)" "y * (1 + 1 / 2 ^ 53) \<le> b * x * (1 + 1 / 2 ^ 53)"
    by (rule mult_right_mono[OF assms(2)], simp, rule mult_right_mono[OF assms(3)], simp)
  then have "a * x * (1 - 1 / 2 ^ 53) \<le> fl y" "fl y \<le> b * x * (1 + 1 / 2 ^ 53)"
    using fl_bounds[OF assms(1)] by linarith+
  then show "a * (1 - 1 / 2 ^ 53) * x \<le> fl y" "fl y \<le> b * (1 + 1 / 2 ^ 53) * x"
    by (simp_all only: mult_ac)
qed

text \<open>Integers below \<open>2 ^ 53\<close>, and so all \<open>u32\<close> values, are exact.\<close>

lemma fl_int:
  assumes "0 \<le> n" "n < 2 ^ 53"
  shows "fl (of_int n) = of_int n"
proof (cases "n = 0")
  case False
  let ?x = "of_int n :: rat"
  have x: "0 < ?x" using assms False by simp
  have "2 powi (f64_exp ?x + 52) \<le> ?x" by (rule f64_exp_bounds(1)[OF x])
  also have "?x < 2 powi 53" using assms by simp
  finally have "f64_exp ?x \<le> 0" by (simp only: powi_less)
  then obtain k where k: "f64_exp ?x = - int k" by (metis add.inverse_inverse neg_0_le_iff_le nonneg_int_cases)
  have "?x / 2 powi f64_exp ?x = of_int (n * 2 ^ k)"
    by (simp add: k power_int_minus divide_inverse)
  then have "round_even (?x / 2 powi f64_exp ?x) = n * 2 ^ k"
    by (simp only: round_even_int)
  then show ?thesis
    using x assms by (simp add: fl_def) (simp add: k power_int_minus)
qed simp

lemma fl_nat: "n < 2 ^ 53 \<Longrightarrow> fl (of_nat n) = of_nat n"
  using fl_int[of "int n"] by simp

section \<open>Values\<close>

text \<open>A value that may also be infinite or no number at all.\<close>

datatype f64 = Fin rat | PosInf | NegInf | NaN

text \<open>\<open>as u32\<close> saturates and maps \<open>NaN\<close> to zero.\<close>

definition rat_as_u :: "nat \<Rightarrow> rat \<Rightarrow> nat" where
  "rat_as_u max_val x = (if x \<le> 0 then 0 else min max_val (nat \<lfloor>x\<rfloor>))"

fun f64_as_u :: "nat \<Rightarrow> f64 \<Rightarrow> nat" where
  "f64_as_u max_val (Fin x) = rat_as_u max_val x"
| "f64_as_u max_val PosInf = max_val"
| "f64_as_u max_val NegInf = 0"
| "f64_as_u max_val NaN = 0"

fun f64_clamp :: "rat \<Rightarrow> rat \<Rightarrow> f64 \<Rightarrow> f64" where
  "f64_clamp lo hi (Fin x) = Fin (if x < lo then lo else if hi < x then hi else x)"
| "f64_clamp lo hi PosInf = Fin hi"
| "f64_clamp lo hi NegInf = Fin lo"
| "f64_clamp lo hi NaN = NaN"

fun f64_map :: "(rat \<Rightarrow> rat) \<Rightarrow> f64 \<Rightarrow> f64" where
  "f64_map f (Fin x) = Fin (fl (f x))"
| "f64_map f v = v"

lemma rat_as_u_mono: "x \<le> y \<Longrightarrow> rat_as_u m x \<le> rat_as_u m y"
  using nat_mono[OF floor_mono, of x y] by (auto simp: rat_as_u_def)

end
