(* ===== verification/Psched.thy ===== *)
theory Psched
  imports Rust_Text Rust_F64
begin

text \<open>
  The packet-scheduler clock (\<open>netlink/psched.rs\<close>): reading \<open>/proc/net/psched\<close>, the conversion
  between bytes at a rate and ticks in \<open>f64\<close>, and the rate table the kernel looks packet sizes
  up in.  The lemmas bound the rounding of the conversion and show that the table never
  understates the time of a packet.
\<close>

section \<open>The clock\<close>

record psched =
  ps_tick_in_usec :: rat
  ps_clock_factor :: rat
  ps_hz :: u64

definition psched_modern :: psched where
  "psched_modern = \<lparr>ps_tick_in_usec = 125 / 8, ps_clock_factor = 1, ps_hz = 1000000000\<rparr>"

definition u32_f64 :: "u32 \<Rightarrow> rat" where
  "u32_f64 n = of_nat (unat n)"

definition u64_f64 :: "u64 \<Rightarrow> rat" where
  "u64_f64 n = fl (of_nat (unat n))"

definition psched_from_fields :: "u32 \<Rightarrow> u32 \<Rightarrow> u32 \<Rightarrow> u32 \<Rightarrow> psched option" where
  "psched_from_fields t2us us2t clock_res nsec_per_sec =
     (if us2t = 0 \<or> clock_res = 0 then None
      else
        let t2us = (if clock_res = 1000000000 then us2t else t2us);
            clock_factor = fl (u32_f64 clock_res / 1000000);
            tick_in_usec = fl (fl (u32_f64 t2us / u32_f64 us2t) * clock_factor);
            hz = (if clock_res = 1000000 then ucast nsec_per_sec else ps_hz psched_modern)
        in if tick_in_usec \<le> 0 \<or> hz = 0 then None
           else Some \<lparr>ps_tick_in_usec = tick_in_usec, ps_clock_factor = clock_factor, ps_hz = hz\<rparr>)"

text \<open>\<open>split_whitespace\<close>, on the ASCII white space such a file can hold.\<close>

definition is_space :: "char \<Rightarrow> bool" where
  "is_space c = (c \<in> {CHR '' '', CHR 0x09, CHR 0x0A, CHR 0x0B, CHR 0x0C, CHR 0x0D})"

fun split_space :: "string \<Rightarrow> string \<Rightarrow> string list" where
  "split_space word [] = (if word = [] then [] else [rev word])"
| "split_space word (c # cs) =
     (if is_space c then (if word = [] then [] else [rev word]) @ split_space [] cs
      else split_space (c # word) cs)"

definition parse_hex32 :: "string \<Rightarrow> u32 option" where
  "parse_hex32 s = map_option of_nat (from_str_radix 16 (2 ^ 32) s)"

definition psched_parse :: "string \<Rightarrow> psched option" where
  "psched_parse contents =
     (case split_space [] contents of
        a # b # c # d # _ \<Rightarrow> do {
          t2us \<leftarrow> parse_hex32 a;
          us2t \<leftarrow> parse_hex32 b;
          clock_res \<leftarrow> parse_hex32 c;
          nsec_per_sec \<leftarrow> parse_hex32 d;
          psched_from_fields t2us us2t clock_res nsec_per_sec
        }
      | _ \<Rightarrow> None)"

section \<open>Conversions\<close>

definition saturate_u32 :: "rat \<Rightarrow> u32" where
  "saturate_u32 v =
     (if v \<le> 0 then 0 else if 4294967295 \<le> v then 0xFFFFFFFF else of_nat (nat \<lfloor>v\<rfloor>))"

definition time2tick :: "psched \<Rightarrow> rat \<Rightarrow> u32" where
  "time2tick p time_us = saturate_u32 (fl (time_us * ps_tick_in_usec p))"

definition tick2time :: "psched \<Rightarrow> u32 \<Rightarrow> rat" where
  "tick2time p ticks = fl (u32_f64 ticks / ps_tick_in_usec p)"

definition calc_xmittime :: "psched \<Rightarrow> u64 \<Rightarrow> u32 \<Rightarrow> u32" where
  "calc_xmittime p rate len =
     (if rate = 0 then 0
      else let secs = fl (u32_f64 len / u64_f64 rate)
           in time2tick p (fl (1000000 * secs)))"

definition calc_xmitsize :: "psched \<Rightarrow> u64 \<Rightarrow> u32 \<Rightarrow> u32" where
  "calc_xmitsize p rate ticks =
     saturate_u32 (fl (fl (u64_f64 rate * tick2time p ticks) / 1000000))"

section \<open>The rate table\<close>

datatype link_layer = Unaware | Ethernet | Atm

definition link_layer_code :: "link_layer \<Rightarrow> u8" where
  "link_layer_code ll = (case ll of Unaware \<Rightarrow> 0 | Ethernet \<Rightarrow> 1 | Atm \<Rightarrow> 2)"

record tc_rate_spec =
  rs_cell_log :: u8
  rs_linklayer :: u8
  rs_overhead :: u16
  rs_cell_align :: "16 word"
  rs_mpu :: u16
  rs_rate :: u32

definition tc_rate_spec_new :: "u32 \<Rightarrow> tc_rate_spec" where
  "tc_rate_spec_new rate =
     \<lparr>rs_cell_log = 0, rs_linklayer = 0, rs_overhead = 0, rs_cell_align = 0, rs_mpu = 0, rs_rate = rate\<rparr>"

definition tc_rate_spec_as_bytes :: "endian \<Rightarrow> tc_rate_spec \<Rightarrow> bytes" where
  "tc_rate_spec_as_bytes e s =
     [rs_cell_log s, rs_linklayer s] @ ne_bytes e 2 (rs_overhead s) @ ne_bytes e 2 (rs_cell_align s) @
     ne_bytes e 2 (rs_mpu s) @ ne_bytes e 4 (rs_rate s)"

definition adjust_size :: "u32 \<Rightarrow> u16 \<Rightarrow> link_layer \<Rightarrow> u32" where
  "adjust_size len mpu ll =
     (let len = max len (ucast mpu)
      in case ll of
           Atm \<Rightarrow> of_nat ((unat len + 47) div 48) * 53
         | Ethernet \<Rightarrow> len
         | Unaware \<Rightarrow> len)"

function cell_log_from :: "u32 \<Rightarrow> nat \<Rightarrow> nat" where
  "cell_log_from mtu cell_log =
     (if drop_bit cell_log mtu > 255 then cell_log_from mtu (Suc cell_log) else cell_log)"
  by pat_completeness auto
termination
proof (relation "measure (\<lambda>(mtu, k). unat (drop_bit k mtu))")
  fix mtu :: u32 and k
  assume "255 < drop_bit k mtu"
  then have "255 < unat (drop_bit k mtu)" by (simp add: word_less_nat_alt)
  moreover have "unat (drop_bit (Suc k) mtu) = unat (drop_bit k mtu) div 2"
    unfolding unat_drop_bit_eq unfolding drop_bit_eq_div by (simp add: div_mult2_eq[symmetric] mult.commute)
  ultimately show "((mtu, Suc k), mtu, k) \<in> measure (\<lambda>(mtu, k). unat (drop_bit k mtu))" by simp
qed simp

declare cell_log_from.simps [simp del]

definition calc_rtable :: "endian \<Rightarrow> psched \<Rightarrow> tc_rate_spec \<Rightarrow> u64 \<Rightarrow> u32 \<Rightarrow> link_layer \<Rightarrow>
    bytes \<times> tc_rate_spec" where
  "calc_rtable e p spec rate mtu ll =
     (let mtu = (if mtu = 0 then 2047 else mtu);
          cell_log = cell_log_from mtu 0;
          entry = (\<lambda>i. ne_bytes e 4 (calc_xmittime p rate
                     (adjust_size (push_bit cell_log (of_nat i + 1)) (rs_mpu spec) ll)))
      in (concat (map entry [0..<256]),
          spec\<lparr>rs_cell_log := of_nat cell_log, rs_cell_align := - 1,
               rs_linklayer := link_layer_code ll AND 0x0F\<rparr>))"


section \<open>How far the conversion is off\<close>

text \<open>The exact number of ticks, and the number before the cast.\<close>

definition exact_ticks :: "psched \<Rightarrow> u64 \<Rightarrow> u32 \<Rightarrow> rat" where
  "exact_ticks p rate len = 1000000 * ps_tick_in_usec p * u32_f64 len / of_nat (unat rate)"

definition float_ticks :: "psched \<Rightarrow> u64 \<Rightarrow> u32 \<Rightarrow> rat" where
  "float_ticks p rate len =
     fl (fl (1000000 * fl (u32_f64 len / u64_f64 rate)) * ps_tick_in_usec p)"

lemma calc_xmittime_float:
  "rate \<noteq> 0 \<Longrightarrow> calc_xmittime p rate len = saturate_u32 (float_ticks p rate len)"
  by (simp add: calc_xmittime_def time2tick_def float_ticks_def Let_def)

lemma rel_abs:
  fixes x y c :: rat
  shows "(1 - 1 / c) * x \<le> y \<Longrightarrow> y \<le> (1 + 1 / c) * x \<Longrightarrow> \<bar>y - x\<bar> \<le> x / c"
  by (simp add: abs_le_iff algebra_simps)

lemma float_ticks_bounds:
  assumes "rate \<noteq> 0" "0 < ps_tick_in_usec p"
  shows "\<bar>float_ticks p rate len - exact_ticks p rate len\<bar> \<le> exact_ticks p rate len / 2 ^ 50"
proof -
  let ?u = "1 / 2 ^ 53 :: rat" and ?n = "u32_f64 len" and ?t = "ps_tick_in_usec p"
  obtain r :: rat where r: "r = of_nat (unat rate)" by simp
  have r0: "0 < r" using assms(1) unat_gt_0[of rate] unfolding r of_nat_0_less_iff by simp
  have n: "0 \<le> ?n" unfolding u32_f64_def by (rule of_nat_0_le_iff)
  let ?q = "?n / r"
  have q: "0 \<le> ?q" using n r0 by simp
  have r': "r * (1 - ?u) \<le> u64_f64 rate" "u64_f64 rate \<le> r * (1 + ?u)"
    using fl_bounds[of r] r0 unfolding u64_f64_def r by simp_all
  have r'0: "0 < u64_f64 rate" by (rule less_le_trans[OF _ r'(1)]) (use r0 in simp)
  have "1 / (1 + ?u) * ?q = ?n / (r * (1 + ?u))" "1 / (1 - ?u) * ?q = ?n / (r * (1 - ?u))"
    by simp_all
  moreover have "?n / (r * (1 + ?u)) \<le> ?n / u64_f64 rate" "?n / u64_f64 rate \<le> ?n / (r * (1 - ?u))"
    by (rule divide_left_mono[OF r'(2) n], use r0 r'0 in simp,
        rule divide_left_mono[OF r'(1) n], use r0 r'0 in simp)
  ultimately have q': "1 / (1 + ?u) * ?q \<le> ?n / u64_f64 rate" "?n / u64_f64 rate \<le> 1 / (1 - ?u) * ?q"
    by simp_all
  note s1 = fl_rel[OF _ q']
  have n1: "0 \<le> ?n / u64_f64 rate" using n r'0 by simp
  let ?y1 = "fl (?n / u64_f64 rate)"
  have y1: "0 \<le> ?y1" using n1 by simp
  have s2: "1 / (1 + ?u) * (1 - ?u) * (1000000 * ?q) \<le> 1000000 * ?y1"
    "1000000 * ?y1 \<le> 1 / (1 - ?u) * (1 + ?u) * (1000000 * ?q)"
    using s1[OF n1] by simp_all
  let ?y2 = "fl (1000000 * ?y1)"
  have y2: "0 \<le> ?y2" using y1 by simp
  note s3 = fl_rel[OF _ s2]
  have t: "0 \<le> ?t" using assms(2) by simp
  have s4: "1 / (1 + ?u) * (1 - ?u) * (1 - ?u) * (1000000 * ?q * ?t) \<le> ?y2 * ?t"
    "?y2 * ?t \<le> 1 / (1 - ?u) * (1 + ?u) * (1 + ?u) * (1000000 * ?q * ?t)"
    using s3[THEN mult_right_mono, OF _ t] y1 by (simp_all add: mult_ac)
  note s5 = fl_rel[OF _ s4]
  have exact: "1000000 * ?q * ?t = exact_ticks p rate len"
    by (simp add: exact_ticks_def r mult_ac)
  have E: "0 \<le> exact_ticks p rate len" unfolding exact[symmetric] using q t by (intro mult_nonneg_nonneg) simp_all
  have "1 / (1 + ?u) * (1 - ?u) * (1 - ?u) * (1 - ?u) * exact_ticks p rate len \<le> float_ticks p rate len"
    "float_ticks p rate len \<le> 1 / (1 - ?u) * (1 + ?u) * (1 + ?u) * (1 + ?u) * exact_ticks p rate len"
    using s5 y2 t unfolding exact float_ticks_def by simp_all
  moreover have "(1 - 1 / 2 ^ 50) * exact_ticks p rate len
      \<le> 1 / (1 + ?u) * (1 - ?u) * (1 - ?u) * (1 - ?u) * exact_ticks p rate len"
    "1 / (1 - ?u) * (1 + ?u) * (1 + ?u) * (1 + ?u) * exact_ticks p rate len
      \<le> (1 + 1 / 2 ^ 50) * exact_ticks p rate len"
    by (rule mult_right_mono[OF _ E], simp)+
  ultimately have "(1 - 1 / 2 ^ 50) * exact_ticks p rate len \<le> float_ticks p rate len"
    "float_ticks p rate len \<le> (1 + 1 / 2 ^ 50) * exact_ticks p rate len"
    by - (rule order_trans, assumption, assumption)+
  then show ?thesis by (rule rel_abs)
qed


text \<open>
  The ticks of a packet: within one tick, and a relative error of 2^-50, of the exact
  number, as long as that number stays below the saturation.
\<close>

lemma unat_saturate:
  "unat (saturate_u32 v) = rat_as_u 4294967295 v"
proof (cases "v < 4294967295")
  case True
  define k where "k = \<lfloor>v\<rfloor>"
  have "k < 4294967295" using True by (simp add: k_def floor_less_iff)
  then have "nat k < 2 ^ LENGTH(32)" "nat k \<le> 4294967295" by simp_all
  note k = unat_of_nat_id[OF this(1)] this(2)
  have "saturate_u32 v = (if v \<le> 0 then 0 else of_nat (nat k))"
    using True unfolding saturate_u32_def k_def not_le[symmetric] by (simp only: if_False)
  then show ?thesis
    using k unfolding rat_as_u_def k_def[symmetric] by (cases "v \<le> 0") (simp_all only: if_True if_False unat_0 min_absorb2)
next
  case False
  define k where "k = \<lfloor>v\<rfloor>"
  have "4294967295 \<le> k" using False by (simp add: k_def le_floor_iff)
  then have "4294967295 \<le> nat \<lfloor>v\<rfloor>" unfolding k_def[symmetric] by simp
  then show ?thesis using False by (simp add: saturate_u32_def rat_as_u_def)
qed

lemma saturate_floor:
  assumes "0 \<le> v" "v < 4294967295"
  shows "(of_nat (unat (saturate_u32 v)) :: rat) \<le> v" "v < of_nat (unat (saturate_u32 v)) + 1"
proof -
  define k where "k = \<lfloor>v\<rfloor>"
  have "k < 4294967295" "0 \<le> k" using assms by (simp_all add: k_def floor_less_iff)
  then have "of_nat (unat (saturate_u32 v)) = (of_int k :: rat)"
    unfolding unat_saturate rat_as_u_def k_def[symmetric] using assms
    by (cases "v = 0") (simp add: k_def, simp add: min_absorb2)
  then show "(of_nat (unat (saturate_u32 v)) :: rat) \<le> v" "v < of_nat (unat (saturate_u32 v)) + 1"
    unfolding k_def by linarith+
qed

text \<open>
  C40. The ticks charged for a packet, computed in double precision and truncated, differ from
  the exact number by at most one tick and a relative error of \<open>2 ^ -50\<close>, for every rate
  and size whose exact number of ticks fits 32 bits.
\<close>

theorem xmittime_within_a_tick:
  assumes "rate \<noteq> 0" "0 < ps_tick_in_usec p" "exact_ticks p rate len \<le> 4294967290"
  shows "\<bar>of_nat (unat (calc_xmittime p rate len)) - exact_ticks p rate len\<bar>
    \<le> 1 + exact_ticks p rate len / 2 ^ 50"
proof -
  let ?E = "exact_ticks p rate len" and ?F = "float_ticks p rate len"
  have b: "\<bar>?F - ?E\<bar> \<le> ?E / 2 ^ 50" by (rule float_ticks_bounds[OF assms(1,2)])
  have "0 \<le> ?E"
    using assms(2) unfolding exact_ticks_def u32_f64_def
    by (intro divide_nonneg_nonneg mult_nonneg_nonneg of_nat_0_le_iff) simp_all
  then have F: "0 \<le> ?F" "?F < 4294967295"
    using b assms(3) unfolding abs_le_iff by (auto simp: field_simps)
  show ?thesis
    using saturate_floor[OF F] b unfolding calc_xmittime_float[OF assms(1)] abs_le_iff by linarith
qed

theorem xmittime_within_a_tick_witness:
  "\<bar>of_nat (unat (calc_xmittime psched_modern 125000 32768)) - exact_ticks psched_modern 125000 32768\<bar>
    \<le> 1 + exact_ticks psched_modern 125000 32768 / 2 ^ 50"
  by (rule xmittime_within_a_tick) (simp_all add: exact_ticks_def psched_modern_def u32_f64_def)

section \<open>The table never understates a packet\<close>

lemma saturate_mono: "v \<le> w \<Longrightarrow> saturate_u32 v \<le> saturate_u32 w"
  using rat_as_u_mono[of v w 4294967295] by (simp add: word_le_nat_alt unat_saturate)

lemma calc_xmittime_mono:
  assumes "0 < ps_tick_in_usec p" "m \<le> n"
  shows "calc_xmittime p rate m \<le> calc_xmittime p rate n"
proof (cases "rate = 0")
  case False
  have "u32_f64 m \<le> u32_f64 n"
    using assms(2) unfolding u32_f64_def by (simp only: of_nat_le_iff word_le_nat_alt)
  moreover have "0 \<le> u32_f64 m" "0 \<le> u64_f64 rate"
    unfolding u32_f64_def u64_f64_def by (simp_all only: of_nat_0_le_iff fl_nonneg)
  ultimately have "fl (u32_f64 m / u64_f64 rate) \<le> fl (u32_f64 n / u64_f64 rate)"
    "0 \<le> fl (u32_f64 m / u64_f64 rate)"
    by (auto intro!: fl_mono divide_right_mono)
  then have "1000000 * fl (u32_f64 m / u64_f64 rate) \<le> 1000000 * fl (u32_f64 n / u64_f64 rate)"
    "0 \<le> 1000000 * fl (u32_f64 m / u64_f64 rate)" by simp_all
  note y = fl_mono[OF this(2,1)] fl_nonneg[OF this(2)]
  then show ?thesis
    unfolding calc_xmittime_float[OF False] float_ticks_def using assms(1)
    by (intro saturate_mono fl_mono mult_right_mono mult_nonneg_nonneg y) simp_all
qed (simp add: calc_xmittime_def)


lemma cell_log_bound: "drop_bit (cell_log_from mtu k) mtu \<le> 255"
  by (induction mtu k rule: cell_log_from.induct) (subst cell_log_from.simps, auto simp: not_less)

lemma cell_log_least:
  "j < cell_log_from mtu k \<Longrightarrow> k \<le> j \<Longrightarrow> 255 < drop_bit j mtu"
proof (induction mtu k rule: cell_log_from.induct)
  case (1 mtu k)
  show ?case
  proof (cases "255 < drop_bit k mtu")
    case True
    then have "j < cell_log_from mtu (Suc k)" using 1(2) by (subst (asm) cell_log_from.simps) simp
    then show ?thesis using 1(1)[OF True] 1(3) True by (cases "j = k") auto
  next
    case False
    then show ?thesis using 1(2,3) by (subst (asm) cell_log_from.simps) simp
  qed
qed

lemma unat_drop: "unat (drop_bit k (w :: u32)) = unat w div 2 ^ k"
  unfolding unat_drop_bit_eq unfolding drop_bit_eq_div ..

text \<open>The cells cover the largest packet, and not more than twice of it.\<close>

lemma cell_log_covers:
  assumes "cl = cell_log_from mtu 0"
  shows "unat mtu < 256 * 2 ^ cl" "0 < cl \<Longrightarrow> 256 * 2 ^ cl \<le> 2 * unat mtu"
proof -
  have "unat mtu div 2 ^ cl < 256"
    using cell_log_bound[of mtu 0] unfolding assms word_le_nat_alt unat_drop by simp
  then show "unat mtu < 256 * 2 ^ cl" by (simp add: div_less_iff_less_mult)
  assume "0 < cl"
  then obtain c where c: "cl = Suc c" by (cases cl) auto
  have "256 \<le> unat mtu div 2 ^ c"
    using cell_log_least[of c mtu 0] c unfolding assms[symmetric] word_less_nat_alt unat_drop by simp
  then show "256 * 2 ^ cl \<le> 2 * unat mtu"
    unfolding c by (simp add: less_eq_div_iff_mult_less_eq)
qed

lemma adjust_size_mono:
  assumes "m \<le> n" "unat n \<le> 2 ^ 31" 
  shows "adjust_size m mpu ll \<le> adjust_size n mpu ll"
proof -
  let ?m = "max m (ucast mpu)" and ?n = "max n (ucast mpu)"
  have le: "?m \<le> ?n" using assms(1) by (simp add: max.coboundedI1)
  have "unat (ucast mpu :: u32) < 2 ^ 16"
    using unsigned_less[where 'a = nat, of mpu] by (simp add: unsigned_ucast_eq take_bit_nat_eq_self)
  then have bound: "unat x \<le> 2 ^ 31" if "x \<le> ?n" for x :: u32
    using that assms(2) unfolding max_def word_le_nat_alt by (auto split: if_splits)
  have atm: "unat (of_nat ((unat x + 47) div 48) * 53 :: u32) = (unat x + 47) div 48 * 53" if "x \<le> ?n" for x :: u32
  proof -
    have "(unat x + 47) div 48 * 53 < 2 ^ 32" using bound[OF that] by simp
    then show ?thesis by (simp add: unat_word_ariths unat_of_nat)
  qed
  show ?thesis
    using le by (cases ll) (auto simp: adjust_size_def Let_def word_le_nat_alt atm[OF le] atm[OF order_refl]
      intro!: mult_right_mono div_le_mono)
qed


lemma concat_chunk:
  "\<forall>x \<in> set xs. length x = k \<Longrightarrow> i < length xs \<Longrightarrow> take k (drop (k * i) (concat xs)) = xs ! i"
proof (induction xs arbitrary: i)
  case (Cons x xs)
  then show ?case by (cases i) (auto simp: add.commute)
qed simp

lemma rtable_entry:
  assumes "i < 256" "mtu \<noteq> 0" "cl = cell_log_from mtu 0"
  shows "ne_word e (take 4 (drop (4 * i) (fst (calc_rtable e p spec rate mtu ll)))) =
    calc_xmittime p rate (adjust_size (push_bit cl (of_nat i + 1)) (rs_mpu spec) ll)"
  using assms(1,2) unfolding calc_rtable_def Let_def assms(3) fst_conv
  by (subst concat_chunk) (auto simp: ne_word_bytes)

lemma unat_cell_end:
  assumes "i < 256" "256 * 2 ^ cl \<le> (2 :: nat) ^ 31" 
  shows "unat (push_bit cl (of_nat i + 1 :: u32)) = (i + 1) * 2 ^ cl"
proof -
  have "(i + 1) * 2 ^ cl \<le> 256 * 2 ^ cl" using assms(1) by (intro mult_right_mono) simp_all
  also have "\<dots> < 2 ^ LENGTH(32)" by (rule le_less_trans[OF assms(2)]) simp
  finally have "(i + 1) * 2 ^ cl < 2 ^ LENGTH(32)" .
  note unat_of_nat_id[OF this]
  moreover have "push_bit cl (of_nat i + 1 :: u32) = of_nat ((i + 1) * 2 ^ cl)"
    by (simp add: push_bit_eq_mult algebra_simps)
  ultimately show ?thesis by simp
qed

text \<open>
  The table always has the 1024 bytes the kernel insists on; the cell the kernel looks up
  for a packet of at most \<open>mtu\<close> bytes exists, and the time stored there is not below the
  packet's own: a shaper configured through it never sends faster than the rate allows.
\<close>

theorem rtable_covers:
  assumes "0 < ps_tick_in_usec p" "0 < len" "len \<le> mtu" "unat mtu \<le> 2 ^ 29"
    "calc_rtable e p spec rate mtu ll = (table, spec')"
    "i = (unat len - 1) div 2 ^ unat (rs_cell_log spec')"
  shows "length table = 1024 \<and> i < 256 \<and>
    calc_xmittime p rate (adjust_size len (rs_mpu spec) ll) \<le> ne_word e (take 4 (drop (4 * i) table))"
proof -
  define cl where "cl = cell_log_from mtu 0"
  have mtu: "mtu \<noteq> 0" using assms(2,3) by auto
  have cover: "unat mtu < 256 * 2 ^ cl" "256 * 2 ^ cl \<le> (2 :: nat) ^ 31"
    using cell_log_covers[OF cl_def] assms(4) by (cases "cl = 0"; simp)+
  have "2 ^ cl \<le> (2 :: nat) ^ 23" using cover(2) by simp
  then have "cl \<le> 23" by (simp only: power_increasing_iff[of "2 :: nat"] one_less_numeral_iff semiring_norm)
  then have "cl < 256" by simp
  then have log: "unat (rs_cell_log spec') = cl"
    using assms(5) mtu by (auto simp: calc_rtable_def Let_def cl_def unat_of_nat_id)
  have len: "0 < unat len" "unat len \<le> unat mtu"
    using assms(2,3) by (simp_all add: word_less_nat_alt word_le_nat_alt)
  have i: "i < 256"
    unfolding assms(6) log using len cover(1) by (simp add: div_less_iff_less_mult)
  have "unat len - 1 < (i + 1) * 2 ^ cl"
    unfolding assms(6) log by (metis Suc_eq_plus1 dividend_less_div_times mult_Suc zero_less_numeral zero_less_power)
  then have "len \<le> push_bit cl (of_nat i + 1)"
    unfolding word_le_nat_alt unat_cell_end[OF i cover(2)] by simp
  moreover have "unat (push_bit cl (of_nat i + 1 :: u32)) \<le> 2 ^ 31"
    unfolding unat_cell_end[OF i cover(2)] using i cover(2) mult_le_mono1[of "i + 1" 256 "2 ^ cl"] by linarith
  ultimately have "calc_xmittime p rate (adjust_size len (rs_mpu spec) ll)
      \<le> calc_xmittime p rate (adjust_size (push_bit cl (of_nat i + 1)) (rs_mpu spec) ll)"
    by (intro calc_xmittime_mono[OF assms(1)] adjust_size_mono)
  moreover have "length table = 1024"
    using assms(5) by (auto simp: calc_rtable_def Let_def length_concat sum_list_triv comp_def)
  ultimately show ?thesis
    using rtable_entry[OF i mtu cl_def, of e p spec rate ll] i by (simp add: assms(5))
qed

theorem rtable_covers_witness:
  "let (table, spec') = calc_rtable LittleEndian psched_modern (tc_rate_spec_new 125000) 125000 1514 Ethernet
   in length table = 1024 \<and> (1499 div 2 ^ unat (rs_cell_log spec') :: nat) < 256 \<and>
      calc_xmittime psched_modern 125000 (adjust_size 1500 (rs_mpu (tc_rate_spec_new 125000)) Ethernet)
        \<le> ne_word LittleEndian (take 4 (drop (4 * (1499 div 2 ^ unat (rs_cell_log spec'))) table))"
  using rtable_covers[of psched_modern 1500 1514 LittleEndian "tc_rate_spec_new 125000" 125000 Ethernet]
  by (auto simp: psched_modern_def split: prod.split)

end
