(* ===== verification/Tc_Qdisc.thy ===== *)
theory Tc_Qdisc
  imports Attr_Walk Netlink_Builder Psched
begin

text \<open>
  The qdisc configurations a declared network can hold (\<open>netlink/tc.rs\<close>), their wire form
  (\<open>QdiscConfig::write_options\<close>, the structures of \<open>netlink/types/tc.rs\<close>), and the option
  parsers of \<open>netlink/tc_options.rs\<close> that read it back.  Durations are in nanoseconds, rates
  in bytes per second, and a percentage is its \<open>f64\<close>.
\<close>

section \<open>Units\<close>

type_synonym duration = nat

definition as_micros_u32 :: "duration \<Rightarrow> u32" where
  "as_micros_u32 d = of_nat (d div 1000)"

definition as_nanos_i64 :: "duration \<Rightarrow> u64" where
  "as_nanos_i64 d = of_nat d"

definition from_micros :: "u32 \<Rightarrow> duration" where
  "from_micros us = unat us * 1000"

definition as_u32_saturating :: "u64 \<Rightarrow> u32" where
  "as_u32_saturating n = (if 0xFFFFFFFF < n then 0xFFFFFFFF else ucast n)"

definition percent_new :: "f64 \<Rightarrow> f64" where
  "percent_new v = f64_clamp 0 100 v"

definition percent_is_zero :: "f64 \<Rightarrow> bool" where
  "percent_is_zero p = (p = Fin 0)"

definition as_kernel_probability :: "f64 \<Rightarrow> u32" where
  "as_kernel_probability p =
     of_nat (f64_as_u 4294967295 (f64_map (\<lambda>x. x * 4294967295) (f64_map (\<lambda>x. x / 100) p)))"

definition prob_to_percent :: "u32 \<Rightarrow> f64" where
  "prob_to_percent prob =
     f64_map (\<lambda>x. x * 100) (f64_map (\<lambda>x. x / 4294967295) (Fin (of_nat (unat prob))))"

lemma prob_to_percent_0: "prob_to_percent 0 = Fin 0" "prob_to_percent (as_kernel_probability (Fin 0)) = Fin 0"
  by (simp_all add: prob_to_percent_def as_kernel_probability_def rat_as_u_def)

text \<open>A percentage comes back within \<open>10 ^ -7\<close>: it was cut to a multiple of \<open>100 / (2 ^ 32 - 1)\<close>.\<close>

lemma percent_kept:
  assumes "0 \<le> x" "x \<le> 100"
  obtains y where "prob_to_percent (as_kernel_probability (Fin x)) = Fin y" "\<bar>y - x\<bar> \<le> 1 / 10 ^ 7"
proof -
  define a where "a = fl (x / 100)"
  define b where "b = fl (a * 4294967295)"
  have one: "fl 1 = 1" and top: "fl 4294967295 = 4294967295" using fl_nat[of 1] fl_nat[of 4294967295] by simp_all
  have a: "0 \<le> a" "a \<le> 1" "\<bar>a - x / 100\<bar> \<le> x / 100 / 2 ^ 53"
    using fl_nonneg[of "x / 100"] fl_mono[of "x / 100" 1] fl_error[of "x / 100"] assms by (simp_all add: a_def one)
  have b: "0 \<le> b" "b \<le> 4294967295" "\<bar>b - a * 4294967295\<bar> \<le> a * 4294967295 / 2 ^ 53"
    using fl_nonneg[of "a * 4294967295"] fl_mono[of "a * 4294967295" 4294967295] fl_error[of "a * 4294967295"] a
    by (simp_all add: b_def top)
  define n where "n = rat_as_u 4294967295 b"
  have floor: "nat \<lfloor>b\<rfloor> \<le> 4294967295" using nat_mono[OF floor_mono[OF b(2)]] by simp
  then have n: "n = nat \<lfloor>b\<rfloor>" using b(1) by (auto simp: n_def rat_as_u_def)
  then have n_b: "of_nat n \<le> b" "b < of_nat n + 1" using b(1) by (simp_all add: of_nat_nat) linarith
  have unat: "unat (of_nat n :: u32) = n" using floor n by (simp add: unsigned_of_nat take_bit_nat_eq_self)
  define c where "c = fl (of_nat n / 4294967295)"
  have c: "0 \<le> c" "\<bar>c - of_nat n / 4294967295\<bar> \<le> of_nat n / 4294967295 / 2 ^ 53"
    using fl_nonneg[of "of_nat n / 4294967295"] fl_error[of "of_nat n / 4294967295"] by (simp_all add: c_def)
  have y: "\<bar>fl (c * 100) - c * 100\<bar> \<le> c * 100 / 2 ^ 53" using fl_error[of "c * 100"] c(1) by simp
  have "prob_to_percent (as_kernel_probability (Fin x)) = Fin (fl (c * 100))"
    by (simp add: prob_to_percent_def as_kernel_probability_def a_def[symmetric] b_def[symmetric] n_def[symmetric]
        c_def[symmetric] unat)
  moreover have "\<bar>fl (c * 100) - x\<bar> \<le> 1 / 10 ^ 7"
    using a b c y n_b assms unfolding abs_le_iff by (simp add: field_simps)
  ultimately show ?thesis by (rule that)
qed

section \<open>Configurations\<close>

record netem_config =
  ne_delay :: "duration option"
  ne_jitter :: "duration option"
  ne_delay_correlation :: f64
  ne_loss :: f64
  ne_loss_correlation :: f64
  ne_duplicate :: f64
  ne_duplicate_correlation :: f64
  ne_corrupt :: f64
  ne_corrupt_correlation :: f64
  ne_reorder :: f64
  ne_reorder_correlation :: f64
  ne_gap :: u32
  ne_rate :: "u64 option"
  ne_limit :: u32

definition netem_new :: netem_config where
  "netem_new =
     \<lparr>ne_delay = None, ne_jitter = None, ne_delay_correlation = Fin 0, ne_loss = Fin 0,
      ne_loss_correlation = Fin 0, ne_duplicate = Fin 0, ne_duplicate_correlation = Fin 0,
      ne_corrupt = Fin 0, ne_corrupt_correlation = Fin 0, ne_reorder = Fin 0,
      ne_reorder_correlation = Fin 0, ne_gap = 0, ne_rate = None, ne_limit = 1000\<rparr>"

record fq_codel_config =
  fc_target :: "duration option"
  fc_interval :: "duration option"
  fc_limit :: "u32 option"
  fc_flows :: "u32 option"
  fc_quantum :: "u32 option"
  fc_ecn :: bool
  fc_ce_threshold :: "duration option"
  fc_memory_limit :: "u32 option"

definition fq_codel_new :: fq_codel_config where
  "fq_codel_new =
     \<lparr>fc_target = None, fc_interval = None, fc_limit = None, fc_flows = None, fc_quantum = None,
      fc_ecn = False, fc_ce_threshold = None, fc_memory_limit = None\<rparr>"

record tbf_config =
  tb_rate :: u64
  tb_peakrate :: "u64 option"
  tb_burst :: u64
  tb_mtu :: u32
  tb_limit :: u64

definition tbf_new :: tbf_config where
  "tbf_new = \<lparr>tb_rate = 0, tb_peakrate = None, tb_burst = 0, tb_mtu = 1514, tb_limit = 0\<rparr>"

record htb_qdisc_config =
  hq_default_class :: u32
  hq_r2q :: u32
  hq_direct_qlen :: "u32 option"

definition htb_qdisc_new :: htb_qdisc_config where
  "htb_qdisc_new = \<lparr>hq_default_class = 0, hq_r2q = 10, hq_direct_qlen = None\<rparr>"

record prio_config =
  pr_bands :: u32
  pr_priomap :: bytes

definition prio_new :: prio_config where
  "prio_new = \<lparr>pr_bands = 3, pr_priomap = [1, 2, 2, 2, 1, 2, 0, 0, 1, 1, 1, 1, 1, 1, 1, 1]\<rparr>"

record sfq_config =
  sf_perturb :: u32
  sf_limit :: u32
  sf_quantum :: u32

definition sfq_new :: sfq_config where
  "sfq_new = \<lparr>sf_perturb = 0, sf_limit = 127, sf_quantum = 0\<rparr>"

datatype qdisc_config =
    NetemConfig netem_config
  | FqCodelConfig fq_codel_config
  | TbfConfig tbf_config
  | HtbQdiscConfig htb_qdisc_config
  | PrioConfig prio_config
  | SfqConfig sfq_config
  | IngressConfig
  | ClsactConfig

fun qdisc_kind :: "qdisc_config \<Rightarrow> string" where
  "qdisc_kind (NetemConfig c) = ''netem''"
| "qdisc_kind (FqCodelConfig c) = ''fq_codel''"
| "qdisc_kind (TbfConfig c) = ''tbf''"
| "qdisc_kind (HtbQdiscConfig c) = ''htb''"
| "qdisc_kind (PrioConfig c) = ''prio''"
| "qdisc_kind (SfqConfig c) = ''sfq''"
| "qdisc_kind IngressConfig = ''ingress''"
| "qdisc_kind ClsactConfig = ''clsact''"

section \<open>Writing\<close>

definition attr_opt :: "endian \<Rightarrow> u16 \<Rightarrow> bytes option \<Rightarrow> message_builder \<Rightarrow> message_builder" where
  "attr_opt e t v b = (case v of None \<Rightarrow> b | Some d \<Rightarrow> append_attr e t d b)"

abbreviation u32_opt :: "endian \<Rightarrow> u16 \<Rightarrow> u32 option \<Rightarrow> message_builder \<Rightarrow> message_builder" where
  "u32_opt e t v \<equiv> attr_opt e t (map_option (ne_bytes e 4) v)"

record tc_netem_qopt =
  nq_latency :: u32
  nq_limit :: u32
  nq_loss :: u32
  nq_gap :: u32
  nq_duplicate :: u32
  nq_jitter :: u32

definition tc_netem_qopt_as_bytes :: "endian \<Rightarrow> tc_netem_qopt \<Rightarrow> bytes" where
  "tc_netem_qopt_as_bytes e q =
     ne_bytes e 4 (nq_latency q) @ ne_bytes e 4 (nq_limit q) @ ne_bytes e 4 (nq_loss q) @
     ne_bytes e 4 (nq_gap q) @ ne_bytes e 4 (nq_duplicate q) @ ne_bytes e 4 (nq_jitter q)"

definition netem_qopt :: "netem_config \<Rightarrow> tc_netem_qopt" where
  "netem_qopt c =
     \<lparr>nq_latency = (case ne_delay c of Some d \<Rightarrow> as_micros_u32 d | None \<Rightarrow> 0),
      nq_limit = ne_limit c,
      nq_loss = (if percent_is_zero (ne_loss c) then 0 else as_kernel_probability (ne_loss c)),
      nq_gap = (if \<not> percent_is_zero (ne_reorder c) \<and> ne_gap c = 0 then 1 else ne_gap c),
      nq_duplicate = (if percent_is_zero (ne_duplicate c) then 0 else as_kernel_probability (ne_duplicate c)),
      nq_jitter = (case ne_jitter c of Some j \<Rightarrow> as_micros_u32 j | None \<Rightarrow> 0)\<rparr>"

definition prob_pair :: "endian \<Rightarrow> f64 \<Rightarrow> f64 \<Rightarrow> bytes" where
  "prob_pair e p corr =
     ne_bytes e 4 (as_kernel_probability p) @ ne_bytes e 4 (as_kernel_probability corr)"

definition netem_write :: "endian \<Rightarrow> netem_config \<Rightarrow> message_builder \<Rightarrow> message_builder option" where
  "netem_write e c b =
     (if \<not> percent_is_zero (ne_reorder c) \<and> ne_delay c = None then None
      else
        let b = append_bytes (tc_netem_qopt_as_bytes e (netem_qopt c)) b;
            b = attr_opt e 10 (map_option (\<lambda>d. ne_bytes e 8 (as_nanos_i64 d)) (ne_delay c)) b;
            b = attr_opt e 11 (map_option (\<lambda>d. ne_bytes e 8 (as_nanos_i64 d)) (ne_jitter c)) b;
            b = (if \<not> percent_is_zero (ne_delay_correlation c) \<or> \<not> percent_is_zero (ne_loss_correlation c)
                    \<or> \<not> percent_is_zero (ne_duplicate_correlation c)
                 then append_attr e 1 (ne_bytes e 4 (as_kernel_probability (ne_delay_correlation c)) @
                   ne_bytes e 4 (as_kernel_probability (ne_loss_correlation c)) @
                   ne_bytes e 4 (as_kernel_probability (ne_duplicate_correlation c))) b
                 else b);
            b = (if \<not> percent_is_zero (ne_reorder c)
                 then append_attr e 3 (prob_pair e (ne_reorder c) (ne_reorder_correlation c)) b else b);
            b = (if \<not> percent_is_zero (ne_corrupt c)
                 then append_attr e 4 (prob_pair e (ne_corrupt c) (ne_corrupt_correlation c)) b else b)
        in Some (case ne_rate c of
             None \<Rightarrow> b
           | Some bps \<Rightarrow>
               let rate_attr = (\<lambda>r :: u32. ne_bytes e 4 r @ ne_bytes e 4 (0 :: u32) @ ne_bytes e 4 (0 :: u32)
                     @ ne_bytes e 4 (0 :: u32))
               in if bps > 0xFFFFFFFF then
                    append_attr e 8 (ne_bytes e 8 bps) (append_attr e 6 (rate_attr 0xFFFFFFFF) b)
                  else append_attr e 6 (rate_attr (ucast bps)) b))"

definition fq_codel_write :: "endian \<Rightarrow> fq_codel_config \<Rightarrow> message_builder \<Rightarrow> message_builder" where
  "fq_codel_write e c b =
     (let b = u32_opt e 1 (map_option as_micros_u32 (fc_target c)) b;
          b = u32_opt e 3 (map_option as_micros_u32 (fc_interval c)) b;
          b = u32_opt e 2 (fc_limit c) b;
          b = u32_opt e 5 (fc_flows c) b;
          b = u32_opt e 6 (fc_quantum c) b;
          b = (if fc_ecn c then append_attr_u32 e 4 1 b else b);
          b = u32_opt e 7 (map_option as_micros_u32 (fc_ce_threshold c)) b
      in u32_opt e 9 (fc_memory_limit c) b)"

record tc_tbf_qopt =
  tq_rate :: tc_rate_spec
  tq_peakrate :: tc_rate_spec
  tq_limit :: u32
  tq_buffer :: u32
  tq_mtu :: u32

definition tc_tbf_qopt_as_bytes :: "endian \<Rightarrow> tc_tbf_qopt \<Rightarrow> bytes" where
  "tc_tbf_qopt_as_bytes e q =
     tc_rate_spec_as_bytes e (tq_rate q) @ tc_rate_spec_as_bytes e (tq_peakrate q) @
     ne_bytes e 4 (tq_limit q) @ ne_bytes e 4 (tq_buffer q) @ ne_bytes e 4 (tq_mtu q)"

definition tbf_write :: "endian \<Rightarrow> psched \<Rightarrow> tbf_config \<Rightarrow> message_builder \<Rightarrow> message_builder" where
  "tbf_write e p c b =
     (let rate_bps = tb_rate c;
          burst = as_u32_saturating (tb_burst c);
          (rtab, rate) = calc_rtable e p (tc_rate_spec_new (as_u32_saturating rate_bps)) rate_bps (tb_mtu c) Ethernet;
          peak = map_option (\<lambda>pr. calc_rtable e p (tc_rate_spec_new (as_u32_saturating pr)) pr (tb_mtu c) Ethernet)
            (tb_peakrate c);
          qopt = \<lparr>tq_rate = rate,
            tq_peakrate = (case peak of None \<Rightarrow> tc_rate_spec_new 0 | Some (_, s) \<Rightarrow> s),
            tq_limit = as_u32_saturating (tb_limit c),
            tq_buffer = calc_xmittime p rate_bps burst,
            tq_mtu = calc_xmittime p (case tb_peakrate c of None \<Rightarrow> rate_bps | Some pr \<Rightarrow> pr) (tb_mtu c)\<rparr>;
          b = append_attr e 1 (tc_tbf_qopt_as_bytes e qopt) b;
          b = append_attr e 2 rtab b;
          b = attr_opt e 3 (map_option fst peak) b;
          b = (if rate_bps > 0xFFFFFFFF then append_attr e 4 (ne_bytes e 8 rate_bps) b else b);
          b = (case tb_peakrate c of
                 Some pr \<Rightarrow> if pr > 0xFFFFFFFF then append_attr e 5 (ne_bytes e 8 pr) b else b
               | None \<Rightarrow> b);
          b = append_attr_u32 e 6 burst b
      in if tb_peakrate c \<noteq> None then append_attr_u32 e 7 (tb_mtu c) b else b)"

definition tc_htb_glob_as_bytes :: "endian \<Rightarrow> u32 \<Rightarrow> u32 \<Rightarrow> bytes" where
  "tc_htb_glob_as_bytes e defcls r2q =
     ne_bytes e 4 (3 :: u32) @ ne_bytes e 4 r2q @ ne_bytes e 4 defcls @ ne_bytes e 4 (0 :: u32) @
     ne_bytes e 4 (0 :: u32)"

definition htb_write :: "endian \<Rightarrow> htb_qdisc_config \<Rightarrow> message_builder \<Rightarrow> message_builder" where
  "htb_write e c b =
     u32_opt e 5 (hq_direct_qlen c)
       (append_attr e 2 (tc_htb_glob_as_bytes e (hq_default_class c) (hq_r2q c)) b)"

definition prio_write :: "endian \<Rightarrow> prio_config \<Rightarrow> message_builder \<Rightarrow> message_builder" where
  "prio_write e c b = append_bytes (ne_bytes e 4 (pr_bands c) @ pr_priomap c) b"

definition sfq_write :: "endian \<Rightarrow> sfq_config \<Rightarrow> message_builder \<Rightarrow> message_builder" where
  "sfq_write e c b =
     append_bytes (ne_bytes e 4 (sf_quantum c) @ ne_bytes e 4 (sf_perturb c) @ ne_bytes e 4 (sf_limit c) @
       ne_bytes e 4 (0 :: u32) @ ne_bytes e 4 (0 :: u32)) b"

fun write_options :: "endian \<Rightarrow> psched \<Rightarrow> qdisc_config \<Rightarrow> message_builder \<Rightarrow> message_builder option" where
  "write_options e p (NetemConfig c) b = netem_write e c b"
| "write_options e p (FqCodelConfig c) b = Some (fq_codel_write e c b)"
| "write_options e p (TbfConfig c) b = Some (tbf_write e p c b)"
| "write_options e p (HtbQdiscConfig c) b = Some (htb_write e c b)"
| "write_options e p (PrioConfig c) b = Some (prio_write e c b)"
| "write_options e p (SfqConfig c) b = Some (sfq_write e c b)"
| "write_options e p IngressConfig b = Some b"
| "write_options e p ClsactConfig b = Some b"

section \<open>Reading\<close>

record fq_codel_options =
  fo_target_us :: u32
  fo_interval_us :: u32
  fo_limit :: u32
  fo_flows :: u32
  fo_quantum :: u32
  fo_ecn :: bool
  fo_ce_threshold_us :: "u32 option"
  fo_memory_limit :: "u32 option"
  fo_drop_batch_size :: "u32 option"

definition fq_codel_default :: fq_codel_options where
  "fq_codel_default =
     \<lparr>fo_target_us = 0, fo_interval_us = 0, fo_limit = 0, fo_flows = 0, fo_quantum = 0,
      fo_ecn = False, fo_ce_threshold_us = None, fo_memory_limit = None, fo_drop_batch_size = None\<rparr>"

definition fq_codel_step :: "endian \<Rightarrow> u16 \<Rightarrow> bytes \<Rightarrow> fq_codel_options \<Rightarrow> fq_codel_options" where
  "fq_codel_step e t payload opts =
     (if length payload < 4 then opts
      else if t = 1 then opts\<lparr>fo_target_us := read_u32 e payload\<rparr>
      else if t = 2 then opts\<lparr>fo_limit := read_u32 e payload\<rparr>
      else if t = 3 then opts\<lparr>fo_interval_us := read_u32 e payload\<rparr>
      else if t = 4 then opts\<lparr>fo_ecn := (read_u32 e payload \<noteq> 0)\<rparr>
      else if t = 5 then opts\<lparr>fo_flows := read_u32 e payload\<rparr>
      else if t = 6 then opts\<lparr>fo_quantum := read_u32 e payload\<rparr>
      else if t = 7 then opts\<lparr>fo_ce_threshold_us := Some (read_u32 e payload)\<rparr>
      else if t = 8 then opts\<lparr>fo_drop_batch_size := Some (read_u32 e payload)\<rparr>
      else if t = 9 then opts\<lparr>fo_memory_limit := Some (read_u32 e payload)\<rparr>
      else opts)"

definition parse_fq_codel_options :: "endian \<Rightarrow> bytes \<Rightarrow> fq_codel_options" where
  "parse_fq_codel_options e data = options_walk e (fq_codel_step e) data fq_codel_default"

record htb_options =
  ho_default_class :: u32
  ho_rate2quantum :: u32
  ho_direct_qlen :: "u32 option"
  ho_version :: u32

definition htb_step :: "endian \<Rightarrow> u16 \<Rightarrow> bytes \<Rightarrow> htb_options \<Rightarrow> htb_options" where
  "htb_step e t payload opts =
     (if t = 2 \<and> 20 \<le> length payload then
        opts\<lparr>ho_version := read_at e 0 payload, ho_rate2quantum := read_at e 4 payload,
             ho_default_class := read_at e 8 payload\<rparr>
      else if t = 5 \<and> 4 \<le> length payload then opts\<lparr>ho_direct_qlen := Some (read_u32 e payload)\<rparr>
      else opts)"

definition parse_htb_options :: "endian \<Rightarrow> bytes \<Rightarrow> htb_options" where
  "parse_htb_options e data =
     options_walk e (htb_step e) data
       \<lparr>ho_default_class = 0, ho_rate2quantum = 0, ho_direct_qlen = None, ho_version = 0\<rparr>"

record tbf_options =
  to_rate :: u64
  to_peakrate :: u64
  to_burst :: u32
  to_mtu :: u32
  to_limit :: u32

text \<open>The locals of \<open>parse_tbf_options\<close> beside its result.\<close>

record tbf_scan = tbf_options +
  tx_rate64 :: "u64 option"
  tx_prate64 :: "u64 option"
  tx_buffer_ticks :: u32
  tx_mtu_ticks :: u32
  tx_burst_bytes :: "u32 option"
  tx_pburst_bytes :: "u32 option"

definition tbf_step :: "endian \<Rightarrow> u16 \<Rightarrow> bytes \<Rightarrow> tbf_scan \<Rightarrow> tbf_scan" where
  "tbf_step e t payload s =
     (if t = 1 \<and> 36 \<le> length payload then
        s\<lparr>to_rate := ucast (read_at e 8 payload), to_peakrate := ucast (read_at e 20 payload),
          to_limit := read_at e 24 payload, tx_buffer_ticks := read_at e 28 payload,
          tx_mtu_ticks := read_at e 32 payload\<rparr>
      else if t = 4 \<and> 8 \<le> length payload then s\<lparr>tx_rate64 := Some (ne_word e (take 8 payload))\<rparr>
      else if t = 5 \<and> 8 \<le> length payload then s\<lparr>tx_prate64 := Some (ne_word e (take 8 payload))\<rparr>
      else if t = 6 \<and> 4 \<le> length payload then s\<lparr>tx_burst_bytes := Some (read_u32 e payload)\<rparr>
      else if t = 7 \<and> 4 \<le> length payload then s\<lparr>tx_pburst_bytes := Some (read_u32 e payload)\<rparr>
      else s)"

definition tbf_scan_new :: tbf_scan where
  "tbf_scan_new =
     \<lparr>to_rate = 0, to_peakrate = 0, to_burst = 0, to_mtu = 0, to_limit = 0, tx_rate64 = None,
      tx_prate64 = None, tx_buffer_ticks = 0, tx_mtu_ticks = 0, tx_burst_bytes = None,
      tx_pburst_bytes = None\<rparr>"

definition parse_tbf_options :: "endian \<Rightarrow> psched \<Rightarrow> bytes \<Rightarrow> tbf_options" where
  "parse_tbf_options e p data =
     (let s = options_walk e (tbf_step e) data tbf_scan_new;
          rate = (case tx_rate64 s of Some r \<Rightarrow> r | None \<Rightarrow> to_rate s);
          peakrate = (case tx_prate64 s of Some r \<Rightarrow> r | None \<Rightarrow> to_peakrate s);
          peak = (if peakrate > 0 then peakrate else rate)
      in \<lparr>to_rate = rate, to_peakrate = peakrate,
          to_burst = (case tx_burst_bytes s of Some n \<Rightarrow> n | None \<Rightarrow> calc_xmitsize p rate (tx_buffer_ticks s)),
          to_mtu = (case tx_pburst_bytes s of Some n \<Rightarrow> n | None \<Rightarrow> calc_xmitsize p peak (tx_mtu_ticks s)),
          to_limit = to_limit s\<rparr>)"

record prio_options =
  po_bands :: u32
  po_priomap :: bytes

definition parse_prio_options :: "endian \<Rightarrow> bytes \<Rightarrow> prio_options" where
  "parse_prio_options e data =
     (if 20 \<le> length data then \<lparr>po_bands = read_at e 0 data, po_priomap = take 16 (drop 4 data)\<rparr>
      else \<lparr>po_bands = 3, po_priomap = [1, 2, 2, 2, 1, 2, 0, 0, 1, 1, 1, 1, 1, 1, 1, 1]\<rparr>)"

record sfq_options =
  so_quantum :: u32
  so_perturb_period :: u32
  so_limit :: u32
  so_divisor :: u32
  so_flows :: u32
  so_depth :: "u32 option"
  so_headdrop :: "bool option"

definition parse_sfq_options :: "endian \<Rightarrow> bytes \<Rightarrow> sfq_options" where
  "parse_sfq_options e data =
     (if 20 \<le> length data then
        let opts = \<lparr>so_quantum = read_at e 0 data, so_perturb_period = read_at e 4 data,
              so_limit = read_at e 8 data, so_divisor = read_at e 12 data, so_flows = read_at e 16 data,
              so_depth = None, so_headdrop = None\<rparr>
        in if 32 \<le> length data then
             opts\<lparr>so_depth := Some (read_at e 20 data), so_headdrop := Some (read_at e 24 data \<noteq> 0)\<rparr>
           else opts
      else \<lparr>so_quantum = 0, so_perturb_period = 0, so_limit = 0, so_divisor = 0, so_flows = 0,
            so_depth = None, so_headdrop = None\<rparr>)"

text \<open>
  The options of netem; the signed fields are kept as their words.  The first 24 bytes are the structure, the attributes
  follow; the 64-bit delays replace those of the structure.
\<close>

datatype netem_loss_model =
    GilbertIntuitive (gi_p13: f64) (gi_p31: f64) (gi_p32: f64) (gi_p14: f64) (gi_p23: f64)
  | GilbertElliot (gl_p: f64) (gl_r: f64) (gl_h: f64) (gl_k1: f64)

record netem_slot_options =
  sl_min_delay_ns :: u64
  sl_max_delay_ns :: u64
  sl_max_packets :: u32
  sl_max_bytes :: u32
  sl_dist_delay_ns :: u64
  sl_dist_jitter_ns :: u64

record netem_options =
  nt_delay_ns :: u64
  nt_jitter_ns :: u64
  nt_delay_corr :: f64
  nt_loss_percent :: f64
  nt_loss_corr :: f64
  nt_duplicate_percent :: f64
  nt_duplicate_corr :: f64
  nt_reorder_percent :: f64
  nt_reorder_corr :: f64
  nt_corrupt_percent :: f64
  nt_corrupt_corr :: f64
  nt_rate :: u64
  nt_packet_overhead :: u32
  nt_cell_size :: u32
  nt_cell_overhead :: u32
  nt_limit :: u32
  nt_gap :: u32
  nt_ecn :: bool
  nt_slot :: "netem_slot_options option"
  nt_loss_model :: "netem_loss_model option"

definition netem_default :: netem_options where
  "netem_default =
     \<lparr>nt_delay_ns = 0, nt_jitter_ns = 0, nt_delay_corr = Fin 0, nt_loss_percent = Fin 0, nt_loss_corr = Fin 0,
      nt_duplicate_percent = Fin 0, nt_duplicate_corr = Fin 0, nt_reorder_percent = Fin 0, nt_reorder_corr = Fin 0,
      nt_corrupt_percent = Fin 0, nt_corrupt_corr = Fin 0, nt_rate = 0, nt_packet_overhead = 0, nt_cell_size = 0,
      nt_cell_overhead = 0, nt_limit = 0, nt_gap = 0, nt_ecn = False, nt_slot = None, nt_loss_model = None\<rparr>"

definition netem_loss_step :: "endian \<Rightarrow> u16 \<Rightarrow> bytes \<Rightarrow> netem_options \<Rightarrow> netem_options" where
  "netem_loss_step e t payload opts =
     (let percent_at = (\<lambda>off. prob_to_percent (read_at e off payload))
      in if t = 1 \<and> 20 \<le> length payload then
           opts\<lparr>nt_loss_model := Some (GilbertIntuitive (percent_at 0) (percent_at 4) (percent_at 8) (percent_at 12) (percent_at 16))\<rparr>
         else if t = 2 \<and> 16 \<le> length payload then
           opts\<lparr>nt_loss_model := Some (GilbertElliot (percent_at 0) (percent_at 4) (percent_at 8) (percent_at 12))\<rparr>
         else opts)"

definition parse_netem_loss_model :: "endian \<Rightarrow> bytes \<Rightarrow> netem_options \<Rightarrow> netem_options" where
  "parse_netem_loss_model e data opts = options_walk e (netem_loss_step e) data opts"

definition netem_step :: "endian \<Rightarrow> u16 \<Rightarrow> bytes \<Rightarrow> netem_options \<Rightarrow> netem_options" where
  "netem_step e t payload opts =
     (if t = 1 \<and> 12 \<le> length payload then
        opts\<lparr>nt_delay_corr := prob_to_percent (read_at e 0 payload), nt_loss_corr := prob_to_percent (read_at e 4 payload),
             nt_duplicate_corr := prob_to_percent (read_at e 8 payload)\<rparr>
      else if t = 3 \<and> 8 \<le> length payload then
        opts\<lparr>nt_reorder_percent := prob_to_percent (read_at e 0 payload),
             nt_reorder_corr := prob_to_percent (read_at e 4 payload)\<rparr>
      else if t = 4 \<and> 8 \<le> length payload then
        opts\<lparr>nt_corrupt_percent := prob_to_percent (read_at e 0 payload),
             nt_corrupt_corr := prob_to_percent (read_at e 4 payload)\<rparr>
      else if t = 6 then
        let opts = (if 4 \<le> length payload then opts\<lparr>nt_rate := ucast (read_at e 0 payload)\<rparr> else opts)
        in if 16 \<le> length payload then
             opts\<lparr>nt_packet_overhead := read_at e 4 payload, nt_cell_size := read_at e 8 payload,
                  nt_cell_overhead := read_at e 12 payload\<rparr>
           else opts
      else if t = 8 \<and> 8 \<le> length payload then opts\<lparr>nt_rate := ne_word e (take 8 payload)\<rparr>
      else if t = 7 then opts\<lparr>nt_ecn := True\<rparr>
      else if t = 10 \<and> 8 \<le> length payload then opts\<lparr>nt_delay_ns := ne_word e (take 8 payload)\<rparr>
      else if t = 11 \<and> 8 \<le> length payload then opts\<lparr>nt_jitter_ns := ne_word e (take 8 payload)\<rparr>
      else if t = 12 \<and> 40 \<le> length payload then
        opts\<lparr>nt_slot := Some
          \<lparr>sl_min_delay_ns = ne_word e (take 8 payload), sl_max_delay_ns = ne_word e (take 8 (drop 8 payload)),
           sl_max_packets = read_at e 16 payload, sl_max_bytes = read_at e 20 payload,
           sl_dist_delay_ns = ne_word e (take 8 (drop 24 payload)),
           sl_dist_jitter_ns = ne_word e (take 8 (drop 32 payload))\<rparr>\<rparr>
      else if t = 5 then parse_netem_loss_model e payload opts
      else opts)"

definition parse_netem_options :: "endian \<Rightarrow> bytes \<Rightarrow> netem_options" where
  "parse_netem_options e data =
     (let opts =
        (if 24 \<le> length data then
           netem_default\<lparr>nt_delay_ns := ucast (read_at e 0 data) * 1000, nt_limit := read_at e 4 data,
             nt_loss_percent := prob_to_percent (read_at e 8 data), nt_gap := read_at e 12 data,
             nt_duplicate_percent := prob_to_percent (read_at e 16 data),
             nt_jitter_ns := ucast (read_at e 20 data) * 1000\<rparr>
         else netem_default)
      in if 24 < length data then options_walk e (netem_step e) (drop 24 data) opts else opts)"

text \<open>
  The calls that write a sequence of optional attributes.
\<close>

definition opt_attrs :: "endian \<Rightarrow> (u16 \<times> bytes option) list \<Rightarrow> message_builder \<Rightarrow> message_builder" where
  "opt_attrs e ats b = fold (\<lambda>(t, v). attr_opt e t v) ats b"

lemma opt_attrs_buf:
  "mb_wf b \<Longrightarrow> mb_buf (opt_attrs e ats b) = mb_buf b @ opt_wire e ats"
proof (induction ats arbitrary: b)
  case (Cons a ats)
  obtain t v where a: "a = (t, v)" by fastforce
  have "mb_wf (attr_opt e t v b)" using Cons.prems by (cases v) (simp_all add: attr_opt_def)
  moreover have "mb_buf (attr_opt e t v b) = mb_buf b @ (case v of None \<Rightarrow> [] | Some d \<Rightarrow> attr_wire e t d)"
    using Cons.prems by (cases v) (simp_all add: attr_opt_def append_attr_wire mb_wf_def)
  ultimately show ?case using Cons.IH by (simp add: opt_attrs_def opt_wire_def a)
qed (simp add: opt_attrs_def opt_wire_def)

definition options_of :: "endian \<Rightarrow> psched \<Rightarrow> qdisc_config \<Rightarrow> bytes option" where
  "options_of e p c =
     (let b = mb_new e 0 0
      in map_option (\<lambda>b'. drop (mb_len b) (mb_buf b')) (write_options e p c b))"

lemma options_of_opts:
  "write_options e p c (mb_new e 0 0) = Some (opt_attrs e ats (mb_new e 0 0)) \<Longrightarrow>
   options_of e p c = Some (opt_wire e ats)"
  by (simp add: options_of_def Let_def mb_len_def opt_attrs_buf)

section \<open>Round trips\<close>

definition fq_codel_attrs :: "endian \<Rightarrow> fq_codel_config \<Rightarrow> (u16 \<times> bytes option) list" where
  "fq_codel_attrs e c =
     [(1, map_option (ne_bytes e 4) (map_option as_micros_u32 (fc_target c))),
      (3, map_option (ne_bytes e 4) (map_option as_micros_u32 (fc_interval c))),
      (2, map_option (ne_bytes e 4) (fc_limit c)),
      (5, map_option (ne_bytes e 4) (fc_flows c)),
      (6, map_option (ne_bytes e 4) (fc_quantum c)),
      (4, if fc_ecn c then Some (ne_bytes e 4 (1 :: u32)) else None),
      (7, map_option (ne_bytes e 4) (map_option as_micros_u32 (fc_ce_threshold c))),
      (9, map_option (ne_bytes e 4) (fc_memory_limit c))]"

lemma attr_opt_if:
  "(if q then append_attr_u32 e t v b else b) = attr_opt e t (if q then Some (ne_bytes e 4 v) else None) b"
  by (simp add: attr_opt_def append_attr_u32_def)

lemma fq_codel_options:
  "options_of e p (FqCodelConfig c) = Some (opt_wire e (fq_codel_attrs e c))"
  by (rule options_of_opts)
    (simp only: write_options.simps fq_codel_write_def opt_attrs_def fq_codel_attrs_def attr_opt_if Let_def fold_simps id_apply split_conv)

definition fq_codel_read_back :: "fq_codel_config \<Rightarrow> fq_codel_options" where
  "fq_codel_read_back c =
     \<lparr>fo_target_us = (case fc_target c of None \<Rightarrow> 0 | Some d \<Rightarrow> as_micros_u32 d),
      fo_interval_us = (case fc_interval c of None \<Rightarrow> 0 | Some d \<Rightarrow> as_micros_u32 d),
      fo_limit = (case fc_limit c of None \<Rightarrow> 0 | Some n \<Rightarrow> n),
      fo_flows = (case fc_flows c of None \<Rightarrow> 0 | Some n \<Rightarrow> n),
      fo_quantum = (case fc_quantum c of None \<Rightarrow> 0 | Some n \<Rightarrow> n),
      fo_ecn = fc_ecn c,
      fo_ce_threshold_us = map_option as_micros_u32 (fc_ce_threshold c),
      fo_memory_limit = fc_memory_limit c, fo_drop_batch_size = None\<rparr>"

lemma fq_codel_roundtrip:
  "map_option (parse_fq_codel_options e) (options_of e p (FqCodelConfig c)) = Some (fq_codel_read_back c)"
proof -
  have "list_all opt_ok (fq_codel_attrs e c)"
    by (auto simp: fq_codel_attrs_def opt_ok_def split: option.splits)
  then show ?thesis
    unfolding fq_codel_options parse_fq_codel_options_def
    by (simp add: options_walk_opts)
      (simp add: opt_fold_def fq_codel_attrs_def fq_codel_step_def fq_codel_default_def fq_codel_read_back_def
        ne_word_bytes split: option.splits)
qed

lemma htb_roundtrip:
  "map_option (parse_htb_options e) (options_of e p (HtbQdiscConfig c)) =
   Some \<lparr>ho_default_class = hq_default_class c, ho_rate2quantum = hq_r2q c,
         ho_direct_qlen = hq_direct_qlen c, ho_version = 3\<rparr>"
proof -
  let ?ats = "[(2, Some (tc_htb_glob_as_bytes e (hq_default_class c) (hq_r2q c))),
    (5, map_option (ne_bytes e 4) (hq_direct_qlen c))]"
  have "options_of e p (HtbQdiscConfig c) = Some (opt_wire e ?ats)"
    by (rule options_of_opts) (simp add: htb_write_def opt_attrs_def attr_opt_def)
  moreover have "list_all opt_ok ?ats"
    by (auto simp: opt_ok_def tc_htb_glob_as_bytes_def split: option.splits)
  ultimately show ?thesis
    by (simp add: parse_htb_options_def options_walk_opts)
      (simp add: opt_fold_def htb_step_def tc_htb_glob_as_bytes_def ne_word_bytes split: option.splits)
qed

lemma append_bytes_options:
  assumes "write_options e p c (mb_new e 0 0) = Some (append_bytes d (mb_new e 0 0))" "4 dvd length d"
  shows "options_of e p c = Some d"
  using assms append_bytes_pad[of "mb_new e 0 0" d]
  by (simp add: options_of_def Let_def mb_len_def attr_pad_def nla_align_id mb_new_def)

lemma prio_roundtrip:
  assumes "length (pr_priomap c) = 16"
  shows "map_option (parse_prio_options e) (options_of e p (PrioConfig c)) =
    Some \<lparr>po_bands = pr_bands c, po_priomap = pr_priomap c\<rparr>"
proof -
  have "options_of e p (PrioConfig c) = Some (ne_bytes e 4 (pr_bands c) @ pr_priomap c)"
    by (rule append_bytes_options) (simp_all add: prio_write_def assms)
  then show ?thesis by (simp add: parse_prio_options_def ne_word_bytes assms)
qed

lemma sfq_roundtrip:
  "map_option (parse_sfq_options e) (options_of e p (SfqConfig c)) =
   Some \<lparr>so_quantum = sf_quantum c, so_perturb_period = sf_perturb c, so_limit = sf_limit c,
         so_divisor = 0, so_flows = 0, so_depth = None, so_headdrop = None\<rparr>"
proof -
  have "options_of e p (SfqConfig c) = Some (ne_bytes e 4 (sf_quantum c) @ ne_bytes e 4 (sf_perturb c) @
      ne_bytes e 4 (sf_limit c) @ ne_bytes e 4 (0 :: u32) @ ne_bytes e 4 (0 :: u32))"
    by (rule append_bytes_options) (simp_all add: sfq_write_def)
  then show ?thesis by (simp add: parse_sfq_options_def ne_word_bytes Let_def)
qed

text \<open>
  The token bucket keeps the rate, the peak rate, the burst and the limit; its MTU survives
  only beside a peak rate, and otherwise is what \<open>calc_xmitsize\<close> makes of the MTU's ticks.
\<close>

definition tbf_read_back :: "psched \<Rightarrow> tbf_config \<Rightarrow> tbf_options" where
  "tbf_read_back p c =
     \<lparr>to_rate = tb_rate c,
      to_peakrate = (case tb_peakrate c of None \<Rightarrow> 0 | Some pr \<Rightarrow> pr),
      to_burst = as_u32_saturating (tb_burst c),
      to_mtu = (if tb_peakrate c = None
        then calc_xmitsize p (tb_rate c) (calc_xmittime p (tb_rate c) (tb_mtu c)) else tb_mtu c),
      to_limit = as_u32_saturating (tb_limit c)\<rparr>"

definition tbf_table :: "endian \<Rightarrow> psched \<Rightarrow> tbf_config \<Rightarrow> u64 \<Rightarrow> bytes \<times> tc_rate_spec" where
  "tbf_table e p c rate = calc_rtable e p (tc_rate_spec_new (as_u32_saturating rate)) rate (tb_mtu c) Ethernet"

definition tbf_qopt :: "endian \<Rightarrow> psched \<Rightarrow> tbf_config \<Rightarrow> tc_tbf_qopt" where
  "tbf_qopt e p c =
     \<lparr>tq_rate = snd (tbf_table e p c (tb_rate c)),
      tq_peakrate = (case tb_peakrate c of None \<Rightarrow> tc_rate_spec_new 0 | Some pr \<Rightarrow> snd (tbf_table e p c pr)),
      tq_limit = as_u32_saturating (tb_limit c),
      tq_buffer = calc_xmittime p (tb_rate c) (as_u32_saturating (tb_burst c)),
      tq_mtu = calc_xmittime p (case tb_peakrate c of None \<Rightarrow> tb_rate c | Some pr \<Rightarrow> pr) (tb_mtu c)\<rparr>"

abbreviation wide :: "endian \<Rightarrow> u64 \<Rightarrow> bytes option" where
  "wide e r \<equiv> if r > 0xFFFFFFFF then Some (ne_bytes e 8 r) else None"

definition tbf_attrs :: "endian \<Rightarrow> psched \<Rightarrow> tbf_config \<Rightarrow> (u16 \<times> bytes option) list" where
  "tbf_attrs e p c =
     [(1, Some (tc_tbf_qopt_as_bytes e (tbf_qopt e p c))),
      (2, Some (fst (tbf_table e p c (tb_rate c)))),
      (3, map_option (\<lambda>pr. fst (tbf_table e p c pr)) (tb_peakrate c)),
      (4, wide e (tb_rate c)),
      (5, Option.bind (tb_peakrate c) (wide e)),
      (6, Some (ne_bytes e 4 (as_u32_saturating (tb_burst c)))),
      (7, map_option (\<lambda>_. ne_bytes e 4 (tb_mtu c)) (tb_peakrate c))]"

lemma tbf_options:
  "options_of e p (TbfConfig c) = Some (opt_wire e (tbf_attrs e p c))"
  by (rule options_of_opts)
    (cases "tb_peakrate c"; simp add: tbf_write_def opt_attrs_def tbf_attrs_def tbf_qopt_def tbf_table_def
      attr_opt_def append_attr_u32_def split_beta Let_def)

lemma tbf_table_facts:
  "length (fst (tbf_table e p c rate)) = 1024"
  "rs_rate (snd (tbf_table e p c rate)) = as_u32_saturating rate"
  by (simp_all add: tbf_table_def calc_rtable_def Let_def length_concat sum_list_triv comp_def tc_rate_spec_new_def)

lemma tbf_attrs_ok: "list_all opt_ok (tbf_attrs e p c)"
  by (cases "tb_peakrate c")
    (simp_all add: tbf_attrs_def opt_ok_def tbf_table_facts tc_tbf_qopt_as_bytes_def tc_rate_spec_as_bytes_def)

lemma ucast_saturating: "\<not> r > 0xFFFFFFFF \<Longrightarrow> ucast (as_u32_saturating r) = r"
  unfolding as_u32_saturating_def word_less_nat_alt
  by (simp add: word_unat_eq_iff unsigned_ucast_eq unsigned_take_bit_eq take_bit_nat_eq_self)

lemma tbf_roundtrip:
  "map_option (parse_tbf_options e p) (options_of e p (TbfConfig c)) =
   Some (tbf_read_back p c)"
  unfolding tbf_options parse_tbf_options_def options_walk_opts[OF tbf_attrs_ok] option.map
  by (cases "tb_peakrate c")
    (auto simp: opt_fold_def tbf_attrs_def tbf_step_def tbf_scan_new_def tbf_read_back_def Let_def tbf_qopt_def
      tbf_table_facts tc_tbf_qopt_as_bytes_def tc_rate_spec_as_bytes_def ne_word_bytes ucast_saturating
      tc_rate_spec_new_def)

text \<open>
  Netem.  A delay or jitter that is configured comes back from its 64-bit attribute in whole nanoseconds, a percentage as
  \<open>percent_back\<close>, the gap as one if reordering is configured without one, the correlation of a reordering or a
  corruption only beside its probability.
\<close>

abbreviation percent_back :: "f64 \<Rightarrow> f64" where
  "percent_back p \<equiv> prob_to_percent (as_kernel_probability p)"

definition netem_attrs :: "endian \<Rightarrow> netem_config \<Rightarrow> (u16 \<times> bytes option) list" where
  "netem_attrs e c =
     [(10, map_option (\<lambda>d. ne_bytes e 8 (as_nanos_i64 d)) (ne_delay c)),
      (11, map_option (\<lambda>d. ne_bytes e 8 (as_nanos_i64 d)) (ne_jitter c)),
      (1, if \<not> percent_is_zero (ne_delay_correlation c) \<or> \<not> percent_is_zero (ne_loss_correlation c)
             \<or> \<not> percent_is_zero (ne_duplicate_correlation c)
          then Some (ne_bytes e 4 (as_kernel_probability (ne_delay_correlation c)) @
            ne_bytes e 4 (as_kernel_probability (ne_loss_correlation c)) @
            ne_bytes e 4 (as_kernel_probability (ne_duplicate_correlation c))) else None),
      (3, if \<not> percent_is_zero (ne_reorder c) then Some (prob_pair e (ne_reorder c) (ne_reorder_correlation c)) else None),
      (4, if \<not> percent_is_zero (ne_corrupt c) then Some (prob_pair e (ne_corrupt c) (ne_corrupt_correlation c)) else None),
      (6, map_option (\<lambda>bps. ne_bytes e 4 (as_u32_saturating bps) @ ne_bytes e 4 (0 :: u32) @ ne_bytes e 4 (0 :: u32) @
            ne_bytes e 4 (0 :: u32)) (ne_rate c)),
      (8, Option.bind (ne_rate c) (wide e))]"

definition netem_read_back :: "netem_config \<Rightarrow> netem_options option" where
  "netem_read_back c =
     (if \<not> percent_is_zero (ne_reorder c) \<and> ne_delay c = None then None
      else Some
        \<lparr>nt_delay_ns = (case ne_delay c of None \<Rightarrow> 0 | Some d \<Rightarrow> of_nat d),
         nt_jitter_ns = (case ne_jitter c of None \<Rightarrow> 0 | Some d \<Rightarrow> of_nat d),
         nt_delay_corr = percent_back (ne_delay_correlation c),
         nt_loss_percent = percent_back (ne_loss c), nt_loss_corr = percent_back (ne_loss_correlation c),
         nt_duplicate_percent = percent_back (ne_duplicate c),
         nt_duplicate_corr = percent_back (ne_duplicate_correlation c),
         nt_reorder_percent = percent_back (ne_reorder c),
         nt_reorder_corr = (if percent_is_zero (ne_reorder c) then Fin 0 else percent_back (ne_reorder_correlation c)),
         nt_corrupt_percent = percent_back (ne_corrupt c),
         nt_corrupt_corr = (if percent_is_zero (ne_corrupt c) then Fin 0 else percent_back (ne_corrupt_correlation c)),
         nt_rate = (case ne_rate c of None \<Rightarrow> 0 | Some bps \<Rightarrow> bps),
         nt_packet_overhead = 0, nt_cell_size = 0, nt_cell_overhead = 0, nt_limit = ne_limit c,
         nt_gap = (if \<not> percent_is_zero (ne_reorder c) \<and> ne_gap c = 0 then 1 else ne_gap c),
         nt_ecn = False, nt_slot = None, nt_loss_model = None\<rparr>)"

lemma length_netem_qopt: "length (tc_netem_qopt_as_bytes e q) = 24"
  by (simp add: tc_netem_qopt_as_bytes_def)

text \<open>Each attribute sets its fields, or leaves them when it is not there.\<close>

lemma netem_put_time:
  "opt_fold (netem_step e) ((10, map_option (\<lambda>d. ne_bytes e 8 (f d)) v) # ats) acc =
   opt_fold (netem_step e) ats (acc\<lparr>nt_delay_ns := case v of None \<Rightarrow> nt_delay_ns acc | Some d \<Rightarrow> f d\<rparr>)"
  "opt_fold (netem_step e) ((11, map_option (\<lambda>d. ne_bytes e 8 (f d)) v) # ats) acc =
   opt_fold (netem_step e) ats (acc\<lparr>nt_jitter_ns := case v of None \<Rightarrow> nt_jitter_ns acc | Some d \<Rightarrow> f d\<rparr>)"
  by (cases v; simp add: opt_fold_def netem_step_def ne_word_bytes)+

lemma netem_put_corr:
  "opt_fold (netem_step e) ((1, if q then Some (ne_bytes e 4 i @ ne_bytes e 4 j @ ne_bytes e 4 k) else None) # ats) acc =
   opt_fold (netem_step e) ats (acc\<lparr>nt_delay_corr := if q then prob_to_percent i else nt_delay_corr acc,
     nt_loss_corr := if q then prob_to_percent j else nt_loss_corr acc,
     nt_duplicate_corr := if q then prob_to_percent k else nt_duplicate_corr acc\<rparr>)"
  by (cases q) (simp_all add: opt_fold_def netem_step_def ne_word_bytes)

lemma netem_put_pair:
  "opt_fold (netem_step e) ((3, if q then Some (prob_pair e i j) else None) # ats) acc =
   opt_fold (netem_step e) ats (acc\<lparr>nt_reorder_percent := if q then percent_back i else nt_reorder_percent acc,
     nt_reorder_corr := if q then percent_back j else nt_reorder_corr acc\<rparr>)"
  "opt_fold (netem_step e) ((4, if q then Some (prob_pair e i j) else None) # ats) acc =
   opt_fold (netem_step e) ats (acc\<lparr>nt_corrupt_percent := if q then percent_back i else nt_corrupt_percent acc,
     nt_corrupt_corr := if q then percent_back j else nt_corrupt_corr acc\<rparr>)"
  by (cases q; simp add: opt_fold_def netem_step_def prob_pair_def ne_word_bytes)+

lemma netem_put_rate:
  "opt_fold (netem_step e)
     [(6, map_option (\<lambda>r. ne_bytes e 4 (as_u32_saturating r) @ ne_bytes e 4 (0 :: u32) @ ne_bytes e 4 (0 :: u32) @
        ne_bytes e 4 (0 :: u32)) v), (8, Option.bind v (wide e))] acc =
   acc\<lparr>nt_rate := case v of None \<Rightarrow> nt_rate acc | Some r \<Rightarrow> r,
       nt_packet_overhead := if v = None then nt_packet_overhead acc else 0,
       nt_cell_size := if v = None then nt_cell_size acc else 0,
       nt_cell_overhead := if v = None then nt_cell_overhead acc else 0\<rparr>"
  by (cases v) (auto simp: opt_fold_def netem_step_def ne_word_bytes ucast_saturating Let_def)

lemma netem_options:
  assumes "percent_is_zero (ne_reorder c) \<or> ne_delay c \<noteq> None"
  shows "options_of e p (NetemConfig c) = Some (tc_netem_qopt_as_bytes e (netem_qopt c) @ opt_wire e (netem_attrs e c))"
proof -
  let ?b = "append_bytes (tc_netem_qopt_as_bytes e (netem_qopt c)) (mb_new e 0 0)"
  have "write_options e p (NetemConfig c) (mb_new e 0 0) = Some (opt_attrs e (netem_attrs e c) ?b)"
    using assms
    by (simp add: netem_write_def opt_attrs_def netem_attrs_def attr_opt_def Let_def as_u32_saturating_def
        split: option.split)
  moreover have "mb_buf ?b = mb_buf (mb_new e 0 0) @ tc_netem_qopt_as_bytes e (netem_qopt c)"
    using append_bytes_pad[of "mb_new e 0 0" "tc_netem_qopt_as_bytes e (netem_qopt c)"]
    by (simp add: attr_pad_def nla_align_def mb_new_def length_netem_qopt)
  moreover have "mb_wf ?b" by simp
  ultimately show ?thesis by (simp add: options_of_def Let_def mb_len_def opt_attrs_buf)
qed

lemma netem_roundtrip: "map_option (parse_netem_options e) (options_of e p (NetemConfig c)) = netem_read_back c"
proof (cases "percent_is_zero (ne_reorder c) \<or> ne_delay c \<noteq> None")
  case True
  have ok: "list_all opt_ok (netem_attrs e c)"
    by (auto simp: netem_attrs_def opt_ok_def prob_pair_def split: option.splits)
  have read: "read_u32 e (tc_netem_qopt_as_bytes e q) = nq_latency q" "read_at e 4 (tc_netem_qopt_as_bytes e q) = nq_limit q"
    "read_at e 8 (tc_netem_qopt_as_bytes e q) = nq_loss q" "read_at e 12 (tc_netem_qopt_as_bytes e q) = nq_gap q"
    "read_at e 16 (tc_netem_qopt_as_bytes e q) = nq_duplicate q"
    "ne_word e (drop 20 (tc_netem_qopt_as_bytes e q)) = nq_jitter q" for q
    by (simp_all add: tc_netem_qopt_as_bytes_def ne_word_bytes)
  define opts where "opts = netem_default\<lparr>nt_delay_ns := ucast (nq_latency (netem_qopt c)) * 1000,
    nt_limit := nq_limit (netem_qopt c), nt_loss_percent := prob_to_percent (nq_loss (netem_qopt c)),
    nt_gap := nq_gap (netem_qopt c), nt_duplicate_percent := prob_to_percent (nq_duplicate (netem_qopt c)),
    nt_jitter_ns := ucast (nq_jitter (netem_qopt c)) * 1000\<rparr>"
  have "parse_netem_options e (tc_netem_qopt_as_bytes e (netem_qopt c) @ opt_wire e (netem_attrs e c)) =
    options_walk e (netem_step e) (opt_wire e (netem_attrs e c)) opts"
    by (cases "opt_wire e (netem_attrs e c) = []")
      (simp_all add: parse_netem_options_def length_netem_qopt Let_def options_walk.simps[of e _ "[]"] opts_def read)
  also have "\<dots> = opt_fold (netem_step e) (netem_attrs e c) opts" by (rule options_walk_opts[OF ok])
  also have "Some \<dots> = netem_read_back c"
  proof -
    have written: "(\<not> percent_is_zero (ne_reorder c) \<and> ne_delay c = None) = False" using True by blast
    show ?thesis
      unfolding netem_attrs_def netem_put_time netem_put_corr netem_put_pair netem_put_rate netem_read_back_def written if_False
      by (rule arg_cong[where f = Some], rule netem_options.equality)
        (simp_all add: opts_def netem_default_def netem_qopt_def as_nanos_i64_def percent_is_zero_def prob_to_percent_0
          split: option.split)
  qed
  finally show ?thesis by (simp add: netem_options[OF True])
qed (simp add: options_of_def netem_write_def netem_read_back_def)



end
