(* ===== verification/Link_Message.thy ===== *)
theory Link_Message
  imports Rtnl_Messages
begin

text \<open>
  The typed message of links (\<open>netlink/messages/link.rs\<close>, \<open>netlink/types/link.rs\<close>): its
  fields, parser and writer, the nests for the kind of a link and for bonds, and what comes
  back of a written message.
\<close>

section \<open>Fields\<close>

datatype oper_state = OperUnknown | NotPresent | OperDown | LowerLayerDown | Testing | Dormant | OperUp

definition oper_state_from :: "u8 \<Rightarrow> oper_state" where
  "oper_state_from v =
     (if v = 0 then OperUnknown else if v = 1 then NotPresent else if v = 2 then OperDown
      else if v = 3 then LowerLayerDown else if v = 4 then Testing else if v = 5 then Dormant
      else if v = 6 then OperUp else OperUnknown)"

record link_info =
  li_kind :: "string option"
  li_slave_kind :: "string option"
  li_data :: "bytes option"
  li_slave_data :: "bytes option"

record link_stats =
  ls_rx_packets :: u64
  ls_tx_packets :: u64
  ls_rx_bytes :: u64
  ls_tx_bytes :: u64
  ls_rx_errors :: u64
  ls_tx_errors :: u64
  ls_rx_dropped :: u64
  ls_tx_dropped :: u64
  ls_multicast :: u64
  ls_collisions :: u64

record link_message =
  lm_header :: if_info_msg
  lm_name :: "string option"
  lm_address :: "bytes option"
  lm_broadcast :: "bytes option"
  lm_perm_address :: "bytes option"
  lm_mtu :: "u32 option"
  lm_min_mtu :: "u32 option"
  lm_max_mtu :: "u32 option"
  lm_link :: "u32 option"
  lm_qdisc :: "string option"
  lm_master :: "u32 option"
  lm_txqlen :: "u32 option"
  lm_operstate :: "oper_state option"
  lm_group :: "u32 option"
  lm_promiscuity :: "u32 option"
  lm_num_tx_queues :: "u32 option"
  lm_num_rx_queues :: "u32 option"
  lm_carrier :: "bool option"
  lm_link_info :: "link_info option"
  lm_stats :: "link_stats option"
  lm_gso_max_segs :: "u32 option"
  lm_gso_max_size :: "u32 option"
  lm_gro_max_size :: "u32 option"
  lm_tso_max_size :: "u32 option"
  lm_tso_max_segs :: "u32 option"
  lm_gso_ipv4_max_size :: "u32 option"
  lm_gro_ipv4_max_size :: "u32 option"

definition link_message_of :: "if_info_msg \<Rightarrow> link_message" where
  "link_message_of h =
     \<lparr>lm_header = h, lm_name = None, lm_address = None, lm_broadcast = None, lm_perm_address = None,
      lm_mtu = None, lm_min_mtu = None, lm_max_mtu = None, lm_link = None, lm_qdisc = None, lm_master = None,
      lm_txqlen = None, lm_operstate = None, lm_group = None, lm_promiscuity = None, lm_num_tx_queues = None,
      lm_num_rx_queues = None, lm_carrier = None, lm_link_info = None, lm_stats = None,
      lm_gso_max_segs = None, lm_gso_max_size = None, lm_gro_max_size = None, lm_tso_max_size = None,
      lm_tso_max_segs = None, lm_gso_ipv4_max_size = None, lm_gro_ipv4_max_size = None\<rparr>"

definition link_ifindex :: "link_message \<Rightarrow> u32" where
  "link_ifindex m = ifi_index (lm_header m)"

definition link_is_up :: "link_message \<Rightarrow> bool" where
  "link_is_up m = (ifi_flags (lm_header m) AND 1 \<noteq> 0)"

definition link_is_running :: "link_message \<Rightarrow> bool" where
  "link_is_running m = (ifi_flags (lm_header m) AND 0x40 \<noteq> 0)"

definition link_is_loopback :: "link_message \<Rightarrow> bool" where
  "link_is_loopback m = (ifi_flags (lm_header m) AND 8 \<noteq> 0)"

definition link_is_pointopoint :: "link_message \<Rightarrow> bool" where
  "link_is_pointopoint m = (ifi_flags (lm_header m) AND 0x10 \<noteq> 0)"

definition link_has_carrier :: "link_message \<Rightarrow> bool" where
  "link_has_carrier m = (case lm_carrier m of Some c \<Rightarrow> c | None \<Rightarrow> False)"

definition link_message_kind :: "link_message \<Rightarrow> string option" where
  "link_message_kind m = Option.bind (lm_link_info m) li_kind"

section \<open>Parsing\<close>

definition link_info_attr :: "u16 \<Rightarrow> bytes \<Rightarrow> link_info \<Rightarrow> link_info" where
  "link_info_attr t d info =
     (if t = 1 then info\<lparr>li_kind := Some (parse_string_from_bytes d)\<rparr>
      else if t = 2 then info\<lparr>li_data := Some d\<rparr>
      else if t = 4 then info\<lparr>li_slave_kind := Some (parse_string_from_bytes d)\<rparr>
      else if t = 5 then info\<lparr>li_slave_data := Some d\<rparr>
      else info)"

definition parse_link_info :: "endian \<Rightarrow> bytes \<Rightarrow> link_info" where
  "parse_link_info e data =
     options_walk e link_info_attr data \<lparr>li_kind = None, li_slave_kind = None, li_data = None, li_slave_data = None\<rparr>"

abbreviation read_u64 :: "endian \<Rightarrow> nat \<Rightarrow> bytes \<Rightarrow> u64" where
  "read_u64 e off d \<equiv> ne_word e (take 8 (drop off d))"

text \<open>\<open>LinkStats64\<close> has 24 counters; the message keeps the first ten.\<close>

definition link_stats_from_bytes :: "endian \<Rightarrow> bytes \<Rightarrow> link_stats option" where
  "link_stats_from_bytes e d =
     (if length d < 192 then None
      else Some \<lparr>ls_rx_packets = read_u64 e 0 d, ls_tx_packets = read_u64 e 8 d, ls_rx_bytes = read_u64 e 16 d,
                 ls_tx_bytes = read_u64 e 24 d, ls_rx_errors = read_u64 e 32 d, ls_tx_errors = read_u64 e 40 d,
                 ls_rx_dropped = read_u64 e 48 d, ls_tx_dropped = read_u64 e 56 d, ls_multicast = read_u64 e 64 d,
                 ls_collisions = read_u64 e 72 d\<rparr>)"

definition link_attr :: "endian \<Rightarrow> u16 \<Rightarrow> bytes \<Rightarrow> link_message \<Rightarrow> link_message" where
  "link_attr e t d m =
     (if t = 3 then m\<lparr>lm_name := Some (parse_string_from_bytes d)\<rparr>
      else if t = 1 then m\<lparr>lm_address := Some d\<rparr>
      else if t = 2 then m\<lparr>lm_broadcast := Some d\<rparr>
      else if t = 54 then m\<lparr>lm_perm_address := Some d\<rparr>
      else if t = 4 \<and> 4 \<le> length d then m\<lparr>lm_mtu := Some (read_u32 e d)\<rparr>
      else if t = 50 \<and> 4 \<le> length d then m\<lparr>lm_min_mtu := Some (read_u32 e d)\<rparr>
      else if t = 51 \<and> 4 \<le> length d then m\<lparr>lm_max_mtu := Some (read_u32 e d)\<rparr>
      else if t = 5 \<and> 4 \<le> length d then m\<lparr>lm_link := Some (read_u32 e d)\<rparr>
      else if t = 6 then m\<lparr>lm_qdisc := Some (parse_string_from_bytes d)\<rparr>
      else if t = 10 \<and> 4 \<le> length d then m\<lparr>lm_master := Some (read_u32 e d)\<rparr>
      else if t = 13 \<and> 4 \<le> length d then m\<lparr>lm_txqlen := Some (read_u32 e d)\<rparr>
      else if t = 16 \<and> d \<noteq> [] then m\<lparr>lm_operstate := Some (oper_state_from (d ! 0))\<rparr>
      else if t = 27 \<and> 4 \<le> length d then m\<lparr>lm_group := Some (read_u32 e d)\<rparr>
      else if t = 30 \<and> 4 \<le> length d then m\<lparr>lm_promiscuity := Some (read_u32 e d)\<rparr>
      else if t = 31 \<and> 4 \<le> length d then m\<lparr>lm_num_tx_queues := Some (read_u32 e d)\<rparr>
      else if t = 32 \<and> 4 \<le> length d then m\<lparr>lm_num_rx_queues := Some (read_u32 e d)\<rparr>
      else if t = 33 \<and> d \<noteq> [] then m\<lparr>lm_carrier := Some (d ! 0 \<noteq> 0)\<rparr>
      else if t = 18 then m\<lparr>lm_link_info := Some (parse_link_info e d)\<rparr>
      else if t = 23 then (case link_stats_from_bytes e d of Some s \<Rightarrow> m\<lparr>lm_stats := Some s\<rparr> | None \<Rightarrow> m)
      else if t = 40 \<and> 4 \<le> length d then m\<lparr>lm_gso_max_segs := Some (read_u32 e d)\<rparr>
      else if t = 41 \<and> 4 \<le> length d then m\<lparr>lm_gso_max_size := Some (read_u32 e d)\<rparr>
      else if t = 58 \<and> 4 \<le> length d then m\<lparr>lm_gro_max_size := Some (read_u32 e d)\<rparr>
      else if t = 59 \<and> 4 \<le> length d then m\<lparr>lm_tso_max_size := Some (read_u32 e d)\<rparr>
      else if t = 60 \<and> 4 \<le> length d then m\<lparr>lm_tso_max_segs := Some (read_u32 e d)\<rparr>
      else if t = 63 \<and> 4 \<le> length d then m\<lparr>lm_gso_ipv4_max_size := Some (read_u32 e d)\<rparr>
      else if t = 64 \<and> 4 \<le> length d then m\<lparr>lm_gro_ipv4_max_size := Some (read_u32 e d)\<rparr>
      else m)"

definition link_parse :: "winnow \<Rightarrow> endian \<Rightarrow> link_message parser" where
  "link_parse w e input =
     (if length input < 16 then pfail Cut input
      else pbind (w_take w 16) (\<lambda>header_bytes.
        case if_info_msg_from_bytes e header_bytes of
          Inl _ \<Rightarrow> pfail Cut
        | Inr header \<Rightarrow> attr_all w e (link_attr e) (link_message_of header)) input)"

section \<open>Writing\<close>

definition write_attr_bytes :: "endian \<Rightarrow> u16 \<Rightarrow> bytes \<Rightarrow> bytes \<Rightarrow> bytes" where
  "write_attr_bytes e t v buf =
     (let len = 4 + length v
      in buf @ ne_bytes e 2 (of_nat len :: u16) @ ne_bytes e 2 t @ v @ replicate (nla_align len - len) 0)"

definition link_write_to :: "endian \<Rightarrow> link_message \<Rightarrow> bytes \<Rightarrow> nat \<times> bytes" where
  "link_write_to e m buf =
     (let start = length buf;
          buf = buf @ if_info_msg_as_bytes e (lm_header m);
          buf = on_some (lm_name m) (write_attr_str e 3) buf;
          buf = on_some (lm_address m) (write_attr_bytes e 1) buf;
          buf = on_some (lm_mtu m) (write_attr_u32 e 4) buf;
          buf = on_some (lm_master m) (write_attr_u32 e 10) buf;
          buf = on_some (lm_txqlen m) (write_attr_u32 e 13) buf
      in (length buf - start, buf))"

definition link_netlink_len :: "link_message \<Rightarrow> nat" where
  "link_netlink_len m =
     16 + (case lm_name m of None \<Rightarrow> 0 | Some n \<Rightarrow> nla_size (length n + 1)) +
     (case lm_address m of None \<Rightarrow> 0 | Some a \<Rightarrow> nla_size (length a)) +
     opt_len (lm_mtu m) 4 + opt_len (lm_master m) 4 + opt_len (lm_txqlen m) 4"

section \<open>Bonds\<close>

record bond_ad_info =
  ba_aggregator_id :: u16
  ba_num_ports :: u16
  ba_actor_key :: u16
  ba_partner_key :: u16
  ba_partner_mac :: bytes

record bond_info =
  bi_mode :: u8
  bi_miimon :: u32
  bi_updelay :: u32
  bi_downdelay :: u32
  bi_xmit_hash_policy :: u8
  bi_min_links :: u32
  bi_lacp_rate :: "u8 option"
  bi_ad_info :: "bond_ad_info option"
  bi_primary :: "u32 option"
  bi_active_slave :: "u32 option"
  bi_use_carrier :: bool
  bi_all_slaves_active :: bool
  bi_arp_interval :: u32
  bi_arp_validate :: "u32 option"

datatype bond_slave_state = SlaveActive | SlaveBackup

datatype mii_status = MiiUp | MiiDown

record bond_slave_info =
  bs_state :: bond_slave_state
  bs_mii_status :: mii_status
  bs_link_failure_count :: u32
  bs_perm_hwaddr :: "bytes option"
  bs_queue_id :: "u16 option"
  bs_ad_aggregator_id :: "u16 option"
  bs_prio :: "i32 option"

definition slice_u32_ne :: "endian \<Rightarrow> bytes \<Rightarrow> u32 option" where
  "slice_u32_ne e d = (if 4 \<le> length d then Some (ne_word e (take 4 d)) else None)"

definition slice_u16_ne :: "endian \<Rightarrow> bytes \<Rightarrow> u16 option" where
  "slice_u16_ne e d = (if 2 \<le> length d then Some (ne_word e (take 2 d)) else None)"

definition bond_ad_attr :: "endian \<Rightarrow> u16 \<Rightarrow> bytes \<Rightarrow> bond_ad_info \<Rightarrow> bond_ad_info" where
  "bond_ad_attr e t d info =
     (if t = 1 then on_some (slice_u16_ne e d) (\<lambda>v info. info\<lparr>ba_aggregator_id := v\<rparr>) info
      else if t = 2 then on_some (slice_u16_ne e d) (\<lambda>v info. info\<lparr>ba_num_ports := v\<rparr>) info
      else if t = 3 then on_some (slice_u16_ne e d) (\<lambda>v info. info\<lparr>ba_actor_key := v\<rparr>) info
      else if t = 4 then on_some (slice_u16_ne e d) (\<lambda>v info. info\<lparr>ba_partner_key := v\<rparr>) info
      else if t = 5 \<and> 6 \<le> length d then info\<lparr>ba_partner_mac := take 6 d\<rparr>
      else info)"

definition parse_bond_ad_info :: "endian \<Rightarrow> bytes \<Rightarrow> bond_ad_info" where
  "parse_bond_ad_info e data =
     index_walk e (bond_ad_attr e) data 0
       \<lparr>ba_aggregator_id = 0, ba_num_ports = 0, ba_actor_key = 0, ba_partner_key = 0, ba_partner_mac = replicate 6 0\<rparr>"

definition bond_attr :: "endian \<Rightarrow> u16 \<Rightarrow> bytes \<Rightarrow> bond_info \<Rightarrow> bond_info" where
  "bond_attr e t d info =
     (if t = 1 \<and> d \<noteq> [] then info\<lparr>bi_mode := d ! 0\<rparr>
      else if t = 3 then on_some (slice_u32_ne e d) (\<lambda>v info. info\<lparr>bi_miimon := v\<rparr>) info
      else if t = 4 then on_some (slice_u32_ne e d) (\<lambda>v info. info\<lparr>bi_updelay := v\<rparr>) info
      else if t = 5 then on_some (slice_u32_ne e d) (\<lambda>v info. info\<lparr>bi_downdelay := v\<rparr>) info
      else if t = 6 \<and> d \<noteq> [] then info\<lparr>bi_use_carrier := (d ! 0 \<noteq> 0)\<rparr>
      else if t = 7 then on_some (slice_u32_ne e d) (\<lambda>v info. info\<lparr>bi_arp_interval := v\<rparr>) info
      else if t = 9 then info\<lparr>bi_arp_validate := slice_u32_ne e d\<rparr>
      else if t = 11 then info\<lparr>bi_primary := slice_u32_ne e d\<rparr>
      else if t = 2 then info\<lparr>bi_active_slave := slice_u32_ne e d\<rparr>
      else if t = 14 \<and> d \<noteq> [] then info\<lparr>bi_xmit_hash_policy := d ! 0\<rparr>
      else if t = 17 \<and> d \<noteq> [] then info\<lparr>bi_all_slaves_active := (d ! 0 \<noteq> 0)\<rparr>
      else if t = 18 then on_some (slice_u32_ne e d) (\<lambda>v info. info\<lparr>bi_min_links := v\<rparr>) info
      else if t = 21 \<and> d \<noteq> [] then info\<lparr>bi_lacp_rate := Some (d ! 0)\<rparr>
      else if t = 23 then info\<lparr>bi_ad_info := Some (parse_bond_ad_info e d)\<rparr>
      else info)"

definition bond_info_new :: bond_info where
  "bond_info_new =
     \<lparr>bi_mode = 0, bi_miimon = 0, bi_updelay = 0, bi_downdelay = 0, bi_xmit_hash_policy = 0, bi_min_links = 0,
      bi_lacp_rate = None, bi_ad_info = None, bi_primary = None, bi_active_slave = None, bi_use_carrier = True,
      bi_all_slaves_active = False, bi_arp_interval = 0, bi_arp_validate = None\<rparr>"

definition parse_bond_info :: "endian \<Rightarrow> bytes \<Rightarrow> bond_info" where
  "parse_bond_info e data = index_walk e (bond_attr e) data 0 bond_info_new"

definition bond_slave_attr :: "endian \<Rightarrow> u16 \<Rightarrow> bytes \<Rightarrow> bond_slave_info \<Rightarrow> bond_slave_info" where
  "bond_slave_attr e t d info =
     (if t = 1 \<and> d \<noteq> [] then info\<lparr>bs_state := (if d ! 0 = 0 then SlaveActive else SlaveBackup)\<rparr>
      else if t = 2 \<and> d \<noteq> [] then info\<lparr>bs_mii_status := (if d ! 0 = 0 then MiiUp else MiiDown)\<rparr>
      else if t = 3 then on_some (slice_u32_ne e d) (\<lambda>v info. info\<lparr>bs_link_failure_count := v\<rparr>) info
      else if t = 4 \<and> 6 \<le> length d then info\<lparr>bs_perm_hwaddr := Some (take 6 d)\<rparr>
      else if t = 5 then info\<lparr>bs_queue_id := slice_u16_ne e d\<rparr>
      else if t = 6 then info\<lparr>bs_ad_aggregator_id := slice_u16_ne e d\<rparr>
      else if t = 9 \<and> 4 \<le> length d then info\<lparr>bs_prio := Some (ne_word e (take 4 d))\<rparr>
      else info)"

definition parse_bond_slave_info :: "endian \<Rightarrow> bytes \<Rightarrow> bond_slave_info" where
  "parse_bond_slave_info e data =
     index_walk e (bond_slave_attr e) data 0
       \<lparr>bs_state = SlaveBackup, bs_mii_status = MiiDown, bs_link_failure_count = 0, bs_perm_hwaddr = None,
        bs_queue_id = None, bs_ad_aggregator_id = None, bs_prio = None\<rparr>"

definition link_bond_info :: "endian \<Rightarrow> link_message \<Rightarrow> bond_info option" where
  "link_bond_info e m =
     Option.bind (lm_link_info m) (\<lambda>info.
       if li_kind info \<noteq> Some ''bond'' then None else map_option (parse_bond_info e) (li_data info))"

definition link_bond_slave_info :: "endian \<Rightarrow> link_message \<Rightarrow> bond_slave_info option" where
  "link_bond_slave_info e m =
     Option.bind (lm_link_info m) (\<lambda>info.
       if li_slave_kind info \<noteq> Some ''bond'' then None else map_option (parse_bond_slave_info e) (li_slave_data info))"

section \<open>Round trip\<close>

definition link_attrs :: "endian \<Rightarrow> link_message \<Rightarrow> opt_attr list" where
  "link_attrs e m =
     [(3, map_option (\<lambda>s. bytes_of_str s @ [0]) (lm_name m)), (1, map_option id (lm_address m)),
      (4, map_option (ne_bytes e 4) (lm_mtu m)), (10, map_option (ne_bytes e 4) (lm_master m)),
      (13, map_option (ne_bytes e 4) (lm_txqlen m))]"

definition text_ok :: "nat \<Rightarrow> string \<Rightarrow> bool" where
  "text_ok n s = (length s \<le> n \<and> utf8_valid (bytes_of_str s) \<and> 0 \<notin> set (bytes_of_str s))"

definition link_wf :: "link_message \<Rightarrow> bool" where
  "link_wf m =
     ((case lm_name m of None \<Rightarrow> True | Some n \<Rightarrow> text_ok 65530 n) \<and>
      (case lm_address m of None \<Rightarrow> True | Some a \<Rightarrow> length a \<le> 65531))"

lemma text_back: "text_ok n s \<Longrightarrow> parse_string_from_bytes (bytes_of_str s @ [0]) = s"
  by (simp add: text_ok_def label_back)

lemma link_attr_steps:
  "link_attr e 3 d m = m\<lparr>lm_name := Some (parse_string_from_bytes d)\<rparr>"
  "link_attr e 1 d m = m\<lparr>lm_address := Some d\<rparr>"
  "link_attr e 4 (ne_bytes e 4 v) m = m\<lparr>lm_mtu := Some v\<rparr>"
  "link_attr e 5 (ne_bytes e 4 v) m = m\<lparr>lm_link := Some v\<rparr>"
  "link_attr e 10 (ne_bytes e 4 v) m = m\<lparr>lm_master := Some v\<rparr>"
  "link_attr e 13 (ne_bytes e 4 v) m = m\<lparr>lm_txqlen := Some v\<rparr>"
  "link_attr e 18 d m = m\<lparr>lm_link_info := Some (parse_link_info e d)\<rparr>"
  by (simp_all add: link_attr_def ne_word_bytes)

lemma on_some_bytes:
  "(\<And>d. v = Some d \<Longrightarrow> length d \<le> 65531) \<Longrightarrow> on_some v (write_attr_bytes e t) buf =
     buf @ (case map_option id v of None \<Rightarrow> [] | Some d \<Rightarrow> attr_wire e t d)"
  by (rule on_some_wire) (simp add: write_attr_bytes_def Let_def raw_attr_wire del: nla_align_4 of_nat_add)

lemma link_write_wire:
  assumes "link_wf m"
  shows "link_write_to e m buf =
    (16 + length (opt_wire e (link_attrs e m)), buf @ if_info_msg_as_bytes e (lm_header m) @ opt_wire e (link_attrs e m))"
proof -
  have "\<And>n. lm_name m = Some n \<Longrightarrow> length n \<le> 65530" "\<And>a. lm_address m = Some a \<Longrightarrow> length a \<le> 65531"
    using assms by (simp_all add: link_wf_def text_ok_def)
  then show ?thesis
    by (simp add: link_write_to_def Let_def on_some_wires on_some_bytes link_attrs_def opt_wire_simps
        if_info_msg.enc_length)
qed

definition written_link :: "link_message \<Rightarrow> link_message" where
  "written_link m =
     (link_message_of (lm_header m))\<lparr>lm_name := lm_name m, lm_address := lm_address m, lm_mtu := lm_mtu m,
        lm_master := lm_master m, lm_txqlen := lm_txqlen m\<rparr>"

lemma link_fold:
  assumes "link_wf m"
  shows "opt_fold (link_attr e) (link_attrs e m) (link_message_of (lm_header m)) = written_link m"
  using assms unfolding link_attrs_def link_wf_def written_link_def
  apply (intro opt_fold_put[where t = 3 and put = "\<lambda>v m. m\<lparr>lm_name := v\<rparr>"]
      opt_fold_put[where t = 1 and put = "\<lambda>v m. m\<lparr>lm_address := v\<rparr>"]
      opt_fold_put[where t = 4 and put = "\<lambda>v m. m\<lparr>lm_mtu := v\<rparr>"]
      opt_fold_put[where t = 10 and put = "\<lambda>v m. m\<lparr>lm_master := v\<rparr>"]
      opt_fold_put[where t = 13 and put = "\<lambda>v m. m\<lparr>lm_txqlen := v\<rparr>"] opt_fold_Nil)
  apply (simp_all add: link_attr_steps text_back[where n = 65530] link_message_of_def)
  done

lemma link_attrs_ok: "link_wf m \<Longrightarrow> list_all opt_ok (link_attrs e m)"
  by (auto simp: link_attrs_def opt_ok_def link_wf_def text_ok_def split: option.splits)

lemma if_info_msg_back: "if_info_msg_from_bytes e (if_info_msg_as_bytes e h) = Inr h"
  using if_info_msg.dec_enc_exact[of e h] by (cases "if_info_msg_from_bytes e (if_info_msg_as_bytes e h)") simp_all

text \<open>
  What \<open>write_to\<close> writes of a link parses back: header, name, address, MTU, master and queue
  length.  The other twenty-one fields have no case there and come back empty.  The number of bytes
  written is the one \<open>netlink_len\<close> announces.
\<close>

theorem link_message_roundtrip:
  assumes "winnow_ok w" "link_wf m"
  shows "from_bytes msg (link_parse w e) (snd (link_write_to e m [])) = Inr (written_link m) \<and>
    fst (link_write_to e m []) = link_netlink_len m"
proof
  have "link_parse w e (if_info_msg_as_bytes e (lm_header m) @ opt_wire e (link_attrs e m)) = (Inr (written_link m), [])"
    using assms link_fold[OF assms(2), of e]
    by (simp add: link_parse_def if_info_msg.enc_length pbind_def winnow_take if_info_msg_back
        attr_loop_opts link_attrs_ok)
  then show "from_bytes msg (link_parse w e) (snd (link_write_to e m [])) = Inr (written_link m)"
    by (simp add: link_write_wire[OF assms(2)] from_bytes_def)
  show "fst (link_write_to e m []) = link_netlink_len m"
    unfolding link_write_wire[OF assms(2)]
    by (simp add: link_attrs_def opt_wire_simps link_netlink_len_def attr_wire_size split: option.splits)
qed

theorem link_message_roundtrip_witness:
  "\<forall>msg. let m = (link_message_of if_info_msg_new)\<lparr>lm_name := Some ''eth0'', lm_mtu := Some 1500, lm_qdisc := Some ''fq''\<rparr>
   in from_bytes msg (link_parse winnow_ref LittleEndian) (snd (link_write_to LittleEndian m [])) = Inr (written_link m) \<and>
     fst (link_write_to LittleEndian m []) = link_netlink_len m"
  unfolding Let_def
  by (intro allI link_message_roundtrip winnow_ref_ok)
    (simp add: link_message_of_def link_wf_def text_ok_def bytes_of_str_def char_byte_def utf8_valid_ascii)

end
