(* ===== verification/Tc_Message.thy ===== *)
theory Tc_Message
  imports Rtnl_Messages
begin

text \<open>
  The typed message of qdiscs, classes and filters (\<open>netlink/messages/tc.rs\<close>): its fields,
  its parser with the two formats of statistics, the predicates that tell the three apart,
  and the packed protocol and priority of filters.
\<close>

section \<open>Fields\<close>

record tc_stats_basic =
  sb_bytes :: u64
  sb_packets :: u64

record tc_stats_queue =
  sq_qlen :: u32
  sq_backlog :: u32
  sq_drops :: u32
  sq_requeues :: u32
  sq_overlimits :: u32

record tc_stats_rate_est =
  sr_bps :: u32
  sr_pps :: u32

definition saturating_sub :: "'a::len word \<Rightarrow> 'a word \<Rightarrow> 'a word" where
  "saturating_sub x y = (if x < y then 0 else x - y)"

definition stats_basic_delta :: "tc_stats_basic \<Rightarrow> tc_stats_basic \<Rightarrow> tc_stats_basic" where
  "stats_basic_delta s previous =
     \<lparr>sb_bytes = saturating_sub (sb_bytes s) (sb_bytes previous),
      sb_packets = saturating_sub (sb_packets s) (sb_packets previous)\<rparr>"

definition stats_queue_delta :: "tc_stats_queue \<Rightarrow> tc_stats_queue \<Rightarrow> tc_stats_queue" where
  "stats_queue_delta s previous =
     \<lparr>sq_qlen = sq_qlen s, sq_backlog = sq_backlog s, sq_drops = saturating_sub (sq_drops s) (sq_drops previous),
      sq_requeues = saturating_sub (sq_requeues s) (sq_requeues previous),
      sq_overlimits = saturating_sub (sq_overlimits s) (sq_overlimits previous)\<rparr>"

record tc_message =
  tm_header :: tc_msg
  tm_kind :: "string option"
  tm_options :: "bytes option"
  tm_chain :: "u32 option"
  tm_hw_offload :: "u8 option"
  tm_ingress_block :: "u32 option"
  tm_egress_block :: "u32 option"
  tm_stats_basic :: "tc_stats_basic option"
  tm_stats_basic_hw :: "tc_stats_basic option"
  tm_stats_queue :: "tc_stats_queue option"
  tm_stats_rate_est :: "tc_stats_rate_est option"
  tm_xstats :: "bytes option"
  tm_name :: "string option"
  tm_msg_type :: "u16 option"

definition tc_message_of :: "tc_msg \<Rightarrow> tc_message" where
  "tc_message_of h =
     \<lparr>tm_header = h, tm_kind = None, tm_options = None, tm_chain = None, tm_hw_offload = None,
      tm_ingress_block = None, tm_egress_block = None, tm_stats_basic = None, tm_stats_basic_hw = None,
      tm_stats_queue = None, tm_stats_rate_est = None, tm_xstats = None, tm_name = None, tm_msg_type = None\<rparr>"

definition TC_H_ROOT :: u32 where "TC_H_ROOT = 0xFFFFFFFF"

definition TC_H_INGRESS :: u32 where "TC_H_INGRESS = 0xFFFFFFF1"

definition TC_H_CLSACT :: u32 where "TC_H_CLSACT = 0xFFFFFFF2"

definition tc_ifindex :: "tc_message \<Rightarrow> u32" where
  "tc_ifindex m = tcm_ifindex (tm_header m)"

definition tc_is_root :: "tc_message \<Rightarrow> bool" where
  "tc_is_root m = (tcm_parent (tm_header m) = TC_H_ROOT)"

definition tc_is_ingress :: "tc_message \<Rightarrow> bool" where
  "tc_is_ingress m = (tcm_parent (tm_header m) = TC_H_INGRESS \<or> tm_kind m = Some ''ingress'')"

definition tc_is_clsact :: "tc_message \<Rightarrow> bool" where
  "tc_is_clsact m = (tcm_parent (tm_header m) = TC_H_CLSACT \<or> tm_kind m = Some ''clsact'')"

definition tc_protocol :: "endian \<Rightarrow> tc_message \<Rightarrow> u16" where
  "tc_protocol e m = be_word (ne_bytes e 2 (ucast (tcm_info (tm_header m) AND 0xFFFF) :: u16))"

definition tc_priority :: "tc_message \<Rightarrow> u16" where
  "tc_priority m = ucast (drop_bit 16 (tcm_info (tm_header m)))"

definition set_msg_type :: "u16 \<Rightarrow> tc_message \<Rightarrow> tc_message" where
  "set_msg_type t m = m\<lparr>tm_msg_type := Some t\<rparr>"

definition is_msg_type :: "u16 list \<Rightarrow> tc_message \<Rightarrow> bool" where
  "is_msg_type types m = (case tm_msg_type m of None \<Rightarrow> False | Some t \<Rightarrow> t \<in> set types)"

definition tc_is_qdisc :: "tc_message \<Rightarrow> bool" where
  "tc_is_qdisc = is_msg_type [36, 37, 38]"

definition tc_is_class :: "tc_message \<Rightarrow> bool" where
  "tc_is_class = is_msg_type [40, 41, 42]"

definition tc_is_filter :: "tc_message \<Rightarrow> bool" where
  "tc_is_filter = is_msg_type [44, 45, 46]"

definition filter_protocol :: "endian \<Rightarrow> tc_message \<Rightarrow> u16 option" where
  "filter_protocol e m = (if tc_is_filter m then Some (tc_protocol e m) else None)"

definition filter_priority :: "tc_message \<Rightarrow> u16 option" where
  "filter_priority m = (if tc_is_filter m then Some (tc_priority m) else None)"

section \<open>Parsing\<close>

definition read_stats_basic :: "endian \<Rightarrow> bytes \<Rightarrow> tc_stats_basic" where
  "read_stats_basic e d =
     \<lparr>sb_bytes = ne_word e (take 8 d), sb_packets = ucast (ne_word e (take 4 (drop 8 d)) :: u32)\<rparr>"

definition stats2_attr :: "endian \<Rightarrow> u16 \<Rightarrow> bytes \<Rightarrow> tc_message \<Rightarrow> tc_message" where
  "stats2_attr e t d m =
     (if t = 1 \<and> 12 \<le> length d then m\<lparr>tm_stats_basic := Some (read_stats_basic e d)\<rparr>
      else if t = 7 \<and> 12 \<le> length d then m\<lparr>tm_stats_basic_hw := Some (read_stats_basic e d)\<rparr>
      else if t = 8 \<and> 8 \<le> length d then
        (let packets = ne_word e (take 8 d) :: u64
         in case tm_stats_basic m of
              Some stats \<Rightarrow> m\<lparr>tm_stats_basic := Some (stats\<lparr>sb_packets := packets\<rparr>)\<rparr>
            | None \<Rightarrow> m\<lparr>tm_stats_basic := Some \<lparr>sb_bytes = 0, sb_packets = packets\<rparr>\<rparr>)
      else if t = 3 \<and> 20 \<le> length d then
        m\<lparr>tm_stats_queue := Some \<lparr>sq_qlen = read_at e 0 d, sq_backlog = read_at e 4 d, sq_drops = read_at e 8 d,
                                  sq_requeues = read_at e 12 d, sq_overlimits = read_at e 16 d\<rparr>\<rparr>
      else if t = 2 \<and> 8 \<le> length d then
        m\<lparr>tm_stats_rate_est := Some \<lparr>sr_bps = read_at e 0 d, sr_pps = read_at e 4 d\<rparr>\<rparr>
      else if t = 4 \<and> tm_xstats m = None then m\<lparr>tm_xstats := Some d\<rparr>
      else m)"

definition parse_stats2 :: "endian \<Rightarrow> bytes \<Rightarrow> tc_message \<Rightarrow> tc_message" where
  "parse_stats2 e data m = options_walk e (stats2_attr e) data m"

definition parse_legacy_stats :: "endian \<Rightarrow> bytes \<Rightarrow> tc_message \<Rightarrow> tc_message" where
  "parse_legacy_stats e d m =
     (if 36 \<le> length d then
        m\<lparr>tm_stats_basic := Some (read_stats_basic e d),
          tm_stats_queue := Some \<lparr>sq_qlen = read_at e 28 d, sq_backlog = read_at e 32 d, sq_drops = read_at e 12 d,
                                  sq_requeues = 0, sq_overlimits = read_at e 16 d\<rparr>,
          tm_stats_rate_est := Some \<lparr>sr_bps = read_at e 20 d, sr_pps = read_at e 24 d\<rparr>\<rparr>
      else m)"

definition tc_attr :: "endian \<Rightarrow> u16 \<Rightarrow> bytes \<Rightarrow> tc_message \<Rightarrow> tc_message" where
  "tc_attr e t d m =
     (if t = 1 then m\<lparr>tm_kind := Some (parse_string_from_bytes d)\<rparr>
      else if t = 2 then m\<lparr>tm_options := Some d\<rparr>
      else if t = 4 then m\<lparr>tm_xstats := Some d\<rparr>
      else if t = 11 \<and> 4 \<le> length d then m\<lparr>tm_chain := Some (read_u32 e d)\<rparr>
      else if t = 12 \<and> d \<noteq> [] then m\<lparr>tm_hw_offload := Some (d ! 0)\<rparr>
      else if t = 13 \<and> 4 \<le> length d then m\<lparr>tm_ingress_block := Some (read_u32 e d)\<rparr>
      else if t = 14 \<and> 4 \<le> length d then m\<lparr>tm_egress_block := Some (read_u32 e d)\<rparr>
      else if t = 7 then parse_stats2 e d m
      else if t = 3 then parse_legacy_stats e d m
      else m)"

definition tc_parse :: "winnow \<Rightarrow> endian \<Rightarrow> tc_message parser" where
  "tc_parse w e input =
     (if length input < 20 then pfail Cut input
      else pbind (w_take w 20) (\<lambda>header_bytes.
        case tc_msg_from_bytes e header_bytes of
          Inl _ \<Rightarrow> pfail Cut
        | Inr header \<Rightarrow> attr_all w e (tc_attr e) (tc_message_of header)) input)"

section \<open>BPF filters\<close>

record bpf_info =
  bp_id :: "u32 option"
  bp_name :: "string option"
  bp_tag :: "bytes option"
  bp_direct_action :: bool
  bp_classid :: "u32 option"

definition trim_nuls :: "string \<Rightarrow> string" where
  "trim_nuls s = rev (dropWhile (\<lambda>c. c = CHR 0x00) (rev s))"

definition bpf_attr :: "endian \<Rightarrow> u16 \<Rightarrow> bytes \<Rightarrow> bpf_info \<Rightarrow> bpf_info" where
  "bpf_attr e t d info =
     (if t = 11 \<and> 4 \<le> length d then info\<lparr>bp_id := Some (read_u32 e d)\<rparr>
      else if t = 7 then info\<lparr>bp_name := map_option trim_nuls (from_utf8 d)\<rparr>
      else if t = 10 \<and> 8 \<le> length d then info\<lparr>bp_tag := Some (take 8 d)\<rparr>
      else if t = 8 \<and> 4 \<le> length d then info\<lparr>bp_direct_action := (read_u32 e d AND 1 \<noteq> 0)\<rparr>
      else if t = 3 \<and> 4 \<le> length d then info\<lparr>bp_classid := Some (read_u32 e d)\<rparr>
      else info)"

definition tc_bpf_info :: "endian \<Rightarrow> tc_message \<Rightarrow> bpf_info option" where
  "tc_bpf_info e m =
     (if tm_kind m \<noteq> Some ''bpf'' then None
      else map_option (\<lambda>options. index_walk e (bpf_attr e) options 0
        \<lparr>bp_id = None, bp_name = None, bp_tag = None, bp_direct_action = False, bp_classid = None\<rparr>) (tm_options m))"

section \<open>The information of a filter\<close>

lemma info_low: "ucast ((push_bit 16 (ucast p) OR ucast q :: u32) AND 0xFFFF) = (q :: u16)"
proof -
  have m: "(w :: u32) AND 0xFFFF = take_bit 16 w" for w by (simp add: take_bit_eq_mask mask_eq_exp_minus_1)
  show ?thesis
    unfolding m
    by (rule bit_word_eqI)
      (auto simp: bit_or_iff bit_push_bit_iff bit_take_bit_iff bit_ucast_iff dest: bit_imp_le_length)
qed

lemma info_high: "ucast (drop_bit 16 (push_bit 16 (ucast p) OR ucast q :: u32)) = (p :: u16)"
  for q :: u16
  by (rule bit_word_eqI)
    (auto simp: bit_or_iff bit_push_bit_iff bit_drop_bit_eq bit_ucast_iff dest: bit_imp_le_length)

lemma filter_info_read:
  "tc_protocol e (tc_message_of (tc_msg_with_filter_info e protocol priority h)) = protocol"
  "tc_priority (tc_message_of (tc_msg_with_filter_info e protocol priority h)) = priority"
proof -
  have "tcm_info (tm_header (tc_message_of (tc_msg_with_filter_info e protocol priority h))) =
      push_bit 16 (ucast priority) OR ucast (u16_to_be e protocol)"
    by (simp add: tc_message_of_def tc_msg_with_filter_info_def tc_msg_with_info_def)
  then show "tc_protocol e (tc_message_of (tc_msg_with_filter_info e protocol priority h)) = protocol"
    "tc_priority (tc_message_of (tc_msg_with_filter_info e protocol priority h)) = priority"
    unfolding tc_protocol_def tc_priority_def by (simp_all only: info_low info_high u16_to_be_image) (simp add: ne_word_bytes)
qed

lemma tc_msg_back: "tc_msg_from_bytes e (tc_msg_as_bytes e h) = Inr h"
  using tc_msg.dec_enc_exact[of e h] by (cases "tc_msg_from_bytes e (tc_msg_as_bytes e h)") simp_all

lemma tc_parse_attrs:
  assumes "winnow_ok w"
  shows "fst (tc_parse w e (tc_msg_as_bytes e h @ s)) =
    Inr (fold (\<lambda>(k, d). tc_attr e k d) (attrs_of e s) (tc_message_of h))"
  using assms by (simp add: tc_parse_def tc_msg.enc_length pbind_def winnow_take tc_msg_back attr_loop_attrs)

lemma tc_attr_keeps [simp]:
  "tm_header (tc_attr e t d m) = tm_header m" "tm_msg_type (tc_attr e t d m) = tm_msg_type m"
proof -
  have "tm_header (fold (\<lambda>(k, d). stats2_attr e k d) xs m) = tm_header m \<and>
      tm_msg_type (fold (\<lambda>(k, d). stats2_attr e k d) xs m) = tm_msg_type m" for xs m
    by (induction xs arbitrary: m) (auto simp: stats2_attr_def Let_def split: option.split)
  then show "tm_header (tc_attr e t d m) = tm_header m" "tm_msg_type (tc_attr e t d m) = tm_msg_type m"
    by (auto simp: tc_attr_def parse_stats2_def parse_legacy_stats_def options_walk_attrs)
qed

lemma tc_fold_keeps:
  "tm_header (fold (\<lambda>(k, d). tc_attr e k d) xs m) = tm_header m"
  "tm_msg_type (fold (\<lambda>(k, d). tc_attr e k d) xs m) = tm_msg_type m"
  by (induction xs arbitrary: m) auto

text \<open>
  The protocol and the priority packed into a filter's header are read from the message that
  carries it, whatever its attributes and on either byte order, if and only if it came with the
  number of a filter message; for qdiscs and classes, and as long as the number is unknown,
  neither is reported.
\<close>

theorem filter_info_roundtrip:
  assumes "winnow_ok w"
  shows "\<exists>m. fst (tc_parse w e (tc_msg_as_bytes e (tc_msg_with_filter_info e protocol priority h) @ attrs)) = Inr m \<and>
    filter_protocol e m = None \<and> filter_priority m = None \<and>
    filter_protocol e (set_msg_type t m) = (if t \<in> {44, 45, 46} then Some protocol else None) \<and>
    filter_priority (set_msg_type t m) = (if t \<in> {44, 45, 46} then Some priority else None)"
proof -
  let ?h = "tc_msg_with_filter_info e protocol priority h"
  let ?m = "fold (\<lambda>(k, d). tc_attr e k d) (attrs_of e attrs) (tc_message_of ?h)"
  have "tm_header ?m = ?h" "tm_msg_type ?m = None" by (simp_all add: tc_fold_keeps tc_message_of_def)
  moreover from this(1) have "tc_protocol e ?m = protocol" "tc_priority ?m = priority"
    using filter_info_read[of e protocol priority h] by (simp_all add: tc_protocol_def tc_priority_def tc_message_of_def)
  ultimately show ?thesis
    by (intro exI[of _ ?m])
      (auto simp: tc_parse_attrs[OF assms] filter_protocol_def filter_priority_def tc_is_filter_def is_msg_type_def
        set_msg_type_def tc_protocol_def tc_priority_def)
qed

theorem filter_info_roundtrip_witness:
  "let h = tc_msg_with_filter_info LittleEndian 0x0800 100 tc_msg_new
   in \<exists>m. fst (tc_parse winnow_ref LittleEndian (tc_msg_as_bytes LittleEndian h @ [])) = Inr m \<and>
     filter_protocol LittleEndian m = None \<and> filter_priority m = None \<and>
     filter_protocol LittleEndian (set_msg_type 44 m) = (if 44 \<in> {44, 45, 46 :: u16} then Some 0x0800 else None) \<and>
     filter_priority (set_msg_type 44 m) = (if 44 \<in> {44, 45, 46 :: u16} then Some 100 else None)"
  unfolding Let_def by (rule filter_info_roundtrip[OF winnow_ref_ok])

section \<open>Statistics\<close>

text \<open>The attributes of the kernel's two formats, and the values each stands for.\<close>

record counters =
  co_bytes :: u64
  co_packets :: u64
  co_queue :: tc_stats_queue
  co_rate :: tc_stats_rate_est

definition basic_payload :: "endian \<Rightarrow> u64 \<Rightarrow> u64 \<Rightarrow> bytes" where
  "basic_payload e b p = ne_bytes e 8 b @ ne_bytes e 4 (ucast p :: u32) @ [0, 0, 0, 0]"

definition queue_payload :: "endian \<Rightarrow> tc_stats_queue \<Rightarrow> bytes" where
  "queue_payload e q = ne_bytes e 4 (sq_qlen q) @ ne_bytes e 4 (sq_backlog q) @ ne_bytes e 4 (sq_drops q) @
     ne_bytes e 4 (sq_requeues q) @ ne_bytes e 4 (sq_overlimits q)"

definition stats2_payload :: "endian \<Rightarrow> counters \<Rightarrow> counters \<Rightarrow> bytes" where
  "stats2_payload e c hw =
     attr_wire e 1 (basic_payload e (co_bytes c) (co_packets c)) @
     attr_wire e 7 (basic_payload e (co_bytes hw) (co_packets hw)) @
     attr_wire e 8 (ne_bytes e 8 (co_packets c)) @
     attr_wire e 3 (queue_payload e (co_queue c)) @
     attr_wire e 2 (ne_bytes e 4 (sr_bps (co_rate c)) @ ne_bytes e 4 (sr_pps (co_rate c)))"

definition legacy_payload :: "endian \<Rightarrow> counters \<Rightarrow> bytes" where
  "legacy_payload e c =
     ne_bytes e 8 (co_bytes c) @ ne_bytes e 4 (ucast (co_packets c) :: u32) @ ne_bytes e 4 (sq_drops (co_queue c)) @
     ne_bytes e 4 (sq_overlimits (co_queue c)) @ ne_bytes e 4 (sr_bps (co_rate c)) @ ne_bytes e 4 (sr_pps (co_rate c)) @
     ne_bytes e 4 (sq_qlen (co_queue c)) @ ne_bytes e 4 (sq_backlog (co_queue c))"

lemma stats2_read:
  "parse_stats2 e (stats2_payload e c hw) m =
     (let m = m\<lparr>tm_stats_basic := Some \<lparr>sb_bytes = co_bytes c, sb_packets = co_packets c\<rparr>,
        tm_stats_basic_hw := Some \<lparr>sb_bytes = co_bytes hw, sb_packets = ucast (ucast (co_packets hw) :: u32)\<rparr>,
        tm_stats_queue := Some (co_queue c)\<rparr>
      in m\<lparr>tm_stats_rate_est := Some (co_rate c)\<rparr>)"
proof -
  have "stats2_payload e c hw = opt_wire e
      [(1, Some (basic_payload e (co_bytes c) (co_packets c))), (7, Some (basic_payload e (co_bytes hw) (co_packets hw))),
       (8, Some (ne_bytes e 8 (co_packets c))), (3, Some (queue_payload e (co_queue c))),
       (2, Some (ne_bytes e 4 (sr_bps (co_rate c)) @ ne_bytes e 4 (sr_pps (co_rate c))))]"
    by (simp add: stats2_payload_def opt_wire_simps)
  then have "parse_stats2 e (stats2_payload e c hw) m = opt_fold (stats2_attr e)
      [(1, Some (basic_payload e (co_bytes c) (co_packets c))), (7, Some (basic_payload e (co_bytes hw) (co_packets hw))),
       (8, Some (ne_bytes e 8 (co_packets c))), (3, Some (queue_payload e (co_queue c))),
       (2, Some (ne_bytes e 4 (sr_bps (co_rate c)) @ ne_bytes e 4 (sr_pps (co_rate c))))] m"
    unfolding parse_stats2_def
    by (simp only:, intro options_walk_opts) (simp add: opt_ok_def basic_payload_def queue_payload_def)
  then show ?thesis
    by (simp add: opt_fold_def stats2_attr_def read_stats_basic_def basic_payload_def queue_payload_def ne_word_bytes Let_def)
qed

lemma legacy_read:
  "parse_legacy_stats e (legacy_payload e c) m =
     m\<lparr>tm_stats_basic := Some \<lparr>sb_bytes = co_bytes c, sb_packets = ucast (ucast (co_packets c) :: u32)\<rparr>,
       tm_stats_queue := Some (co_queue c\<lparr>sq_requeues := 0\<rparr>),
       tm_stats_rate_est := Some (co_rate c)\<rparr>"
  by (simp add: parse_legacy_stats_def legacy_payload_def read_stats_basic_def ne_word_bytes)

text \<open>
  Of the nested statistics every counter is read whole, the packets at sixty-four bits, and the
  hardware's share does not replace the total.  A message of the kernel that carries the older
  fixed format behind them, as a compatible dump does, loses both again: the last attribute
  wins, the packets are cut to thirty-two bits and the requeues are gone.
\<close>

theorem legacy_stats_win:
  assumes "winnow_ok w"
  shows "\<exists>m. fst (tc_parse w e (tc_msg_as_bytes e h @ attr_wire e 7 (stats2_payload e c hw) @
        (if legacy then attr_wire e 3 (legacy_payload e c) else []))) = Inr m \<and>
    tm_stats_basic m = Some \<lparr>sb_bytes = co_bytes c,
      sb_packets = (if legacy then ucast (ucast (co_packets c) :: u32) else co_packets c)\<rparr> \<and>
    tm_stats_basic_hw m = Some \<lparr>sb_bytes = co_bytes hw, sb_packets = ucast (ucast (co_packets hw) :: u32)\<rparr> \<and>
    tm_stats_queue m = Some (if legacy then co_queue c\<lparr>sq_requeues := 0\<rparr> else co_queue c) \<and>
    tm_stats_rate_est m = Some (co_rate c)"
proof -
  have len: "length (stats2_payload e c hw) \<le> 65531" "length (legacy_payload e c) \<le> 65531"
    by (simp_all add: stats2_payload_def legacy_payload_def basic_payload_def queue_payload_def length_attr_wire nla_align_def)
  have "attrs_of e (attr_wire e 7 (stats2_payload e c hw) @ (if legacy then attr_wire e 3 (legacy_payload e c) else [])) =
      (7, stats2_payload e c hw) # (if legacy then [(3, legacy_payload e c)] else [])"
    using attrs_of_wire[OF len(2), of e 3 "[]"] by (simp add: attrs_of_wire[OF len(1)] attrs_of_Nil type_mask)
  then show ?thesis
    unfolding tc_parse_attrs[OF assms]
    by (simp add: tc_attr_def stats2_read legacy_read Let_def)
qed

theorem legacy_stats_win_witness:
  "let c = \<lparr>co_bytes = 1000, co_packets = 2 ^ 32 + 1,
      co_queue = \<lparr>sq_qlen = 1, sq_backlog = 60, sq_drops = 0, sq_requeues = 7, sq_overlimits = 2\<rparr>,
      co_rate = \<lparr>sr_bps = 10, sr_pps = 1\<rparr>\<rparr>
   in \<exists>m. fst (tc_parse winnow_ref BigEndian (tc_msg_as_bytes BigEndian tc_msg_new @ attr_wire BigEndian 7 (stats2_payload BigEndian c c) @
        (if True then attr_wire BigEndian 3 (legacy_payload BigEndian c) else []))) = Inr m \<and>
    tm_stats_basic m = Some \<lparr>sb_bytes = co_bytes c,
      sb_packets = (if True then ucast (ucast (co_packets c) :: u32) else co_packets c)\<rparr> \<and>
    tm_stats_basic_hw m = Some \<lparr>sb_bytes = co_bytes c, sb_packets = ucast (ucast (co_packets c) :: u32)\<rparr> \<and>
    tm_stats_queue m = Some (if True then co_queue c\<lparr>sq_requeues := 0\<rparr> else co_queue c) \<and>
    tm_stats_rate_est m = Some (co_rate c)"
  unfolding Let_def by (rule legacy_stats_win[OF winnow_ref_ok])

end
