(* ===== verification/Net_Config.thy ===== *)
theory Net_Config
  imports Rtnl_Messages Tc_Qdisc Link_Message Tc_Message
begin

text \<open>
  The declarative network configuration (\<open>netlink/config/types.rs\<close>): declared links, addresses,
  routes and qdiscs, and the kernel's view the differ compares them with.
\<close>

section \<open>Links\<close>

datatype link_state = Up | Down | Unchanged

datatype macvlan_mode = MvPrivate | MvVepa | MvBridge | MvPassthru | MvSource

datatype bond_mode =
    BalanceRr | ActiveBackup | BalanceXor | Broadcast | Ieee802_3ad | BalanceTlb | BalanceAlb

datatype vlan_protocol = Dot1q | Dot1ad

datatype ad_select = AdStable | AdBandwidth | AdCount

datatype lacp_rate = LacpSlow | LacpFast

datatype netkit_mode = NetkitL2 | NetkitL3

datatype netkit_policy = NetkitForward | NetkitBlackhole

datatype netkit_scrub = ScrubNone | ScrubDefault

datatype declared_link_type =
    Dummy
  | Veth (veth_peer: string)
  | Bridge
  | Vlan string u16 "vlan_protocol option"
  | Vxlan u32 "ip_addr option" "ip_addr option" "u16 option" "string option"
  | Macvlan string macvlan_mode
  | Bond bond_mode "u32 option" "u8 option" "u32 option" "ad_select option" "lacp_rate option"
      "u32 option" "u32 option" "u32 option"
  | Ifb
  | Vrf u32
  | Ovpn
  | Netkit string "netkit_mode option" "netkit_policy option" "netkit_policy option"
      "netkit_scrub option" "netkit_scrub option"
  | Physical

fun link_kind :: "declared_link_type \<Rightarrow> string option" where
  "link_kind Dummy = Some ''dummy''"
| "link_kind (Veth _) = Some ''veth''"
| "link_kind Bridge = Some ''bridge''"
| "link_kind (Vlan _ _ _) = Some ''vlan''"
| "link_kind (Vxlan _ _ _ _ _) = Some ''vxlan''"
| "link_kind (Macvlan _ _) = Some ''macvlan''"
| "link_kind (Bond _ _ _ _ _ _ _ _ _) = Some ''bond''"
| "link_kind Ifb = Some ''ifb''"
| "link_kind (Vrf _) = Some ''vrf''"
| "link_kind (Netkit _ _ _ _ _ _) = Some ''netkit''"
| "link_kind Ovpn = Some ''ovpn''"
| "link_kind Physical = None"

record declared_link =
  dl_name :: string
  dl_type :: declared_link_type
  dl_state :: link_state
  dl_mtu :: "u32 option"
  dl_master :: "string option"
  dl_address :: "bytes option"

definition link_builder_new :: "string \<Rightarrow> declared_link" where
  "link_builder_new name =
     \<lparr>dl_name = name, dl_type = Physical, dl_state = Unchanged, dl_mtu = None, dl_master = None, dl_address = None\<rparr>"

section \<open>Addresses, routes, qdiscs\<close>

record declared_address =
  da_dev :: string
  da_address :: ip_addr
  da_prefix_len :: u8

datatype declared_route_type = Unicast | Blackhole | Unreachable | Prohibit

record declared_route =
  dr_destination :: ip_addr
  dr_prefix_len :: u8
  dr_gateway :: "ip_addr option"
  dr_dev :: "string option"
  dr_metric :: "u32 option"
  dr_table :: "u32 option"
  dr_route_type :: declared_route_type

datatype qdisc_parent = Root | Ingress

record declared_netem =
  dn_delay_us :: "u32 option"
  dn_jitter_us :: "u32 option"
  dn_loss_percent :: "f64 option"
  dn_limit :: "u32 option"
  dn_duplicate_percent :: "f64 option"
  dn_corrupt_percent :: "f64 option"
  dn_reorder_percent :: "f64 option"
  dn_loss_correlation :: "f64 option"
  dn_delay_correlation :: "f64 option"

datatype declared_qdisc_type =
    Netem declared_netem
  | Htb u32
  | FqCodel "u32 option" "u32 option" "u32 option"
  | Tbf u64 u32 "u32 option"
  | Sfq "u32 option"
  | Prio "u8 option"
  | IngressQdisc
  | Clsact

fun declared_qdisc_kind :: "declared_qdisc_type \<Rightarrow> string" where
  "declared_qdisc_kind (Netem _) = ''netem''"
| "declared_qdisc_kind (Htb _) = ''htb''"
| "declared_qdisc_kind (FqCodel _ _ _) = ''fq_codel''"
| "declared_qdisc_kind (Tbf _ _ _) = ''tbf''"
| "declared_qdisc_kind (Sfq _) = ''sfq''"
| "declared_qdisc_kind (Prio _) = ''prio''"
| "declared_qdisc_kind IngressQdisc = ''ingress''"
| "declared_qdisc_kind Clsact = ''clsact''"

record declared_qdisc =
  dq_dev :: string
  dq_parent :: qdisc_parent
  dq_type :: declared_qdisc_type

record network_config =
  nc_links :: "declared_link list"
  nc_addresses :: "declared_address list"
  nc_routes :: "declared_route list"
  nc_qdiscs :: "declared_qdisc list"

definition network_config_new :: network_config where
  "network_config_new = \<lparr>nc_links = [], nc_addresses = [], nc_routes = [], nc_qdiscs = []\<rparr>"

text \<open>\<open>QdiscBuilder\<close>'s \<open>ingress\<close> sets the parent too, \<open>clsact\<close> leaves it at the root.\<close>

record qdisc_builder =
  qb_dev :: string
  qb_parent :: qdisc_parent
  qb_type :: "declared_qdisc_type option"

definition qdisc_builder_new :: "string \<Rightarrow> qdisc_builder" where
  "qdisc_builder_new dev = \<lparr>qb_dev = dev, qb_parent = Root, qb_type = None\<rparr>"

definition qdisc_ingress :: "qdisc_builder \<Rightarrow> qdisc_builder" where
  "qdisc_ingress b = b\<lparr>qb_parent := Ingress, qb_type := Some IngressQdisc\<rparr>"

definition qdisc_clsact :: "qdisc_builder \<Rightarrow> qdisc_builder" where
  "qdisc_clsact b = b\<lparr>qb_type := Some Clsact\<rparr>"

definition qdisc_build :: "qdisc_builder \<Rightarrow> declared_qdisc" where
  "qdisc_build b =
     \<lparr>dq_dev = qb_dev b, dq_parent = qb_parent b,
      dq_type = (case qb_type b of Some t \<Rightarrow> t | None \<Rightarrow> FqCodel None None None)\<rparr>"

section \<open>The typed configuration behind a declared qdisc\<close>

text \<open>
  The match that \<open>declared_options_bytes\<close>, \<open>add_qdisc\<close> and \<open>replace_qdisc\<close> each spell out.
  The builders of \<open>tc.rs\<close> set one field each.
\<close>

definition with_opt :: "('a \<Rightarrow> 'c \<Rightarrow> 'c) \<Rightarrow> 'a option \<Rightarrow> 'c \<Rightarrow> 'c" where
  "with_opt put v c = (case v of None \<Rightarrow> c | Some x \<Rightarrow> put x c)"

definition netem_of :: "declared_netem \<Rightarrow> netem_config" where
  "netem_of n =
     (let c = netem_new;
          c = with_opt (\<lambda>d c. c\<lparr>ne_delay := Some (from_micros d)\<rparr>) (dn_delay_us n) c;
          c = with_opt (\<lambda>j c. c\<lparr>ne_jitter := Some (from_micros j)\<rparr>) (dn_jitter_us n) c;
          c = with_opt (\<lambda>l c. c\<lparr>ne_loss := percent_new l\<rparr>) (dn_loss_percent n) c;
          c = with_opt (\<lambda>l c. c\<lparr>ne_limit := l\<rparr>) (dn_limit n) c;
          c = with_opt (\<lambda>d c. c\<lparr>ne_duplicate := percent_new d\<rparr>) (dn_duplicate_percent n) c;
          c = with_opt (\<lambda>p c. c\<lparr>ne_corrupt := percent_new p\<rparr>) (dn_corrupt_percent n) c;
          c = with_opt (\<lambda>r c. c\<lparr>ne_reorder := percent_new r\<rparr>) (dn_reorder_percent n) c;
          c = with_opt (\<lambda>p c. c\<lparr>ne_loss_correlation := percent_new p\<rparr>) (dn_loss_correlation n) c
      in with_opt (\<lambda>p c. c\<lparr>ne_delay_correlation := percent_new p\<rparr>) (dn_delay_correlation n) c)"

fun typed_config :: "declared_qdisc_type \<Rightarrow> qdisc_config" where
  "typed_config (Netem n) = NetemConfig (netem_of n)"
| "typed_config (Htb default_cls) = HtbQdiscConfig (htb_qdisc_new\<lparr>hq_default_class := default_cls\<rparr>)"
| "typed_config (FqCodel limit target_us interval_us) =
     FqCodelConfig
       (with_opt (\<lambda>i c. c\<lparr>fc_interval := Some (from_micros i)\<rparr>) interval_us
         (with_opt (\<lambda>t c. c\<lparr>fc_target := Some (from_micros t)\<rparr>) target_us
           (with_opt (\<lambda>l c. c\<lparr>fc_limit := Some l\<rparr>) limit fq_codel_new)))"
| "typed_config (Tbf rate_bps burst_bytes limit_bytes) =
     TbfConfig (with_opt (\<lambda>l c. c\<lparr>tb_limit := ucast l\<rparr>) limit_bytes
       (tbf_new\<lparr>tb_rate := rate_bps, tb_burst := ucast burst_bytes\<rparr>))"
| "typed_config (Sfq perturb_secs) = SfqConfig (with_opt (\<lambda>p c. c\<lparr>sf_perturb := p\<rparr>) perturb_secs sfq_new)"
| "typed_config (Prio bands) = PrioConfig (with_opt (\<lambda>b c. c\<lparr>pr_bands := ucast b\<rparr>) bands prio_new)"
| "typed_config IngressQdisc = IngressConfig"
| "typed_config Clsact = ClsactConfig"

end
