(* ===== verification/Net_Diff.thy ===== *)
theory Net_Diff
  imports Net_Config "HOL-Library.AList" "HOL-Library.Multiset"
begin

text \<open>
  The difference between a declared configuration and the kernel (\<open>netlink/config/diff.rs\<close>).
  The four dumps are given, as a \<open>kernel_dump\<close>; \<open>Net_Apply\<close> gets them from a connection.  The
  hash maps are maps or association lists.
\<close>

section \<open>Diffs\<close>

record link_changes =
  lc_set_up :: bool
  lc_set_down :: bool
  lc_set_mtu :: "u32 option"
  lc_set_master :: "string option"
  lc_unset_master :: bool

definition link_changes_default :: link_changes where
  "link_changes_default =
     \<lparr>lc_set_up = False, lc_set_down = False, lc_set_mtu = None, lc_set_master = None, lc_unset_master = False\<rparr>"

definition link_changes_is_empty :: "link_changes \<Rightarrow> bool" where
  "link_changes_is_empty c =
     (\<not> lc_set_up c \<and> \<not> lc_set_down c \<and> lc_set_mtu c = None \<and> lc_set_master c = None \<and> \<not> lc_unset_master c)"

record config_diff =
  cd_links_to_add :: "declared_link list"
  cd_links_to_modify :: "(string \<times> link_changes) list"
  cd_addresses_to_add :: "declared_address list"
  cd_routes_to_add :: "declared_route list"
  cd_qdiscs_to_add :: "declared_qdisc list"
  cd_qdiscs_to_replace :: "declared_qdisc list"
  cd_addresses_to_remove :: "declared_address list"
  cd_routes_to_remove :: "declared_route list"

definition config_diff_default :: config_diff where
  "config_diff_default =
     \<lparr>cd_links_to_add = [], cd_links_to_modify = [], cd_addresses_to_add = [], cd_routes_to_add = [],
      cd_qdiscs_to_add = [], cd_qdiscs_to_replace = [], cd_addresses_to_remove = [], cd_routes_to_remove = []\<rparr>"

definition diff_is_empty :: "config_diff \<Rightarrow> bool" where
  "diff_is_empty d =
     (cd_links_to_add d = [] \<and> cd_links_to_modify d = [] \<and> cd_addresses_to_add d = [] \<and>
      cd_routes_to_add d = [] \<and> cd_qdiscs_to_add d = [] \<and> cd_qdiscs_to_replace d = [] \<and>
      cd_addresses_to_remove d = [] \<and> cd_routes_to_remove d = [])"

definition change_count :: "config_diff \<Rightarrow> nat" where
  "change_count d =
     length (cd_links_to_add d) + length (cd_links_to_modify d) + length (cd_addresses_to_add d) +
     length (cd_routes_to_add d) + length (cd_qdiscs_to_add d) + length (cd_qdiscs_to_replace d) +
     length (cd_addresses_to_remove d) + length (cd_routes_to_remove d)"

section \<open>Lookup maps\<close>

type_synonym name_map = "(u32 \<times> string) list"

definition link_by_name :: "link_message list \<Rightarrow> string \<rightharpoonup> link_message" where
  "link_by_name links = fold (\<lambda>l m. case lm_name l of None \<Rightarrow> m | Some n \<Rightarrow> m(n \<mapsto> l)) links Map.empty"

definition ifindex_to_name :: "link_message list \<Rightarrow> name_map" where
  "ifindex_to_name links =
     fold (\<lambda>l m. case lm_name l of None \<Rightarrow> m | Some n \<Rightarrow> AList.update (link_ifindex l) n m) links []"

text \<open>
  The hash map is iterated in an unspecified order: here the order of the list, which by
  \<open>name_to_ifindex_order\<close> below does not matter as long as no two links have one name.
\<close>

definition name_to_ifindex :: "name_map \<Rightarrow> string \<rightharpoonup> u32" where
  "name_to_ifindex names = fold (\<lambda>(idx, name) m. m(name \<mapsto> idx)) names Map.empty"

section \<open>Links\<close>

definition compute_link_changes :: "declared_link \<Rightarrow> link_message \<Rightarrow> name_map \<Rightarrow> link_changes" where
  "compute_link_changes declared existing names =
     (let changes = link_changes_default;
          is_admin_up = link_is_up existing;
          changes = (case dl_state declared of
              Up \<Rightarrow> if \<not> is_admin_up then changes\<lparr>lc_set_up := True\<rparr> else changes
            | Down \<Rightarrow> if is_admin_up then changes\<lparr>lc_set_down := True\<rparr> else changes
            | Unchanged \<Rightarrow> changes);
          changes = (case dl_mtu declared of
              Some desired_mtu \<Rightarrow> if lm_mtu existing \<noteq> Some desired_mtu
                then changes\<lparr>lc_set_mtu := Some desired_mtu\<rparr> else changes
            | None \<Rightarrow> changes);
          existing_master_name = Option.bind (lm_master existing) (map_of names)
      in case (dl_master declared, existing_master_name) of
           (Some want, Some have') \<Rightarrow> if want = have' then changes else changes\<lparr>lc_set_master := Some want\<rparr>
         | (Some want, None) \<Rightarrow> changes\<lparr>lc_set_master := Some want\<rparr>
         | (None, Some _) \<Rightarrow> changes\<lparr>lc_unset_master := True\<rparr>
         | (None, None) \<Rightarrow> changes)"

definition diff_link :: "(string \<rightharpoonup> link_message) \<Rightarrow> name_map \<Rightarrow> declared_link \<Rightarrow> config_diff \<Rightarrow> config_diff" where
  "diff_link current names declared diff =
     (case current (dl_name declared) of
        Some existing \<Rightarrow>
          (let changes = compute_link_changes declared existing names
           in if \<not> link_changes_is_empty changes
              then diff\<lparr>cd_links_to_modify := cd_links_to_modify diff @ [(dl_name declared, changes)]\<rparr> else diff)
      | None \<Rightarrow>
          if dl_type declared \<noteq> Physical
          then diff\<lparr>cd_links_to_add := cd_links_to_add diff @ [declared]\<rparr> else diff)"

definition diff_links :: "network_config \<Rightarrow> (string \<rightharpoonup> link_message) \<Rightarrow> name_map \<Rightarrow> config_diff \<Rightarrow> config_diff" where
  "diff_links config current names diff = fold (diff_link current names) (nc_links config) diff"

subsection \<open>Ordering the links to create\<close>

definition deps_of :: "declared_link \<Rightarrow> string set \<Rightarrow> string list" where
  "deps_of link names_in_batch =
     (let deps = (case dl_type link of
            Vlan parent _ _ \<Rightarrow> [parent]
          | Macvlan parent _ \<Rightarrow> [parent]
          | Vxlan _ _ _ _ (Some dev) \<Rightarrow> [dev]
          | _ \<Rightarrow> []);
          deps = deps @ (case dl_master link of Some master \<Rightarrow> [master] | None \<Rightarrow> [])
      in filter (\<lambda>d. d \<in> names_in_batch) deps)"

text \<open>One round over the remaining links: what is emitted, the output, and what stays.\<close>

fun topo_round :: "string set \<Rightarrow> string set \<Rightarrow> declared_link list \<Rightarrow> declared_link list \<Rightarrow> declared_link list \<Rightarrow>
    string set \<times> declared_link list \<times> declared_link list" where
  "topo_round names emitted out next_remaining [] = (emitted, out, next_remaining)"
| "topo_round names emitted out next_remaining (link # links) =
     (if list_all (\<lambda>d. d \<in> emitted) (deps_of link names)
      then topo_round names (insert (dl_name link) emitted) (out @ [link]) next_remaining links
      else topo_round names emitted out (next_remaining @ [link]) links)"

lemma topo_round_split:
  "topo_round names emitted out kept links = (emitted', out', kept') \<Longrightarrow>
   \<exists>done'. out' = out @ done' \<and> emitted' = emitted \<union> dl_name ` set done' \<and>
     length kept' + length done' = length kept + length links \<and>
     mset kept' + mset done' = mset kept + mset links"
proof (induction links arbitrary: emitted out kept)
  case (Cons l ls)
  show ?case
  proof (cases "list_all (\<lambda>d. d \<in> emitted) (deps_of l names)")
    case True
    then obtain done' where "out' = (out @ [l]) @ done'"
      "emitted' = insert (dl_name l) emitted \<union> dl_name ` set done'"
      "length kept' + length done' = length kept + length ls" "mset kept' + mset done' = mset kept + mset ls"
      using Cons.IH[of "insert (dl_name l) emitted" "out @ [l]" kept] Cons.prems by auto
    then show ?thesis by (intro exI[of _ "l # done'"]) auto
  next
    case False
    then have "topo_round names emitted out (kept @ [l]) ls = (emitted', out', kept')" using Cons.prems by simp
    from Cons.IH[OF this] show ?thesis by auto
  qed
qed auto

function topo_loop :: "string set \<Rightarrow> string set \<Rightarrow> declared_link list \<Rightarrow> declared_link list \<Rightarrow> declared_link list" where
  "topo_loop names emitted out remaining =
     (if remaining = [] then out
      else
        let (emitted', out', next_remaining) = topo_round names emitted out [] remaining
        in if length next_remaining = length remaining then out' @ next_remaining
           else topo_loop names emitted' out' next_remaining)"
  by pat_completeness auto
termination
proof (relation "measure (\<lambda>(names, emitted, out, remaining). length remaining)")
  fix names emitted out and remaining :: "declared_link list" and x emitted' y out' kept
  assume a: "x = topo_round names emitted out [] remaining" "(emitted', y) = x" "(out', kept) = y"
    "length kept \<noteq> length remaining"
  then have "topo_round names emitted out [] remaining = (emitted', out', kept)" by simp
  from topo_round_split[OF this] have "length kept \<le> length remaining" by auto
  then show "((names, emitted', out', kept), names, emitted, out, remaining)
      \<in> measure (\<lambda>(names, emitted, out, remaining). length remaining)"
    using a(4) by simp
qed simp

declare topo_loop.simps [simp del]

definition topo_sort_links_to_add :: "declared_link list \<Rightarrow> declared_link list" where
  "topo_sort_links_to_add links =
     (if length links < 2 then links
      else topo_loop (set (map dl_name links)) {} [] links)"

section \<open>Addresses\<close>

definition address_key :: "declared_address \<Rightarrow> string \<times> ip_addr \<times> u8" where
  "address_key a = (da_dev a, da_address a, da_prefix_len a)"

definition kernel_address_key :: "name_map \<Rightarrow> address_message \<Rightarrow> (string \<times> ip_addr \<times> u8) option" where
  "kernel_address_key names a =
     (case map_of names (address_ifindex a) of
        None \<Rightarrow> None
      | Some name \<Rightarrow> (case am_address a of None \<Rightarrow> None | Some addr \<Rightarrow> Some (name, addr, address_prefix_len a)))"

definition purge_address :: "name_map \<Rightarrow> string set \<Rightarrow> (string \<times> ip_addr \<times> u8) set \<Rightarrow> address_message \<Rightarrow>
    config_diff \<Rightarrow> config_diff" where
  "purge_address names managed_devs desired a diff =
     (if address_scope a \<noteq> ScopeUniverse then diff
      else case map_of names (address_ifindex a) of
        None \<Rightarrow> diff
      | Some name \<Rightarrow>
          if name \<notin> managed_devs then diff
          else (case am_address a of
              None \<Rightarrow> diff
            | Some addr \<Rightarrow>
                if (name, addr, address_prefix_len a) \<notin> desired
                then diff\<lparr>cd_addresses_to_remove := cd_addresses_to_remove diff @
                  [\<lparr>da_dev = name, da_address = addr, da_prefix_len = address_prefix_len a\<rparr>]\<rparr>
                else diff))"

definition diff_addresses :: "network_config \<Rightarrow> address_message list \<Rightarrow> name_map \<Rightarrow> bool \<Rightarrow> config_diff \<Rightarrow> config_diff" where
  "diff_addresses config current names purge diff =
     (let desired = set (map address_key (nc_addresses config));
          current_set = set (List.map_filter (kernel_address_key names) current);
          diff = fold (\<lambda>declared diff. if address_key declared \<notin> current_set
              then diff\<lparr>cd_addresses_to_add := cd_addresses_to_add diff @ [declared]\<rparr> else diff)
            (nc_addresses config) diff
      in if \<not> purge then diff
         else fold (purge_address names (set (map da_dev (nc_addresses config))) desired) current diff)"

section \<open>Routes\<close>

type_synonym route_key = "ip_addr \<times> u8 \<times> u32"

definition route_eligible :: "route_message \<Rightarrow> bool" where
  "route_eligible r = (route_kind r \<in> {RtUnicast, RtBlackhole, RtUnreachable, RtProhibit})"

definition route_dst :: "route_message \<Rightarrow> ip_addr" where
  "route_dst r = (case rm_destination r of Some d \<Rightarrow> d | None \<Rightarrow> if route_is_ipv4 r then V4 0 else V6 0)"

definition kernel_route_key :: "route_message \<Rightarrow> route_key" where
  "kernel_route_key r = (route_dst r, route_dst_len r, table_id r)"

definition declared_route_key :: "declared_route \<Rightarrow> route_key" where
  "declared_route_key r =
     (dr_destination r, dr_prefix_len r, case dr_table r of Some t \<Rightarrow> t | None \<Rightarrow> 254)"

definition current_by_key :: "route_message list \<Rightarrow> route_key \<rightharpoonup> route_message list" where
  "current_by_key current =
     fold (\<lambda>r m. m(kernel_route_key r \<mapsto>
         (case m (kernel_route_key r) of None \<Rightarrow> [] | Some rs \<Rightarrow> rs) @ [r]))
       (filter route_eligible current) Map.empty"

definition route_matches :: "declared_route \<Rightarrow> u32 option \<Rightarrow> route_message \<Rightarrow> bool" where
  "route_matches declared declared_oif r =
     (let gw_match = (case (dr_gateway declared, rm_gateway r) of
            (None, None) \<Rightarrow> True | (Some a, Some b) \<Rightarrow> a = b | _ \<Rightarrow> False);
          dev_match = (case (declared_oif, rm_oif r) of
            (None, None) \<Rightarrow> True | (Some a, Some b) \<Rightarrow> a = b | (None, Some _) \<Rightarrow> True | (Some _, None) \<Rightarrow> False);
          metric_match = ((case dr_metric declared of Some n \<Rightarrow> n | None \<Rightarrow> 0) =
            (case rm_priority r of Some n \<Rightarrow> n | None \<Rightarrow> 0))
      in gw_match \<and> dev_match \<and> metric_match)"

definition matches_existing :: "(route_key \<rightharpoonup> route_message list) \<Rightarrow> name_map \<Rightarrow> declared_route \<Rightarrow> bool" where
  "matches_existing by_key names declared =
     (let declared_oif = Option.bind (dr_dev declared) (name_to_ifindex names)
      in case by_key (declared_route_key declared) of
           None \<Rightarrow> False
         | Some kernel_routes \<Rightarrow> list_ex (route_matches declared declared_oif) kernel_routes)"

fun declared_kind :: "route_type \<Rightarrow> declared_route_type option" where
  "declared_kind RtUnicast = Some Unicast"
| "declared_kind RtBlackhole = Some Blackhole"
| "declared_kind RtUnreachable = Some Unreachable"
| "declared_kind RtProhibit = Some Prohibit"
| "declared_kind _ = None"

definition purge_route :: "name_map \<Rightarrow> route_key set \<Rightarrow> route_message \<Rightarrow> config_diff \<Rightarrow> config_diff" where
  "purge_route names desired_keys r diff =
     (if table_id r \<noteq> 254 then diff
      else if route_protocol_of r \<notin> {RpStatic, RpBoot} then diff
      else case declared_kind (route_kind r) of
        None \<Rightarrow> diff
      | Some route_type \<Rightarrow>
          if kernel_route_key r \<in> desired_keys then diff
          else diff\<lparr>cd_routes_to_remove := cd_routes_to_remove diff @
            [\<lparr>dr_destination = route_dst r, dr_prefix_len = route_dst_len r, dr_gateway = rm_gateway r,
              dr_dev = Option.bind (rm_oif r) (map_of names), dr_metric = rm_priority r,
              dr_table = Some (table_id r), dr_route_type = route_type\<rparr>]\<rparr>)"

definition diff_routes :: "network_config \<Rightarrow> route_message list \<Rightarrow> name_map \<Rightarrow> bool \<Rightarrow> config_diff \<Rightarrow> config_diff" where
  "diff_routes config current names purge diff =
     (let by_key = current_by_key current;
          diff = fold (\<lambda>declared diff. if \<not> matches_existing by_key names declared
              then diff\<lparr>cd_routes_to_add := cd_routes_to_add diff @ [declared]\<rparr> else diff)
            (nc_routes config) diff
      in if \<not> purge then diff
         else fold (purge_route names (set (map declared_route_key (nc_routes config)))) current diff)"

section \<open>Qdiscs\<close>

definition current_qdiscs :: "name_map \<Rightarrow> tc_message list \<Rightarrow> (string \<rightharpoonup> tc_message) \<times> (string \<rightharpoonup> tc_message)" where
  "current_qdiscs names current =
     fold (\<lambda>q (roots, ingresses).
         case map_of names (tc_ifindex q) of
           None \<Rightarrow> (roots, ingresses)
         | Some name \<Rightarrow>
             if tc_is_root q then (roots(name \<mapsto> q), ingresses)
             else if tc_is_ingress q then (roots, ingresses(name \<mapsto> q))
             else (roots, ingresses))
       current (Map.empty, Map.empty)"

definition declared_options_bytes :: "endian \<Rightarrow> psched \<Rightarrow> declared_qdisc_type \<Rightarrow> bytes" where
  "declared_options_bytes e p t = (case options_of e p (typed_config t) of Some b \<Rightarrow> b | None \<Rightarrow> [])"

definition qdisc_params_match :: "endian \<Rightarrow> psched \<Rightarrow> declared_qdisc_type \<Rightarrow> bytes option \<Rightarrow> bool" where
  "qdisc_params_match e p declared existing_opts =
     (declared_options_bytes e p declared = (case existing_opts of Some b \<Rightarrow> b | None \<Rightarrow> []))"

definition diff_qdisc :: "endian \<Rightarrow> psched \<Rightarrow> (string \<rightharpoonup> tc_message) \<times> (string \<rightharpoonup> tc_message) \<Rightarrow> declared_qdisc \<Rightarrow>
    config_diff \<Rightarrow> config_diff" where
  "diff_qdisc e p current declared diff =
     (let current_map = (case dq_parent declared of Root \<Rightarrow> fst current | Ingress \<Rightarrow> snd current)
      in case current_map (dq_dev declared) of
           Some existing \<Rightarrow>
             if (case tm_kind existing of Some k \<Rightarrow> k | None \<Rightarrow> []) \<noteq> declared_qdisc_kind (dq_type declared)
             then diff\<lparr>cd_qdiscs_to_replace := cd_qdiscs_to_replace diff @ [declared]\<rparr>
             else if \<not> qdisc_params_match e p (dq_type declared) (tm_options existing)
             then diff\<lparr>cd_qdiscs_to_replace := cd_qdiscs_to_replace diff @ [declared]\<rparr>
             else diff
         | None \<Rightarrow> diff\<lparr>cd_qdiscs_to_add := cd_qdiscs_to_add diff @ [declared]\<rparr>)"

definition diff_qdiscs :: "endian \<Rightarrow> psched \<Rightarrow> network_config \<Rightarrow> tc_message list \<Rightarrow> name_map \<Rightarrow> config_diff \<Rightarrow>
    config_diff" where
  "diff_qdiscs e p config current names diff =
     fold (diff_qdisc e p (current_qdiscs names current)) (nc_qdiscs config) diff"

section \<open>The whole diff\<close>

record kernel_dump =
  kd_links :: "link_message list"
  kd_addresses :: "address_message list"
  kd_routes :: "route_message list"
  kd_qdiscs :: "tc_message list"

text \<open>What \<open>compute_diff_with_options\<close> does once its four dumps have returned.\<close>

definition diff_of :: "endian \<Rightarrow> psched \<Rightarrow> network_config \<Rightarrow> kernel_dump \<Rightarrow> bool \<Rightarrow> config_diff" where
  "diff_of e p config kd purge =
     (let names = ifindex_to_name (kd_links kd);
          diff = diff_links config (link_by_name (kd_links kd)) names config_diff_default;
          diff = diff\<lparr>cd_links_to_add := topo_sort_links_to_add (cd_links_to_add diff)\<rparr>;
          diff = diff_addresses config (kd_addresses kd) names purge diff;
          diff = diff_routes config (kd_routes kd) names purge diff
      in diff_qdiscs e p config (kd_qdiscs kd) names diff)"

section \<open>The order of the links to create\<close>

fun parents_first :: "string set \<Rightarrow> string set \<Rightarrow> declared_link list \<Rightarrow> bool" where
  "parents_first names emitted [] = True"
| "parents_first names emitted (l # ls) =
     (set (deps_of l names) \<subseteq> emitted \<and> parents_first names (insert (dl_name l) emitted) ls)"

lemma parents_first_append:
  "parents_first names emitted (ls @ ms) =
   (parents_first names emitted ls \<and> parents_first names (emitted \<union> dl_name ` set ls) ms)"
  by (induction ls arbitrary: emitted) auto

lemma ready_iff: "list_all (\<lambda>d. d \<in> E) ds = (set ds \<subseteq> E)"
  by (auto simp: list_all_iff)

text \<open>What one round emits is in order, and it emits every link that is ready at its start.\<close>

lemma topo_round_ordered:
  "topo_round names emitted out kept links = (emitted', out', kept') \<Longrightarrow> out' = out @ new \<Longrightarrow>
   parents_first names emitted new"
proof (induction links arbitrary: emitted out kept new)
  case (Cons l ls)
  show ?case
  proof (cases "set (deps_of l names) \<subseteq> emitted")
    case True
    then have r: "topo_round names (insert (dl_name l) emitted) (out @ [l]) kept ls = (emitted', out', kept')"
      using Cons.prems(1) by (simp add: ready_iff)
    then obtain new' where "out' = (out @ [l]) @ new'" using topo_round_split[OF r] by blast
    then show ?thesis using Cons.IH[OF r] Cons.prems(2) True by simp
  next
    case False
    then show ?thesis using Cons.IH[of emitted out "kept @ [l]" new] Cons.prems by (simp add: ready_iff)
  qed
qed simp

lemma topo_round_progress:
  "topo_round names emitted out kept links = (emitted', out', kept') \<Longrightarrow> l \<in> set links \<Longrightarrow>
   set (deps_of l names) \<subseteq> emitted \<Longrightarrow> length kept' < length kept + length links"
proof (induction links arbitrary: emitted out kept)
  case (Cons m ls)
  show ?case
  proof (cases "set (deps_of m names) \<subseteq> emitted")
    case True
    then have "topo_round names (insert (dl_name m) emitted) (out @ [m]) kept ls = (emitted', out', kept')"
      using Cons.prems(1) by (simp add: ready_iff)
    from topo_round_split[OF this] show ?thesis by auto
  next
    case False
    then have "topo_round names emitted out (kept @ [m]) ls = (emitted', out', kept')" "l \<in> set ls"
      using Cons.prems by (auto simp: ready_iff)
    from Cons.IH[OF this Cons.prems(3)] show ?thesis by simp
  qed
qed simp

lemma topo_round_id:
  "parents_first names emitted links \<Longrightarrow>
   topo_round names emitted out kept links = (emitted \<union> dl_name ` set links, out @ links, kept)"
  by (induction links arbitrary: emitted out) (auto simp: ready_iff)

lemma topo_round_free:
  "topo_round names emitted out kept links = (emitted', out', kept') \<Longrightarrow>
   filter (\<lambda>l. deps_of l names = []) out' =
     filter (\<lambda>l. deps_of l names = []) out @ filter (\<lambda>l. deps_of l names = []) links \<and>
   filter (\<lambda>l. deps_of l names = []) kept' = filter (\<lambda>l. deps_of l names = []) kept"
proof (induction links arbitrary: emitted out kept)
  case (Cons l ls)
  then show ?case
    by (cases "list_all (\<lambda>d. d \<in> emitted) (deps_of l names)") fastforce+
qed simp

lemma topo_loop_Nil: "topo_loop names emitted out [] = out"
  by (subst topo_loop.simps) simp

lemma topo_loop_step:
  assumes "remaining \<noteq> []" "topo_round names emitted out [] remaining = (emitted', out', kept)"
  shows "topo_loop names emitted out remaining =
    (if length kept = length remaining then out' @ kept else topo_loop names emitted' out' kept)"
  using assms by (subst topo_loop.simps) simp

lemma topo_loop_induct [case_names Nil Stop Step]:
  assumes "\<And>emitted out. P emitted out []"
    and "\<And>emitted out remaining emitted' out' kept. remaining \<noteq> [] \<Longrightarrow>
      topo_round names emitted out [] remaining = (emitted', out', kept) \<Longrightarrow> length kept = length remaining \<Longrightarrow>
      P emitted out remaining"
    and "\<And>emitted out remaining emitted' out' kept. remaining \<noteq> [] \<Longrightarrow>
      topo_round names emitted out [] remaining = (emitted', out', kept) \<Longrightarrow> length kept \<noteq> length remaining \<Longrightarrow>
      P emitted' out' kept \<Longrightarrow> P emitted out remaining"
  shows "P emitted out remaining"
proof (induction "length remaining" arbitrary: emitted out remaining rule: less_induct)
  case less
  obtain emitted' out' kept where r: "topo_round names emitted out [] remaining = (emitted', out', kept)"
    by (metis surj_pair)
  have len: "length kept \<le> length remaining" using topo_round_split[OF r] by auto
  show ?case
  proof (cases "remaining = [] \<or> length kept = length remaining")
    case True
    then show ?thesis using assms(1,2) r by metis
  next
    case False
    then have "P emitted' out' kept" using less len by simp
    then show ?thesis using assms(3) r False by metis
  qed
qed

lemma topo_loop_perm: "mset (topo_loop names emitted out remaining) = mset out + mset remaining"
proof (induction emitted out remaining rule: topo_loop_induct[where names = names])
  case (Stop emitted out remaining emitted' out' kept)
  then show ?case using topo_round_split[OF Stop(2)] by (auto simp: topo_loop_step[OF Stop(1,2)])
next
  case (Step emitted out remaining emitted' out' kept)
  then show ?case
    using topo_round_split[OF Step(2)] by (auto simp: topo_loop_step[OF Step(1,2)] add.commute)
qed (simp add: topo_loop_Nil)

lemma topo_loop_free:
  "filter (\<lambda>l. deps_of l names = []) (topo_loop names emitted out remaining) =
   filter (\<lambda>l. deps_of l names = []) out @ filter (\<lambda>l. deps_of l names = []) remaining"
proof (induction emitted out remaining rule: topo_loop_induct[where names = names])
  case (Stop emitted out remaining emitted' out' kept)
  then show ?case using topo_round_free[OF Stop(2)] by (simp add: topo_loop_step[OF Stop(1,2)])
next
  case (Step emitted out remaining emitted' out' kept)
  then show ?case using topo_round_free[OF Step(2)] by (simp add: topo_loop_step[OF Step(1,2)])
qed (simp add: topo_loop_Nil)

text \<open>
  With a rank that goes down along every dependency, each round finds a link that is ready:
  one of least rank.
\<close>

definition ranked :: "(string \<Rightarrow> nat) \<Rightarrow> string set \<Rightarrow> declared_link list \<Rightarrow> bool" where
  "ranked rank names links = (\<forall>l \<in> set links. \<forall>d \<in> set (deps_of l names). rank d < rank (dl_name l))"

lemma deps_in_batch: "set (deps_of l names) \<subseteq> names"
  by (auto simp: deps_of_def Let_def)

lemma ranked_ready:
  assumes "ranked rank names links" "links \<noteq> []" "names \<subseteq> emitted \<union> dl_name ` set links"
  shows "\<exists>l \<in> set links. set (deps_of l names) \<subseteq> emitted"
proof -
  obtain l where l: "l \<in> set links" "\<forall>m \<in> set links. rank (dl_name l) \<le> rank (dl_name m)"
    using ex_has_least_nat[of "\<lambda>l. l \<in> set links" _ "\<lambda>l. rank (dl_name l)"] assms(2)
    by (metis list.set_sel(1))
  have "d \<in> emitted" if "d \<in> set (deps_of l names)" for d
  proof -
    have "rank d < rank (dl_name l)" using assms(1) l(1) that by (simp add: ranked_def)
    then have "d \<notin> dl_name ` set links" using l(2) by fastforce
    then show ?thesis using assms(3) deps_in_batch that by blast
  qed
  then show ?thesis using l(1) by blast
qed

lemma topo_loop_ordered:
  "ranked rank names remaining \<Longrightarrow> names \<subseteq> emitted \<union> dl_name ` set remaining \<Longrightarrow>
   emitted = dl_name ` set out \<Longrightarrow> parents_first names {} out \<Longrightarrow>
   parents_first names {} (topo_loop names emitted out remaining)"
proof (induction emitted out remaining rule: topo_loop_induct[where names = names])
  case (Stop emitted out remaining emitted' out' kept)
  then obtain l where "l \<in> set remaining" "set (deps_of l names) \<subseteq> emitted" using ranked_ready by blast
  from topo_round_progress[OF Stop(2) this] show ?case using Stop(3) by simp
next
  case (Step emitted out remaining emitted' out' kept)
  obtain new where new: "out' = out @ new" "emitted' = emitted \<union> dl_name ` set new"
    "mset kept + mset new = mset remaining"
    using topo_round_split[OF Step(2)] by auto
  then have rem: "set kept \<union> set new = set remaining" by (metis set_mset_mset set_mset_union)
  have out: "parents_first names {} out'"
    using Step.prems(3,4) topo_round_ordered[OF Step(2) new(1)] new(1) by (simp add: parents_first_append)
  have em: "emitted' = dl_name ` set out'" using new Step.prems(3) by (simp add: image_Un)
  have "ranked rank names kept" using Step.prems(1) rem by (auto simp: ranked_def)
  moreover have "names \<subseteq> emitted' \<union> dl_name ` set kept"
    using Step.prems(2) new(2) unfolding rem[symmetric] by auto
  moreover note em out
  ultimately have "parents_first names {} (topo_loop names emitted' out' kept)" by (rule Step.IH)
  then show ?case using Step(3) by (simp add: topo_loop_step[OF Step(1,2)])
qed (simp add: topo_loop_Nil)

lemma topo_sort_unfold:
  assumes "2 \<le> length links"
  shows "topo_sort_links_to_add links = topo_loop (dl_name ` set links) {} [] links"
  using assms by (simp add: topo_sort_links_to_add_def)

lemma short_list: "\<not> 2 \<le> length xs \<Longrightarrow> xs = [] \<or> (\<exists>x. xs = [x])"
  by (cases xs; cases "tl xs") auto

lemma topo_sort_ordered:
  assumes "ranked rank (dl_name ` set links) links"
  shows "parents_first (dl_name ` set links) {} (topo_sort_links_to_add links)"
proof (cases "2 \<le> length links")
  case True
  then show ?thesis using topo_loop_ordered[OF assms, of "{}" "[]"] by (simp add: topo_sort_unfold)
next
  case False
  then consider "links = []" | l where "links = [l]" using short_list by blast
  then show ?thesis
  proof cases
    case 2
    then have "\<forall>d. d \<notin> set (deps_of l {dl_name l})"
      using assms deps_in_batch[of l "{dl_name l}"] by (fastforce simp: ranked_def)
    then have "set (deps_of l {dl_name l}) = {}" by (simp only: empty_iff set_eq_iff simp_thms)
    then show ?thesis using 2 by (simp add: topo_sort_links_to_add_def)
  qed (simp add: topo_sort_links_to_add_def)
qed

lemma topo_sort_id:
  assumes "parents_first (dl_name ` set links) {} links"
  shows "topo_sort_links_to_add links = links"
proof (cases "2 \<le> length links")
  case True
  then have "links \<noteq> []" by auto
  then show ?thesis
    using topo_loop_step[OF _ topo_round_id[OF assms]] True by (simp add: topo_sort_unfold topo_loop_Nil)
qed (simp add: topo_sort_links_to_add_def)

text \<open>
  C20. Ordering the links to create keeps every one of them, puts no link before a link of the
  batch it depends on when the dependencies have a rank (no cycle), keeps the declared order of the
  links that depend on none of the batch, and leaves a list alone that is already in order.
\<close>

theorem topo_sort_correct:
  "mset (topo_sort_links_to_add links) = mset links \<and>
   (ranked rank (dl_name ` set links) links \<longrightarrow>
     parents_first (dl_name ` set links) {} (topo_sort_links_to_add links)) \<and>
   filter (\<lambda>l. deps_of l (dl_name ` set links) = []) (topo_sort_links_to_add links) =
     filter (\<lambda>l. deps_of l (dl_name ` set links) = []) links \<and>
   (parents_first (dl_name ` set links) {} links \<longrightarrow> topo_sort_links_to_add links = links)"
  using topo_sort_ordered[of rank links] topo_sort_id[of links]
    topo_loop_perm[of "dl_name ` set links" "{}" "[]" links] topo_loop_free[of "dl_name ` set links" "{}" "[]" links]
  by (simp add: topo_sort_links_to_add_def)

theorem topo_sort_correct_witness:
  "let vlan = (link_builder_new ''eth0.10'')\<lparr>dl_type := Vlan ''bond0'' 10 None\<rparr>;
       port = (link_builder_new ''d0'')\<lparr>dl_type := Dummy, dl_master := Some ''bond0''\<rparr>;
       bond = (link_builder_new ''bond0'')\<lparr>dl_type := Bond BalanceRr None None None None None None None None\<rparr>
   in parents_first (dl_name ` set [vlan, port, bond]) {} (topo_sort_links_to_add [vlan, port, bond])"
proof -
  let ?vlan = "(link_builder_new ''eth0.10'')\<lparr>dl_type := Vlan ''bond0'' 10 None\<rparr>"
  let ?port = "(link_builder_new ''d0'')\<lparr>dl_type := Dummy, dl_master := Some ''bond0''\<rparr>"
  let ?bond = "(link_builder_new ''bond0'')\<lparr>dl_type := Bond BalanceRr None None None None None None None None\<rparr>"
  have "ranked (\<lambda>n. if n = ''bond0'' then 0 else 1) (dl_name ` set [?vlan, ?port, ?bond]) [?vlan, ?port, ?bond]"
    by (simp add: ranked_def deps_of_def link_builder_new_def)
  then show ?thesis
    using topo_sort_correct[THEN conjunct2, THEN conjunct1, rule_format,
        of "\<lambda>n. if n = ''bond0'' then 0 else 1" "[?vlan, ?port, ?bond]"]
    by (simp only: Let_def)
qed

end
