(* ===== verification/Builder_Calls.thy ===== *)
theory Builder_Calls
  imports Attr_Walk Netlink_Builder
begin

text \<open>
  The calls a configuration makes on a message builder, as data: \<open>append\<close> of a structure,
  \<open>append_attr\<close> and its variants, and what stands between \<open>nest_start\<close> and \<open>nest_end\<close>.  Running
  them on a builder appends their bytes; the attribute iterator reads the attributes back.
\<close>

section \<open>Calls\<close>

datatype call = Attr u16 bytes | Struct bytes | Nested u16 "call list"

fun wire_call :: "endian \<Rightarrow> call \<Rightarrow> bytes" where
  "wire_call e (Attr t d) = attr_wire e t d"
| "wire_call e (Struct d) = d @ attr_pad (length d)"
| "wire_call e (Nested t cs) = attr_wire e (t OR NLA_F_NESTED) (concat (map (wire_call e) cs))"

abbreviation wire_calls :: "endian \<Rightarrow> call list \<Rightarrow> bytes" where
  "wire_calls e cs \<equiv> concat (map (wire_call e) cs)"

fun call_fits :: "endian \<Rightarrow> call \<Rightarrow> bool" where
  "call_fits e (Attr t d) = (length d \<le> 65531)"
| "call_fits e (Struct d) = True"
| "call_fits e (Nested t cs) = (list_all (call_fits e) cs \<and> length (wire_calls e cs) \<le> 65531)"

fun run_call :: "endian \<Rightarrow> call \<Rightarrow> message_builder \<Rightarrow> message_builder option"
and run_calls :: "endian \<Rightarrow> call list \<Rightarrow> message_builder \<Rightarrow> message_builder option" where
  "run_call e (Attr t d) b = Some (append_attr e t d b)"
| "run_call e (Struct d) b = Some (append_bytes d b)"
| "run_call e (Nested t cs) b =
     (let (token, b1) = nest_start e t b
      in case run_calls e cs b1 of None \<Rightarrow> None | Some b2 \<Rightarrow> nest_end e token b2)"
| "run_calls e [] b = Some b"
| "run_calls e (c # cs) b = (case run_call e c b of None \<Rightarrow> None | Some b1 \<Rightarrow> run_calls e cs b1)"

lemma wire_call_dvd [simp]: "4 dvd length (wire_call e c)"
  by (cases c) (simp_all add: length_wire_pad)

lemma wire_calls_dvd [simp]: "4 dvd length (wire_calls e cs)"
  by (induction cs) auto

lemma run_wire:
  "call_fits e c \<Longrightarrow> 4 dvd length (mb_buf b) \<Longrightarrow>
     run_call e c b = Some (b\<lparr>mb_buf := mb_buf b @ wire_call e c\<rparr>)"
  "list_all (call_fits e) cs \<Longrightarrow> 4 dvd length (mb_buf b) \<Longrightarrow>
     run_calls e cs b = Some (b\<lparr>mb_buf := mb_buf b @ wire_calls e cs\<rparr>)"
proof (induction e c b and e cs b rule: run_call_run_calls.induct)
  case (3 e t cs b)
  let ?h = "nl_attr_as_bytes e (nl_attr_new (t OR NLA_F_NESTED) 0)"
  have "run_calls e cs (b\<lparr>mb_buf := mb_buf b @ ?h\<rparr>)
      = Some (b\<lparr>mb_buf := mb_buf b @ ?h @ wire_calls e cs\<rparr>)"
    using 3 by (simp add: nest_start_def)
  with nest_end_closes [of "mb_buf b" "wire_calls e cs" e _ b] 3(2,3)
  show ?case by (simp add: nest_start_def)
qed (auto simp: append_attr_wire append_bytes_pad)

text \<open>No call of a list a configuration makes can panic, and a sent message holds its calls.\<close>

lemma run_calls_wf:
  assumes "mb_wf b" "list_all (call_fits e) cs"
  shows "\<exists>b'. run_calls e cs b = Some b' \<and> mb_wf b' \<and> mb_buf b' = mb_buf b @ wire_calls e cs"
  using assms run_wire(2)[of e cs b] by (auto simp: mb_wf_def)

section \<open>Tables of optional attributes\<close>

definition opts :: "opt_attr list \<Rightarrow> call list" where
  "opts ats = concat (map (\<lambda>(t, v). case v of None \<Rightarrow> [] | Some d \<Rightarrow> [Attr t d]) ats)"

abbreviation opt_u32 :: "endian \<Rightarrow> u16 \<Rightarrow> u32 option \<Rightarrow> opt_attr" where
  "opt_u32 e t v \<equiv> (t, map_option (ne_bytes e 4) v)"

abbreviation opt_u16 :: "endian \<Rightarrow> u16 \<Rightarrow> u16 option \<Rightarrow> opt_attr" where
  "opt_u16 e t v \<equiv> (t, map_option (ne_bytes e 2) v)"

abbreviation opt_u8 :: "u16 \<Rightarrow> u8 option \<Rightarrow> opt_attr" where
  "opt_u8 t v \<equiv> (t, map_option (\<lambda>b. [b]) v)"

abbreviation opt_bool :: "u16 \<Rightarrow> bool option \<Rightarrow> opt_attr" where
  "opt_bool t v \<equiv> (t, map_option (\<lambda>b. [if b then 1 else 0]) v)"

abbreviation attr_str :: "u16 \<Rightarrow> string \<Rightarrow> call" where
  "attr_str t s \<equiv> Attr t (bytes_of_str s @ [0])"

lemma wire_opts: "wire_calls e (opts ats) = opt_wire e ats"
  unfolding opts_def opt_wire_def by (induction ats) (auto split: option.split)

lemma opts_fits: "list_all opt_ok ats \<Longrightarrow> list_all (call_fits e) (opts ats)"
  unfolding opts_def by (induction ats) (auto simp: opt_ok_def split: option.splits)

section \<open>Reading back\<close>

fun call_item :: "endian \<Rightarrow> call \<Rightarrow> u16 \<times> bytes" where
  "call_item e (Attr t d) = (t AND NLA_TYPE_MASK, d)"
| "call_item e (Nested t cs) = (t AND NLA_TYPE_MASK, wire_calls e cs)"
| "call_item e (Struct d) = (0, d)"

abbreviation is_attr :: "call \<Rightarrow> bool" where
  "is_attr c \<equiv> (case c of Struct _ \<Rightarrow> False | _ \<Rightarrow> True)"

lemma attrs_of_calls:
  "list_all (call_fits e) cs \<Longrightarrow> list_all is_attr cs \<Longrightarrow>
   attrs_of e (wire_calls e cs @ r) = map (call_item e) cs @ attrs_of e r"
proof (induction cs)
  case (Cons c cs)
  then show ?case by (cases c) (simp_all add: attrs_of_wire nested_kind)
qed simp

lemma opts_attr: "list_all is_attr (opts ats)"
  unfolding opts_def by (induction ats) (auto split: option.split)

text \<open>The typed parsers over the attributes of a request, nested ones included.\<close>

lemma fold_calls:
  assumes "list_all (call_fits e) cs" "list_all is_attr cs"
  shows "fold (\<lambda>(k, d). step k d) (attrs_of e (wire_calls e cs)) m =
    fold (\<lambda>c. case call_item e c of (k, d) \<Rightarrow> step k d) cs m"
  using attrs_of_calls[OF assms, of "[]"] by (simp add: fold_map attrs_of_Nil comp_def split_beta)

lemma attr_loop_calls:
  assumes "winnow_ok w" "list_all (call_fits e) cs" "list_all is_attr cs"
  shows "fst (attr_all w e step m (wire_calls e cs)) =
    Inr (fold (\<lambda>c. case call_item e c of (k, d) \<Rightarrow> step k d) cs m)"
  by (simp only: attr_loop_attrs[OF assms(1) order_refl] fold_calls[OF assms(2,3)])

lemma fold_opts:
  "list_all opt_ok ats \<Longrightarrow>
   fold (\<lambda>c. case call_item e c of (k, d) \<Rightarrow> step k d) (opts ats) m = opt_fold step ats m"
  unfolding opts_def opt_fold_def
  by (induction ats arbitrary: m) (auto simp: opt_ok_def type_mask split: option.splits)

end
