(* ===== verification/Mpls_Route.thy ===== *)
theory Mpls_Route
  imports Builder_Calls Rtnl_Messages
begin

text \<open>
  MPLS label entries, the encapsulation of IP routes and label routes (\<open>netlink/mpls.rs\<close>,
  \<open>netlink/types/mpls.rs\<close>): what the route builder writes is what the route parser reads.
\<close>

section \<open>Label entries\<close>

text \<open>An entry is kept in host order; its bytes are the big-endian ones.\<close>

type_synonym mpls_label_entry = u32

definition mpls_entry_new :: "u32 \<Rightarrow> mpls_label_entry" where
  "mpls_entry_new label = push_bit 12 (label AND 0xFFFFF)"

definition mpls_entry_bottom :: "u32 \<Rightarrow> u8 \<Rightarrow> mpls_label_entry" where
  "mpls_entry_bottom label ttl = push_bit 12 (label AND 0xFFFFF) OR push_bit 8 1 OR ucast ttl"

definition mpls_entry_with_fields :: "u32 \<Rightarrow> u8 \<Rightarrow> bool \<Rightarrow> u8 \<Rightarrow> mpls_label_entry" where
  "mpls_entry_with_fields label tc bos ttl =
     push_bit 12 (label AND 0xFFFFF) OR push_bit 9 (ucast (tc AND 7)) OR (if bos then push_bit 8 1 else 0) OR ucast ttl"

definition mpls_entry_label :: "mpls_label_entry \<Rightarrow> u32" where
  "mpls_entry_label entry = drop_bit 12 entry AND 0xFFFFF"

definition mpls_entry_tc :: "mpls_label_entry \<Rightarrow> u8" where
  "mpls_entry_tc entry = ucast (drop_bit 9 entry AND 7)"

definition mpls_entry_is_bos :: "mpls_label_entry \<Rightarrow> bool" where
  "mpls_entry_is_bos entry = (entry AND 0x100 \<noteq> 0)"

definition mpls_entry_ttl :: "mpls_label_entry \<Rightarrow> u8" where
  "mpls_entry_ttl entry = ucast (entry AND 0xFF)"

definition mpls_entry_as_bytes :: "mpls_label_entry \<Rightarrow> bytes" where
  "mpls_entry_as_bytes entry = be_bytes 4 entry"

definition mpls_entry_from_bytes :: "bytes \<Rightarrow> mpls_label_entry option" where
  "mpls_entry_from_bytes data = (if length data < 4 then None else Some (be_word (take 4 data)))"

definition mpls_label_new :: "u32 \<Rightarrow> u32 option" where
  "mpls_label_new label = (if label \<le> 1048575 then Some label else None)"

definition mpls_label_new_clamped :: "u32 \<Rightarrow> u32" where
  "mpls_label_new_clamped label = min label 1048575"

section \<open>Encapsulation\<close>

record mpls_encap =
  me_labels :: "u32 list"
  me_ttl :: "u8 option"

definition mpls_encap_label :: "u32 \<Rightarrow> mpls_encap \<Rightarrow> mpls_encap" where
  "mpls_encap_label label enc = enc\<lparr>me_labels := me_labels enc @ [mpls_label_new_clamped label]\<rparr>"

definition label_stack :: "u32 list \<Rightarrow> u8 \<Rightarrow> bytes" where
  "label_stack labels ttl =
     concat (map (\<lambda>(i, label). mpls_entry_as_bytes
         (if i = length labels - 1 then mpls_entry_bottom label ttl else mpls_entry_new label))
       (enumerate 0 labels))"

definition encode_labels :: "mpls_encap \<Rightarrow> bytes" where
  "encode_labels enc = label_stack (me_labels enc) (case me_ttl enc of Some t \<Rightarrow> t | None \<Rightarrow> 255)"

definition mpls_encap_calls :: "endian \<Rightarrow> mpls_encap \<Rightarrow> call list" where
  "mpls_encap_calls e enc =
     (if me_labels enc = [] then []
      else [Attr 21 (ne_bytes e 2 (1 :: u16)),
            Nested 22 (Attr 1 (encode_labels enc) # opts [opt_u8 2 (me_ttl enc)])])"

section \<open>Label routes\<close>

datatype mpls_action = Pop | Swap "u32 list"

record mpls_route =
  ml_label :: u32
  ml_action :: mpls_action
  ml_oif :: "u32 option"
  ml_via :: "ip_addr option"
  ml_protocol :: u8

function parse_labels :: "bytes \<Rightarrow> u32 list" where
  "parse_labels payload =
     (case mpls_entry_from_bytes payload of
        None \<Rightarrow> []
      | Some entry \<Rightarrow>
          mpls_entry_label entry # (if mpls_entry_is_bos entry then [] else parse_labels (drop 4 payload)))"
  by pat_completeness auto
termination
  by (relation "measure length") (auto simp: mpls_entry_from_bytes_def split: if_splits)

declare parse_labels.simps [simp del]

definition parse_via :: "endian \<Rightarrow> bytes \<Rightarrow> ip_addr option \<Rightarrow> ip_addr option" where
  "parse_via e payload via =
     (let family = ne_word e (take 2 payload) :: u16
      in if family = 2 \<and> 6 \<le> length payload then Some (V4 (be_word (take 4 (drop 2 payload))))
         else if family = 10 \<and> 18 \<le> length payload then Some (V6 (be_word (take 16 (drop 2 payload))))
         else via)"

definition mpls_attr :: "endian \<Rightarrow> u16 \<Rightarrow> bytes \<Rightarrow> mpls_route \<Rightarrow> mpls_route" where
  "mpls_attr e t d m =
     (if t = 1 then (case mpls_entry_from_bytes d of
         Some entry \<Rightarrow> m\<lparr>ml_label := mpls_entry_label entry\<rparr> | None \<Rightarrow> m)
      else if t = 19 then
        (let out_labels = parse_labels d in if out_labels \<noteq> [] then m\<lparr>ml_action := Swap out_labels\<rparr> else m)
      else if t = 4 \<and> 4 \<le> length d then m\<lparr>ml_oif := Some (ne_word e (take 4 d))\<rparr>
      else if t = 18 \<and> 6 \<le> length d then m\<lparr>ml_via := parse_via e d (ml_via m)\<rparr>
      else m)"

definition mpls_route_parse :: "endian \<Rightarrow> bytes \<Rightarrow> mpls_route nl_result" where
  "mpls_route_parse e data =
     (if length data < 12 then Inl (Truncated 12 (length data))
      else case rt_msg_from_bytes e data of
        Inl err \<Rightarrow> Inl err
      | Inr rtmsg \<Rightarrow>
          Inr (fold (\<lambda>(t, d). mpls_attr e t d) (attrs_of e (drop 12 data))
            \<lparr>ml_label = 0, ml_action = Pop, ml_oif = None, ml_via = None, ml_protocol = rtm_protocol rtmsg\<rparr>))"

record mpls_route_builder =
  mb_label :: u32
  mb_out_labels :: "u32 list"
  mb_via :: "ip_addr option"

definition via_bytes :: "endian \<Rightarrow> ip_addr \<Rightarrow> bytes" where
  "via_bytes e a = ne_bytes e 2 ((case a of V4 _ \<Rightarrow> 2 | V6 _ \<Rightarrow> 10) :: u16) @ ip_octets a"

definition mpls_rtmsg :: rt_msg where
  "mpls_rtmsg = rt_msg_with_type 1 (rt_msg_with_dst_len 20 (rt_msg_with_family 28 rt_msg_new))"

definition mpls_route_attrs :: "endian \<Rightarrow> u32 option \<Rightarrow> mpls_route_builder \<Rightarrow> opt_attr list" where
  "mpls_route_attrs e ifindex b =
     [(1, Some (mpls_entry_as_bytes (mpls_entry_bottom (mb_label b) 0))),
      (19, if mb_out_labels b = [] then None else Some (label_stack (mb_out_labels b) 255)),
      opt_u32 e 4 ifindex,
      (18, map_option (via_bytes e) (mb_via b))]"

definition mpls_route_calls :: "endian \<Rightarrow> u32 option \<Rightarrow> mpls_route_builder \<Rightarrow> call list" where
  "mpls_route_calls e ifindex b = Struct (rt_msg_as_bytes e mpls_rtmsg) # opts (mpls_route_attrs e ifindex b)"

definition mpls_delete_calls :: "endian \<Rightarrow> u32 \<Rightarrow> call list" where
  "mpls_delete_calls e label =
     [Struct (rt_msg_as_bytes e (rt_msg_with_dst_len 20 (rt_msg_with_family 28 rt_msg_new))),
      Attr 1 (mpls_entry_as_bytes (mpls_entry_bottom label 0))]"

section \<open>Labels on the wire\<close>

lemma entry_masks: "(w :: u32) AND 0xFFFFF = take_bit 20 w" "(w :: u32) AND 0xFF = take_bit 8 w"
  by (simp_all add: take_bit_eq_mask mask_eq_exp_minus_1)

lemma entry_bits:
  "bit (mpls_entry_new l) n = (12 \<le> n \<and> n < 32 \<and> bit l (n - 12))"
  "bit (mpls_entry_bottom l t) n = (12 \<le> n \<and> n < 32 \<and> bit l (n - 12) \<or> n = 8 \<or> bit t n)"
  unfolding mpls_entry_new_def mpls_entry_bottom_def entry_masks
  by (simp only: bit_or_iff bit_push_bit_iff bit_take_bit_iff bit_1_iff bit_ucast_iff possible_bit_word;
      auto dest: bit_imp_le_length)+

lemma entry_label:
  "mpls_entry_label (mpls_entry_new l) = l AND 0xFFFFF"
  "mpls_entry_label (mpls_entry_bottom l t) = l AND 0xFFFFF"
  unfolding mpls_entry_label_def entry_masks
  by (rule bit_eqI; auto simp: bit_take_bit_iff bit_drop_bit_eq entry_bits dest: bit_imp_le_length)+

lemma entry_bos: "\<not> mpls_entry_is_bos (mpls_entry_new l)" "mpls_entry_is_bos (mpls_entry_bottom l t)"
proof -
  have "x AND 256 \<noteq> 0 \<longleftrightarrow> bit x 8" for x :: u32
    using and_exp_eq_0_iff_not_bit[of x 8] by simp
  then show "\<not> mpls_entry_is_bos (mpls_entry_new l)" "mpls_entry_is_bos (mpls_entry_bottom l t)"
    by (simp_all add: mpls_entry_is_bos_def entry_bits)
qed

lemma entry_ttl: "mpls_entry_ttl (mpls_entry_bottom l t) = t"
  unfolding mpls_entry_ttl_def entry_masks
  by (rule bit_eqI) (auto simp: bit_take_bit_iff bit_ucast_iff entry_bits dest: bit_imp_le_length)

lemma entry_from_bytes: "mpls_entry_from_bytes (mpls_entry_as_bytes entry @ r) = Some entry"
  by (simp add: mpls_entry_from_bytes_def mpls_entry_as_bytes_def ne_word_bytes)

lemma label_stack_Cons:
  "label_stack (l # ls) ttl =
   mpls_entry_as_bytes (if ls = [] then mpls_entry_bottom l ttl else mpls_entry_new l) @ label_stack ls ttl"
proof -
  have "map (\<lambda>(i, label). mpls_entry_as_bytes (if i = length ls then mpls_entry_bottom label ttl else mpls_entry_new label))
      (enumerate (Suc 0) ls) =
    map (\<lambda>(i, label). mpls_entry_as_bytes (if i = length ls - 1 then mpls_entry_bottom label ttl else mpls_entry_new label))
      (enumerate 0 ls)"
    by (rule nth_equalityI) (auto simp: nth_enumerate_eq)
  then show ?thesis by (simp add: label_stack_def)
qed

lemma label_stack_Nil: "label_stack [] ttl = []"
  by (simp add: label_stack_def)

lemma length_label_stack: "length (label_stack ls ttl) = 4 * length ls"
  by (induction ls) (simp_all add: label_stack_Nil label_stack_Cons mpls_entry_as_bytes_def)

lemma parse_label_stack: "parse_labels (label_stack ls ttl) = map (\<lambda>l. l AND 0xFFFFF) ls"
proof (induction ls)
  case Nil
  then show ?case by (subst parse_labels.simps) (simp add: label_stack_Nil mpls_entry_from_bytes_def)
next
  case (Cons l ls)
  have "length (mpls_entry_as_bytes x) = 4" for x by (simp add: mpls_entry_as_bytes_def)
  then have "drop 4 (mpls_entry_as_bytes x @ r) = r" for x r by simp
  then show ?case
    using Cons
    by (subst parse_labels.simps)
      (auto simp: label_stack_Cons entry_from_bytes entry_label entry_bos label_stack_Nil)
qed

lemma via_length: "6 \<le> length (via_bytes e a)" "length (via_bytes e a) \<le> 18"
  by (cases a; simp add: via_bytes_def)+

lemma parse_via_bytes: "parse_via e (via_bytes e a) via = Some a"
  by (cases a) (simp_all add: parse_via_def via_bytes_def ne_word_bytes)

section \<open>Round trip\<close>

lemma mpls_attrs_ok:
  assumes "length (mb_out_labels b) \<le> 16382"
  shows "list_all opt_ok (mpls_route_attrs e ifindex b)"
  using assms
  by (auto simp: mpls_route_attrs_def opt_ok_def length_label_stack mpls_entry_as_bytes_def
      split: option.splits intro: order_trans[OF via_length(2)])

text \<open>
  A label route that the builder writes for a label, a stack of outgoing labels, an
  interface and a next hop is parsed back as such, with every label cut to its 20 bits: a label of
  more bits silently becomes another one.
\<close>

theorem mpls_route_roundtrip:
  assumes "length (mb_out_labels b) \<le> 16382"
  shows "mpls_route_parse e (wire_calls e (mpls_route_calls e ifindex b)) =
    Inr \<lparr>ml_label = mb_label b AND 0xFFFFF,
         ml_action = (case mb_out_labels b of [] \<Rightarrow> Pop | ls \<Rightarrow> Swap (map (\<lambda>l. l AND 0xFFFFF) ls)),
         ml_oif = ifindex, ml_via = mb_via b, ml_protocol = 0\<rparr>"
proof -
  note ok = mpls_attrs_ok[OF assms, of e ifindex]
  have hdr: "rt_msg_from_bytes e (rt_msg_as_bytes e mpls_rtmsg @ r) = Inr mpls_rtmsg" for r
    using rt_msg.dec_enc[of e mpls_rtmsg r]
    by (cases "rt_msg_from_bytes e (rt_msg_as_bytes e mpls_rtmsg @ r)") simp_all
  have wire: "wire_calls e (mpls_route_calls e ifindex b) =
      rt_msg_as_bytes e mpls_rtmsg @ opt_wire e (mpls_route_attrs e ifindex b)"
    by (simp add: mpls_route_calls_def wire_opts rt_msg.enc_length attr_pad_def nla_align_def)
  have "opt_fold (mpls_attr e) (mpls_route_attrs e ifindex b)
      \<lparr>ml_label = 0, ml_action = Pop, ml_oif = None, ml_via = None, ml_protocol = 0\<rparr> =
    \<lparr>ml_label = mb_label b AND 0xFFFFF,
         ml_action = (case mb_out_labels b of [] \<Rightarrow> Pop | ls \<Rightarrow> Swap (map (\<lambda>l. l AND 0xFFFFF) ls)),
         ml_oif = ifindex, ml_via = mb_via b, ml_protocol = 0\<rparr>"
    using entry_from_bytes[of _ "[]"]
    by (cases "mb_out_labels b"; cases ifindex; cases "mb_via b")
      (simp_all add: opt_fold_def mpls_route_attrs_def mpls_attr_def entry_label parse_label_stack
        ne_word_bytes parse_via_bytes via_length)
  moreover have "rtm_protocol mpls_rtmsg = 0"
    by (simp add: mpls_rtmsg_def rt_msg_with_type_def rt_msg_with_dst_len_def rt_msg_with_family_def rt_msg_new_def)
  ultimately show ?thesis
    unfolding wire mpls_route_parse_def using attrs_fold_opts[OF ok, where step = "mpls_attr e"]
    by (simp add: hdr rt_msg.enc_length)
qed

theorem mpls_route_roundtrip_witness:
  "mpls_route_parse BigEndian (wire_calls BigEndian (mpls_route_calls BigEndian (Some 3)
      \<lparr>mb_label = 0x100064, mb_out_labels = [200, 300], mb_via = Some (V4 0x0A000001)\<rparr>)) =
    Inr \<lparr>ml_label = 100, ml_action = Swap [200, 300], ml_oif = Some 3, ml_via = Some (V4 0x0A000001), ml_protocol = 0\<rparr>"
  using mpls_route_roundtrip[of "\<lparr>mb_label = 0x100064, mb_out_labels = [200, 300], mb_via = Some (V4 0x0A000001)\<rparr>"
      BigEndian "Some 3"]
  by simp

end
