(* ===== verification/Srv6_Local.thy ===== *)
theory Srv6_Local
  imports Builder_Calls Rtnl_Messages
begin

text \<open>
  SRv6 encapsulation and local segments (\<open>netlink/srv6.rs\<close>, \<open>netlink/types/srv6.rs\<close>): the
  segment routing header, the writer and the parser of local routes.
\<close>

section \<open>Segment routing headers\<close>

record ipv6_sr_hdr =
  sr_nexthdr :: u8
  sr_hdrlen :: u8
  sr_type :: u8
  sr_segments_left :: u8
  sr_first_segment :: u8
  sr_flags :: u8
  sr_tag :: u16

definition u8_saturating_sub1 :: "u8 \<Rightarrow> u8" where
  "u8_saturating_sub1 n = (if n = 0 then 0 else n - 1)"

definition ipv6_sr_hdr_new :: "u8 \<Rightarrow> ipv6_sr_hdr" where
  "ipv6_sr_hdr_new num_segments =
     \<lparr>sr_nexthdr = 0, sr_hdrlen = of_nat (min (unat num_segments * 2) 255), sr_type = 4,
      sr_segments_left = u8_saturating_sub1 num_segments,
      sr_first_segment = u8_saturating_sub1 num_segments, sr_flags = 0, sr_tag = 0\<rparr>"

definition ipv6_sr_hdr_as_bytes :: "endian \<Rightarrow> ipv6_sr_hdr \<Rightarrow> bytes" where
  "ipv6_sr_hdr_as_bytes e h =
     [sr_nexthdr h, sr_hdrlen h, sr_type h, sr_segments_left h, sr_first_segment h, sr_flags h] @ ne_bytes e 2 (sr_tag h)"

definition ipv6_sr_hdr_from_bytes :: "endian \<Rightarrow> bytes \<Rightarrow> ipv6_sr_hdr option" where
  "ipv6_sr_hdr_from_bytes e d =
     (if length d < 8 then None
      else Some \<lparr>sr_nexthdr = d ! 0, sr_hdrlen = d ! 1, sr_type = d ! 2, sr_segments_left = d ! 3,
                 sr_first_segment = d ! 4, sr_flags = d ! 5, sr_tag = ne_word e (take 2 (drop 6 d))\<rparr>)"

text \<open>The number of segments is cut to eight bits.\<close>

definition build_srh :: "endian \<Rightarrow> ipv6 list \<Rightarrow> bytes" where
  "build_srh e segments =
     (if segments = [] then []
      else ipv6_sr_hdr_as_bytes e (ipv6_sr_hdr_new (of_nat (length segments))) @
           concat (map (\<lambda>s. ip_octets (V6 s)) (rev segments)))"

section \<open>Encapsulation\<close>

datatype srv6_mode = Inline | Encap | L2Encap | EncapRed | L2EncapRed

fun srv6_mode_to_u32 :: "srv6_mode \<Rightarrow> u32" where
  "srv6_mode_to_u32 Inline = 0"
| "srv6_mode_to_u32 Encap = 1"
| "srv6_mode_to_u32 L2Encap = 2"
| "srv6_mode_to_u32 EncapRed = 3"
| "srv6_mode_to_u32 L2EncapRed = 4"

definition srv6_mode_from_u32 :: "u32 \<Rightarrow> srv6_mode option" where
  "srv6_mode_from_u32 v =
     (if v = 0 then Some Inline else if v = 1 then Some Encap else if v = 2 then Some L2Encap
      else if v = 3 then Some EncapRed else if v = 4 then Some L2EncapRed else None)"

record srv6_encap =
  se_mode :: srv6_mode
  se_segments :: "ipv6 list"

definition srv6_encap_calls :: "endian \<Rightarrow> srv6_encap \<Rightarrow> call list" where
  "srv6_encap_calls e enc =
     (if se_segments enc = [] then []
      else [Attr 21 (ne_bytes e 2 (5 :: u16)),
            Nested 22 [Attr 1 (ne_bytes e 4 (srv6_mode_to_u32 (se_mode enc)) @ build_srh e (se_segments enc))]])"

section \<open>Local segments\<close>

datatype srv6_action =
    End | EndX ipv6 | EndT u32 | EndDX2 | EndDX4 "ipv4 option" | EndDX6 "ipv6 option"
  | EndDT4 u32 | EndDT6 u32 | EndDT46 u32 | EndB6 "ipv6 list" | EndB6Encaps "ipv6 list" | EndBPF
  | UnknownAction u32

fun action_type :: "srv6_action \<Rightarrow> u32" where
  "action_type End = 1"
| "action_type (EndX _) = 2"
| "action_type (EndT _) = 3"
| "action_type EndDX2 = 4"
| "action_type (EndDX6 _) = 5"
| "action_type (EndDX4 _) = 6"
| "action_type (EndDT6 _) = 7"
| "action_type (EndDT4 _) = 8"
| "action_type (EndB6 _) = 9"
| "action_type (EndB6Encaps _) = 10"
| "action_type EndBPF = 15"
| "action_type (EndDT46 _) = 16"
| "action_type (UnknownAction t) = t"

record srv6_local_route =
  sl_sid :: ipv6
  sl_prefix_len :: u8
  sl_action :: srv6_action
  sl_oif :: "u32 option"
  sl_iif :: "u32 option"
  sl_protocol :: u8

definition srv6_table :: "srv6_local_route \<Rightarrow> u32 option" where
  "srv6_table r =
     (case sl_action r of EndT t \<Rightarrow> Some t | EndDT4 t \<Rightarrow> Some t | EndDT6 t \<Rightarrow> Some t | EndDT46 t \<Rightarrow> Some t | _ \<Rightarrow> None)"

text \<open>The variables of the parser's loops.\<close>

record srv6_scan =
  ss_sid :: ipv6
  ss_action_type :: u32
  ss_table :: "u32 option"
  ss_nh4 :: "ipv4 option"
  ss_nh6 :: "ipv6 option"
  ss_oif :: "u32 option"
  ss_iif :: "u32 option"
  ss_srh_segments :: "ipv6 list"

definition srv6_scan_new :: srv6_scan where
  "srv6_scan_new = \<lparr>ss_sid = 0, ss_action_type = 0, ss_table = None, ss_nh4 = None, ss_nh6 = None,
     ss_oif = None, ss_iif = None, ss_srh_segments = []\<rparr>"

definition srh_segments :: "nat \<Rightarrow> bytes \<Rightarrow> ipv6 list" where
  "srh_segments num_segs seg_data =
     List.map_filter (\<lambda>i. let offset = i * 16
       in if offset + 16 \<le> length seg_data then Some (ipv6_from (take 16 (drop offset seg_data))) else None) [0..<num_segs]"

definition seg6_local_attr :: "endian \<Rightarrow> u16 \<Rightarrow> bytes \<Rightarrow> srv6_scan \<Rightarrow> srv6_scan" where
  "seg6_local_attr e t d s =
     (if t = 1 \<and> 4 \<le> length d then s\<lparr>ss_action_type := ne_word e (take 4 d)\<rparr>
      else if t = 3 \<and> 4 \<le> length d then s\<lparr>ss_table := Some (ne_word e (take 4 d))\<rparr>
      else if t = 4 \<and> 4 \<le> length d then s\<lparr>ss_nh4 := Some (be_word (take 4 d))\<rparr>
      else if t = 5 \<and> 16 \<le> length d then s\<lparr>ss_nh6 := Some (ipv6_from (take 16 d))\<rparr>
      else if t = 2 \<and> 12 \<le> length d then
        (let srh_data = drop 4 d
         in case ipv6_sr_hdr_from_bytes e srh_data of
              None \<Rightarrow> s
            | Some hdr \<Rightarrow> s\<lparr>ss_srh_segments :=
                rev (ss_srh_segments s @ srh_segments (unat (sr_first_segment hdr) + 1) (drop 8 srh_data))\<rparr>)
      else if t = 7 \<and> 4 \<le> length d then s\<lparr>ss_oif := Some (ne_word e (take 4 d))\<rparr>
      else if t = 6 \<and> 4 \<le> length d then s\<lparr>ss_iif := Some (ne_word e (take 4 d))\<rparr>
      else s)"

definition srv6_attr :: "endian \<Rightarrow> u16 \<Rightarrow> bytes \<Rightarrow> srv6_scan \<Rightarrow> srv6_scan" where
  "srv6_attr e t d s =
     (if t = 1 \<and> 16 \<le> length d then s\<lparr>ss_sid := ipv6_from (take 16 d)\<rparr>
      else if t = 4 \<and> 4 \<le> length d then s\<lparr>ss_oif := Some (ne_word e (take 4 d))\<rparr>
      else if t = 3 \<and> 4 \<le> length d then s\<lparr>ss_iif := Some (ne_word e (take 4 d))\<rparr>
      else if t = 22 then fold (\<lambda>(k, v). seg6_local_attr e k v) (attrs_of e d) s
      else s)"

definition or_zero :: "'a::zero option \<Rightarrow> 'a" where
  "or_zero v = (case v of Some x \<Rightarrow> x | None \<Rightarrow> 0)"

definition scanned_action :: "srv6_scan \<Rightarrow> srv6_action" where
  "scanned_action s =
     (let t = ss_action_type s
      in if t = 1 then End
         else if t = 2 then EndX (or_zero (ss_nh6 s))
         else if t = 3 then EndT (or_zero (ss_table s))
         else if t = 4 then EndDX2
         else if t = 6 then EndDX4 (ss_nh4 s)
         else if t = 5 then EndDX6 (ss_nh6 s)
         else if t = 8 then EndDT4 (or_zero (ss_table s))
         else if t = 7 then EndDT6 (or_zero (ss_table s))
         else if t = 16 then EndDT46 (or_zero (ss_table s))
         else if t = 9 then EndB6 (ss_srh_segments s)
         else if t = 10 then EndB6Encaps (ss_srh_segments s)
         else if t = 15 then EndBPF
         else UnknownAction t)"

definition srv6_local_parse :: "endian \<Rightarrow> bytes \<Rightarrow> srv6_local_route nl_result" where
  "srv6_local_parse e data =
     (if length data < 12 then Inl (Truncated 12 (length data))
      else case rt_msg_from_bytes e data of
        Inl err \<Rightarrow> Inl err
      | Inr rtmsg \<Rightarrow>
          (let s = fold (\<lambda>(t, d). srv6_attr e t d) (attrs_of e (drop 12 data)) srv6_scan_new
           in Inr \<lparr>sl_sid = ss_sid s, sl_prefix_len = rtm_dst_len rtmsg, sl_action = scanned_action s,
                  sl_oif = ss_oif s, sl_iif = ss_iif s, sl_protocol = rtm_protocol rtmsg\<rparr>))"

fun action_attrs :: "endian \<Rightarrow> srv6_action \<Rightarrow> opt_attr list" where
  "action_attrs e (EndX nexthop) = [(5, Some (ip_octets (V6 nexthop)))]"
| "action_attrs e (EndT table) = [(3, Some (ne_bytes e 4 table))]"
| "action_attrs e (EndDX4 nexthop) = [(4, map_option (\<lambda>a. ip_octets (V4 a)) nexthop)]"
| "action_attrs e (EndDX6 nexthop) = [(5, map_option (\<lambda>a. ip_octets (V6 a)) nexthop)]"
| "action_attrs e (EndDT4 table) = [(3, Some (ne_bytes e 4 table))]"
| "action_attrs e (EndDT6 table) = [(3, Some (ne_bytes e 4 table))]"
| "action_attrs e (EndDT46 table) = [(3, Some (ne_bytes e 4 table))]"
| "action_attrs e (EndB6 segments) =
     [(2, if segments = [] then None else Some (ne_bytes e 4 (1 :: u32) @ build_srh e segments))]"
| "action_attrs e (EndB6Encaps segments) =
     [(2, if segments = [] then None else Some (ne_bytes e 4 (1 :: u32) @ build_srh e segments))]"
| "action_attrs e _ = []"

definition srv6_rtmsg :: rt_msg where
  "srv6_rtmsg = rt_msg_with_type 1 (rt_msg_with_dst_len 128 (rt_msg_with_family 10 rt_msg_new))"

definition srv6_local_calls :: "endian \<Rightarrow> u32 option \<Rightarrow> ipv6 \<Rightarrow> srv6_action \<Rightarrow> call list" where
  "srv6_local_calls e ifindex sid action =
     Struct (rt_msg_as_bytes e srv6_rtmsg) #
     opts [(1, Some (ip_octets (V6 sid))), opt_u32 e 4 ifindex, (21, Some (ne_bytes e 2 (7 :: u16)))] @
     [Nested 22 (Attr 1 (ne_bytes e 4 (action_type action)) # opts (action_attrs e action))]"

definition srv6_delete_calls :: "endian \<Rightarrow> ipv6 \<Rightarrow> call list" where
  "srv6_delete_calls e sid =
     [Struct (rt_msg_as_bytes e (rt_msg_with_dst_len 128 (rt_msg_with_family 10 rt_msg_new))),
      Attr 1 (ip_octets (V6 sid))]"

section \<open>Round trip\<close>

text \<open>
  The segments that come back: the header counts them in eight bits, and an empty count still
  stands for one segment.
\<close>

definition counted :: "nat \<Rightarrow> nat" where
  "counted n = (if n mod 256 = 0 then 1 else n mod 256)"

definition segments_back :: "ipv6 list \<Rightarrow> ipv6 list" where
  "segments_back segments = drop (length segments - counted (length segments)) segments"

fun action_back :: "srv6_action \<Rightarrow> srv6_action" where
  "action_back (EndB6 segments) = EndB6 (segments_back segments)"
| "action_back (EndB6Encaps segments) = EndB6Encaps (segments_back segments)"
| "action_back a = a"

fun action_wf :: "srv6_action \<Rightarrow> bool" where
  "action_wf (EndB6 segments) = (length segments \<le> 4093)"
| "action_wf (EndB6Encaps segments) = (length segments \<le> 4093)"
| "action_wf (UnknownAction t) = (t \<notin> {1, 2, 3, 4, 5, 6, 7, 8, 9, 10, 15, 16})"
| "action_wf _ = True"

lemma counted_le: "0 < n \<Longrightarrow> counted n \<le> n" "0 < counted n"
  by (auto simp: counted_def intro: mod_less_eq_dividend)

lemma first_segment: "unat (u8_saturating_sub1 (of_nat n)) + 1 = counted n"
proof -
  have n: "unat (of_nat n :: u8) = n mod 256" by (simp add: unat_of_nat)
  show ?thesis
  proof (cases "n mod 256 = 0")
    case True
    then have "(of_nat n :: u8) = 0" using n by (metis unat_eq_zero)
    then show ?thesis using True by (simp add: u8_saturating_sub1_def counted_def)
  next
    case False
    then have "(of_nat n :: u8) \<noteq> 0" using n by auto
    then show ?thesis using False n by (simp add: u8_saturating_sub1_def counted_def unat_minus_one)
  qed
qed

lemma length_srh: "segs \<noteq> [] \<Longrightarrow> length (build_srh e segs) = 8 + 16 * length segs"
  by (simp add: build_srh_def ipv6_sr_hdr_as_bytes_def length_concat comp_def sum_list_triv)

lemma srh_segments_take:
  "n \<le> length segs \<Longrightarrow> srh_segments n (concat (map (\<lambda>s. ip_octets (V6 s)) segs)) = take n segs"
proof (induction n)
  case (Suc n)
  define D where "D = concat (map (\<lambda>s. ip_octets (V6 s)) segs)"
  have split: "segs = take n segs @ segs ! n # drop (Suc n) segs" using Suc.prems by (simp add: id_take_nth_drop)
  have len: "length (concat (map (\<lambda>s. ip_octets (V6 s)) xs)) = 16 * length xs" for xs
    by (simp add: length_concat comp_def sum_list_triv)
  have "D = concat (map (\<lambda>s. ip_octets (V6 s)) (take n segs)) @ ip_octets (V6 (segs ! n)) @
      concat (map (\<lambda>s. ip_octets (V6 s)) (drop (Suc n) segs))"
    unfolding D_def by (subst split) (simp only: map_append concat_append list.map concat.simps)
  then have d: "drop (n * 16) D = ip_octets (V6 (segs ! n)) @ concat (map (\<lambda>s. ip_octets (V6 s)) (drop (Suc n) segs))"
    using Suc.prems len[of "take n segs"] by simp
  have "n * 16 + 16 \<le> length D" using Suc.prems len[of segs] by (simp add: D_def)
  then have "srh_segments (Suc n) D = srh_segments n D @ [segs ! n]"
    by (simp add: srh_segments_def List.map_filter_def d ipv6_from_def ne_word_bytes)
  then show ?case using Suc by (simp add: D_def take_Suc_conv_app_nth)
qed (simp add: srh_segments_def List.map_filter_simps)

lemma srh_back:
  assumes "segs \<noteq> []"
  shows "seg6_local_attr e 2 (ne_bytes e 4 (mode :: u32) @ build_srh e segs) s =
    s\<lparr>ss_srh_segments := segments_back segs @ rev (ss_srh_segments s)\<rparr>"
proof -
  let ?segs = "concat (map (\<lambda>s. ip_octets (V6 s)) (rev segs))"
  let ?h = "ipv6_sr_hdr_new (of_nat (length segs))"
  have srh: "build_srh e segs = ipv6_sr_hdr_as_bytes e ?h @ ?segs" using assms by (simp add: build_srh_def)
  have len: "length (ipv6_sr_hdr_as_bytes e h) = 8" for h by (simp add: ipv6_sr_hdr_as_bytes_def)
  have hdr: "ipv6_sr_hdr_from_bytes e (build_srh e segs) = Some ?h"
    by (simp add: srh ipv6_sr_hdr_from_bytes_def ipv6_sr_hdr_as_bytes_def ne_word_bytes)
  have "srh_segments (unat (sr_first_segment ?h) + 1) ?segs = take (counted (length segs)) (rev segs)"
    unfolding ipv6_sr_hdr_new_def ipv6_sr_hdr.select_convs first_segment
    by (rule srh_segments_take) (use assms counted_le(1)[of "length segs"] in simp)
  moreover have "rev (take (counted (length segs)) (rev segs)) = segments_back segs"
    by (simp add: segments_back_def rev_take)
  moreover have "drop 8 (build_srh e segs) = ?segs" by (simp add: srh len)
  moreover have "8 \<le> length (build_srh e segs)" using length_srh[OF assms] by simp
  ultimately show ?thesis by (simp add: seg6_local_attr_def hdr)
qed

lemma action_opts_ok: "action_wf action \<Longrightarrow> list_all opt_ok (action_attrs e action)"
  by (cases action) (auto simp: opt_ok_def length_srh split: option.splits)

lemma local_steps:
  "seg6_local_attr e 1 (ne_bytes e 4 t) s = s\<lparr>ss_action_type := t\<rparr>"
  "seg6_local_attr e 3 (ne_bytes e 4 t) s = s\<lparr>ss_table := Some t\<rparr>"
  "seg6_local_attr e 4 (be_bytes 4 a) s = s\<lparr>ss_nh4 := Some a\<rparr>"
  "seg6_local_attr e 5 (be_bytes 16 b) s = s\<lparr>ss_nh6 := Some b\<rparr>"
  by (simp_all add: seg6_local_attr_def ne_word_bytes ipv6_from_def)

lemma case_unless_Nil:
  "(case (if xs = [] then None else Some y) of None \<Rightarrow> a | Some d \<Rightarrow> f d) = (if xs = [] then a else f y)"
  by simp

lemma local_fold:
  assumes "action_wf action"
  shows "opt_fold (seg6_local_attr e) ((1, Some (ne_bytes e 4 (action_type action))) # action_attrs e action)
      (srv6_scan_new\<lparr>ss_sid := sid, ss_oif := oif\<rparr>) = s \<Longrightarrow>
    scanned_action s = action_back action \<and> ss_sid s = sid \<and> ss_oif s = oif \<and> ss_iif s = None"
  using assms
  by (cases action)
    (auto simp: opt_fold_def srv6_scan_new_def scanned_action_def or_zero_def srh_back local_steps
      case_unless_Nil segments_back_def Let_def split: option.splits if_splits)

lemma segments_back_whole: "segments_back segs = segs \<longleftrightarrow> length segs < 256"
proof
  assume a: "segments_back segs = segs"
  show "length segs < 256"
  proof (rule ccontr)
    assume "\<not> length segs < 256"
    moreover have "counted (length segs) < 256" by (simp add: counted_def)
    ultimately have "0 < length segs - counted (length segs)" "segs \<noteq> []" by auto
    then have "length (segments_back segs) < length segs" by (simp add: segments_back_def)
    then show False using a by simp
  qed
qed (auto simp: segments_back_def counted_def)

lemma action_back_whole:
  "action_back action = action \<longleftrightarrow>
    (case action of EndB6 segs \<Rightarrow> length segs < 256 | EndB6Encaps segs \<Rightarrow> length segs < 256 | _ \<Rightarrow> True)"
  by (cases action) (simp_all add: segments_back_whole)

text \<open>
  A local segment that the builder writes is parsed back: identifier, interface, action with
  its parameters.  Only the segment list of \<open>End.B6\<close> and \<open>End.B6.Encaps\<close> is not always whole: its
  length is kept in eight bits, so from 256 segments on all but the last few are lost.
\<close>

theorem srv6_local_roundtrip:
  assumes "action_wf action"
  shows "srv6_local_parse e (wire_calls e (srv6_local_calls e ifindex sid action)) =
    Inr \<lparr>sl_sid = sid, sl_prefix_len = 128, sl_action = action_back action, sl_oif = ifindex,
         sl_iif = None, sl_protocol = 0\<rparr> \<and>
    (action_back action = action \<longleftrightarrow>
      (case action of EndB6 segs \<Rightarrow> length segs < 256 | EndB6Encaps segs \<Rightarrow> length segs < 256 | _ \<Rightarrow> True))"
proof
  let ?ats = "[(1, Some (ip_octets (V6 sid))), opt_u32 e 4 ifindex, (21, Some (ne_bytes e 2 (7 :: u16)))]"
  let ?local = "(1, Some (ne_bytes e 4 (action_type action))) # action_attrs e action"
  let ?nest = "Nested 22 (Attr 1 (ne_bytes e 4 (action_type action)) # opts (action_attrs e action))"
  have inner: "Attr 1 (ne_bytes e 4 (action_type action)) # opts (action_attrs e action) = opts ?local"
    by (simp add: opts_def)
  have local_ok: "list_all opt_ok ?local" using action_opts_ok[OF assms] by (simp add: opt_ok_def)
  have size: "length (opt_wire e ?local) \<le> 65531"
    using assms by (cases action) (auto simp: opt_wire_simps attr_wire_size nla_size_def parse_nla_align_def length_srh
        split: option.splits)
  have ats_ok: "list_all opt_ok ?ats" by (auto simp: opt_ok_def split: option.splits)
  have fits: "list_all (call_fits e) (opts ?ats @ [?nest])" "list_all is_attr (opts ?ats @ [?nest])"
    using opts_fits[OF ats_ok] opts_fits[OF local_ok] size
    by (simp_all add: inner opts_attr wire_opts)
  define s where "s = opt_fold (seg6_local_attr e) ?local (srv6_scan_new\<lparr>ss_sid := sid, ss_oif := ifindex\<rparr>)"
  have top: "opt_fold (srv6_attr e) ?ats srv6_scan_new = srv6_scan_new\<lparr>ss_sid := sid, ss_oif := ifindex\<rparr>"
    by (cases ifindex) (simp_all add: opt_fold_def srv6_attr_def ne_word_bytes ipv6_from_def srv6_scan_new_def)
  have "fold (\<lambda>(t, d). srv6_attr e t d) (attrs_of e (wire_calls e (opts ?ats @ [?nest]))) srv6_scan_new =
      srv6_attr e 22 (wire_calls e (opts ?local)) (opt_fold (srv6_attr e) ?ats srv6_scan_new)"
    unfolding fold_calls[OF fits] fold_append o_apply fold_opts[OF ats_ok] by (simp add: inner)
  also have "\<dots> = s"
    unfolding top using attrs_fold_opts[OF local_ok, of "seg6_local_attr e"] by (simp add: srv6_attr_def wire_opts s_def)
  finally have scan: "fold (\<lambda>(t, d). srv6_attr e t d) (attrs_of e (wire_calls e (opts ?ats @ [?nest]))) srv6_scan_new = s" .
  have wire: "wire_calls e (srv6_local_calls e ifindex sid action) =
      rt_msg_as_bytes e srv6_rtmsg @ wire_calls e (opts ?ats @ [?nest])"
    by (simp add: srv6_local_calls_def rt_msg.enc_length attr_pad_def nla_align_def)
  have hdr: "rt_msg_from_bytes e (rt_msg_as_bytes e srv6_rtmsg @ r) = Inr srv6_rtmsg" for r
    using rt_msg.dec_enc[of e srv6_rtmsg r]
    by (cases "rt_msg_from_bytes e (rt_msg_as_bytes e srv6_rtmsg @ r)") simp_all
  have "rtm_protocol srv6_rtmsg = 0" "rtm_dst_len srv6_rtmsg = 128"
    by (simp_all add: srv6_rtmsg_def rt_msg_with_type_def rt_msg_with_dst_len_def rt_msg_with_family_def rt_msg_new_def)
  then show "srv6_local_parse e (wire_calls e (srv6_local_calls e ifindex sid action)) =
    Inr \<lparr>sl_sid = sid, sl_prefix_len = 128, sl_action = action_back action, sl_oif = ifindex,
         sl_iif = None, sl_protocol = 0\<rparr>"
    unfolding wire srv6_local_parse_def Let_def
    using local_fold[OF assms s_def[symmetric]] scan by (simp add: hdr rt_msg.enc_length del: concat_append map_append)
qed (rule action_back_whole)

theorem srv6_local_roundtrip_witness:
  "srv6_local_parse LittleEndian (wire_calls LittleEndian (srv6_local_calls LittleEndian (Some 3) 7 (EndB6 [5, 6]))) =
    Inr \<lparr>sl_sid = 7, sl_prefix_len = 128, sl_action = EndB6 [5, 6], sl_oif = Some 3, sl_iif = None, sl_protocol = 0\<rparr>"
  using srv6_local_roundtrip[of "EndB6 [5, 6]" LittleEndian "Some 3" 7] by simp

end
