(* ===== verification/Rtnl_Config.thy ===== *)
theory Rtnl_Config
  imports Mpls_Route Srv6_Local
begin

text \<open>
  The configurations callers pass to add, replace and delete addresses and routes
  (\<open>netlink/addr.rs\<close>, \<open>netlink/route.rs\<close>): the calls each makes on the message builder, and
  what the typed parsers read in the requests.  The setters of the builders set one field each.
\<close>

section \<open>Address configurations\<close>

datatype interface_ref = Name string | Index u32

fun scope_code :: "scope \<Rightarrow> u8" where
  "scope_code ScopeUniverse = 0"
| "scope_code ScopeSite = 200"
| "scope_code ScopeLink = 253"
| "scope_code ScopeHost = 254"
| "scope_code ScopeNowhere = 255"

text \<open>The fields the two families share; \<open>'a\<close> is the type of the addresses.\<close>

record 'a address_config =
  ac_interface :: interface_ref
  ac_address :: 'a
  ac_prefix_len :: u8
  ac_peer :: "'a option"
  ac_scope :: scope
  ac_flags :: u32
  ac_preferred_lft :: "u32 option"
  ac_valid_lft :: "u32 option"
  ac_metric :: "u32 option"

record ipv4_address = "ipv4 address_config" +
  ac_broadcast :: "ipv4 option"
  ac_label :: "string option"

definition ipv4_address_new :: "interface_ref \<Rightarrow> ipv4 \<Rightarrow> u8 \<Rightarrow> ipv4_address" where
  "ipv4_address_new interface address prefix_len =
     \<lparr>ac_interface = interface, ac_address = address, ac_prefix_len = prefix_len, ac_peer = None,
      ac_scope = ScopeUniverse, ac_flags = 0, ac_preferred_lft = None, ac_valid_lft = None, ac_metric = None,
      ac_broadcast = None, ac_label = None\<rparr>"

definition ipv6_address_new :: "interface_ref \<Rightarrow> ipv6 \<Rightarrow> u8 \<Rightarrow> ipv6 address_config" where
  "ipv6_address_new interface address prefix_len =
     \<lparr>ac_interface = interface, ac_address = address, ac_prefix_len = prefix_len, ac_peer = None,
      ac_scope = ScopeUniverse, ac_flags = 0, ac_preferred_lft = None, ac_valid_lft = None, ac_metric = None\<rparr>"

definition cacheinfo_bytes :: "endian \<Rightarrow> ('a, 'b) address_config_scheme \<Rightarrow> bytes option" where
  "cacheinfo_bytes e c =
     (if ac_preferred_lft c = None \<and> ac_valid_lft c = None then None
      else Some (ne_bytes e 4 (case ac_preferred_lft c of Some s \<Rightarrow> s | None \<Rightarrow> 0xFFFFFFFF) @
                 ne_bytes e 4 (case ac_valid_lft c of Some s \<Rightarrow> s | None \<Rightarrow> 0xFFFFFFFF) @
                 ne_bytes e 4 (0 :: u32) @ ne_bytes e 4 (0 :: u32)))"

definition v4_common_attrs :: "endian \<Rightarrow> ipv4_address \<Rightarrow> opt_attr list" where
  "v4_common_attrs e c =
     [(2, Some (ip_octets (V4 (ac_address c)))),
      (1, Some (ip_octets (V4 (case ac_peer c of Some p \<Rightarrow> p | None \<Rightarrow> ac_address c)))),
      (4, map_option (\<lambda>b. ip_octets (V4 b)) (ac_broadcast c)),
      (3, map_option (\<lambda>l. bytes_of_str l @ [0]) (ac_label c)),
      opt_u32 e 8 (if ac_flags c \<noteq> 0 then Some (ac_flags c) else None),
      (6, cacheinfo_bytes e c),
      opt_u32 e 9 (ac_metric c)]"

definition v6_common_attrs :: "endian \<Rightarrow> ipv6 address_config \<Rightarrow> opt_attr list" where
  "v6_common_attrs e c =
     [(2, Some (ip_octets (V6 (ac_address c)))),
      (1, Some (ip_octets (V6 (case ac_peer c of Some p \<Rightarrow> p | None \<Rightarrow> ac_address c)))),
      opt_u32 e 8 (if ac_flags c \<noteq> 0 then Some (ac_flags c) else None),
      (6, cacheinfo_bytes e c),
      opt_u32 e 9 (ac_metric c)]"

definition add_ifaddr :: "u8 \<Rightarrow> u32 \<Rightarrow> ('a, 'b) address_config_scheme \<Rightarrow> if_addr_msg" where
  "add_ifaddr family ifindex c =
     if_addr_msg_with_scope (scope_code (ac_scope c)) (if_addr_msg_with_index ifindex
       (if_addr_msg_with_prefixlen (ac_prefix_len c) (if_addr_msg_with_family family if_addr_msg_new)))"

definition del_ifaddr :: "u8 \<Rightarrow> u32 \<Rightarrow> ('a, 'b) address_config_scheme \<Rightarrow> if_addr_msg" where
  "del_ifaddr family ifindex c =
     if_addr_msg_with_index ifindex
       (if_addr_msg_with_prefixlen (ac_prefix_len c) (if_addr_msg_with_family family if_addr_msg_new))"

text \<open>\<open>write_replace\<close> writes what \<open>write_add\<close> writes.\<close>

definition v4_address_add :: "endian \<Rightarrow> u32 \<Rightarrow> ipv4_address \<Rightarrow> call list" where
  "v4_address_add e ifindex c = Struct (if_addr_msg_as_bytes e (add_ifaddr 2 ifindex c)) # opts (v4_common_attrs e c)"

definition v6_address_add :: "endian \<Rightarrow> u32 \<Rightarrow> ipv6 address_config \<Rightarrow> call list" where
  "v6_address_add e ifindex c = Struct (if_addr_msg_as_bytes e (add_ifaddr 10 ifindex c)) # opts (v6_common_attrs e c)"

definition v4_address_delete :: "endian \<Rightarrow> u32 \<Rightarrow> ipv4_address \<Rightarrow> call list" where
  "v4_address_delete e ifindex c =
     [Struct (if_addr_msg_as_bytes e (del_ifaddr 2 ifindex c)), Attr 2 (ip_octets (V4 (ac_address c)))]"

definition v6_address_delete :: "endian \<Rightarrow> u32 \<Rightarrow> ipv6 address_config \<Rightarrow> call list" where
  "v6_address_delete e ifindex c =
     [Struct (if_addr_msg_as_bytes e (del_ifaddr 10 ifindex c)), Attr 2 (ip_octets (V6 (ac_address c)))]"

section \<open>Route configurations\<close>

fun route_type_code :: "route_type \<Rightarrow> u8" where
  "route_type_code RtUnspec = 0"
| "route_type_code RtUnicast = 1"
| "route_type_code RtLocal = 2"
| "route_type_code RtBroadcast = 3"
| "route_type_code RtAnycast = 4"
| "route_type_code RtMulticast = 5"
| "route_type_code RtBlackhole = 6"
| "route_type_code RtUnreachable = 7"
| "route_type_code RtProhibit = 8"
| "route_type_code RtThrow = 9"
| "route_type_code RtNat = 10"
| "route_type_code RtExternalResolver = 11"

fun route_protocol_code :: "route_protocol \<Rightarrow> u8" where
  "route_protocol_code RpUnspec = 0"
| "route_protocol_code RpRedirect = 1"
| "route_protocol_code RpKernel = 2"
| "route_protocol_code RpBoot = 3"
| "route_protocol_code RpStatic = 4"
| "route_protocol_code RpGated = 8"
| "route_protocol_code RpRa = 9"
| "route_protocol_code RpMrt = 10"
| "route_protocol_code RpZebra = 11"
| "route_protocol_code RpBird = 12"
| "route_protocol_code RpDnrouted = 13"
| "route_protocol_code RpXorp = 14"
| "route_protocol_code RpNtk = 15"
| "route_protocol_code RpDhcp = 16"
| "route_protocol_code RpMrouted = 17"
| "route_protocol_code RpKeepalived = 18"
| "route_protocol_code RpBabel = 42"
| "route_protocol_code RpBgp = 186"
| "route_protocol_code RpIsis = 187"
| "route_protocol_code RpOspf = 188"
| "route_protocol_code RpRip = 189"
| "route_protocol_code RpEigrp = 192"

text \<open>The metrics in the order \<open>RouteMetrics\<close> writes them, each with its number.\<close>

record route_metrics =
  mx_mtu :: "u32 option"
  mx_advmss :: "u32 option"
  mx_window :: "u32 option"
  mx_rtt :: "u32 option"
  mx_rttvar :: "u32 option"
  mx_ssthresh :: "u32 option"
  mx_cwnd :: "u32 option"
  mx_initcwnd :: "u32 option"
  mx_initrwnd :: "u32 option"
  mx_hoplimit :: "u32 option"
  mx_rto_min :: "u32 option"
  mx_quickack :: "u32 option"
  mx_reordering :: "u32 option"
  mx_features :: "u32 option"

definition metrics_attrs :: "endian \<Rightarrow> route_metrics \<Rightarrow> opt_attr list" where
  "metrics_attrs e x =
     [opt_u32 e 2 (mx_mtu x), opt_u32 e 8 (mx_advmss x), opt_u32 e 3 (mx_window x), opt_u32 e 4 (mx_rtt x),
      opt_u32 e 5 (mx_rttvar x), opt_u32 e 6 (mx_ssthresh x), opt_u32 e 7 (mx_cwnd x),
      opt_u32 e 11 (mx_initcwnd x), opt_u32 e 14 (mx_initrwnd x), opt_u32 e 10 (mx_hoplimit x),
      opt_u32 e 13 (mx_rto_min x), opt_u32 e 15 (mx_quickack x), opt_u32 e 9 (mx_reordering x),
      opt_u32 e 12 (mx_features x)]"

definition metrics_has_any :: "route_metrics \<Rightarrow> bool" where
  "metrics_has_any x =
     (mx_mtu x \<noteq> None \<or> mx_advmss x \<noteq> None \<or> mx_window x \<noteq> None \<or> mx_rtt x \<noteq> None \<or>
      mx_rttvar x \<noteq> None \<or> mx_ssthresh x \<noteq> None \<or> mx_cwnd x \<noteq> None \<or> mx_initcwnd x \<noteq> None \<or>
      mx_initrwnd x \<noteq> None \<or> mx_hoplimit x \<noteq> None \<or> mx_rto_min x \<noteq> None \<or> mx_quickack x \<noteq> None \<or>
      mx_reordering x \<noteq> None \<or> mx_features x \<noteq> None)"

record next_hop =
  nx_gateway_v4 :: "ipv4 option"
  nx_gateway_v6 :: "ipv6 option"
  nx_dev :: "interface_ref option"
  nx_weight :: u8
  nx_flags :: u8

text \<open>The fields of \<open>Ipv4Route\<close> and \<open>Ipv6Route\<close>; only the latter has a preference.\<close>

record 'a route_config =
  rc_destination :: 'a
  rc_prefix_len :: u8
  rc_gateway :: "'a option"
  rc_prefsrc :: "'a option"
  rc_dev :: "interface_ref option"
  rc_route_type :: route_type
  rc_protocol :: route_protocol
  rc_scope :: "scope option"
  rc_table :: u32
  rc_priority :: "u32 option"
  rc_metrics :: "route_metrics option"
  rc_mark :: "u32 option"
  rc_multipath :: "next_hop list option"
  rc_nexthop_id :: "u32 option"
  rc_mpls_encap :: "mpls_encap option"
  rc_srv6_encap :: "srv6_encap option"

record ipv6_route = "ipv6 route_config" +
  rc_pref :: "u8 option"

definition ipv4_route_from_addr :: "ipv4 \<Rightarrow> u8 \<Rightarrow> ipv4 route_config" where
  "ipv4_route_from_addr destination prefix_len =
     \<lparr>rc_destination = destination, rc_prefix_len = prefix_len, rc_gateway = None, rc_prefsrc = None,
      rc_dev = None, rc_route_type = RtUnicast, rc_protocol = RpBoot, rc_scope = None, rc_table = 254,
      rc_priority = None, rc_metrics = None, rc_mark = None, rc_multipath = None, rc_nexthop_id = None,
      rc_mpls_encap = None, rc_srv6_encap = None\<rparr>"

definition ipv6_route_from_addr :: "ipv6 \<Rightarrow> u8 \<Rightarrow> ipv6_route" where
  "ipv6_route_from_addr destination prefix_len =
     \<lparr>rc_destination = destination, rc_prefix_len = prefix_len, rc_gateway = None, rc_prefsrc = None,
      rc_dev = None, rc_route_type = RtUnicast, rc_protocol = RpBoot, rc_scope = None, rc_table = 254,
      rc_priority = None, rc_metrics = None, rc_mark = None, rc_multipath = None, rc_nexthop_id = None,
      rc_mpls_encap = None, rc_srv6_encap = None, rc_pref = None\<rparr>"

text \<open>The setters that clear other fields.\<close>

definition route_set_gateway :: "'a \<Rightarrow> ('a, 'b) route_config_scheme \<Rightarrow> ('a, 'b) route_config_scheme" where
  "route_set_gateway gateway c = c\<lparr>rc_gateway := Some gateway, rc_multipath := None\<rparr>"

definition route_set_multipath :: "next_hop list \<Rightarrow> ('a, 'b) route_config_scheme \<Rightarrow> ('a, 'b) route_config_scheme" where
  "route_set_multipath nexthops c = c\<lparr>rc_multipath := Some nexthops, rc_gateway := None, rc_nexthop_id := None\<rparr>"

definition route_nexthop_group :: "u32 \<Rightarrow> ('a, 'b) route_config_scheme \<Rightarrow> ('a, 'b) route_config_scheme" where
  "route_nexthop_group group_id c = c\<lparr>rc_nexthop_id := Some group_id, rc_gateway := None, rc_multipath := None\<rparr>"

text \<open>\<open>RouteScope\<close> has the variants and numbers of \<open>Scope\<close>.\<close>

definition unicast_scope :: "('a, 'b) route_config_scheme \<Rightarrow> scope" where
  "unicast_scope c =
     (if rc_gateway c \<noteq> None \<or> rc_multipath c \<noteq> None \<or> rc_nexthop_id c \<noteq> None then ScopeUniverse else ScopeLink)"

definition v4_determine_scope :: "('a, 'b) route_config_scheme \<Rightarrow> scope" where
  "v4_determine_scope c =
     (case rc_scope c of
        Some scope \<Rightarrow> scope
      | None \<Rightarrow>
          if rc_route_type c \<in> {RtLocal, RtNat} then ScopeHost
          else if rc_route_type c \<in> {RtBroadcast, RtMulticast, RtAnycast} then ScopeLink
          else if rc_route_type c \<in> {RtUnicast, RtUnspec} then unicast_scope c
          else ScopeUniverse)"

definition v6_determine_scope :: "('a, 'b) route_config_scheme \<Rightarrow> scope" where
  "v6_determine_scope c =
     (case rc_scope c of
        Some scope \<Rightarrow> scope
      | None \<Rightarrow>
          if rc_route_type c = RtLocal then ScopeHost
          else if rc_route_type c \<in> {RtUnicast, RtUnspec} then unicast_scope c
          else ScopeUniverse)"

record resolved_route_interfaces =
  ri_oif :: "u32 option"
  ri_multipath :: "u32 option list"

definition table_u8 :: "('a, 'b) route_config_scheme \<Rightarrow> u8" where
  "table_u8 c = (if rc_table c > 255 then 0 else ucast (rc_table c))"

definition route_rtmsg :: "u8 \<Rightarrow> scope \<Rightarrow> ('a, 'b) route_config_scheme \<Rightarrow> rt_msg" where
  "route_rtmsg family scope c =
     rt_msg_with_type (route_type_code (rc_route_type c)) (rt_msg_with_scope (scope_code scope)
       (rt_msg_with_protocol (route_protocol_code (rc_protocol c)) (rt_msg_with_table (table_u8 c)
         (rt_msg_with_dst_len (rc_prefix_len c) (rt_msg_with_family family rt_msg_new)))))"

text \<open>The attributes that adding and deleting share, with the octets of the family's addresses.\<close>

definition route_key_attrs :: "endian \<Rightarrow> ('a \<Rightarrow> bytes) \<Rightarrow> u32 option \<Rightarrow> ('a, 'b) route_config_scheme \<Rightarrow> opt_attr list" where
  "route_key_attrs e octets oif c =
     [(1, if rc_prefix_len c > 0 then Some (octets (rc_destination c)) else None),
      (5, map_option octets (rc_gateway c)),
      (7, map_option octets (rc_prefsrc c)),
      opt_u32 e 4 oif,
      opt_u32 e 15 (if rc_table c > 255 then Some (rc_table c) else None),
      opt_u32 e 6 (rc_priority c)]"

definition metrics_calls :: "endian \<Rightarrow> ('a, 'b) route_config_scheme \<Rightarrow> call list" where
  "metrics_calls e c =
     (case rc_metrics c of
        Some x \<Rightarrow> if metrics_has_any x then [Nested 8 (opts (metrics_attrs e x))] else []
      | None \<Rightarrow> [])"

definition multipath_entry :: "endian \<Rightarrow> u32 option list \<Rightarrow> bytes option \<Rightarrow> nat \<Rightarrow> next_hop \<Rightarrow> bytes" where
  "multipath_entry e resolved_indices gateway i nh =
     (let ifindex = (if i < length resolved_indices
            then (case resolved_indices ! i of Some n \<Rightarrow> n | None \<Rightarrow> 0) else 0);
          nh_len = (case gateway of None \<Rightarrow> 8 | Some g \<Rightarrow> 8 + (4 + length g))
      in ne_bytes e 2 (of_nat nh_len :: u16) @ [nx_flags nh] @
         [u8_saturating_sub1 (nx_weight nh)] @ ne_bytes e 4 ifindex @
         (case gateway of None \<Rightarrow> []
          | Some g \<Rightarrow> ne_bytes e 2 (of_nat (4 + length g) :: u16) @ ne_bytes e 2 (5 :: u16) @ g))"

definition multipath_calls :: "endian \<Rightarrow> (next_hop \<Rightarrow> bytes option) \<Rightarrow> resolved_route_interfaces \<Rightarrow>
    ('a, 'b) route_config_scheme \<Rightarrow> call list" where
  "multipath_calls e gateway interfaces c =
     (case rc_multipath c of
        None \<Rightarrow> []
      | Some nexthops \<Rightarrow>
          [Attr 9 (concat (map (\<lambda>(i, nh). multipath_entry e (ri_multipath interfaces) (gateway nh) i nh)
            (enumerate 0 nexthops)))])"

definition encap_calls :: "endian \<Rightarrow> ('a, 'b) route_config_scheme \<Rightarrow> call list" where
  "encap_calls e c =
     (case rc_mpls_encap c of Some enc \<Rightarrow> mpls_encap_calls e enc | None \<Rightarrow> []) @
     (case rc_srv6_encap c of Some enc \<Rightarrow> srv6_encap_calls e enc | None \<Rightarrow> [])"

abbreviation v4_octets :: "ipv4 \<Rightarrow> bytes" where "v4_octets a \<equiv> ip_octets (V4 a)"

abbreviation v6_octets :: "ipv6 \<Rightarrow> bytes" where "v6_octets a \<equiv> ip_octets (V6 a)"

definition v4_route_add :: "endian \<Rightarrow> resolved_route_interfaces \<Rightarrow> ipv4 route_config \<Rightarrow> call list" where
  "v4_route_add e interfaces c =
     Struct (rt_msg_as_bytes e (route_rtmsg 2 (v4_determine_scope c) c)) #
     opts (route_key_attrs e v4_octets (ri_oif interfaces) c @ [opt_u32 e 16 (rc_mark c)]) @
     metrics_calls e c @
     multipath_calls e (\<lambda>nh. map_option v4_octets (nx_gateway_v4 nh)) interfaces c @
     opts [opt_u32 e 30 (rc_nexthop_id c)] @ encap_calls e c"

definition v6_route_add :: "endian \<Rightarrow> resolved_route_interfaces \<Rightarrow> ipv6_route \<Rightarrow> call list" where
  "v6_route_add e interfaces c =
     Struct (rt_msg_as_bytes e (route_rtmsg 10 (v6_determine_scope c) c)) #
     opts (route_key_attrs e v6_octets (ri_oif interfaces) c @ [opt_u32 e 16 (rc_mark c), opt_u8 20 (rc_pref c)]) @
     metrics_calls e c @
     multipath_calls e (\<lambda>nh. map_option v6_octets (nx_gateway_v6 nh)) interfaces c @
     opts [opt_u32 e 30 (rc_nexthop_id c)] @ encap_calls e c"

definition v4_route_delete :: "endian \<Rightarrow> resolved_route_interfaces \<Rightarrow> ipv4 route_config \<Rightarrow> call list" where
  "v4_route_delete e interfaces c =
     Struct (rt_msg_as_bytes e (route_rtmsg 2 (v4_determine_scope c) c)) #
     opts (route_key_attrs e v4_octets (ri_oif interfaces) c)"

definition v6_route_delete :: "endian \<Rightarrow> resolved_route_interfaces \<Rightarrow> ipv6_route \<Rightarrow> call list" where
  "v6_route_delete e interfaces c =
     Struct (rt_msg_as_bytes e (route_rtmsg 10 (v6_determine_scope c) c)) #
     opts (route_key_attrs e v6_octets (ri_oif interfaces) c)"

section \<open>What the typed parsers read in the requests\<close>

abbreviation read_calls :: "endian \<Rightarrow> (u16 \<Rightarrow> bytes \<Rightarrow> 'm \<Rightarrow> 'm) \<Rightarrow> call list \<Rightarrow> 'm \<Rightarrow> 'm" where
  "read_calls e step cs m \<equiv> fold (\<lambda>c. case call_item e c of (k, d) \<Rightarrow> step k d) cs m"

lemma struct_wire: "4 dvd length h \<Longrightarrow> wire_calls e (Struct h # cs) = h @ wire_calls e cs"
  by (simp add: attr_pad_def nla_align_id)

lemma address_request_read:
  assumes "winnow_ok w" "list_all (call_fits e) cs" "list_all is_attr cs"
  shows "fst (address_parse w e (wire_calls e (Struct (if_addr_msg_as_bytes e h) # cs))) =
    Inr (read_calls e (address_attr e (ifa_family h)) cs (address_message_of h))"
  using attr_loop_calls[OF assms, of "address_attr e (ifa_family h)" "address_message_of h"]
  by (simp add: struct_wire if_addr_msg.enc_length address_parse_def pbind_def winnow_take[OF assms(1)] if_addr_msg_back
      del: concat.simps list.map)

lemma route_request_read:
  assumes "winnow_ok w" "list_all (call_fits e) cs" "list_all is_attr cs"
  shows "fst (route_parse w e (wire_calls e (Struct (rt_msg_as_bytes e h) # cs))) =
    Inr (read_calls e (route_attr e (rtm_family h)) cs (route_message_of h))"
  using attr_loop_calls[OF assms, of "route_attr e (rtm_family h)" "route_message_of h"]
  by (simp add: struct_wire rt_msg.enc_length route_parse_def pbind_def winnow_take[OF assms(1)] rt_msg_back
      del: concat.simps list.map)

subsection \<open>Addresses\<close>

definition config_cacheinfo :: "('a, 'b) address_config_scheme \<Rightarrow> address_cache_info option" where
  "config_cacheinfo c =
     (if ac_preferred_lft c = None \<and> ac_valid_lft c = None then None
      else Some \<lparr>ci_preferred = (case ac_preferred_lft c of Some s \<Rightarrow> s | None \<Rightarrow> 0xFFFFFFFF),
                 ci_valid = (case ac_valid_lft c of Some s \<Rightarrow> s | None \<Rightarrow> 0xFFFFFFFF),
                 ci_created = 0, ci_updated = 0\<rparr>)"

definition config_flags :: "('a, 'b) address_config_scheme \<Rightarrow> u32 option" where
  "config_flags c = (if ac_flags c \<noteq> 0 then Some (ac_flags c) else None)"

definition v4_address_read :: "u32 \<Rightarrow> ipv4_address \<Rightarrow> address_message" where
  "v4_address_read ifindex c =
     \<lparr>am_header = add_ifaddr 2 ifindex c,
      am_address = Some (V4 (case ac_peer c of Some p \<Rightarrow> p | None \<Rightarrow> ac_address c)),
      am_local = Some (V4 (ac_address c)), am_label = ac_label c, am_broadcast = map_option V4 (ac_broadcast c),
      am_anycast = None, am_flags = config_flags c, am_cache_info = config_cacheinfo c\<rparr>"

definition v6_address_read :: "u32 \<Rightarrow> ipv6 address_config \<Rightarrow> address_message" where
  "v6_address_read ifindex c =
     \<lparr>am_header = add_ifaddr 10 ifindex c,
      am_address = Some (V6 (case ac_peer c of Some p \<Rightarrow> p | None \<Rightarrow> ac_address c)),
      am_local = Some (V6 (ac_address c)), am_label = None, am_broadcast = None,
      am_anycast = None, am_flags = config_flags c, am_cache_info = config_cacheinfo c\<rparr>"

lemma cacheinfo_back:
  "cacheinfo_bytes e c = Some d \<Longrightarrow> ifa_cacheinfo e d = config_cacheinfo c \<and> length d = 16"
  "cacheinfo_bytes e c = None \<longleftrightarrow> config_cacheinfo c = None"
  by (auto simp: cacheinfo_bytes_def config_cacheinfo_def ifa_cacheinfo_def ne_word_bytes split: if_splits)

lemma address_steps:
  "address_attr e f 6 d m = (case ifa_cacheinfo e d of Some i \<Rightarrow> m\<lparr>am_cache_info := Some i\<rparr> | None \<Rightarrow> m)"
  "address_attr e f 9 d m = m"
  "ip_ok f (Some a) \<Longrightarrow> address_attr e f 1 (ip_octets a) m = m\<lparr>am_address := Some a\<rparr>"
  "ip_ok f (Some a) \<Longrightarrow> address_attr e f 2 (ip_octets a) m = m\<lparr>am_local := Some a\<rparr>"
  "ip_ok f (Some a) \<Longrightarrow> address_attr e f 4 (ip_octets a) m = m\<lparr>am_broadcast := Some a\<rparr>"
  "address_attr e f 3 d m = m\<lparr>am_label := Some (parse_string_from_bytes d)\<rparr>"
  "address_attr e f 8 (ne_bytes e 4 v) m = m\<lparr>am_flags := Some v\<rparr>"
  by (simp_all add: address_attr_def ip_attr_octets ne_word_bytes)

lemma ip_ok_family: "ip_ok 2 (Some (V4 a))" "ip_ok 10 (Some (V6 b))"
  by (simp_all add: ip_ok_def ip_family_def)

definition label_ok :: "string option \<Rightarrow> bool" where
  "label_ok l = (case l of None \<Rightarrow> True | Some l \<Rightarrow>
     length l \<le> 65530 \<and> utf8_valid (bytes_of_str l) \<and> 0 \<notin> set (bytes_of_str l))"

lemma opt_fold_Some: "opt_fold step ((t, Some d) # ats) m = opt_fold step ats (step t d m)"
  by (simp add: opt_fold_def)

lemma opt_fold_if:
  "opt_fold step ((t, if q then Some d else None) # ats) m = opt_fold step ats (if q then step t d m else m)"
  by (simp add: opt_fold_def)

lemma opt_fold_case:
  "opt_fold step ((t, v) # ats) m = opt_fold step ats (case v of None \<Rightarrow> m | Some d \<Rightarrow> step t d m)"
  by (cases v) (simp_all add: opt_fold_def)

lemmas opt_fold_steps = opt_fold_case opt_fold_Nil[OF refl]

lemma cacheinfo_step:
  "(case cacheinfo_bytes e c of None \<Rightarrow> m | Some d \<Rightarrow> address_attr e f 6 d m) =
   (case config_cacheinfo c of None \<Rightarrow> m | Some i \<Rightarrow> m\<lparr>am_cache_info := Some i\<rparr>)"
  using cacheinfo_back[of e c] by (auto simp: address_steps split: option.split)

lemma label_step:
  "label_ok l \<Longrightarrow> (case map_option (\<lambda>l. bytes_of_str l @ [0]) l of None \<Rightarrow> m | Some d \<Rightarrow> address_attr e f 3 d m) =
   (case l of None \<Rightarrow> m | Some _ \<Rightarrow> m\<lparr>am_label := l\<rparr>)"
  by (cases l) (simp_all add: address_steps label_ok_def label_back)

lemma v4_address_fold:
  "label_ok (ac_label c) \<Longrightarrow>
   opt_fold (address_attr e 2) (v4_common_attrs e c) (address_message_of (add_ifaddr 2 ifindex c)) = v4_address_read ifindex c"
  unfolding v4_common_attrs_def opt_fold_steps cacheinfo_step
  by (simp add: label_step address_steps ip_ok_family; cases "ac_broadcast c"; cases "ac_label c";
      cases "config_cacheinfo c"; cases "ac_metric c")
    (simp_all add: address_steps ip_ok_family v4_address_read_def address_message_of_def config_flags_def
      label_ok_def label_back
      del: ip_octets.simps)

lemma v6_address_fold:
  "opt_fold (address_attr e 10) (v6_common_attrs e c) (address_message_of (add_ifaddr 10 ifindex c)) = v6_address_read ifindex c"
  unfolding v6_common_attrs_def opt_fold_steps cacheinfo_step
  by (cases "config_cacheinfo c"; cases "ac_metric c")
    (simp_all add: address_steps ip_ok_family v6_address_read_def address_message_of_def config_flags_def
      del: ip_octets.simps)

lemma add_ifaddr_fields:
  "ifa_family (add_ifaddr f ifindex c) = f" "ifa_index (add_ifaddr f ifindex c) = ifindex"
  "ifa_prefixlen (add_ifaddr f ifindex c) = ac_prefix_len c" "ifa_scope (add_ifaddr f ifindex c) = scope_code (ac_scope c)"
  by (simp_all add: add_ifaddr_def if_addr_msg_with_scope_def if_addr_msg_with_index_def
      if_addr_msg_with_prefixlen_def if_addr_msg_with_family_def)

lemma v4_address_back:
  assumes "winnow_ok w" "label_ok (ac_label c)"
  shows "fst (address_parse w e (wire_calls e (v4_address_add e ifindex c))) = Inr (v4_address_read ifindex c)"
proof -
  have ok: "list_all opt_ok (v4_common_attrs e c)"
    using assms(2)
    by (auto simp: v4_common_attrs_def opt_ok_def label_ok_def dest: cacheinfo_back(1) split: option.splits if_splits)
  show ?thesis
    unfolding v4_address_add_def address_request_read[OF assms(1) opts_fits[OF ok] opts_attr] fold_opts[OF ok]
      add_ifaddr_fields v4_address_fold[OF assms(2)] ..
qed

lemma v6_address_back:
  assumes "winnow_ok w"
  shows "fst (address_parse w e (wire_calls e (v6_address_add e ifindex c))) = Inr (v6_address_read ifindex c)"
proof -
  have ok: "list_all opt_ok (v6_common_attrs e c)"
    by (auto simp: v6_common_attrs_def opt_ok_def dest: cacheinfo_back(1) split: option.splits if_splits)
  show ?thesis
    unfolding v6_address_add_def address_request_read[OF assms opts_fits[OF ok] opts_attr] fold_opts[OF ok]
      add_ifaddr_fields v6_address_fold ..
qed

subsection \<open>Routes\<close>

text \<open>The hops a request carries, as the multipath parser names them.\<close>

definition config_hop :: "u32 option list \<Rightarrow> ip_addr option \<Rightarrow> nat \<Rightarrow> next_hop \<Rightarrow> parsed_next_hop" where
  "config_hop resolved_indices gateway i nh =
     \<lparr>nh_ifindex = (if i < length resolved_indices
        then (case resolved_indices ! i of Some n \<Rightarrow> n | None \<Rightarrow> 0) else 0),
      nh_weight = (if nx_weight nh = 0 then 1 else nx_weight nh),
      nh_flags_byte = nx_flags nh, nh_gateway = gateway\<rparr>"

definition config_hops :: "(next_hop \<Rightarrow> ip_addr option) \<Rightarrow> resolved_route_interfaces \<Rightarrow>
    ('a, 'b) route_config_scheme \<Rightarrow> parsed_next_hop list option" where
  "config_hops gateway interfaces c =
     (case rc_multipath c of
        Some (nh # nhs) \<Rightarrow> Some (map (\<lambda>(i, nh). config_hop (ri_multipath interfaces) (gateway nh) i nh)
          (enumerate 0 (nh # nhs)))
      | _ \<Rightarrow> None)"

definition route_read :: "u8 \<Rightarrow> ('a \<Rightarrow> ip_addr) \<Rightarrow> scope \<Rightarrow> u8 option \<Rightarrow> parsed_next_hop list option \<Rightarrow> u32 option \<Rightarrow>
    ('a, 'b) route_config_scheme \<Rightarrow> route_message" where
  "route_read family ip scope pref hops oif c =
     \<lparr>rm_header = route_rtmsg family scope c,
      rm_destination = (if rc_prefix_len c > 0 then Some (ip (rc_destination c)) else None),
      rm_source = None, rm_iif = None, rm_oif = oif, rm_gateway = map_option ip (rc_gateway c),
      rm_priority = rc_priority c, rm_prefsrc = map_option ip (rc_prefsrc c),
      rm_table = (if rc_table c > 255 then Some (rc_table c) else None), rm_pref = pref,
      rm_expires = None, rm_multipath = hops\<rparr>"

lemma multipath_entry_wire:
  "multipath_entry e resolved (map_option ip_octets gateway) i nh = next_hop_wire e (config_hop resolved gateway i nh)"
proof -
  have "ne_bytes e 2 (of_nat (4 + length g) :: u16) @ ne_bytes e 2 (5 :: u16) @ g = attr_wire e 5 g"
    and "length (attr_wire e 5 g) = 4 + length g" if "g = ip_octets a" for g a
    using that raw_attr_wire[of g "4 + length g" e 5]
    by (cases a; simp add: attr_wire_def nl_attr_as_bytes_def nl_attr_new_def attr_pad_def nla_align_def)+
  then show ?thesis
    by (cases gateway)
      (auto simp: multipath_entry_def next_hop_wire_def config_hop_def opt_wire_simps u8_saturating_sub1_def Let_def add.commute)
qed

lemma route_steps:
  "ip_ok f (Some a) \<Longrightarrow> route_attr e f 1 (ip_octets a) m = m\<lparr>rm_destination := Some a\<rparr>"
  "ip_ok f (Some a) \<Longrightarrow> route_attr e f 5 (ip_octets a) m = m\<lparr>rm_gateway := Some a\<rparr>"
  "ip_ok f (Some a) \<Longrightarrow> route_attr e f 7 (ip_octets a) m = m\<lparr>rm_prefsrc := Some a\<rparr>"
  "route_attr e f 4 (ne_bytes e 4 n) m = m\<lparr>rm_oif := Some n\<rparr>"
  "route_attr e f 15 (ne_bytes e 4 n) m = m\<lparr>rm_table := Some n\<rparr>"
  "route_attr e f 6 (ne_bytes e 4 n) m = m\<lparr>rm_priority := Some n\<rparr>"
  "route_attr e f 20 [b] m = m\<lparr>rm_pref := Some b\<rparr>"
  "route_attr e f 16 d m = m" "route_attr e f 8 d m = m" "route_attr e f 30 d m = m"
  "route_attr e f 21 d m = m" "route_attr e f 22 d m = m"
  by (simp_all add: route_attr_def ip_attr_octets ne_word_bytes)

lemma route_key_fold:
  assumes "\<And>a. ip_ok f (Some (ip a))" "\<And>a. octets a = ip_octets (ip a)"
  shows "opt_fold (route_attr e f) (route_key_attrs e octets oif c @ ats) (route_message_of (route_rtmsg f scope c)) =
    opt_fold (route_attr e f) ats (route_read f ip scope None None oif c)"
proof -
  have "opt_fold (route_attr e f) (route_key_attrs e octets oif c) (route_message_of (route_rtmsg f scope c)) =
      route_read f ip scope None None oif c"
    unfolding route_key_attrs_def opt_fold_steps assms(2)
    by (cases "rc_gateway c"; cases "rc_prefsrc c"; cases oif; cases "rc_priority c")
      (simp_all add: route_steps assms(1) assms(2) route_read_def route_message_of_def)
  moreover have "opt_fold step (xs @ ys) m = opt_fold step ys (opt_fold step xs m)"
    for step :: "u16 \<Rightarrow> bytes \<Rightarrow> route_message \<Rightarrow> route_message" and xs ys m
    by (simp add: opt_fold_def)
  ultimately show ?thesis by simp
qed

lemma multipath_read:
  assumes "\<And>nh. ip_ok f (gateway nh)" "\<And>nh. octets nh = map_option ip_octets (gateway nh)" "rm_multipath m = None"
  shows "read_calls e (route_attr e f) (multipath_calls e octets interfaces c) m =
    m\<lparr>rm_multipath := config_hops gateway interfaces c\<rparr>"
proof (cases "rc_multipath c")
  case (Some nhs)
  let ?hops = "map (\<lambda>(i, nh). config_hop (ri_multipath interfaces) (gateway nh) i nh) (enumerate 0 nhs)"
  have entries: "map (\<lambda>(i, nh). multipath_entry e (ri_multipath interfaces) (octets nh) i nh) (enumerate 0 nhs) =
      map (next_hop_wire e) ?hops"
    by (simp add: multipath_entry_wire assms(2) split_beta)
  have "list_all (next_hop_ok f) ?hops"
    by (auto simp: list_all_iff next_hop_ok_def config_hop_def assms(1) split: if_splits)
  then have hops: "parse_multipath e (concat (map (next_hop_wire e) ?hops)) f = ?hops" by (rule multipath_back)
  have "read_calls e (route_attr e f) (multipath_calls e octets interfaces c) m =
      route_attr e f 9 (concat (map (next_hop_wire e) ?hops)) m"
    unfolding entries[symmetric] by (simp add: multipath_calls_def Some)
  also have "\<dots> = (if nhs \<noteq> [] then m\<lparr>rm_multipath := Some ?hops\<rparr> else m)"
    using hops by (cases nhs) (simp_all add: route_attr_def Let_def del: map_map)
  finally have "read_calls e (route_attr e f) (multipath_calls e octets interfaces c) m =
      (if nhs \<noteq> [] then m\<lparr>rm_multipath := Some ?hops\<rparr> else m)" .
  then show ?thesis using assms(3) by (cases nhs) (simp_all add: config_hops_def Some)
qed (use assms(3) in \<open>simp add: multipath_calls_def config_hops_def\<close>)

lemma ignored_read:
  "read_calls e (route_attr e f) (metrics_calls e c) m = m"
  "read_calls e (route_attr e f) (opts [opt_u32 e 30 n]) m = m"
  "read_calls e (route_attr e f) (encap_calls e c) m = m"
  by (auto simp: metrics_calls_def encap_calls_def mpls_encap_calls_def srv6_encap_calls_def opts_def route_steps
      split: option.split)

lemma route_calls_attr:
  "list_all is_attr (metrics_calls e c)" "list_all is_attr (multipath_calls e g i c)" "list_all is_attr (encap_calls e c)"
  by (auto simp: metrics_calls_def multipath_calls_def encap_calls_def mpls_encap_calls_def srv6_encap_calls_def
      split: option.split)

lemma rtmsg_fields:
  "rtm_family (route_rtmsg f scope c) = f" "rtm_dst_len (route_rtmsg f scope c) = rc_prefix_len c"
  "rtm_table (route_rtmsg f scope c) = table_u8 c" "rtm_protocol (route_rtmsg f scope c) = route_protocol_code (rc_protocol c)"
  "rtm_type (route_rtmsg f scope c) = route_type_code (rc_route_type c)" "rtm_scope (route_rtmsg f scope c) = scope_code scope"
  by (simp_all add: route_rtmsg_def rt_msg_with_type_def rt_msg_with_scope_def rt_msg_with_protocol_def
      rt_msg_with_table_def rt_msg_with_dst_len_def rt_msg_with_family_def)

lemma route_key_ok:
  assumes "\<And>a. length (octets a) \<le> 16"
  shows "list_all opt_ok (route_key_attrs e octets oif c)"
proof -
  have "length (octets a) \<le> 65531" for a using assms[of a] by simp
  then show ?thesis by (auto simp: route_key_attrs_def opt_ok_def split: option.splits if_splits)
qed

lemma opts_append: "opts (xs @ ys) = opts xs @ opts ys"
  by (simp add: opts_def)

text \<open>Both families: the key attributes, a few more, and what the parser reads or ignores.\<close>

lemma route_add_back:
  assumes "winnow_ok w" "\<And>a. ip_ok f (Some (ip a))" "\<And>nh. ip_ok f (gateway nh)"
    and "list_all (call_fits e) (metrics_calls e c @ multipath_calls e (\<lambda>nh. map_option ip_octets (gateway nh)) interfaces c @ encap_calls e c)"
    and "list_all opt_ok ats"
    and "opt_fold (route_attr e f) ats (route_read f ip scope None None (ri_oif interfaces) c) =
      route_read f ip scope pref None (ri_oif interfaces) c"
  shows "fst (route_parse w e (wire_calls e (Struct (rt_msg_as_bytes e (route_rtmsg f scope c)) #
      opts (route_key_attrs e (\<lambda>a. ip_octets (ip a)) (ri_oif interfaces) c @ ats) @ metrics_calls e c @
      multipath_calls e (\<lambda>nh. map_option ip_octets (gateway nh)) interfaces c @
      opts [opt_u32 e 30 n] @ encap_calls e c))) =
    Inr (route_read f ip scope pref (config_hops gateway interfaces c) (ri_oif interfaces) c)"
proof -
  let ?keys = "route_key_attrs e (\<lambda>a. ip_octets (ip a)) (ri_oif interfaces) c"
  have len: "length (ip_octets (ip a)) \<le> 16" for a by (cases "ip a") simp_all
  have keys_ok: "list_all opt_ok (?keys @ ats)" using route_key_ok[OF len] assms(5) by simp
  have nh_ok: "list_all opt_ok [opt_u32 e 30 n]" by (auto simp: opt_ok_def split: option.splits)
  let ?cs = "opts (?keys @ ats) @ metrics_calls e c @
      multipath_calls e (\<lambda>nh. map_option ip_octets (gateway nh)) interfaces c @ opts [opt_u32 e 30 n] @ encap_calls e c"
  have fits: "list_all (call_fits e) ?cs" "list_all is_attr ?cs"
    using assms(4) opts_fits[OF keys_ok, of e] opts_fits[OF nh_ok, of e] by (simp_all add: route_calls_attr opts_attr)
  have hops: "read_calls e (route_attr e f) (multipath_calls e (\<lambda>nh. map_option ip_octets (gateway nh)) interfaces c)
      (route_read f ip scope pref None (ri_oif interfaces) c) =
    route_read f ip scope pref (config_hops gateway interfaces c) (ri_oif interfaces) c"
    by (subst multipath_read[OF assms(3) refl]) (simp_all add: route_read_def)
  show ?thesis
    unfolding route_request_read[OF assms(1) fits] fold_append o_apply fold_opts[OF keys_ok] rtmsg_fields
      route_key_fold[OF assms(2) refl] assms(6) ignored_read hops ..
qed

lemma route_request_back:
  assumes "winnow_ok w" "list_all (call_fits e) (tl (v4_route_add e i c))" "list_all (call_fits e) (tl (v6_route_add e i c6))"
  shows "fst (route_parse w e (wire_calls e (v4_route_add e i c))) =
      Inr (route_read 2 V4 (v4_determine_scope c) None (config_hops (\<lambda>nh. map_option V4 (nx_gateway_v4 nh)) i c) (ri_oif i) c) \<and>
    fst (route_parse w e (wire_calls e (v6_route_add e i c6))) =
      Inr (route_read 10 V6 (v6_determine_scope c6) (rc_pref c6)
        (config_hops (\<lambda>nh. map_option V6 (nx_gateway_v6 nh)) i c6) (ri_oif i) c6)"
proof
  have gw: "ip_ok 2 (map_option V4 a)" "ip_ok 10 (map_option V6 b)" for a b
    by (cases a; cases b; simp add: ip_ok_def ip_family_def)+
  have oct: "map_option v4_octets a = map_option ip_octets (map_option V4 a)"
    "map_option v6_octets b = map_option ip_octets (map_option V6 b)" for a b
    by (cases a; cases b; simp)+
  have pick: "list_all (call_fits e) (tl (x # as @ ms @ ps @ ns @ es)) \<Longrightarrow> list_all (call_fits e) (ms @ ps @ es)"
    for x as ms ps ns es by simp
  show "fst (route_parse w e (wire_calls e (v4_route_add e i c))) =
      Inr (route_read 2 V4 (v4_determine_scope c) None (config_hops (\<lambda>nh. map_option V4 (nx_gateway_v4 nh)) i c) (ri_oif i) c)"
    unfolding v4_route_add_def oct
    by (rule route_add_back[OF assms(1) ip_ok_family(1) gw(1) pick[OF assms(2)[unfolded v4_route_add_def oct]]])
      (auto simp: opt_ok_def opt_fold_def route_steps split: option.splits)
  show "fst (route_parse w e (wire_calls e (v6_route_add e i c6))) =
      Inr (route_read 10 V6 (v6_determine_scope c6) (rc_pref c6)
        (config_hops (\<lambda>nh. map_option V6 (nx_gateway_v6 nh)) i c6) (ri_oif i) c6)"
    unfolding v6_route_add_def oct
    by (rule route_add_back[OF assms(1) ip_ok_family(2) gw(2) pick[OF assms(3)[unfolded v6_route_add_def oct]]])
      (auto simp: opt_ok_def opt_fold_def route_steps route_read_def split: option.splits)
qed

lemma route_delete_back:
  assumes "winnow_ok w" "\<And>a. ip_ok f (Some (ip a))"
  shows "fst (route_parse w e (wire_calls e (Struct (rt_msg_as_bytes e (route_rtmsg f scope c)) #
      opts (route_key_attrs e (\<lambda>a. ip_octets (ip a)) oif c)))) = Inr (route_read f ip scope None None oif c)"
proof -
  have len: "length (ip_octets (ip a)) \<le> 16" for a by (cases "ip a") simp_all
  note ok = route_key_ok[OF len, where e = e and oif = oif and c = c]
  show ?thesis
    unfolding route_request_read[OF assms(1) opts_fits[OF ok] opts_attr] fold_opts[OF ok] rtmsg_fields
    using route_key_fold[OF assms(2) refl, where e = e and ats = "[]"] by (simp add: opt_fold_def)
qed

end
