(* ===== verification/Link_Config.thy ===== *)
theory Link_Config
  imports Builder_Calls Net_Config Rtnl_Config
begin

text \<open>
  The link configurations of \<open>netlink/link.rs\<close> that a declared configuration can ask for, as
  the trait \<open>LinkConfig\<close> sees them: name, kind, peer, parent and what \<open>write_to\<close> puts into the
  request; the check of interface names (\<open>util/ifname.rs\<close>).  Everything every kind has in
  common is written by \<open>link_calls\<close>: the parser of link messages reads it back.
\<close>

section \<open>Interface names\<close>

text \<open>The white space of Unicode in UTF-8, at the start of a text.\<close>

definition white_at :: "bytes \<Rightarrow> bool" where
  "white_at bs =
     (take 1 bs \<in> {[9], [10], [11], [12], [13], [32]} \<or>
      take 2 bs \<in> {[0xC2, 0x85], [0xC2, 0xA0]} \<or>
      take 3 bs \<in> {[0xE1, 0x9A, 0x80], [0xE2, 0x80, 0xA8], [0xE2, 0x80, 0xA9], [0xE2, 0x80, 0xAF],
                   [0xE2, 0x81, 0x9F], [0xE3, 0x80, 0x80]} \<or>
      take 2 bs = [0xE2, 0x80] \<and> 3 \<le> length bs \<and> 0x80 \<le> bs ! 2 \<and> bs ! 2 \<le> 0x8A)"

fun has_white :: "bytes \<Rightarrow> bool" where
  "has_white [] = False"
| "has_white (b # bs) = (white_at (b # bs) \<or> has_white bs)"

definition ifname_validate :: "string \<Rightarrow> if_error + unit" where
  "ifname_validate name =
     (if name = [] then Inl (IfInvalidName ''empty name'')
      else if length name \<ge> 16 then Inl (IfInvalidName ''name too long (max 15 chars)'')
      else if CHR ''/'' \<in> set name \<or> CHR 0x00 \<in> set name then Inl (IfInvalidName ''name contains invalid characters'')
      else if has_white (bytes_of_str name) then Inl (IfInvalidName ''name contains whitespace'')
      else Inr ())"

section \<open>The trait\<close>

text \<open>
  \<open>write_to\<close> takes the index of the resolved parent; the kinds that must have one panic
  without it, the value \<open>None\<close>.
\<close>

record link_config =
  lc_name :: string
  lc_kind :: string
  lc_peer_name :: "string option"
  lc_parent_ref :: "interface_ref option"
  lc_write_to :: "endian \<Rightarrow> u32 option \<Rightarrow> call list option"

text \<open>
  What the writers share: the name, the optional attributes of the link, and the nest with the
  kind and the data of the kind.
\<close>

definition link_calls :: "string \<Rightarrow> opt_attr list \<Rightarrow> string \<Rightarrow> call list option \<Rightarrow> call list" where
  "link_calls name ats kind data =
     attr_str 3 name # opts ats @
     [Nested 18 (attr_str 1 kind # (case data of None \<Rightarrow> [] | Some ds \<Rightarrow> [Nested 2 ds]))]"

abbreviation link_mtu :: "endian \<Rightarrow> u32 option \<Rightarrow> opt_attr" where
  "link_mtu e mtu \<equiv> opt_u32 e 4 mtu"

abbreviation link_mac :: "bytes option \<Rightarrow> opt_attr" where
  "link_mac address \<equiv> (1, address)"

abbreviation opt_v4 :: "u16 \<Rightarrow> ipv4 option \<Rightarrow> opt_attr" where
  "opt_v4 t a \<equiv> (t, map_option (\<lambda>a. ip_octets (V4 a)) a)"

abbreviation opt_v6 :: "u16 \<Rightarrow> ipv6 option \<Rightarrow> opt_attr" where
  "opt_v6 t a \<equiv> (t, map_option (\<lambda>a. ip_octets (V6 a)) a)"

abbreviation opt_u16_be :: "u16 \<Rightarrow> u16 option \<Rightarrow> opt_attr" where
  "opt_u16_be t v \<equiv> (t, map_option (be_bytes 2) v)"

abbreviation opt_u32_be :: "u16 \<Rightarrow> u32 option \<Rightarrow> opt_attr" where
  "opt_u32_be t v \<equiv> (t, map_option (be_bytes 4) v)"

abbreviation opt_flag :: "u16 \<Rightarrow> bool \<Rightarrow> opt_attr" where
  "opt_flag t b \<equiv> (t, if b then Some [] else None)"

definition simple_link_calls :: "endian \<Rightarrow> string \<Rightarrow> string \<Rightarrow> u32 option \<Rightarrow> bytes option \<Rightarrow> call list" where
  "simple_link_calls e name kind mtu address = link_calls name [link_mtu e mtu, link_mac address] kind None"

section \<open>Dummy, IFB, OpenVPN and VRF\<close>

record dummy_link =
  du_name :: string
  du_mtu :: "u32 option"
  du_address :: "bytes option"

definition dummy_link_new :: "string \<Rightarrow> dummy_link" where
  "dummy_link_new name = \<lparr>du_name = name, du_mtu = None, du_address = None\<rparr>"

definition dummy_config :: "dummy_link \<Rightarrow> link_config" where
  "dummy_config c =
     \<lparr>lc_name = du_name c, lc_kind = ''dummy'', lc_peer_name = None, lc_parent_ref = None,
      lc_write_to = (\<lambda>e _. Some (simple_link_calls e (du_name c) ''dummy'' (du_mtu c) (du_address c)))\<rparr>"

record ifb_link =
  if_name :: string
  if_mtu :: "u32 option"

definition ifb_link_new :: "string \<Rightarrow> ifb_link" where
  "ifb_link_new name = \<lparr>if_name = name, if_mtu = None\<rparr>"

definition ifb_config :: "ifb_link \<Rightarrow> link_config" where
  "ifb_config c =
     \<lparr>lc_name = if_name c, lc_kind = ''ifb'', lc_peer_name = None, lc_parent_ref = None,
      lc_write_to = (\<lambda>e _. Some (simple_link_calls e (if_name c) ''ifb'' (if_mtu c) None))\<rparr>"

record ovpn_link =
  ov_name :: string
  ov_mtu :: "u32 option"

definition ovpn_link_new :: "string \<Rightarrow> ovpn_link" where
  "ovpn_link_new name = \<lparr>ov_name = name, ov_mtu = None\<rparr>"

definition ovpn_config :: "ovpn_link \<Rightarrow> link_config" where
  "ovpn_config c =
     \<lparr>lc_name = ov_name c, lc_kind = ''ovpn'', lc_peer_name = None, lc_parent_ref = None,
      lc_write_to = (\<lambda>e _. Some (simple_link_calls e (ov_name c) ''ovpn'' (ov_mtu c) None))\<rparr>"

record vrf_link =
  vr_name :: string
  vr_table :: u32
  vr_mtu :: "u32 option"

definition vrf_link_new :: "string \<Rightarrow> u32 \<Rightarrow> vrf_link" where
  "vrf_link_new name table = \<lparr>vr_name = name, vr_table = table, vr_mtu = None\<rparr>"

definition vrf_config :: "vrf_link \<Rightarrow> link_config" where
  "vrf_config c =
     \<lparr>lc_name = vr_name c, lc_kind = ''vrf'', lc_peer_name = None, lc_parent_ref = None,
      lc_write_to = (\<lambda>e _. Some (link_calls (vr_name c) [link_mtu e (vr_mtu c)] ''vrf''
        (Some [Attr 1 (ne_bytes e 4 (vr_table c))])))\<rparr>"

section \<open>Pairs\<close>

record veth_link =
  ve_name :: string
  ve_peer_name :: string
  ve_mtu :: "u32 option"
  ve_address :: "bytes option"
  ve_peer_address :: "bytes option"
  ve_peer_netns_fd :: "i32 option"
  ve_peer_netns_pid :: "u32 option"

definition veth_link_new :: "string \<Rightarrow> string \<Rightarrow> veth_link" where
  "veth_link_new name peer_name =
     \<lparr>ve_name = name, ve_peer_name = peer_name, ve_mtu = None, ve_address = None, ve_peer_address = None,
      ve_peer_netns_fd = None, ve_peer_netns_pid = None\<rparr>"

text \<open>The last call decides the namespace of the peer.\<close>

definition veth_set_netns_fd :: "i32 \<Rightarrow> veth_link \<Rightarrow> veth_link" where
  "veth_set_netns_fd fd c = c\<lparr>ve_peer_netns_fd := Some fd, ve_peer_netns_pid := None\<rparr>"

definition veth_set_netns_pid :: "u32 \<Rightarrow> veth_link \<Rightarrow> veth_link" where
  "veth_set_netns_pid pid c = c\<lparr>ve_peer_netns_pid := Some pid, ve_peer_netns_fd := None\<rparr>"

definition veth_peer_calls :: "endian \<Rightarrow> veth_link \<Rightarrow> call list" where
  "veth_peer_calls e c =
     Struct (if_info_msg_as_bytes e if_info_msg_new) # attr_str 3 (ve_peer_name c) #
     opts [link_mtu e (ve_mtu c), link_mac (ve_peer_address c),
           opt_u32 e 28 (ve_peer_netns_fd c),
           opt_u32 e 19 (if ve_peer_netns_fd c = None then ve_peer_netns_pid c else None)]"

definition veth_config :: "veth_link \<Rightarrow> link_config" where
  "veth_config c =
     \<lparr>lc_name = ve_name c, lc_kind = ''veth'', lc_peer_name = Some (ve_peer_name c), lc_parent_ref = None,
      lc_write_to = (\<lambda>e _. Some (link_calls (ve_name c) [link_mtu e (ve_mtu c), link_mac (ve_address c)] ''veth''
        (Some [Nested 1 (veth_peer_calls e c)])))\<rparr>"

fun netkit_mode_code :: "netkit_mode \<Rightarrow> u32" where
  "netkit_mode_code NetkitL2 = 0"
| "netkit_mode_code NetkitL3 = 1"

fun netkit_policy_code :: "netkit_policy \<Rightarrow> u32" where
  "netkit_policy_code NetkitForward = 0"
| "netkit_policy_code NetkitBlackhole = 2"

fun netkit_scrub_code :: "netkit_scrub \<Rightarrow> u32" where
  "netkit_scrub_code ScrubNone = 0"
| "netkit_scrub_code ScrubDefault = 1"

record netkit_link =
  nk_name :: string
  nk_peer_name :: string
  nk_mode :: "netkit_mode option"
  nk_policy :: "netkit_policy option"
  nk_peer_policy :: "netkit_policy option"
  nk_scrub :: "netkit_scrub option"
  nk_peer_scrub :: "netkit_scrub option"
  nk_mtu :: "u32 option"

definition netkit_link_new :: "string \<Rightarrow> string \<Rightarrow> netkit_link" where
  "netkit_link_new name peer_name =
     \<lparr>nk_name = name, nk_peer_name = peer_name, nk_mode = None, nk_policy = None, nk_peer_policy = None,
      nk_scrub = None, nk_peer_scrub = None, nk_mtu = None\<rparr>"

definition netkit_data :: "endian \<Rightarrow> netkit_link \<Rightarrow> call list" where
  "netkit_data e c =
     opts [opt_u32 e 4 (map_option netkit_mode_code (nk_mode c)),
           opt_u32 e 2 (map_option netkit_policy_code (nk_policy c)),
           opt_u32 e 3 (map_option netkit_policy_code (nk_peer_policy c)),
           opt_u32 e 5 (map_option netkit_scrub_code (nk_scrub c)),
           opt_u32 e 6 (map_option netkit_scrub_code (nk_peer_scrub c))] @
     [Nested 1 [Struct (if_info_msg_as_bytes e if_info_msg_new), attr_str 3 (nk_peer_name c)]]"

definition netkit_config :: "netkit_link \<Rightarrow> link_config" where
  "netkit_config c =
     \<lparr>lc_name = nk_name c, lc_kind = ''netkit'', lc_peer_name = Some (nk_peer_name c), lc_parent_ref = None,
      lc_write_to = (\<lambda>e _. Some (link_calls (nk_name c) [link_mtu e (nk_mtu c)] ''netkit'' (Some (netkit_data e c))))\<rparr>"

section \<open>Bridges\<close>

record bridge_link =
  br_name :: string
  br_mtu :: "u32 option"
  br_address :: "bytes option"
  br_forward_delay :: "u32 option"
  br_hello_time :: "u32 option"
  br_max_age :: "u32 option"
  br_ageing_time :: "u32 option"
  br_stp_state :: "u32 option"
  br_priority :: "u16 option"
  br_vlan_filtering :: "bool option"
  br_vlan_default_pvid :: "u16 option"

definition bridge_link_new :: "string \<Rightarrow> bridge_link" where
  "bridge_link_new name =
     \<lparr>br_name = name, br_mtu = None, br_address = None, br_forward_delay = None, br_hello_time = None,
      br_max_age = None, br_ageing_time = None, br_stp_state = None, br_priority = None,
      br_vlan_filtering = None, br_vlan_default_pvid = None\<rparr>"

text \<open>The setters that convert; the multiplication overflows from 42949673 seconds on.\<close>

definition bridge_set_forward_delay_ms :: "u32 \<Rightarrow> bridge_link \<Rightarrow> bridge_link" where
  "bridge_set_forward_delay_ms ms c = c\<lparr>br_forward_delay := Some (ms div 10)\<rparr>"

definition bridge_set_ageing_time :: "u32 \<Rightarrow> bridge_link \<Rightarrow> bridge_link option" where
  "bridge_set_ageing_time seconds c =
     (if unat seconds * 100 < 2 ^ 32 then Some (c\<lparr>br_ageing_time := Some (seconds * 100)\<rparr>) else None)"

definition bridge_attrs :: "endian \<Rightarrow> bridge_link \<Rightarrow> opt_attr list" where
  "bridge_attrs e c =
     [opt_u32 e 1 (br_forward_delay c), opt_u32 e 2 (br_hello_time c), opt_u32 e 3 (br_max_age c),
      opt_u32 e 4 (br_ageing_time c), opt_u32 e 5 (br_stp_state c), opt_u16 e 6 (br_priority c),
      opt_bool 7 (br_vlan_filtering c), opt_u16 e 39 (br_vlan_default_pvid c)]"

definition bridge_has_options :: "bridge_link \<Rightarrow> bool" where
  "bridge_has_options c =
     (br_forward_delay c \<noteq> None \<or> br_hello_time c \<noteq> None \<or> br_max_age c \<noteq> None \<or> br_ageing_time c \<noteq> None \<or>
      br_stp_state c \<noteq> None \<or> br_priority c \<noteq> None \<or> br_vlan_filtering c \<noteq> None \<or> br_vlan_default_pvid c \<noteq> None)"

definition bridge_config :: "bridge_link \<Rightarrow> link_config" where
  "bridge_config c =
     \<lparr>lc_name = br_name c, lc_kind = ''bridge'', lc_peer_name = None, lc_parent_ref = None,
      lc_write_to = (\<lambda>e _. Some (link_calls (br_name c) [link_mtu e (br_mtu c), link_mac (br_address c)] ''bridge''
        (if bridge_has_options c then Some (opts (bridge_attrs e c)) else None)))\<rparr>"

section \<open>Links on a parent\<close>

fun vlan_protocol_code :: "vlan_protocol \<Rightarrow> u16" where
  "vlan_protocol_code Dot1q = 0x8100"
| "vlan_protocol_code Dot1ad = 0x88a8"

record vlan_flags =
  vf_flags :: u32
  vf_mask :: u32

record vlan_link =
  vl_name :: string
  vl_parent :: interface_ref
  vl_id :: u16
  vl_mtu :: "u32 option"
  vl_address :: "bytes option"
  vl_protocol :: "u16 option"
  vl_flags :: vlan_flags

definition vlan_link_new :: "string \<Rightarrow> string \<Rightarrow> u16 \<Rightarrow> vlan_link" where
  "vlan_link_new name parent vlan_id =
     \<lparr>vl_name = name, vl_parent = Name parent, vl_id = vlan_id, vl_mtu = None, vl_address = None,
      vl_protocol = None, vl_flags = \<lparr>vf_flags = 0, vf_mask = 0\<rparr>\<rparr>"

text \<open>\<open>gvrp\<close>, \<open>mvrp\<close>, \<open>loose_binding\<close> and \<open>reorder_hdr\<close>, by the flag.\<close>

definition vlan_set_flag :: "u32 \<Rightarrow> bool \<Rightarrow> vlan_link \<Rightarrow> vlan_link" where
  "vlan_set_flag flag enabled c =
     (let f = vl_flags c
      in c\<lparr>vl_flags := \<lparr>vf_flags = (if enabled then vf_flags f OR flag else vf_flags f AND NOT flag),
                      vf_mask = vf_mask f OR flag\<rparr>\<rparr>)"

definition vlan_data :: "endian \<Rightarrow> vlan_link \<Rightarrow> call list" where
  "vlan_data e c =
     opts [opt_u16 e 1 (Some (vl_id c)), opt_u16_be 5 (vl_protocol c),
           (2, if vf_mask (vl_flags c) \<noteq> 0
               then Some (ne_bytes e 4 (vf_flags (vl_flags c)) @ ne_bytes e 4 (vf_mask (vl_flags c))) else None)]"

definition vlan_config :: "vlan_link \<Rightarrow> link_config" where
  "vlan_config c =
     \<lparr>lc_name = vl_name c, lc_kind = ''vlan'', lc_peer_name = None, lc_parent_ref = Some (vl_parent c),
      lc_write_to = (\<lambda>e parent_index. case parent_index of None \<Rightarrow> None | Some idx \<Rightarrow>
        Some (link_calls (vl_name c) [opt_u32 e 5 (Some idx), link_mtu e (vl_mtu c), link_mac (vl_address c)] ''vlan''
          (Some (vlan_data e c))))\<rparr>"

fun macvlan_mode_code :: "macvlan_mode \<Rightarrow> u32" where
  "macvlan_mode_code MvPrivate = 1"
| "macvlan_mode_code MvVepa = 2"
| "macvlan_mode_code MvBridge = 4"
| "macvlan_mode_code MvPassthru = 8"
| "macvlan_mode_code MvSource = 16"

record macvlan_link =
  mv_name :: string
  mv_parent :: interface_ref
  mv_mode :: macvlan_mode
  mv_mtu :: "u32 option"
  mv_address :: "bytes option"

definition macvlan_link_new :: "string \<Rightarrow> string \<Rightarrow> macvlan_link" where
  "macvlan_link_new name parent =
     \<lparr>mv_name = name, mv_parent = Name parent, mv_mode = MvBridge, mv_mtu = None, mv_address = None\<rparr>"

definition macvlan_calls :: "endian \<Rightarrow> string \<Rightarrow> macvlan_link \<Rightarrow> u32 option \<Rightarrow> call list option" where
  "macvlan_calls e kind c parent_index =
     (case parent_index of None \<Rightarrow> None | Some idx \<Rightarrow>
        Some (link_calls (mv_name c) [opt_u32 e 5 (Some idx), link_mtu e (mv_mtu c), link_mac (mv_address c)] kind
          (Some [Attr 1 (ne_bytes e 4 (macvlan_mode_code (mv_mode c)))])))"

definition macvlan_config :: "macvlan_link \<Rightarrow> link_config" where
  "macvlan_config c =
     \<lparr>lc_name = mv_name c, lc_kind = ''macvlan'', lc_peer_name = None, lc_parent_ref = Some (mv_parent c),
      lc_write_to = (\<lambda>e. macvlan_calls e ''macvlan'' c)\<rparr>"

record vxlan_link =
  vx_name :: string
  vx_vni :: u32
  vx_mtu :: "u32 option"
  vx_address :: "bytes option"
  vx_local :: "ipv4 option"
  vx_remote :: "ipv4 option"
  vx_group :: "ipv4 option"
  vx_dev :: "interface_ref option"
  vx_port :: "u16 option"
  vx_port_range :: "(u16 \<times> u16) option"
  vx_ttl :: "u8 option"
  vx_tos :: "u8 option"
  vx_learning :: "bool option"
  vx_proxy :: "bool option"
  vx_rsc :: "bool option"
  vx_l2miss :: "bool option"
  vx_l3miss :: "bool option"
  vx_udp_csum :: "bool option"

definition vxlan_link_new :: "string \<Rightarrow> u32 \<Rightarrow> vxlan_link" where
  "vxlan_link_new name vni =
     \<lparr>vx_name = name, vx_vni = vni, vx_mtu = None, vx_address = None, vx_local = None, vx_remote = None,
      vx_group = None, vx_dev = None, vx_port = None, vx_port_range = None, vx_ttl = None, vx_tos = None,
      vx_learning = None, vx_proxy = None, vx_rsc = None, vx_l2miss = None, vx_l3miss = None, vx_udp_csum = None\<rparr>"

definition vxlan_attrs :: "endian \<Rightarrow> vxlan_link \<Rightarrow> u32 option \<Rightarrow> opt_attr list" where
  "vxlan_attrs e c parent_index =
     [opt_u32 e 1 (Some (vx_vni c)), opt_v4 4 (vx_local c),
      opt_v4 2 (case vx_remote c of Some a \<Rightarrow> Some a | None \<Rightarrow> vx_group c),
      opt_u32 e 3 parent_index, opt_u16_be 15 (vx_port c),
      (10, map_option (\<lambda>(low, high). be_bytes 2 low @ be_bytes 2 high) (vx_port_range c)),
      opt_u8 5 (vx_ttl c), opt_u8 6 (vx_tos c), opt_bool 7 (vx_learning c), opt_bool 11 (vx_proxy c),
      opt_bool 12 (vx_rsc c), opt_bool 13 (vx_l2miss c), opt_bool 14 (vx_l3miss c), opt_bool 18 (vx_udp_csum c)]"

definition vxlan_config :: "vxlan_link \<Rightarrow> link_config" where
  "vxlan_config c =
     \<lparr>lc_name = vx_name c, lc_kind = ''vxlan'', lc_peer_name = None, lc_parent_ref = vx_dev c,
      lc_write_to = (\<lambda>e parent_index. Some (link_calls (vx_name c) [link_mtu e (vx_mtu c), link_mac (vx_address c)]
        ''vxlan'' (Some (opts (vxlan_attrs e c parent_index)))))\<rparr>"

section \<open>Bonds\<close>

text \<open>The modes of the link layer; the declared mode \<open>Ieee802_3ad\<close> is its \<open>Lacp\<close>.\<close>

fun bond_mode_code :: "bond_mode \<Rightarrow> u8" where
  "bond_mode_code BalanceRr = 0"
| "bond_mode_code ActiveBackup = 1"
| "bond_mode_code BalanceXor = 2"
| "bond_mode_code Broadcast = 3"
| "bond_mode_code Ieee802_3ad = 4"
| "bond_mode_code BalanceTlb = 5"
| "bond_mode_code BalanceAlb = 6"

datatype xmit_hash_policy = Layer2 | Layer34 | Layer23 | Encap23 | Encap34 | VlanSrcMac

fun xmit_hash_policy_code :: "xmit_hash_policy \<Rightarrow> u8" where
  "xmit_hash_policy_code Layer2 = 0"
| "xmit_hash_policy_code Layer34 = 1"
| "xmit_hash_policy_code Layer23 = 2"
| "xmit_hash_policy_code Encap23 = 3"
| "xmit_hash_policy_code Encap34 = 4"
| "xmit_hash_policy_code VlanSrcMac = 5"

definition xmit_hash_policy_try_from :: "u8 \<Rightarrow> xmit_hash_policy option" where
  "xmit_hash_policy_try_from v =
     (if v = 0 then Some Layer2 else if v = 1 then Some Layer34 else if v = 2 then Some Layer23
      else if v = 3 then Some Encap23 else if v = 4 then Some Encap34 else if v = 5 then Some VlanSrcMac else None)"

datatype primary_reselect = ReselectAlways | ReselectBetter | ReselectFailure

fun primary_reselect_code :: "primary_reselect \<Rightarrow> u8" where
  "primary_reselect_code ReselectAlways = 0"
| "primary_reselect_code ReselectBetter = 1"
| "primary_reselect_code ReselectFailure = 2"

datatype fail_over_mac = FailOverNone | FailOverActive | FailOverFollow

fun fail_over_mac_code :: "fail_over_mac \<Rightarrow> u8" where
  "fail_over_mac_code FailOverNone = 0"
| "fail_over_mac_code FailOverActive = 1"
| "fail_over_mac_code FailOverFollow = 2"

datatype arp_validate = ArpNone | ArpActive | ArpBackup | ArpAll | ArpFilterActive | ArpFilterBackup

fun arp_validate_code :: "arp_validate \<Rightarrow> u32" where
  "arp_validate_code ArpNone = 0"
| "arp_validate_code ArpActive = 1"
| "arp_validate_code ArpBackup = 2"
| "arp_validate_code ArpAll = 3"
| "arp_validate_code ArpFilterActive = 4"
| "arp_validate_code ArpFilterBackup = 5"

fun lacp_rate_code :: "lacp_rate \<Rightarrow> u8" where
  "lacp_rate_code LacpSlow = 0"
| "lacp_rate_code LacpFast = 1"

fun ad_select_code :: "ad_select \<Rightarrow> u8" where
  "ad_select_code AdStable = 0"
| "ad_select_code AdBandwidth = 1"
| "ad_select_code AdCount = 2"

record bond_link =
  bo_name :: string
  bo_mode :: bond_mode
  bo_mtu :: "u32 option"
  bo_address :: "bytes option"
  bo_miimon :: "u32 option"
  bo_updelay :: "u32 option"
  bo_downdelay :: "u32 option"
  bo_use_carrier :: "bool option"
  bo_arp_interval :: "u32 option"
  bo_arp_ip_targets :: "ipv4 list"
  bo_arp_validate :: "arp_validate option"
  bo_arp_all_targets :: "u32 option"
  bo_primary_reselect :: "primary_reselect option"
  bo_fail_over_mac :: "fail_over_mac option"
  bo_xmit_hash_policy :: "xmit_hash_policy option"
  bo_min_links :: "u32 option"
  bo_packets_per_slave :: "u32 option"
  bo_lacp_rate :: "lacp_rate option"
  bo_ad_select :: "ad_select option"
  bo_ad_actor_sys_prio :: "u16 option"
  bo_ad_user_port_key :: "u16 option"
  bo_ad_actor_system :: "bytes option"
  bo_lacp_active :: "bool option"
  bo_all_slaves_active :: "bool option"
  bo_resend_igmp :: "u32 option"
  bo_num_peer_notif :: "u8 option"
  bo_lp_interval :: "u32 option"
  bo_tlb_dynamic_lb :: "bool option"
  bo_peer_notif_delay :: "u32 option"
  bo_missed_max :: "u8 option"
  bo_coupled_control :: "bool option"

definition bond_link_new :: "string \<Rightarrow> bond_link" where
  "bond_link_new name =
     \<lparr>bo_name = name, bo_mode = BalanceRr, bo_mtu = None, bo_address = None, bo_miimon = None, bo_updelay = None,
      bo_downdelay = None, bo_use_carrier = None, bo_arp_interval = None, bo_arp_ip_targets = [],
      bo_arp_validate = None, bo_arp_all_targets = None, bo_primary_reselect = None, bo_fail_over_mac = None,
      bo_xmit_hash_policy = None, bo_min_links = None, bo_packets_per_slave = None, bo_lacp_rate = None,
      bo_ad_select = None, bo_ad_actor_sys_prio = None, bo_ad_user_port_key = None, bo_ad_actor_system = None,
      bo_lacp_active = None, bo_all_slaves_active = None, bo_resend_igmp = None, bo_num_peer_notif = None,
      bo_lp_interval = None, bo_tlb_dynamic_lb = None, bo_peer_notif_delay = None, bo_missed_max = None,
      bo_coupled_control = None\<rparr>"

definition bond_attrs :: "endian \<Rightarrow> bond_link \<Rightarrow> opt_attr list" where
  "bond_attrs e c =
     [opt_u8 1 (Some (bond_mode_code (bo_mode c))), opt_u32 e 3 (bo_miimon c), opt_u32 e 4 (bo_updelay c),
      opt_u32 e 5 (bo_downdelay c), opt_bool 6 (bo_use_carrier c), opt_u32 e 7 (bo_arp_interval c),
      opt_u32 e 9 (map_option arp_validate_code (bo_arp_validate c)), opt_u32 e 10 (bo_arp_all_targets c),
      opt_u8 12 (map_option primary_reselect_code (bo_primary_reselect c)),
      opt_u8 13 (map_option fail_over_mac_code (bo_fail_over_mac c)),
      opt_u8 14 (map_option xmit_hash_policy_code (bo_xmit_hash_policy c)),
      opt_u32 e 15 (bo_resend_igmp c), opt_u8 16 (bo_num_peer_notif c), opt_bool 17 (bo_all_slaves_active c),
      opt_u32 e 18 (bo_min_links c), opt_u32 e 19 (bo_lp_interval c), opt_u32 e 20 (bo_packets_per_slave c),
      opt_u8 21 (map_option lacp_rate_code (bo_lacp_rate c)), opt_u8 22 (map_option ad_select_code (bo_ad_select c)),
      opt_u16 e 24 (bo_ad_actor_sys_prio c), opt_u16 e 25 (bo_ad_user_port_key c), (26, bo_ad_actor_system c),
      opt_bool 27 (bo_tlb_dynamic_lb c), opt_u32 e 28 (bo_peer_notif_delay c), opt_bool 29 (bo_lacp_active c),
      opt_u8 30 (bo_missed_max c), opt_bool 32 (bo_coupled_control c)]"

definition bond_data :: "endian \<Rightarrow> bond_link \<Rightarrow> call list" where
  "bond_data e c =
     opts (bond_attrs e c) @
     (if bo_arp_ip_targets c = [] then []
      else [Nested 8 (map (\<lambda>(i, addr). Attr (of_nat i) (ip_octets (V4 addr))) (enumerate 0 (bo_arp_ip_targets c)))])"

definition bond_config :: "bond_link \<Rightarrow> link_config" where
  "bond_config c =
     \<lparr>lc_name = bo_name c, lc_kind = ''bond'', lc_peer_name = None, lc_parent_ref = None,
      lc_write_to = (\<lambda>e _. Some (link_calls (bo_name c) [link_mtu e (bo_mtu c), link_mac (bo_address c)] ''bond''
        (Some (bond_data e c))))\<rparr>"

section \<open>What the parser of link messages reads in a request\<close>

definition link_read :: "endian \<Rightarrow> if_info_msg \<Rightarrow> string \<Rightarrow> u32 option \<Rightarrow> u32 option \<Rightarrow> bytes option \<Rightarrow> string \<Rightarrow>
    call list option \<Rightarrow> link_message" where
  "link_read e h name parent mtu address kind data =
     (link_message_of h)\<lparr>lm_name := Some name, lm_link := parent, lm_mtu := mtu, lm_address := address,
       lm_link_info := Some \<lparr>li_kind = Some kind, li_slave_kind = None,
         li_data = map_option (\<lambda>ds. wire_calls e ds) data, li_slave_data = None\<rparr>\<rparr>"

lemma link_request_read:
  assumes "winnow_ok w" "list_all (call_fits e) cs" "list_all is_attr cs"
  shows "fst (link_parse w e (wire_calls e (Struct (if_info_msg_as_bytes e h) # cs))) =
    Inr (read_calls e (link_attr e) cs (link_message_of h))"
proof -
  have "wire_calls e (Struct (if_info_msg_as_bytes e h) # cs) = if_info_msg_as_bytes e h @ wire_calls e cs"
    by (rule struct_wire) (simp add: if_info_msg.enc_length)
  then show ?thesis
    using attr_loop_calls[OF assms, of "link_attr e" "link_message_of h"] assms(1)
    by (simp only: link_parse_def) (simp add: if_info_msg.enc_length pbind_def winnow_take if_info_msg_back)
qed

lemma link_info_read:
  assumes "text_ok 65530 kind" "case data of None \<Rightarrow> True | Some ds \<Rightarrow> call_fits e (Nested 2 ds)"
  shows "parse_link_info e (wire_calls e (attr_str 1 kind # (case data of None \<Rightarrow> [] | Some ds \<Rightarrow> [Nested 2 ds]))) =
    \<lparr>li_kind = Some kind, li_slave_kind = None, li_data = map_option (\<lambda>ds. wire_calls e ds) data, li_slave_data = None\<rparr>"
proof -
  let ?cs = "attr_str 1 kind # (case data of None \<Rightarrow> [] | Some ds \<Rightarrow> [Nested 2 ds])"
  have "list_all (call_fits e) ?cs" using assms by (auto simp: text_ok_def split: option.split)
  moreover have "list_all is_attr ?cs" by (simp split: option.split)
  ultimately show ?thesis
    unfolding parse_link_info_def options_walk_attrs
    by (simp only: fold_calls) (auto simp: link_info_attr_def text_back[OF assms(1)] type_mask split: option.split)
qed

lemma link_calls_fold:
  assumes "winnow_ok w" "text_ok 65530 name" "text_ok 100 kind" "list_all opt_ok ats"
    and "case data of None \<Rightarrow> True | Some ds \<Rightarrow> list_all (call_fits e) ds \<and> length (wire_calls e ds) \<le> 60000"
  shows "fst (link_parse w e (wire_calls e (Struct (if_info_msg_as_bytes e h) # link_calls name ats kind data))) =
    Inr ((opt_fold (link_attr e) ats ((link_message_of h)\<lparr>lm_name := Some name\<rparr>))\<lparr>lm_link_info :=
      Some \<lparr>li_kind = Some kind, li_slave_kind = None, li_data = map_option (\<lambda>ds. wire_calls e ds) data,
            li_slave_data = None\<rparr>\<rparr>)"
proof -
  let ?info = "attr_str 1 kind # (case data of None \<Rightarrow> [] | Some ds \<Rightarrow> [Nested 2 ds])"
  have kind: "text_ok 65530 kind" using assms(3) by (simp add: text_ok_def)
  have len: "length (attr_wire e 1 (bytes_of_str kind @ [0])) \<le> 108"
    using assms(3) nla_align_lt[of "length kind + 1"] by (simp add: length_attr_wire text_ok_def)
  have fit: "case data of None \<Rightarrow> True | Some ds \<Rightarrow> call_fits e (Nested 2 ds)"
    using assms(5) by (auto split: option.splits)
  have "length (wire_calls e ?info) \<le> 65531"
  proof (cases data)
    case None
    then show ?thesis using len by simp
  next
    case (Some ds)
    have "length (attr_wire e (2 OR NLA_F_NESTED) (wire_calls e ds)) \<le> 60004"
      using assms(5) Some nla_align_id[of "length (wire_calls e ds)"] by (simp add: length_attr_wire)
    then show ?thesis using len Some by simp
  qed
  moreover have "list_all (call_fits e) ?info" using assms(3) fit by (auto simp: text_ok_def split: option.split)
  ultimately have "list_all (call_fits e) (link_calls name ats kind data)" "list_all is_attr (link_calls name ats kind data)"
    using opts_fits[OF assms(4), of e] assms(2) by (simp_all add: link_calls_def opts_attr text_ok_def)
  moreover define info where "info = ?info"
  have "parse_link_info e (wire_calls e info) = \<lparr>li_kind = Some kind, li_slave_kind = None,
      li_data = map_option (\<lambda>ds. wire_calls e ds) data, li_slave_data = None\<rparr>"
    unfolding info_def by (rule link_info_read[OF kind fit])
  then have "read_calls e (link_attr e) (link_calls name ats kind data) (link_message_of h) =
    (opt_fold (link_attr e) ats ((link_message_of h)\<lparr>lm_name := Some name\<rparr>))\<lparr>lm_link_info :=
      Some \<lparr>li_kind = Some kind, li_slave_kind = None, li_data = map_option (\<lambda>ds. wire_calls e ds) data,
            li_slave_data = None\<rparr>\<rparr>"
    unfolding link_calls_def info_def[symmetric]
    by (simp add: fold_append fold_opts[OF assms(4)] link_attr_steps text_back[OF assms(2)] type_mask)
  ultimately show ?thesis by (simp only: link_request_read[OF assms(1)])
qed

lemma link_calls_read:
  assumes "winnow_ok w" "text_ok 65530 name" "text_ok 100 kind"
    and "case address of None \<Rightarrow> True | Some a \<Rightarrow> length a \<le> 65531"
    and "case data of None \<Rightarrow> True | Some ds \<Rightarrow> list_all (call_fits e) ds \<and> length (wire_calls e ds) \<le> 60000"
  shows "fst (link_parse w e (wire_calls e (Struct (if_info_msg_as_bytes e h) #
      link_calls name [opt_u32 e 5 parent, link_mtu e mtu, link_mac address] kind data))) =
    Inr (link_read e h name parent mtu address kind data)"
proof -
  have ok: "list_all opt_ok [opt_u32 e 5 parent, link_mtu e mtu, link_mac address]"
    using assms(4) by (auto simp: opt_ok_def split: option.splits)
  show ?thesis
    unfolding link_calls_fold[OF assms(1,2,3) ok assms(5)]
    by (auto simp: opt_fold_def link_attr_steps link_read_def link_message_of_def split: option.split)
qed

section \<open>Bonds round trip\<close>

text \<open>Tables whose values are at most \<open>n\<close> bytes long.\<close>

definition opt_small :: "nat \<Rightarrow> opt_attr \<Rightarrow> bool" where
  "opt_small n a = (fst a AND 0x3FFF = fst a \<and> (case snd a of None \<Rightarrow> True | Some d \<Rightarrow> length d \<le> n))"

lemma opt_small_map:
  "(\<And>a. length (g a) \<le> n) \<Longrightarrow> t AND 0x3FFF = t \<Longrightarrow> opt_small n (t, map_option g v)"
  by (cases v) (simp_all add: opt_small_def)

lemma opt_small_ok: "list_all (opt_small n) ats \<Longrightarrow> n \<le> 65531 \<Longrightarrow> list_all opt_ok ats"
  by (auto simp: list_all_iff opt_small_def opt_ok_def split: option.splits)

lemma opt_wire_le: "list_all (opt_small n) ats \<Longrightarrow> length (opt_wire e ats) \<le> (n + 8) * length ats"
proof (induction ats)
  case (Cons a ats)
  obtain t v where a: "a = (t, v)" by fastforce
  have "length (case v of None \<Rightarrow> [] | Some d \<Rightarrow> attr_wire e t d) \<le> n + 8"
  proof (cases v)
    case (Some d)
    then have "length d \<le> n" using Cons.prems a by (simp add: opt_small_def)
    then show ?thesis using Some nla_align_lt[of "length d"] by (simp add: length_attr_wire)
  qed simp
  then show ?case using Cons a by (simp add: opt_wire_simps)
qed (simp add: opt_wire_simps)

definition bond_read :: "bond_link \<Rightarrow> bond_info" where
  "bond_read c =
     \<lparr>bi_mode = bond_mode_code (bo_mode c), bi_miimon = or_zero (bo_miimon c), bi_updelay = or_zero (bo_updelay c),
      bi_downdelay = or_zero (bo_downdelay c),
      bi_xmit_hash_policy = or_zero (map_option xmit_hash_policy_code (bo_xmit_hash_policy c)),
      bi_min_links = or_zero (bo_min_links c), bi_lacp_rate = map_option lacp_rate_code (bo_lacp_rate c),
      bi_ad_info = None, bi_primary = None, bi_active_slave = None,
      bi_use_carrier = (bo_use_carrier c \<noteq> Some False), bi_all_slaves_active = (bo_all_slaves_active c = Some True),
      bi_arp_interval = or_zero (bo_arp_interval c), bi_arp_validate = map_option arp_validate_code (bo_arp_validate c)\<rparr>"

lemma bond_skip:
  "t \<notin> {1, 2, 3, 4, 5, 6, 7, 9, 11, 14, 17, 18, 21, 23} \<Longrightarrow> bond_attr e t d info = info"
  by (simp add: bond_attr_def)

lemma bond_opt_skip:
  "opt_fold (bond_attr e) ats info = r \<Longrightarrow> t \<notin> {1, 2, 3, 4, 5, 6, 7, 9, 11, 14, 17, 18, 21, 23} \<Longrightarrow>
   opt_fold (bond_attr e) ((t, v) # ats) info = r"
  by (cases v) (simp_all add: opt_fold_def bond_skip del: insert_iff)

lemma bond_steps:
  "bond_attr e 1 [b] info = info\<lparr>bi_mode := b\<rparr>"
  "bond_attr e 3 (ne_bytes e 4 v) info = info\<lparr>bi_miimon := v\<rparr>"
  "bond_attr e 4 (ne_bytes e 4 v) info = info\<lparr>bi_updelay := v\<rparr>"
  "bond_attr e 5 (ne_bytes e 4 v) info = info\<lparr>bi_downdelay := v\<rparr>"
  "bond_attr e 6 [if f then 1 else 0] info = info\<lparr>bi_use_carrier := f\<rparr>"
  "bond_attr e 7 (ne_bytes e 4 v) info = info\<lparr>bi_arp_interval := v\<rparr>"
  "bond_attr e 9 (ne_bytes e 4 v) info = info\<lparr>bi_arp_validate := Some v\<rparr>"
  "bond_attr e 14 [b] info = info\<lparr>bi_xmit_hash_policy := b\<rparr>"
  "bond_attr e 17 [if f then 1 else 0] info = info\<lparr>bi_all_slaves_active := f\<rparr>"
  "bond_attr e 18 (ne_bytes e 4 v) info = info\<lparr>bi_min_links := v\<rparr>"
  "bond_attr e 21 [b] info = info\<lparr>bi_lacp_rate := Some b\<rparr>"
  by (simp_all add: bond_attr_def slice_u32_ne_def on_some_def ne_word_bytes)

lemma bond_fold: "opt_fold (bond_attr e) (bond_attrs e c) bond_info_new = bond_read c"
  unfolding bond_attrs_def
  apply (intro opt_fold_put[where t = 1 and put = "\<lambda>v m. m\<lparr>bi_mode := or_zero v\<rparr>"]
      opt_fold_put[where t = 3 and put = "\<lambda>v m. m\<lparr>bi_miimon := or_zero v\<rparr>"]
      opt_fold_put[where t = 4 and put = "\<lambda>v m. m\<lparr>bi_updelay := or_zero v\<rparr>"]
      opt_fold_put[where t = 5 and put = "\<lambda>v m. m\<lparr>bi_downdelay := or_zero v\<rparr>"]
      opt_fold_put[where t = 6 and put = "\<lambda>v m. m\<lparr>bi_use_carrier := (v \<noteq> Some False)\<rparr>"]
      opt_fold_put[where t = 7 and put = "\<lambda>v m. m\<lparr>bi_arp_interval := or_zero v\<rparr>"]
      opt_fold_put[where t = 9 and put = "\<lambda>v m. m\<lparr>bi_arp_validate := v\<rparr>"]
      opt_fold_put[where t = 14 and put = "\<lambda>v m. m\<lparr>bi_xmit_hash_policy := or_zero v\<rparr>"]
      opt_fold_put[where t = 17 and put = "\<lambda>v m. m\<lparr>bi_all_slaves_active := (v = Some True)\<rparr>"]
      opt_fold_put[where t = 18 and put = "\<lambda>v m. m\<lparr>bi_min_links := or_zero v\<rparr>"]
      opt_fold_put[where t = 21 and put = "\<lambda>v m. m\<lparr>bi_lacp_rate := v\<rparr>"]
      bond_opt_skip[where t = 10] bond_opt_skip[where t = 12] bond_opt_skip[where t = 13] bond_opt_skip[where t = 15] bond_opt_skip[where t = 16] bond_opt_skip[where t = 19] bond_opt_skip[where t = 20] bond_opt_skip[where t = 22] bond_opt_skip[where t = 24] bond_opt_skip[where t = 25] bond_opt_skip[where t = 26] bond_opt_skip[where t = 27] bond_opt_skip[where t = 28] bond_opt_skip[where t = 29] bond_opt_skip[where t = 30] bond_opt_skip[where t = 32] opt_fold_Nil)
  apply (simp_all add: bond_steps bond_info_new_def bond_read_def or_zero_def)
  done

definition mac_ok :: "bytes option \<Rightarrow> bool" where
  "mac_ok a = (case a of None \<Rightarrow> True | Some a \<Rightarrow> length a = 6)"

lemma bond_attrs_small: "mac_ok (bo_ad_actor_system c) \<Longrightarrow> list_all (opt_small 8) (bond_attrs e c)"
  unfolding bond_attrs_def list.pred_inject
  by (intro conjI opt_small_map) (auto simp: opt_small_def mac_ok_def split: option.split)

lemma bond_data_fits:
  assumes "length (bo_arp_ip_targets c) \<le> 8000" "mac_ok (bo_ad_actor_system c)"
  shows "list_all (call_fits e) (bond_data e c)" "list_all is_attr (bond_data e c)"
    "length (wire_calls e (bond_data e c)) \<le> 8 * length (bo_arp_ip_targets c) + 1000"
proof -
  let ?targets = "map (\<lambda>(i, addr). Attr (of_nat i) (ip_octets (V4 addr))) (enumerate 0 (bo_arp_ip_targets c))"
  note ats = bond_attrs_small[OF assms(2), of e]
  then have ok: "list_all opt_ok (bond_attrs e c)" by (rule opt_small_ok) simp
  have len: "length (wire_calls e ?targets) = 8 * length (bo_arp_ip_targets c)"
    by (simp add: length_concat comp_def case_prod_beta length_attr_wire nla_align_def sum_list_triv length_enumerate)
  have fit: "list_all (call_fits e) ?targets" by (auto simp: list_all_iff)
  show "list_all (call_fits e) (bond_data e c)"
    using assms(1) opts_fits[OF ok, of e] fit len by (simp add: bond_data_def)
  show "list_all is_attr (bond_data e c)" by (simp add: bond_data_def opts_attr)
  have "length (wire_calls e [Nested 8 ?targets]) \<le> 8 * length (bo_arp_ip_targets c) + 4"
    using len nla_align_id[of "8 * length (bo_arp_ip_targets c)"] by (simp add: length_attr_wire)
  then show "length (wire_calls e (bond_data e c)) \<le> 8 * length (bo_arp_ip_targets c) + 1000"
    using opt_wire_le[OF ats, of e] by (simp add: bond_data_def wire_opts bond_attrs_def)
qed

lemma bond_info_read:
  assumes "length (bo_arp_ip_targets c) \<le> 8000" "mac_ok (bo_ad_actor_system c)"
  shows "parse_bond_info e (wire_calls e (bond_data e c)) = bond_read c"
proof -
  have ok: "list_all opt_ok (bond_attrs e c)" by (rule opt_small_ok[OF bond_attrs_small[OF assms(2)]]) simp
  have "fold (\<lambda>c. case call_item e c of (k, d) \<Rightarrow> bond_attr e k d) (bond_data e c) bond_info_new = bond_read c"
    unfolding bond_data_def
    by (simp add: fold_append fold_opts[OF ok] bond_fold type_mask bond_skip)
  then show ?thesis
    unfolding parse_bond_info_def index_walk_attrs by (simp only: fold_calls[OF bond_data_fits(1,2)[OF assms]])
qed

text \<open>The kinds differ in which of the three attributes they write.\<close>

lemma link_calls_absent:
  "link_calls name [mtu, mac] kind data = link_calls name [opt_u32 e 5 None, mtu, mac] kind data"
  "link_calls name [mtu] kind data = link_calls name [opt_u32 e 5 None, mtu, link_mac None] kind data"
  by (simp_all add: link_calls_def opts_def)

lemma bond_calls_read:
  assumes "winnow_ok w" "text_ok 65530 (bo_name c)" "mac_ok (bo_address c)" "mac_ok (bo_ad_actor_system c)"
    and "length (bo_arp_ip_targets c) \<le> 7000"
  shows "fst (link_parse w e (wire_calls e (Struct (if_info_msg_as_bytes e h) #
      link_calls (bo_name c) [link_mtu e (bo_mtu c), link_mac (bo_address c)] ''bond'' (Some (bond_data e c))))) =
    Inr (link_read e h (bo_name c) None (bo_mtu c) (bo_address c) ''bond'' (Some (bond_data e c)))"
proof -
  have "text_ok 100 ''bond''"
    by (simp add: text_ok_def bytes_of_str_def char_byte_def utf8_valid_ascii)
  moreover have "list_all (call_fits e) (bond_data e c) \<and> length (wire_calls e (bond_data e c)) \<le> 60000"
    using bond_data_fits[OF _ assms(4), of e] assms(5) by fastforce
  ultimately show ?thesis
    unfolding link_calls_absent(1)[where e = e]
    by (intro link_calls_read assms(1,2)) (use assms(3) in \<open>auto simp: mac_ok_def split: option.splits\<close>)
qed

text \<open>
  C39. The request that creates a bond is read back: the parser of link messages finds the name, the
  MTU, the address and the kind, and its view of the bond the mode and every option of the
  configuration it knows, with the defaults of the kernel for those that were not set.  What the
  kernel reports about the bond's ports, \<open>bond_info\<close> never finds in a request.
\<close>

theorem bond_request_roundtrip:
  assumes "winnow_ok w" "text_ok 65530 (bo_name c)" "mac_ok (bo_address c)" "mac_ok (bo_ad_actor_system c)"
    and "length (bo_arp_ip_targets c) \<le> 7000"
  shows "\<exists>cs m. lc_write_to (bond_config c) e None = Some cs \<and>
    fst (link_parse w e (wire_calls e (Struct (if_info_msg_as_bytes e if_info_msg_new) # cs))) = Inr m \<and>
    lm_name m = Some (bo_name c) \<and> lm_mtu m = bo_mtu c \<and> lm_address m = bo_address c \<and>
    link_message_kind m = Some ''bond'' \<and> link_bond_info e m = Some (bond_read c)"
proof -
  have "parse_bond_info e (wire_calls e (bond_data e c)) = bond_read c"
    by (rule bond_info_read) (use assms in simp_all)
  then show ?thesis
    unfolding bond_config_def link_config.select_convs
    by - (intro exI conjI, rule refl, rule bond_calls_read[OF assms],
      simp_all add: link_read_def link_message_of_def link_message_kind_def link_bond_info_def)
qed

theorem bond_request_roundtrip_witness:
  "let c = (bond_link_new ''bond0'')\<lparr>bo_mode := Ieee802_3ad, bo_miimon := Some 100, bo_lacp_rate := Some LacpFast,
        bo_arp_ip_targets := [0x0A000001], bo_use_carrier := Some False\<rparr>
   in \<exists>cs m. lc_write_to (bond_config c) LittleEndian None = Some cs \<and>
     fst (link_parse winnow_ref LittleEndian
       (wire_calls LittleEndian (Struct (if_info_msg_as_bytes LittleEndian if_info_msg_new) # cs))) = Inr m \<and>
     lm_name m = Some (bo_name c) \<and> lm_mtu m = bo_mtu c \<and> lm_address m = bo_address c \<and>
     link_message_kind m = Some ''bond'' \<and> link_bond_info LittleEndian m = Some (bond_read c)"
  unfolding Let_def
  by (rule bond_request_roundtrip[OF winnow_ref_ok])
    (simp_all add: bond_link_new_def text_ok_def mac_ok_def bytes_of_str_def char_byte_def utf8_valid_ascii)

end
