(* ===== verification/Link_Tunnels.thy ===== *)
theory Link_Tunnels
  imports Link_Config
begin

text \<open>
  The remaining link configurations of \<open>netlink/link.rs\<close> - virtual links on a parent, tunnels,
  MACsec -, the options of bridge ports, and what holds of the requests of every kind.
\<close>

section \<open>Without data\<close>

record nlmon_link =
  nl_name :: string

definition nlmon_config :: "nlmon_link \<Rightarrow> link_config" where
  "nlmon_config c =
     \<lparr>lc_name = nl_name c, lc_kind = ''nlmon'', lc_peer_name = None, lc_parent_ref = None,
      lc_write_to = (\<lambda>e _. Some (simple_link_calls e (nl_name c) ''nlmon'' None None))\<rparr>"

record wireguard_link =
  wg_name :: string
  wg_mtu :: "u32 option"

definition wireguard_config :: "wireguard_link \<Rightarrow> link_config" where
  "wireguard_config c =
     \<lparr>lc_name = wg_name c, lc_kind = ''wireguard'', lc_peer_name = None, lc_parent_ref = None,
      lc_write_to = (\<lambda>e _. Some (simple_link_calls e (wg_name c) ''wireguard'' (wg_mtu c) None))\<rparr>"

record virt_wifi_link =
  vw_name :: string
  vw_link :: interface_ref

definition virt_wifi_config :: "virt_wifi_link \<Rightarrow> link_config" where
  "virt_wifi_config c =
     \<lparr>lc_name = vw_name c, lc_kind = ''virt_wifi'', lc_peer_name = None, lc_parent_ref = Some (vw_link c),
      lc_write_to = (\<lambda>e parent_index. case parent_index of None \<Rightarrow> None | Some idx \<Rightarrow>
        Some (link_calls (vw_name c) [opt_u32 e 5 (Some idx)] ''virt_wifi'' None))\<rparr>"

section \<open>On a parent\<close>

definition macvtap_config :: "macvlan_link \<Rightarrow> link_config" where
  "macvtap_config c =
     \<lparr>lc_name = mv_name c, lc_kind = ''macvtap'', lc_peer_name = None, lc_parent_ref = Some (mv_parent c),
      lc_write_to = (\<lambda>e. macvlan_calls e ''macvtap'' c)\<rparr>"

datatype ipvlan_mode = IpvlanL2 | IpvlanL3 | IpvlanL3S

fun ipvlan_mode_code :: "ipvlan_mode \<Rightarrow> u16" where
  "ipvlan_mode_code IpvlanL2 = 0"
| "ipvlan_mode_code IpvlanL3 = 1"
| "ipvlan_mode_code IpvlanL3S = 2"

datatype ipvlan_flags = IpvlanBridge | IpvlanPrivate | IpvlanVepa

fun ipvlan_flags_code :: "ipvlan_flags \<Rightarrow> u16" where
  "ipvlan_flags_code IpvlanBridge = 0"
| "ipvlan_flags_code IpvlanPrivate = 1"
| "ipvlan_flags_code IpvlanVepa = 2"

record ipvlan_link =
  iv_name :: string
  iv_parent :: interface_ref
  iv_mode :: ipvlan_mode
  iv_flags :: ipvlan_flags
  iv_mtu :: "u32 option"

definition ipvlan_link_new :: "string \<Rightarrow> string \<Rightarrow> ipvlan_link" where
  "ipvlan_link_new name parent =
     \<lparr>iv_name = name, iv_parent = Name parent, iv_mode = IpvlanL3, iv_flags = IpvlanBridge, iv_mtu = None\<rparr>"

definition ipvlan_config :: "ipvlan_link \<Rightarrow> link_config" where
  "ipvlan_config c =
     \<lparr>lc_name = iv_name c, lc_kind = ''ipvlan'', lc_peer_name = None, lc_parent_ref = Some (iv_parent c),
      lc_write_to = (\<lambda>e parent_index. case parent_index of None \<Rightarrow> None | Some idx \<Rightarrow>
        Some (link_calls (iv_name c) [opt_u32 e 5 (Some idx), link_mtu e (iv_mtu c)] ''ipvlan''
          (Some (opts [opt_u16 e 1 (Some (ipvlan_mode_code (iv_mode c))),
                       opt_u16 e 2 (Some (ipvlan_flags_code (iv_flags c)))]))))\<rparr>"

record macsec_link =
  ms_name :: string
  ms_parent :: interface_ref
  ms_mtu :: "u32 option"
  ms_sci :: "u64 option"
  ms_port :: "u16 option"
  ms_encrypt :: "bool option"
  ms_protect :: "bool option"
  ms_inc_sci :: "bool option"
  ms_end_station :: "bool option"
  ms_scb :: "bool option"
  ms_replay_protect :: "bool option"
  ms_replay_window :: "u32 option"
  ms_encoding_sa :: "u8 option"

definition macsec_link_new :: "string \<Rightarrow> string \<Rightarrow> macsec_link" where
  "macsec_link_new name parent =
     \<lparr>ms_name = name, ms_parent = Name parent, ms_mtu = None, ms_sci = None, ms_port = None, ms_encrypt = None,
      ms_protect = None, ms_inc_sci = None, ms_end_station = None, ms_scb = None, ms_replay_protect = None,
      ms_replay_window = None, ms_encoding_sa = None\<rparr>"

definition macsec_attrs :: "endian \<Rightarrow> macsec_link \<Rightarrow> opt_attr list" where
  "macsec_attrs e c =
     [(1, map_option (ne_bytes e 8) (ms_sci c)), opt_u16 e 2 (ms_port c), opt_u32 e 5 (ms_replay_window c),
      opt_u8 6 (ms_encoding_sa c), opt_bool 7 (ms_encrypt c), opt_bool 8 (ms_protect c), opt_bool 9 (ms_inc_sci c),
      opt_bool 10 (ms_end_station c), opt_bool 11 (ms_scb c), opt_bool 12 (ms_replay_protect c)]"

definition macsec_config :: "macsec_link \<Rightarrow> link_config" where
  "macsec_config c =
     \<lparr>lc_name = ms_name c, lc_kind = ''macsec'', lc_peer_name = None, lc_parent_ref = Some (ms_parent c),
      lc_write_to = (\<lambda>e parent_index. case parent_index of None \<Rightarrow> None | Some idx \<Rightarrow>
        Some (link_calls (ms_name c) [opt_u32 e 5 (Some idx), link_mtu e (ms_mtu c)] ''macsec''
          (Some (opts (macsec_attrs e c)))))\<rparr>"

section \<open>UDP tunnels\<close>

datatype geneve_df = DfUnset | DfSet | DfInherit

fun geneve_df_code :: "geneve_df \<Rightarrow> u8" where
  "geneve_df_code DfUnset = 0"
| "geneve_df_code DfSet = 1"
| "geneve_df_code DfInherit = 2"

record geneve_link =
  gn_name :: string
  gn_vni :: u32
  gn_mtu :: "u32 option"
  gn_remote :: "ipv4 option"
  gn_remote6 :: "ipv6 option"
  gn_ttl :: "u8 option"
  gn_ttl_inherit :: bool
  gn_tos :: "u8 option"
  gn_df :: "geneve_df option"
  gn_label :: "u32 option"
  gn_port :: "u16 option"
  gn_collect_metadata :: bool
  gn_udp_csum :: "bool option"
  gn_udp6_zero_csum_tx :: "bool option"
  gn_udp6_zero_csum_rx :: "bool option"
  gn_inner_proto_inherit :: bool

definition geneve_attrs :: "endian \<Rightarrow> geneve_link \<Rightarrow> opt_attr list" where
  "geneve_attrs e c =
     [opt_u32 e 1 (Some (gn_vni c)), opt_v4 2 (gn_remote c),
      opt_v6 7 (if gn_remote c = None then gn_remote6 c else None),
      opt_u8 12 (if gn_ttl_inherit c then Some 1 else None),
      opt_u8 3 (if gn_ttl_inherit c then None else gn_ttl c),
      opt_u8 4 (gn_tos c), opt_u8 13 (map_option geneve_df_code (gn_df c)), opt_u32 e 11 (gn_label c),
      opt_u16_be 5 (gn_port c), opt_flag 6 (gn_collect_metadata c), opt_bool 8 (gn_udp_csum c),
      opt_bool 9 (gn_udp6_zero_csum_tx c), opt_bool 10 (gn_udp6_zero_csum_rx c), opt_flag 14 (gn_inner_proto_inherit c)]"

definition geneve_config :: "geneve_link \<Rightarrow> link_config" where
  "geneve_config c =
     \<lparr>lc_name = gn_name c, lc_kind = ''geneve'', lc_peer_name = None, lc_parent_ref = None,
      lc_write_to = (\<lambda>e _. Some (link_calls (gn_name c) [link_mtu e (gn_mtu c)] ''geneve''
        (Some (opts (geneve_attrs e c)))))\<rparr>"

record bareudp_link =
  bu_name :: string
  bu_port :: u16
  bu_ethertype :: u16
  bu_srcport_min :: "u16 option"
  bu_multiproto_mode :: bool
  bu_mtu :: "u32 option"

definition bareudp_link_new :: "string \<Rightarrow> u16 \<Rightarrow> u16 \<Rightarrow> bareudp_link" where
  "bareudp_link_new name port ethertype =
     \<lparr>bu_name = name, bu_port = port, bu_ethertype = ethertype, bu_srcport_min = None, bu_multiproto_mode = False,
      bu_mtu = None\<rparr>"

definition bareudp_attrs :: "endian \<Rightarrow> bareudp_link \<Rightarrow> opt_attr list" where
  "bareudp_attrs e c =
     [opt_u16_be 1 (Some (bu_port c)), opt_u16_be 2 (Some (bu_ethertype c)), opt_u16 e 3 (bu_srcport_min c),
      opt_flag 4 (bu_multiproto_mode c)]"

definition bareudp_config :: "bareudp_link \<Rightarrow> link_config" where
  "bareudp_config c =
     \<lparr>lc_name = bu_name c, lc_kind = ''bareudp'', lc_peer_name = None, lc_parent_ref = None,
      lc_write_to = (\<lambda>e _. Some (link_calls (bu_name c) [link_mtu e (bu_mtu c)] ''bareudp''
        (Some (opts (bareudp_attrs e c)))))\<rparr>"

section \<open>IP tunnels\<close>

text \<open>The two families have the same fields; \<open>octets\<close> are those of the family's addresses.\<close>

record 'a vti_link =
  vt_name :: string
  vt_local :: "'a option"
  vt_remote :: "'a option"
  vt_ikey :: "u32 option"
  vt_okey :: "u32 option"
  vt_link :: "interface_ref option"

definition vti_attrs :: "('a \<Rightarrow> bytes) \<Rightarrow> 'a vti_link \<Rightarrow> opt_attr list" where
  "vti_attrs octets c =
     [(4, map_option octets (vt_local c)), (5, map_option octets (vt_remote c)),
      opt_u32_be 2 (vt_ikey c), opt_u32_be 3 (vt_okey c)]"

definition vti_config :: "ipv4 vti_link \<Rightarrow> link_config" where
  "vti_config c =
     \<lparr>lc_name = vt_name c, lc_kind = ''vti'', lc_peer_name = None, lc_parent_ref = vt_link c,
      lc_write_to = (\<lambda>e parent_index. Some (link_calls (vt_name c) [opt_u32 e 5 parent_index] ''vti''
        (Some (opts (vti_attrs v4_octets c)))))\<rparr>"

definition vti6_config :: "ipv6 vti_link \<Rightarrow> link_config" where
  "vti6_config c =
     \<lparr>lc_name = vt_name c, lc_kind = ''vti6'', lc_peer_name = None, lc_parent_ref = vt_link c,
      lc_write_to = (\<lambda>e parent_index. Some (link_calls (vt_name c) [opt_u32 e 5 parent_index] ''vti6''
        (Some (opts (vti_attrs v6_octets c)))))\<rparr>"

record ip6gre_link =
  g6_name :: string
  g6_local :: "ipv6 option"
  g6_remote :: "ipv6 option"
  g6_ttl :: "u8 option"
  g6_encap_limit :: "u8 option"
  g6_flowinfo :: "u32 option"
  g6_flags :: "u32 option"
  g6_link :: "interface_ref option"

text \<open>\<open>Ip6GretapLink\<close> is the same without flags.\<close>

definition ip6gre_attrs :: "endian \<Rightarrow> ip6gre_link \<Rightarrow> u32 option \<Rightarrow> opt_attr list" where
  "ip6gre_attrs e c parent_index =
     [opt_u32 e 1 parent_index, opt_v6 6 (g6_local c), opt_v6 7 (g6_remote c), opt_u8 8 (g6_ttl c),
      opt_u8 11 (g6_encap_limit c), opt_u32_be 12 (g6_flowinfo c)]"

definition ip6gre_config :: "ip6gre_link \<Rightarrow> link_config" where
  "ip6gre_config c =
     \<lparr>lc_name = g6_name c, lc_kind = ''ip6gre'', lc_peer_name = None, lc_parent_ref = g6_link c,
      lc_write_to = (\<lambda>e parent_index. Some (link_calls (g6_name c) [] ''ip6gre''
        (Some (opts (ip6gre_attrs e c parent_index @ [opt_u32 e 13 (g6_flags c)])))))\<rparr>"

definition ip6gretap_config :: "ip6gre_link \<Rightarrow> link_config" where
  "ip6gretap_config c =
     \<lparr>lc_name = g6_name c, lc_kind = ''ip6gretap'', lc_peer_name = None, lc_parent_ref = g6_link c,
      lc_write_to = (\<lambda>e parent_index. Some (link_calls (g6_name c) [] ''ip6gretap''
        (Some (opts (ip6gre_attrs e c parent_index)))))\<rparr>"

text \<open>\<open>GretapLink\<close> is \<open>GreLink\<close> without \<open>ignore_df\<close>.  A key comes with the flag that announces it.\<close>

record gre_link =
  gr_name :: string
  gr_local :: "ipv4 option"
  gr_remote :: "ipv4 option"
  gr_ttl :: "u8 option"
  gr_tos :: "u8 option"
  gr_ikey :: "u32 option"
  gr_okey :: "u32 option"
  gr_pmtudisc :: "bool option"
  gr_ignore_df :: "bool option"
  gr_fwmark :: "u32 option"
  gr_mtu :: "u32 option"
  gr_link :: "interface_ref option"

definition gre_attrs :: "endian \<Rightarrow> gre_link \<Rightarrow> opt_attr list" where
  "gre_attrs e c =
     [opt_v4 6 (gr_local c), opt_v4 7 (gr_remote c), opt_u8 8 (gr_ttl c), opt_u8 9 (gr_tos c),
      opt_u16 e 2 (map_option (\<lambda>_. 0x2000) (gr_ikey c)), opt_u32 e 4 (gr_ikey c),
      opt_u16 e 3 (map_option (\<lambda>_. 0x2000) (gr_okey c)), opt_u32 e 5 (gr_okey c), opt_bool 10 (gr_pmtudisc c)]"

definition gre_config :: "gre_link \<Rightarrow> link_config" where
  "gre_config c =
     \<lparr>lc_name = gr_name c, lc_kind = ''gre'', lc_peer_name = None, lc_parent_ref = gr_link c,
      lc_write_to = (\<lambda>e parent_index. Some (link_calls (gr_name c) [link_mtu e (gr_mtu c), opt_u32 e 5 parent_index] ''gre''
        (Some (opts (gre_attrs e c @ [opt_bool 19 (gr_ignore_df c), opt_u32 e 20 (gr_fwmark c)])))))\<rparr>"

definition gretap_config :: "gre_link \<Rightarrow> link_config" where
  "gretap_config c =
     \<lparr>lc_name = gr_name c, lc_kind = ''gretap'', lc_peer_name = None, lc_parent_ref = gr_link c,
      lc_write_to = (\<lambda>e parent_index. Some (link_calls (gr_name c) [link_mtu e (gr_mtu c), opt_u32 e 5 parent_index] ''gretap''
        (Some (opts (gre_attrs e c @ [opt_u32 e 20 (gr_fwmark c)])))))\<rparr>"

text \<open>\<open>IpipLink\<close> is \<open>SitLink\<close> without \<open>isatap\<close>.\<close>

record sit_link =
  st_name :: string
  st_local :: "ipv4 option"
  st_remote :: "ipv4 option"
  st_ttl :: "u8 option"
  st_tos :: "u8 option"
  st_pmtudisc :: "bool option"
  st_fwmark :: "u32 option"
  st_isatap :: bool
  st_mtu :: "u32 option"
  st_link :: "interface_ref option"

definition iptun_attrs :: "endian \<Rightarrow> sit_link \<Rightarrow> opt_attr list" where
  "iptun_attrs e c =
     [opt_v4 2 (st_local c), opt_v4 3 (st_remote c), opt_u8 4 (st_ttl c), opt_u8 5 (st_tos c),
      opt_bool 10 (st_pmtudisc c), opt_u32 e 20 (st_fwmark c)]"

definition ipip_config :: "sit_link \<Rightarrow> link_config" where
  "ipip_config c =
     \<lparr>lc_name = st_name c, lc_kind = ''ipip'', lc_peer_name = None, lc_parent_ref = st_link c,
      lc_write_to = (\<lambda>e parent_index. Some (link_calls (st_name c) [link_mtu e (st_mtu c), opt_u32 e 5 parent_index] ''ipip''
        (Some (opts (iptun_attrs e c)))))\<rparr>"

definition sit_config :: "sit_link \<Rightarrow> link_config" where
  "sit_config c =
     \<lparr>lc_name = st_name c, lc_kind = ''sit'', lc_peer_name = None, lc_parent_ref = st_link c,
      lc_write_to = (\<lambda>e parent_index. Some (link_calls (st_name c) [link_mtu e (st_mtu c), opt_u32 e 5 parent_index] ''sit''
        (Some (opts (iptun_attrs e c @ [opt_u16 e 8 (if st_isatap c then Some 1 else None)])))))\<rparr>"

section \<open>Bridge ports\<close>

record bridge_port_config =
  bp_state :: "u8 option"
  bp_priority :: "u16 option"
  bp_cost :: "u32 option"
  bp_hairpin :: "bool option"
  bp_bpdu_guard :: "bool option"
  bp_root_block :: "bool option"
  bp_fast_leave :: "bool option"
  bp_learning :: "bool option"
  bp_unicast_flood :: "bool option"
  bp_proxy_arp :: "bool option"
  bp_mcast_flood :: "bool option"
  bp_mcast_to_unicast :: "bool option"
  bp_bcast_flood :: "bool option"
  bp_neigh_suppress :: "bool option"
  bp_isolated :: "bool option"

definition bridge_port_is_empty :: "bridge_port_config \<Rightarrow> bool" where
  "bridge_port_is_empty c =
     (bp_state c = None \<and> bp_priority c = None \<and> bp_cost c = None \<and> bp_hairpin c = None \<and>
      bp_bpdu_guard c = None \<and> bp_root_block c = None \<and> bp_fast_leave c = None \<and> bp_learning c = None \<and>
      bp_unicast_flood c = None \<and> bp_proxy_arp c = None \<and> bp_mcast_flood c = None \<and> bp_mcast_to_unicast c = None \<and>
      bp_bcast_flood c = None \<and> bp_neigh_suppress c = None \<and> bp_isolated c = None)"

definition bridge_port_attrs :: "endian \<Rightarrow> bridge_port_config \<Rightarrow> opt_attr list" where
  "bridge_port_attrs e c =
     [opt_u8 1 (bp_state c), opt_u16 e 2 (bp_priority c), opt_u32 e 3 (bp_cost c), opt_bool 4 (bp_hairpin c),
      opt_bool 5 (bp_bpdu_guard c), opt_bool 6 (bp_root_block c), opt_bool 7 (bp_fast_leave c),
      opt_bool 8 (bp_learning c), opt_bool 9 (bp_unicast_flood c), opt_bool 10 (bp_proxy_arp c),
      opt_bool 23 (bp_mcast_flood c), opt_bool 24 (bp_mcast_to_unicast c), opt_bool 30 (bp_bcast_flood c),
      opt_bool 32 (bp_neigh_suppress c), opt_bool 33 (bp_isolated c)]"

definition write_protinfo :: "endian \<Rightarrow> bridge_port_config \<Rightarrow> call" where
  "write_protinfo e c = Nested 12 (opts (bridge_port_attrs e c))"

end
