(* ===== verification/Link_Kinds.thy ===== *)
theory Link_Kinds
  imports Link_Tunnels
begin

text \<open>
  The kinds of links together: the dispatch on the trait \<open>LinkConfig\<close>, the contract its
  \<open>write_to\<close> keeps for every implementation, and what follows of a creation request for any of
  them.
\<close>

section \<open>Dispatch\<close>

datatype any_link =
    Dummy dummy_link | Veth veth_link | Bridge bridge_link | Vlan vlan_link | Vxlan vxlan_link
  | Macvlan macvlan_link | Ipvlan ipvlan_link | Ifb ifb_link | Macvtap macvlan_link | Geneve geneve_link
  | Bareudp bareudp_link | Netkit netkit_link | Nlmon nlmon_link | VirtWifi virt_wifi_link
  | Vti "ipv4 vti_link" | Vti6 "ipv6 vti_link" | Ip6Gre ip6gre_link | Ip6Gretap ip6gre_link | Bond bond_link
  | Vrf vrf_link | Ovpn ovpn_link | Gre gre_link | Gretap gre_link | Ipip sit_link | Sit sit_link
  | Wireguard wireguard_link | Macsec macsec_link

fun config_of :: "any_link \<Rightarrow> link_config" where
  "config_of (Dummy c) = dummy_config c"
| "config_of (Veth c) = veth_config c"
| "config_of (Bridge c) = bridge_config c"
| "config_of (Vlan c) = vlan_config c"
| "config_of (Vxlan c) = vxlan_config c"
| "config_of (Macvlan c) = macvlan_config c"
| "config_of (Ipvlan c) = ipvlan_config c"
| "config_of (Ifb c) = ifb_config c"
| "config_of (Macvtap c) = macvtap_config c"
| "config_of (Geneve c) = geneve_config c"
| "config_of (Bareudp c) = bareudp_config c"
| "config_of (Netkit c) = netkit_config c"
| "config_of (Nlmon c) = nlmon_config c"
| "config_of (VirtWifi c) = virt_wifi_config c"
| "config_of (Vti c) = vti_config c"
| "config_of (Vti6 c) = vti6_config c"
| "config_of (Ip6Gre c) = ip6gre_config c"
| "config_of (Ip6Gretap c) = ip6gretap_config c"
| "config_of (Bond c) = bond_config c"
| "config_of (Vrf c) = vrf_config c"
| "config_of (Ovpn c) = ovpn_config c"
| "config_of (Gre c) = gre_config c"
| "config_of (Gretap c) = gretap_config c"
| "config_of (Ipip c) = ipip_config c"
| "config_of (Sit c) = sit_config c"
| "config_of (Wireguard c) = wireguard_config c"
| "config_of (Macsec c) = macsec_config c"

text \<open>
  Addresses have the six bytes of the type \<open>[u8; 6]\<close>; a name of a peer stands in a nest, and so
  do the targets of a bond.
\<close>

fun link_fits :: "any_link \<Rightarrow> bool" where
  "link_fits (Dummy c) = mac_ok (du_address c)"
| "link_fits (Veth c) = (mac_ok (ve_address c) \<and> mac_ok (ve_peer_address c) \<and> length (ve_peer_name c) \<le> 1000)"
| "link_fits (Bridge c) = mac_ok (br_address c)"
| "link_fits (Vlan c) = mac_ok (vl_address c)"
| "link_fits (Vxlan c) = mac_ok (vx_address c)"
| "link_fits (Macvlan c) = mac_ok (mv_address c)"
| "link_fits (Macvtap c) = mac_ok (mv_address c)"
| "link_fits (Netkit c) = (length (nk_peer_name c) \<le> 1000)"
| "link_fits (Bond c) = (mac_ok (bo_address c) \<and> mac_ok (bo_ad_actor_system c) \<and> length (bo_arp_ip_targets c) \<le> 7000)"
| "link_fits _ = True"

section \<open>The contract of \<open>write_to\<close>\<close>

definition data_fits :: "endian \<Rightarrow> call list option \<Rightarrow> bool" where
  "data_fits e data =
     (case data of None \<Rightarrow> True | Some ds \<Rightarrow> list_all (call_fits e) ds \<and> length (wire_calls e ds) \<le> 60000)"

definition link_written :: "endian \<Rightarrow> link_config \<Rightarrow> call list \<Rightarrow> bool" where
  "link_written e c cs =
     (\<exists>ats data. cs = link_calls (lc_name c) ats (lc_kind c) data \<and> list_all (opt_small 16) ats \<and>
        list_all (\<lambda>a. fst a \<in> {1, 4, 5}) ats \<and> data_fits e data)"

lemma link_writtenI:
  assumes "list_all (opt_small 16) ats" "list_all (\<lambda>a. fst a \<in> {1, 4, 5}) ats" "data_fits e data"
  shows "link_written e \<lparr>lc_name = n, lc_kind = k, lc_peer_name = p, lc_parent_ref = r, lc_write_to = f\<rparr>
    (link_calls n ats k data)"
  using assms unfolding link_written_def by auto

lemma opts_data_fits:
  assumes "list_all (opt_small 16) ats" "length ats \<le> 100"
  shows "data_fits e (Some (opts ats))"
  using opts_fits[OF opt_small_ok[OF assms(1)], of e] opt_wire_le[OF assms(1), of e] assms(2)
  by (simp add: data_fits_def wire_opts)

lemma mac_small: "mac_ok a \<Longrightarrow> opt_small 16 (1, a)"
  by (auto simp: opt_small_def mac_ok_def split: option.split)

lemma small_None: "t AND 0x3FFF = t \<Longrightarrow> opt_small n (t, None)"
  by (simp add: opt_small_def)

lemma small_if:
  "(b \<Longrightarrow> opt_small n (t, x)) \<Longrightarrow> (\<not> b \<Longrightarrow> opt_small n (t, y)) \<Longrightarrow> opt_small n (t, if b then x else y)"
  by simp

lemma small_Some: "t AND 0x3FFF = t \<Longrightarrow> length d \<le> n \<Longrightarrow> opt_small n (t, Some d)"
  by (simp add: opt_small_def)

lemmas smalls = mac_small small_None small_if small_Some opt_small_map

lemma None_fits [simp]: "data_fits e None"
  by (simp add: data_fits_def)

lemma wire_le:
  "length (wire_call e (Attr t d)) \<le> length d + 8"
  "length (wire_call e (Struct d)) \<le> length d + 4"
  "length (wire_call e (Nested t cs)) \<le> length (wire_calls e cs) + 8"
  using nla_align_lt[of "length d"] nla_align_lt[of "length (wire_calls e cs)"]
  by (simp_all add: length_attr_wire attr_pad_def)

abbreviation link_header :: "endian \<Rightarrow> call" where
  "link_header e \<equiv> Struct (if_info_msg_as_bytes e if_info_msg_new)"

lemma veth_data_fits:
  assumes "mac_ok (ve_peer_address c)" "length (ve_peer_name c) \<le> 1000"
  shows "data_fits e (Some [Nested 1 (veth_peer_calls e c)])"
proof -
  let ?ats = "[link_mtu e (ve_mtu c), link_mac (ve_peer_address c), opt_u32 e 28 (ve_peer_netns_fd c),
    opt_u32 e 19 (if ve_peer_netns_fd c = None then ve_peer_netns_pid c else None)]"
  have small: "list_all (opt_small 16) ?ats"
    unfolding list.pred_inject by (intro conjI smalls assms) simp_all
  have "length (wire_calls e (opts ?ats)) \<le> 96" using opt_wire_le[OF small, of e] by (simp add: wire_opts)
  moreover have "list_all (call_fits e) (opts ?ats)" by (rule opts_fits[OF opt_small_ok[OF small]]) simp
  ultimately show ?thesis
    using assms(2) wire_le(1)[of e 3 "bytes_of_str (ve_peer_name c) @ [0]"] wire_le(3)[of e 1 "veth_peer_calls e c"]
      wire_le(2)[of e "if_info_msg_as_bytes e if_info_msg_new"]
    by (simp add: data_fits_def veth_peer_calls_def if_info_msg.enc_length del: wire_call.simps)
qed

lemma netkit_data_fits:
  assumes "length (nk_peer_name c) \<le> 1000"
  shows "data_fits e (Some (netkit_data e c))"
proof -
  let ?ats = "[opt_u32 e 4 (map_option netkit_mode_code (nk_mode c)),
    opt_u32 e 2 (map_option netkit_policy_code (nk_policy c)), opt_u32 e 3 (map_option netkit_policy_code (nk_peer_policy c)),
    opt_u32 e 5 (map_option netkit_scrub_code (nk_scrub c)), opt_u32 e 6 (map_option netkit_scrub_code (nk_peer_scrub c))]"
  have small: "list_all (opt_small 16) ?ats" unfolding list.pred_inject by (intro conjI smalls) simp_all
  have "length (wire_calls e (opts ?ats)) \<le> 120" using opt_wire_le[OF small, of e] by (simp add: wire_opts)
  moreover have "list_all (call_fits e) (opts ?ats)" by (rule opts_fits[OF opt_small_ok[OF small]]) simp
  ultimately show ?thesis
    using assms wire_le(1)[of e 3 "bytes_of_str (nk_peer_name c) @ [0]"]
      wire_le(3)[of e 1 "[link_header e, attr_str 3 (nk_peer_name c)]"]
      wire_le(2)[of e "if_info_msg_as_bytes e if_info_msg_new"]
    by (simp add: data_fits_def netkit_data_def if_info_msg.enc_length del: wire_call.simps)
qed

lemma bond_fits:
  assumes "mac_ok (bo_ad_actor_system c)" "length (bo_arp_ip_targets c) \<le> 7000"
  shows "data_fits e (Some (bond_data e c))"
  using bond_data_fits[OF _ assms(1), of e] assms(2) by (fastforce simp: data_fits_def)

lemma one_attr_fits: "length d \<le> 100 \<Longrightarrow> data_fits e (Some [Attr t d])"
  using nla_align_lt[of "length d"] by (simp add: data_fits_def length_attr_wire)

text \<open>
  Every implementation keeps the contract: given its parent's index when it names a parent, it
  writes its name, attributes of the link, its kind and data that fit.
\<close>

lemmas config_defs = dummy_config_def veth_config_def bridge_config_def vlan_config_def vxlan_config_def
  macvlan_config_def ipvlan_config_def ifb_config_def macvtap_config_def geneve_config_def bareudp_config_def
  netkit_config_def nlmon_config_def virt_wifi_config_def vti_config_def vti6_config_def ip6gre_config_def
  ip6gretap_config_def bond_config_def vrf_config_def ovpn_config_def gre_config_def gretap_config_def
  ipip_config_def sit_config_def wireguard_config_def macsec_config_def

lemmas data_attr_defs = vxlan_attrs_def bridge_attrs_def vlan_data_def geneve_attrs_def bareudp_attrs_def vti_attrs_def
  ip6gre_attrs_def gre_attrs_def iptun_attrs_def macsec_attrs_def

definition writes :: "endian \<Rightarrow> u32 option \<Rightarrow> link_config \<Rightarrow> bool" where
  "writes e p c = (\<exists>cs. lc_write_to c e p = Some cs \<and> link_written e c cs)"

lemma writesI:
  assumes "lc_write_to c e p = Some (link_calls (lc_name c) ats (lc_kind c) data)"
    and "list_all (opt_small 16) ats" "list_all (\<lambda>a. fst a \<in> {1, 4, 5}) ats" "data_fits e data"
  shows "writes e p c"
  using assms unfolding writes_def link_written_def by blast

lemma writes_optsI:
  assumes "lc_write_to c e p = Some (link_calls (lc_name c) ats (lc_kind c) (Some (opts ds)))"
    and "list_all (opt_small 16) ats" "list_all (\<lambda>a. fst a \<in> {1, 4, 5}) ats"
    and "list_all (opt_small 16) ds" "length ds \<le> 100"
  shows "writes e p c"
  by (rule writesI[OF assms(1,2,3) opts_data_fits[OF assms(4,5)]])

text \<open>Every implementation keeps the contract.\<close>

lemma tunnels_write:
  "writes e p (geneve_config g)" "writes e p (bareudp_config b)" "writes e p (vti_config v)"
  "writes e p (vti6_config v6)" "writes e p (ip6gre_config i)" "writes e p (ip6gretap_config i)"
  "writes e p (gre_config r)" "writes e p (gretap_config r)" "writes e p (ipip_config s)" "writes e p (sit_config s)"
  unfolding config_defs
  by - (rule writes_optsI, unfold link_config.select_convs, rule refl, (simp add: data_attr_defs smalls; fail)+)+

lemma plain_write:
  "writes e p (ifb_config b)" "writes e p (nlmon_config n)" "writes e p (ovpn_config v)" "writes e p (wireguard_config g)"
  "mac_ok (du_address d) \<Longrightarrow> writes e p (dummy_config d)"
  "writes e (Some idx) (virt_wifi_config w)" "writes e p (vrf_config r)"
  unfolding config_defs simple_link_calls_def
  by - (rule writesI, unfold link_config.select_convs option.case, rule refl, (simp add: smalls one_attr_fits; fail)+)+

lemma nested_write:
  "mac_ok (ve_address v) \<Longrightarrow> mac_ok (ve_peer_address v) \<Longrightarrow> length (ve_peer_name v) \<le> 1000 \<Longrightarrow>
     writes e p (veth_config v)"
  "length (nk_peer_name k) \<le> 1000 \<Longrightarrow> writes e p (netkit_config k)"
  "mac_ok (bo_address b) \<Longrightarrow> mac_ok (bo_ad_actor_system b) \<Longrightarrow> length (bo_arp_ip_targets b) \<le> 7000 \<Longrightarrow>
     writes e p (bond_config b)"
  unfolding config_defs
  by - (rule writesI, unfold link_config.select_convs, rule refl,
      (simp add: smalls veth_data_fits netkit_data_fits bond_fits; fail)+)+

lemma parent_write:
  "mac_ok (mv_address m) \<Longrightarrow> writes e (Some idx) (macvlan_config m)"
  "mac_ok (mv_address m) \<Longrightarrow> writes e (Some idx) (macvtap_config m)"
  unfolding config_defs macvlan_calls_def
  by - (rule writesI, unfold link_config.select_convs option.case, rule refl, (simp add: smalls one_attr_fits; fail)+)+

lemma parent_opts_write:
  "mac_ok (vl_address v) \<Longrightarrow> writes e (Some idx) (vlan_config v)"
  "writes e (Some idx) (ipvlan_config i)" "writes e (Some idx) (macsec_config s)"
  "mac_ok (vx_address x) \<Longrightarrow> writes e p (vxlan_config x)"
  unfolding config_defs vlan_data_def
  by - (rule writes_optsI, unfold link_config.select_convs option.case, rule refl,
      (simp add: data_attr_defs smalls case_prod_beta; fail)+)+

lemma bridge_write: "mac_ok (br_address b) \<Longrightarrow> writes e p (bridge_config b)"
  unfolding config_defs
  by (rule writesI, unfold link_config.select_convs, rule refl) (simp_all add: opts_data_fits bridge_attrs_def smalls)

lemmas kinds_write = tunnels_write plain_write nested_write parent_write parent_opts_write bridge_write

text \<open>
  Six kinds panic without the index of a parent, the others do not look at it or write it only
  when it is there.
\<close>

fun needs_parent :: "any_link \<Rightarrow> bool" where
  "needs_parent (Vlan _) = True"
| "needs_parent (Macvlan _) = True"
| "needs_parent (Macvtap _) = True"
| "needs_parent (Ipvlan _) = True"
| "needs_parent (VirtWifi _) = True"
| "needs_parent (Macsec _) = True"
| "needs_parent _ = False"

lemma needs_parent_ref: "needs_parent a \<Longrightarrow> lc_parent_ref (config_of a) \<noteq> None"
  by (cases a) (simp_all only: needs_parent.simps config_of.simps config_defs link_config.select_convs, simp_all)

lemma config_writes:
  assumes "link_fits a" "lc_parent_ref (config_of a) = None \<or> p \<noteq> None"
  shows "writes e p (config_of a)"
proof (cases "needs_parent a")
  case True
  then obtain idx where "p = Some idx" using assms(2) needs_parent_ref by blast
  then show ?thesis
    using True assms(1) by (cases a) (simp_all add: parent_write parent_opts_write plain_write(6))
next
  case False
  then show ?thesis using assms(1)
    by (cases a) (simp_all add: tunnels_write plain_write nested_write parent_opts_write(4) bridge_write)
qed

lemma kind_text: "text_ok 100 (lc_kind (config_of a))"
  by (cases a) (simp_all add: config_defs text_ok_def bytes_of_str_def char_byte_def utf8_valid_ascii)

section \<open>What follows of it\<close>

definition same_identity :: "link_message \<Rightarrow> link_message \<Rightarrow> bool" where
  "same_identity m m' = (lm_name m' = lm_name m \<and> lm_header m' = lm_header m \<and> lm_master m' = lm_master m)"

lemma attr_keeps: "same_identity m (link_attr e 1 d m)" "same_identity m (link_attr e 4 d m)" "same_identity m (link_attr e 5 d m)"
  by (simp_all add: same_identity_def link_attr_def)

lemma opt_fold_keeps:
  "list_all (\<lambda>a. fst a \<in> {1, 4, 5}) ats \<Longrightarrow> same_identity m (opt_fold (link_attr e) ats m)"
proof (induction ats arbitrary: m)
  case (Cons a ats)
  obtain t v where a: "a = (t, v)" by fastforce
  let ?m = "case v of None \<Rightarrow> m | Some d \<Rightarrow> link_attr e t d m"
  have "same_identity m ?m"
    using Cons.prems attr_keeps[of m e] by (auto simp: a same_identity_def split: option.split)
  moreover have "same_identity ?m (opt_fold (link_attr e) ats ?m)" using Cons by simp
  ultimately show ?case by (simp add: a same_identity_def opt_fold_def)
qed (simp add: opt_fold_def same_identity_def)

lemma written_read:
  assumes "winnow_ok w" "text_ok 65530 (lc_name c)" "text_ok 100 (lc_kind c)" "link_written e c cs"
  shows "\<exists>m. fst (link_parse w e (wire_calls e (Struct (if_info_msg_as_bytes e h) # cs))) = Inr m \<and>
    lm_header m = h \<and> lm_name m = Some (lc_name c) \<and> link_message_kind m = Some (lc_kind c) \<and> lm_master m = None"
proof -
  obtain ats data where cs: "cs = link_calls (lc_name c) ats (lc_kind c) data"
    and ats: "list_all (opt_small 16) ats" "list_all (\<lambda>a. fst a \<in> {1, 4, 5}) ats" and data: "data_fits e data"
    using assms(4) by (auto simp: link_written_def)
  have ok: "list_all opt_ok ats" by (rule opt_small_ok[OF ats(1)]) simp
  show ?thesis
    unfolding cs link_calls_fold[OF assms(1-3) ok data[unfolded data_fits_def]]
    using opt_fold_keeps[OF ats(2), of "(link_message_of h)\<lparr>lm_name := Some (lc_name c)\<rparr>" e]
    by (simp add: same_identity_def link_message_kind_def link_message_of_def)
qed

lemma written_fits:
  assumes "text_ok 65530 (lc_name c)" "text_ok 100 (lc_kind c)" "link_written e c cs"
  shows "list_all (call_fits e) cs"
proof -
  obtain ats data where cs: "cs = link_calls (lc_name c) ats (lc_kind c) data"
    and ats: "list_all (opt_small 16) ats" and data: "data_fits e data"
    using assms(3) by (auto simp: link_written_def)
  have "list_all (call_fits e) (opts ats)" by (rule opts_fits[OF opt_small_ok[OF ats]]) simp
  moreover have "length (wire_call e (attr_str 1 (lc_kind c))) \<le> 109"
    using wire_le(1)[of e 1 "bytes_of_str (lc_kind c) @ [0]"] assms(2) by (simp add: text_ok_def del: wire_call.simps)
  moreover have "length (wire_call e (Nested 2 ds)) \<le> 60008" if "data = Some ds" for ds
    using wire_le(3)[of e 2 ds] data that by (simp add: data_fits_def del: wire_call.simps)
  ultimately show ?thesis
    using assms(1,2) data unfolding cs link_calls_def
    by (auto simp: text_ok_def data_fits_def simp del: wire_call.simps split: option.splits)
qed

text \<open>
  A request to create a link of any kind can be built without a panic - given the index of the
  parent it names -, every attribute of it fits its length field, and the parser of link messages
  reads the link's name and kind back; nothing of it enslaves the link.
\<close>

theorem link_request_wellformed:
  assumes "winnow_ok w" "link_fits a" "text_ok 65530 (lc_name (config_of a))"
    and "lc_parent_ref (config_of a) = None \<or> p \<noteq> None"
  shows "\<exists>cs m. lc_write_to (config_of a) e p = Some cs \<and> list_all (call_fits e) cs \<and>
    fst (link_parse w e (wire_calls e (link_header e # cs))) = Inr m \<and>
    lm_header m = if_info_msg_new \<and> lm_name m = Some (lc_name (config_of a)) \<and>
    link_message_kind m = Some (lc_kind (config_of a)) \<and> lm_master m = None"
proof -
  obtain cs where cs: "lc_write_to (config_of a) e p = Some cs" "link_written e (config_of a) cs"
    using config_writes[OF assms(2,4), of e] by (auto simp: writes_def)
  show ?thesis
    using cs(1) written_fits[OF assms(3) kind_text cs(2)] written_read[OF assms(1,3) kind_text cs(2)] by blast
qed

theorem link_request_wellformed_witness:
  "let a = Vlan (vlan_link_new ''eth0.10'' ''eth0'' 10)
   in \<exists>cs m. lc_write_to (config_of a) LittleEndian (Some 2) = Some cs \<and> list_all (call_fits LittleEndian) cs \<and>
    fst (link_parse winnow_ref LittleEndian (wire_calls LittleEndian (link_header LittleEndian # cs))) = Inr m \<and>
    lm_header m = if_info_msg_new \<and> lm_name m = Some (lc_name (config_of a)) \<and>
    link_message_kind m = Some (lc_kind (config_of a)) \<and> lm_master m = None"
  unfolding Let_def
  by (rule link_request_wellformed[OF winnow_ref_ok])
    (simp_all add: vlan_link_new_def vlan_config_def mac_ok_def text_ok_def bytes_of_str_def char_byte_def utf8_valid_ascii)

lemma panics_without_parent: "lc_write_to (config_of a) e p = None \<longleftrightarrow> needs_parent a \<and> p = None"
  by (cases a; cases p) (simp_all add: config_defs macvlan_calls_def)

end
