(* ===== verification/Route_Conn.thy ===== *)
theory Route_Conn
  imports Connection Net_Diff Link_Kinds
begin

text \<open>
  The requests of a routing connection (\<open>netlink/connection.rs\<close>, and the methods of
  \<open>Connection<Route>\<close> in \<open>link.rs\<close>, \<open>addr.rs\<close>, \<open>route.rs\<close>, \<open>tc.rs\<close>): dumps, the resolution of
  interface names, and the requests that create, change and delete links, addresses, routes and
  qdiscs.  An operation runs on the connection and the kernel behind its socket: the kernel is a
  parameter, what it answers may depend on everything sent before.
\<close>

section \<open>Operations\<close>

text \<open>
  The kernel takes a message; the result of the send and the datagrams that follow it come back
  with its next state.
\<close>

record 'k route_env =
  ev_endian :: endian
  ev_strerror :: "i32 \<Rightarrow> string"
  ev_winnow :: winnow
  ev_parse_text :: "bytes \<Rightarrow> string"
  ev_psched :: psched
  ev_kernel :: "bytes \<Rightarrow> 'k \<Rightarrow> (unit nl_result option \<times> bytes nl_result list) \<times> 'k"

type_synonym ('k, 'a) op = "connection \<times> 'k \<Rightarrow> 'a outcome \<times> (connection \<times> 'k)"

definition op_return :: "'a \<Rightarrow> ('k, 'a) op" where
  "op_return x s = (Returned (Inr x), s)"

definition op_fail :: "nl_error \<Rightarrow> ('k, 'a) op" where
  "op_fail err s = (Returned (Inl err), s)"

definition op_panic :: "('k, 'a) op" where
  "op_panic s = (Panicked, s)"

text \<open>\<open>?\<close> and \<open>.await\<close>: an error returns early, waiting and panics end the operation.\<close>

definition op_bind :: "('k, 'a) op \<Rightarrow> ('a \<Rightarrow> ('k, 'b) op) \<Rightarrow> ('k, 'b) op" where
  "op_bind m f s =
     (case m s of
        (Returned (Inr x), s') \<Rightarrow> f x s'
      | (Returned (Inl err), s') \<Rightarrow> (Returned (Inl err), s')
      | (Waiting, s') \<Rightarrow> (Waiting, s')
      | (Panicked, s') \<Rightarrow> (Panicked, s'))"

abbreviation op_then :: "('k, 'a) op \<Rightarrow> ('k, 'b) op \<Rightarrow> ('k, 'b) op" where
  "op_then m m' \<equiv> op_bind m (\<lambda>_. m')"

definition op_handle :: "(nl_error \<Rightarrow> ('k, 'a) op) \<Rightarrow> ('k, 'a) op \<Rightarrow> ('k, 'a) op" where
  "op_handle f m s = (case m s of (Returned (Inl err), s') \<Rightarrow> f err s' | r \<Rightarrow> r)"

abbreviation op_map_err :: "(nl_error \<Rightarrow> nl_error) \<Rightarrow> ('k, 'a) op \<Rightarrow> ('k, 'a) op" where
  "op_map_err f \<equiv> op_handle (\<lambda>err. op_fail (f err))"

abbreviation op_context :: "string \<Rightarrow> ('k, 'a) op \<Rightarrow> ('k, 'a) op" where
  "op_context text \<equiv> op_map_err (\<lambda>err. with_context err text)"

abbreviation op_when :: "bool \<Rightarrow> ('k, unit) op \<Rightarrow> ('k, unit) op" where
  "op_when b m \<equiv> (if b then m else op_return ())"

text \<open>\<open>if let Some(x) = v \<dots>\<close>\<close>

definition op_each :: "'a option \<Rightarrow> ('a \<Rightarrow> ('k, unit) op) \<Rightarrow> ('k, unit) op" where
  "op_each v f = (case v of None \<Rightarrow> op_return () | Some x \<Rightarrow> f x)"

definition op_lift :: "'a nl_result \<Rightarrow> ('k, 'a) op" where
  "op_lift r s = (Returned r, s)"

section \<open>Exchanges\<close>

text \<open>The socket under \<open>send_ack\<close> and \<open>dump_typed\<close>: the kernel gets the stamped message.\<close>

definition exchange :: "'k route_env \<Rightarrow> message_builder \<Rightarrow>
    (connection \<Rightarrow> (bytes \<Rightarrow> unit nl_result option) \<Rightarrow> bytes nl_result list \<Rightarrow> 'a outcome \<times> connection) \<Rightarrow>
    ('k, 'a) op" where
  "exchange env b request s =
     (case s of (c, k) \<Rightarrow>
        (case fst (stamp (ev_endian env) c b) of
           None \<Rightarrow> (case request c (\<lambda>_. None) [] of (out, c') \<Rightarrow> (out, c', k))
         | Some (seq, msg) \<Rightarrow>
             (case ev_kernel env msg k of ((sent, rs), k') \<Rightarrow>
                (case request c (\<lambda>_. sent) rs of (out, c') \<Rightarrow> (out, c', k')))))"

definition request_ack :: "'k route_env \<Rightarrow> message_builder \<Rightarrow> ('k, unit) op" where
  "request_ack env b = exchange env b (\<lambda>c. send_ack (ev_endian env) (ev_strerror env) c b)"

definition request_dump :: "'k route_env \<Rightarrow> 't from_netlink \<Rightarrow> u16 \<Rightarrow> ('k, 't list) op" where
  "request_dump env T msg_type =
     exchange env (append_bytes (fn_dump_header T) (dump_request (ev_endian env) msg_type))
       (\<lambda>c. dump_typed (ev_endian env) (ev_strerror env) T c msg_type)"

section \<open>Dumps\<close>

definition link_rows :: "'k route_env \<Rightarrow> link_message from_netlink" where
  "link_rows env =
     \<lparr>fn_from_bytes = from_bytes (ev_parse_text env) (link_parse (ev_winnow env) (ev_endian env)),
      fn_set_msg_type = (\<lambda>_ m. m), fn_dump_header = if_info_msg_as_bytes (ev_endian env) if_info_msg_new\<rparr>"

definition address_rows :: "'k route_env \<Rightarrow> address_message from_netlink" where
  "address_rows env =
     \<lparr>fn_from_bytes = from_bytes (ev_parse_text env) (address_parse (ev_winnow env) (ev_endian env)),
      fn_set_msg_type = (\<lambda>_ m. m), fn_dump_header = if_addr_msg_as_bytes (ev_endian env) if_addr_msg_new\<rparr>"

definition route_rows :: "'k route_env \<Rightarrow> route_message from_netlink" where
  "route_rows env =
     \<lparr>fn_from_bytes = from_bytes (ev_parse_text env) (route_parse (ev_winnow env) (ev_endian env)),
      fn_set_msg_type = (\<lambda>_ m. m), fn_dump_header = rt_msg_as_bytes (ev_endian env) rt_msg_new\<rparr>"

definition tc_rows :: "'k route_env \<Rightarrow> tc_message from_netlink" where
  "tc_rows env =
     \<lparr>fn_from_bytes = from_bytes (ev_parse_text env) (tc_parse (ev_winnow env) (ev_endian env)),
      fn_set_msg_type = set_msg_type, fn_dump_header = tc_msg_as_bytes (ev_endian env) tc_msg_new\<rparr>"

definition get_links :: "'k route_env \<Rightarrow> ('k, link_message list) op" where
  "get_links env = request_dump env (link_rows env) 18"

definition get_addresses :: "'k route_env \<Rightarrow> ('k, address_message list) op" where
  "get_addresses env = request_dump env (address_rows env) 22"

definition get_routes :: "'k route_env \<Rightarrow> ('k, route_message list) op" where
  "get_routes env = request_dump env (route_rows env) 26"

definition get_qdiscs :: "'k route_env \<Rightarrow> ('k, tc_message list) op" where
  "get_qdiscs env = request_dump env (tc_rows env) 38"

definition get_classes :: "'k route_env \<Rightarrow> ('k, tc_message list) op" where
  "get_classes env = request_dump env (tc_rows env) 42"

definition get_filters :: "'k route_env \<Rightarrow> ('k, tc_message list) op" where
  "get_filters env = request_dump env (tc_rows env) 46"

section \<open>Interfaces\<close>

definition get_link_by_index :: "'k route_env \<Rightarrow> u32 \<Rightarrow> ('k, link_message option) op" where
  "get_link_by_index env index =
     op_bind (get_links env) (\<lambda>links. op_return (List.find (\<lambda>l. link_ifindex l = index) links))"

fun get_link_by_name :: "'k route_env \<Rightarrow> interface_ref \<Rightarrow> ('k, link_message option) op" where
  "get_link_by_name env (Name name) =
     op_bind (get_links env) (\<lambda>links. op_return (List.find (\<lambda>l. lm_name l = Some name) links))"
| "get_link_by_name env (Index idx) = get_link_by_index env idx"

fun resolve_interface :: "'k route_env \<Rightarrow> interface_ref \<Rightarrow> ('k, u32) op" where
  "resolve_interface env (Index idx) = op_return idx"
| "resolve_interface env (Name name) =
     op_bind (get_link_by_name env (Name name)) (\<lambda>link.
       case link of None \<Rightarrow> op_fail (InterfaceNotFound name) | Some l \<Rightarrow> op_return (link_ifindex l))"

definition resolve_interface_opt :: "'k route_env \<Rightarrow> interface_ref option \<Rightarrow> ('k, u32 option) op" where
  "resolve_interface_opt env iface =
     (case iface of
        None \<Rightarrow> op_return None
      | Some i \<Rightarrow> op_bind (resolve_interface env i) (\<lambda>idx. op_return (Some idx)))"

definition get_interface_names :: "'k route_env \<Rightarrow> ('k, u32 \<rightharpoonup> string) op" where
  "get_interface_names env =
     op_bind (get_links env) (\<lambda>links. op_return (fold (\<lambda>l names.
       case lm_name l of None \<Rightarrow> names | Some n \<Rightarrow> names(link_ifindex l \<mapsto> n)) links Map.empty))"

definition interface_name :: "'k route_env \<Rightarrow> u32 \<Rightarrow> ('k, string option) op" where
  "interface_name env ifindex =
     op_bind (get_link_by_index env ifindex) (\<lambda>link. op_return (Option.bind link lm_name))"

definition interface_name_or :: "'k route_env \<Rightarrow> u32 \<Rightarrow> string \<Rightarrow> ('k, string) op" where
  "interface_name_or env ifindex alt =
     op_bind (interface_name env ifindex) (\<lambda>name. op_return (case name of Some n \<Rightarrow> n | None \<Rightarrow> alt))"

definition interface_label :: "interface_ref \<Rightarrow> string" where
  "interface_label iface = (case iface of Name n \<Rightarrow> n | Index i \<Rightarrow> show_nat (unat i))"

definition get_link_stats :: "'k route_env \<Rightarrow> interface_ref \<Rightarrow> ('k, link_stats) op" where
  "get_link_stats env iface =
     op_bind (get_link_by_name env iface) (\<lambda>link.
       case link of
         None \<Rightarrow> op_fail (InterfaceNotFound (interface_label iface))
       | Some l \<Rightarrow> (case lm_stats l of
             Some s \<Rightarrow> op_return s
           | None \<Rightarrow> op_fail (InvalidMessage (''interface '' @ interface_label iface @
               '' response did not include link-stats attribute''))))"

definition get_bond_info :: "'k route_env \<Rightarrow> interface_ref \<Rightarrow> ('k, bond_info) op" where
  "get_bond_info env iface =
     op_bind (resolve_interface env iface) (\<lambda>ifindex.
     op_bind (get_link_by_index env ifindex) (\<lambda>link.
       case link of
         None \<Rightarrow> op_fail (InvalidMessage ''interface not found'')
       | Some l \<Rightarrow> (case link_bond_info (ev_endian env) l of
             Some info \<Rightarrow> op_return info
           | None \<Rightarrow> op_fail (InvalidMessage ''not a bond interface''))))"

definition get_bond_slaves :: "'k route_env \<Rightarrow> interface_ref \<Rightarrow> ('k, (link_message \<times> bond_slave_info) list) op" where
  "get_bond_slaves env bond =
     op_bind (resolve_interface env bond) (\<lambda>bond_ifindex.
     op_bind (get_links env) (\<lambda>all_links.
       op_return (List.map_filter (\<lambda>link.
         if lm_master link = Some bond_ifindex
         then map_option (\<lambda>info. (link, info)) (link_bond_slave_info (ev_endian env) link) else None) all_links)))"

text \<open>The dumps of one object: filtered after the whole dump.\<close>

definition get_addresses_by_index :: "'k route_env \<Rightarrow> u32 \<Rightarrow> ('k, address_message list) op" where
  "get_addresses_by_index env ifindex =
     op_bind (get_addresses env) (\<lambda>as. op_return (filter (\<lambda>a. address_ifindex a = ifindex) as))"

definition get_address_by_ip :: "'k route_env \<Rightarrow> ip_addr \<Rightarrow> ('k, address_message option) op" where
  "get_address_by_ip env addr =
     op_bind (get_addresses env) (\<lambda>as. op_return (List.find (\<lambda>a. am_address a = Some addr) as))"

definition get_routes_for_table :: "'k route_env \<Rightarrow> u32 \<Rightarrow> ('k, route_message list) op" where
  "get_routes_for_table env table =
     op_bind (get_routes env) (\<lambda>rs. op_return (filter (\<lambda>r. table_id r = table) rs))"

definition get_qdiscs_by_index :: "'k route_env \<Rightarrow> u32 \<Rightarrow> ('k, tc_message list) op" where
  "get_qdiscs_by_index env ifindex =
     op_bind (get_qdiscs env) (\<lambda>qs. op_return (filter (\<lambda>q. tc_ifindex q = ifindex) qs))"

definition get_classes_by_index :: "'k route_env \<Rightarrow> u32 \<Rightarrow> ('k, tc_message list) op" where
  "get_classes_by_index env ifindex =
     op_bind (get_classes env) (\<lambda>qs. op_return (filter (\<lambda>q. tc_ifindex q = ifindex) qs))"

definition get_filters_by_index :: "'k route_env \<Rightarrow> u32 \<Rightarrow> ('k, tc_message list) op" where
  "get_filters_by_index env ifindex =
     op_bind (get_filters env) (\<lambda>qs. op_return (filter (\<lambda>q. tc_ifindex q = ifindex) qs))"

definition get_filters_by_parent_index :: "'k route_env \<Rightarrow> u32 \<Rightarrow> u32 \<Rightarrow> ('k, tc_message list) op" where
  "get_filters_by_parent_index env ifindex parent =
     op_bind (get_filters_by_index env ifindex) (\<lambda>fs.
       op_return (filter (\<lambda>f. tcm_parent (tm_header f) = parent) fs))"

definition get_root_qdisc_by_index :: "'k route_env \<Rightarrow> u32 \<Rightarrow> ('k, tc_message option) op" where
  "get_root_qdisc_by_index env ifindex =
     op_bind (get_qdiscs env) (\<lambda>qs. op_return (List.find (\<lambda>q. tc_ifindex q = ifindex \<and> tc_is_root q) qs))"

definition get_qdisc_by_handle_index :: "'k route_env \<Rightarrow> u32 \<Rightarrow> u32 \<Rightarrow> ('k, tc_message option) op" where
  "get_qdisc_by_handle_index env ifindex handle =
     op_bind (get_qdiscs env) (\<lambda>qs.
       op_return (List.find (\<lambda>q. tc_ifindex q = ifindex \<and> tcm_handle (tm_header q) = handle) qs))"

section \<open>Requests\<close>

text \<open>A configuration writes its calls on a fresh builder; \<open>None\<close> is its panic.\<close>

definition send_calls :: "'k route_env \<Rightarrow> u16 \<Rightarrow> u16 \<Rightarrow> call list option \<Rightarrow> ('k, unit) op" where
  "send_calls env msg_type flags calls =
     (case Option.bind calls (\<lambda>cs. run_calls (ev_endian env) cs (mb_new (ev_endian env) msg_type flags)) of
        None \<Rightarrow> op_panic
      | Some b \<Rightarrow> request_ack env b)"

definition new_flags :: u16 where
  "new_flags = NLM_F_REQUEST OR NLM_F_ACK OR 0x400 OR 0x200"

definition replace_flags :: u16 where
  "replace_flags = NLM_F_REQUEST OR NLM_F_ACK OR 0x400 OR 0x100"

definition ack_only :: u16 where
  "ack_only = NLM_F_REQUEST OR NLM_F_ACK"

definition ifindex_text :: "u32 \<Rightarrow> string" where
  "ifindex_text ifindex = ''ifindex '' @ show_nat (unat ifindex)"

subsection \<open>Links\<close>

text \<open>The calls of a request on an existing link: its index, then attributes.\<close>

definition link_index_calls :: "'k route_env \<Rightarrow> u32 \<Rightarrow> call list \<Rightarrow> call list" where
  "link_index_calls env ifindex attrs =
     Struct (if_info_msg_as_bytes (ev_endian env) (if_info_msg_with_index ifindex if_info_msg_new)) # attrs"

definition setlink :: "'k route_env \<Rightarrow> u32 \<Rightarrow> call list \<Rightarrow> ('k, unit) op" where
  "setlink env ifindex attrs = send_calls env 19 ack_only (Some (link_index_calls env ifindex attrs))"

definition not_found_as :: "nl_error \<Rightarrow> string \<Rightarrow> nl_error \<Rightarrow> nl_error" where
  "not_found_as missing text err = (if is_not_found err then missing else with_context err text)"

definition set_link_state_by_index :: "'k route_env \<Rightarrow> u32 \<Rightarrow> bool \<Rightarrow> ('k, unit) op" where
  "set_link_state_by_index env ifindex up =
     (let ifinfo = (if_info_msg_with_index ifindex if_info_msg_new)
            \<lparr>ifi_flags := (if up then 1 else 0), ifi_change := 1\<rparr>
      in op_map_err (not_found_as (InterfaceNotFound (ifindex_text ifindex))
             (''set_link_'' @ (if up then ''up'' else ''down'') @ ''('' @ ifindex_text ifindex @ '')''))
           (send_calls env 19 ack_only (Some [Struct (if_info_msg_as_bytes (ev_endian env) ifinfo)])))"

definition set_link_state :: "'k route_env \<Rightarrow> interface_ref \<Rightarrow> bool \<Rightarrow> ('k, unit) op" where
  "set_link_state env iface up =
     op_bind (resolve_interface env iface) (\<lambda>ifindex. set_link_state_by_index env ifindex up)"

definition set_link_up :: "'k route_env \<Rightarrow> interface_ref \<Rightarrow> ('k, unit) op" where
  "set_link_up env iface = op_bind (resolve_interface env iface) (\<lambda>i. set_link_state_by_index env i True)"

definition set_link_down :: "'k route_env \<Rightarrow> interface_ref \<Rightarrow> ('k, unit) op" where
  "set_link_down env iface = op_bind (resolve_interface env iface) (\<lambda>i. set_link_state_by_index env i False)"

definition set_link_mtu_by_index :: "'k route_env \<Rightarrow> u32 \<Rightarrow> u32 \<Rightarrow> ('k, unit) op" where
  "set_link_mtu_by_index env ifindex mtu =
     op_context ''set_link_mtu'' (setlink env ifindex [Attr 4 (ne_bytes (ev_endian env) 4 mtu)])"

definition set_link_mtu :: "'k route_env \<Rightarrow> interface_ref \<Rightarrow> u32 \<Rightarrow> ('k, unit) op" where
  "set_link_mtu env iface mtu = op_bind (resolve_interface env iface) (\<lambda>i. set_link_mtu_by_index env i mtu)"

definition set_link_txqlen_by_index :: "'k route_env \<Rightarrow> u32 \<Rightarrow> u32 \<Rightarrow> ('k, unit) op" where
  "set_link_txqlen_by_index env ifindex txqlen =
     op_context ''set_link_txqlen'' (setlink env ifindex [Attr 13 (ne_bytes (ev_endian env) 4 txqlen)])"

definition set_link_master_by_index :: "'k route_env \<Rightarrow> u32 \<Rightarrow> u32 \<Rightarrow> ('k, unit) op" where
  "set_link_master_by_index env ifindex master_index =
     op_context ''set_link_master'' (setlink env ifindex [Attr 10 (ne_bytes (ev_endian env) 4 master_index)])"

definition set_link_master :: "'k route_env \<Rightarrow> interface_ref \<Rightarrow> interface_ref \<Rightarrow> ('k, unit) op" where
  "set_link_master env iface master =
     op_bind (resolve_interface env iface) (\<lambda>ifindex.
     op_bind (resolve_interface env master) (\<lambda>master_index. set_link_master_by_index env ifindex master_index))"

definition set_link_nomaster_by_index :: "'k route_env \<Rightarrow> u32 \<Rightarrow> ('k, unit) op" where
  "set_link_nomaster_by_index env ifindex =
     op_context ''set_link_nomaster'' (setlink env ifindex [Attr 10 (ne_bytes (ev_endian env) 4 (0 :: u32))])"

definition set_link_nomaster :: "'k route_env \<Rightarrow> interface_ref \<Rightarrow> ('k, unit) op" where
  "set_link_nomaster env iface = op_bind (resolve_interface env iface) (set_link_nomaster_by_index env)"

definition enslave_by_index :: "'k route_env \<Rightarrow> u32 \<Rightarrow> u32 \<Rightarrow> ('k, unit) op" where
  "enslave_by_index env member_index master_index =
     op_then (set_link_state_by_index env member_index False)
       (op_then (set_link_master_by_index env member_index master_index)
         (set_link_state_by_index env member_index True))"

definition enslave :: "'k route_env \<Rightarrow> interface_ref \<Rightarrow> interface_ref \<Rightarrow> ('k, unit) op" where
  "enslave env member_ref master =
     op_bind (resolve_interface env member_ref) (\<lambda>member_idx.
     op_bind (resolve_interface env master) (\<lambda>master_idx. enslave_by_index env member_idx master_idx))"

definition set_bridge_port_by_index :: "'k route_env \<Rightarrow> u32 \<Rightarrow> bridge_port_config \<Rightarrow> ('k, unit) op" where
  "set_bridge_port_by_index env ifindex config =
     (if bridge_port_is_empty config
      then op_fail (InvalidMessage ''set_bridge_port: no options set (nothing to change)'')
      else op_context ''set_bridge_port'' (send_calls env 19 ack_only (Some
        [Struct (if_info_msg_as_bytes (ev_endian env)
           (if_info_msg_with_index ifindex (if_info_msg_with_family 7 if_info_msg_new))),
         write_protinfo (ev_endian env) config])))"

definition validate_name :: "string \<Rightarrow> ('k, unit) op" where
  "validate_name name = op_lift (case ifname_validate name of Inl err \<Rightarrow> Inl (Interface err) | Inr u \<Rightarrow> Inr u)"

definition set_link_name_by_index :: "'k route_env \<Rightarrow> u32 \<Rightarrow> string \<Rightarrow> ('k, unit) op" where
  "set_link_name_by_index env ifindex new_name =
     op_then (validate_name new_name) (op_context ''set_link_name'' (setlink env ifindex [attr_str 3 new_name]))"

definition set_link_address_by_index :: "'k route_env \<Rightarrow> u32 \<Rightarrow> bytes \<Rightarrow> ('k, unit) op" where
  "set_link_address_by_index env ifindex address =
     op_context ''set_link_address'' (setlink env ifindex [Attr 1 address])"

definition set_link_netns_pid_by_index :: "'k route_env \<Rightarrow> u32 \<Rightarrow> u32 \<Rightarrow> ('k, unit) op" where
  "set_link_netns_pid_by_index env ifindex pid =
     op_context ''set_link_netns'' (setlink env ifindex [Attr 19 (ne_bytes (ev_endian env) 4 pid)])"

definition set_link_netns_fd_by_index :: "'k route_env \<Rightarrow> u32 \<Rightarrow> i32 \<Rightarrow> ('k, unit) op" where
  "set_link_netns_fd_by_index env ifindex fd =
     op_context ''set_link_netns'' (setlink env ifindex [Attr 28 (ne_bytes (ev_endian env) 4 fd)])"

definition add_link :: "'k route_env \<Rightarrow> link_config \<Rightarrow> ('k, unit) op" where
  "add_link env config =
     op_then (validate_name (lc_name config))
       (op_then (op_each (lc_peer_name config) validate_name)
         (op_bind (resolve_interface_opt env (lc_parent_ref config)) (\<lambda>parent_index.
           op_context (''add_link('' @ lc_name config @ '', kind='' @ lc_kind config @ '')'')
             (send_calls env 16 new_flags (map_option (\<lambda>cs. link_header (ev_endian env) # cs)
               (lc_write_to config (ev_endian env) parent_index))))))"

definition del_link_by_index :: "'k route_env \<Rightarrow> u32 \<Rightarrow> ('k, unit) op" where
  "del_link_by_index env ifindex =
     op_map_err (not_found_as (InterfaceNotFound (ifindex_text ifindex)) (''del_link('' @ ifindex_text ifindex @ '')''))
       (send_calls env 17 ack_only (Some (link_index_calls env ifindex [])))"

definition del_link :: "'k route_env \<Rightarrow> interface_ref \<Rightarrow> ('k, unit) op" where
  "del_link env iface = op_bind (resolve_interface env iface) (del_link_by_index env)"

text \<open>The \<open>_if_exists\<close> variants answer whether the object was there.\<close>

definition tolerate :: "(nl_error \<Rightarrow> bool) \<Rightarrow> ('k, unit) op \<Rightarrow> ('k, bool) op" where
  "tolerate absent m =
     op_handle (\<lambda>err. if absent err then op_return False else op_fail err) (op_bind m (\<lambda>_. op_return True))"

definition del_link_if_exists :: "'k route_env \<Rightarrow> interface_ref \<Rightarrow> ('k, bool) op" where
  "del_link_if_exists env iface = tolerate is_not_found (del_link env iface)"

subsection \<open>Addresses\<close>

text \<open>The two implementations of \<open>AddressConfig\<close>.\<close>

datatype any_address = Address4 ipv4_address | Address6 "ipv6 address_config"

fun address_ref :: "any_address \<Rightarrow> interface_ref" where
  "address_ref (Address4 c) = ac_interface c"
| "address_ref (Address6 c) = ac_interface c"

fun address_add_calls :: "endian \<Rightarrow> u32 \<Rightarrow> any_address \<Rightarrow> call list" where
  "address_add_calls e ifindex (Address4 c) = v4_address_add e ifindex c"
| "address_add_calls e ifindex (Address6 c) = v6_address_add e ifindex c"

fun address_delete_calls :: "endian \<Rightarrow> u32 \<Rightarrow> any_address \<Rightarrow> call list" where
  "address_delete_calls e ifindex (Address4 c) = v4_address_delete e ifindex c"
| "address_delete_calls e ifindex (Address6 c) = v6_address_delete e ifindex c"

fun any_address_new :: "interface_ref \<Rightarrow> ip_addr \<Rightarrow> u8 \<Rightarrow> any_address" where
  "any_address_new iface (V4 a) prefix_len = Address4 (ipv4_address_new iface a prefix_len)"
| "any_address_new iface (V6 a) prefix_len = Address6 (ipv6_address_new iface a prefix_len)"

definition add_address :: "'k route_env \<Rightarrow> any_address \<Rightarrow> ('k, unit) op" where
  "add_address env config =
     op_bind (resolve_interface env (address_ref config)) (\<lambda>ifindex.
       op_context ''add_address'' (send_calls env 20 new_flags (Some (address_add_calls (ev_endian env) ifindex config))))"

definition replace_address :: "'k route_env \<Rightarrow> any_address \<Rightarrow> ('k, unit) op" where
  "replace_address env config =
     op_bind (resolve_interface env (address_ref config)) (\<lambda>ifindex.
       op_context ''replace_address''
         (send_calls env 20 replace_flags (Some (address_add_calls (ev_endian env) ifindex config))))"

definition del_address_config :: "'k route_env \<Rightarrow> any_address \<Rightarrow> ('k, unit) op" where
  "del_address_config env config =
     op_bind (resolve_interface env (address_ref config)) (\<lambda>ifindex.
       op_context ''del_address'' (send_calls env 21 ack_only (Some (address_delete_calls (ev_endian env) ifindex config))))"

definition del_address_by_index :: "'k route_env \<Rightarrow> u32 \<Rightarrow> ip_addr \<Rightarrow> u8 \<Rightarrow> ('k, unit) op" where
  "del_address_by_index env ifindex address prefix_len =
     del_address_config env (any_address_new (Index ifindex) address prefix_len)"

definition del_address :: "'k route_env \<Rightarrow> interface_ref \<Rightarrow> ip_addr \<Rightarrow> u8 \<Rightarrow> ('k, unit) op" where
  "del_address env iface address prefix_len =
     op_bind (resolve_interface env iface) (\<lambda>ifindex. del_address_by_index env ifindex address prefix_len)"

definition del_address_if_exists :: "'k route_env \<Rightarrow> interface_ref \<Rightarrow> ip_addr \<Rightarrow> u8 \<Rightarrow> ('k, bool) op" where
  "del_address_if_exists env iface address prefix_len =
     tolerate (\<lambda>err. is_not_found err \<or> errno err = Some 99) (del_address env iface address prefix_len)"

text \<open>Flushing: what vanished in between is no error; the loopback addresses of interface 1 stay.\<close>

definition is_kept_loopback :: "u32 \<Rightarrow> ip_addr \<Rightarrow> bool" where
  "is_kept_loopback ifindex address = (ifindex = 1 \<and> (address = V4 0x7F000001 \<or> address = V6 1))"

fun flush_each :: "'k route_env \<Rightarrow> u32 \<Rightarrow> address_message list \<Rightarrow> ('k, unit) op" where
  "flush_each env ifindex [] = op_return ()"
| "flush_each env ifindex (addr # addrs) =
     (case am_address addr of
        None \<Rightarrow> flush_each env ifindex addrs
      | Some address \<Rightarrow>
          if is_kept_loopback ifindex address then flush_each env ifindex addrs
          else op_then (op_handle (\<lambda>err. if is_not_found err then op_return () else op_fail err)
                 (del_address_by_index env ifindex address (address_prefix_len addr)))
               (flush_each env ifindex addrs))"

definition flush_addresses_by_index :: "'k route_env \<Rightarrow> u32 \<Rightarrow> ('k, unit) op" where
  "flush_addresses_by_index env ifindex = op_bind (get_addresses_by_index env ifindex) (flush_each env ifindex)"

subsection \<open>Routes\<close>

text \<open>The two implementations of \<open>RouteConfig\<close>.\<close>

datatype any_route = Route4 "ipv4 route_config" | Route6 ipv6_route

fun device_ref :: "any_route \<Rightarrow> interface_ref option" where
  "device_ref (Route4 c) = rc_dev c"
| "device_ref (Route6 c) = rc_dev c"

definition hop_refs :: "next_hop list option \<Rightarrow> interface_ref option list" where
  "hop_refs hops = (case hops of None \<Rightarrow> [] | Some nhs \<Rightarrow> map nx_dev nhs)"

fun multipath_device_refs :: "any_route \<Rightarrow> interface_ref option list" where
  "multipath_device_refs (Route4 c) = hop_refs (rc_multipath c)"
| "multipath_device_refs (Route6 c) = hop_refs (rc_multipath c)"

fun route_add_calls :: "endian \<Rightarrow> resolved_route_interfaces \<Rightarrow> any_route \<Rightarrow> call list" where
  "route_add_calls e interfaces (Route4 c) = v4_route_add e interfaces c"
| "route_add_calls e interfaces (Route6 c) = v6_route_add e interfaces c"

fun route_delete_calls :: "endian \<Rightarrow> resolved_route_interfaces \<Rightarrow> any_route \<Rightarrow> call list" where
  "route_delete_calls e interfaces (Route4 c) = v4_route_delete e interfaces c"
| "route_delete_calls e interfaces (Route6 c) = v6_route_delete e interfaces c"

fun resolve_each :: "'k route_env \<Rightarrow> interface_ref option list \<Rightarrow> ('k, u32 option list) op" where
  "resolve_each env [] = op_return []"
| "resolve_each env (iface # ifaces) =
     op_bind (resolve_interface_opt env iface) (\<lambda>idx.
     op_bind (resolve_each env ifaces) (\<lambda>rest. op_return (idx # rest)))"

definition resolve_route_interfaces :: "'k route_env \<Rightarrow> any_route \<Rightarrow> ('k, resolved_route_interfaces) op" where
  "resolve_route_interfaces env config =
     op_bind (resolve_interface_opt env (device_ref config)) (\<lambda>oif.
     op_bind (resolve_each env (multipath_device_refs config)) (\<lambda>multipath.
       op_return \<lparr>ri_oif = oif, ri_multipath = multipath\<rparr>))"

definition add_route :: "'k route_env \<Rightarrow> any_route \<Rightarrow> ('k, unit) op" where
  "add_route env config =
     op_bind (resolve_route_interfaces env config) (\<lambda>interfaces.
       op_context ''add_route'' (send_calls env 24 new_flags (Some (route_add_calls (ev_endian env) interfaces config))))"

definition replace_route :: "'k route_env \<Rightarrow> any_route \<Rightarrow> ('k, unit) op" where
  "replace_route env config =
     op_bind (resolve_route_interfaces env config) (\<lambda>interfaces.
       op_context ''replace_route''
         (send_calls env 24 replace_flags (Some (route_add_calls (ev_endian env) interfaces config))))"

definition del_route :: "'k route_env \<Rightarrow> any_route \<Rightarrow> ('k, unit) op" where
  "del_route env config =
     op_bind (resolve_route_interfaces env config) (\<lambda>interfaces.
       op_context ''del_route'' (send_calls env 25 ack_only (Some (route_delete_calls (ev_endian env) interfaces config))))"

subsection \<open>Qdiscs\<close>

text \<open>\<open>tc_handle::format\<close>.\<close>

definition tc_handle_format :: "u32 \<Rightarrow> string" where
  "tc_handle_format handle =
     (if handle = TC_H_ROOT then ''root'' else if handle = TC_H_INGRESS then ''ingress''
      else if handle = TC_H_CLSACT then ''clsact'' else if handle = 0 then ''none''
      else let maj = unat (drop_bit 16 handle); minor = unat (handle AND 0xFFFF)
           in if minor = 0 then show_hex maj @ '':'' else show_hex maj @ '':'' @ show_hex minor)"

definition qdisc_tcmsg :: "u32 \<Rightarrow> u32 \<Rightarrow> u32 option \<Rightarrow> tc_msg" where
  "qdisc_tcmsg ifindex parent handle =
     tc_msg_with_handle (case handle of Some h \<Rightarrow> h | None \<Rightarrow> 0)
       (tc_msg_with_parent parent (tc_msg_with_ifindex ifindex tc_msg_new))"

text \<open>The header, the kind and the nest of the options; only netem's options can fail.\<close>

definition send_qdisc :: "'k route_env \<Rightarrow> u16 \<Rightarrow> u32 \<Rightarrow> u32 \<Rightarrow> u32 option \<Rightarrow> qdisc_config \<Rightarrow>
    (nl_error \<Rightarrow> nl_error) \<Rightarrow> ('k, unit) op" where
  "send_qdisc env flags ifindex parent handle config wrap =
     (let e = ev_endian env;
          b1 = append_bytes (tc_msg_as_bytes e (qdisc_tcmsg ifindex parent handle)) (mb_new e 36 flags);
          b2 = append_attr_str e 1 (qdisc_kind config) b1
      in case nest_start e 2 b2 of
        (token, b3) \<Rightarrow>
          (case write_options e (ev_psched env) config b3 of
             None \<Rightarrow> op_fail (InvalidMessage ''netem: reorder requires delay to be set'')
           | Some b4 \<Rightarrow>
               (case nest_end e token b4 of
                  None \<Rightarrow> op_panic
                | Some b5 \<Rightarrow> op_map_err wrap (request_ack env b5))))"

definition add_qdisc_by_index_full :: "'k route_env \<Rightarrow> u32 \<Rightarrow> u32 \<Rightarrow> u32 option \<Rightarrow> qdisc_config \<Rightarrow> ('k, unit) op" where
  "add_qdisc_by_index_full env ifindex parent handle config =
     send_qdisc env (NLM_F_REQUEST OR NLM_F_ACK OR 0x400) ifindex parent handle config
       (\<lambda>err. with_context err ''add_qdisc'')"

definition add_qdisc_full :: "'k route_env \<Rightarrow> interface_ref \<Rightarrow> u32 \<Rightarrow> u32 option \<Rightarrow> qdisc_config \<Rightarrow> ('k, unit) op" where
  "add_qdisc_full env dev parent handle config =
     op_bind (resolve_interface env dev) (\<lambda>ifindex. add_qdisc_by_index_full env ifindex parent handle config)"

definition conn_add_qdisc :: "'k route_env \<Rightarrow> interface_ref \<Rightarrow> qdisc_config \<Rightarrow> ('k, unit) op" where
  "conn_add_qdisc env dev config = add_qdisc_full env dev TC_H_ROOT None config"

definition replace_qdisc_by_index_full :: "'k route_env \<Rightarrow> u32 \<Rightarrow> u32 \<Rightarrow> u32 option \<Rightarrow> qdisc_config \<Rightarrow> ('k, unit) op" where
  "replace_qdisc_by_index_full env ifindex parent handle config =
     send_qdisc env replace_flags ifindex parent handle config (\<lambda>err. with_context err ''replace_qdisc'')"

definition replace_qdisc_full :: "'k route_env \<Rightarrow> interface_ref \<Rightarrow> u32 \<Rightarrow> u32 option \<Rightarrow> qdisc_config \<Rightarrow> ('k, unit) op" where
  "replace_qdisc_full env dev parent handle config =
     op_bind (resolve_interface env dev) (\<lambda>ifindex. replace_qdisc_by_index_full env ifindex parent handle config)"

definition conn_replace_qdisc :: "'k route_env \<Rightarrow> interface_ref \<Rightarrow> qdisc_config \<Rightarrow> ('k, unit) op" where
  "conn_replace_qdisc env dev config = replace_qdisc_full env dev TC_H_ROOT None config"

definition change_qdisc_by_index_full :: "'k route_env \<Rightarrow> u32 \<Rightarrow> u32 \<Rightarrow> u32 option \<Rightarrow> qdisc_config \<Rightarrow> ('k, unit) op" where
  "change_qdisc_by_index_full env ifindex parent handle config =
     send_qdisc env ack_only ifindex parent handle config
       (not_found_as (QdiscNotFound (qdisc_kind config) (ifindex_text ifindex))
         (''change_qdisc('' @ ifindex_text ifindex @ '', parent='' @ tc_handle_format parent @ '')''))"

definition del_qdisc_by_index_full :: "'k route_env \<Rightarrow> u32 \<Rightarrow> u32 \<Rightarrow> u32 option \<Rightarrow> ('k, unit) op" where
  "del_qdisc_by_index_full env ifindex parent handle =
     op_map_err (not_found_as
         (QdiscNotFound (tc_handle_format (case handle of Some h \<Rightarrow> h | None \<Rightarrow> parent)) (ifindex_text ifindex))
         (''del_qdisc('' @ ifindex_text ifindex @ '', parent='' @ tc_handle_format parent @ '')''))
       (send_calls env 37 ack_only (Some
         [Struct (tc_msg_as_bytes (ev_endian env) (qdisc_tcmsg ifindex parent handle))]))"

definition del_qdisc_full :: "'k route_env \<Rightarrow> interface_ref \<Rightarrow> u32 \<Rightarrow> u32 option \<Rightarrow> ('k, unit) op" where
  "del_qdisc_full env dev parent handle =
     op_bind (resolve_interface env dev) (\<lambda>ifindex. del_qdisc_by_index_full env ifindex parent handle)"

definition del_qdisc :: "'k route_env \<Rightarrow> interface_ref \<Rightarrow> u32 \<Rightarrow> ('k, unit) op" where
  "del_qdisc env dev parent = del_qdisc_full env dev parent None"

definition del_qdisc_if_exists :: "'k route_env \<Rightarrow> interface_ref \<Rightarrow> u32 \<Rightarrow> ('k, bool) op" where
  "del_qdisc_if_exists env dev parent =
     tolerate (\<lambda>err. is_not_found err \<or> is_invalid_argument err) (del_qdisc env dev parent)"

section \<open>Laws of operations\<close>

lemma op_bind_simps [simp]:
  "m s = (Returned (Inr x), s') \<Longrightarrow> op_bind m f s = f x s'"
  "m s = (Returned (Inl err), s') \<Longrightarrow> op_bind m f s = (Returned (Inl err), s')"
  by (simp_all add: op_bind_def)

lemma op_bind_return [simp]: "op_bind (op_return x) f = f x"
  by (rule ext) (simp add: op_bind_def op_return_def)

lemma op_bind_fail [simp]: "op_bind (op_fail err) f = op_fail err"
  by (rule ext) (simp add: op_bind_def op_fail_def)

lemma op_return_bind [simp]: "op_bind m op_return = m"
  by (rule ext) (auto simp: op_bind_def op_return_def split: prod.split outcome.split sum.split)

lemma op_bind_assoc: "op_bind (op_bind m f) g = op_bind m (\<lambda>x. op_bind (f x) g)"
  by (rule ext) (auto simp: op_bind_def split: prod.split outcome.split sum.split)

lemma op_bind_ok:
  "op_bind m f s = (Returned (Inr y), s') \<longleftrightarrow>
   (\<exists>x s1. m s = (Returned (Inr x), s1) \<and> f x s1 = (Returned (Inr y), s'))"
  by (auto simp: op_bind_def split: prod.split outcome.split sum.split)

lemma op_bind_err:
  "op_bind m f s = (Returned (Inl err), s') \<longleftrightarrow>
   m s = (Returned (Inl err), s') \<or>
   (\<exists>x s1. m s = (Returned (Inr x), s1) \<and> f x s1 = (Returned (Inl err), s'))"
  by (auto simp: op_bind_def split: prod.split outcome.split sum.split)

end
