(* ===== verification/Ip_Text.thy ===== *)
theory Ip_Text
  imports Ip_Addr
begin

text \<open>
  \<open>Display\<close> of \<open>IpAddr\<close>: the decimal octets of an \<open>Ipv4Addr\<close>, and of an \<open>Ipv6Addr\<close> its groups
  with the first longest run of at least two zero groups as \<open>::\<close>; an address mapped from IPv4
  ends in the octets.
\<close>

definition v6_segments :: "ipv6 \<Rightarrow> nat list" where
  "v6_segments a = map (\<lambda>i. unat (take_bit 16 (drop_bit (112 - 16 * i) a))) [0..<8]"

text \<open>The loop over the groups: the run that ends here and the longest so far, as start and length.\<close>

fun zero_span :: "nat list \<Rightarrow> nat \<Rightarrow> nat \<times> nat \<Rightarrow> nat \<times> nat \<Rightarrow> nat \<times> nat" where
  "zero_span [] i current longest = longest"
| "zero_span (s # ss) i (start, len) longest =
     (if s = 0 then
        let current = (if len = 0 then i else start, len + 1)
        in zero_span ss (i + 1) current (if snd current > snd longest then current else longest)
      else zero_span ss (i + 1) (0, 0) longest)"

definition fmt_subslice :: "nat list \<Rightarrow> string" where
  "fmt_subslice chunk = join_with '':'' (map show_hex chunk)"

definition show_ipv6 :: "ipv6 \<Rightarrow> string" where
  "show_ipv6 a =
     (let segments = v6_segments a
      in if drop_bit 32 a = 0xFFFF then ''::ffff:'' @ show_ipv4 (ucast a)
         else case zero_span segments 0 (0, 0) (0, 0) of
           (start, len) \<Rightarrow>
             if len > 1 then fmt_subslice (take start segments) @ ''::'' @ fmt_subslice (drop (start + len) segments)
             else fmt_subslice segments)"

fun show_ip :: "ip_addr \<Rightarrow> string" where
  "show_ip (V4 a) = show_ipv4 a"
| "show_ip (V6 a) = show_ipv6 a"

end
