(* ===== verification/Net_Apply.thy ===== *)
theory Net_Apply
  imports Route_Conn Ip_Text
begin

text \<open>
  Applying a declared configuration (\<open>netlink/config/apply.rs\<close>, and \<open>NetworkConfig\<close>'s methods in
  \<open>netlink/config/mod.rs\<close>): the diff over the connection, the requests for each kind of change, the
  phases, and the loop that retries.
\<close>

section \<open>Options and results\<close>

record apply_options =
  ao_dry_run :: bool
  ao_continue_on_error :: bool
  ao_purge :: bool

definition apply_options_default :: apply_options where
  "apply_options_default = \<lparr>ao_dry_run = False, ao_continue_on_error = False, ao_purge = False\<rparr>"

record apply_result =
  ar_changes_made :: nat
  ar_errors :: "(string \<times> nl_error) list"
  ar_summary :: "string list"

definition apply_result_default :: apply_result where
  "apply_result_default = \<lparr>ar_changes_made = 0, ar_errors = [], ar_summary = []\<rparr>"

definition is_success :: "apply_result \<Rightarrow> bool" where
  "is_success r = (ar_errors r = [])"

definition summary_text :: "apply_result \<Rightarrow> string" where
  "summary_text r = (if ar_summary r = [] then ''No changes made'' else join_with [CHR 0x0A] (ar_summary r))"

definition changes_summary :: "link_changes \<Rightarrow> string" where
  "changes_summary c =
     join_with '', '' ((if lc_set_up c then [''up''] else []) @ (if lc_set_down c then [''down''] else []) @
       (case lc_set_mtu c of Some mtu \<Rightarrow> [''mtu='' @ show_nat (unat mtu)] | None \<Rightarrow> []) @
       (case lc_set_master c of Some m \<Rightarrow> [''master='' @ m] | None \<Rightarrow> []) @
       (if lc_unset_master c then [''nomaster''] else []))"

section \<open>The diff of the connection\<close>

definition compute_diff_with_options :: "'k route_env \<Rightarrow> network_config \<Rightarrow> bool \<Rightarrow> ('k, config_diff) op" where
  "compute_diff_with_options env config purge =
     op_bind (get_links env) (\<lambda>links.
     op_bind (get_addresses env) (\<lambda>addresses.
     op_bind (get_routes env) (\<lambda>routes.
     op_bind (get_qdiscs env) (\<lambda>qdiscs.
       op_return (diff_of (ev_endian env) (ev_psched env) config
         \<lparr>kd_links = links, kd_addresses = addresses, kd_routes = routes, kd_qdiscs = qdiscs\<rparr> purge)))))"

definition config_diff_now :: "'k route_env \<Rightarrow> network_config \<Rightarrow> ('k, config_diff) op" where
  "config_diff_now env config = compute_diff_with_options env config False"

section \<open>Links\<close>

text \<open>
  The configuration \<open>create_link\<close> builds, kind by kind: which fields of the declaration each
  passes on.  A physical link is not created.
\<close>

definition v4_only :: "ip_addr option \<Rightarrow> ipv4 option" where
  "v4_only a = (case a of Some (V4 x) \<Rightarrow> Some x | _ \<Rightarrow> None)"

definition v6_only :: "ip_addr option \<Rightarrow> ipv6 option" where
  "v6_only a = (case a of Some (V6 x) \<Rightarrow> Some x | _ \<Rightarrow> None)"

fun link_of_type :: "declared_link \<Rightarrow> declared_link_type \<Rightarrow> any_link option" where
  "link_of_type l declared_link_type.Dummy =
     Some (Dummy ((dummy_link_new (dl_name l))\<lparr>du_mtu := dl_mtu l, du_address := dl_address l\<rparr>))"
| "link_of_type l (declared_link_type.Veth peer) =
     Some (Veth ((veth_link_new (dl_name l) peer)\<lparr>ve_mtu := dl_mtu l, ve_address := dl_address l\<rparr>))"
| "link_of_type l declared_link_type.Bridge =
     Some (Bridge ((bridge_link_new (dl_name l))\<lparr>br_mtu := dl_mtu l, br_address := dl_address l\<rparr>))"
| "link_of_type l (declared_link_type.Vlan parent vlan_id protocol) =
     Some (Vlan ((vlan_link_new (dl_name l) parent vlan_id)
       \<lparr>vl_mtu := dl_mtu l, vl_protocol := map_option vlan_protocol_code protocol\<rparr>))"
| "link_of_type l (declared_link_type.Vxlan vni remote local port underlay_dev) =
     Some (Vxlan ((vxlan_link_new (dl_name l) vni)
       \<lparr>vx_remote := v4_only remote, vx_local := v4_only local, vx_port := port,
        vx_dev := map_option Name underlay_dev\<rparr>))"
| "link_of_type l (declared_link_type.Macvlan parent mode) =
     Some (Macvlan ((macvlan_link_new (dl_name l) parent)\<lparr>mv_mode := mode, mv_address := dl_address l\<rparr>))"
| "link_of_type l (declared_link_type.Bond mode miimon policy min_links sel rate downdelay updelay resend_igmp) =
     Some (Bond ((bond_link_new (dl_name l))
       \<lparr>bo_mode := mode, bo_miimon := miimon,
        bo_xmit_hash_policy := Option.bind policy xmit_hash_policy_try_from, bo_min_links := min_links,
        bo_ad_select := sel, bo_lacp_rate := rate, bo_downdelay := downdelay, bo_updelay := updelay,
        bo_resend_igmp := resend_igmp, bo_mtu := dl_mtu l, bo_address := dl_address l\<rparr>))"
| "link_of_type l declared_link_type.Ifb = Some (Ifb (ifb_link_new (dl_name l)))"
| "link_of_type l (declared_link_type.Vrf table) = Some (Vrf ((vrf_link_new (dl_name l) table)\<lparr>vr_mtu := dl_mtu l\<rparr>))"
| "link_of_type l declared_link_type.Ovpn = Some (Ovpn ((ovpn_link_new (dl_name l))\<lparr>ov_mtu := dl_mtu l\<rparr>))"
| "link_of_type l (declared_link_type.Netkit peer mode primary_policy peer_policy scrub peer_scrub) =
     Some (Netkit ((netkit_link_new (dl_name l) peer)
       \<lparr>nk_mode := mode, nk_policy := primary_policy, nk_peer_policy := peer_policy, nk_scrub := scrub,
        nk_peer_scrub := peer_scrub, nk_mtu := dl_mtu l\<rparr>))"
| "link_of_type l declared_link_type.Physical = None"

definition create_link :: "'k route_env \<Rightarrow> declared_link \<Rightarrow> ('k, unit) op" where
  "create_link env l =
     op_then (op_each (link_of_type l (dl_type l)) (\<lambda>a. add_link env (config_of a)))
       (op_then (op_when (dl_state l = Up) (set_link_up env (Name (dl_name l))))
         (op_each (dl_master l) (\<lambda>master. set_link_master env (Name (dl_name l)) (Name master))))"

definition modify_link :: "'k route_env \<Rightarrow> string \<times> link_changes \<Rightarrow> ('k, unit) op" where
  "modify_link env change =
     (case change of (name, changes) \<Rightarrow>
        op_then (op_when (lc_set_up changes) (set_link_up env (Name name)))
          (op_then (op_when (lc_set_down changes) (set_link_down env (Name name)))
            (op_then (op_each (lc_set_mtu changes) (set_link_mtu env (Name name)))
              (op_then (op_each (lc_set_master changes) (\<lambda>master. set_link_master env (Name name) (Name master)))
                (op_when (lc_unset_master changes) (set_link_nomaster env (Name name)))))))"

section \<open>Addresses and routes\<close>

definition apply_add_address :: "'k route_env \<Rightarrow> declared_address \<Rightarrow> ('k, unit) op" where
  "apply_add_address env a = add_address env (any_address_new (Name (da_dev a)) (da_address a) (da_prefix_len a))"

definition apply_del_address :: "'k route_env \<Rightarrow> declared_address \<Rightarrow> ('k, unit) op" where
  "apply_del_address env a = del_address env (Name (da_dev a)) (da_address a) (da_prefix_len a)"

fun declared_type_code :: "declared_route_type \<Rightarrow> route_type" where
  "declared_type_code Unicast = RtUnicast"
| "declared_type_code Blackhole = RtBlackhole"
| "declared_type_code Unreachable = RtUnreachable"
| "declared_type_code Prohibit = RtProhibit"

text \<open>The setters \<open>add_route\<close> and \<open>del_route\<close> both call; a gateway of the other family is not set.\<close>

definition declared_fields :: "'a option \<Rightarrow> declared_route \<Rightarrow> ('a, 'b) route_config_scheme \<Rightarrow> ('a, 'b) route_config_scheme" where
  "declared_fields gateway r c =
     (let c = with_opt route_set_gateway gateway c;
          c = with_opt (\<lambda>dev c. c\<lparr>rc_dev := Some (Name dev)\<rparr>) (dr_dev r) c;
          c = with_opt (\<lambda>metric c. c\<lparr>rc_priority := Some metric\<rparr>) (dr_metric r) c
      in with_opt (\<lambda>table c. c\<lparr>rc_table := table\<rparr>) (dr_table r) c)"

definition del_route_config :: "declared_route \<Rightarrow> any_route" where
  "del_route_config r =
     (case dr_destination r of
        V4 dst \<Rightarrow> Route4 (declared_fields (v4_only (dr_gateway r)) r (ipv4_route_from_addr dst (dr_prefix_len r)))
      | V6 dst \<Rightarrow> Route6 (declared_fields (v6_only (dr_gateway r)) r (ipv6_route_from_addr dst (dr_prefix_len r))))"

definition add_route_config :: "declared_route \<Rightarrow> any_route" where
  "add_route_config r =
     (case dr_destination r of
        V4 dst \<Rightarrow> Route4 ((declared_fields (v4_only (dr_gateway r)) r (ipv4_route_from_addr dst (dr_prefix_len r)))
          \<lparr>rc_route_type := declared_type_code (dr_route_type r)\<rparr>)
      | V6 dst \<Rightarrow> Route6 ((declared_fields (v6_only (dr_gateway r)) r (ipv6_route_from_addr dst (dr_prefix_len r)))
          \<lparr>rc_route_type := declared_type_code (dr_route_type r)\<rparr>))"

definition apply_add_route :: "'k route_env \<Rightarrow> declared_route \<Rightarrow> ('k, unit) op" where
  "apply_add_route env r = replace_route env (add_route_config r)"

definition apply_del_route :: "'k route_env \<Rightarrow> declared_route \<Rightarrow> ('k, unit) op" where
  "apply_del_route env r = del_route env (del_route_config r)"

section \<open>Qdiscs\<close>

fun apply_add_qdisc :: "'k route_env \<Rightarrow> declared_qdisc \<Rightarrow> ('k, unit) op" where
  "apply_add_qdisc env q =
     (case dq_type q of
        Htb _ \<Rightarrow> add_qdisc_full env (Name (dq_dev q)) TC_H_ROOT (Some 0x10000) (typed_config (dq_type q))
      | _ \<Rightarrow> conn_add_qdisc env (Name (dq_dev q)) (typed_config (dq_type q)))"

definition parent_handle :: "qdisc_parent \<Rightarrow> u32" where
  "parent_handle p = (case p of Root \<Rightarrow> TC_H_ROOT | Ingress \<Rightarrow> TC_H_INGRESS)"

definition is_pseudo_qdisc :: "declared_qdisc_type \<Rightarrow> bool" where
  "is_pseudo_qdisc t = (t = IngressQdisc \<or> t = Clsact)"

definition apply_replace_qdisc :: "'k route_env \<Rightarrow> declared_qdisc \<Rightarrow> ('k, unit) op" where
  "apply_replace_qdisc env q =
     (if is_pseudo_qdisc (dq_type q) then
        op_then (op_handle (\<lambda>err. if is_not_found err then op_return () else op_fail err)
            (del_qdisc env (Name (dq_dev q)) (parent_handle (dq_parent q))))
          (apply_add_qdisc env q)
      else case dq_type q of
          Htb _ \<Rightarrow> replace_qdisc_full env (Name (dq_dev q)) TC_H_ROOT (Some 0x10000) (typed_config (dq_type q))
        | _ \<Rightarrow> conn_replace_qdisc env (Name (dq_dev q)) (typed_config (dq_type q)))"

section \<open>Phases\<close>

text \<open>
  What the eight loops of \<open>apply_diff\<close> each spell out: dry runs count; a failure is recorded or
  ends the whole application.  A step has its description, the summary of its success and its
  operation.
\<close>

record 'k apply_step =
  sp_op :: string
  sp_done :: string
  sp_run :: "('k, unit) op"

definition push_summary :: "string \<Rightarrow> apply_result \<Rightarrow> apply_result" where
  "push_summary line r = r\<lparr>ar_summary := ar_summary r @ [line], ar_changes_made := ar_changes_made r + 1\<rparr>"

definition push_error :: "string \<Rightarrow> nl_error \<Rightarrow> apply_result \<Rightarrow> apply_result" where
  "push_error operation err r = r\<lparr>ar_errors := ar_errors r @ [(operation, err)]\<rparr>"

definition apply_one :: "apply_options \<Rightarrow> 'k apply_step \<Rightarrow> apply_result \<Rightarrow> ('k, apply_result) op" where
  "apply_one options step r =
     (if ao_dry_run options then op_return (push_summary (''Would '' @ sp_op step) r)
      else op_handle
        (\<lambda>err. if ao_continue_on_error options then op_return (push_error (sp_op step) err r) else op_fail err)
        (op_bind (sp_run step) (\<lambda>_. op_return (push_summary (sp_done step) r))))"

fun apply_phase :: "apply_options \<Rightarrow> ('x \<Rightarrow> 'k apply_step) \<Rightarrow> 'x list \<Rightarrow> apply_result \<Rightarrow> ('k, apply_result) op" where
  "apply_phase options f [] r = op_return r"
| "apply_phase options f (x # xs) r = op_bind (apply_one options (f x) r) (apply_phase options f xs)"

definition link_step :: "'k route_env \<Rightarrow> declared_link \<Rightarrow> 'k apply_step" where
  "link_step env l =
     \<lparr>sp_op = ''create link '' @ dl_name l, sp_done = ''Created link '' @ dl_name l, sp_run = create_link env l\<rparr>"

definition modify_step :: "'k route_env \<Rightarrow> string \<times> link_changes \<Rightarrow> 'k apply_step" where
  "modify_step env change =
     (case change of (name, changes) \<Rightarrow>
        let text = name @ '' ('' @ changes_summary changes @ '')''
        in \<lparr>sp_op = ''modify link '' @ text, sp_done = ''Modified link '' @ text, sp_run = modify_link env change\<rparr>)"

definition address_text :: "declared_address \<Rightarrow> string" where
  "address_text a =
     show_ip (da_address a) @ ''/'' @ show_nat (unat (da_prefix_len a)) @ '' on '' @ da_dev a"

definition add_address_step :: "'k route_env \<Rightarrow> declared_address \<Rightarrow> 'k apply_step" where
  "add_address_step env a =
     \<lparr>sp_op = ''add address '' @ address_text a, sp_done = ''Added address '' @ address_text a,
      sp_run = apply_add_address env a\<rparr>"

definition route_text :: "declared_route \<Rightarrow> string" where
  "route_text r = show_ip (dr_destination r) @ ''/'' @ show_nat (unat (dr_prefix_len r))"

definition add_route_step :: "'k route_env \<Rightarrow> declared_route \<Rightarrow> 'k apply_step" where
  "add_route_step env r =
     \<lparr>sp_op = ''add route '' @ route_text r, sp_done = ''Added route '' @ route_text r, sp_run = apply_add_route env r\<rparr>"

definition qdisc_text :: "declared_qdisc \<Rightarrow> string" where
  "qdisc_text q = declared_qdisc_kind (dq_type q) @ '' on '' @ dq_dev q"

definition replace_qdisc_step :: "'k route_env \<Rightarrow> declared_qdisc \<Rightarrow> 'k apply_step" where
  "replace_qdisc_step env q =
     \<lparr>sp_op = ''replace qdisc '' @ qdisc_text q, sp_done = ''Replaced qdisc '' @ qdisc_text q,
      sp_run = apply_replace_qdisc env q\<rparr>"

definition add_qdisc_step :: "'k route_env \<Rightarrow> declared_qdisc \<Rightarrow> 'k apply_step" where
  "add_qdisc_step env q =
     \<lparr>sp_op = ''add qdisc '' @ qdisc_text q, sp_done = ''Added qdisc '' @ qdisc_text q, sp_run = apply_add_qdisc env q\<rparr>"

definition del_route_step :: "'k route_env \<Rightarrow> declared_route \<Rightarrow> 'k apply_step" where
  "del_route_step env r =
     \<lparr>sp_op = ''remove route '' @ route_text r, sp_done = ''Removed route '' @ route_text r, sp_run = apply_del_route env r\<rparr>"

definition del_address_step :: "'k route_env \<Rightarrow> declared_address \<Rightarrow> 'k apply_step" where
  "del_address_step env a =
     \<lparr>sp_op = ''remove address '' @ address_text a, sp_done = ''Removed address '' @ address_text a,
      sp_run = apply_del_address env a\<rparr>"

definition apply_diff :: "'k route_env \<Rightarrow> config_diff \<Rightarrow> apply_options \<Rightarrow> ('k, apply_result) op" where
  "apply_diff env diff options =
     (if diff_is_empty diff then op_return apply_result_default
      else
        op_bind (apply_phase options (link_step env) (cd_links_to_add diff) apply_result_default) (\<lambda>r.
        op_bind (apply_phase options (modify_step env) (cd_links_to_modify diff) r) (\<lambda>r.
        op_bind (apply_phase options (add_address_step env) (cd_addresses_to_add diff) r) (\<lambda>r.
        op_bind (apply_phase options (add_route_step env) (cd_routes_to_add diff) r) (\<lambda>r.
        op_bind (apply_phase options (replace_qdisc_step env) (cd_qdiscs_to_replace diff) r) (\<lambda>r.
        op_bind (apply_phase options (add_qdisc_step env) (cd_qdiscs_to_add diff) r) (\<lambda>r.
        op_bind (apply_phase options (del_route_step env) (cd_routes_to_remove diff) r)
          (apply_phase options (del_address_step env) (cd_addresses_to_remove diff)))))))))"

definition apply_config :: "'k route_env \<Rightarrow> network_config \<Rightarrow> apply_options \<Rightarrow> ('k, apply_result) op" where
  "apply_config env config options =
     op_bind (compute_diff_with_options env config (ao_purge options)) (\<lambda>diff. apply_diff env diff options)"

definition config_apply :: "'k route_env \<Rightarrow> network_config \<Rightarrow> ('k, apply_result) op" where
  "config_apply env config = apply_config env config apply_options_default"

section \<open>Reconciling\<close>

record reconcile_options =
  ro_max_retries :: nat
  ro_backoff :: nat

record reconcile_report =
  rr_attempts :: nat
  rr_change_count :: nat

definition DURATION_MAX :: nat where
  "DURATION_MAX = (2 ^ 64 - 1) * 10 ^ 9 + 999999999"

definition reconcile_backoff :: "reconcile_options \<Rightarrow> nat \<Rightarrow> nat" where
  "reconcile_backoff ro attempt = min DURATION_MAX (ro_backoff ro * 2 ^ min attempt 10)"

definition is_transient :: "nl_error \<Rightarrow> bool" where
  "is_transient err = (is_busy err \<or> is_try_again err)"

text \<open>\<open>nap\<close> is what the kernel does while the loop sleeps.\<close>

function reconcile_loop :: "'k route_env \<Rightarrow> (nat \<Rightarrow> 'k \<Rightarrow> 'k) \<Rightarrow> network_config \<Rightarrow> reconcile_options \<Rightarrow> nat \<Rightarrow> nat \<Rightarrow>
    ('k, reconcile_report) op" where
  "reconcile_loop env nap config ro attempt cumulative s =
     op_bind (config_diff_now env config) (\<lambda>diff s1.
       if diff_is_empty diff
       then (Returned (Inr \<lparr>rr_attempts = attempt + 1, rr_change_count = cumulative\<rparr>), s1)
       else case apply_diff env diff apply_options_default s1 of
           (Returned (Inr r), s2) \<Rightarrow>
             (Returned (Inr \<lparr>rr_attempts = attempt + 1, rr_change_count = cumulative + ar_changes_made r\<rparr>), s2)
         | (Returned (Inl err), (c, k)) \<Rightarrow>
             if is_transient err \<and> attempt < ro_max_retries ro
             then reconcile_loop env nap config ro (attempt + 1) cumulative (c, nap (reconcile_backoff ro attempt) k)
             else (Returned (Inl err), (c, k))
         | (Waiting, s2) \<Rightarrow> (Waiting, s2)
         | (Panicked, s2) \<Rightarrow> (Panicked, s2)) s"
  by pat_completeness auto
termination by (relation "measure (\<lambda>(env, nap, config, ro, attempt, cumulative, s). ro_max_retries ro - attempt)") auto

declare reconcile_loop.simps [simp del]

definition apply_reconcile :: "'k route_env \<Rightarrow> (nat \<Rightarrow> 'k \<Rightarrow> 'k) \<Rightarrow> network_config \<Rightarrow> reconcile_options \<Rightarrow>
    ('k, reconcile_report) op" where
  "apply_reconcile env nap config ro = reconcile_loop env nap config ro 0 0"

end
