(* ===== verification/Net_Apply_Spec.thy ===== *)
theory Net_Apply_Spec
  imports Net_Apply
begin

text \<open>
  What applying a configuration promises: the phases are one plan, executed in order; how results,
  errors and the early return account for its steps; how often reconciling retries.
\<close>

section \<open>One plan\<close>

definition apply_plan :: "'k route_env \<Rightarrow> config_diff \<Rightarrow> 'k apply_step list" where
  "apply_plan env diff =
     map (link_step env) (cd_links_to_add diff) @ map (modify_step env) (cd_links_to_modify diff) @
     map (add_address_step env) (cd_addresses_to_add diff) @ map (add_route_step env) (cd_routes_to_add diff) @
     map (replace_qdisc_step env) (cd_qdiscs_to_replace diff) @ map (add_qdisc_step env) (cd_qdiscs_to_add diff) @
     map (del_route_step env) (cd_routes_to_remove diff) @ map (del_address_step env) (cd_addresses_to_remove diff)"

lemma plan_length: "length (apply_plan env diff) = change_count diff"
  by (simp add: apply_plan_def change_count_def)

lemma phase_map: "apply_phase options f xs = apply_phase options id (map f xs)"
proof
  show "apply_phase options f xs r = apply_phase options id (map f xs) r" for r
    by (induction xs arbitrary: r) (auto intro!: arg_cong2[where f = op_bind])
qed

lemma phase_append:
  "apply_phase options f (xs @ ys) = (\<lambda>r. op_bind (apply_phase options f xs r) (apply_phase options f ys))"
  by (induction xs) (rule ext, simp add: op_bind_assoc)+

lemma apply_diff_plan: "apply_diff env diff options = apply_phase options id (apply_plan env diff) apply_result_default"
proof (cases "diff_is_empty diff")
  case True
  then show ?thesis by (simp add: apply_diff_def apply_plan_def diff_is_empty_def)
next
  case False
  note maps = phase_map[of options "link_step env"] phase_map[of options "modify_step env"]
    phase_map[of options "add_address_step env"] phase_map[of options "add_route_step env"]
    phase_map[of options "replace_qdisc_step env"] phase_map[of options "add_qdisc_step env"]
    phase_map[of options "del_route_step env"] phase_map[of options "del_address_step env"]
  show ?thesis
    unfolding apply_diff_def apply_plan_def if_not_P[OF False] maps phase_append op_bind_assoc ..
qed

text \<open>Dry runs: nothing is sent, every step is counted and announced.\<close>

lemma dry_phase:
  "ao_dry_run options \<Longrightarrow> apply_phase options id steps r s =
     (Returned (Inr (r\<lparr>ar_changes_made := ar_changes_made r + length steps,
        ar_summary := ar_summary r @ map (\<lambda>st. ''Would '' @ sp_op st) steps\<rparr>)), s)"
  by (induction steps arbitrary: r) (simp_all add: apply_one_def op_return_def op_bind_def push_summary_def)

text \<open>The outcomes of steps run one after the other, as long as none waits for ever or panics.\<close>

fun outcomes :: "'k apply_step list \<Rightarrow> connection \<times> 'k \<Rightarrow> (unit nl_result list \<times> (connection \<times> 'k)) option" where
  "outcomes [] s = Some ([], s)"
| "outcomes (step # steps) s =
     (case sp_run step s of
        (Returned x, s1) \<Rightarrow> map_option (\<lambda>(xs, s2). (x # xs, s2)) (outcomes steps s1)
      | _ \<Rightarrow> None)"

definition done_lines :: "('k apply_step \<times> unit nl_result) list \<Rightarrow> string list" where
  "done_lines ps = map (\<lambda>(st, x). sp_done st) (filter (\<lambda>(st, x). \<not> isl x) ps)"

definition failures :: "('k apply_step \<times> unit nl_result) list \<Rightarrow> (string \<times> nl_error) list" where
  "failures ps = map (\<lambda>(st, x). (sp_op st, projl x)) (filter (\<lambda>(st, x). isl x) ps)"

lemma continue_phase:
  assumes "\<not> ao_dry_run options" "ao_continue_on_error options" "outcomes steps s = Some (xs, s')"
  shows "apply_phase options id steps r s =
    (Returned (Inr (r\<lparr>ar_changes_made := ar_changes_made r + length (done_lines (zip steps xs)),
       ar_errors := ar_errors r @ failures (zip steps xs),
       ar_summary := ar_summary r @ done_lines (zip steps xs)\<rparr>)), s')"
  using assms(3)
proof (induction steps arbitrary: r s xs)
  case Nil
  then show ?case by (simp add: op_return_def done_lines_def failures_def)
next
  case (Cons step steps)
  then obtain x s1 ys where run: "sp_run step s = (Returned x, s1)" "outcomes steps s1 = Some (ys, s')" "xs = x # ys"
    by (auto split: prod.splits outcome.splits)
  have "apply_one options step r s = (Returned (Inr (case x of
      Inr _ \<Rightarrow> push_summary (sp_done step) r | Inl err \<Rightarrow> push_error (sp_op step) err r)), s1)"
    using run(1) assms(1,2)
    by (cases x) (simp_all add: apply_one_def op_handle_def op_bind_def op_return_def)
  then show ?case
    using Cons.IH[OF run(2)] run(3)
    by (cases x) (simp_all add: op_bind_def push_summary_def push_error_def done_lines_def failures_def)
qed

lemma failing_phase:
  assumes "\<not> ao_dry_run options" "\<not> ao_continue_on_error options"
  shows "apply_phase options id steps r s = (Returned (Inl err), s') \<longleftrightarrow>
    (\<exists>pre step post xs s1. steps = pre @ step # post \<and> outcomes pre s = Some (xs, s1) \<and> list_all (\<lambda>x. \<not> isl x) xs \<and>
       sp_run step s1 = (Returned (Inl err), s'))"
proof (induction steps arbitrary: r s)
  case Nil
  then show ?case by (simp add: op_return_def)
next
  case (Cons step steps)
  have one: "apply_one options step r s =
      (case sp_run step s of
         (Returned (Inr _), s1) \<Rightarrow> (Returned (Inr (push_summary (sp_done step) r)), s1)
       | (Returned (Inl err), s1) \<Rightarrow> (Returned (Inl err), s1)
       | (Waiting, s1) \<Rightarrow> (Waiting, s1) | (Panicked, s1) \<Rightarrow> (Panicked, s1))"
    using assms by (auto simp: apply_one_def op_handle_def op_bind_def op_return_def op_fail_def
        split: prod.split outcome.split sum.split)
  show ?case (is "?l \<longleftrightarrow> ?r")
  proof (cases "fst (sp_run step s)")
    case (Returned x)
    then obtain s1 where run: "sp_run step s = (Returned x, s1)" by (metis prod.collapse)
    show ?thesis
    proof (cases x)
      case (Inl err')
      then have "?l \<longleftrightarrow> err' = err \<and> s1 = s'" using run one by (simp add: op_bind_def)
      moreover have "?r" if "err' = err" "s1 = s'"
        using run Inl that by (intro exI[of _ "[]"] exI[of _ step] exI[of _ steps] exI[of _ s]) simp
      moreover have "err' = err \<and> s1 = s'" if "?r"
        using run Inl that by (auto simp: Cons_eq_append_conv split: prod.splits)
      ultimately show ?thesis by blast
    next
      case (Inr u)
      have "?l \<longleftrightarrow> apply_phase options id steps (push_summary (sp_done step) r) s1 = (Returned (Inl err), s')"
        using run one Inr by (simp add: op_bind_def id_def)
      moreover have "?r \<longleftrightarrow> (\<exists>pre st post xs s2. steps = pre @ st # post \<and> outcomes pre s1 = Some (xs, s2) \<and>
          list_all (\<lambda>x. \<not> isl x) xs \<and> sp_run st s2 = (Returned (Inl err), s'))"
        (is "_ \<longleftrightarrow> ?r'")
      proof
        assume ?r
        then obtain pre st post xs s2 where split: "step # steps = pre @ st # post" "outcomes pre s = Some (xs, s2)"
          "list_all (\<lambda>x. \<not> isl x) xs" "sp_run st s2 = (Returned (Inl err), s')" by blast
        show ?r'
        proof (cases pre)
          case Nil
          then show ?thesis using split run Inr by simp
        next
          case (Cons p ps)
          then obtain ys where "steps = ps @ st # post" "outcomes ps s1 = Some (ys, s2)" "xs = Inr u # ys"
            using split(1,2) run Inr by auto
          then show ?thesis
            using split(3,4) by (intro exI[of _ ps] exI[of _ st] exI[of _ post] exI[of _ ys] exI[of _ s2]) simp
        qed
      next
        assume ?r'
        then obtain pre st post xs s2 where "steps = pre @ st # post" "outcomes pre s1 = Some (xs, s2)"
          "list_all (\<lambda>x. \<not> isl x) xs" "sp_run st s2 = (Returned (Inl err), s')" by blast
        then show ?r
          using run Inr
          by (intro exI[of _ "step # pre"] exI[of _ st] exI[of _ post] exI[of _ "Inr u # xs"] exI[of _ s2]) simp
      qed
      ultimately show ?thesis using Cons.IH by simp
    qed
  next
    case Waiting
    then show ?thesis using one by (auto simp: op_bind_def Cons_eq_append_conv split: prod.splits)
  next
    case Panicked
    then show ?thesis using one by (auto simp: op_bind_def Cons_eq_append_conv split: prod.splits)
  qed
qed

section \<open>Applying\<close>

text \<open>
  C30. Applying a diff runs one plan - links created, links modified, addresses and routes added, qdiscs
  replaced and added, routes and addresses removed - and accounts for each of its steps once.  A dry
  run sends nothing and counts the changes of the diff; a run that continues on errors performs
  every step, its result has the summary line of each step that succeeded and the error of each that
  failed, in the order of the plan.
\<close>

theorem apply_accounts:
  assumes "ao_dry_run options \<or> ao_continue_on_error options \<and> outcomes (apply_plan env diff) s = Some (xs, s')"
  shows "apply_diff env diff options s =
    (if ao_dry_run options
     then (Returned (Inr \<lparr>ar_changes_made = change_count diff, ar_errors = [],
             ar_summary = map (\<lambda>st. ''Would '' @ sp_op st) (apply_plan env diff)\<rparr>), s)
     else (Returned (Inr \<lparr>ar_changes_made = length (done_lines (zip (apply_plan env diff) xs)),
             ar_errors = failures (zip (apply_plan env diff) xs),
             ar_summary = done_lines (zip (apply_plan env diff) xs)\<rparr>), s'))"
proof (cases "ao_dry_run options")
  case True
  then show ?thesis by (simp add: apply_diff_plan dry_phase plan_length apply_result_default_def)
next
  case False
  then show ?thesis
    using assms continue_phase[OF False, of "apply_plan env diff" s xs s' apply_result_default]
    by (simp add: apply_diff_plan apply_result_default_def)
qed

text \<open>Two links, one that is there and one that no kernel is asked for: its name is empty.\<close>

abbreviation two_links :: config_diff where
  "two_links \<equiv> config_diff_default\<lparr>cd_links_to_add := [link_builder_new ''eth0'', (link_builder_new [])\<lparr>dl_type := declared_link_type.Dummy\<rparr>]\<rparr>"

lemma two_links_outcomes:
  "outcomes (apply_plan env two_links) s = Some ([Inr (), Inl (Interface (IfInvalidName ''empty name''))], s)"
  by (simp add: apply_plan_def config_diff_default_def link_step_def create_link_def link_builder_new_def op_each_def
      op_bind_def op_return_def op_lift_def add_link_def validate_name_def ifname_validate_def
      dummy_link_new_def dummy_config_def)

theorem apply_accounts_witness:
  "\<forall>env s.
     apply_diff env two_links \<lparr>ao_dry_run = True, ao_continue_on_error = False, ao_purge = False\<rparr> s =
       (Returned (Inr \<lparr>ar_changes_made = 2, ar_errors = [],
          ar_summary = [''Would create link eth0'', ''Would create link '']\<rparr>), s) \<and>
     apply_diff env two_links \<lparr>ao_dry_run = False, ao_continue_on_error = True, ao_purge = False\<rparr> s =
       (Returned (Inr \<lparr>ar_changes_made = 1,
          ar_errors = [(''create link '', Interface (IfInvalidName ''empty name''))],
          ar_summary = [''Created link eth0'']\<rparr>), s)"
proof (intro allI conjI)
  fix env :: "'k route_env" and s
  have plan: "map sp_op (apply_plan env two_links) = [''create link eth0'', ''create link '']"
    "map sp_done (apply_plan env two_links) = [''Created link eth0'', ''Created link '']"
    by (simp_all add: apply_plan_def config_diff_default_def link_step_def link_builder_new_def)
  obtain x y where xy: "apply_plan env two_links = [x, y]" "sp_op x = ''create link eth0''" "sp_op y = ''create link ''"
    "sp_done x = ''Created link eth0''"
    using plan by auto
  show "apply_diff env two_links \<lparr>ao_dry_run = True, ao_continue_on_error = False, ao_purge = False\<rparr> s =
       (Returned (Inr \<lparr>ar_changes_made = 2, ar_errors = [],
          ar_summary = [''Would create link eth0'', ''Would create link '']\<rparr>), s)"
    by (subst apply_accounts[where xs = "[]" and s' = s], simp,
        simp only: if_True apply_options.simps change_count_def xy list.map(1,2) append.simps)
      (simp add: config_diff_default_def)
  show "apply_diff env two_links \<lparr>ao_dry_run = False, ao_continue_on_error = True, ao_purge = False\<rparr> s =
       (Returned (Inr \<lparr>ar_changes_made = 1,
          ar_errors = [(''create link '', Interface (IfInvalidName ''empty name''))],
          ar_summary = [''Created link eth0'']\<rparr>), s)"
    by (subst apply_accounts[OF disjI2, OF conjI, OF _ two_links_outcomes])
      (simp_all add: xy done_lines_def failures_def)
qed

text \<open>
  C31. Without the option, the first step of the plan that fails ends the application with its error:
  every step before it succeeded, none after it ran, and what the steps before it changed stays.
\<close>

theorem apply_stops_at_first_error:
  "apply_diff env diff apply_options_default s = (Returned (Inl err), s') \<longleftrightarrow>
   (\<exists>pre step post xs s1. apply_plan env diff = pre @ step # post \<and> outcomes pre s = Some (xs, s1) \<and>
      list_all (\<lambda>x. \<not> isl x) xs \<and> sp_run step s1 = (Returned (Inl err), s'))"
  unfolding apply_diff_plan by (rule failing_phase) (simp_all add: apply_options_default_def)

section \<open>Reconciling\<close>

text \<open>One attempt: the diff and its application, with what it ends in.\<close>

datatype attempt_end = Settled nat | Retry nl_error | Failed nl_error | Hangs | Panics

definition attempt_of :: "'k route_env \<Rightarrow> network_config \<Rightarrow> connection \<times> 'k \<Rightarrow> attempt_end \<times> (connection \<times> 'k)" where
  "attempt_of env config s =
     (case config_diff_now env config s of
        (Returned (Inr diff), s1) \<Rightarrow>
          if diff_is_empty diff then (Settled 0, s1)
          else (case apply_diff env diff apply_options_default s1 of
              (Returned (Inr r), s2) \<Rightarrow> (Settled (ar_changes_made r), s2)
            | (Returned (Inl err), s2) \<Rightarrow> (if is_transient err then Retry err else Failed err, s2)
            | (Waiting, s2) \<Rightarrow> (Hangs, s2)
            | (Panicked, s2) \<Rightarrow> (Panics, s2))
      | (Returned (Inl err), s1) \<Rightarrow> (Failed err, s1)
      | (Waiting, s1) \<Rightarrow> (Hangs, s1)
      | (Panicked, s1) \<Rightarrow> (Panics, s1))"

lemma reconcile_unfold:
  "reconcile_loop env nap config ro attempt cumulative s =
     (case attempt_of env config s of
        (Settled n, s') \<Rightarrow> (Returned (Inr \<lparr>rr_attempts = attempt + 1, rr_change_count = cumulative + n\<rparr>), s')
      | (Retry err, (c, k)) \<Rightarrow>
          if attempt < ro_max_retries ro
          then reconcile_loop env nap config ro (attempt + 1) cumulative (c, nap (reconcile_backoff ro attempt) k)
          else (Returned (Inl err), (c, k))
      | (Failed err, s') \<Rightarrow> (Returned (Inl err), s')
      | (Hangs, s') \<Rightarrow> (Waiting, s')
      | (Panics, s') \<Rightarrow> (Panicked, s'))"
  by (subst reconcile_loop.simps)
    (auto simp: attempt_of_def op_bind_def split: prod.split outcome.split sum.split)

text \<open>The reference: the attempts counted down from the budget.\<close>

fun attempts :: "'k route_env \<Rightarrow> (nat \<Rightarrow> 'k \<Rightarrow> 'k) \<Rightarrow> network_config \<Rightarrow> nat \<Rightarrow> nat \<Rightarrow> nat \<Rightarrow>
    connection \<times> 'k \<Rightarrow> reconcile_report outcome \<times> (connection \<times> 'k)" where
  "attempts env nap config backoff left n s =
     (case attempt_of env config s of
        (Settled m, s') \<Rightarrow> (Returned (Inr \<lparr>rr_attempts = n + 1, rr_change_count = m\<rparr>), s')
      | (Failed err, s') \<Rightarrow> (Returned (Inl err), s')
      | (Hangs, s') \<Rightarrow> (Waiting, s')
      | (Panics, s') \<Rightarrow> (Panicked, s')
      | (Retry err, (c, k)) \<Rightarrow>
          (case left of
             0 \<Rightarrow> (Returned (Inl err), (c, k))
           | Suc l \<Rightarrow> attempts env nap config backoff l (n + 1)
               (c, nap (min DURATION_MAX (backoff * 2 ^ min n 10)) k)))"

declare attempts.simps [simp del]

lemma reconcile_attempts:
  "ro_max_retries ro = n + left \<Longrightarrow>
   reconcile_loop env nap config ro n 0 s = attempts env nap config (ro_backoff ro) left n s"
proof (induction left arbitrary: n s)
  case 0
  then show ?case
    by (subst reconcile_unfold, subst attempts.simps) (auto split: prod.split attempt_end.split)
next
  case (Suc l)
  then show ?case
    by (subst reconcile_unfold, subst attempts.simps)
      (auto simp: reconcile_backoff_def split: prod.split attempt_end.split)
qed

lemma attempts_bound:
  "attempts env nap config backoff left n s = (Returned (Inr rep), s') \<Longrightarrow>
   n + 1 \<le> rr_attempts rep \<and> rr_attempts rep \<le> n + left + 1"
proof (induction left arbitrary: n s)
  case 0
  then show ?case by (subst (asm) attempts.simps) (auto split: prod.splits attempt_end.splits)
next
  case (Suc l)
  then show ?case by (subst (asm) attempts.simps) (fastforce split: prod.splits attempt_end.splits)
qed

text \<open>
  C32. Reconciling is a bounded sequence of attempts: after an attempt that failed with a transient error
  of the application the loop sleeps - twice as long each time, up to a factor of 1024 - and tries
  again from a new diff, as long as the budget of retries lasts; every other end of an attempt is the
  end of the loop.  The report counts the attempts, at most one more than the retries, and the changes
  of the last one only.
\<close>

theorem reconcile_bounded:
  "apply_reconcile env nap config ro = attempts env nap config (ro_backoff ro) (ro_max_retries ro) 0 \<and>
   fst (apply_reconcile env nap config ro s) \<notin>
     {Returned (Inr rep) | rep. rr_attempts rep = 0 \<or> rr_attempts rep > ro_max_retries ro + 1}"
proof
  show loop: "apply_reconcile env nap config ro = attempts env nap config (ro_backoff ro) (ro_max_retries ro) 0"
    by (rule ext) (simp add: apply_reconcile_def reconcile_attempts)
  show "fst (apply_reconcile env nap config ro s) \<notin>
     {Returned (Inr rep) | rep. rr_attempts rep = 0 \<or> rr_attempts rep > ro_max_retries ro + 1}"
    unfolding loop using attempts_bound[of env nap config "ro_backoff ro" "ro_max_retries ro" 0 s]
    by (cases "attempts env nap config (ro_backoff ro) (ro_max_retries ro) 0 s") fastforce
qed

end
