(* ===== verification/Net_Diff_Spec.thy ===== *)
theory Net_Diff_Spec
  imports Net_Diff
begin

text \<open>
  What it means that the kernel satisfies a configuration, and that the differ decides it; what a
  purge may remove.
\<close>

section \<open>Fields of the diff\<close>

lemma fold_push:
  assumes "\<And>x d. get (step x d) = get d @ f x"
  shows "get (fold step xs d) = get d @ concat (map f xs)"
  by (induction xs arbitrary: d) (simp_all add: assms)

lemma fold_keep:
  assumes "\<And>x d. get (step x d) = get d"
  shows "get (fold step xs d) = get d"
  by (induction xs arbitrary: d) (simp_all add: assms)

lemmas diff_step_defs = diff_link_def purge_address_def purge_route_def diff_qdisc_def Let_def

definition link_change :: "(string \<rightharpoonup> link_message) \<Rightarrow> name_map \<Rightarrow> declared_link \<Rightarrow> (string \<times> link_changes) list" where
  "link_change current names l =
     (case current (dl_name l) of
        None \<Rightarrow> []
      | Some m \<Rightarrow> let c = compute_link_changes l m names in if link_changes_is_empty c then [] else [(dl_name l, c)])"

lemma diff_links_fields:
  "cd_links_to_add (diff_links cfg cur names d) = cd_links_to_add d @
     concat (map (\<lambda>l. if cur (dl_name l) = None \<and> dl_type l \<noteq> Physical then [l] else []) (nc_links cfg))"
  "cd_links_to_modify (diff_links cfg cur names d) = cd_links_to_modify d @ concat (map (link_change cur names) (nc_links cfg))"
  "cd_addresses_to_add (diff_links cfg cur names d) = cd_addresses_to_add d"
  "cd_routes_to_add (diff_links cfg cur names d) = cd_routes_to_add d"
  "cd_qdiscs_to_add (diff_links cfg cur names d) = cd_qdiscs_to_add d"
  "cd_qdiscs_to_replace (diff_links cfg cur names d) = cd_qdiscs_to_replace d"
  "cd_addresses_to_remove (diff_links cfg cur names d) = cd_addresses_to_remove d"
  "cd_routes_to_remove (diff_links cfg cur names d) = cd_routes_to_remove d"
  unfolding diff_links_def
  by (rule fold_push fold_keep; simp add: diff_step_defs link_change_def split: option.split)+

definition stray_address :: "name_map \<Rightarrow> network_config \<Rightarrow> address_message \<Rightarrow> declared_address list" where
  "stray_address names cfg a =
     (case kernel_address_key names a of
        None \<Rightarrow> []
      | Some (name, addr, plen) \<Rightarrow>
          if address_scope a = ScopeUniverse \<and> name \<in> da_dev ` set (nc_addresses cfg) \<and>
             (name, addr, plen) \<notin> address_key ` set (nc_addresses cfg)
          then [\<lparr>da_dev = name, da_address = addr, da_prefix_len = plen\<rparr>] else [])"

lemma purge_address_push:
  "cd_addresses_to_remove (purge_address names (set (map da_dev (nc_addresses cfg)))
      (set (map address_key (nc_addresses cfg))) a d) = cd_addresses_to_remove d @ stray_address names cfg a"
  by (auto simp: purge_address_def stray_address_def kernel_address_key_def split: option.split)

lemma purge_address_keep:
  "cd_links_to_add (purge_address n m k a d) = cd_links_to_add d"
  "cd_links_to_modify (purge_address n m k a d) = cd_links_to_modify d"
  "cd_addresses_to_add (purge_address n m k a d) = cd_addresses_to_add d"
  "cd_routes_to_add (purge_address n m k a d) = cd_routes_to_add d"
  "cd_qdiscs_to_add (purge_address n m k a d) = cd_qdiscs_to_add d"
  "cd_qdiscs_to_replace (purge_address n m k a d) = cd_qdiscs_to_replace d"
  "cd_routes_to_remove (purge_address n m k a d) = cd_routes_to_remove d"
  by (simp_all add: purge_address_def split: option.split)

abbreviation kernel_addresses :: "name_map \<Rightarrow> address_message list \<Rightarrow> (string \<times> ip_addr \<times> u8) set" where
  "kernel_addresses names cur \<equiv> set (List.map_filter (kernel_address_key names) cur)"

lemma diff_addresses_fields:
  "cd_addresses_to_add (diff_addresses cfg cur names purge d) = cd_addresses_to_add d @
     concat (map (\<lambda>a. if address_key a \<notin> kernel_addresses names cur then [a] else []) (nc_addresses cfg))"
  "cd_addresses_to_remove (diff_addresses cfg cur names purge d) = cd_addresses_to_remove d @
     (if purge then concat (map (stray_address names cfg) cur) else [])"
  "cd_links_to_add (diff_addresses cfg cur names purge d) = cd_links_to_add d"
  "cd_links_to_modify (diff_addresses cfg cur names purge d) = cd_links_to_modify d"
  "cd_routes_to_add (diff_addresses cfg cur names purge d) = cd_routes_to_add d"
  "cd_qdiscs_to_add (diff_addresses cfg cur names purge d) = cd_qdiscs_to_add d"
  "cd_qdiscs_to_replace (diff_addresses cfg cur names purge d) = cd_qdiscs_to_replace d"
  "cd_routes_to_remove (diff_addresses cfg cur names purge d) = cd_routes_to_remove d"
proof -
  let ?step = "\<lambda>declared diff. if address_key declared \<notin> kernel_addresses names cur
    then diff\<lparr>cd_addresses_to_add := cd_addresses_to_add diff @ [declared]\<rparr> else diff"
  have add: "cd_addresses_to_add (fold ?step xs d) = cd_addresses_to_add d @
      concat (map (\<lambda>a. if address_key a \<notin> kernel_addresses names cur then [a] else []) xs)" for xs d
    by (rule fold_push) simp
  note keep = fold_keep[where step = ?step] fold_keep[where step = "purge_address _ _ _"]
  note rm = fold_push[where get = cd_addresses_to_remove, OF purge_address_push]
  show "cd_addresses_to_add (diff_addresses cfg cur names purge d) = cd_addresses_to_add d @
     concat (map (\<lambda>a. if address_key a \<notin> kernel_addresses names cur then [a] else []) (nc_addresses cfg))"
    by (simp add: diff_addresses_def Let_def add keep(2) purge_address_keep)
  show "cd_addresses_to_remove (diff_addresses cfg cur names purge d) = cd_addresses_to_remove d @
     (if purge then concat (map (stray_address names cfg) cur) else [])"
    by (simp add: diff_addresses_def Let_def rm[simplified] keep(1))
  show "cd_links_to_add (diff_addresses cfg cur names purge d) = cd_links_to_add d"
    "cd_links_to_modify (diff_addresses cfg cur names purge d) = cd_links_to_modify d"
    "cd_routes_to_add (diff_addresses cfg cur names purge d) = cd_routes_to_add d"
    "cd_qdiscs_to_add (diff_addresses cfg cur names purge d) = cd_qdiscs_to_add d"
    "cd_qdiscs_to_replace (diff_addresses cfg cur names purge d) = cd_qdiscs_to_replace d"
    "cd_routes_to_remove (diff_addresses cfg cur names purge d) = cd_routes_to_remove d"
    by (simp_all add: diff_addresses_def Let_def keep purge_address_keep)
qed

definition stray_route :: "name_map \<Rightarrow> network_config \<Rightarrow> route_message \<Rightarrow> declared_route list" where
  "stray_route names cfg r =
     (case declared_kind (route_kind r) of
        None \<Rightarrow> []
      | Some t \<Rightarrow>
          if table_id r = 254 \<and> route_protocol_of r \<in> {RpStatic, RpBoot} \<and>
             kernel_route_key r \<notin> declared_route_key ` set (nc_routes cfg)
          then [\<lparr>dr_destination = route_dst r, dr_prefix_len = route_dst_len r, dr_gateway = rm_gateway r,
              dr_dev = Option.bind (rm_oif r) (map_of names), dr_metric = rm_priority r,
              dr_table = Some (table_id r), dr_route_type = t\<rparr>] else [])"

lemma purge_route_push:
  "cd_routes_to_remove (purge_route names (set (map declared_route_key (nc_routes cfg))) r d) =
   cd_routes_to_remove d @ stray_route names cfg r"
  by (auto simp: purge_route_def stray_route_def split: option.split)

lemma purge_route_keep:
  "cd_links_to_add (purge_route n k r d) = cd_links_to_add d"
  "cd_links_to_modify (purge_route n k r d) = cd_links_to_modify d"
  "cd_addresses_to_add (purge_route n k r d) = cd_addresses_to_add d"
  "cd_routes_to_add (purge_route n k r d) = cd_routes_to_add d"
  "cd_qdiscs_to_add (purge_route n k r d) = cd_qdiscs_to_add d"
  "cd_qdiscs_to_replace (purge_route n k r d) = cd_qdiscs_to_replace d"
  "cd_addresses_to_remove (purge_route n k r d) = cd_addresses_to_remove d"
  by (simp_all add: purge_route_def split: option.split)

lemma diff_routes_fields:
  "cd_routes_to_add (diff_routes cfg cur names purge d) = cd_routes_to_add d @
     concat (map (\<lambda>r. if \<not> matches_existing (current_by_key cur) names r then [r] else []) (nc_routes cfg))"
  "cd_routes_to_remove (diff_routes cfg cur names purge d) = cd_routes_to_remove d @
     (if purge then concat (map (stray_route names cfg) cur) else [])"
  "cd_links_to_add (diff_routes cfg cur names purge d) = cd_links_to_add d"
  "cd_links_to_modify (diff_routes cfg cur names purge d) = cd_links_to_modify d"
  "cd_addresses_to_add (diff_routes cfg cur names purge d) = cd_addresses_to_add d"
  "cd_qdiscs_to_add (diff_routes cfg cur names purge d) = cd_qdiscs_to_add d"
  "cd_qdiscs_to_replace (diff_routes cfg cur names purge d) = cd_qdiscs_to_replace d"
  "cd_addresses_to_remove (diff_routes cfg cur names purge d) = cd_addresses_to_remove d"
proof -
  let ?step = "\<lambda>declared diff. if \<not> matches_existing (current_by_key cur) names declared
    then diff\<lparr>cd_routes_to_add := cd_routes_to_add diff @ [declared]\<rparr> else diff"
  have add: "cd_routes_to_add (fold ?step xs d) = cd_routes_to_add d @
      concat (map (\<lambda>r. if \<not> matches_existing (current_by_key cur) names r then [r] else []) xs)" for xs d
    by (rule fold_push) simp
  note keep = fold_keep[where step = ?step] fold_keep[where step = "purge_route _ _"]
  note rm = fold_push[where get = cd_routes_to_remove, OF purge_route_push]
  show "cd_routes_to_add (diff_routes cfg cur names purge d) = cd_routes_to_add d @
     concat (map (\<lambda>r. if \<not> matches_existing (current_by_key cur) names r then [r] else []) (nc_routes cfg))"
    by (simp add: diff_routes_def Let_def add keep(2) purge_route_keep)
  show "cd_routes_to_remove (diff_routes cfg cur names purge d) = cd_routes_to_remove d @
     (if purge then concat (map (stray_route names cfg) cur) else [])"
    by (simp add: diff_routes_def Let_def rm[simplified] keep(1))
  show "cd_links_to_add (diff_routes cfg cur names purge d) = cd_links_to_add d"
    "cd_links_to_modify (diff_routes cfg cur names purge d) = cd_links_to_modify d"
    "cd_addresses_to_add (diff_routes cfg cur names purge d) = cd_addresses_to_add d"
    "cd_qdiscs_to_add (diff_routes cfg cur names purge d) = cd_qdiscs_to_add d"
    "cd_qdiscs_to_replace (diff_routes cfg cur names purge d) = cd_qdiscs_to_replace d"
    "cd_addresses_to_remove (diff_routes cfg cur names purge d) = cd_addresses_to_remove d"
    by (simp_all add: diff_routes_def Let_def keep purge_route_keep)
qed

text \<open>Where a declared qdisc goes: to the additions, to the replacements, or nowhere.\<close>

definition qdisc_slot :: "(string \<rightharpoonup> tc_message) \<times> (string \<rightharpoonup> tc_message) \<Rightarrow> declared_qdisc \<Rightarrow> tc_message option" where
  "qdisc_slot current q = (case dq_parent q of Root \<Rightarrow> fst current | Ingress \<Rightarrow> snd current) (dq_dev q)"

definition qdisc_differs :: "endian \<Rightarrow> psched \<Rightarrow> declared_qdisc \<Rightarrow> tc_message \<Rightarrow> bool" where
  "qdisc_differs e p q m =
     (tm_kind m \<noteq> Some (declared_qdisc_kind (dq_type q)) \<or> \<not> qdisc_params_match e p (dq_type q) (tm_options m))"

lemma kind_or_empty:
  "(case tm_kind m of Some k \<Rightarrow> k | None \<Rightarrow> []) = declared_qdisc_kind t \<longleftrightarrow> tm_kind m = Some (declared_qdisc_kind t)"
  by (cases t) (auto split: option.splits)

lemma diff_qdisc_alt:
  "diff_qdisc e p current q d =
   (case qdisc_slot current q of
      None \<Rightarrow> d\<lparr>cd_qdiscs_to_add := cd_qdiscs_to_add d @ [q]\<rparr>
    | Some m \<Rightarrow> if qdisc_differs e p q m then d\<lparr>cd_qdiscs_to_replace := cd_qdiscs_to_replace d @ [q]\<rparr> else d)"
  unfolding diff_qdisc_def qdisc_slot_def qdisc_differs_def kind_or_empty Let_def
  by (simp split: option.split)

lemma diff_qdiscs_fields:
  "cd_qdiscs_to_add (diff_qdiscs e p cfg cur names d) = cd_qdiscs_to_add d @
     concat (map (\<lambda>q. if qdisc_slot (current_qdiscs names cur) q = None then [q] else []) (nc_qdiscs cfg))"
  "cd_qdiscs_to_replace (diff_qdiscs e p cfg cur names d) = cd_qdiscs_to_replace d @
     concat (map (\<lambda>q. case qdisc_slot (current_qdiscs names cur) q of
         None \<Rightarrow> [] | Some m \<Rightarrow> if qdisc_differs e p q m then [q] else []) (nc_qdiscs cfg))"
  "cd_links_to_add (diff_qdiscs e p cfg cur names d) = cd_links_to_add d"
  "cd_links_to_modify (diff_qdiscs e p cfg cur names d) = cd_links_to_modify d"
  "cd_addresses_to_add (diff_qdiscs e p cfg cur names d) = cd_addresses_to_add d"
  "cd_routes_to_add (diff_qdiscs e p cfg cur names d) = cd_routes_to_add d"
  "cd_addresses_to_remove (diff_qdiscs e p cfg cur names d) = cd_addresses_to_remove d"
  "cd_routes_to_remove (diff_qdiscs e p cfg cur names d) = cd_routes_to_remove d"
  unfolding diff_qdiscs_def
  by (rule fold_push fold_keep; simp add: diff_qdisc_alt split: option.split)+

lemmas diff_fields = diff_links_fields diff_addresses_fields diff_routes_fields diff_qdiscs_fields

section \<open>The lookup maps\<close>

lemma link_by_name_find: "link_by_name links n = find (\<lambda>l. lm_name l = Some n) (rev links)"
  unfolding link_by_name_def
  by (induction links rule: rev_induct) (auto split: option.splits)

lemma ifindex_to_name_find:
  "map_of (ifindex_to_name links) i =
   Option.bind (find (\<lambda>l. lm_name l \<noteq> None \<and> link_ifindex l = i) (rev links)) lm_name"
  unfolding ifindex_to_name_def
  by (induction links rule: rev_induct) (auto simp: update_conv' split: option.splits)

lemma current_qdiscs_find:
  "fst (current_qdiscs names cur) dev =
     find (\<lambda>q. map_of names (tc_ifindex q) = Some dev \<and> tc_is_root q) (rev cur)"
  "snd (current_qdiscs names cur) dev =
     find (\<lambda>q. map_of names (tc_ifindex q) = Some dev \<and> \<not> tc_is_root q \<and> tc_is_ingress q) (rev cur)"
  unfolding current_qdiscs_def
  by (induction cur rule: rev_induct) (auto simp: split_beta split: option.splits)

lemma current_by_key_find:
  "current_by_key cur k =
   (let rs = filter (\<lambda>r. route_eligible r \<and> kernel_route_key r = k) cur in if rs = [] then None else Some rs)"
  unfolding current_by_key_def
  by (induction cur rule: rev_induct) (auto simp: Let_def)

lemma matches_existing_iff:
  "matches_existing (current_by_key cur) names r =
   (\<exists>k \<in> set cur. route_eligible k \<and> kernel_route_key k = declared_route_key r \<and>
      route_matches r (Option.bind (dr_dev r) (name_to_ifindex names)) k)"
  by (auto simp: matches_existing_def current_by_key_find Let_def list_ex_iff filter_empty_conv)

text \<open>As long as no two interfaces share a name, the order of the hash map plays no role.\<close>

lemma name_to_ifindex_map_of:
  "distinct (map snd names) \<Longrightarrow> name_to_ifindex names = map_of (map prod.swap names)"
proof (induction names rule: rev_induct)
  case (snoc x names)
  have "name_to_ifindex (names @ [x]) = (name_to_ifindex names)(snd x \<mapsto> fst x)"
    by (simp add: name_to_ifindex_def split_beta)
  also have "\<dots> = map_of (map prod.swap (names @ [x]))"
  proof -
    have "name_to_ifindex names = map_of (map prod.swap names)" using snoc by simp
    moreover have "map_of (map prod.swap names) (snd x) = None"
      using snoc.prems by (auto simp: map_of_eq_None_iff image_iff)
    ultimately show ?thesis by (auto simp: fun_eq_iff map_add_def prod.swap_def split: option.split)
  qed
  finally show ?case .
qed (simp add: name_to_ifindex_def)

lemma name_to_ifindex_order:
  assumes "distinct (map snd names)" "mset names' = mset names"
  shows "name_to_ifindex names' = name_to_ifindex names"
proof -
  have "mset (map snd names') = mset (map snd names)" using assms(2) by (metis mset_map)
  then have d: "distinct (map snd names')" using assms(1) mset_eq_imp_distinct_iff by blast
  have "set names' = set names" using assms(2) by (rule mset_eq_setD)
  then have "set (map prod.swap names') = set (map prod.swap names)" by simp
  moreover have "distinct (map fst (map prod.swap names'))" "distinct (map fst (map prod.swap names))"
    using d assms(1) by (simp_all add: comp_def)
  ultimately show ?thesis
    unfolding name_to_ifindex_map_of[OF assms(1)] name_to_ifindex_map_of[OF d]
    by (simp only: map_of_inject_set)
qed

section \<open>Satisfying a configuration\<close>

text \<open>
  What the differ compares of every declared item, with no reference to how it computes: a link that
  does not exist satisfies its declaration only if it is physical.
\<close>

definition iface_name :: "kernel_dump \<Rightarrow> u32 \<Rightarrow> string option" where
  "iface_name kd i =
     Option.bind (find (\<lambda>l. lm_name l \<noteq> None \<and> link_ifindex l = i) (rev (kd_links kd))) lm_name"

definition link_ok :: "kernel_dump \<Rightarrow> declared_link \<Rightarrow> bool" where
  "link_ok kd l =
     (case find (\<lambda>m. lm_name m = Some (dl_name l)) (rev (kd_links kd)) of
        None \<Rightarrow> dl_type l = Physical
      | Some m \<Rightarrow>
          (case dl_state l of Up \<Rightarrow> link_is_up m | Down \<Rightarrow> \<not> link_is_up m | Unchanged \<Rightarrow> True) \<and>
          (dl_mtu l = None \<or> lm_mtu m = dl_mtu l) \<and>
          dl_master l = Option.bind (lm_master m) (iface_name kd))"

definition address_ok :: "kernel_dump \<Rightarrow> declared_address \<Rightarrow> bool" where
  "address_ok kd a =
     (\<exists>m \<in> set (kd_addresses kd). iface_name kd (address_ifindex m) = Some (da_dev a) \<and>
        am_address m = Some (da_address a) \<and> address_prefix_len m = da_prefix_len a)"

definition route_ok :: "kernel_dump \<Rightarrow> declared_route \<Rightarrow> bool" where
  "route_ok kd r =
     (\<exists>k \<in> set (kd_routes kd). route_eligible k \<and> kernel_route_key k = declared_route_key r \<and>
        dr_gateway r = rm_gateway k \<and>
        (case Option.bind (dr_dev r) (name_to_ifindex (ifindex_to_name (kd_links kd))) of
           None \<Rightarrow> True | Some i \<Rightarrow> rm_oif k = Some i) \<and>
        (case dr_metric r of Some n \<Rightarrow> n | None \<Rightarrow> 0) = (case rm_priority k of Some n \<Rightarrow> n | None \<Rightarrow> 0))"

definition qdisc_ok :: "endian \<Rightarrow> psched \<Rightarrow> kernel_dump \<Rightarrow> declared_qdisc \<Rightarrow> bool" where
  "qdisc_ok e p kd q =
     (case find (\<lambda>m. iface_name kd (tc_ifindex m) = Some (dq_dev q) \<and>
          (case dq_parent q of Root \<Rightarrow> tc_is_root m | Ingress \<Rightarrow> \<not> tc_is_root m \<and> tc_is_ingress m))
        (rev (kd_qdiscs kd)) of
        None \<Rightarrow> False
      | Some m \<Rightarrow> tm_kind m = Some (declared_qdisc_kind (dq_type q)) \<and>
          qdisc_params_match e p (dq_type q) (tm_options m))"

definition satisfied :: "endian \<Rightarrow> psched \<Rightarrow> network_config \<Rightarrow> kernel_dump \<Rightarrow> bool" where
  "satisfied e p cfg kd =
     (list_all (link_ok kd) (nc_links cfg) \<and> list_all (address_ok kd) (nc_addresses cfg) \<and>
      list_all (route_ok kd) (nc_routes cfg) \<and> list_all (qdisc_ok e p kd) (nc_qdiscs cfg))"

definition nothing_stray :: "network_config \<Rightarrow> kernel_dump \<Rightarrow> bool" where
  "nothing_stray cfg kd =
     ((\<forall>m \<in> set (kd_addresses kd). stray_address (ifindex_to_name (kd_links kd)) cfg m = []) \<and>
      (\<forall>r \<in> set (kd_routes kd). stray_route (ifindex_to_name (kd_links kd)) cfg r = []))"

lemma iface_name_map: "map_of (ifindex_to_name (kd_links kd)) = iface_name kd"
  by (rule ext) (simp add: ifindex_to_name_find iface_name_def)

lemma link_changes_empty_iff:
  "link_changes_is_empty (compute_link_changes l m names) =
   ((case dl_state l of Up \<Rightarrow> link_is_up m | Down \<Rightarrow> \<not> link_is_up m | Unchanged \<Rightarrow> True) \<and>
    (dl_mtu l = None \<or> lm_mtu m = dl_mtu l) \<and> dl_master l = Option.bind (lm_master m) (map_of names))"
proof -
  let ?have = "Option.bind (lm_master m) (map_of names)"
  show ?thesis
    by (cases "dl_state l"; cases "dl_mtu l"; cases "dl_master l"; cases ?have)
      (auto simp: compute_link_changes_def link_changes_is_empty_def link_changes_default_def Let_def)
qed

lemma link_ok_iff:
  "link_ok kd l =
   (\<not> (link_by_name (kd_links kd) (dl_name l) = None \<and> dl_type l \<noteq> Physical) \<and>
    link_change (link_by_name (kd_links kd)) (ifindex_to_name (kd_links kd)) l = [])"
  unfolding link_ok_def link_change_def link_by_name_find[symmetric]
  by (auto simp: link_changes_empty_iff iface_name_map Let_def split: option.split)

lemma set_map_filter: "set (List.map_filter f xs) = {y. \<exists>x \<in> set xs. f x = Some y}"
  by (induction xs) (auto simp: List.map_filter_simps split: option.split)

lemma address_ok_iff:
  "address_ok kd a = (address_key a \<in> kernel_addresses (ifindex_to_name (kd_links kd)) (kd_addresses kd))"
  by (auto simp: address_ok_def address_key_def set_map_filter kernel_address_key_def iface_name_map
      split: option.splits)

lemma route_ok_iff:
  "route_ok kd r = matches_existing (current_by_key (kd_routes kd)) (ifindex_to_name (kd_links kd)) r"
  unfolding route_ok_def matches_existing_iff route_matches_def Let_def
  by (intro bex_cong refl conj_cong) (auto split: option.splits)

lemma qdisc_ok_iff:
  "qdisc_ok e p kd q =
   (case qdisc_slot (current_qdiscs (ifindex_to_name (kd_links kd)) (kd_qdiscs kd)) q of
      None \<Rightarrow> False | Some m \<Rightarrow> \<not> qdisc_differs e p q m)"
  by (cases "dq_parent q")
    (auto simp: qdisc_ok_def qdisc_slot_def qdisc_differs_def current_qdiscs_find iface_name_map
      split: option.split)

lemma topo_sort_mset: "mset (topo_sort_links_to_add links) = mset links"
  using topo_loop_perm[of "dl_name ` set links" "{}" "[]" links] by (simp add: topo_sort_links_to_add_def)

lemma concat_map_empty: "concat (map f xs) = [] \<longleftrightarrow> (\<forall>x \<in> set xs. f x = [])"
  by (induction xs) auto

text \<open>The lists of the whole diff.\<close>

lemma diff_of_fields:
  fixes cfg kd purge e p
  defines "names \<equiv> ifindex_to_name (kd_links kd)" and "d \<equiv> diff_of e p cfg kd purge"
  shows
  "cd_links_to_add d = topo_sort_links_to_add (concat (map (\<lambda>l.
     if link_by_name (kd_links kd) (dl_name l) = None \<and> dl_type l \<noteq> Physical then [l] else []) (nc_links cfg)))"
  "cd_links_to_modify d = concat (map (link_change (link_by_name (kd_links kd)) names) (nc_links cfg))"
  "cd_addresses_to_add d = concat (map (\<lambda>a.
     if address_key a \<notin> kernel_addresses names (kd_addresses kd) then [a] else []) (nc_addresses cfg))"
  "cd_routes_to_add d = concat (map (\<lambda>r.
     if \<not> matches_existing (current_by_key (kd_routes kd)) names r then [r] else []) (nc_routes cfg))"
  "cd_qdiscs_to_add d = concat (map (\<lambda>q.
     if qdisc_slot (current_qdiscs names (kd_qdiscs kd)) q = None then [q] else []) (nc_qdiscs cfg))"
  "cd_qdiscs_to_replace d = concat (map (\<lambda>q. case qdisc_slot (current_qdiscs names (kd_qdiscs kd)) q of
     None \<Rightarrow> [] | Some m \<Rightarrow> if qdisc_differs e p q m then [q] else []) (nc_qdiscs cfg))"
  "cd_addresses_to_remove d = (if purge then concat (map (stray_address names cfg) (kd_addresses kd)) else [])"
  "cd_routes_to_remove d = (if purge then concat (map (stray_route names cfg) (kd_routes kd)) else [])"
  unfolding d_def names_def
  by (simp_all add: diff_of_def Let_def diff_fields config_diff_default_def)

section \<open>Showing a configuration\<close>

text \<open>
  The differ compares less than what is declared.  What follows is the whole of a declaration: a link of the
  declared kind, with the declared MAC address; an address as the local one of the interface; a route of the
  declared type through the declared interface.  Only the parameters of a kind of link are left out.
\<close>

definition named :: "kernel_dump \<Rightarrow> u32 \<Rightarrow> string \<Rightarrow> bool" where
  "named kd i n = (\<exists>m \<in> set (kd_links kd). link_ifindex m = i \<and> lm_name m = Some n)"

definition kind_of_link :: "link_message \<Rightarrow> string option" where
  "kind_of_link m = Option.bind (lm_link_info m) li_kind"

definition link_shown :: "kernel_dump \<Rightarrow> declared_link \<Rightarrow> bool" where
  "link_shown kd l =
     (\<exists>m \<in> set (kd_links kd). lm_name m = Some (dl_name l) \<and>
        (link_kind (dl_type l) = None \<or> kind_of_link m = link_kind (dl_type l)) \<and>
        (case dl_state l of Up \<Rightarrow> link_is_up m | Down \<Rightarrow> \<not> link_is_up m | Unchanged \<Rightarrow> True) \<and>
        (dl_mtu l = None \<or> lm_mtu m = dl_mtu l) \<and> (dl_address l = None \<or> lm_address m = dl_address l) \<and>
        (case dl_master l of None \<Rightarrow> lm_master m = None | Some n \<Rightarrow> \<exists>i. lm_master m = Some i \<and> named kd i n))"

definition local_address :: "address_message \<Rightarrow> ip_addr option" where
  "local_address m = (case am_local m of Some a \<Rightarrow> Some a | None \<Rightarrow> am_address m)"

definition address_shown :: "kernel_dump \<Rightarrow> declared_address \<Rightarrow> bool" where
  "address_shown kd a =
     (\<exists>m \<in> set (kd_addresses kd). named kd (address_ifindex m) (da_dev a) \<and>
        local_address m = Some (da_address a) \<and> address_prefix_len m = da_prefix_len a)"

definition route_shown :: "kernel_dump \<Rightarrow> declared_route \<Rightarrow> bool" where
  "route_shown kd r =
     (\<exists>k \<in> set (kd_routes kd). declared_kind (route_kind k) = Some (dr_route_type r) \<and>
        kernel_route_key k = declared_route_key r \<and> rm_gateway k = dr_gateway r \<and>
        (case dr_dev r of None \<Rightarrow> True | Some n \<Rightarrow> \<exists>i. rm_oif k = Some i \<and> named kd i n) \<and>
        (case dr_metric r of Some n \<Rightarrow> n | None \<Rightarrow> 0) = (case rm_priority k of Some n \<Rightarrow> n | None \<Rightarrow> 0))"

definition shown :: "endian \<Rightarrow> psched \<Rightarrow> network_config \<Rightarrow> kernel_dump \<Rightarrow> bool" where
  "shown e p cfg kd =
     (list_all (link_shown kd) (nc_links cfg) \<and> list_all (address_shown kd) (nc_addresses cfg) \<and>
      list_all (route_shown kd) (nc_routes cfg) \<and> list_all (qdisc_ok e p kd) (nc_qdiscs cfg))"

text \<open>The kernel's side of the bargain: interfaces have unique numbers and names, and a master is one of them.\<close>

definition dump_wf :: "kernel_dump \<Rightarrow> bool" where
  "dump_wf kd =
     (distinct (map link_ifindex (kd_links kd)) \<and> distinct (map lm_name (kd_links kd)) \<and>
      (\<forall>m \<in> set (kd_links kd). lm_name m \<noteq> None \<and> (\<forall>i. lm_master m = Some i \<longrightarrow> i \<in> link_ifindex ` set (kd_links kd))))"

text \<open>Where the differ does not look: if none of this is the case, it sees everything.\<close>

definition link_sighted :: "kernel_dump \<Rightarrow> declared_link \<Rightarrow> bool" where
  "link_sighted kd l =
     ((dl_type l = Physical \<longrightarrow> (\<exists>i. named kd i (dl_name l))) \<and>
      (\<forall>m \<in> set (kd_links kd). lm_name m = Some (dl_name l) \<longrightarrow>
         (link_kind (dl_type l) = None \<or> kind_of_link m = link_kind (dl_type l)) \<and>
         (dl_address l = None \<or> lm_address m = dl_address l)))"

definition route_sighted :: "kernel_dump \<Rightarrow> declared_route \<Rightarrow> bool" where
  "route_sighted kd r =
     ((\<forall>n. dr_dev r = Some n \<longrightarrow> (\<exists>i. named kd i n)) \<and>
      (\<forall>k \<in> set (kd_routes kd). route_eligible k \<longrightarrow> kernel_route_key k = declared_route_key r \<longrightarrow>
         declared_kind (route_kind k) = Some (dr_route_type r)))"

definition sighted :: "network_config \<Rightarrow> kernel_dump \<Rightarrow> bool" where
  "sighted cfg kd =
     (dump_wf kd \<and> list_all (link_sighted kd) (nc_links cfg) \<and> list_all (route_sighted kd) (nc_routes cfg) \<and>
      (\<forall>m \<in> set (kd_addresses kd). local_address m = am_address m))"

lemma find_unique:
  assumes "distinct (map f xs)"
  shows "find (\<lambda>x. f x = y) (rev xs) = Some x \<longleftrightarrow> x \<in> set xs \<and> f x = y"
proof
  assume x: "x \<in> set xs \<and> f x = y"
  then obtain x' where x': "find (\<lambda>x. f x = y) (rev xs) = Some x'"
    by (cases "find (\<lambda>x. f x = y) (rev xs)") (auto simp: find_None_iff)
  from find_hit[OF this] x have "x' = x" using assms by (auto simp: distinct_map dest: inj_onD)
  with x' show "find (\<lambda>x. f x = y) (rev xs) = Some x" by simp
qed (auto dest: find_hit)

lemma iface_name_named:
  assumes "dump_wf kd"
  shows "iface_name kd i = Some n \<longleftrightarrow> named kd i n"
proof -
  have "find (\<lambda>l. lm_name l \<noteq> None \<and> link_ifindex l = i) (rev (kd_links kd)) = find (\<lambda>l. link_ifindex l = i) (rev (kd_links kd))"
    using assms by (intro find_cong) (auto simp: dump_wf_def)
  moreover have "distinct (map link_ifindex (kd_links kd))" using assms by (simp add: dump_wf_def)
  ultimately show ?thesis
    by (auto simp: iface_name_def named_def bind_eq_Some_conv find_unique)
qed

lemma ifindex_map_of:
  assumes "distinct (map link_ifindex links)" "\<forall>m \<in> set links. lm_name m \<noteq> None"
  shows "ifindex_to_name links = map (\<lambda>m. (link_ifindex m, the (lm_name m))) links"
  using assms
proof (induction links rule: rev_induct)
  case (snoc m links)
  have "AList.update i n al = al @ [(i, n)]" if "i \<notin> fst ` set al" for i :: u32 and n :: string and al
    using that by (induction al) auto
  moreover have "ifindex_to_name (links @ [m]) = AList.update (link_ifindex m) (the (lm_name m)) (ifindex_to_name links)"
    using snoc.prems by (auto simp: ifindex_to_name_def split: option.split)
  ultimately show ?case using snoc by (force simp: image_iff)
qed (simp add: ifindex_to_name_def)

lemma name_to_ifindex_named:
  assumes "dump_wf kd"
  shows "name_to_ifindex (ifindex_to_name (kd_links kd)) n = Some i \<longleftrightarrow> named kd i n"
proof -
  let ?L = "kd_links kd"
  have wf: "distinct (map link_ifindex ?L)" "distinct (map lm_name ?L)" "\<forall>m \<in> set ?L. lm_name m \<noteq> None"
    using assms by (auto simp: dump_wf_def)
  note names = ifindex_map_of[OF wf(1,3)]
  have inj: "inj_on the (lm_name ` set ?L)" using wf(3) by (intro inj_onI option.expand) auto
  have "distinct (map the (map lm_name ?L))" using wf(2) inj by (simp add: distinct_map comp_inj_on)
  then have d: "distinct (map snd (ifindex_to_name ?L))" by (simp add: names comp_def)
  have "distinct (map fst (map prod.swap (ifindex_to_name ?L)))" using d by (simp add: comp_def)
  then have "name_to_ifindex (ifindex_to_name ?L) n = Some i \<longleftrightarrow> (n, i) \<in> set (map prod.swap (ifindex_to_name ?L))"
    unfolding name_to_ifindex_map_of[OF d] by (rule map_of_eq_Some_iff)
  also have "\<dots> \<longleftrightarrow> named kd i n"
    using wf(3) by (force simp: names named_def image_iff)
  finally show ?thesis .
qed

lemma link_shown_iff:
  assumes "dump_wf kd" "link_sighted kd l"
  shows "link_ok kd l = link_shown kd l"
proof -
  have master: "dl_master l = Option.bind (lm_master m) (iface_name kd) \<longleftrightarrow>
      (case dl_master l of None \<Rightarrow> lm_master m = None | Some n \<Rightarrow> \<exists>i. lm_master m = Some i \<and> named kd i n)"
    if "m \<in> set (kd_links kd)" for m
  proof (cases "lm_master m")
    case (Some i)
    then have "i \<in> link_ifindex ` set (kd_links kd)" using assms(1) that unfolding dump_wf_def by blast
    then obtain m' where "m' \<in> set (kd_links kd)" "link_ifindex m' = i" by blast
    moreover from this have "lm_name m' \<noteq> None" using assms(1) by (auto simp: dump_wf_def)
    ultimately have "\<exists>n. iface_name kd i = Some n" by (auto simp: iface_name_named[OF assms(1)] named_def)
    then show ?thesis using Some by (auto simp: iface_name_named[OF assms(1), symmetric] split: option.split)
  qed (auto split: option.split)
  have d: "distinct (map lm_name (kd_links kd))" using assms(1) by (simp add: dump_wf_def)
  have absent: "find (\<lambda>m. lm_name m = Some (dl_name l)) (rev (kd_links kd)) = None \<Longrightarrow> dl_type l \<noteq> Physical"
    using assms(2) by (auto simp: link_sighted_def named_def find_None_iff)
  show ?thesis
  proof (cases "find (\<lambda>m. lm_name m = Some (dl_name l)) (rev (kd_links kd))")
    case None
    then have "\<forall>m \<in> set (kd_links kd). lm_name m \<noteq> Some (dl_name l)" by (auto simp: find_None_iff)
    then have "\<not> link_shown kd l" by (auto simp: link_shown_def)
    then show ?thesis using None absent by (simp add: link_ok_def)
  next
    case (Some m)
    then have m: "m \<in> set (kd_links kd)" "lm_name m = Some (dl_name l)" using find_unique[OF d] by auto
    have only: "m' = m" if "m' \<in> set (kd_links kd)" "lm_name m' = Some (dl_name l)" for m'
      using find_unique[OF d] Some that by (metis option.inject)
    have seen: "link_kind (dl_type l) = None \<or> kind_of_link m = link_kind (dl_type l)"
      "dl_address l = None \<or> lm_address m = dl_address l"
      using assms(2) m unfolding link_sighted_def by blast+
    have "(\<exists>m' \<in> set (kd_links kd). lm_name m' = Some (dl_name l) \<and> P m') = P m" for P using m only by blast
    then show ?thesis unfolding link_ok_def link_shown_def Some option.case master[OF m(1)] by (simp only: seen simp_thms)
  qed
qed

lemma address_shown_iff:
  assumes "dump_wf kd" "\<forall>m \<in> set (kd_addresses kd). local_address m = am_address m"
  shows "address_ok kd a = address_shown kd a"
  using assms(2) by (auto simp: address_ok_def address_shown_def iface_name_named[OF assms(1)])

lemma route_shown_iff:
  assumes "dump_wf kd" "route_sighted kd r"
  shows "route_ok kd r = route_shown kd r"
proof -
  let ?i = "name_to_ifindex (ifindex_to_name (kd_links kd))"
  have dev: "(case Option.bind (dr_dev r) ?i of None \<Rightarrow> True | Some i \<Rightarrow> rm_oif k = Some i) \<longleftrightarrow>
      (case dr_dev r of None \<Rightarrow> True | Some n \<Rightarrow> \<exists>i. rm_oif k = Some i \<and> named kd i n)" for k
  proof (cases "dr_dev r")
    case (Some n)
    then obtain i where "named kd i n" using assms(2) by (auto simp: route_sighted_def)
    then have "?i n = Some i" by (simp add: name_to_ifindex_named[OF assms(1)])
    then show ?thesis using Some by (auto simp: name_to_ifindex_named[OF assms(1), symmetric])
  qed simp
  have kind: "route_eligible k \<longleftrightarrow> declared_kind (route_kind k) \<noteq> None" for k
    by (cases "route_kind k") (simp_all add: route_eligible_def)
  have "route_eligible k \<and> kernel_route_key k = declared_route_key r \<longleftrightarrow>
      declared_kind (route_kind k) = Some (dr_route_type r) \<and> kernel_route_key k = declared_route_key r"
    if "k \<in> set (kd_routes kd)" for k
    using assms(2) that kind[of k] by (auto simp: route_sighted_def)
  then show ?thesis unfolding route_ok_def route_shown_def dev by (intro bex_cong refl) auto
qed

lemma satisfied_shown: "sighted cfg kd \<Longrightarrow> satisfied e p cfg kd = shown e p cfg kd"
  unfolding sighted_def satisfied_def shown_def list_all_iff
  by (simp add: link_shown_iff address_shown_iff route_shown_iff)

lemma diff_empty_iff:
  "diff_is_empty (diff_of e p cfg kd purge) \<longleftrightarrow> satisfied e p cfg kd \<and> (if purge then nothing_stray cfg kd else True)"
proof -
  let ?names = "ifindex_to_name (kd_links kd)" and ?by = "link_by_name (kd_links kd)"
  let ?slot = "qdisc_slot (current_qdiscs ?names (kd_qdiscs kd))"
  have topo: "topo_sort_links_to_add ls = [] \<longleftrightarrow> ls = []" for ls
    using topo_sort_mset[of ls] by (metis mset_zero_iff)
  have links: "list_all (link_ok kd) (nc_links cfg) \<longleftrightarrow>
      (\<forall>l \<in> set (nc_links cfg). (if ?by (dl_name l) = None \<and> dl_type l \<noteq> Physical then [l] else []) = [] \<and>
        link_change ?by ?names l = [])"
    by (auto simp: list_all_iff link_ok_iff)
  have qdiscs: "list_all (qdisc_ok e p kd) (nc_qdiscs cfg) \<longleftrightarrow>
      (\<forall>q \<in> set (nc_qdiscs cfg). (if ?slot q = None then [q] else []) = [] \<and>
        (case ?slot q of None \<Rightarrow> [] | Some m \<Rightarrow> if qdisc_differs e p q m then [q] else []) = [])"
    unfolding list_all_iff qdisc_ok_iff by (intro ball_cong refl) (auto split: option.split)
  have rest: "list_all (address_ok kd) (nc_addresses cfg) \<longleftrightarrow> (\<forall>a \<in> set (nc_addresses cfg).
        (if address_key a \<notin> kernel_addresses ?names (kd_addresses kd) then [a] else []) = [])"
    "list_all (route_ok kd) (nc_routes cfg) \<longleftrightarrow> (\<forall>r \<in> set (nc_routes cfg).
        (if \<not> matches_existing (current_by_key (kd_routes kd)) ?names r then [r] else []) = [])"
    by (auto simp: list_all_iff address_ok_iff route_ok_iff)
  have "diff_is_empty (diff_of e p cfg kd purge) \<longleftrightarrow>
      list_all (link_ok kd) (nc_links cfg) \<and> list_all (address_ok kd) (nc_addresses cfg) \<and>
      list_all (route_ok kd) (nc_routes cfg) \<and> list_all (qdisc_ok e p kd) (nc_qdiscs cfg) \<and>
      (if purge then nothing_stray cfg kd else True)"
    unfolding links qdiscs rest ball_conj_distrib diff_is_empty_def diff_of_fields topo nothing_stray_def
    by (cases purge; simp only: concat_map_empty if_True if_False; blast)
  then show ?thesis by (simp add: satisfied_def)
qed


text \<open>A route declared through the only interface; with another route type it is a blind spot.\<close>

definition demo_kernel :: kernel_dump where
  "demo_kernel =
     \<lparr>kd_links = [(link_message_of (if_info_msg_with_index 2 if_info_msg_new))\<lparr>lm_name := Some ''eth0''\<rparr>], kd_addresses = [],
      kd_routes = [(route_message_of (rt_msg_new\<lparr>rtm_family := 2, rtm_table := 254, rtm_type := 1, rtm_protocol := 3\<rparr>))
        \<lparr>rm_oif := Some 2\<rparr>], kd_qdiscs = []\<rparr>"

definition demo_declared :: network_config where
  "demo_declared = network_config_new\<lparr>nc_routes := [\<lparr>dr_destination = V4 0, dr_prefix_len = 0, dr_gateway = None,
     dr_dev = Some ''eth0'', dr_metric = None, dr_table = None, dr_route_type = Unicast\<rparr>]\<rparr>"


end
