(* ===== verification/Net_Diff_Safety.thy ===== *)
theory Net_Diff_Safety
  imports Net_Diff_Spec
begin

text \<open>
  What a purge removes, exactly, and two things the differ cannot see: the type of a route with
  the device it names, and a declared \<open>clsact\<close> qdisc.
\<close>

section \<open>Purge\<close>

lemma stray_address_iff:
  "a \<in> set (stray_address (ifindex_to_name (kd_links kd)) cfg m) \<longleftrightarrow>
   address_scope m = ScopeUniverse \<and> iface_name kd (address_ifindex m) = Some (da_dev a) \<and>
   am_address m = Some (da_address a) \<and> address_prefix_len m = da_prefix_len a \<and>
   da_dev a \<in> da_dev ` set (nc_addresses cfg) \<and> address_key a \<notin> address_key ` set (nc_addresses cfg)"
  unfolding stray_address_def kernel_address_key_def iface_name_map
  by (cases a) (auto simp: address_key_def split: option.splits)

lemma stray_route_iff:
  "r \<in> set (stray_route (ifindex_to_name (kd_links kd)) cfg k) \<longleftrightarrow>
   table_id k = 254 \<and> route_protocol_of k \<in> {RpStatic, RpBoot} \<and>
   declared_kind (route_kind k) = Some (dr_route_type r) \<and>
   kernel_route_key k = declared_route_key r \<and> dr_table r = Some 254 \<and>
   dr_gateway r = rm_gateway k \<and> dr_dev r = Option.bind (rm_oif k) (iface_name kd) \<and>
   dr_metric r = rm_priority k \<and> declared_route_key r \<notin> declared_route_key ` set (nc_routes cfg)"
  unfolding stray_route_def iface_name_map
  by (cases r) (auto simp: declared_route_key_def kernel_route_key_def split: option.splits)

text \<open>
  C21. Nothing is removed unless purging is on. A purge removes exactly the global-scope addresses the
  kernel has on a device the configuration declares some address on, and does not declare, and
  exactly the main-table routes of protocol \<open>static\<close> or \<open>boot\<close> and of a declarable type whose
  destination, prefix length and table are declared by no route.
\<close>

theorem purge_removes_exactly:
  "(a \<in> set (cd_addresses_to_remove (diff_of e p cfg kd purge)) \<longleftrightarrow>
     purge \<and> da_dev a \<in> da_dev ` set (nc_addresses cfg) \<and>
     address_key a \<notin> address_key ` set (nc_addresses cfg) \<and>
     (\<exists>m \<in> set (kd_addresses kd). address_scope m = ScopeUniverse \<and>
        iface_name kd (address_ifindex m) = Some (da_dev a) \<and>
        am_address m = Some (da_address a) \<and> address_prefix_len m = da_prefix_len a)) \<and>
   (r \<in> set (cd_routes_to_remove (diff_of e p cfg kd purge)) \<longleftrightarrow>
     purge \<and> dr_table r = Some 254 \<and> declared_route_key r \<notin> declared_route_key ` set (nc_routes cfg) \<and>
     (\<exists>k \<in> set (kd_routes kd). kernel_route_key k = declared_route_key r \<and> table_id k = 254 \<and>
        route_protocol_of k \<in> {RpStatic, RpBoot} \<and> declared_kind (route_kind k) = Some (dr_route_type r) \<and>
        dr_gateway r = rm_gateway k \<and> dr_dev r = Option.bind (rm_oif k) (iface_name kd) \<and>
        dr_metric r = rm_priority k))"
  unfolding diff_of_fields
  by (cases purge; simp only: if_True if_False set_concat set_map UN_simps UN_iff stray_address_iff
      stray_route_iff list.set; blast)

section \<open>What the route comparison does not see\<close>

definition retype :: "declared_route_type \<Rightarrow> declared_route \<Rightarrow> declared_route" where
  "retype t r = r\<lparr>dr_route_type := t\<rparr>"

lemma matches_retype: "matches_existing by_key names (retype t r) = matches_existing by_key names r"
proof -
  have "route_matches (retype t r) = route_matches r" by (intro ext) (simp add: route_matches_def retype_def)
  moreover have "dr_dev (retype t r) = dr_dev r" "declared_route_key (retype t r) = declared_route_key r"
    by (simp_all add: retype_def declared_route_key_def)
  ultimately show ?thesis by (simp add: matches_existing_def Let_def split: option.split)
qed

lemma update_subset: "set (AList.update k v al) \<subseteq> insert (k, v) (set al)"
  by (induction al) auto

lemma names_of_links: "(i, n) \<in> set (ifindex_to_name links) \<Longrightarrow> \<exists>l \<in> set links. lm_name l = Some n"
  unfolding ifindex_to_name_def
proof (induction links rule: rev_induct)
  case (snoc l links)
  then show ?case using update_subset by (fastforce split: option.splits)
qed simp

lemma unknown_name: "n \<notin> snd ` set names \<Longrightarrow> name_to_ifindex names n = None"
  by (induction names rule: rev_induct) (auto simp: name_to_ifindex_def split_beta)

lemma unknown_dev:
  assumes "dev \<notin> {n. \<exists>l \<in> set links. lm_name l = Some n}"
  shows "name_to_ifindex (ifindex_to_name links) dev = None"
  using names_of_links[of _ dev links] assms by (intro unknown_name) auto

lemma route_ok_retype: "route_ok kd (retype t r) = route_ok kd r"
  by (simp add: route_ok_iff matches_retype)

text \<open>
  Contrary to its comment the comparison of routes is not by the full identity: a declared route
  is taken as present when the kernel has one of the same destination, prefix length, table,
  gateway and metric, whatever the type of the two routes, and whatever device that one uses if the
  declared device is a link yet to be created.
\<close>

theorem route_comparison_blind:
  assumes "k \<in> set (kd_routes kd)" "route_eligible k" "kernel_route_key k = declared_route_key r"
    "dr_gateway r = rm_gateway k"
    "(case dr_metric r of Some n \<Rightarrow> n | None \<Rightarrow> 0) = (case rm_priority k of Some n \<Rightarrow> n | None \<Rightarrow> 0)"
    and "dr_dev r = Some dev" "dev \<notin> {n. \<exists>l \<in> set (kd_links kd). lm_name l = Some n}"
  shows "retype t r \<notin> set (cd_routes_to_add (diff_of e p cfg kd purge))"
proof -
  have "name_to_ifindex (ifindex_to_name (kd_links kd)) dev = None" using assms(7) by (rule unknown_dev)
  then have "route_ok kd r" unfolding route_ok_def using assms by (intro bexI[of _ k]) auto
  then have "route_ok kd (retype t r)" by (simp add: route_ok_retype)
  then show ?thesis unfolding diff_of_fields route_ok_iff by auto
qed

theorem route_comparison_blind_witness:
  "\<forall>e p. let k = (route_message_of (rt_msg_new\<lparr>rtm_family := 2, rtm_table := 254, rtm_type := 1, rtm_protocol := 3\<rparr>))
        \<lparr>rm_oif := Some 2, rm_gateway := Some (V4 0x0A000001)\<rparr>;
       r = \<lparr>dr_destination = V4 0, dr_prefix_len = 0, dr_gateway = Some (V4 0x0A000001), dr_dev = Some ''wg0'',
            dr_metric = None, dr_table = None, dr_route_type = Unicast\<rparr>;
       kd = \<lparr>kd_links = [], kd_addresses = [], kd_routes = [k], kd_qdiscs = []\<rparr>
   in retype Blackhole r \<notin> set (cd_routes_to_add (diff_of e p
        (network_config_new\<lparr>nc_links := [(link_builder_new ''wg0'')\<lparr>dl_type := Dummy\<rparr>],
                            nc_routes := [retype Blackhole r]\<rparr>) kd False))"
  unfolding Let_def
  by (intro allI, rule route_comparison_blind[where dev = "''wg0''"])
    (auto simp: route_message_of_def rt_msg_new_def route_eligible_def route_kind_def route_type_from_def
      kernel_route_key_def declared_route_key_def route_dst_def route_is_ipv4_def route_dst_len_def table_id_def)

section \<open>clsact\<close>

lemma in_concat_map: "x \<in> set xs \<Longrightarrow> y \<in> set (f x) \<Longrightarrow> y \<in> set (concat (map f xs))"
  by auto

text \<open>
  \<open>QdiscBuilder\<close>'s \<open>clsact\<close> leaves the parent at the root, and the kernel reports no
  \<open>clsact\<close> qdisc there: declared that way it is never settled, and when the device has a root
  qdisc it is queued as the replacement of that one.
\<close>

theorem clsact_never_settles:
  assumes "qdisc_build (qdisc_clsact (qdisc_builder_new dev)) \<in> set (nc_qdiscs cfg)"
    and "\<forall>m \<in> set (kd_qdiscs kd). tm_kind m = Some ''clsact'' \<longrightarrow> \<not> tc_is_root m"
  shows "\<not> diff_is_empty (diff_of e p cfg kd purge) \<and>
    ((\<exists>m \<in> set (kd_qdiscs kd). iface_name kd (tc_ifindex m) = Some dev \<and> tc_is_root m) \<longrightarrow>
      qdisc_build (qdisc_clsact (qdisc_builder_new dev)) \<in> set (cd_qdiscs_to_replace (diff_of e p cfg kd purge)))"
proof -
  let ?q = "qdisc_build (qdisc_clsact (qdisc_builder_new dev))"
  have q: "dq_dev ?q = dev" "dq_parent ?q = Root" "dq_type ?q = Clsact"
    by (simp_all add: qdisc_build_def qdisc_clsact_def qdisc_builder_new_def)
  let ?slot = "qdisc_slot (current_qdiscs (ifindex_to_name (kd_links kd)) (kd_qdiscs kd))"
  have slot: "?slot ?q = find (\<lambda>m. iface_name kd (tc_ifindex m) = Some dev \<and> tc_is_root m) (rev (kd_qdiscs kd))"
    by (simp add: qdisc_slot_def q current_qdiscs_find iface_name_map)
  have differs: "qdisc_differs e p ?q m" if "?slot ?q = Some m" for m
  proof -
    from that obtain "m \<in> set (kd_qdiscs kd)" "tc_is_root m"
      unfolding slot by (metis (no_types, lifting) find_Some_iff length_rev nth_mem set_rev)
    then show ?thesis using assms(2) by (auto simp: qdisc_differs_def q)
  qed
  show ?thesis
  proof (cases "?slot ?q")
    case None
    then have "?q \<in> set (cd_qdiscs_to_add (diff_of e p cfg kd purge))"
      unfolding diff_of_fields by (intro in_concat_map[OF assms(1)]) (simp add: None)
    moreover have "\<not> (\<exists>m \<in> set (kd_qdiscs kd). iface_name kd (tc_ifindex m) = Some dev \<and> tc_is_root m)"
      using None unfolding slot find_None_iff by simp
    ultimately show ?thesis by (auto simp: diff_is_empty_def)
  next
    case (Some m)
    then have "?q \<in> set (cd_qdiscs_to_replace (diff_of e p cfg kd purge))"
      unfolding diff_of_fields by (intro in_concat_map[OF assms(1)]) (simp add: Some differs[OF Some])
    then show ?thesis by (auto simp: diff_is_empty_def)
  qed
qed

theorem clsact_never_settles_witness:
  "\<forall>e p. let cfg = network_config_new\<lparr>nc_qdiscs := [qdisc_build (qdisc_clsact (qdisc_builder_new ''eth0''))]\<rparr>;
       link = (link_message_of (if_info_msg_new\<lparr>ifi_index := 2\<rparr>))\<lparr>lm_name := Some ''eth0''\<rparr>;
       root = (tc_message_of (tc_msg_new\<lparr>tcm_ifindex := 2, tcm_parent := TC_H_ROOT\<rparr>))\<lparr>tm_kind := Some ''fq_codel''\<rparr>;
       clsact = (tc_message_of (tc_msg_new\<lparr>tcm_ifindex := 2, tcm_parent := TC_H_INGRESS\<rparr>))\<lparr>tm_kind := Some ''clsact''\<rparr>;
       kd = \<lparr>kd_links = [link], kd_addresses = [], kd_routes = [], kd_qdiscs = [root, clsact]\<rparr>
   in \<not> diff_is_empty (diff_of e p cfg kd False)"
  unfolding Let_def
  by (intro allI, rule clsact_never_settles[where dev = "''eth0''", THEN conjunct1])
    (simp_all add: network_config_new_def tc_is_root_def tc_message_of_def TC_H_ROOT_def TC_H_INGRESS_def)

end
