(* ===== verification/Net_Settle.thy ===== *)
theory Net_Settle
  imports Net_Apply_Spec Net_Diff_Safety
begin

text \<open>
  Whether applying settles the diff: the requests an application sends, read back with the parsers
  of the dumps and compared by the differ - for added addresses and routes, and for what a purge
  deletes.
\<close>

section \<open>Addresses\<close>

lemma any_address_read:
  assumes "winnow_ok w"
  shows "\<exists>m. fst (address_parse w e (wire_calls e (address_add_calls e ifindex (any_address_new iface a plen)))) = Inr m \<and>
     address_ifindex m = ifindex \<and> am_address m = Some a \<and> address_prefix_len m = plen"
proof (cases a)
  case (V4 x)
  then show ?thesis
    by (simp add: v4_address_back[OF assms] ipv4_address_new_def label_ok_def v4_address_read_def
        address_ifindex_def address_prefix_len_def add_ifaddr_fields)
next
  case (V6 x)
  then show ?thesis
    by (simp add: v6_address_back[OF assms] ipv6_address_new_def v6_address_read_def
        address_ifindex_def address_prefix_len_def add_ifaddr_fields)
qed

text \<open>
  The address an application adds settles the declaration: once the kernel reports what the request
  for a missing address says, on the interface the name stands for, the differ finds the address.
\<close>

theorem added_address_settles:
  assumes "winnow_ok w" "iface_name kd ifindex = Some (da_dev a)"
  shows "\<exists>m. fst (address_parse w e (wire_calls e
        (address_add_calls e ifindex (any_address_new (Name (da_dev a)) (da_address a) (da_prefix_len a))))) = Inr m \<and>
     address_ok (kd\<lparr>kd_addresses := rest @ [m]\<rparr>) a"
proof -
  obtain m where "fst (address_parse w e (wire_calls e
      (address_add_calls e ifindex (any_address_new (Name (da_dev a)) (da_address a) (da_prefix_len a))))) = Inr m"
    and m: "address_ifindex m = ifindex" "am_address m = Some (da_address a)" "address_prefix_len m = da_prefix_len a"
    using any_address_read[OF assms(1)] by blast
  moreover have "address_ok (kd\<lparr>kd_addresses := rest @ [m]\<rparr>) a"
    using assms(2) m by (auto simp: address_ok_def iface_name_def)
  ultimately show ?thesis by blast
qed

section \<open>Routes\<close>

text \<open>The interfaces the differ resolves the device of a route to, as the request gets them.\<close>

definition differ_interfaces :: "kernel_dump \<Rightarrow> declared_route \<Rightarrow> resolved_route_interfaces" where
  "differ_interfaces kd r =
     \<lparr>ri_oif = Option.bind (dr_dev r) (name_to_ifindex (ifindex_to_name (kd_links kd))), ri_multipath = []\<rparr>"

lemmas declared_config_defs = declared_fields_def with_opt_def Let_def ipv4_route_from_addr_def
  ipv6_route_from_addr_def route_set_gateway_def v4_only_def v6_only_def

lemma declared_config_parts:
  "rc_destination (declared_fields g r c) = rc_destination c" "rc_prefix_len (declared_fields g r c) = rc_prefix_len c"
  "rc_gateway (declared_fields g r c) = (case g of Some a \<Rightarrow> Some a | None \<Rightarrow> rc_gateway c)"
  "rc_prefsrc (declared_fields g r c) = rc_prefsrc c" "rc_route_type (declared_fields g r c) = rc_route_type c"
  "rc_protocol (declared_fields g r c) = rc_protocol c"
  "rc_table (declared_fields g r c) = (case dr_table r of Some t \<Rightarrow> t | None \<Rightarrow> rc_table c)"
  "rc_priority (declared_fields g r c) = (case dr_metric r of Some n \<Rightarrow> Some n | None \<Rightarrow> rc_priority c)"
  "rc_metrics (declared_fields g r c) = rc_metrics c" "rc_mark (declared_fields g r c) = rc_mark c"
  "rc_nexthop_id (declared_fields g r c) = rc_nexthop_id c" "rc_mpls_encap (declared_fields g r c) = rc_mpls_encap c"
  "rc_srv6_encap (declared_fields g r c) = rc_srv6_encap c"
  "rc_multipath c = None \<Longrightarrow> rc_multipath (declared_fields g r c) = None"
  by (auto simp: declared_fields_def with_opt_def Let_def route_set_gateway_def split: option.split)

definition gateway_kept :: "declared_route \<Rightarrow> bool" where
  "gateway_kept r =
     (case dr_gateway r of None \<Rightarrow> True
      | Some g \<Rightarrow> (case (dr_destination r, g) of (V4 _, V4 _) \<Rightarrow> True | (V6 _, V6 _) \<Rightarrow> True | _ \<Rightarrow> False))"

lemma declared_type_row:
  "route_type_from (route_type_code (declared_type_code t)) = declared_type_code t"
  "declared_kind (declared_type_code t) = Some t"
  "declared_type_code t \<in> {RtUnicast, RtBlackhole, RtUnreachable, RtProhibit}"
  by (cases t; simp add: route_type_from_def)+

lemma table_row: "table_id (route_read f ip scope pref hops oif c) = rc_table c"
proof (cases "rc_table c > 255")
  case True
  then show ?thesis by (simp add: table_id_def route_read_def)
next
  case False
  then have "unat (rc_table c) < 256" by (simp add: word_less_nat_alt)
  then have "ucast (ucast (rc_table c) :: u8) = rc_table c"
    by (simp add: word_unat_eq_iff unsigned_ucast_eq unsigned_take_bit_eq take_bit_nat_eq_self)
  with False show ?thesis by (simp add: table_id_def route_read_def rtmsg_fields table_u8_def)
qed

lemma row_fields:
  "rm_destination (route_read f ip scope pref hops oif c) = (if rc_prefix_len c > 0 then Some (ip (rc_destination c)) else None)"
  "route_is_ipv4 (route_read f ip scope pref hops oif c) = (f = 2)"
  "route_dst_len (route_read f ip scope pref hops oif c) = rc_prefix_len c"
  "rm_gateway (route_read f ip scope pref hops oif c) = map_option ip (rc_gateway c)"
  "rm_oif (route_read f ip scope pref hops oif c) = oif" "rm_priority (route_read f ip scope pref hops oif c) = rc_priority c"
  "route_protocol_of (route_read f ip scope pref hops oif c) = route_protocol_from (route_protocol_code (rc_protocol c))"
  "route_kind (route_read f ip scope pref hops oif c) = route_type_from (route_type_code (rc_route_type c))"
  by (simp_all add: route_read_def route_is_ipv4_def route_dst_len_def route_protocol_of_def route_kind_def rtmsg_fields)

text \<open>What the parser reads in the request that adds or deletes a declared route.\<close>

definition row_of :: "declared_route \<Rightarrow> u32 option \<Rightarrow> route_message \<Rightarrow> bool" where
  "row_of r oif m =
     (rm_destination m = (if dr_prefix_len r > 0 then Some (dr_destination r) else None) \<and>
      route_is_ipv4 m = (case dr_destination r of V4 _ \<Rightarrow> True | V6 _ \<Rightarrow> False) \<and>
      route_dst_len m = dr_prefix_len r \<and> table_id m = (case dr_table r of Some t \<Rightarrow> t | None \<Rightarrow> 254) \<and>
      rm_gateway m = (if gateway_kept r then dr_gateway r else None) \<and> rm_oif m = oif \<and> rm_priority m = dr_metric r)"

lemma kept_gateway:
  "dr_destination r = V4 x \<Longrightarrow> map_option V4 (v4_only (dr_gateway r)) = (if gateway_kept r then dr_gateway r else None)"
  "dr_destination r = V6 y \<Longrightarrow> map_option V6 (v6_only (dr_gateway r)) = (if gateway_kept r then dr_gateway r else None)"
  by (auto simp: gateway_kept_def v4_only_def v6_only_def split: option.split ip_addr.split)

lemma base_parts:
  "rc_destination (ipv4_route_from_addr x n) = x" "rc_prefix_len (ipv4_route_from_addr x n) = n"
  "rc_gateway (ipv4_route_from_addr x n) = None" "rc_table (ipv4_route_from_addr x n) = 254"
  "rc_priority (ipv4_route_from_addr x n) = None" "rc_protocol (ipv4_route_from_addr x n) = RpBoot"
  "rc_route_type (ipv4_route_from_addr x n) = RtUnicast" "rc_multipath (ipv4_route_from_addr x n) = None"
  "rc_destination (ipv6_route_from_addr y n) = y" "rc_prefix_len (ipv6_route_from_addr y n) = n"
  "rc_gateway (ipv6_route_from_addr y n) = None" "rc_table (ipv6_route_from_addr y n) = 254"
  "rc_priority (ipv6_route_from_addr y n) = None" "rc_protocol (ipv6_route_from_addr y n) = RpBoot"
  "rc_route_type (ipv6_route_from_addr y n) = RtUnicast" "rc_multipath (ipv6_route_from_addr y n) = None"
  by (simp_all add: ipv4_route_from_addr_def ipv6_route_from_addr_def)

lemma opt_id: "(case v of None \<Rightarrow> None | Some x \<Rightarrow> Some x) = v"
  by (cases v) simp_all

lemma declared_row:
  "dr_destination r = V4 x \<Longrightarrow> row_of r oif (route_read 2 V4 scope pref hops oif
     (declared_fields (v4_only (dr_gateway r)) r (ipv4_route_from_addr x (dr_prefix_len r))))"
  "dr_destination r = V6 y \<Longrightarrow> row_of r oif (route_read 10 V6 scope pref hops oif
     (declared_fields (v6_only (dr_gateway r)) r (ipv6_route_from_addr y (dr_prefix_len r))))"
  by (simp_all add: row_of_def table_row row_fields declared_config_parts base_parts opt_id kept_gateway cong del: option.case_cong_weak)

lemma retyped_row:
  "row_of r oif (route_read f ip scope pref hops oif (c\<lparr>rc_route_type := t\<rparr>)) =
   row_of r oif (route_read f ip scope pref hops oif c)"
  by (simp add: row_of_def table_row row_fields)

lemma plain_fits:
  fixes c :: "ipv4 route_config" and c6 :: ipv6_route
  shows "\<lbrakk>rc_metrics c = None; rc_multipath c = None; rc_mpls_encap c = None; rc_srv6_encap c = None\<rbrakk> \<Longrightarrow>
     list_all (call_fits e) (tl (v4_route_add e i c))"
    and "\<lbrakk>rc_metrics c6 = None; rc_multipath c6 = None; rc_mpls_encap c6 = None; rc_srv6_encap c6 = None\<rbrakk> \<Longrightarrow>
     list_all (call_fits e) (tl (v6_route_add e i c6))"
  by (auto simp: v4_route_add_def v6_route_add_def opts_def route_key_attrs_def metrics_calls_def multipath_calls_def
      encap_calls_def split: option.split)

lemma base_plain:
  "rc_metrics (ipv4_route_from_addr x n) = None" "rc_mpls_encap (ipv4_route_from_addr x n) = None"
  "rc_srv6_encap (ipv4_route_from_addr x n) = None" "rc_metrics (ipv6_route_from_addr y n) = None"
  "rc_mpls_encap (ipv6_route_from_addr y n) = None" "rc_srv6_encap (ipv6_route_from_addr y n) = None"
  by (simp_all add: ipv4_route_from_addr_def ipv6_route_from_addr_def)

lemmas plain_parts = declared_config_parts base_parts base_plain

lemma add_request_row:
  assumes "winnow_ok w"
  shows "\<exists>m. fst (route_parse w e (wire_calls e (route_add_calls e i (add_route_config r)))) = Inr m \<and>
    row_of r (ri_oif i) m \<and> route_kind m = declared_type_code (dr_route_type r)"
proof (cases "dr_destination r")
  case (V4 x)
  let ?c = "(declared_fields (v4_only (dr_gateway r)) r (ipv4_route_from_addr x (dr_prefix_len r)))
    \<lparr>rc_route_type := declared_type_code (dr_route_type r)\<rparr>"
  have "list_all (call_fits e) (tl (v4_route_add e i ?c))" by (rule plain_fits(1)) (simp_all add: plain_parts)
  moreover have "list_all (call_fits e) (tl (v6_route_add e i (ipv6_route_from_addr 0 0)))"
    by (rule plain_fits(2)) (simp_all add: plain_parts)
  ultimately show ?thesis
    using route_request_back[OF assms, THEN conjunct1] declared_row(1)[OF V4]
    by (simp add: add_route_config_def V4 retyped_row row_fields declared_type_row)
next
  case (V6 y)
  let ?c = "(declared_fields (v6_only (dr_gateway r)) r (ipv6_route_from_addr y (dr_prefix_len r)))
    \<lparr>rc_route_type := declared_type_code (dr_route_type r)\<rparr>"
  have "list_all (call_fits e) (tl (v6_route_add e i ?c))" by (rule plain_fits(2)) (simp_all add: plain_parts)
  moreover have "list_all (call_fits e) (tl (v4_route_add e i (ipv4_route_from_addr 0 0)))"
    by (rule plain_fits(1)) (simp_all add: plain_parts)
  ultimately show ?thesis
    using route_request_back[OF assms, THEN conjunct2] declared_row(2)[OF V6]
    by (simp add: add_route_config_def V6 retyped_row row_fields declared_type_row)
qed

lemma delete_request_row:
  assumes "winnow_ok w"
  shows "\<exists>m. fst (route_parse w e (wire_calls e (route_delete_calls e i (del_route_config r)))) = Inr m \<and>
    row_of r (ri_oif i) m \<and> route_kind m = RtUnicast \<and> route_protocol_of m = RpBoot"
proof (cases "dr_destination r")
  case (V4 x)
  let ?c = "declared_fields (v4_only (dr_gateway r)) r (ipv4_route_from_addr x (dr_prefix_len r))"
  have ok: "ip_ok 2 (Some (V4 a))" for a by (simp add: ip_ok_def ip_family_def)
  have "fst (route_parse w e (wire_calls e (route_delete_calls e i (del_route_config r)))) =
      Inr (route_read 2 V4 (v4_determine_scope ?c) None None (ri_oif i) ?c)"
    unfolding del_route_config_def V4 ip_addr.case route_delete_calls.simps v4_route_delete_def
    by (rule route_delete_back[OF assms ok])
  then show ?thesis
    using declared_row(1)[OF V4] by (simp add: row_fields plain_parts route_type_from_def route_protocol_from_def)
next
  case (V6 y)
  let ?c = "declared_fields (v6_only (dr_gateway r)) r (ipv6_route_from_addr y (dr_prefix_len r))"
  have ok: "ip_ok 10 (Some (V6 a))" for a by (simp add: ip_ok_def ip_family_def)
  have "fst (route_parse w e (wire_calls e (route_delete_calls e i (del_route_config r)))) =
      Inr (route_read 10 V6 (v6_determine_scope ?c) None None (ri_oif i) ?c)"
    unfolding del_route_config_def V6 ip_addr.case route_delete_calls.simps v6_route_delete_def
    by (rule route_delete_back[OF assms ok])
  then show ?thesis
    using declared_row(2)[OF V6] by (simp add: row_fields plain_parts route_type_from_def route_protocol_from_def)
qed

text \<open>
  C33. When an added route settles its declaration.  The kernel reports the route the request asks for, on
  the interface the differ resolves the declared device to; the differ then finds the declaration
  met exactly if the declared gateway is of the family of the destination - one of the other family
  is left out of the request, so that every run adds the route again - and a destination declared
  with an empty prefix is zero.
\<close>

theorem added_route_settles:
  assumes "winnow_ok w"
  shows "\<exists>m. fst (route_parse w e (wire_calls e (route_add_calls e (differ_interfaces kd r) (add_route_config r)))) = Inr m \<and>
    (route_ok (kd\<lparr>kd_routes := [m]\<rparr>) r \<longleftrightarrow>
       gateway_kept r \<and> (dr_prefix_len r > 0 \<or> dr_destination r = V4 0 \<or> dr_destination r = V6 0))"
proof -
  obtain m where m: "fst (route_parse w e (wire_calls e (route_add_calls e (differ_interfaces kd r) (add_route_config r)))) = Inr m"
      "row_of r (ri_oif (differ_interfaces kd r)) m" "route_kind m = declared_type_code (dr_route_type r)"
    using add_request_row[OF assms] by blast
  let ?dev = "Option.bind (dr_dev r) (name_to_ifindex (ifindex_to_name (kd_links kd)))"
  note row = m(2)[unfolded row_of_def differ_interfaces_def resolved_route_interfaces.simps]
  have key: "kernel_route_key m = declared_route_key r \<longleftrightarrow>
      dr_prefix_len r > 0 \<or> dr_destination r = V4 0 \<or> dr_destination r = V6 0"
    using row by (cases "dr_destination r") (auto simp: kernel_route_key_def declared_route_key_def route_dst_def)
  have gw: "dr_gateway r = rm_gateway m \<longleftrightarrow> gateway_kept r"
    using row by (cases "dr_gateway r") (auto simp: gateway_kept_def)
  have dev: "case ?dev of None \<Rightarrow> True | Some i \<Rightarrow> rm_oif m = Some i"
    using row by (auto split: option.split)
  have eligible: "route_eligible m"
    using m(3) declared_type_row(3)[of "dr_route_type r"] by (simp add: route_eligible_def)
  have metric: "rm_priority m = dr_metric r" using row by simp
  have "route_ok (kd\<lparr>kd_routes := [m]\<rparr>) r \<longleftrightarrow> kernel_route_key m = declared_route_key r \<and> dr_gateway r = rm_gateway m"
    using dev eligible by (auto simp: route_ok_def metric)
  with key gw m(1) show ?thesis by blast
qed

lemma removed_route_iff:
  "r \<in> set (cd_routes_to_remove (diff_of e p cfg kd purge)) \<longleftrightarrow>
   purge \<and> (\<exists>k \<in> set (kd_routes kd). r \<in> set (stray_route (ifindex_to_name (kd_links kd)) cfg k))"
  unfolding diff_of_fields by (cases purge) auto

text \<open>
  C34. What a purge asks the kernel to delete.  For every kernel route it selects, the request read back names that
  route: its destination (unless the prefix is empty), family, prefix length, table, metric, the interface resolved for it,
  and its gateway if that is of the family of the destination.  But whatever protocol and type the selected route has,
  the request says protocol \<open>boot\<close> and type unicast: the static and the blackhole routes that
  \<open>purge_route\<close> selects are not the ones it names.
\<close>

theorem purge_deletes_boot_unicast:
  assumes "winnow_ok w" "r \<in> set (cd_routes_to_remove (diff_of e p cfg kd purge))"
  shows "\<exists>k m. k \<in> set (kd_routes kd) \<and> kernel_route_key k = declared_route_key r \<and>
    route_protocol_of k \<in> {RpStatic, RpBoot} \<and> declared_kind (route_kind k) = Some (dr_route_type r) \<and>
    fst (route_parse w e (wire_calls e (route_delete_calls e i (del_route_config r)))) = Inr m \<and>
    rm_destination m = (if route_dst_len k > 0 then Some (route_dst k) else None) \<and>
    route_is_ipv4 m = is_ipv4 (route_dst k) \<and> route_dst_len m = route_dst_len k \<and> table_id m = table_id k \<and>
    rm_oif m = ri_oif i \<and> rm_priority m = rm_priority k \<and>
    rm_gateway m = (if pred_option (\<lambda>g. is_ipv4 g = is_ipv4 (route_dst k)) (rm_gateway k) then rm_gateway k else None) \<and>
    route_kind m = RtUnicast \<and> route_protocol_of m = RpBoot"
proof -
  obtain k where k: "k \<in> set (kd_routes kd)" and stray: "r \<in> set (stray_route (ifindex_to_name (kd_links kd)) cfg k)"
    using assms(2) unfolding removed_route_iff by blast
  obtain m where m: "fst (route_parse w e (wire_calls e (route_delete_calls e i (del_route_config r)))) = Inr m"
      "row_of r (ri_oif i) m" "route_kind m = RtUnicast" "route_protocol_of m = RpBoot"
    using delete_request_row[OF assms(1)] by blast
  note sel = stray[unfolded stray_route_iff]
  then have key: "route_dst k = dr_destination r" "route_dst_len k = dr_prefix_len r" "table_id k = 254" "rm_gateway k = dr_gateway r"
      "rm_priority k = dr_metric r" "dr_table r = Some 254"
    by (simp_all add: kernel_route_key_def declared_route_key_def)
  have kept: "gateway_kept r = pred_option (\<lambda>g. is_ipv4 g = is_ipv4 (dr_destination r)) (dr_gateway r)"
    by (cases "dr_destination r") (auto simp: gateway_kept_def split: option.split ip_addr.split)
  have "rm_destination m = (if route_dst_len k > 0 then Some (route_dst k) else None) \<and>
      route_is_ipv4 m = is_ipv4 (route_dst k) \<and> route_dst_len m = route_dst_len k \<and> table_id m = table_id k \<and>
      rm_oif m = ri_oif i \<and> rm_priority m = rm_priority k \<and>
      rm_gateway m = (if pred_option (\<lambda>g. is_ipv4 g = is_ipv4 (route_dst k)) (rm_gateway k) then rm_gateway k else None)"
    using m(2) unfolding row_of_def key kept by (cases "dr_destination r") simp_all
  then show ?thesis using k sel m by blast
qed

text \<open>A static blackhole route of the main table, and a configuration that declares nothing.\<close>

abbreviation static_blackhole :: route_message where
  "static_blackhole \<equiv> (route_message_of (rt_msg_new\<lparr>rtm_family := 2, rtm_dst_len := 8, rtm_table := 254, rtm_type := 6,
     rtm_protocol := 4\<rparr>))\<lparr>rm_destination := Some (V4 0x0A000000)\<rparr>"

theorem purge_deletes_boot_unicast_witness:
  "\<forall>e i. let r = \<lparr>dr_destination = V4 0x0A000000, dr_prefix_len = 8, dr_gateway = None, dr_dev = None, dr_metric = None,
        dr_table = Some 254, dr_route_type = Blackhole\<rparr>
   in \<exists>k m. k \<in> {static_blackhole} \<and> route_protocol_of k = RpStatic \<and> route_kind k = RtBlackhole \<and>
      fst (route_parse winnow_ref e (wire_calls e (route_delete_calls e i (del_route_config r)))) = Inr m \<and>
      route_kind m = RtUnicast \<and> route_protocol_of m = RpBoot"
proof (intro allI)
  fix e :: endian and i
  let ?r = "\<lparr>dr_destination = V4 0x0A000000, dr_prefix_len = 8, dr_gateway = None, dr_dev = None, dr_metric = None,
        dr_table = Some 254, dr_route_type = Blackhole\<rparr>"
  let ?kd = "\<lparr>kd_links = [], kd_addresses = [], kd_routes = [static_blackhole], kd_qdiscs = []\<rparr>"
  have "?r \<in> set (cd_routes_to_remove (diff_of e p network_config_new ?kd True))" for p
    unfolding removed_route_iff stray_route_iff
    by (simp add: kernel_route_key_def declared_route_key_def route_dst_def route_is_ipv4_def route_dst_len_def
        table_id_def route_protocol_of_def route_kind_def route_protocol_from_def route_type_from_def
        route_message_of_def rt_msg_new_def network_config_new_def)
  note sel = this
  have k: "route_protocol_of static_blackhole = RpStatic" "route_kind static_blackhole = RtBlackhole"
    by (simp_all add: route_protocol_of_def route_kind_def route_protocol_from_def route_type_from_def
        route_message_of_def rt_msg_new_def)
  obtain k' m where "k' \<in> set (kd_routes ?kd)" and
      m: "fst (route_parse winnow_ref e (wire_calls e (route_delete_calls e i (del_route_config ?r)))) = Inr m"
      "route_kind m = RtUnicast" "route_protocol_of m = RpBoot"
    using purge_deletes_boot_unicast[OF winnow_ref_ok sel, of i] by blast
  then show "let r = ?r in \<exists>k m. k \<in> {static_blackhole} \<and> route_protocol_of k = RpStatic \<and> route_kind k = RtBlackhole \<and>
      fst (route_parse winnow_ref e (wire_calls e (route_delete_calls e i (del_route_config r)))) = Inr m \<and>
      route_kind m = RtUnicast \<and> route_protocol_of m = RpBoot"
    unfolding Let_def using k m by blast
qed

theorem added_address_settles_witness:
  "\<forall>e. let a = \<lparr>da_dev = ''eth0'', da_address = V4 0x0A000001, da_prefix_len = 24\<rparr>;
       kd = \<lparr>kd_links = [(link_message_of (if_info_msg_with_index 2 if_info_msg_new))\<lparr>lm_name := Some ''eth0''\<rparr>],
             kd_addresses = [], kd_routes = [], kd_qdiscs = []\<rparr>
   in \<exists>m. fst (address_parse winnow_ref e (wire_calls e
        (address_add_calls e 2 (any_address_new (Name ''eth0'') (V4 0x0A000001) 24)))) = Inr m \<and>
      address_ok (kd\<lparr>kd_addresses := [] @ [m]\<rparr>) a"
proof (intro allI)
  fix e :: endian
  let ?a = "\<lparr>da_dev = ''eth0'', da_address = V4 0x0A000001, da_prefix_len = 24\<rparr>"
  let ?kd = "\<lparr>kd_links = [(link_message_of (if_info_msg_with_index 2 if_info_msg_new))\<lparr>lm_name := Some ''eth0''\<rparr>],
             kd_addresses = [], kd_routes = [], kd_qdiscs = []\<rparr>"
  have "iface_name ?kd 2 = Some (da_dev ?a)"
    by (simp add: iface_name_def link_message_of_def link_ifindex_def if_info_msg_with_index_def if_info_msg_new_def)
  from added_address_settles[OF winnow_ref_ok this, of e "[]"]
  show "let a = ?a; kd = ?kd in \<exists>m. fst (address_parse winnow_ref e (wire_calls e
        (address_add_calls e 2 (any_address_new (Name ''eth0'') (V4 0x0A000001) 24)))) = Inr m \<and>
      address_ok (kd\<lparr>kd_addresses := [] @ [m]\<rparr>) a"
    unfolding Let_def by simp
qed

theorem added_route_settles_witness:
  "\<forall>e. let r = \<lparr>dr_destination = V4 0x0A000000, dr_prefix_len = 8, dr_gateway = Some (V6 1), dr_dev = None, dr_metric = None,
        dr_table = None, dr_route_type = Unicast\<rparr>;
       kd = \<lparr>kd_links = [], kd_addresses = [], kd_routes = [], kd_qdiscs = []\<rparr>
   in \<exists>m. fst (route_parse winnow_ref e (wire_calls e (route_add_calls e (differ_interfaces kd r) (add_route_config r)))) = Inr m \<and>
      \<not> route_ok (kd\<lparr>kd_routes := [m]\<rparr>) r"
proof (intro allI)
  fix e :: endian
  let ?r = "\<lparr>dr_destination = V4 0x0A000000, dr_prefix_len = 8, dr_gateway = Some (V6 1), dr_dev = None, dr_metric = None,
        dr_table = None, dr_route_type = Unicast\<rparr>"
  let ?kd = "\<lparr>kd_links = [], kd_addresses = [], kd_routes = [], kd_qdiscs = []\<rparr>"
  have "\<not> gateway_kept ?r" by (simp add: gateway_kept_def)
  then show "let r = ?r; kd = ?kd
   in \<exists>m. fst (route_parse winnow_ref e (wire_calls e (route_add_calls e (differ_interfaces kd r) (add_route_config r)))) = Inr m \<and>
      \<not> route_ok (kd\<lparr>kd_routes := [m]\<rparr>) r"
    using added_route_settles[OF winnow_ref_ok, of e ?kd ?r] unfolding Let_def by blast
qed

section \<open>Links\<close>

fun keeps_mtu :: "declared_link_type \<Rightarrow> bool" where
  "keeps_mtu (declared_link_type.Vxlan _ _ _ _ _) = False"
| "keeps_mtu (declared_link_type.Macvlan _ _) = False"
| "keeps_mtu declared_link_type.Ifb = False"
| "keeps_mtu _ = True"

fun keeps_mac :: "declared_link_type \<Rightarrow> bool" where
  "keeps_mac declared_link_type.Dummy = True"
| "keeps_mac (declared_link_type.Veth _) = True"
| "keeps_mac declared_link_type.Bridge = True"
| "keeps_mac (declared_link_type.Macvlan _ _) = True"
| "keeps_mac (declared_link_type.Bond _ _ _ _ _ _ _ _ _) = True"
| "keeps_mac _ = False"

lemmas link_news = dummy_link_new_def veth_link_new_def bridge_link_new_def vlan_link_new_def vxlan_link_new_def
  macvlan_link_new_def bond_link_new_def ifb_link_new_def vrf_link_new_def ovpn_link_new_def netkit_link_new_def

lemma some_data:
  "\<exists>data. [] = (case data of None \<Rightarrow> [] | Some ds \<Rightarrow> [Nested 2 ds])"
  "\<exists>data. [Nested 2 ds] = (case data of None \<Rightarrow> [] | Some ds \<Rightarrow> [Nested 2 ds])"
  by (rule exI[of _ None], simp) (rule exI[of _ "Some ds"], simp)

lemma created_calls:
  assumes "link_of_type l t = Some a" "needs_parent a \<Longrightarrow> p \<noteq> None"
  shows "lc_name (config_of a) = dl_name l \<and>
    (\<exists>data. lc_write_to (config_of a) e p = Some (link_calls (dl_name l)
      [opt_u32 e 5 (if needs_parent a then p else None), link_mtu e (if keeps_mtu t then dl_mtu l else None),
       link_mac (if keeps_mac t then dl_address l else None)] (lc_kind (config_of a)) data))"
  using assms
  by (cases t; cases p) (auto simp: config_defs link_news link_calls_def opts_def simple_link_calls_def macvlan_calls_def some_data)

lemma link_calls_inj:
  "link_calls n ats k d = link_calls n ats' k d' \<Longrightarrow> d = d'"
  by (auto simp: link_calls_def split: option.splits)

text \<open>
  C35. What creating a declared link asks for.  The request is read back with the declared name, but with
  the declared MTU and MAC address only for some types: the MTU of VXLAN, MACVLAN and IFB links and the
  address of VLAN, VXLAN, IFB, VRF, OpenVPN and netkit links are not passed on, and since the differ
  compares no address, that one is never set.
\<close>

theorem created_link_read:
  assumes "winnow_ok w" "text_ok 65530 (dl_name l)" "mac_ok (dl_address l)"
    and "link_of_type l (dl_type l) = Some a" "link_fits a"
    and "lc_parent_ref (config_of a) = None \<or> p \<noteq> None"
  shows "\<exists>cs m. lc_write_to (config_of a) e p = Some cs \<and>
    fst (link_parse w e (wire_calls e (link_header e # cs))) = Inr m \<and> lm_name m = Some (dl_name l) \<and>
    lm_mtu m = (if keeps_mtu (dl_type l) then dl_mtu l else None) \<and>
    lm_address m = (if keeps_mac (dl_type l) then dl_address l else None)"
proof -
  let ?ats = "[opt_u32 e 5 (if needs_parent a then p else None), link_mtu e (if keeps_mtu (dl_type l) then dl_mtu l else None),
       link_mac (if keeps_mac (dl_type l) then dl_address l else None)]"
  obtain data where cs: "lc_write_to (config_of a) e p = Some (link_calls (dl_name l) ?ats (lc_kind (config_of a)) data)"
    and name: "lc_name (config_of a) = dl_name l"
    using created_calls[OF assms(4), of p e] needs_parent_ref assms(6) by blast
  obtain ats data' where "link_calls (dl_name l) ?ats (lc_kind (config_of a)) data =
      link_calls (dl_name l) ats (lc_kind (config_of a)) data'" "data_fits e data'"
    using config_writes[OF assms(5,6), of e] cs by (auto simp: writes_def link_written_def name)
  then have data: "data_fits e data" using link_calls_inj by metis
  have "case if keeps_mac (dl_type l) then dl_address l else None of None \<Rightarrow> True | Some a \<Rightarrow> length a \<le> 65531"
    using assms(3) by (auto simp: mac_ok_def split: option.splits)
  from link_calls_read[OF assms(1,2) kind_text this data[unfolded data_fits_def], where a1 = a and h = if_info_msg_new]
  show ?thesis using cs by (simp add: link_read_def link_message_of_def)
qed

theorem created_link_read_witness:
  "let l = (link_builder_new ''eth0.10'')\<lparr>dl_type := declared_link_type.Vlan ''eth0'' 10 None, dl_mtu := Some 1400,
         dl_address := Some [2, 0, 0, 0, 0, 1]\<rparr>;
       a = Vlan ((vlan_link_new ''eth0.10'' ''eth0'' 10)\<lparr>vl_mtu := Some 1400, vl_protocol := None\<rparr>)
   in link_of_type l (dl_type l) = Some a \<and>
      (\<exists>cs m. lc_write_to (config_of a) LittleEndian (Some 2) = Some cs \<and>
        fst (link_parse winnow_ref LittleEndian (wire_calls LittleEndian (link_header LittleEndian # cs))) = Inr m \<and>
        lm_name m = Some ''eth0.10'' \<and> lm_mtu m = Some 1400 \<and> lm_address m = None)"
proof -
  let ?l = "(link_builder_new ''eth0.10'')\<lparr>dl_type := declared_link_type.Vlan ''eth0'' 10 None, dl_mtu := Some 1400,
         dl_address := Some [2, 0, 0, 0, 0, 1]\<rparr>"
  let ?a = "Vlan ((vlan_link_new ''eth0.10'' ''eth0'' 10)\<lparr>vl_mtu := Some 1400, vl_protocol := None\<rparr>)"
  have a: "link_of_type ?l (dl_type ?l) = Some ?a" by (simp add: link_builder_new_def vlan_link_new_def)
  have "text_ok 65530 (dl_name ?l)" "mac_ok (dl_address ?l)" "link_fits ?a"
    by (simp_all add: link_builder_new_def vlan_link_new_def mac_ok_def text_ok_def bytes_of_str_def char_byte_def
        utf8_valid_ascii)
  from created_link_read[OF winnow_ref_ok this(1,2) a this(3), of "Some 2" LittleEndian] a
  show ?thesis unfolding Let_def by (simp add: link_builder_new_def)
qed

end
