(* ===== verification/Rtnl_Requests.thy ===== *)
theory Rtnl_Requests
  imports Rtnl_Config
begin

text \<open>
  The requests that add addresses and routes (\<open>netlink/addr.rs\<close>, \<open>netlink/route.rs\<close>), read back whole: by the
  typed parsers, and for the attributes those skip - the metric of an address; the metrics, the mark, the next-hop group
  and the encapsulation of a route - by the attribute iterator.
\<close>

section \<open>The attributes of a request\<close>

text \<open>What the iterator finds under a type after the header of \<open>n\<close> bytes, or in a nest.\<close>

definition attr_value :: "endian \<Rightarrow> bytes \<Rightarrow> u16 \<Rightarrow> bytes option" where
  "attr_value e data = map_of (attrs_of e data)"

definition calls_value :: "endian \<Rightarrow> call list \<Rightarrow> u16 \<Rightarrow> bytes option" where
  "calls_value e cs = map_of (map (call_item e) cs)"

lemma request_value:
  assumes "list_all (call_fits e) cs" "list_all is_attr cs" "4 dvd length h"
  shows "attr_value e (drop (length h) (wire_calls e (Struct h # cs))) = calls_value e cs"
  unfolding attr_value_def calls_value_def struct_wire[OF assms(3)] using attrs_of_calls[OF assms(1,2), of "[]"] by simp

lemma nest_value:
  "list_all (call_fits e) cs \<Longrightarrow> list_all is_attr cs \<Longrightarrow> attr_value e (wire_calls e cs) = calls_value e cs"
  using attrs_of_calls[of e cs "[]"] by (simp add: attr_value_def calls_value_def)

lemma value_append:
  "calls_value e (xs @ ys) k = (case calls_value e xs k of Some d \<Rightarrow> Some d | None \<Rightarrow> calls_value e ys k)"
  by (simp add: calls_value_def map_add_def split: option.split)

lemma value_Cons:
  "calls_value e [] k = None"
  "calls_value e (c # cs) k = (if fst (call_item e c) = k then Some (snd (call_item e c)) else calls_value e cs k)"
  by (simp_all add: calls_value_def map_of_Cons_code split: prod.split)

lemma value_opts:
  "calls_value e (opts []) k = None"
  "calls_value e (opts ((t, v) # ats)) k = (if t AND NLA_TYPE_MASK = k \<and> v \<noteq> None then v else calls_value e (opts ats) k)"
  by (cases v; simp add: opts_def calls_value_def)+

section \<open>Addresses\<close>

lemma address_metric:
  assumes "label_ok (ac_label c)"
  shows "attr_value e (drop 8 (wire_calls e (v4_address_add e ifindex c))) 9 = map_option (ne_bytes e 4) (ac_metric c)"
    "attr_value e (drop 8 (wire_calls e (v6_address_add e ifindex c6))) 9 = map_option (ne_bytes e 4) (ac_metric c6)"
proof -
  have ok: "list_all opt_ok (v4_common_attrs e c)" "list_all opt_ok (v6_common_attrs e c6)"
    using assms
    by (auto simp: v4_common_attrs_def v6_common_attrs_def opt_ok_def label_ok_def dest: cacheinfo_back(1)
        split: option.splits if_splits)
  have len: "length (if_addr_msg_as_bytes e h) = 8" for h by (simp add: if_addr_msg.enc_length)
  show "attr_value e (drop 8 (wire_calls e (v4_address_add e ifindex c))) 9 = map_option (ne_bytes e 4) (ac_metric c)"
    using request_value[OF opts_fits[OF ok(1)] opts_attr, of "if_addr_msg_as_bytes e (add_ifaddr 2 ifindex c)"]
    by (simp add: v4_address_add_def len) (simp add: v4_common_attrs_def value_opts type_mask del: ip_octets.simps)
  show "attr_value e (drop 8 (wire_calls e (v6_address_add e ifindex c6))) 9 = map_option (ne_bytes e 4) (ac_metric c6)"
    using request_value[OF opts_fits[OF ok(2)] opts_attr, of "if_addr_msg_as_bytes e (add_ifaddr 10 ifindex c6)"]
    by (simp add: v6_address_add_def len) (simp add: v6_common_attrs_def value_opts type_mask del: ip_octets.simps)
qed

text \<open>
  C36. The request that adds an address is read back as that address: the library's own parser reads index, prefix
  length and scope in the header, the address as local, the peer (or the address again) as address, and broadcast, label,
  flags and lifetimes as configured; the metric, which that parser skips, is the value of attribute 9
  (\<open>IFA_RT_PRIORITY\<close>), and absent if none was configured.
\<close>

theorem address_request_roundtrip:
  assumes "winnow_ok w" "label_ok (ac_label c)"
  shows "fst (address_parse w e (wire_calls e (v4_address_add e ifindex c))) = Inr (v4_address_read ifindex c) \<and>
    attr_value e (drop 8 (wire_calls e (v4_address_add e ifindex c))) 9 = map_option (ne_bytes e 4) (ac_metric c) \<and>
    fst (address_parse w e (wire_calls e (v6_address_add e ifindex c6))) = Inr (v6_address_read ifindex c6) \<and>
    attr_value e (drop 8 (wire_calls e (v6_address_add e ifindex c6))) 9 = map_option (ne_bytes e 4) (ac_metric c6)"
  using v4_address_back[OF assms] v6_address_back[OF assms(1)] address_metric[OF assms(2)] by blast

theorem address_request_roundtrip_witness:
  "let c = (ipv4_address_new (Name ''eth0'') 0x0A000001 24)\<lparr>ac_peer := Some 0x0A000002, ac_valid_lft := Some 60, ac_metric := Some 7\<rparr>
   in fst (address_parse winnow_ref LittleEndian (wire_calls LittleEndian (v4_address_add LittleEndian 2 c))) = Inr (v4_address_read 2 c) \<and>
     attr_value LittleEndian (drop 8 (wire_calls LittleEndian (v4_address_add LittleEndian 2 c))) 9 = Some [7, 0, 0, 0]"
proof -
  let ?c = "(ipv4_address_new (Name ''eth0'') 0x0A000001 24)\<lparr>ac_peer := Some 0x0A000002, ac_valid_lft := Some 60, ac_metric := Some 7\<rparr>"
  have "label_ok (ac_label ?c)" by (simp add: ipv4_address_new_def label_ok_def)
  moreover have "ne_bytes LittleEndian 4 (7 :: u32) = [7, 0, 0, 0]" by code_simp
  ultimately show ?thesis
    using address_request_roundtrip[OF winnow_ref_ok, of ?c LittleEndian 2] by (simp add: Let_def)
qed

section \<open>Routes\<close>

text \<open>The metrics by the kernel's numbers (\<open>RTAX_*\<close>).\<close>

definition route_metric :: "route_metrics \<Rightarrow> u16 \<Rightarrow> u32 option" where
  "route_metric x k =
     (if k = 2 then mx_mtu x else if k = 3 then mx_window x else if k = 4 then mx_rtt x else if k = 5 then mx_rttvar x
      else if k = 6 then mx_ssthresh x else if k = 7 then mx_cwnd x else if k = 8 then mx_advmss x
      else if k = 9 then mx_reordering x else if k = 10 then mx_hoplimit x else if k = 11 then mx_initcwnd x
      else if k = 12 then mx_features x else if k = 13 then mx_rto_min x else if k = 14 then mx_initrwnd x
      else if k = 15 then mx_quickack x else None)"

text \<open>
  The encapsulation: type 1 (MPLS) with the stack of labels, each cut to its 20 bits, and the TTL, or type 5 (SRv6) with the
  mode and the segments as its header counts them.  Configured together, the first is found.
\<close>

definition mpls_shown :: "endian \<Rightarrow> (u16 \<Rightarrow> bytes option) \<Rightarrow> mpls_encap \<Rightarrow> bool" where
  "mpls_shown e found enc =
     (found 21 = Some (ne_bytes e 2 (1 :: u16)) \<and>
      (\<exists>d stack. found 22 = Some d \<and> attr_value e d 1 = Some stack \<and>
         parse_labels stack = map (\<lambda>l. l AND 0xFFFFF) (me_labels enc) \<and>
         attr_value e d 2 = map_option (\<lambda>ttl. [ttl]) (me_ttl enc)))"

definition srv6_shown :: "endian \<Rightarrow> (u16 \<Rightarrow> bytes option) \<Rightarrow> srv6_encap \<Rightarrow> bool" where
  "srv6_shown e found enc =
     (found 21 = Some (ne_bytes e 2 (5 :: u16)) \<and>
      (\<exists>d v. found 22 = Some d \<and> attr_value e d 1 = Some v \<and>
         srv6_mode_from_u32 (ne_word e (take 4 v)) = Some (se_mode enc) \<and>
         ss_srh_segments (seg6_local_attr e 2 v srv6_scan_new) = segments_back (se_segments enc)))"

definition encap_shown :: "endian \<Rightarrow> (u16 \<Rightarrow> bytes option) \<Rightarrow> ('a, 'b) route_config_scheme \<Rightarrow> bool" where
  "encap_shown e found c =
     (case (filter (\<lambda>enc. me_labels enc \<noteq> []) (case rc_mpls_encap c of None \<Rightarrow> [] | Some enc \<Rightarrow> [enc]),
            filter (\<lambda>enc. se_segments enc \<noteq> []) (case rc_srv6_encap c of None \<Rightarrow> [] | Some enc \<Rightarrow> [enc])) of
        (enc # _, _) \<Rightarrow> mpls_shown e found enc
      | ([], enc # _) \<Rightarrow> srv6_shown e found enc
      | ([], []) \<Rightarrow> found 21 = None \<and> found 22 = None)"

definition extras_shown :: "endian \<Rightarrow> (u16 \<Rightarrow> bytes option) \<Rightarrow> ('a, 'b) route_config_scheme \<Rightarrow> bool" where
  "extras_shown e found c =
     (found 16 = map_option (ne_bytes e 4) (rc_mark c) \<and> found 30 = map_option (ne_bytes e 4) (rc_nexthop_id c) \<and>
      (case (case rc_metrics c of Some x \<Rightarrow> if metrics_has_any x then Some x else None | None \<Rightarrow> None) of
         None \<Rightarrow> found 8 = None
       | Some x \<Rightarrow> \<exists>d. found 8 = Some d \<and> (\<forall>k. attr_value e d k = map_option (ne_bytes e 4) (route_metric x k))) \<and>
      encap_shown e found c)"

lemma metrics_value:
  assumes "list_all (call_fits e) (metrics_calls e c)"
  shows "case (case rc_metrics c of Some x \<Rightarrow> if metrics_has_any x then Some x else None | None \<Rightarrow> None) of
         None \<Rightarrow> calls_value e (metrics_calls e c) 8 = None
       | Some x \<Rightarrow> \<exists>d. calls_value e (metrics_calls e c) 8 = Some d \<and>
           (\<forall>k. attr_value e d k = map_option (ne_bytes e 4) (route_metric x k))"
    and "k \<noteq> 8 \<Longrightarrow> calls_value e (metrics_calls e c) k = None"
proof -
  have metrics: "calls_value e (opts (metrics_attrs e x)) k = map_option (ne_bytes e 4) (route_metric x k)" for x k
    by (simp add: metrics_attrs_def value_opts type_mask) (auto simp: route_metric_def split: option.split)
  show "case (case rc_metrics c of Some x \<Rightarrow> if metrics_has_any x then Some x else None | None \<Rightarrow> None) of
         None \<Rightarrow> calls_value e (metrics_calls e c) 8 = None
       | Some x \<Rightarrow> \<exists>d. calls_value e (metrics_calls e c) 8 = Some d \<and>
           (\<forall>k. attr_value e d k = map_option (ne_bytes e 4) (route_metric x k))"
  proof (cases "rc_metrics c")
    case (Some x)
    then show ?thesis
      using assms metrics[of x] nest_value[OF _ opts_attr, of e "metrics_attrs e x"]
      by (cases "metrics_has_any x") (simp_all add: metrics_calls_def type_mask value_Cons)
  qed (simp add: metrics_calls_def value_Cons)
  show "k \<noteq> 8 \<Longrightarrow> calls_value e (metrics_calls e c) k = None"
    by (simp add: metrics_calls_def type_mask value_Cons split: option.split)
qed

lemma mpls_value:
  assumes "list_all (call_fits e) (mpls_encap_calls e enc)" "me_labels enc \<noteq> []"
  shows "mpls_shown e (calls_value e (mpls_encap_calls e enc @ cs)) enc"
proof -
  let ?cs = "Attr 1 (encode_labels enc) # opts [opt_u8 2 (me_ttl enc)]"
  have fits: "list_all (call_fits e) ?cs" "list_all is_attr ?cs"
    using assms by (simp_all add: mpls_encap_calls_def opts_attr)
  have "attr_value e (wire_calls e ?cs) 1 = Some (encode_labels enc)"
    "attr_value e (wire_calls e ?cs) 2 = map_option (\<lambda>ttl. [ttl]) (me_ttl enc)"
    unfolding nest_value[OF fits] by (simp_all add: value_Cons value_opts type_mask)
  moreover have "calls_value e (mpls_encap_calls e enc @ cs) 22 = Some (wire_calls e ?cs)"
    "calls_value e (mpls_encap_calls e enc @ cs) 21 = Some (ne_bytes e 2 (1 :: u16))"
    using assms(2) by (simp_all add: mpls_encap_calls_def value_Cons type_mask)
  ultimately show ?thesis by (simp add: mpls_shown_def encode_labels_def parse_label_stack)
qed

lemma srv6_value:
  assumes "list_all (call_fits e) (srv6_encap_calls e enc)" "se_segments enc \<noteq> []"
  shows "srv6_shown e (calls_value e (srv6_encap_calls e enc)) enc"
proof -
  let ?v = "ne_bytes e 4 (srv6_mode_to_u32 (se_mode enc)) @ build_srh e (se_segments enc)"
  have fits: "list_all (call_fits e) [Attr 1 ?v]" "list_all is_attr [Attr 1 ?v]"
    using assms by (simp_all add: srv6_encap_calls_def)
  have mode: "srv6_mode_from_u32 (srv6_mode_to_u32 m) = Some m" for m
    by (cases m) (simp_all add: srv6_mode_from_u32_def)
  have "attr_value e (wire_calls e [Attr 1 ?v]) 1 = Some ?v"
    unfolding nest_value[OF fits] by (simp add: value_Cons type_mask)
  moreover have "calls_value e (srv6_encap_calls e enc) 22 = Some (wire_calls e [Attr 1 ?v])"
    "calls_value e (srv6_encap_calls e enc) 21 = Some (ne_bytes e 2 (5 :: u16))"
    using assms(2) by (simp_all add: srv6_encap_calls_def value_Cons type_mask)
  moreover have "ss_srh_segments (seg6_local_attr e 2 ?v srv6_scan_new) = segments_back (se_segments enc)"
    by (simp add: srh_back[OF assms(2)] srv6_scan_new_def)
  moreover have "ne_word e (take 4 ?v) = srv6_mode_to_u32 (se_mode enc)" by (simp add: ne_word_bytes)
  ultimately show ?thesis by (simp add: srv6_shown_def mode)
qed

lemma encap_value:
  assumes "list_all (call_fits e) (encap_calls e c)"
  shows "encap_shown e (calls_value e (encap_calls e c)) c"
    and "k \<notin> {21, 22} \<Longrightarrow> calls_value e (encap_calls e c) k = None"
proof -
  have none: "me_labels enc = [] \<Longrightarrow> mpls_encap_calls e enc = []" "se_segments enc' = [] \<Longrightarrow> srv6_encap_calls e enc' = []"
    for enc enc' by (simp_all add: mpls_encap_calls_def srv6_encap_calls_def)
  note mpls = mpls_value[where e = e and cs = "[]", unfolded append_Nil2] mpls_value[where e = e]
  show "encap_shown e (calls_value e (encap_calls e c)) c"
    using assms
    by (cases "rc_mpls_encap c"; cases "rc_srv6_encap c")
      (auto simp: encap_shown_def encap_calls_def none value_Cons mpls srv6_value)
  show "k \<notin> {21, 22} \<Longrightarrow> calls_value e (encap_calls e c) k = None"
    by (auto simp: encap_calls_def mpls_encap_calls_def srv6_encap_calls_def value_Cons value_append type_mask split: option.split)
qed

lemma multipath_value: "k \<noteq> 9 \<Longrightarrow> calls_value e (multipath_calls e g i c) k = None"
  by (simp add: multipath_calls_def value_Cons type_mask split: option.split)

lemma encap_cong:
  assumes "found 21 = found' 21" "found 22 = found' 22"
  shows "encap_shown e found c = encap_shown e found' c"
  by (simp only: encap_shown_def mpls_shown_def srv6_shown_def assms)

text \<open>Both families: \<open>ats\<close> are the key attributes, the mark and what else comes before the metrics.\<close>

lemma extras_value:
  assumes "list_all (call_fits e) (metrics_calls e c @ encap_calls e c)"
    and "\<And>k. k \<in> {8, 21, 22, 30} \<Longrightarrow> calls_value e (opts ats) k = None"
    and "calls_value e (opts ats) 16 = map_option (ne_bytes e 4) (rc_mark c)"
  shows "extras_shown e (calls_value e (opts ats @ metrics_calls e c @ multipath_calls e g i c @
    opts [opt_u32 e 30 (rc_nexthop_id c)] @ encap_calls e c)) c"
proof -
  let ?found = "calls_value e (opts ats @ metrics_calls e c @ multipath_calls e g i c @
    opts [opt_u32 e 30 (rc_nexthop_id c)] @ encap_calls e c)"
  have fits: "list_all (call_fits e) (metrics_calls e c)" "list_all (call_fits e) (encap_calls e c)" using assms(1) by simp_all
  note at_key = value_append value_opts type_mask assms(2,3) metrics_value(2)[OF fits(1)] multipath_value encap_value(2)[OF fits(2)]
  have f16: "?found 16 = map_option (ne_bytes e 4) (rc_mark c)" and f30: "?found 30 = map_option (ne_bytes e 4) (rc_nexthop_id c)"
    by (simp_all add: at_key split: option.split)
  have f8: "?found 8 = calls_value e (metrics_calls e c) 8" by (simp add: at_key split: option.split)
  have "?found 21 = calls_value e (encap_calls e c) 21" "?found 22 = calls_value e (encap_calls e c) 22"
    by (simp_all add: at_key split: option.split)
  then have "encap_shown e ?found c" using encap_value(1)[OF fits(2)] by (subst encap_cong)
  then show ?thesis using metrics_value(1)[OF fits(1)] unfolding extras_shown_def f8 f16 f30 by simp
qed

lemma route_extras:
  assumes "list_all (call_fits e) (tl (v4_route_add e i c))" "list_all (call_fits e) (tl (v6_route_add e i c6))"
  shows "extras_shown e (attr_value e (drop 12 (wire_calls e (v4_route_add e i c)))) c"
    "extras_shown e (attr_value e (drop 12 (wire_calls e (v6_route_add e i c6)))) c6"
proof -
  have len: "length (rt_msg_as_bytes e h) = 12" for h by (simp add: rt_msg.enc_length)
  have keys: "calls_value e (opts (route_key_attrs e octets oif c @ ats)) k = calls_value e (opts ats) k"
    if "k \<in> {8, 16, 21, 22, 30}" for octets oif ats k and c :: "('x, 'y) route_config_scheme"
    using that by (auto simp: route_key_attrs_def value_opts type_mask)
  have found: "attr_value e (drop 12 (wire_calls e (Struct (rt_msg_as_bytes e h) # cs))) = calls_value e cs"
    if "list_all (call_fits e) cs" "list_all is_attr cs" for h cs
    using request_value[OF that, of "rt_msg_as_bytes e h"] by (simp add: len)
  show "extras_shown e (attr_value e (drop 12 (wire_calls e (v4_route_add e i c)))) c"
    using assms(1) unfolding v4_route_add_def list.sel
    by (subst found) (auto simp: opts_attr route_calls_attr keys value_opts type_mask intro!: extras_value)
  show "extras_shown e (attr_value e (drop 12 (wire_calls e (v6_route_add e i c6)))) c6"
    using assms(2) unfolding v6_route_add_def list.sel
    by (subst found) (auto simp: opts_attr route_calls_attr keys value_opts type_mask intro!: extras_value)
qed

text \<open>
  C37. The request that adds a route is read back as that route.  The library's own parser reads destination unless the
  prefix is empty, gateway, source, interface, table (in the header up to 255), priority, for IPv6 the preference, and the multipath
  hops with their weights counted from one.  What that parser skips is there under the kernel's numbers: the mark (16),
  the next-hop group (30), the metrics (8, each under its own number), and the encapsulation (21 and 22) with its
  labels or segments; and none of these if it was not configured.
\<close>

theorem route_request_roundtrip:
  assumes "winnow_ok w" "list_all (call_fits e) (tl (v4_route_add e i c))" "list_all (call_fits e) (tl (v6_route_add e i c6))"
  shows "fst (route_parse w e (wire_calls e (v4_route_add e i c))) =
      Inr (route_read 2 V4 (v4_determine_scope c) None (config_hops (\<lambda>nh. map_option V4 (nx_gateway_v4 nh)) i c) (ri_oif i) c) \<and>
    extras_shown e (attr_value e (drop 12 (wire_calls e (v4_route_add e i c)))) c \<and>
    fst (route_parse w e (wire_calls e (v6_route_add e i c6))) =
      Inr (route_read 10 V6 (v6_determine_scope c6) (rc_pref c6)
        (config_hops (\<lambda>nh. map_option V6 (nx_gateway_v6 nh)) i c6) (ri_oif i) c6) \<and>
    extras_shown e (attr_value e (drop 12 (wire_calls e (v6_route_add e i c6)))) c6"
  using route_request_back[OF assms] route_extras[OF assms(2,3)] by blast

theorem route_request_roundtrip_witness:
  "let c = route_set_multipath [\<lparr>nx_gateway_v4 = Some 0x0A000001, nx_gateway_v6 = None, nx_dev = None, nx_weight = 3, nx_flags = 4\<rparr>,
        \<lparr>nx_gateway_v4 = None, nx_gateway_v6 = None, nx_dev = Some (Name ''eth1''), nx_weight = 1, nx_flags = 0\<rparr>]
      ((ipv4_route_from_addr 0x0A010000 16)\<lparr>rc_table := 1000, rc_mpls_encap := Some \<lparr>me_labels = [100], me_ttl = None\<rparr>\<rparr>);
       i = \<lparr>ri_oif = None, ri_multipath = [None, Some 7]\<rparr>
   in fst (route_parse winnow_ref LittleEndian (wire_calls LittleEndian (v4_route_add LittleEndian i c))) =
      Inr (route_read 2 V4 ScopeUniverse None
        (Some [\<lparr>nh_ifindex = 0, nh_weight = 3, nh_flags_byte = 4, nh_gateway = Some (V4 0x0A000001)\<rparr>,
               \<lparr>nh_ifindex = 7, nh_weight = 1, nh_flags_byte = 0, nh_gateway = None\<rparr>]) None c) \<and>
      encap_shown LittleEndian (attr_value LittleEndian (drop 12 (wire_calls LittleEndian (v4_route_add LittleEndian i c)))) c"
proof -
  let ?c = "route_set_multipath [\<lparr>nx_gateway_v4 = Some 0x0A000001, nx_gateway_v6 = None, nx_dev = None, nx_weight = 3, nx_flags = 4\<rparr>,
        \<lparr>nx_gateway_v4 = None, nx_gateway_v6 = None, nx_dev = Some (Name ''eth1''), nx_weight = 1, nx_flags = 0\<rparr>]
      ((ipv4_route_from_addr 0x0A010000 16)\<lparr>rc_table := 1000, rc_mpls_encap := Some \<lparr>me_labels = [100], me_ttl = None\<rparr>\<rparr>)"
  let ?i = "\<lparr>ri_oif = None, ri_multipath = [None, Some 7]\<rparr>"
  have 4: "list_all (call_fits LittleEndian) (tl (v4_route_add LittleEndian ?i ?c))"
    by (simp add: v4_route_add_def opts_def route_key_attrs_def metrics_calls_def multipath_calls_def encap_calls_def
        multipath_entry_def mpls_encap_calls_def encode_labels_def length_label_stack route_set_multipath_def
        ipv4_route_from_addr_def length_attr_wire nla_align_def Let_def)
  have 6: "list_all (call_fits LittleEndian) (tl (v6_route_add LittleEndian ?i (ipv6_route_from_addr 0 0)))"
    by (simp add: v6_route_add_def opts_def route_key_attrs_def metrics_calls_def multipath_calls_def encap_calls_def
        ipv6_route_from_addr_def)
  have scope: "v4_determine_scope ?c = ScopeUniverse"
    by (simp add: v4_determine_scope_def unicast_scope_def route_set_multipath_def ipv4_route_from_addr_def)
  have hops: "config_hops (\<lambda>nh. map_option V4 (nx_gateway_v4 nh)) ?i ?c =
      Some [\<lparr>nh_ifindex = 0, nh_weight = 3, nh_flags_byte = 4, nh_gateway = Some (V4 0x0A000001)\<rparr>,
            \<lparr>nh_ifindex = 7, nh_weight = 1, nh_flags_byte = 0, nh_gateway = None\<rparr>]"
    by (simp add: config_hops_def config_hop_def route_set_multipath_def)
  show ?thesis
    using route_request_roundtrip[OF winnow_ref_ok 4 6] unfolding scope hops extras_shown_def by simp
qed

end
