(* ===== verification/Nft_Tlv.thy ===== *)
theory Nft_Tlv
  imports Netlink_Builder "HOL-Library.Multiset"
begin

text \<open>
  The TLV normaliser of the nftables differ (\<open>netlink/nftables/config/diff.rs\<close>): it walks a
  byte stream as nested attributes, strips the flag bits, sorts siblings by type at every
  level and writes the canonical form back, leaving alone what does not parse.  The loop
  over \<open>pos\<close> is the recursion on the bytes that remain.
\<close>

section \<open>Definitions\<close>

definition emit_tlv :: "endian \<Rightarrow> bytes \<Rightarrow> u16 \<times> bytes \<Rightarrow> bytes" where
  "emit_tlv e out attr =
     (case attr of (ty, payload) \<Rightarrow>
       (let len = (of_nat (length payload + 4) :: u16);
            out = out @ ne_bytes e 2 len @ ne_bytes e 2 ty @ payload
        in resize ((length out + 3) div 4 * 4) out))"

definition emit_tlvs :: "endian \<Rightarrow> (u16 \<times> bytes) list \<Rightarrow> bytes" where
  "emit_tlvs e attrs = foldl (emit_tlv e) [] attrs"

abbreviation tlv_len :: "endian \<Rightarrow> bytes \<Rightarrow> nat" where
  "tlv_len e bs \<equiv> unat (ne_word e (take 2 bs) :: u16)"

definition tlv_type :: "endian \<Rightarrow> bytes \<Rightarrow> u16" where
  "tlv_type e bs = ne_word e (take 2 (drop 2 bs)) AND NOT 0xc000"

function try_walk_tlvs :: "endian \<Rightarrow> bytes \<Rightarrow> (u16 \<times> bytes) list option" where
  "try_walk_tlvs e bs =
     (if bs = [] then Some []
      else if length bs < 4 then None
      else if tlv_len e bs < 4 \<or> tlv_len e bs > length bs then None
      else
        (case (case try_walk_tlvs e (drop 4 (take (tlv_len e bs) bs)) of
                 Some inner \<Rightarrow> emit_tlvs e (sort_key fst inner)
               | None \<Rightarrow> drop 4 (take (tlv_len e bs) bs)) of
           normalized_payload \<Rightarrow>
             if (tlv_len e bs + 3) div 4 * 4 > length bs then None
             else (case try_walk_tlvs e (drop ((tlv_len e bs + 3) div 4 * 4) bs) of
                     None \<Rightarrow> None
                   | Some rest \<Rightarrow> Some ((tlv_type e bs, normalized_payload) # rest))))"
  by pat_completeness auto
termination
  by (relation "measure (\<lambda>(e, bs). length bs)") auto

declare try_walk_tlvs.simps [simp del]

definition normalize_tlv :: "endian \<Rightarrow> bytes \<Rightarrow> bytes" where
  "normalize_tlv e bs =
     (case try_walk_tlvs e bs of
        Some attrs \<Rightarrow> emit_tlvs e (sort_key fst attrs)
      | None \<Rightarrow> bs)"

section \<open>Emission\<close>

lemma emit_tlv_wire:
  assumes "4 dvd length out" "length p \<le> 65531"
  shows "emit_tlv e out (t, p) = out @ attr_wire e t p"
proof -
  have "min (4 + length p) 65535 = length p + 4" using assms(2) by simp
  then have "nl_attr_new t (length p) = \<lparr>nla_len = of_nat (length p + 4), nla_type = t\<rparr>"
    by (simp only: nl_attr_new_def)
  then have wire: "attr_wire e t p = ne_bytes e 2 (of_nat (length p + 4) :: u16) @ ne_bytes e 2 t @ p @ attr_pad (length p)"
    by (simp only: attr_wire_def nl_attr_as_bytes_def nl_attr.simps append_assoc)
  moreover define b where
    "b = out @ ne_bytes e 2 (of_nat (length p + 4) :: u16) @ ne_bytes e 2 t @ p"
  have "length b = length out + (4 + length p)" by (simp add: b_def)
  moreover have "nla_align (length out + (4 + length p)) = length out + (4 + nla_align (length p))"
    using assms(1) by (simp add: nla_align_add)
  ultimately have pad: "nla_align (length b) - length b = nla_align (length p) - length p" by simp
  have "emit_tlv e out (t, p) = resize (nla_align (length b)) b"
    by (simp only: emit_tlv_def Let_def prod.case nla_align_def b_def append_assoc)
  also have "\<dots> = b @ attr_pad (length p)" by (simp add: resize_ge pad attr_pad_def)
  finally show ?thesis using wire by (simp only: b_def append_assoc)
qed

definition tlv_ok :: "u16 \<times> bytes \<Rightarrow> bool" where
  "tlv_ok a = (length (snd a) \<le> 65531)"

abbreviation tlv_wires :: "endian \<Rightarrow> (u16 \<times> bytes) list \<Rightarrow> bytes" where
  "tlv_wires e attrs \<equiv> concat (map (\<lambda>(t, p). attr_wire e t p) attrs)"

lemma tlv_wires_dvd: "4 dvd length (tlv_wires e attrs)"
  by (induction attrs) auto

lemma emit_tlvs_from:
  "list_all tlv_ok attrs \<Longrightarrow> 4 dvd length out \<Longrightarrow>
     foldl (emit_tlv e) out attrs = out @ tlv_wires e attrs"
proof (induction attrs arbitrary: out)
  case Nil
  then show ?case by simp
next
  case (Cons a attrs)
  then show ?case by (cases a) (simp add: emit_tlv_wire tlv_ok_def)
qed

lemma emit_tlvs_wires: "list_all tlv_ok attrs \<Longrightarrow> emit_tlvs e attrs = tlv_wires e attrs"
  by (simp add: emit_tlvs_def emit_tlvs_from)

lemma length_tlv_wires_mset:
  "mset xs = mset ys \<Longrightarrow> length (tlv_wires e xs) = length (tlv_wires e ys)"
proof -
  assume m: "mset xs = mset ys"
  have len: "length (tlv_wires e zs) = sum_list (map (\<lambda>(t, p). length (attr_wire e t p)) zs)" for zs
    by (induction zs) auto
  have "sum_mset (image_mset (\<lambda>(t, p). length (attr_wire e t p)) (mset xs))
      = sum_mset (image_mset (\<lambda>(t, p). length (attr_wire e t p)) (mset ys))"
    using m by simp
  then show ?thesis by (simp add: len sum_mset_sum_list flip: mset_map)
qed

section \<open>Walking\<close>

lemma try_walk_Nil [simp]: "try_walk_tlvs e [] = Some []"
  by (simp add: try_walk_tlvs.simps)

lemma normalize_unfold:
  "(case try_walk_tlvs e p of Some inner \<Rightarrow> emit_tlvs e (sort_key fst inner) | None \<Rightarrow> p)
     = normalize_tlv e p"
  by (simp add: normalize_tlv_def)

lemma try_walk_step:
  "try_walk_tlvs e bs =
     (if bs = [] then Some []
      else if length bs < 4 \<or> tlv_len e bs < 4 \<or> tlv_len e bs > length bs
              \<or> nla_align (tlv_len e bs) > length bs then None
      else map_option (\<lambda>rest. (tlv_type e bs, normalize_tlv e (drop 4 (take (tlv_len e bs) bs))) # rest)
             (try_walk_tlvs e (drop (nla_align (tlv_len e bs)) bs)))"
  by (subst try_walk_tlvs.simps)
    (auto simp: normalize_unfold nla_align_def split: option.splits)

lemma try_walk_wire:
  assumes "length p \<le> 65531"
  shows "try_walk_tlvs e (attr_wire e t p @ r) =
    map_option (\<lambda>rest. (t AND NLA_TYPE_MASK, normalize_tlv e p) # rest) (try_walk_tlvs e r)"
proof -
  let ?b = "attr_wire e t p @ r"
  have "unat (nla_len (nl_attr_new t (length p))) = 4 + length p"
    using assms by (rule nl_attr_new_len)
  then have len: "tlv_len e ?b = 4 + length p"
    by (simp add: attr_wire_def nl_attr_as_bytes_def ne_word_bytes)
  have ty: "tlv_type e ?b = t AND NLA_TYPE_MASK"
    by (simp add: tlv_type_def attr_wire_def nl_attr_as_bytes_def ne_word_bytes)
  have payload: "drop 4 (take (4 + length p) ?b) = p" by (simp add: attr_wire_def)
  have rest: "drop (nla_align (4 + length p)) ?b = r"
    by (simp add: length_attr_wire)
  have "nla_align (4 + length p) \<le> length ?b" "4 + length p \<le> length ?b" "?b \<noteq> []"
    using nla_align_ge [of "length p"] length_attr_wire [of e t p] by (auto simp del: nla_align_ge)
  then show ?thesis
    by (subst try_walk_step) (simp only: len ty payload rest, simp)
qed

lemma try_walk_wires:
  "list_all tlv_ok xs \<Longrightarrow>
     try_walk_tlvs e (tlv_wires e xs)
       = Some (map (\<lambda>(t, p). (t AND NLA_TYPE_MASK, normalize_tlv e p)) xs)"
  by (induction xs) (auto simp: try_walk_wire tlv_ok_def)

text \<open>What a successful walk yields: masked types, short payloads, and a stream of that length.\<close>

lemma try_walk_Some:
  "try_walk_tlvs e bs = Some attrs \<Longrightarrow>
     (\<exists>xs. list_all tlv_ok xs \<and> length (tlv_wires e xs) = length bs
       \<and> attrs = map (\<lambda>(t, p). (t AND NLA_TYPE_MASK, normalize_tlv e p)) xs
       \<and> list_all (\<lambda>(t, p). length p < length bs) xs)"
proof (induction "length bs" arbitrary: bs attrs rule: less_induct)
  case less
  show ?case
  proof (cases "bs = []")
    case True
    with less.prems show ?thesis by (auto intro: exI [of _ "[]"])
  next
    case False
    define n where "n = tlv_len e bs"
    from False less.prems obtain rest where len: "4 \<le> length bs" "4 \<le> n" "n \<le> length bs" "nla_align n \<le> length bs"
      and walk: "try_walk_tlvs e (drop (nla_align n) bs) = Some rest"
      and attrs: "attrs = (tlv_type e bs, normalize_tlv e (drop 4 (take n bs))) # rest"
      by (subst (asm) try_walk_step) (auto simp: n_def not_less split: if_splits)
    have "4 \<le> nla_align n" using len nla_align_ge [of n] by linarith
    then have shorter: "length (drop (nla_align n) bs) < length bs" using len by simp
    obtain xs where xs: "list_all tlv_ok xs" "length (tlv_wires e xs) = length (drop (nla_align n) bs)"
        "rest = map (\<lambda>(t, p). (t AND NLA_TYPE_MASK, normalize_tlv e p)) xs"
        "list_all (\<lambda>(t, p). length p < length (drop (nla_align n) bs)) xs"
      using less.hyps [OF shorter walk] by auto
    let ?x = "(ne_word e (take 2 (drop 2 bs)) :: u16, drop 4 (take n bs))"
    have "n < 65536" unfolding n_def using unsigned_less [of "ne_word e (take 2 bs) :: u16", where ?'a = nat] by simp
    then have ok: "tlv_ok ?x" using len by (simp add: tlv_ok_def)
    have "nla_align n = 4 + nla_align (n - 4)" using len nla_align_4 [of "n - 4"] by simp
    then have "length (tlv_wires e (?x # xs)) = length bs"
      using xs(2) len by (simp add: length_attr_wire)
    moreover have "list_all (\<lambda>(t, p). length p < length bs) xs"
      using xs(4) shorter by (auto simp: list_all_iff)
    ultimately show ?thesis
      using xs ok len attrs by (intro exI [of _ "?x # xs"]) (auto simp: tlv_type_def)
  qed
qed

section \<open>The normal form\<close>

abbreviation tlv_canon :: "endian \<Rightarrow> u16 \<times> bytes \<Rightarrow> u16 \<times> bytes" where
  "tlv_canon e \<equiv> (\<lambda>(t, p). (t AND NLA_TYPE_MASK, normalize_tlv e p))"

lemma tlv_ok_sort [simp]: "list_all tlv_ok (sort_key f xs) = list_all tlv_ok xs"
  by (simp add: list_all_iff)

lemma length_normalize [simp]: "length (normalize_tlv e bs) = length bs"
proof (induction "length bs" arbitrary: bs rule: less_induct)
  case less
  show ?case
  proof (cases "try_walk_tlvs e bs")
    case None
    then show ?thesis by (simp add: normalize_tlv_def)
  next
    case (Some attrs)
    obtain xs where xs: "list_all tlv_ok xs" "length (tlv_wires e xs) = length bs"
        "attrs = map (tlv_canon e) xs" "list_all (\<lambda>(t, p). length p < length bs) xs"
      using try_walk_Some [OF Some] by auto
    have same: "\<forall>(t, p)\<in>set xs. length (normalize_tlv e p) = length p"
      using xs(4) less.hyps by (auto simp: list_all_iff)
    then have ok: "list_all tlv_ok attrs"
      using xs(1,3) by (fastforce simp: list_all_iff tlv_ok_def)
    have "length (tlv_wires e (map (tlv_canon e) xs)) = length (tlv_wires e xs)"
      using same by (induction xs) (auto simp: length_attr_wire)
    moreover have "length (tlv_wires e (sort_key fst attrs)) = length (tlv_wires e attrs)"
      by (rule length_tlv_wires_mset) simp
    ultimately show ?thesis
      using Some ok xs(2,3) by (simp add: normalize_tlv_def emit_tlvs_wires)
  qed
qed

lemma tlv_ok_canon: "list_all tlv_ok xs \<Longrightarrow> list_all tlv_ok (map (tlv_canon e) xs)"
  by (auto simp: list_all_iff tlv_ok_def)

lemma tlv_canon_idem: "normalize_tlv e (normalize_tlv e p) = normalize_tlv e p \<Longrightarrow>
    tlv_canon e (tlv_canon e (t, p)) = tlv_canon e (t, p)"
  by (simp add: and.assoc)

lemma normalize_wires:
  "list_all tlv_ok xs \<Longrightarrow>
     normalize_tlv e (tlv_wires e xs) = tlv_wires e (sort_key fst (map (tlv_canon e) xs))"
  using tlv_ok_canon [of xs e]
  by (simp add: normalize_tlv_def try_walk_wires emit_tlvs_wires)

lemma normalize_idem: "normalize_tlv e (normalize_tlv e bs) = normalize_tlv e bs"
proof (induction "length bs" arbitrary: bs rule: less_induct)
  case less
  show ?case
  proof (cases "try_walk_tlvs e bs")
    case None
    then show ?thesis by (simp add: normalize_tlv_def)
  next
    case (Some attrs)
    obtain xs where xs: "list_all tlv_ok xs" "attrs = map (tlv_canon e) xs"
        "list_all (\<lambda>(t, p). length p < length bs) xs"
      using try_walk_Some [OF Some] by auto
    let ?s = "sort_key fst attrs"
    have ok: "list_all tlv_ok attrs" using xs tlv_ok_canon by simp
    have canon: "tlv_canon e a = a" if a: "a \<in> set attrs" for a
    proof -
      obtain t p where p: "(t, p) \<in> set xs" "a = tlv_canon e (t, p)" using a xs(2) by auto
      with xs(3) less.hyps have "normalize_tlv e (normalize_tlv e p) = normalize_tlv e p"
        by (auto simp: list_all_iff)
      then show ?thesis unfolding p(2) by (rule tlv_canon_idem)
    qed
    then have "map (tlv_canon e) ?s = ?s" by (intro map_idI) simp
    then have "normalize_tlv e (tlv_wires e ?s) = tlv_wires e (sort_key fst ?s)"
      using normalize_wires [of ?s e] ok by simp
    moreover have "sort_key fst ?s = ?s" by (rule sort_key_id_if_sorted) simp
    moreover have "normalize_tlv e bs = tlv_wires e ?s"
      using Some ok by (simp add: normalize_tlv_def emit_tlvs_wires)
    ultimately show ?thesis by simp
  qed
qed

section \<open>Properties\<close>

text \<open>
  Normalising is idempotent, keeps the length of every input, garbage included, and
  leaves an input that is not an attribute stream untouched, on either byte order.
\<close>

theorem normalize_tlv_idempotent:
  "normalize_tlv e (normalize_tlv e bs) = normalize_tlv e bs
   \<and> length (normalize_tlv e bs) = length bs
   \<and> (try_walk_tlvs e bs = None \<longrightarrow> normalize_tlv e bs = bs)"
proof (intro conjI impI)
  show "normalize_tlv e (normalize_tlv e bs) = normalize_tlv e bs" by (rule normalize_idem)
  show "length (normalize_tlv e bs) = length bs" by (rule length_normalize)
qed (simp add: normalize_tlv_def)

theorem normalize_tlv_idempotent_witness:
  "normalize_tlv LittleEndian [1, 2, 3] = [1, 2, 3]"
proof -
  have "try_walk_tlvs LittleEndian [1, 2, 3] = None" by (simp add: try_walk_step)
  with normalize_tlv_idempotent [of LittleEndian "[1, 2, 3]"] show ?thesis by simp
qed

text \<open>
  Two attribute streams with distinct kinds have the same normal form exactly when
  they hold the same attributes up to flag bits, sibling order and the normal form of
  their payloads: the byte comparison of normal forms decides equality of rule bodies.
\<close>

theorem normalize_tlv_decides:
  assumes "list_all tlv_ok xs" "list_all tlv_ok ys"
    and "distinct (map (\<lambda>(t, p). t AND NLA_TYPE_MASK) xs)"
  shows "normalize_tlv e (tlv_wires e xs) = normalize_tlv e (tlv_wires e ys)
    \<longleftrightarrow> mset (map (tlv_canon e) xs) = mset (map (tlv_canon e) ys)"
proof
  have walk: "try_walk_tlvs e (tlv_wires e (sort_key fst (map (tlv_canon e) zs)))
      = Some (sort_key fst (map (tlv_canon e) zs))" if "list_all tlv_ok zs" for zs
  proof -
    have "tlv_canon e a = a" if a: "a \<in> set (map (tlv_canon e) zs)" for a
    proof -
      obtain t p where "a = tlv_canon e (t, p)" using a by auto
      then show ?thesis using tlv_canon_idem [OF normalize_idem] by simp
    qed
    then have eq: "map (tlv_canon e) (sort_key fst (map (tlv_canon e) zs)) = sort_key fst (map (tlv_canon e) zs)"
      by (intro map_idI) (metis set_sort)
    have "list_all tlv_ok (sort_key fst (map (tlv_canon e) zs))"
      using tlv_ok_canon [OF that, of e] by (metis tlv_ok_sort)
    from try_walk_wires [OF this, of e] show ?thesis by (simp only: eq)
  qed
  assume "normalize_tlv e (tlv_wires e xs) = normalize_tlv e (tlv_wires e ys)"
  then have "sort_key fst (map (tlv_canon e) xs) = sort_key fst (map (tlv_canon e) ys)"
    using walk [OF assms(1)] walk [OF assms(2)] normalize_wires [OF assms(1), of e]
      normalize_wires [OF assms(2), of e] by (metis option.inject)
  then show "mset (map (tlv_canon e) xs) = mset (map (tlv_canon e) ys)" by (metis mset_sort)
next
  assume same: "mset (map (tlv_canon e) xs) = mset (map (tlv_canon e) ys)"
  have "map fst (map (tlv_canon e) xs) = map (\<lambda>(t, p). t AND NLA_TYPE_MASK) xs"
    by (simp add: comp_def split_def)
  then have "inj_on fst (set (map (tlv_canon e) xs))"
    using assms(3) by (metis distinct_map)
  then have "sort_key fst (map (tlv_canon e) xs) = sort_key fst (map (tlv_canon e) ys)"
    using same by (intro sort_key_inj_key_eq) simp_all
  then show "normalize_tlv e (tlv_wires e xs) = normalize_tlv e (tlv_wires e ys)"
    using assms(1,2) by (simp add: normalize_wires)
qed

theorem normalize_tlv_decides_witness:
  "normalize_tlv LittleEndian (tlv_wires LittleEndian [(0x8001, [1]), (2, [])])
   = normalize_tlv LittleEndian (tlv_wires LittleEndian [(2, []), (1, [1])])"
  using normalize_tlv_decides [of "[(0x8001, [1]), (2, [])]" "[(2, []), (1, [1])]" LittleEndian]
  by (simp add: tlv_ok_def)

end
