(* ===== verification/Nft_Expr.thy ===== *)
theory Nft_Expr
  imports Link_Message Builder_Calls Nft_Tlv
begin

text \<open>
  The expressions of nftables rules (\<open>netlink/nftables/expr.rs\<close>, with their types from
  \<open>nftables/types.rs\<close>): the attributes each is written as, the bytes the differ compares, the decoder
  of kernel dumps, and the round trip between them.
\<close>

section \<open>Types\<close>

datatype nft_family = Ip | Ip6 | Inet | Arp | BridgeFamily | Netdev

fun nft_family_code :: "nft_family \<Rightarrow> u8" where
  "nft_family_code Ip = 2"
| "nft_family_code Ip6 = 10"
| "nft_family_code Inet = 1"
| "nft_family_code Arp = 3"
| "nft_family_code BridgeFamily = 7"
| "nft_family_code Netdev = 5"

definition nft_family_from_u8 :: "u8 \<Rightarrow> nft_family option" where
  "nft_family_from_u8 v =
     (if v = 2 then Some Ip else if v = 10 then Some Ip6 else if v = 1 then Some Inet else if v = 3 then Some Arp
      else if v = 7 then Some BridgeFamily else if v = 5 then Some Netdev else None)"

text \<open>\<open>ChainName\<close> and \<open>TableName\<close> differ in the prefix of their messages; \<open>s.len()\<close> counts bytes.\<close>

definition nft_name_new :: "string \<Rightarrow> string \<Rightarrow> string \<Rightarrow> string nl_result" where
  "nft_name_new type kind s =
     (if s = [] then Inl (InvalidMessage (type @ '': empty '' @ kind @ '' names are rejected by nftables''))
      else if length s > 255
      then Inl (InvalidMessage (type @ '': '' @ show_nat (length s) @ '' bytes exceeds NFT_NAME_MAXLEN-1 (255 bytes)''))
      else if CHR 0x00 \<in> set s
      then Inl (InvalidMessage (type @ '': interior NUL bytes are rejected '' @ map byte_char [0xE2, 0x80, 0x94] @
             '' nftables wire format is a NUL-terminated C string''))
      else Inr s)"

definition chain_name_new :: "string \<Rightarrow> string nl_result" where
  "chain_name_new = nft_name_new ''ChainName'' ''chain''"

definition table_name_new :: "string \<Rightarrow> string nl_result" where
  "table_name_new = nft_name_new ''TableName'' ''table''"

text \<open>A \<open>JumpTo\<close> and a \<open>GotoTo\<close> carry a validated chain name.\<close>

datatype verdict = Accept | Drop | Continue | Return | JumpTo string | GotoTo string

datatype limit_unit = Second | Minute | Hour | Day

fun limit_unit_secs :: "limit_unit \<Rightarrow> u64" where
  "limit_unit_secs Second = 1"
| "limit_unit_secs Minute = 60"
| "limit_unit_secs Hour = 3600"
| "limit_unit_secs Day = 86400"

datatype nft_register = RegVerdict | R0 | R1 | R2 | R3

fun register_code :: "nft_register \<Rightarrow> u32" where
  "register_code RegVerdict = 0"
| "register_code R0 = 1"
| "register_code R1 = 2"
| "register_code R2 = 3"
| "register_code R3 = 4"

definition register_from :: "u32 \<Rightarrow> nft_register option" where
  "register_from v =
     (if v = 0 then Some RegVerdict else if v = 1 then Some R0 else if v = 2 then Some R1 else if v = 3 then Some R2
      else if v = 4 then Some R3 else None)"

datatype nft_cmp = Eq | Neq | Lt | Lte | Gt | Gte

fun nft_cmp_code :: "nft_cmp \<Rightarrow> u32" where
  "nft_cmp_code Eq = 0"
| "nft_cmp_code Neq = 1"
| "nft_cmp_code Lt = 2"
| "nft_cmp_code Lte = 3"
| "nft_cmp_code Gt = 4"
| "nft_cmp_code Gte = 5"

definition nft_cmp_from :: "u32 \<Rightarrow> nft_cmp option" where
  "nft_cmp_from v =
     (if v = 0 then Some Eq else if v = 1 then Some Neq else if v = 2 then Some Lt else if v = 3 then Some Lte
      else if v = 4 then Some Gt else if v = 5 then Some Gte else None)"

datatype payload_base = LinkLayer | Network | Transport

fun payload_base_code :: "payload_base \<Rightarrow> u32" where
  "payload_base_code LinkLayer = 0"
| "payload_base_code Network = 1"
| "payload_base_code Transport = 2"

definition payload_base_from :: "u32 \<Rightarrow> payload_base option" where
  "payload_base_from v =
     (if v = 0 then Some LinkLayer else if v = 1 then Some Network else if v = 2 then Some Transport else None)"

datatype meta_key =
  MetaLen | Protocol | Mark | Iif | Oif | IifName | OifName | SkUid | SkGid | NfProto | L4Proto | CGroup

fun meta_key_code :: "meta_key \<Rightarrow> u32" where
  "meta_key_code MetaLen = 0"
| "meta_key_code Protocol = 1"
| "meta_key_code Mark = 3"
| "meta_key_code Iif = 4"
| "meta_key_code Oif = 5"
| "meta_key_code IifName = 6"
| "meta_key_code OifName = 7"
| "meta_key_code SkUid = 10"
| "meta_key_code SkGid = 11"
| "meta_key_code NfProto = 15"
| "meta_key_code L4Proto = 16"
| "meta_key_code CGroup = 23"

definition meta_key_from :: "u32 \<Rightarrow> meta_key option" where
  "meta_key_from v =
     (if v = 0 then Some MetaLen else if v = 1 then Some Protocol else if v = 3 then Some Mark
      else if v = 4 then Some Iif else if v = 5 then Some Oif else if v = 6 then Some IifName
      else if v = 7 then Some OifName else if v = 10 then Some SkUid else if v = 11 then Some SkGid
      else if v = 15 then Some NfProto else if v = 16 then Some L4Proto else if v = 23 then Some CGroup
      else None)"

datatype ct_key = CtStateKey | Direction | Status | CtMark | Secmark | Expiration | Helper | L3Protocol

fun ct_key_code :: "ct_key \<Rightarrow> u32" where
  "ct_key_code CtStateKey = 0"
| "ct_key_code Direction = 1"
| "ct_key_code Status = 2"
| "ct_key_code CtMark = 3"
| "ct_key_code Secmark = 4"
| "ct_key_code Expiration = 5"
| "ct_key_code Helper = 6"
| "ct_key_code L3Protocol = 7"

datatype nat_type = Snat | Dnat

datatype nat_addr = NoAddr | NatV4 ipv4 | Reg

fun reg_in_use :: "nat_addr \<Rightarrow> bool" where
  "reg_in_use NoAddr = False"
| "reg_in_use _ = True"

record nat_expr =
  ne_type :: nat_type
  ne_family :: nft_family
  ne_addr :: nat_addr
  ne_port :: "u16 option"

datatype expr =
    Meta nft_register meta_key
  | Cmp nft_register nft_cmp bytes
  | Payload nft_register payload_base u32 u32
  | Immediate nft_register bytes
  | Verdict verdict
  | Counter
  | Limit u64 limit_unit u32
  | Masquerade
  | Nat nat_expr
  | Redirect "u16 option"
  | Reject u32 u8
  | Log "string option" "u16 option"
  | Ct nft_register ct_key
  | Lookup string nft_register
  | Bitwise nft_register nft_register u32 bytes bytes
  | FlowOffload string

section \<open>Writing\<close>

abbreviation be32 :: "u16 \<Rightarrow> u32 \<Rightarrow> call" where
  "be32 t v \<equiv> Attr t (be_bytes 4 v)"

abbreviation be64 :: "u16 \<Rightarrow> u64 \<Rightarrow> call" where
  "be64 t v \<equiv> Attr t (be_bytes 8 v)"

text \<open>\<open>nest_start(t | 0x8000)\<close>.\<close>

abbreviation nft_nest :: "u16 \<Rightarrow> call list \<Rightarrow> call" where
  "nft_nest t cs \<equiv> Nested (t OR 0x8000) cs"

fun verdict_code :: "verdict \<Rightarrow> i32" where
  "verdict_code Accept = 1"
| "verdict_code Drop = 0"
| "verdict_code Continue = - 1"
| "verdict_code Return = - 5"
| "verdict_code (JumpTo _) = - 3"
| "verdict_code (GotoTo _) = - 4"

fun verdict_chain :: "verdict \<Rightarrow> string option" where
  "verdict_chain (JumpTo chain) = Some chain"
| "verdict_chain (GotoTo chain) = Some chain"
| "verdict_chain _ = None"

definition verdict_data :: "verdict \<Rightarrow> call list" where
  "verdict_data v =
     [be32 1 (register_code RegVerdict),
      nft_nest 2 [nft_nest 2 (be32 1 (verdict_code v) #
        (case verdict_chain v of Some chain \<Rightarrow> [attr_str 2 chain] | None \<Rightarrow> []))]]"

definition nat_flags :: "nat_expr \<Rightarrow> u32" where
  "nat_flags n = (if reg_in_use (ne_addr n) then 1 else 0) OR (if ne_port n \<noteq> None then 2 else 0)"

definition nat_data :: "nat_expr \<Rightarrow> call list" where
  "nat_data n =
     [be32 1 (case ne_type n of Snat \<Rightarrow> 0 | Dnat \<Rightarrow> 1), be32 2 (ucast (nft_family_code (ne_family n)))] @
     (if reg_in_use (ne_addr n) then [be32 3 (register_code R0), be32 4 (register_code R0)] else []) @
     (if ne_port n \<noteq> None then [be32 5 (register_code R1), be32 6 (register_code R1)] else []) @
     (if nat_flags n \<noteq> 0 then [be32 7 (nat_flags n)] else [])"

text \<open>The name of an expression and what stands in its \<open>NFTA_EXPR_DATA\<close>, if it has one.\<close>

fun expr_parts :: "expr \<Rightarrow> string \<times> call list option" where
  "expr_parts (Meta dreg key) = (''meta'', Some [be32 1 (register_code dreg), be32 2 (meta_key_code key)])"
| "expr_parts (Cmp sreg op data) =
     (''cmp'', Some [be32 1 (register_code sreg), be32 2 (nft_cmp_code op), nft_nest 3 [Attr 1 data]])"
| "expr_parts (Payload dreg base offset len) =
     (''payload'', Some [be32 1 (register_code dreg), be32 2 (payload_base_code base), be32 3 offset, be32 4 len])"
| "expr_parts (Immediate dreg data) = (''immediate'', Some [be32 1 (register_code dreg), nft_nest 2 [Attr 1 data]])"
| "expr_parts (Verdict v) = (''immediate'', Some (verdict_data v))"
| "expr_parts Counter = (''counter'', Some [be64 1 0, be64 2 0])"
| "expr_parts (Limit rate unit burst) =
     (''limit'', Some [be64 1 rate, be64 2 (limit_unit_secs unit), be32 3 burst, be32 4 0])"
| "expr_parts Masquerade = (''masq'', None)"
| "expr_parts (Nat n) = (''nat'', Some (nat_data n))"
| "expr_parts (Redirect port) =
     (''redir'', case port of None \<Rightarrow> None
        | Some _ \<Rightarrow> Some [be32 1 (register_code R0), be32 2 (register_code R0), be32 3 2])"
| "expr_parts (Reject reject_type icmp_code) = (''reject'', Some [be32 1 reject_type, Attr 2 [icmp_code]])"
| "expr_parts (Log pfx grp) =
     (''log'', Some ((case pfx of Some p \<Rightarrow> [attr_str 1 p] | None \<Rightarrow> []) @
                     (case grp of Some g \<Rightarrow> [Attr 2 (be_bytes 2 g)] | None \<Rightarrow> [])))"
| "expr_parts (Ct dreg key) = (''ct'', Some [be32 1 (register_code dreg), be32 2 (ct_key_code key)])"
| "expr_parts (Lookup set_name sreg) = (''lookup'', Some [attr_str 1 set_name, be32 2 (register_code sreg)])"
| "expr_parts (Bitwise sreg dreg len msk flip) =
     (''bitwise'', Some [be32 1 (register_code sreg), be32 2 (register_code dreg), be32 3 len, be32 6 0,
        nft_nest 4 [Attr 1 msk], nft_nest 5 [Attr 1 flip]])"
| "expr_parts (FlowOffload table) = (''flow_offload'', Some [attr_str 2 table])"

definition expr_elem :: "string \<Rightarrow> call list option \<Rightarrow> call" where
  "expr_elem name data =
     nft_nest 1 (attr_str 1 name # (case data of None \<Rightarrow> [] | Some cs \<Rightarrow> [nft_nest 2 cs]))"

definition write_expr :: "expr \<Rightarrow> call" where
  "write_expr x = (case expr_parts x of (name, data) \<Rightarrow> expr_elem name data)"

definition write_expressions :: "expr list \<Rightarrow> call" where
  "write_expressions xs = nft_nest 4 (map write_expr xs)"

text \<open>
  A builder whose tokens come from its own nests never panics, so the value \<open>built\<close> has for that case
  stands for nothing.
\<close>

lemma run_call_total:
  "\<exists>b'. run_call e c b = Some b' \<and> length (mb_buf b) \<le> length (mb_buf b')"
  "\<exists>b'. run_calls e cs b = Some b' \<and> length (mb_buf b) \<le> length (mb_buf b')"
proof (induction e c b and e cs b rule: run_call_run_calls.induct)
  case (1 e t d b)
  show ?case by (simp add: append_attr_def Let_def resize_def)
next
  case (2 e d b)
  show ?case by (simp add: append_bytes_def Let_def resize_def)
next
  case (3 e t cs b)
  obtain b2 where b2: "run_calls e cs (snd (nest_start e t b)) = Some b2"
    "length (mb_buf (snd (nest_start e t b))) \<le> length (mb_buf b2)"
    using 3 by (fastforce simp: nest_start_def)
  then have "length (mb_buf b) + 4 \<le> length (mb_buf b2)" by (simp add: nest_start_def)
  then show ?case
    using b2(1) by (simp add: nest_start_def nest_end_def patch_def resize_def)
next
  case (4 e b)
  show ?case by simp
next
  case (5 e c cs b)
  obtain b1 where b1: "run_call e c b = Some b1" "length (mb_buf b) \<le> length (mb_buf b1)" using 5(1) by blast
  with 5(2)[OF b1(1)] show ?case by fastforce
qed

definition built :: "bytes option \<Rightarrow> bytes" where
  "built r = (case r of None \<Rightarrow> [] | Some raw \<Rightarrow> raw)"

text \<open>
  \<open>lower_to_expression_bytes\<close>: the list is written by a scratch builder and stripped of the message
  header and the attribute header.
\<close>

definition lower_to_expression_bytes :: "endian \<Rightarrow> expr list \<Rightarrow> bytes" where
  "lower_to_expression_bytes e xs =
     (if xs = [] then []
      else
        (let raw = built (Option.bind (run_call e (write_expressions xs) (mb_new e 0 0)) (mb_finish e))
         in if length raw \<le> 20 then [] else drop 20 raw))"

section \<open>Decoding\<close>

datatype rule_expr =
    RCounter u64 u64
  | RVerdict verdict
  | RMeta nft_register meta_key
  | RCmp nft_register nft_cmp bytes
  | RImmediate nft_register bytes
  | RPayload nft_register payload_base u32 u32
  | Unknown string bytes

text \<open>
  A loop over the attributes whose arms end the function at the first value that is too short
  (\<open>.ok()?\<close>): the state is an option.
\<close>

definition attr_scan :: "endian \<Rightarrow> (u16 \<Rightarrow> bytes \<Rightarrow> 's \<Rightarrow> 's option) \<Rightarrow> bytes \<Rightarrow> 's \<Rightarrow> 's option" where
  "attr_scan e step data s = fold (\<lambda>(k, d) r. Option.bind r (step k d)) (attrs_of e data) (Some s)"

definition parse_counter :: "endian \<Rightarrow> bytes \<Rightarrow> rule_expr option" where
  "parse_counter e data =
     Option.bind (attr_scan e (\<lambda>k d (packets, byts).
         if k = 2 then map_option (\<lambda>v. (Some v, byts)) (ok_of (get_u64_be d))
         else if k = 1 then map_option (\<lambda>v. (packets, Some v)) (ok_of (get_u64_be d))
         else Some (packets, byts)) data (None, None))
       (\<lambda>(packets, byts). if packets = None \<and> byts = None then None
          else Some (RCounter (case packets of Some v \<Rightarrow> v | None \<Rightarrow> 0) (case byts of Some v \<Rightarrow> v | None \<Rightarrow> 0)))"

definition parse_verdict :: "endian \<Rightarrow> bytes \<Rightarrow> verdict option" where
  "parse_verdict e nest =
     Option.bind (attr_scan e (\<lambda>k d (code, chain).
         if k = 1 then map_option (\<lambda>v. (Some v, chain)) (ok_of (get_u32_be d))
         else if k = 2 then Some (code, ok_of (get_string d))
         else Some (code, chain)) nest (None, None))
       (\<lambda>(code, chain). case code of
          None \<Rightarrow> None
        | Some c \<Rightarrow>
            if c = 1 then Some Accept else if c = 0 then Some Drop
            else if c = - 1 then Some Continue else if c = - 5 then Some Return
            else if c = - 3 then map_option JumpTo (Option.bind chain (\<lambda>s. ok_of (chain_name_new s)))
            else if c = - 4 then map_option GotoTo (Option.bind chain (\<lambda>s. ok_of (chain_name_new s)))
            else None)"

definition parse_immediate :: "endian \<Rightarrow> bytes \<Rightarrow> rule_expr option" where
  "parse_immediate e data =
     Option.bind (attr_scan e (\<lambda>k d (dreg, nest).
         if k = 1 then map_option (\<lambda>v. (register_from v, nest)) (ok_of (get_u32_be d))
         else if k = 2 then Some (dreg, d)
         else Some (dreg, nest)) data (None, []))
       (\<lambda>(dreg, nest). case dreg of
          None \<Rightarrow> None
        | Some r \<Rightarrow>
            (case find (\<lambda>(k, d). k = 1 \<and> r \<noteq> RegVerdict \<or> k = 2 \<and> r = RegVerdict) (attrs_of e nest) of
               None \<Rightarrow> None
             | Some (k, d) \<Rightarrow> if k = 1 then Some (RImmediate r d) else map_option RVerdict (parse_verdict e d)))"

definition parse_meta :: "endian \<Rightarrow> bytes \<Rightarrow> rule_expr option" where
  "parse_meta e data =
     Option.bind (attr_scan e (\<lambda>k d (dreg, key).
         if k = 1 then map_option (\<lambda>v. (register_from v, key)) (ok_of (get_u32_be d))
         else if k = 2 then map_option (\<lambda>v. (dreg, meta_key_from v)) (ok_of (get_u32_be d))
         else Some (dreg, key)) data (None, None))
       (\<lambda>(dreg, key). case (dreg, key) of (Some r, Some k) \<Rightarrow> Some (RMeta r k) | _ \<Rightarrow> None)"

definition parse_cmp :: "endian \<Rightarrow> bytes \<Rightarrow> rule_expr option" where
  "parse_cmp e data =
     Option.bind (attr_scan e (\<lambda>k d (sreg, op, v).
         if k = 1 then map_option (\<lambda>n. (register_from n, op, v)) (ok_of (get_u32_be d))
         else if k = 2 then map_option (\<lambda>n. (sreg, nft_cmp_from n, v)) (ok_of (get_u32_be d))
         else if k = 3 then Some (sreg, op, fold (\<lambda>(k, d) v. if k = 1 then Some d else v) (attrs_of e d) v)
         else Some (sreg, op, v)) data (None, None, None))
       (\<lambda>(sreg, op, v). case (sreg, op, v) of
          (Some r, Some c, Some d) \<Rightarrow> Some (RCmp r c d) | _ \<Rightarrow> None)"

definition parse_payload :: "endian \<Rightarrow> bytes \<Rightarrow> rule_expr option" where
  "parse_payload e data =
     Option.bind (attr_scan e (\<lambda>k d (dreg, base, offset, len).
         if k = 1 then map_option (\<lambda>n. (register_from n, base, offset, len)) (ok_of (get_u32_be d))
         else if k = 2 then map_option (\<lambda>n. (dreg, payload_base_from n, offset, len)) (ok_of (get_u32_be d))
         else if k = 3 then map_option (\<lambda>n. (dreg, base, Some n, len)) (ok_of (get_u32_be d))
         else if k = 4 then map_option (\<lambda>n. (dreg, base, offset, Some n)) (ok_of (get_u32_be d))
         else Some (dreg, base, offset, len)) data (None, None, None, None))
       (\<lambda>(dreg, base, offset, len). case (dreg, base, offset, len) of
          (Some r, Some b, Some o', Some l) \<Rightarrow> Some (RPayload r b o' l) | _ \<Rightarrow> None)"

definition parse_expr :: "endian \<Rightarrow> string \<Rightarrow> bytes \<Rightarrow> rule_expr" where
  "parse_expr e name data =
     (case (if name = ''counter'' then parse_counter e data
            else if name = ''immediate'' then parse_immediate e data
            else if name = ''meta'' then parse_meta e data
            else if name = ''cmp'' then parse_cmp e data
            else if name = ''payload'' then parse_payload e data
            else None) of
        Some x \<Rightarrow> x
      | None \<Rightarrow> Unknown name data)"

definition parse_elem :: "endian \<Rightarrow> bytes \<Rightarrow> rule_expr option" where
  "parse_elem e elem =
     (case fold (\<lambda>(k, d) (name, data). if k = 1 then (ok_of (get_string d), data) else if k = 2 then (name, d)
                                        else (name, data)) (attrs_of e elem) (None, []) of
        (name, data) \<Rightarrow> map_option (\<lambda>n. parse_expr e n data) name)"

definition parse_expressions :: "endian \<Rightarrow> bytes \<Rightarrow> rule_expr list" where
  "parse_expressions e data =
     List.map_filter (\<lambda>(k, elem). if k = 1 then parse_elem e elem else None) (attrs_of e data)"

text \<open>\<open>RuleInfo::counter\<close>: the first counter of the rule.\<close>

definition rule_counter :: "endian \<Rightarrow> bytes \<Rightarrow> (u64 \<times> u64) option" where
  "rule_counter e expression_bytes =
     (case find (\<lambda>x. case x of RCounter _ _ \<Rightarrow> True | _ \<Rightarrow> False) (parse_expressions e expression_bytes) of
        Some (RCounter packets byts) \<Rightarrow> Some (packets, byts)
      | _ \<Rightarrow> None)"

section \<open>Round trip\<close>

lemma string_back: "text_ok n s \<Longrightarrow> get_string (bytes_of_str s @ [0]) = Inr s"
  by (simp add: get_string_def text_ok_def until_nul_append from_utf8_def)

lemma register_back [simp]: "register_from (register_code r) = Some r"
  by (cases r) (simp_all add: register_from_def)

lemma nft_cmp_back [simp]: "nft_cmp_from (nft_cmp_code c) = Some c"
  by (cases c) (simp_all add: nft_cmp_from_def)

lemma payload_base_back [simp]: "payload_base_from (payload_base_code b) = Some b"
  by (cases b) (simp_all add: payload_base_from_def)

lemma meta_key_back [simp]: "meta_key_from (meta_key_code k) = Some k"
  by (cases k) (simp_all add: meta_key_from_def)

text \<open>What the decoder reports for an expression: the kinds it does not know keep their data raw.\<close>

fun raw_parts :: "endian \<Rightarrow> string \<times> call list option \<Rightarrow> rule_expr" where
  "raw_parts e (name, data) = Unknown name (case data of None \<Rightarrow> [] | Some cs \<Rightarrow> wire_calls e cs)"

fun decoded :: "endian \<Rightarrow> expr \<Rightarrow> rule_expr" where
  "decoded e (Meta dreg key) = RMeta dreg key"
| "decoded e (Cmp sreg op data) = RCmp sreg op data"
| "decoded e (Payload dreg base offset len) = RPayload dreg base offset len"
| "decoded e (Verdict v) = RVerdict v"
| "decoded e Counter = RCounter 0 0"
| "decoded e (Immediate dreg data) =
     (if dreg = RegVerdict then raw_parts e (expr_parts (Immediate dreg data)) else RImmediate dreg data)"
| "decoded e x = raw_parts e (expr_parts x)"

fun expr_ok :: "expr \<Rightarrow> bool" where
  "expr_ok (Verdict v) = (case verdict_chain v of None \<Rightarrow> True | Some c \<Rightarrow> c \<noteq> [] \<and> text_ok 255 c)"
| "expr_ok _ = True"

lemma attr_scan_calls:
  assumes "list_all (call_fits e) cs" "list_all is_attr cs"
  shows "attr_scan e step (wire_calls e cs) s =
    fold (\<lambda>c r. case call_item e c of (k, d) \<Rightarrow> Option.bind r (step k d)) cs (Some s)"
  unfolding attr_scan_def using fold_calls[OF assms, of "\<lambda>k d r. Option.bind r (step k d)"]
  by (simp add: case_prod_unfold)

lemma attrs_of_elems:
  "list_all (call_fits e) cs \<Longrightarrow> list_all is_attr cs \<Longrightarrow> attrs_of e (wire_calls e cs) = map (call_item e) cs"
  using attrs_of_calls[of e cs "[]"] by simp

lemma name_text: "text_ok 255 (fst (expr_parts x))"
  by (cases x) (simp_all add: text_ok_def bytes_of_str_def char_byte_def utf8_valid_ascii split: option.split)

text \<open>
  The builder never panics on the calls of an expression, so the bytes the differ compares are those
  of the list elements, without their two headers.
\<close>

lemma lower_wire:
  assumes "call_fits e (write_expressions xs)"
  shows "lower_to_expression_bytes e xs = wire_calls e (map write_expr xs)"
proof (cases "xs = []")
  case False
  let ?b = "mb_new e 0 0" and ?w = "wire_call e (write_expressions xs)"
  have "run_call e (write_expressions xs) ?b = Some (?b\<lparr>mb_buf := mb_buf ?b @ ?w\<rparr>)"
    by (rule run_wire(1)[OF assms]) (simp add: mb_new_def)
  moreover have "length (mb_buf ?b) = 16" by (simp add: mb_new_def)
  moreover have "?w = nl_attr_as_bytes e (nl_attr_new (4 OR 0x8000 OR NLA_F_NESTED) (length (wire_calls e (map write_expr xs))))
      @ wire_calls e (map write_expr xs)"
    by (simp del: map_map add: write_expressions_def attr_wire_def attr_pad_def nla_align_id)
  moreover have "wire_calls e (map write_expr xs) \<noteq> []"
    using False by (cases xs) (auto simp: write_expr_def expr_elem_def attr_wire_def split: prod.split)
  ultimately show ?thesis
    using False by (simp add: lower_to_expression_bytes_def mb_finish_def patch_def built_def)
qed (simp add: lower_to_expression_bytes_def)

text \<open>One element: its name, and its data if there is any.\<close>

lemma elem_back:
  assumes "text_ok 255 name" "call_fits e (expr_elem name data)"
  shows "parse_elem e (snd (call_item e (expr_elem name data))) =
    Some (parse_expr e name (case data of None \<Rightarrow> [] | Some cs \<Rightarrow> wire_calls e cs))"
proof -
  let ?cs = "attr_str 1 name # (case data of None \<Rightarrow> [] | Some cs \<Rightarrow> [nft_nest 2 cs])"
  have "list_all (call_fits e) ?cs" "list_all is_attr ?cs"
    using assms(2) by (simp_all add: expr_elem_def split: option.split)
  from attrs_of_elems[OF this] have A: "attrs_of e (snd (call_item e (expr_elem name data))) =
      (1, bytes_of_str name @ [0]) # (case data of None \<Rightarrow> [] | Some cs \<Rightarrow> [(2, wire_calls e cs)])"
    by (cases data) (simp_all add: expr_elem_def type_mask)
  show ?thesis
    unfolding parse_elem_def A by (cases data) (simp_all add: string_back[OF assms(1)])
qed

lemma chain_back:
  assumes "c \<noteq> []" "text_ok 255 c"
  shows "ok_of (chain_name_new c) = Some c"
proof -
  have "CHR 0x00 \<notin> set c"
  proof
    assume "CHR 0x00 \<in> set c"
    then have "char_byte CHR 0x00 \<in> set (bytes_of_str c)" by (simp add: bytes_of_str_def)
    then show False using assms(2) by (simp add: text_ok_def char_byte_def)
  qed
  then show ?thesis using assms by (simp add: chain_name_new_def nft_name_new_def text_ok_def)
qed

lemma verdict_back:
  assumes "expr_ok (Verdict v)" "list_all (call_fits e) (verdict_data v)"
  shows "parse_immediate e (wire_calls e (verdict_data v)) = Some (RVerdict v)"
proof -
  let ?chain = "case verdict_chain v of Some chain \<Rightarrow> [attr_str 2 chain] | None \<Rightarrow> []"
  let ?code = "be32 1 (verdict_code v) # ?chain"
  have fits: "list_all (call_fits e) ?code" "list_all is_attr ?code"
    "list_all (call_fits e) [nft_nest 2 ?code]" "list_all is_attr [nft_nest 2 ?code]"
    using assms(2) by (auto simp: verdict_data_def split: option.split)
  have name: "ok_of (get_string (bytes_of_str c @ [0])) = Some c" "ok_of (chain_name_new c) = Some c"
    if "verdict_chain v = Some c" for c
    using assms(1) that by (auto simp only: expr_ok.simps option.case string_back ok_of.simps intro!: chain_back)
  have "parse_verdict e (wire_calls e ?code) = Some v"
    unfolding parse_verdict_def attr_scan_calls[OF fits(1,2)]
    using name by (cases v) (simp_all add: type_mask)
  moreover have "attrs_of e (wire_calls e [nft_nest 2 ?code]) = [(2, wire_calls e ?code)]"
    unfolding attrs_of_elems[OF fits(3,4)] by (simp add: type_mask)
  ultimately show ?thesis
    unfolding parse_immediate_def
    by (subst attr_scan_calls) (use assms(2) in \<open>simp_all add: verdict_data_def type_mask register_from_def\<close>)
qed

text \<open>The other kinds the decoder knows, from the calls that write them.\<close>

lemma meta_back:
  "parse_meta e (wire_calls e [be32 1 (register_code r), be32 2 (meta_key_code k)]) = Some (RMeta r k)"
  unfolding parse_meta_def by (subst attr_scan_calls) (simp_all add: type_mask)

lemma payload_back:
  "parse_payload e (wire_calls e [be32 1 (register_code r), be32 2 (payload_base_code b), be32 3 off, be32 4 len])
     = Some (RPayload r b off len)"
  unfolding parse_payload_def by (subst attr_scan_calls) (simp_all add: type_mask)

lemma counter_back: "parse_counter e (wire_calls e [be64 1 0, be64 2 0]) = Some (RCounter 0 0)"
  unfolding parse_counter_def by (subst attr_scan_calls) (simp_all add: type_mask)

lemma value_attr: "length d \<le> 65531 \<Longrightarrow> attrs_of e (wire_calls e [Attr 1 d]) = [(1, d)]"
  by (subst attrs_of_elems) (simp_all add: type_mask)

lemma cmp_back:
  assumes "list_all (call_fits e) [nft_nest 3 [Attr 1 d]]"
  shows "parse_cmp e (wire_calls e [be32 1 (register_code r), be32 2 (nft_cmp_code c), nft_nest 3 [Attr 1 d]])
    = Some (RCmp r c d)"
  unfolding parse_cmp_def using assms value_attr[of d e]
  by (subst attr_scan_calls) (simp_all add: type_mask)

lemma immediate_back:
  assumes "list_all (call_fits e) [nft_nest 2 [Attr 1 d]]"
  shows "parse_immediate e (wire_calls e [be32 1 (register_code r), nft_nest 2 [Attr 1 d]])
    = (if r = RegVerdict then None else Some (RImmediate r d))"
  unfolding parse_immediate_def using assms value_attr[of d e]
  by (subst attr_scan_calls) (simp_all add: type_mask)

lemmas kinds_back = meta_back payload_back counter_back cmp_back immediate_back verdict_back

lemma parse_expr_known:
  "parse_expr e ''counter'' d = (case parse_counter e d of Some x \<Rightarrow> x | None \<Rightarrow> Unknown ''counter'' d)"
  "parse_expr e ''immediate'' d = (case parse_immediate e d of Some x \<Rightarrow> x | None \<Rightarrow> Unknown ''immediate'' d)"
  "parse_expr e ''meta'' d = (case parse_meta e d of Some x \<Rightarrow> x | None \<Rightarrow> Unknown ''meta'' d)"
  "parse_expr e ''cmp'' d = (case parse_cmp e d of Some x \<Rightarrow> x | None \<Rightarrow> Unknown ''cmp'' d)"
  "parse_expr e ''payload'' d = (case parse_payload e d of Some x \<Rightarrow> x | None \<Rightarrow> Unknown ''payload'' d)"
  by (simp_all add: parse_expr_def)

lemma parse_expr_raw:
  "name \<notin> {''counter'', ''immediate'', ''meta'', ''cmp'', ''payload''} \<Longrightarrow> parse_expr e name d = Unknown name d"
  by (simp add: parse_expr_def)

lemma parts_back:
  assumes "expr_ok x" "list_all (call_fits e) (case snd (expr_parts x) of None \<Rightarrow> [] | Some cs \<Rightarrow> cs)"
  shows "parse_expr e (fst (expr_parts x)) (case snd (expr_parts x) of None \<Rightarrow> [] | Some cs \<Rightarrow> wire_calls e cs)
    = decoded e x"
proof (cases x)
  case (Verdict v)
  then show ?thesis
    using assms verdict_back[of v e] by (simp only: expr_parts.simps fst_conv snd_conv option.case parse_expr_known decoded.simps)
next
  case (Cmp r c d)
  then show ?thesis
    using assms cmp_back[of e d r c]
    by (simp only: expr_parts.simps fst_conv snd_conv option.case parse_expr_known decoded.simps list.pred_inject)
next
  case (Immediate r d)
  then show ?thesis
    using assms immediate_back[of e d r]
    by (simp only: expr_parts.simps fst_conv snd_conv option.case parse_expr_known decoded.simps list.pred_inject
      raw_parts.simps split: if_split) simp
qed (simp_all only: expr_parts.simps fst_conv snd_conv option.case parse_expr_known decoded.simps raw_parts.simps
  meta_back payload_back counter_back, simp_all add: parse_expr_raw)

lemma expr_back:
  assumes "expr_ok x" "call_fits e (write_expr x)"
  shows "parse_elem e (snd (call_item e (write_expr x))) = Some (decoded e x)"
proof -
  obtain name data where parts: "expr_parts x = (name, data)" by fastforce
  have "list_all (call_fits e) (case data of None \<Rightarrow> [] | Some cs \<Rightarrow> cs)"
    using assms(2) parts by (cases data) (simp_all add: write_expr_def expr_elem_def)
  with parts_back[OF assms(1), of e] elem_back[of name e data] assms(2) name_text[of x] parts
  show ?thesis by (simp add: write_expr_def)
qed

lemma expressions_back:
  assumes "list_all expr_ok xs" "call_fits e (write_expressions xs)"
  shows "parse_expressions e (lower_to_expression_bytes e xs) = map (decoded e) xs"
proof -
  have fits: "list_all (call_fits e) (map write_expr xs)" using assms(2) by (simp add: write_expressions_def)
  have "list_all is_attr (map write_expr xs)"
    by (induction xs) (simp_all add: write_expr_def expr_elem_def split: prod.split)
  from attrs_of_elems[OF fits this]
  have "attrs_of e (lower_to_expression_bytes e xs) = map (call_item e \<circ> write_expr) xs"
    by (simp add: lower_wire[OF assms(2)])
  moreover have "fst (call_item e (write_expr x)) = 1" for x
    by (simp add: write_expr_def expr_elem_def type_mask split: prod.split)
  moreover have "List.map_filter (\<lambda>x. parse_elem e (snd (call_item e (write_expr x)))) xs = map (decoded e) xs"
    using assms(1) fits by (induction xs) (simp_all add: map_filter_simps expr_back)
  ultimately show ?thesis
    by (simp add: parse_expressions_def map_filter_def filter_map comp_def split_beta)
qed

text \<open>
  C26. Whatever list of expressions is written into a rule, the decoder of rule dumps reads it back
  from the bytes the differ compares: the same registers, operators, offsets, values and verdicts in
  the same order, a fresh counter at zero, and every kind it does not know as its name and its raw data.
\<close>

theorem expressions_roundtrip:
  assumes "list_all expr_ok xs" "call_fits e (write_expressions xs)"
  shows "parse_expressions e (lower_to_expression_bytes e xs) = map (decoded e) xs"
  by (rule expressions_back[OF assms])

theorem expressions_roundtrip_witness:
  "\<forall>e. parse_expressions e (lower_to_expression_bytes e
      [Meta R0 L4Proto, Cmp R0 Eq [6], Payload R0 Transport 2 2, Counter, Masquerade, Verdict (JumpTo ''log'')]) =
    [RMeta R0 L4Proto, RCmp R0 Eq [6], RPayload R0 Transport 2 2, RCounter 0 0, Unknown ''masq'' [],
     RVerdict (JumpTo ''log'')]"
proof
  fix e
  show "parse_expressions e (lower_to_expression_bytes e
      [Meta R0 L4Proto, Cmp R0 Eq [6], Payload R0 Transport 2 2, Counter, Masquerade, Verdict (JumpTo ''log'')]) =
    [RMeta R0 L4Proto, RCmp R0 Eq [6], RPayload R0 Transport 2 2, RCounter 0 0, Unknown ''masq'' [],
     RVerdict (JumpTo ''log'')]"
    by (subst expressions_roundtrip)
       (simp_all add: text_ok_def bytes_of_str_def char_byte_def utf8_valid_ascii write_expressions_def write_expr_def
          expr_elem_def verdict_data_def length_attr_wire nla_align_def)
qed

end
