(* ===== verification/Nft_Rule.thy ===== *)
theory Nft_Rule
  imports Nft_Expr Ip_Addr
begin

text \<open>
  The rule builder of nftables (\<open>Rule\<close> and the types of chains, sets and flowtables in
  \<open>netlink/nftables/types.rs\<close>) and the comment that carries a rule's key
  (\<open>nftables/userdata.rs\<close>).  A builder method appends expressions; an address match
  is a load, a mask of the prefix and a comparison.
\<close>

section \<open>Types\<close>

datatype hook =
  Prerouting | Input | Forward | Output | Postrouting | NetdevIngress | InetIngress | NetdevEgress

fun hook_code :: "hook \<Rightarrow> u32" where
  "hook_code Prerouting = 0"
| "hook_code Input = 1"
| "hook_code Forward = 2"
| "hook_code Output = 3"
| "hook_code Postrouting = 4"
| "hook_code InetIngress = 5"
| "hook_code NetdevIngress = 0"
| "hook_code NetdevEgress = 1"

definition hook_valid_for :: "hook \<Rightarrow> nft_family \<Rightarrow> bool" where
  "hook_valid_for h f =
     (if h \<in> {NetdevIngress, NetdevEgress} \<and> f = Netdev then True
      else if h = NetdevIngress \<and> f = BridgeFamily then True
      else if h = InetIngress \<and> f \<in> {Inet, Ip, Ip6} then True
      else h \<in> {Prerouting, Input, Forward, Output, Postrouting} \<and> f \<in> {Inet, Ip, Ip6, BridgeFamily, Arp})"

datatype chain_type = ChainFilter | ChainNat | ChainRoute

fun chain_type_str :: "chain_type \<Rightarrow> string" where
  "chain_type_str ChainFilter = ''filter''"
| "chain_type_str ChainNat = ''nat''"
| "chain_type_str ChainRoute = ''route''"

definition chain_type_from :: "string \<Rightarrow> chain_type option" where
  "chain_type_from s =
     (if s = ''filter'' then Some ChainFilter else if s = ''nat'' then Some ChainNat
      else if s = ''route'' then Some ChainRoute else None)"

datatype chain_priority = PrioRaw | PrioMangle | PrioDstNat | PrioFilter | PrioSecurity | PrioSrcNat | PrioCustom i32

fun priority_code :: "chain_priority \<Rightarrow> i32" where
  "priority_code PrioRaw = - 300"
| "priority_code PrioMangle = - 150"
| "priority_code PrioDstNat = - 100"
| "priority_code PrioFilter = 0"
| "priority_code PrioSecurity = 50"
| "priority_code PrioSrcNat = 100"
| "priority_code (PrioCustom v) = v"

datatype chain_policy = PolicyAccept | PolicyDrop

fun policy_code :: "chain_policy \<Rightarrow> u32" where
  "policy_code PolicyAccept = 1"
| "policy_code PolicyDrop = 0"

datatype set_key_type =
    Ipv4Key | Ipv6Key | EtherKey | ServiceKey | IfIndexKey | MarkKey | ProtoKey | Concat "set_key_type list"

fun key_type_id :: "set_key_type \<Rightarrow> u32" where
  "key_type_id Ipv4Key = 7"
| "key_type_id Ipv6Key = 8"
| "key_type_id EtherKey = 9"
| "key_type_id ProtoKey = 12"
| "key_type_id ServiceKey = 13"
| "key_type_id MarkKey = 19"
| "key_type_id IfIndexKey = 20"
| "key_type_id (Concat parts) =
     foldl (\<lambda>acc t. push_bit 6 acc OR (t AND 0x3F)) 0 (map key_type_id parts)"

text \<open>\<open>next_multiple_of\<close> and the sum stay far from \<open>u32::MAX\<close>: a component is at most 16 bytes long.\<close>

fun key_len :: "set_key_type \<Rightarrow> nat" where
  "key_len Ipv4Key = 4"
| "key_len Ipv6Key = 16"
| "key_len EtherKey = 6"
| "key_len ServiceKey = 2"
| "key_len IfIndexKey = 4"
| "key_len MarkKey = 4"
| "key_len ProtoKey = 1"
| "key_len (Concat parts) = sum_list (map (\<lambda>t. (key_len t + 3) div 4 * 4) parts)"

type_synonym set_element = bytes

definition element_ipv4 :: "ipv4 \<Rightarrow> set_element" where
  "element_ipv4 a = be_bytes 4 a"

definition element_ipv6 :: "ipv6 \<Rightarrow> set_element" where
  "element_ipv6 a = be_bytes 16 a"

definition element_port :: "u16 \<Rightarrow> set_element" where
  "element_port p = be_bytes 2 p"

record flowtable =
  ft_family :: nft_family
  ft_table :: string
  ft_name :: string
  ft_devs :: "string list"
  ft_priority :: i32
  ft_flags :: u32
  ft_use_count :: u32
  ft_handle :: u64

definition flowtable_new :: "nft_family \<Rightarrow> string \<Rightarrow> string \<Rightarrow> flowtable" where
  "flowtable_new family table name =
     \<lparr>ft_family = family, ft_table = table, ft_name = name, ft_devs = [], ft_priority = 0, ft_flags = 0,
      ft_use_count = 0, ft_handle = 0\<rparr>"

definition set_flag :: "u32 \<Rightarrow> bool \<Rightarrow> u32 \<Rightarrow> u32" where
  "set_flag flag on flags = (if on then flags OR flag else flags AND NOT flag)"

definition ft_device :: "string \<Rightarrow> flowtable \<Rightarrow> flowtable" where
  "ft_device dev ft = ft\<lparr>ft_devs := ft_devs ft @ [dev]\<rparr>"

definition ft_hw_offload :: "bool \<Rightarrow> flowtable \<Rightarrow> flowtable" where
  "ft_hw_offload on ft = ft\<lparr>ft_flags := set_flag 1 on (ft_flags ft)\<rparr>"

definition ft_counter :: "bool \<Rightarrow> flowtable \<Rightarrow> flowtable" where
  "ft_counter on ft = ft\<lparr>ft_flags := set_flag 2 on (ft_flags ft)\<rparr>"

record chain =
  ch_table :: string
  ch_name :: string
  ch_family :: nft_family
  ch_hook :: "hook option"
  ch_priority :: "chain_priority option"
  ch_type :: "chain_type option"
  ch_policy :: "chain_policy option"
  ch_device :: "string option"

definition chain_new :: "string \<Rightarrow> string \<Rightarrow> chain nl_result" where
  "chain_new table name =
     (case table_name_new table of
        Inl err \<Rightarrow> Inl err
      | Inr t \<Rightarrow>
          (case chain_name_new name of
             Inl err \<Rightarrow> Inl err
           | Inr n \<Rightarrow> Inr \<lparr>ch_table = t, ch_name = n, ch_family = Inet, ch_hook = None, ch_priority = None,
                          ch_type = None, ch_policy = None, ch_device = None\<rparr>))"

record nft_set =
  st_table :: string
  st_name :: string
  st_family :: nft_family
  st_key_type :: set_key_type
  st_flags :: u32

section \<open>Rules\<close>

record rule =
  ru_table :: string
  ru_chain :: string
  ru_family :: nft_family
  ru_exprs :: "expr list"
  ru_position :: "u64 option"
  ru_comment :: "string option"

definition rule_new :: "string \<Rightarrow> string \<Rightarrow> rule" where
  "rule_new table ch =
     \<lparr>ru_table = table, ru_chain = ch, ru_family = Inet, ru_exprs = [], ru_position = None, ru_comment = None\<rparr>"

definition push :: "expr list \<Rightarrow> rule \<Rightarrow> rule" where
  "push xs r = r\<lparr>ru_exprs := ru_exprs r @ xs\<rparr>"

definition push_meta_eq :: "meta_key \<Rightarrow> u8 \<Rightarrow> rule \<Rightarrow> rule" where
  "push_meta_eq key value = push [Meta R0 key, Cmp R0 Eq [value]]"

definition push_nfproto_ipv4 :: "rule \<Rightarrow> rule" where
  "push_nfproto_ipv4 = push_meta_eq NfProto 2"

definition push_nfproto_ipv6 :: "rule \<Rightarrow> rule" where
  "push_nfproto_ipv6 = push_meta_eq NfProto 10"

definition prefix_to_mask :: "nat \<Rightarrow> u8 \<Rightarrow> bytes" where
  "prefix_to_mask width pfx =
     (let p = min (unat pfx) (width * 8);
          full_bytes = p div 8;
          remainder = p mod 8;
          msk = map (\<lambda>i. if i < full_bytes then 0xff else 0) [0..<width]
      in if remainder \<noteq> 0 \<and> full_bytes < width
         then msk[full_bytes := push_bit (8 - remainder) 0xff] else msk)"

definition push_addr_match :: "bytes \<Rightarrow> u32 \<Rightarrow> u8 \<Rightarrow> u8 \<Rightarrow> nft_cmp \<Rightarrow> rule \<Rightarrow> rule" where
  "push_addr_match octets offset pfx full_prefix op r =
     (let len = of_nat (length octets);
          r = push [Payload R0 Network offset len] r
      in if full_prefix \<le> pfx then push [Cmp R0 op octets] r
         else
           (let msk = prefix_to_mask (length octets) pfx;
                masked = map2 (AND) octets msk
            in push [Bitwise R0 R0 len msk (replicate (length octets) 0), Cmp R0 op masked] r))"

definition match_saddr_v4 :: "ipv4 \<Rightarrow> u8 \<Rightarrow> rule \<Rightarrow> rule" where
  "match_saddr_v4 a pfx r = push_addr_match (be_bytes 4 a) 12 pfx 32 Eq (push_nfproto_ipv4 r)"

definition match_saddr_v6 :: "ipv6 \<Rightarrow> u8 \<Rightarrow> rule \<Rightarrow> rule" where
  "match_saddr_v6 a pfx r = push_addr_match (be_bytes 16 a) 8 pfx 128 Eq (push_nfproto_ipv6 r)"

definition match_daddr_v4 :: "ipv4 \<Rightarrow> u8 \<Rightarrow> rule \<Rightarrow> rule" where
  "match_daddr_v4 a pfx r = push_addr_match (be_bytes 4 a) 16 pfx 32 Eq (push_nfproto_ipv4 r)"

definition match_daddr_v6 :: "ipv6 \<Rightarrow> u8 \<Rightarrow> rule \<Rightarrow> rule" where
  "match_daddr_v6 a pfx r = push_addr_match (be_bytes 16 a) 24 pfx 128 Eq (push_nfproto_ipv6 r)"

definition match_saddr_v4_not :: "ipv4 \<Rightarrow> u8 \<Rightarrow> rule \<Rightarrow> rule" where
  "match_saddr_v4_not a pfx r = push_addr_match (be_bytes 4 a) 12 pfx 32 Neq (push_nfproto_ipv4 r)"

definition match_saddr_v6_not :: "ipv6 \<Rightarrow> u8 \<Rightarrow> rule \<Rightarrow> rule" where
  "match_saddr_v6_not a pfx r = push_addr_match (be_bytes 16 a) 8 pfx 128 Neq (push_nfproto_ipv6 r)"

definition match_daddr_v4_not :: "ipv4 \<Rightarrow> u8 \<Rightarrow> rule \<Rightarrow> rule" where
  "match_daddr_v4_not a pfx r = push_addr_match (be_bytes 4 a) 16 pfx 32 Neq (push_nfproto_ipv4 r)"

definition match_daddr_v6_not :: "ipv6 \<Rightarrow> u8 \<Rightarrow> rule \<Rightarrow> rule" where
  "match_daddr_v6_not a pfx r = push_addr_match (be_bytes 16 a) 24 pfx 128 Neq (push_nfproto_ipv6 r)"

definition match_tcp_dport :: "u16 \<Rightarrow> rule \<Rightarrow> rule" where
  "match_tcp_dport port r = push [Payload R0 Transport 2 2, Cmp R0 Eq (be_bytes 2 port)] (push_meta_eq L4Proto 6 r)"

definition match_udp_dport :: "u16 \<Rightarrow> rule \<Rightarrow> rule" where
  "match_udp_dport port r = push [Payload R0 Transport 2 2, Cmp R0 Eq (be_bytes 2 port)] (push_meta_eq L4Proto 17 r)"

definition match_tcp_sport :: "u16 \<Rightarrow> rule \<Rightarrow> rule" where
  "match_tcp_sport port r = push [Payload R0 Transport 0 2, Cmp R0 Eq (be_bytes 2 port)] (push_meta_eq L4Proto 6 r)"

definition match_udp_sport :: "u16 \<Rightarrow> rule \<Rightarrow> rule" where
  "match_udp_sport port r = push [Payload R0 Transport 0 2, Cmp R0 Eq (be_bytes 2 port)] (push_meta_eq L4Proto 17 r)"

definition match_tcp_dport_not :: "u16 \<Rightarrow> rule \<Rightarrow> rule" where
  "match_tcp_dport_not port r =
     push [Payload R0 Transport 2 2, Cmp R0 Neq (be_bytes 2 port)] (push_meta_eq L4Proto 6 r)"

definition match_udp_dport_not :: "u16 \<Rightarrow> rule \<Rightarrow> rule" where
  "match_udp_dport_not port r =
     push [Payload R0 Transport 2 2, Cmp R0 Neq (be_bytes 2 port)] (push_meta_eq L4Proto 17 r)"

definition match_l4proto :: "u8 \<Rightarrow> rule \<Rightarrow> rule" where
  "match_l4proto proto = push_meta_eq L4Proto proto"

definition match_icmp_type :: "u8 \<Rightarrow> rule \<Rightarrow> rule" where
  "match_icmp_type t r =
     push [Payload R0 Transport 0 1, Cmp R0 Eq [t]] (push_meta_eq L4Proto 1 (push_nfproto_ipv4 r))"

definition match_icmpv6_type :: "u8 \<Rightarrow> rule \<Rightarrow> rule" where
  "match_icmpv6_type t r =
     push [Payload R0 Transport 0 1, Cmp R0 Eq [t]] (push_meta_eq L4Proto 58 (push_nfproto_ipv6 r))"

text \<open>\<open>data.push(0); data.resize(16, 0)\<close>: a name of more than 15 bytes is cut to 16.\<close>

definition ifname_data :: "string \<Rightarrow> bytes" where
  "ifname_data name = resize 16 (bytes_of_str name @ [0])"

definition match_iif :: "string \<Rightarrow> rule \<Rightarrow> rule" where
  "match_iif name = push [Meta R0 IifName, Cmp R0 Eq (ifname_data name)]"

definition match_oif :: "string \<Rightarrow> rule \<Rightarrow> rule" where
  "match_oif name = push [Meta R0 OifName, Cmp R0 Eq (ifname_data name)]"

definition match_mark :: "endian \<Rightarrow> u32 \<Rightarrow> rule \<Rightarrow> rule" where
  "match_mark e mark = push [Meta R0 Mark, Cmp R0 Eq (ne_bytes e 4 mark)]"

definition match_ct_state :: "endian \<Rightarrow> u32 \<Rightarrow> rule \<Rightarrow> rule" where
  "match_ct_state e state =
     push [Ct R0 CtStateKey, Bitwise R0 R0 4 (ne_bytes e 4 state) (replicate 4 0), Cmp R0 Neq (replicate 4 0)]"

definition match_saddr_in_set :: "string \<Rightarrow> rule \<Rightarrow> rule" where
  "match_saddr_in_set s = push [Payload R0 Network 12 4, Lookup s R0]"

definition match_daddr_in_set :: "string \<Rightarrow> rule \<Rightarrow> rule" where
  "match_daddr_in_set s = push [Payload R0 Network 16 4, Lookup s R0]"

definition rule_accept :: "rule \<Rightarrow> rule" where
  "rule_accept = push [Verdict Accept]"

definition rule_drop :: "rule \<Rightarrow> rule" where
  "rule_drop = push [Verdict Drop]"

definition rule_jump :: "string \<Rightarrow> rule \<Rightarrow> rule" where
  "rule_jump ch = push [Verdict (JumpTo ch)]"

definition try_jump :: "string \<Rightarrow> rule \<Rightarrow> rule nl_result" where
  "try_jump ch r = (case chain_name_new ch of Inl err \<Rightarrow> Inl err | Inr n \<Rightarrow> Inr (rule_jump n r))"

definition rule_goto :: "string \<Rightarrow> rule \<Rightarrow> rule" where
  "rule_goto ch = push [Verdict (GotoTo ch)]"

definition try_goto :: "string \<Rightarrow> rule \<Rightarrow> rule nl_result" where
  "try_goto ch r = (case chain_name_new ch of Inl err \<Rightarrow> Inl err | Inr n \<Rightarrow> Inr (rule_goto n r))"

definition rule_counted :: "rule \<Rightarrow> rule" where
  "rule_counted = push [Counter]"

definition rule_limit :: "u64 \<Rightarrow> limit_unit \<Rightarrow> rule \<Rightarrow> rule" where
  "rule_limit rate unit = push [Limit rate unit 5]"

definition rule_masquerade :: "rule \<Rightarrow> rule" where
  "rule_masquerade = push [Masquerade]"

definition push_nat :: "nat_type \<Rightarrow> nft_family \<Rightarrow> bytes \<Rightarrow> nat_addr \<Rightarrow> u16 option \<Rightarrow> rule \<Rightarrow> rule" where
  "push_nat t family addr_bytes addr port =
     push (Immediate R0 addr_bytes # (case port of Some p \<Rightarrow> [Immediate R1 (be_bytes 2 p)] | None \<Rightarrow> []) @
           [Nat \<lparr>ne_type = t, ne_family = family, ne_addr = addr, ne_port = port\<rparr>])"

definition rule_snat :: "ipv4 \<Rightarrow> u16 option \<Rightarrow> rule \<Rightarrow> rule" where
  "rule_snat a = push_nat Snat Ip (be_bytes 4 a) (NatV4 a)"

definition rule_dnat :: "ipv4 \<Rightarrow> u16 option \<Rightarrow> rule \<Rightarrow> rule" where
  "rule_dnat a = push_nat Dnat Ip (be_bytes 4 a) (NatV4 a)"

definition rule_snat_v6 :: "ipv6 \<Rightarrow> u16 option \<Rightarrow> rule \<Rightarrow> rule" where
  "rule_snat_v6 a = push_nat Snat Ip6 (be_bytes 16 a) Reg"

definition rule_dnat_v6 :: "ipv6 \<Rightarrow> u16 option \<Rightarrow> rule \<Rightarrow> rule" where
  "rule_dnat_v6 a = push_nat Dnat Ip6 (be_bytes 16 a) Reg"

definition rule_redirect :: "u16 option \<Rightarrow> rule \<Rightarrow> rule" where
  "rule_redirect port =
     push ((case port of Some p \<Rightarrow> [Immediate R0 (be_bytes 2 p)] | None \<Rightarrow> []) @ [Redirect port])"

definition rule_log :: "string option \<Rightarrow> rule \<Rightarrow> rule" where
  "rule_log pfx = push [Log pfx None]"

definition reject_with :: "u32 \<Rightarrow> u8 \<Rightarrow> rule \<Rightarrow> rule" where
  "reject_with reject_type icmp_code = push [Reject reject_type icmp_code]"

definition rule_reject :: "rule \<Rightarrow> rule" where
  "rule_reject = reject_with 2 1"

definition rule_expressions :: "expr list \<Rightarrow> rule \<Rightarrow> rule" where
  "rule_expressions xs r = r\<lparr>ru_exprs := xs\<rparr>"

section \<open>Comments\<close>

definition nlink_prefix :: string where
  "nlink_prefix = ''nlink:''"

definition encode_nlink_comment :: "string \<Rightarrow> bytes option" where
  "encode_nlink_comment key =
     (let body_bytes = bytes_of_str (nlink_prefix @ key) @ [0]
      in if length body_bytes > 128 then None else Some (0 # of_nat (length body_bytes) # body_bytes))"

text \<open>\<open>trim_end_matches\<close> and \<open>strip_prefix\<close>; the loop over the cursor is the recursion on it.\<close>

definition trim_end_nul :: "string \<Rightarrow> string" where
  "trim_end_nul s = rev (dropWhile (\<lambda>c. c = CHR 0x00) (rev s))"

definition strip_prefix :: "string \<Rightarrow> string \<Rightarrow> string option" where
  "strip_prefix p s = (if take (length p) s = p then Some (drop (length p) s) else None)"

function parse_nlink_comment :: "bytes \<Rightarrow> string option" where
  "parse_nlink_comment cursor =
     (if length cursor < 2 then None
      else
        (let len = unat (cursor ! 1)
         in if length cursor < 2 + len then None
            else if cursor ! 0 = 0
            then Option.bind (from_utf8 (take len (drop 2 cursor))) (\<lambda>s. strip_prefix nlink_prefix (trim_end_nul s))
            else parse_nlink_comment (drop (2 + len) cursor)))"
  by pat_completeness auto
termination
  by (relation "measure length") auto

declare parse_nlink_comment.simps [simp del]

section \<open>A comment names its rule\<close>

lemma utf8_step_append:
  assumes "fst (utf8_step a)" "a \<noteq> []"
  shows "utf8_step (a @ b) = utf8_step a \<and> snd (utf8_step a) \<le> length a"
proof -
  obtain x xs where a: "a = x # xs" using assms(2) by (cases a) auto
  obtain k where k: "utf8_tail_len x = Some k" using assms(1) a by (auto split: option.splits)
  show ?thesis
  proof (cases "k = 0")
    case False
    define good where "good = 1 + length (takeWhile utf8_cont (take (k - 1) (tl xs)))"
    have xs: "xs \<noteq> []" "utf8_second_ok x (hd xs)" "good = k"
      using assms(1) a k False by (auto simp: good_def Let_def split: if_splits)
    then have "k - 1 \<le> length (tl xs)"
      using length_takeWhile_le[of utf8_cont "take (k - 1) (tl xs)"] by (simp add: good_def) linarith
    then have "take (k - 1) (tl (xs @ b)) = take (k - 1) (tl xs)" using xs(1) by (cases xs) auto
    then show ?thesis
      using a k False xs \<open>k - 1 \<le> length (tl xs)\<close> by (cases xs) (auto simp: good_def Let_def)
  qed (simp add: a k)
qed

lemma utf8_valid_append: "utf8_valid a \<Longrightarrow> utf8_valid (a @ b) = utf8_valid b"
proof (induction a rule: utf8_valid.induct)
  case (1 a)
  show ?case
  proof (cases "a = []")
    case False
    with 1(2) have "fst (utf8_step a)" "utf8_valid (drop (snd (utf8_step a)) a)"
      by (auto simp: utf8_valid.simps[of a] split: if_splits)
    with 1(1) False utf8_step_append[of a b] show ?thesis
      by (subst utf8_valid.simps) (simp add: utf8_valid.simps[of a])
  qed simp
qed

lemma trim_end_nul_append: "s = [] \<or> List.last s \<noteq> CHR 0x00 \<Longrightarrow> trim_end_nul (s @ [CHR 0x00]) = s"
  by (cases s rule: rev_cases) (auto simp: trim_end_nul_def)

lemma str_of_bytes_append: "str_of_bytes (a @ b) = str_of_bytes a @ str_of_bytes b"
  by (simp add: str_of_bytes_def)

lemma nlink_prefix_bytes: "utf8_valid (bytes_of_str nlink_prefix)"
  by (simp add: nlink_prefix_def bytes_of_str_def char_byte_def utf8_valid_ascii)

definition key_ok :: "string \<Rightarrow> bool" where
  "key_ok key = (length key \<le> 121 \<and> utf8_valid (bytes_of_str key) \<and> (key = [] \<or> List.last key \<noteq> CHR 0x00))"

lemma encode_long: "(encode_nlink_comment key = None) = (121 < length key)"
  by (auto simp: encode_nlink_comment_def nlink_prefix_def bytes_of_str_def Let_def)

lemma comment_back:
  assumes "key_ok key"
  shows "\<exists>c. encode_nlink_comment key = Some c \<and> length c \<le> 130 \<and> parse_nlink_comment c = Some key"
proof -
  let ?body = "bytes_of_str (nlink_prefix @ key) @ [0]"
  have len: "length ?body \<le> 128" "length ?body = length key + 7"
    using assms by (simp_all add: key_ok_def nlink_prefix_def bytes_of_str_def)
  have n: "unat (of_nat (length ?body) :: u8) = length ?body" using len by (intro unat_of_nat_id) simp
  have str: "str_of_bytes ?body = (nlink_prefix @ key) @ [CHR 0x00]"
    by (simp add: str_of_bytes_append bytes_of_str_append str_of_bytes_def[of "[0]"] byte_char_def char_of_def)
  have "utf8_valid (bytes_of_str key @ [0])"
    using assms by (simp add: key_ok_def utf8_valid_append utf8_valid_ascii)
  then have valid: "utf8_valid ?body"
    using nlink_prefix_bytes by (simp add: bytes_of_str_append utf8_valid_append)
  have trim: "trim_end_nul ((nlink_prefix @ key) @ [CHR 0x00]) = nlink_prefix @ key"
    by (rule trim_end_nul_append) (use assms in \<open>auto simp: key_ok_def nlink_prefix_def\<close>)
  have "parse_nlink_comment (0 # of_nat (length ?body) # ?body) =
      Option.bind (from_utf8 ?body) (\<lambda>s. strip_prefix nlink_prefix (trim_end_nul s))"
    by (subst parse_nlink_comment.simps) (simp only: n Let_def nth_Cons_0 nth_Cons_Suc One_nat_def drop_Suc_Cons
      numeral_2_eq_2 drop_0 list.size take_all_iff order_refl if_True if_False not_less, simp)
  also have "\<dots> = Some key"
    by (simp only: from_utf8_def valid if_True str Option.bind.simps trim strip_prefix_def) simp
  finally show ?thesis
    using len by (intro exI[of _ "0 # of_nat (length ?body) # ?body"]) (simp add: encode_nlink_comment_def Let_def)
qed

section \<open>An address match is a match of the prefix\<close>

lemma le_bytes_nth: "i < n \<Longrightarrow> le_bytes n x ! i = ucast (drop_bit (8 * i) x)"
  by (induction n x arbitrary: i rule: le_bytes.induct) (auto simp: nth_Cons' drop_bit_drop_bit algebra_simps)

lemma be_bytes_nth: "i < n \<Longrightarrow> be_bytes n x ! i = ucast (drop_bit (8 * (n - 1 - i)) x)"
  by (simp add: ne_bytes_def rev_nth le_bytes_nth)

lemma be_bytes_and: "map2 (AND) (be_bytes n x) (be_bytes n y) = be_bytes n (x AND y)"
  by (rule nth_equalityI) (auto simp: be_bytes_nth intro!: bit_eqI simp: bit_simps)

lemma partial_byte: "r < 8 \<Longrightarrow> q = 8 * i + r \<Longrightarrow> (8 * (i + 1) \<le> q + j) = (8 - r \<le> (j :: nat))"
  by (simp; arith)

lemma prefix_to_mask_bytes:
  assumes "8 * n = LENGTH('a)"
  shows "prefix_to_mask n p = be_bytes n (prefix_mask (min (unat p) (8 * n)) :: 'a::len word)"
proof (rule nth_equalityI)
  fix i assume "i < length (prefix_to_mask n p)"
  then have i: "i < n" by (simp add: prefix_to_mask_def Let_def split: if_splits)
  define q where "q = min (unat p) (8 * n)"
  have q: "q \<le> 8 * n" "q = 8 * (q div 8) + q mod 8" by (simp_all add: q_def)
  show "prefix_to_mask n p ! i = be_bytes n (prefix_mask (min (unat p) (8 * n)) :: 'a word) ! i"
  proof (rule bit_word_eqI)
    fix j assume j: "j < LENGTH(8)"
    have "bit (be_bytes n (prefix_mask q :: 'a word) ! i) j = (8 * n - q \<le> 8 * (n - 1 - i) + j)"
      using i j assms by (auto simp: be_bytes_nth bit_simps bit_prefix_mask)
    also have "\<dots> = (8 * (i + 1) \<le> q + j)" using i j q by auto
    also have "\<dots> = bit (prefix_to_mask n p ! i) j"
    proof (cases "i = q div 8 \<and> q mod 8 \<noteq> 0")
      case True
      have ones: "(255 :: u8) = - 1" by simp
      have "prefix_to_mask n p ! i = push_bit (8 - q mod 8) 255"
        using i True by (simp add: prefix_to_mask_def Let_def q_def[symmetric] mult.commute[of n])
      moreover have "(8 * (i + 1) \<le> q + j) = (8 - q mod 8 \<le> j)"
        using True q(2) by (intro partial_byte) auto
      ultimately show ?thesis using j by (simp only: ones bit_simps) auto
    next
      case False
      have ones: "(255 :: u8) = - 1" by simp
      have "prefix_to_mask n p ! i = (if i < q div 8 then 255 else 0)"
        using i False
        by (cases "i = q div 8") (simp_all add: prefix_to_mask_def Let_def q_def[symmetric] mult.commute[of n])
      moreover have "(8 * (i + 1) \<le> q + j) = (i < q div 8)"
        using False j less_eq_div_iff_mult_less_eq[of 8 "i + 1" q] q(2) by (cases "i = q div 8") auto
      ultimately show ?thesis using j by (simp only: ones bit_simps split: if_split) auto
    qed
    finally show "bit (prefix_to_mask n p ! i) j = bit (be_bytes n (prefix_mask (min (unat p) (8 * n)) :: 'a word) ! i) j"
      by (simp add: q_def)
  qed
qed (simp add: prefix_to_mask_def Let_def)

text \<open>The comparison of a masked load: it holds of the addresses that share the prefix.\<close>

lemma masked_match:
  fixes x y :: "'a::len word"
  assumes "8 * n = LENGTH('a)" "unat p \<le> 8 * n"
  shows "(map2 (AND) (be_bytes n y) (prefix_to_mask n p) = map2 (AND) (be_bytes n x) (prefix_to_mask n p))
    = (drop_bit (8 * n - unat p) y = drop_bit (8 * n - unat p) x)"
proof -
  let ?m = "prefix_mask (unat p) :: 'a word"
  have m: "prefix_to_mask n p = be_bytes n ?m"
    using prefix_to_mask_bytes[OF assms(1), of p] assms(2) by (simp add: min_absorb1)
  have "(be_bytes n (y AND ?m) = be_bytes n (x AND ?m)) = (y AND ?m = x AND ?m)"
    using ne_bytes_inj[of n BigEndian "y AND ?m" "x AND ?m"] assms(1) by auto
  also have "\<dots> = (drop_bit (8 * n - unat p) y = drop_bit (8 * n - unat p) x)"
    using prefix_mask_agree[of y "unat p" x] assms(1) by simp
  finally show ?thesis by (simp add: m be_bytes_and)
qed

definition addr_exprs :: "bytes \<Rightarrow> u32 \<Rightarrow> u8 \<Rightarrow> u8 \<Rightarrow> nft_cmp \<Rightarrow> expr list" where
  "addr_exprs octets offset pfx full op = ru_exprs (push_addr_match octets offset pfx full op (rule_new [] []))"

lemma addr_exprs_pushed:
  "ru_exprs (push_addr_match octets offset pfx full op r) = ru_exprs r @ addr_exprs octets offset pfx full op"
  by (simp add: addr_exprs_def push_addr_match_def push_def rule_new_def Let_def)

lemma saddr_match_prefix:
  assumes "p < 32"
  shows "\<exists>m v. ru_exprs (match_saddr_v4 a p r) = ru_exprs r @
      [Meta R0 NfProto, Cmp R0 Eq [2], Payload R0 Network 12 4, Bitwise R0 R0 4 m (replicate 4 0), Cmp R0 Eq v]
    \<and> length m = 4 \<and> (\<forall>b :: ipv4. (map2 (AND) (be_bytes 4 b) m = v) =
        (drop_bit (32 - unat p) b = drop_bit (32 - unat p) a))"
proof -
  have p: "unat p < 32" "\<not> 32 \<le> p" using assms by (simp_all add: word_less_nat_alt not_le)
  show ?thesis
    using masked_match[of 4 p _ a] p
    by (intro exI[of _ "prefix_to_mask 4 p"] exI[of _ "map2 (AND) (be_bytes 4 a) (prefix_to_mask 4 p)"])
       (simp add: match_saddr_v4_def push_nfproto_ipv4_def push_meta_eq_def push_addr_match_def push_def Let_def
          prefix_to_mask_def)
qed

end
