(* ===== verification/Nft_Config.thy ===== *)
theory Nft_Config
  imports Nft_Rule
begin

text \<open>
  The declared rule sets of nftables (\<open>nftables/config/types.rs\<close>) and the differ that compares
  them with the dumps of the kernel (\<open>nftables/config/diff.rs\<close>).  The dumps are a parameter, each
  a call that may fail; so is the order in which a hash map is walked.  The passes push on separate
  vectors: a table's contribution is a diff of its own, joined to what came before.
\<close>

section \<open>Declarations\<close>

record declared_chain =
  dc_name :: string
  dc_hook :: "hook option"
  dc_priority :: "chain_priority option"
  dc_policy :: "chain_policy option"
  dc_type :: "chain_type option"
  dc_device :: "string option"

definition declared_chain_new :: "string \<Rightarrow> declared_chain" where
  "declared_chain_new name =
     \<lparr>dc_name = name, dc_hook = None, dc_priority = None, dc_policy = None, dc_type = None, dc_device = None\<rparr>"

record declared_set =
  ds_name :: string
  ds_key_type :: set_key_type
  ds_flags :: u32
  ds_elements :: "set_element list"

definition declared_set_new :: "string \<Rightarrow> declared_set" where
  "declared_set_new name = \<lparr>ds_name = name, ds_key_type = Ipv4Key, ds_flags = 0, ds_elements = []\<rparr>"

record declared_rule =
  dr_table :: string
  dr_chain :: string
  dr_family :: nft_family
  dr_key :: "string option"
  dr_body :: rule

record declared_flowtable =
  df_family :: nft_family
  df_table :: string
  df_name :: string
  df_devs :: "string list"
  df_priority :: i32
  df_flags :: u32

record declared_table =
  dt_name :: string
  dt_family :: nft_family
  dt_flags :: u32
  dt_chains :: "declared_chain list"
  dt_rules :: "declared_rule list"
  dt_flowtables :: "declared_flowtable list"
  dt_sets :: "declared_set list"

definition declared_table_new :: "string \<Rightarrow> nft_family \<Rightarrow> declared_table" where
  "declared_table_new name family =
     \<lparr>dt_name = name, dt_family = family, dt_flags = 0, dt_chains = [], dt_rules = [], dt_flowtables = [], dt_sets = []\<rparr>"

definition table_persist :: "bool \<Rightarrow> declared_table \<Rightarrow> declared_table" where
  "table_persist on t = t\<lparr>dt_flags := set_flag 4 on (dt_flags t)\<rparr>"

definition table_chain :: "string \<Rightarrow> (declared_chain \<Rightarrow> declared_chain) \<Rightarrow> declared_table \<Rightarrow> declared_table" where
  "table_chain name f t = t\<lparr>dt_chains := dt_chains t @ [f (declared_chain_new name)]\<rparr>"

definition add_declared_rule :: "string \<Rightarrow> string option \<Rightarrow> (rule \<Rightarrow> rule) \<Rightarrow> declared_table \<Rightarrow> declared_table" where
  "add_declared_rule ch key f t =
     t\<lparr>dt_rules := dt_rules t @
        [\<lparr>dr_table = dt_name t, dr_chain = ch, dr_family = dt_family t, dr_key = key,
          dr_body = f ((rule_new (dt_name t) ch)\<lparr>ru_family := dt_family t\<rparr>)\<rparr>]\<rparr>"

definition table_rule :: "string \<Rightarrow> (rule \<Rightarrow> rule) \<Rightarrow> declared_table \<Rightarrow> declared_table" where
  "table_rule ch = add_declared_rule ch None"

definition table_rule_keyed :: "string \<Rightarrow> string \<Rightarrow> (rule \<Rightarrow> rule) \<Rightarrow> declared_table \<Rightarrow> declared_table" where
  "table_rule_keyed ch key = add_declared_rule ch (Some key)"

definition table_flowtable :: "string \<Rightarrow> (declared_flowtable \<Rightarrow> declared_flowtable) \<Rightarrow> declared_table \<Rightarrow> declared_table" where
  "table_flowtable name f t =
     t\<lparr>dt_flowtables := dt_flowtables t @
        [f \<lparr>df_family = dt_family t, df_table = dt_name t, df_name = name, df_devs = [], df_priority = 0, df_flags = 0\<rparr>]\<rparr>"

definition table_set :: "string \<Rightarrow> (declared_set \<Rightarrow> declared_set) \<Rightarrow> declared_table \<Rightarrow> declared_table" where
  "table_set name f t = t\<lparr>dt_sets := dt_sets t @ [f (declared_set_new name)]\<rparr>"

type_synonym nft_config = "declared_table list"

definition config_table :: "string \<Rightarrow> nft_family \<Rightarrow> (declared_table \<Rightarrow> declared_table) \<Rightarrow> nft_config \<Rightarrow> nft_config" where
  "config_table name family f cfg = cfg @ [f (declared_table_new name family)]"

section \<open>Dumps\<close>

record table_info =
  ti_name :: string
  ti_family :: nft_family
  ti_flags :: u32
  ti_use_count :: u32
  ti_handle :: u64

record chain_info =
  ci_table :: string
  ci_name :: string
  ci_family :: nft_family
  ci_hook :: "u32 option"
  ci_priority :: "i32 option"
  ci_type :: "chain_type option"
  ci_device :: "string option"
  ci_policy :: "u32 option"
  ci_handle :: u64

record rule_info =
  ri_table :: string
  ri_chain :: string
  ri_family :: nft_family
  ri_handle :: u64
  ri_position :: "u64 option"
  ri_comment :: "string option"
  ri_userdata_raw :: "bytes option"
  ri_expression_bytes :: bytes

record set_info =
  si_table :: string
  si_name :: string
  si_family :: nft_family
  si_flags :: u32
  si_key_type :: u32
  si_key_len :: u32
  si_handle :: u64

record nft_dumps =
  nd_tables :: "table_info list nl_result"
  nd_chains :: "chain_info list nl_result"
  nd_flowtables :: "flowtable list nl_result"
  nd_rules :: "string \<Rightarrow> nft_family \<Rightarrow> rule_info list nl_result"
  nd_sets :: "string \<Rightarrow> nft_family \<Rightarrow> set_info list nl_result"
  nd_elements :: "string \<Rightarrow> string \<Rightarrow> nft_family \<Rightarrow> set_element list nl_result"

section \<open>Diffs\<close>

record nft_diff =
  tables_to_add :: "declared_table list"
  tables_to_modify :: "(nft_family \<times> string \<times> u32) list"
  tables_to_delete :: "(nft_family \<times> string) list"
  chains_to_add :: "(string \<times> nft_family \<times> declared_chain) list"
  chains_to_modify :: "(string \<times> nft_family \<times> declared_chain) list"
  chains_to_delete :: "(string \<times> nft_family \<times> string) list"
  rules_to_add :: "declared_rule list"
  rules_to_delete :: "(string \<times> nft_family \<times> string \<times> u64) list"
  rules_to_replace :: "(string \<times> nft_family \<times> string \<times> u64 \<times> declared_rule) list"
  flowtables_to_add :: "declared_flowtable list"
  flowtables_to_delete :: "(nft_family \<times> string \<times> string) list"
  sets_to_add :: "(string \<times> nft_family \<times> declared_set) list"
  sets_to_delete :: "(string \<times> nft_family \<times> string) list"
  set_elements_to_add :: "(string \<times> nft_family \<times> string \<times> set_element list) list"
  set_elements_to_remove :: "(string \<times> nft_family \<times> string \<times> set_element list) list"

definition no_changes :: nft_diff where
  "no_changes =
     \<lparr>tables_to_add = [], tables_to_modify = [], tables_to_delete = [], chains_to_add = [], chains_to_modify = [],
      chains_to_delete = [], rules_to_add = [], rules_to_delete = [], rules_to_replace = [], flowtables_to_add = [],
      flowtables_to_delete = [], sets_to_add = [], sets_to_delete = [], set_elements_to_add = [],
      set_elements_to_remove = []\<rparr>"

definition nft_diff_is_empty :: "nft_diff \<Rightarrow> bool" where
  "nft_diff_is_empty d =
     (tables_to_add d = [] \<and> tables_to_modify d = [] \<and> tables_to_delete d = [] \<and> chains_to_add d = [] \<and>
      chains_to_modify d = [] \<and> chains_to_delete d = [] \<and> rules_to_add d = [] \<and> rules_to_delete d = [] \<and>
      rules_to_replace d = [] \<and> flowtables_to_add d = [] \<and> flowtables_to_delete d = [] \<and> sets_to_add d = [] \<and>
      sets_to_delete d = [] \<and> set_elements_to_add d = [] \<and> set_elements_to_remove d = [])"

definition nft_change_count :: "nft_diff \<Rightarrow> nat" where
  "nft_change_count d =
     length (tables_to_add d) + length (tables_to_modify d) + length (tables_to_delete d) + length (chains_to_add d) +
     length (chains_to_modify d) + length (chains_to_delete d) + length (rules_to_add d) + length (rules_to_delete d) +
     length (rules_to_replace d) + length (flowtables_to_add d) + length (flowtables_to_delete d) +
     length (sets_to_add d) + length (sets_to_delete d) + length (set_elements_to_add d) +
     length (set_elements_to_remove d)"

definition diff_join :: "nft_diff \<Rightarrow> nft_diff \<Rightarrow> nft_diff" where
  "diff_join a b =
     \<lparr>tables_to_add = tables_to_add a @ tables_to_add b, tables_to_modify = tables_to_modify a @ tables_to_modify b,
      tables_to_delete = tables_to_delete a @ tables_to_delete b, chains_to_add = chains_to_add a @ chains_to_add b,
      chains_to_modify = chains_to_modify a @ chains_to_modify b,
      chains_to_delete = chains_to_delete a @ chains_to_delete b, rules_to_add = rules_to_add a @ rules_to_add b,
      rules_to_delete = rules_to_delete a @ rules_to_delete b, rules_to_replace = rules_to_replace a @ rules_to_replace b,
      flowtables_to_add = flowtables_to_add a @ flowtables_to_add b,
      flowtables_to_delete = flowtables_to_delete a @ flowtables_to_delete b, sets_to_add = sets_to_add a @ sets_to_add b,
      sets_to_delete = sets_to_delete a @ sets_to_delete b,
      set_elements_to_add = set_elements_to_add a @ set_elements_to_add b,
      set_elements_to_remove = set_elements_to_remove a @ set_elements_to_remove b\<rparr>"

text \<open>\<open>?\<close> on the result of a dump, and a loop whose body may fail.\<close>

definition dumped :: "'a nl_result \<Rightarrow> ('a \<Rightarrow> 'b nl_result) \<Rightarrow> 'b nl_result" where
  "dumped r f = (case r of Inl err \<Rightarrow> Inl err | Inr x \<Rightarrow> f x)"

fun join_each :: "('a \<Rightarrow> nft_diff nl_result) \<Rightarrow> 'a list \<Rightarrow> nft_diff nl_result" where
  "join_each f [] = Inr no_changes"
| "join_each f (x # xs) = dumped (f x) (\<lambda>d. dumped (join_each f xs) (\<lambda>ds. Inr (diff_join d ds)))"

section \<open>Passes\<close>

text \<open>Only a declared value can drift.\<close>

definition drifted :: "'a option \<Rightarrow> 'a option \<Rightarrow> bool" where
  "drifted declared current = (case declared of None \<Rightarrow> False | Some d \<Rightarrow> current \<noteq> Some d)"

definition chain_has_drifted :: "declared_chain \<Rightarrow> chain_info \<Rightarrow> bool" where
  "chain_has_drifted declared current =
     (drifted (map_option hook_code (dc_hook declared)) (ci_hook current) \<or>
      drifted (map_option priority_code (dc_priority declared)) (ci_priority current) \<or>
      drifted (map_option policy_code (dc_policy declared)) (ci_policy current) \<or>
      drifted (dc_type declared) (ci_type current) \<or>
      drifted (dc_device declared) (ci_device current))"

definition table_of :: "declared_table \<Rightarrow> table_info list \<Rightarrow> table_info option" where
  "table_of t current = find (\<lambda>c. ti_family c = dt_family t \<and> ti_name c = dt_name t) current"

definition table_changes :: "bool \<Rightarrow> nft_config \<Rightarrow> table_info list \<Rightarrow> nft_diff" where
  "table_changes purge cfg current =
     no_changes
       \<lparr>tables_to_add := filter (\<lambda>t. table_of t current = None) cfg,
        tables_to_modify := List.map_filter (\<lambda>t. case table_of t current of
            None \<Rightarrow> None
          | Some c \<Rightarrow> if ti_flags c \<noteq> dt_flags t then Some (dt_family t, dt_name t, dt_flags t) else None) cfg,
        tables_to_delete :=
          (if purge then map (\<lambda>c. (ti_family c, ti_name c))
             (filter (\<lambda>c. (ti_family c, ti_name c) \<notin> set (map (\<lambda>t. (dt_family t, dt_name t)) cfg)) current)
           else [])\<rparr>"

text \<open>A table the kernel does not have is installed whole.\<close>

definition whole_set :: "declared_table \<Rightarrow> declared_set \<Rightarrow> (string \<times> nft_family \<times> string \<times> set_element list) option" where
  "whole_set t s =
     (if ds_elements s = [] then None else Some (dt_name t, dt_family t, ds_name s, ds_elements s))"

definition promoted :: "declared_table \<Rightarrow> nft_diff" where
  "promoted t =
     no_changes
       \<lparr>chains_to_add := map (\<lambda>c. (dt_name t, dt_family t, c)) (dt_chains t),
        rules_to_add := dt_rules t,
        flowtables_to_add := dt_flowtables t,
        sets_to_add := map (\<lambda>s. (dt_name t, dt_family t, s)) (dt_sets t),
        set_elements_to_add := List.map_filter (whole_set t) (dt_sets t)\<rparr>"

definition chain_changes :: "declared_table \<Rightarrow> chain_info list \<Rightarrow> nft_diff" where
  "chain_changes t chains_in_table =
     (let current = (\<lambda>c. find (\<lambda>k. ci_name k = dc_name c) chains_in_table)
      in no_changes
       \<lparr>chains_to_add := map (\<lambda>c. (dt_name t, dt_family t, c)) (filter (\<lambda>c. current c = None) (dt_chains t)),
        chains_to_modify := map (\<lambda>c. (dt_name t, dt_family t, c))
          (filter (\<lambda>c. case current c of None \<Rightarrow> False | Some k \<Rightarrow> chain_has_drifted c k) (dt_chains t)),
        chains_to_delete := map (\<lambda>k. (dt_name t, dt_family t, ci_name k))
          (filter (\<lambda>k. ci_name k \<notin> set (map dc_name (dt_chains t))) chains_in_table)\<rparr>)"

text \<open>\<open>kernel_by_key\<close>: collecting into a hash map keeps the last rule of a comment.\<close>

definition kernel_by_key :: "rule_info list \<Rightarrow> string \<Rightarrow> rule_info option" where
  "kernel_by_key kernel_rules key = find (\<lambda>r. ri_comment r = Some key) (rev kernel_rules)"

definition rule_matches :: "endian \<Rightarrow> declared_rule \<Rightarrow> rule_info \<Rightarrow> bool" where
  "rule_matches e r kr =
     (normalize_tlv e (lower_to_expression_bytes e (ru_exprs (dr_body r))) = normalize_tlv e (ri_expression_bytes kr))"

definition chain_rule_changes :: "endian \<Rightarrow> declared_table \<Rightarrow> string \<Rightarrow> declared_rule list \<Rightarrow> rule_info list \<Rightarrow> nft_diff" where
  "chain_rule_changes e t chain_name declared_rules kernel_rules =
     no_changes
       \<lparr>rules_to_add := filter (\<lambda>r. case dr_key r of
            None \<Rightarrow> True | Some key \<Rightarrow> kernel_by_key kernel_rules key = None) declared_rules,
        rules_to_replace := List.map_filter (\<lambda>r. case dr_key r of
            None \<Rightarrow> None
          | Some key \<Rightarrow>
              (case kernel_by_key kernel_rules key of
                 None \<Rightarrow> None
               | Some kr \<Rightarrow> if rule_matches e r kr then None
                            else Some (dt_name t, dt_family t, chain_name, ri_handle kr, r))) declared_rules,
        rules_to_delete := map (\<lambda>kr. (dt_name t, dt_family t, chain_name, ri_handle kr))
          (filter (\<lambda>kr. case ri_comment kr of None \<Rightarrow> False
              | Some key \<Rightarrow> Some key \<notin> set (map dr_key declared_rules)) kernel_rules)\<rparr>"

text \<open>Pass 3: declared chains that declare no rule; the rules of a kernel chain nothing declares are left alone.\<close>

definition bare_chain_changes :: "declared_table \<Rightarrow> string \<Rightarrow> rule_info list \<Rightarrow> nft_diff" where
  "bare_chain_changes t chain_name kernel_rules =
     (if chain_name \<notin> set (map dc_name (dt_chains t)) then no_changes
      else no_changes
        \<lparr>rules_to_delete := map (\<lambda>kr. (dt_name t, dt_family t, chain_name, ri_handle kr))
           (filter (\<lambda>kr. ri_comment kr \<noteq> None) kernel_rules)\<rparr>)"

text \<open>
  The maps from a chain to its rules keep the order of the rules; \<open>ord t False\<close> is the order
  in which the map of the declared rules is walked, \<open>ord t True\<close> that of the kernel's.
\<close>

type_synonym hash_order = "declared_table \<Rightarrow> bool \<Rightarrow> string list \<Rightarrow> string list"

definition rule_changes :: "endian \<Rightarrow> hash_order \<Rightarrow> declared_table \<Rightarrow> rule_info list \<Rightarrow> nft_diff" where
  "rule_changes e ord t current_rules =
     (let declared_chains = map dr_chain (dt_rules t);
          kernel_in = (\<lambda>ch. filter (\<lambda>r. ri_chain r = ch) current_rules)
      in diff_join
        (foldr diff_join (map (\<lambda>ch. chain_rule_changes e t ch (filter (\<lambda>r. dr_chain r = ch) (dt_rules t)) (kernel_in ch))
           (ord t False (remdups declared_chains))) no_changes)
        (foldr diff_join (map (\<lambda>ch. if ch \<in> set declared_chains then no_changes
                                    else bare_chain_changes t ch (kernel_in ch))
           (ord t True (remdups (map ri_chain current_rules)))) no_changes))"

definition flowtable_changes :: "declared_table \<Rightarrow> flowtable list \<Rightarrow> nft_diff" where
  "flowtable_changes t fts_in_table =
     no_changes
       \<lparr>flowtables_to_add := filter (\<lambda>f. case find (\<lambda>k. ft_name k = df_name f) fts_in_table of
            None \<Rightarrow> True
          | Some current \<Rightarrow> df_devs f \<noteq> ft_devs current \<or> df_priority f \<noteq> ft_priority current
                            \<or> df_flags f \<noteq> ft_flags current) (dt_flowtables t),
        flowtables_to_delete := map (\<lambda>k. (dt_family t, dt_name t, ft_name k))
          (filter (\<lambda>k. ft_name k \<notin> set (map df_name (dt_flowtables t))) fts_in_table)\<rparr>"

definition element_changes :: "declared_table \<Rightarrow> declared_set \<Rightarrow> set_element list \<Rightarrow> nft_diff" where
  "element_changes t s current_elems =
     (let to_add = filter (\<lambda>x. x \<notin> set current_elems) (ds_elements s);
          to_remove = filter (\<lambda>x. x \<notin> set (ds_elements s)) current_elems
      in no_changes
        \<lparr>set_elements_to_add := (if to_add = [] then [] else [(dt_name t, dt_family t, ds_name s, to_add)]),
         set_elements_to_remove := (if to_remove = [] then [] else [(dt_name t, dt_family t, ds_name s, to_remove)])\<rparr>)"

definition new_set :: "declared_table \<Rightarrow> declared_set \<Rightarrow> nft_diff" where
  "new_set t s =
     no_changes\<lparr>sets_to_add := [(dt_name t, dt_family t, s)], set_elements_to_add := List.map_filter (whole_set t) [s]\<rparr>"

definition set_changes :: "nft_dumps \<Rightarrow> declared_table \<Rightarrow> set_info list \<Rightarrow> nft_diff nl_result" where
  "set_changes k t current_sets =
     dumped
       (join_each (\<lambda>s. if ds_name s \<in> set (map si_name current_sets)
          then dumped (nd_elements k (dt_name t) (ds_name s) (dt_family t)) (\<lambda>elems. Inr (element_changes t s elems))
          else Inr (new_set t s)) (dt_sets t))
       (\<lambda>d. Inr (diff_join d (no_changes
          \<lparr>sets_to_delete := map (\<lambda>c. (dt_name t, dt_family t, si_name c))
             (filter (\<lambda>c. si_name c \<notin> set (map ds_name (dt_sets t))) current_sets)\<rparr>)))"

definition declared_table_changes ::
    "endian \<Rightarrow> hash_order \<Rightarrow> nft_dumps \<Rightarrow> table_info list \<Rightarrow> chain_info list \<Rightarrow> flowtable list \<Rightarrow> declared_table \<Rightarrow>
     nft_diff nl_result" where
  "declared_table_changes e ord k current_tables all_chains all_flowtables t =
     (if table_of t current_tables = None then Inr (promoted t)
      else
        dumped (nd_rules k (dt_name t) (dt_family t)) (\<lambda>current_rules.
        dumped (nd_sets k (dt_name t) (dt_family t)) (\<lambda>current_sets.
        dumped (set_changes k t current_sets) (\<lambda>sets.
          Inr (diff_join
            (chain_changes t (filter (\<lambda>c. ci_family c = dt_family t \<and> ci_table c = dt_name t) all_chains))
            (diff_join (rule_changes e ord t current_rules)
              (diff_join
                (flowtable_changes t (filter (\<lambda>f. ft_family f = dt_family t \<and> ft_table f = dt_name t) all_flowtables))
                sets)))))))"

definition nft_diff_with_options :: "endian \<Rightarrow> hash_order \<Rightarrow> bool \<Rightarrow> nft_config \<Rightarrow> nft_dumps \<Rightarrow> nft_diff nl_result" where
  "nft_diff_with_options e ord purge_tables cfg k =
     dumped (nd_tables k) (\<lambda>current_tables.
     dumped (nd_chains k) (\<lambda>all_chains.
     dumped (nd_flowtables k) (\<lambda>all_flowtables.
     dumped (join_each (declared_table_changes e ord k current_tables all_chains all_flowtables) cfg) (\<lambda>d.
       Inr (diff_join (table_changes purge_tables cfg current_tables) d)))))"

definition nft_diff_of :: "endian \<Rightarrow> hash_order \<Rightarrow> nft_config \<Rightarrow> nft_dumps \<Rightarrow> nft_diff nl_result" where
  "nft_diff_of e ord cfg k = nft_diff_with_options e ord False cfg k"

end
