(* ===== verification/Nft_Tx.thy ===== *)
theory Nft_Tx
  imports Nft_Config
begin

text \<open>
  The messages of nftables (\<open>nftables/connection.rs\<close>): the transaction that collects them, the
  parsers of the dumps, and what connects the two - a change the differ asks for, read back
  from its own message, is what the differ compares with.
\<close>

section \<open>Transactions\<close>

definition nft_msg_type :: "u8 \<Rightarrow> u16" where
  "nft_msg_type m = push_bit 8 10 OR ucast m"

definition nf_gen_msg :: "nft_family \<Rightarrow> bytes" where
  "nf_gen_msg family = [nft_family_code family, 0, 0, 0]"

text \<open>The header, \<open>append(&nfgenmsg)\<close>, the attributes and \<open>finish()\<close>.\<close>

definition nft_message :: "endian \<Rightarrow> u8 \<Rightarrow> u16 \<Rightarrow> nft_family \<Rightarrow> call list \<Rightarrow> bytes" where
  "nft_message e m flags family cs =
     built (Option.bind (run_calls e (Struct (nf_gen_msg family) # cs) (mb_new e (nft_msg_type m) flags)) (mb_finish e))"

record transaction =
  tx_messages :: "bytes list"
  tx_set_id :: u32

definition tx_new :: transaction where
  "tx_new = \<lparr>tx_messages = [], tx_set_id = 1\<rparr>"

definition tx_push :: "bytes \<Rightarrow> transaction \<Rightarrow> transaction" where
  "tx_push msg tx = tx\<lparr>tx_messages := tx_messages tx @ [msg]\<rparr>"

abbreviation CREATE_EXCL :: u16 where
  "CREATE_EXCL \<equiv> NLM_F_REQUEST OR 0x400 OR 0x200"

definition tx_add_table :: "endian \<Rightarrow> string \<Rightarrow> nft_family \<Rightarrow> transaction \<Rightarrow> transaction" where
  "tx_add_table e name family = tx_push (nft_message e 0 CREATE_EXCL family [attr_str 1 name])"

definition tx_add_table_with_flags :: "endian \<Rightarrow> string \<Rightarrow> nft_family \<Rightarrow> u32 \<Rightarrow> transaction \<Rightarrow> transaction" where
  "tx_add_table_with_flags e name family flags =
     tx_push (nft_message e 0 CREATE_EXCL family
       (attr_str 1 name # (if flags \<noteq> 0 then [be32 2 flags] else [])))"

definition tx_del_table :: "endian \<Rightarrow> string \<Rightarrow> nft_family \<Rightarrow> transaction \<Rightarrow> transaction" where
  "tx_del_table e name family = tx_push (nft_message e 2 NLM_F_REQUEST family [attr_str 1 name])"

definition chain_calls :: "chain \<Rightarrow> call list" where
  "chain_calls c =
     [attr_str 1 (ch_table c), attr_str 3 (ch_name c)] @
     (case ch_type c of None \<Rightarrow> [] | Some t \<Rightarrow> [attr_str 7 (chain_type_str t)]) @
     (case ch_hook c of None \<Rightarrow> []
      | Some h \<Rightarrow> [nft_nest 4
          ([be32 1 (hook_code h),
            be32 2 (priority_code (case ch_priority c of None \<Rightarrow> PrioFilter | Some p \<Rightarrow> p))] @
           (case ch_device c of None \<Rightarrow> [] | Some dev \<Rightarrow> [attr_str 3 dev]))]) @
     (case ch_policy c of None \<Rightarrow> [] | Some p \<Rightarrow> [be32 5 (policy_code p)])"

definition tx_add_chain :: "endian \<Rightarrow> chain \<Rightarrow> transaction \<Rightarrow> transaction" where
  "tx_add_chain e c = tx_push (nft_message e 3 CREATE_EXCL (ch_family c) (chain_calls c))"

definition tx_del_chain :: "endian \<Rightarrow> string \<Rightarrow> string \<Rightarrow> nft_family \<Rightarrow> transaction \<Rightarrow> transaction" where
  "tx_del_chain e table name family =
     tx_push (nft_message e 5 NLM_F_REQUEST family [attr_str 1 table, attr_str 3 name])"

text \<open>The expressions and the comment; a comment that is too long is left out.\<close>

definition body_calls :: "rule \<Rightarrow> call list" where
  "body_calls r =
     (if ru_exprs r = [] then [] else [write_expressions (ru_exprs r)]) @
     (case Option.bind (ru_comment r) encode_nlink_comment of None \<Rightarrow> [] | Some udata \<Rightarrow> [Attr 7 udata])"

definition rule_calls :: "rule \<Rightarrow> call list" where
  "rule_calls r =
     [attr_str 1 (ru_table r), attr_str 2 (ru_chain r)] @
     (case ru_position r of None \<Rightarrow> [] | Some pos \<Rightarrow> [be64 6 pos]) @ body_calls r"

definition tx_add_rule :: "endian \<Rightarrow> rule \<Rightarrow> transaction \<Rightarrow> transaction" where
  "tx_add_rule e r = tx_push (nft_message e 6 (NLM_F_REQUEST OR 0x400 OR 0x800) (ru_family r) (rule_calls r))"

definition tx_replace_rule :: "endian \<Rightarrow> rule \<Rightarrow> u64 \<Rightarrow> transaction \<Rightarrow> transaction" where
  "tx_replace_rule e r handle =
     tx_push (nft_message e 6 (NLM_F_REQUEST OR 0x100) (ru_family r)
       ([attr_str 1 (ru_table r), attr_str 2 (ru_chain r), be64 3 handle] @ body_calls r))"

definition tx_del_rule :: "endian \<Rightarrow> string \<Rightarrow> string \<Rightarrow> nft_family \<Rightarrow> u64 \<Rightarrow> transaction \<Rightarrow> transaction" where
  "tx_del_rule e table ch family handle =
     tx_push (nft_message e 8 NLM_F_REQUEST family [attr_str 1 table, attr_str 2 ch, be64 3 handle])"

definition flowtable_calls :: "flowtable \<Rightarrow> call list" where
  "flowtable_calls ft =
     [attr_str 1 (ft_table ft), attr_str 2 (ft_name ft),
      nft_nest 3 ([be32 1 (0 :: u32), be32 2 (ft_priority ft)] @
        (if ft_devs ft = [] then [] else [nft_nest 3 (map (\<lambda>dev. nft_nest 1 [attr_str 1 dev]) (ft_devs ft))]))] @
     (if ft_flags ft \<noteq> 0 then [be32 7 (ft_flags ft)] else [])"

definition tx_add_flowtable :: "endian \<Rightarrow> flowtable \<Rightarrow> transaction \<Rightarrow> transaction" where
  "tx_add_flowtable e ft = tx_push (nft_message e 22 CREATE_EXCL (ft_family ft) (flowtable_calls ft))"

definition tx_del_flowtable :: "endian \<Rightarrow> nft_family \<Rightarrow> string \<Rightarrow> string \<Rightarrow> transaction \<Rightarrow> transaction" where
  "tx_del_flowtable e family table name =
     tx_push (nft_message e 24 NLM_F_REQUEST family [attr_str 1 table, attr_str 2 name])"

definition tx_add_set :: "endian \<Rightarrow> nft_set \<Rightarrow> transaction \<Rightarrow> transaction" where
  "tx_add_set e s tx =
     tx_push (nft_message e 9 CREATE_EXCL (st_family s)
       [attr_str 1 (st_table s), attr_str 2 (st_name s), be32 4 (key_type_id (st_key_type s)),
        be32 5 (of_nat (key_len (st_key_type s))), be32 3 (st_flags s), be32 10 (tx_set_id tx)])
     (tx\<lparr>tx_set_id := tx_set_id tx + 1\<rparr>)"

definition tx_del_set :: "endian \<Rightarrow> string \<Rightarrow> string \<Rightarrow> nft_family \<Rightarrow> transaction \<Rightarrow> transaction" where
  "tx_del_set e table name family =
     tx_push (nft_message e 11 NLM_F_REQUEST family [attr_str 1 table, attr_str 2 name])"

definition element_calls :: "string \<Rightarrow> string \<Rightarrow> set_element list \<Rightarrow> call list" where
  "element_calls table s elements =
     [attr_str 1 table, attr_str 2 s, nft_nest 3 (map (\<lambda>x. nft_nest 1 [nft_nest 1 [Attr 1 x]]) elements)]"

definition tx_add_set_elements ::
    "endian \<Rightarrow> string \<Rightarrow> string \<Rightarrow> nft_family \<Rightarrow> set_element list \<Rightarrow> transaction \<Rightarrow> transaction" where
  "tx_add_set_elements e table s family elements =
     tx_push (nft_message e 12 (NLM_F_REQUEST OR 0x400) family (element_calls table s elements))"

definition tx_del_set_elements ::
    "endian \<Rightarrow> string \<Rightarrow> string \<Rightarrow> nft_family \<Rightarrow> set_element list \<Rightarrow> transaction \<Rightarrow> transaction" where
  "tx_del_set_elements e table s family elements =
     tx_push (nft_message e 14 NLM_F_REQUEST family (element_calls table s elements))"

section \<open>Parsers\<close>

text \<open>\<open>attr_str\<close> of the parsers: only trailing NULs are cut, and an empty or malformed text is none.\<close>

definition nft_text :: "bytes \<Rightarrow> string option" where
  "nft_text payload =
     (if payload = [] then None
      else (case trim_end_nul (case from_utf8 payload of Some s \<Rightarrow> s | None \<Rightarrow> []) of [] \<Rightarrow> None | s \<Rightarrow> Some s))"

definition nft_text_or_empty :: "bytes \<Rightarrow> string" where
  "nft_text_or_empty payload = (case nft_text payload of None \<Rightarrow> [] | Some s \<Rightarrow> s)"

text \<open>
  The iterator hands out types without their two flag bits, so \<open>attr_type & 0x7FFF\<close> changes nothing.
  Arms with a guard on the length read a fixed prefix; an arm that fails ends the function.
\<close>

definition parse_table :: "endian \<Rightarrow> bytes \<Rightarrow> nft_family \<Rightarrow> table_info option" where
  "parse_table e data family =
     Option.bind (attr_scan e (\<lambda>k d t.
         if k = 1 then map_option (\<lambda>s. t\<lparr>ti_name := s\<rparr>) (nft_text d)
         else if k = 2 \<and> 4 \<le> length d then Some (t\<lparr>ti_flags := be_word (take 4 d)\<rparr>)
         else if k = 3 \<and> 4 \<le> length d then Some (t\<lparr>ti_use_count := be_word (take 4 d)\<rparr>)
         else if k = 4 \<and> 8 \<le> length d then Some (t\<lparr>ti_handle := be_word (take 8 d)\<rparr>)
         else Some t) data
         \<lparr>ti_name = [], ti_family = family, ti_flags = 0, ti_use_count = 0, ti_handle = 0\<rparr>)
       (\<lambda>t. if ti_name t = [] then None else Some t)"

definition hook_attr :: "u16 \<Rightarrow> bytes \<Rightarrow> chain_info \<Rightarrow> chain_info" where
  "hook_attr k d c =
     (if k = 1 \<and> 4 \<le> length d then c\<lparr>ci_hook := Some (be_word (take 4 d))\<rparr>
      else if k = 2 \<and> 4 \<le> length d then c\<lparr>ci_priority := Some (be_word (take 4 d))\<rparr>
      else if k = 3 then c\<lparr>ci_device := nft_text d\<rparr>
      else c)"

definition chain_attr :: "endian \<Rightarrow> u16 \<Rightarrow> bytes \<Rightarrow> chain_info \<Rightarrow> chain_info" where
  "chain_attr e k d c =
     (if k = 1 then c\<lparr>ci_table := nft_text_or_empty d\<rparr>
      else if k = 3 then c\<lparr>ci_name := nft_text_or_empty d\<rparr>
      else if k = 2 \<and> 8 \<le> length d then c\<lparr>ci_handle := be_word (take 8 d)\<rparr>
      else if k = 4 then fold (\<lambda>(k, d). hook_attr k d) (attrs_of e d) c
      else if k = 5 \<and> 4 \<le> length d then c\<lparr>ci_policy := Some (be_word (take 4 d))\<rparr>
      else if k = 7 then c\<lparr>ci_type := Option.bind (nft_text d) chain_type_from\<rparr>
      else c)"

definition parse_chain :: "endian \<Rightarrow> bytes \<Rightarrow> nft_family \<Rightarrow> chain_info option" where
  "parse_chain e data family =
     (let c = fold (\<lambda>(k, d). chain_attr e k d) (attrs_of e data)
          \<lparr>ci_table = [], ci_name = [], ci_family = family, ci_hook = None, ci_priority = None, ci_type = None,
           ci_device = None, ci_policy = None, ci_handle = 0\<rparr>
      in if ci_name c = [] then None else Some c)"

definition rule_attr :: "u16 \<Rightarrow> bytes \<Rightarrow> rule_info \<Rightarrow> rule_info" where
  "rule_attr k d r =
     (if k = 1 then r\<lparr>ri_table := nft_text_or_empty d\<rparr>
      else if k = 2 then r\<lparr>ri_chain := nft_text_or_empty d\<rparr>
      else if k = 3 \<and> 8 \<le> length d then r\<lparr>ri_handle := be_word (take 8 d)\<rparr>
      else if k = 6 \<and> 8 \<le> length d then r\<lparr>ri_position := Some (be_word (take 8 d))\<rparr>
      else if k = 4 then r\<lparr>ri_expression_bytes := d\<rparr>
      else if k = 7 then r\<lparr>ri_userdata_raw := Some d, ri_comment := parse_nlink_comment d\<rparr>
      else r)"

definition rule_info_new :: "nft_family \<Rightarrow> rule_info" where
  "rule_info_new family =
     \<lparr>ri_table = [], ri_chain = [], ri_family = family, ri_handle = 0, ri_position = None, ri_comment = None,
      ri_userdata_raw = None, ri_expression_bytes = []\<rparr>"

definition parse_rule :: "endian \<Rightarrow> bytes \<Rightarrow> nft_family \<Rightarrow> rule_info option" where
  "parse_rule e data family =
     (let r = fold (\<lambda>(k, d). rule_attr k d) (attrs_of e data) (rule_info_new family)
      in if ri_table r = [] then None else Some r)"

definition set_attr :: "u16 \<Rightarrow> bytes \<Rightarrow> set_info \<Rightarrow> set_info" where
  "set_attr k d s =
     (if k = 1 then s\<lparr>si_table := nft_text_or_empty d\<rparr>
      else if k = 2 then s\<lparr>si_name := nft_text_or_empty d\<rparr>
      else if k = 3 \<and> 4 \<le> length d then s\<lparr>si_flags := be_word (take 4 d)\<rparr>
      else if k = 4 \<and> 4 \<le> length d then s\<lparr>si_key_type := be_word (take 4 d)\<rparr>
      else if k = 5 \<and> 4 \<le> length d then s\<lparr>si_key_len := be_word (take 4 d)\<rparr>
      else if k = 16 \<and> 8 \<le> length d then s\<lparr>si_handle := be_word (take 8 d)\<rparr>
      else s)"

definition parse_set :: "endian \<Rightarrow> bytes \<Rightarrow> nft_family \<Rightarrow> set_info option" where
  "parse_set e data family =
     (let s = fold (\<lambda>(k, d). set_attr k d) (attrs_of e data)
          \<lparr>si_table = [], si_name = [], si_family = family, si_flags = 0, si_key_type = 0, si_key_len = 0, si_handle = 0\<rparr>
      in if si_name s = [] then None else Some s)"

text \<open>The first value inside a key attribute of the element; a key attribute without one is passed over.\<close>

definition parse_set_elem_key :: "endian \<Rightarrow> bytes \<Rightarrow> bytes option" where
  "parse_set_elem_key e elem =
     (case List.map_filter (\<lambda>(k, d). if k = 1 then map_option snd (find (\<lambda>(k, d). k = 1) (attrs_of e d)) else None)
        (attrs_of e elem) of
        [] \<Rightarrow> None
      | key # keys \<Rightarrow> Some key)"

definition parse_set_elements :: "endian \<Rightarrow> bytes \<Rightarrow> set_element list" where
  "parse_set_elements e data =
     concat (map (\<lambda>(k, d). if k \<noteq> 3 then []
       else List.map_filter (\<lambda>(k, d). if k \<noteq> 1 then None else parse_set_elem_key e d) (attrs_of e d)) (attrs_of e data))"

definition flowtable_devs :: "endian \<Rightarrow> bytes \<Rightarrow> string list" where
  "flowtable_devs e data =
     concat (map (\<lambda>(k, elem). List.map_filter (\<lambda>(k, d). if k = 1 then nft_text d else None) (attrs_of e elem))
       (attrs_of e data))"

definition flowtable_hook_attr :: "endian \<Rightarrow> u16 \<Rightarrow> bytes \<Rightarrow> flowtable \<Rightarrow> flowtable" where
  "flowtable_hook_attr e k d ft =
     (if k = 2 \<and> 4 \<le> length d then ft\<lparr>ft_priority := be_word (take 4 d)\<rparr>
      else if k = 3 then ft\<lparr>ft_devs := ft_devs ft @ flowtable_devs e d\<rparr>
      else ft)"

definition parse_flowtable :: "endian \<Rightarrow> bytes \<Rightarrow> nft_family \<Rightarrow> flowtable option" where
  "parse_flowtable e data family =
     Option.bind (attr_scan e (\<lambda>k d ft.
         if k = 1 then map_option (\<lambda>s. ft\<lparr>ft_table := s\<rparr>) (nft_text d)
         else if k = 2 then map_option (\<lambda>s. ft\<lparr>ft_name := s\<rparr>) (nft_text d)
         else if k = 4 \<and> 4 \<le> length d then Some (ft\<lparr>ft_use_count := be_word (take 4 d)\<rparr>)
         else if k = 5 \<and> 8 \<le> length d then Some (ft\<lparr>ft_handle := be_word (take 8 d)\<rparr>)
         else if k = 7 \<and> 4 \<le> length d then Some (ft\<lparr>ft_flags := be_word (take 4 d)\<rparr>)
         else if k = 3 then Some (fold (\<lambda>(k, d). flowtable_hook_attr e k d) (attrs_of e d) ft)
         else Some ft) data (flowtable_new family [] []))
       (\<lambda>ft. if ft_name ft = [] then None else Some ft)"

section \<open>Reading a request back\<close>

text \<open>What follows the two headers of a message.\<close>

lemma nft_message_body:
  assumes "list_all (call_fits e) cs"
  shows "drop 20 (nft_message e m flags family cs) = wire_calls e cs"
    "length (nft_message e m flags family cs) = 20 + length (wire_calls e cs)"
proof -
  let ?b = "mb_new e (nft_msg_type m) flags" and ?cs = "Struct (nf_gen_msg family) # cs"
  have buf: "length (mb_buf ?b) = 16" by (simp add: mb_new_def)
  have "run_calls e ?cs ?b = Some (?b\<lparr>mb_buf := mb_buf ?b @ wire_calls e ?cs\<rparr>)"
    by (rule run_wire(2)) (use assms buf in simp_all)
  moreover have "wire_calls e ?cs = nf_gen_msg family @ wire_calls e cs"
    by (simp add: nf_gen_msg_def attr_pad_def nla_align_def)
  moreover have "length (nf_gen_msg family) = 4" by (simp add: nf_gen_msg_def)
  ultimately show "drop 20 (nft_message e m flags family cs) = wire_calls e cs"
    "length (nft_message e m flags family cs) = 20 + length (wire_calls e cs)"
    using buf by (simp_all add: nft_message_def mb_finish_def patch_def built_def)
qed

definition nft_name_ok :: "string \<Rightarrow> bool" where
  "nft_name_ok s = (s \<noteq> [] \<and> text_ok 255 s)"

lemma nul_free: "0 \<notin> set (bytes_of_str s) \<Longrightarrow> CHR 0x00 \<notin> set s"
proof
  assume "0 \<notin> set (bytes_of_str s)" "CHR 0x00 \<in> set s"
  moreover from this(2) have "char_byte CHR 0x00 \<in> set (bytes_of_str s)" by (simp add: bytes_of_str_def)
  ultimately show False by (simp add: char_byte_def)
qed

lemma nft_text_back: "nft_name_ok s \<Longrightarrow> nft_text (bytes_of_str s @ [0]) = Some s"
proof -
  assume ok: "nft_name_ok s"
  then have "utf8_valid (bytes_of_str s @ [0])" by (simp add: nft_name_ok_def text_ok_def utf8_valid_append utf8_valid_ascii)
  moreover have "str_of_bytes (bytes_of_str s @ [0]) = s @ [CHR 0x00]"
    by (simp add: str_of_bytes_append str_of_bytes_def[of "[0]"] byte_char_def char_of_def)
  moreover have "trim_end_nul (s @ [CHR 0x00]) = s"
    using ok nul_free[of s] by (intro trim_end_nul_append) (auto simp: nft_name_ok_def text_ok_def dest: last_in_set)
  moreover have "s \<noteq> []" using ok by (simp add: nft_name_ok_def)
  ultimately show ?thesis
    by (simp add: nft_text_def from_utf8_def split: list.split)
qed

lemma nft_text_or_empty_back [simp]: "nft_name_ok s \<Longrightarrow> nft_text_or_empty (bytes_of_str s @ [0]) = s"
  by (simp add: nft_text_or_empty_def nft_text_back)

lemma name_fits [simp]: "nft_name_ok s \<Longrightarrow> length s \<le> 65530"
  by (simp add: nft_name_ok_def text_ok_def)

lemma nft_name_bytes [simp]: "length (bytes_of_str s) = length s"
  by (simp add: bytes_of_str_def)

section \<open>Rules\<close>

definition read_comment :: "string option \<Rightarrow> string option" where
  "read_comment comment = (case comment of None \<Rightarrow> None | Some key \<Rightarrow> if length key \<le> 121 then Some key else None)"

definition comment_ok :: "string \<Rightarrow> bool" where
  "comment_ok key = (utf8_valid (bytes_of_str key) \<and> (key = [] \<or> List.last key \<noteq> CHR 0x00))"

definition rule_ok :: "endian \<Rightarrow> rule \<Rightarrow> bool" where
  "rule_ok e r =
     (nft_name_ok (ru_table r) \<and> nft_name_ok (ru_chain r) \<and> call_fits e (write_expressions (ru_exprs r)) \<and>
      pred_option comment_ok (ru_comment r))"

lemma comment_cases:
  assumes "pred_option comment_ok c"
  shows "(Option.bind c encode_nlink_comment = None \<and> read_comment c = None) \<or>
    (\<exists>u. Option.bind c encode_nlink_comment = Some u \<and> length u \<le> 130 \<and> parse_nlink_comment u = read_comment c)"
proof (cases c)
  case (Some key)
  show ?thesis
  proof (cases "length key \<le> 121")
    case True
    then have "key_ok key" using assms Some by (simp add: key_ok_def comment_ok_def)
    from comment_back[OF this] show ?thesis using Some True by (auto simp: read_comment_def)
  next
    case False
    then show ?thesis using Some encode_long[of key] by (simp add: read_comment_def)
  qed
qed (simp add: read_comment_def)

lemma write_expressions_item:
  "call_item e (write_expressions xs) = (4, wire_calls e (map write_expr xs))" "is_attr (write_expressions xs)"
  by (simp_all add: write_expressions_def type_mask)

text \<open>The attributes a rule body adds to what is known of the rule.\<close>

lemma body_back:
  assumes "rule_ok e r"
  shows "list_all (call_fits e) (body_calls r)" "list_all is_attr (body_calls r)"
    "ri_expression_bytes i = [] \<Longrightarrow> ri_comment i = None \<Longrightarrow>
     (let i' = fold (\<lambda>c. case call_item e c of (k, d) \<Rightarrow> rule_attr k d) (body_calls r) i
      in ri_expression_bytes i' = lower_to_expression_bytes e (ru_exprs r) \<and> ri_comment i' = read_comment (ru_comment r) \<and>
         ri_table i' = ri_table i \<and> ri_chain i' = ri_chain i \<and> ri_family i' = ri_family i \<and> ri_handle i' = ri_handle i \<and>
         ri_position i' = ri_position i)"
proof -
  have fits: "call_fits e (write_expressions (ru_exprs r))" and c: "pred_option comment_ok (ru_comment r)"
    using assms by (simp_all add: rule_ok_def)
  note lower = lower_wire[OF fits]
  show "list_all (call_fits e) (body_calls r)"
    using comment_cases[OF c] fits by (auto simp: body_calls_def)
  show "list_all is_attr (body_calls r)"
    by (simp add: body_calls_def write_expressions_item split: option.split)
  show "ri_expression_bytes i = [] \<Longrightarrow> ri_comment i = None \<Longrightarrow>
     (let i' = fold (\<lambda>c. case call_item e c of (k, d) \<Rightarrow> rule_attr k d) (body_calls r) i
      in ri_expression_bytes i' = lower_to_expression_bytes e (ru_exprs r) \<and> ri_comment i' = read_comment (ru_comment r) \<and>
         ri_table i' = ri_table i \<and> ri_chain i' = ri_chain i \<and> ri_family i' = ri_family i \<and> ri_handle i' = ri_handle i \<and>
         ri_position i' = ri_position i)"
    using comment_cases[OF c]
    by (auto simp: body_calls_def lower rule_attr_def type_mask Let_def write_expressions_item simp del: map_map)
qed

lemma rule_back:
  assumes "rule_ok e r"
  shows "\<exists>kr. parse_rule e (drop 20 (nft_message e m flags family (rule_calls r))) f = Some kr \<and>
    ri_table kr = ru_table r \<and> ri_chain kr = ru_chain r \<and> ri_family kr = f \<and>
    ri_expression_bytes kr = lower_to_expression_bytes e (ru_exprs r) \<and> ri_comment kr = read_comment (ru_comment r)"
proof -
  have names: "nft_name_ok (ru_table r)" "nft_name_ok (ru_chain r)" using assms by (simp_all add: rule_ok_def)
  let ?head = "[attr_str 1 (ru_table r), attr_str 2 (ru_chain r)] @
    (case ru_position r of None \<Rightarrow> [] | Some pos \<Rightarrow> [be64 6 pos])"
  have fits: "list_all (call_fits e) (rule_calls r)" "list_all is_attr (rule_calls r)"
    using body_back(1,2)[OF assms] names by (auto simp: rule_calls_def split: option.split)
  define i where "i = fold (\<lambda>c. case call_item e c of (k, d) \<Rightarrow> rule_attr k d) ?head (rule_info_new f)"
  have i: "ri_expression_bytes i = []" "ri_comment i = None" "ri_table i = ru_table r" "ri_chain i = ru_chain r"
    "ri_family i = f"
    using names by (auto simp: i_def rule_info_new_def rule_attr_def type_mask split: option.split)
  have "fold (\<lambda>c. case call_item e c of (k, d) \<Rightarrow> rule_attr k d) (rule_calls r) (rule_info_new f) =
      fold (\<lambda>c. case call_item e c of (k, d) \<Rightarrow> rule_attr k d) (body_calls r) i"
    unfolding rule_calls_def i_def by simp
  with body_back(3)[OF assms i(1,2)] i names(1) show ?thesis
    unfolding nft_message_body(1)[OF fits(1)] parse_rule_def fold_calls[OF fits] by (auto simp: Let_def nft_name_ok_def)
qed

end
