(* ===== verification/Nft_Diff_Spec.thy ===== *)
theory Nft_Diff_Spec
  imports Nft_Config
begin

text \<open>
  What the differ of nftables promises: what it compares when it finds nothing to change, when that
  means that the kernel holds what is declared, and that what it removes is in declared tables and, for
  rules, carries a key of the library.
\<close>

section \<open>What the differ compares\<close>

fun rows :: "'a list nl_result \<Rightarrow> 'a list" where
  "rows (Inr xs) = xs"
| "rows (Inl err) = []"

definition table_in_force :: "table_info list \<Rightarrow> declared_table \<Rightarrow> bool" where
  "table_in_force current t = (\<exists>c. table_of t current = Some c \<and> ti_flags c = dt_flags t)"

definition chains_in_force :: "chain_info list \<Rightarrow> declared_table \<Rightarrow> bool" where
  "chains_in_force current t =
     ((\<forall>c\<in>set (dt_chains t). \<exists>k. find (\<lambda>k. ci_name k = dc_name c) current = Some k \<and> \<not> chain_has_drifted c k) \<and>
      ci_name ` set current \<subseteq> dc_name ` set (dt_chains t))"

definition rules_in_force :: "endian \<Rightarrow> rule_info list \<Rightarrow> declared_table \<Rightarrow> bool" where
  "rules_in_force e current t =
     ((\<forall>r\<in>set (dt_rules t). \<exists>key kr. dr_key r = Some key \<and>
         kernel_by_key (filter (\<lambda>k. ri_chain k = dr_chain r) current) key = Some kr \<and> rule_matches e r kr) \<and>
      (\<forall>kr\<in>set current. ri_comment kr \<noteq> None \<longrightarrow>
         ri_chain kr \<in> dr_chain ` set (dt_rules t) \<union> dc_name ` set (dt_chains t) \<longrightarrow>
         (\<exists>r\<in>set (dt_rules t). dr_chain r = ri_chain kr \<and> dr_key r = ri_comment kr)))"

definition flowtables_in_force :: "flowtable list \<Rightarrow> declared_table \<Rightarrow> bool" where
  "flowtables_in_force current t =
     ((\<forall>f\<in>set (dt_flowtables t). \<exists>k. find (\<lambda>k. ft_name k = df_name f) current = Some k \<and>
         ft_devs k = df_devs f \<and> ft_priority k = df_priority f \<and> ft_flags k = df_flags f) \<and>
      ft_name ` set current \<subseteq> df_name ` set (dt_flowtables t))"

definition sets_in_force :: "(string \<Rightarrow> set_element list) \<Rightarrow> set_info list \<Rightarrow> declared_table \<Rightarrow> bool" where
  "sets_in_force elements current t =
     (si_name ` set current = ds_name ` set (dt_sets t) \<and>
      (\<forall>s\<in>set (dt_sets t). set (elements (ds_name s)) = set (ds_elements s)))"

definition in_force :: "endian \<Rightarrow> nft_dumps \<Rightarrow> declared_table \<Rightarrow> bool" where
  "in_force e k t =
     (table_in_force (rows (nd_tables k)) t \<and>
      chains_in_force (filter (\<lambda>c. ci_family c = dt_family t \<and> ci_table c = dt_name t) (rows (nd_chains k))) t \<and>
      rules_in_force e (rows (nd_rules k (dt_name t) (dt_family t))) t \<and>
      flowtables_in_force (filter (\<lambda>f. ft_family f = dt_family t \<and> ft_table f = dt_name t) (rows (nd_flowtables k))) t \<and>
      sets_in_force (\<lambda>s. rows (nd_elements k (dt_name t) s (dt_family t)))
        (rows (nd_sets k (dt_name t) (dt_family t))) t)"

definition nft_satisfied :: "endian \<Rightarrow> bool \<Rightarrow> nft_config \<Rightarrow> nft_dumps \<Rightarrow> bool" where
  "nft_satisfied e purge cfg k =
     (list_all (in_force e k) cfg \<and>
      (purge \<longrightarrow> (\<lambda>c. (ti_family c, ti_name c)) ` set (rows (nd_tables k)) \<subseteq> (\<lambda>t. (dt_family t, dt_name t)) ` set cfg))"

text \<open>A hash map is walked over its keys, in some order.\<close>

definition walks_keys :: "hash_order \<Rightarrow> bool" where
  "walks_keys ord = (\<forall>t b ks. set (ord t b ks) = set ks)"

section \<open>Empty contributions\<close>

lemma dumped_Inr: "(dumped r f = Inr y) = (\<exists>x. r = Inr x \<and> f x = Inr y)"
  by (cases r) (simp_all add: dumped_def)

lemma empty_join [simp]: "nft_diff_is_empty (diff_join a b) = (nft_diff_is_empty a \<and> nft_diff_is_empty b)"
  by (auto simp: nft_diff_is_empty_def diff_join_def)

lemma empty_none [simp]: "nft_diff_is_empty no_changes"
  by (simp add: nft_diff_is_empty_def no_changes_def)

lemma empty_foldr: "nft_diff_is_empty (foldr diff_join ds no_changes) = list_all nft_diff_is_empty ds"
  by (induction ds) simp_all

lemma empty_each: "join_each f xs = Inr d \<Longrightarrow> nft_diff_is_empty d = list_all (\<lambda>x. \<forall>y. f x = Inr y \<longrightarrow> nft_diff_is_empty y) xs"
  by (induction xs arbitrary: d) (auto simp: dumped_Inr)

lemma each_Inr: "join_each f xs = Inr d \<Longrightarrow> x \<in> set xs \<Longrightarrow> \<exists>y. f x = Inr y"
  by (induction xs arbitrary: d) (auto simp: dumped_Inr)

lemma map_filter_empty: "(List.map_filter f xs = []) = (\<forall>x\<in>set xs. f x = None)"
  by (auto simp: map_filter_def filter_empty_conv)

lemma empty_tables:
  "nft_diff_is_empty (table_changes purge cfg current) =
     (list_all (table_in_force current) cfg \<and>
      (purge \<longrightarrow> (\<lambda>c. (ti_family c, ti_name c)) ` set current \<subseteq> (\<lambda>t. (dt_family t, dt_name t)) ` set cfg))"
proof -
  have "list_all (table_in_force current) cfg =
      ((\<forall>t\<in>set cfg. table_of t current \<noteq> None) \<and>
       (\<forall>t\<in>set cfg. (case table_of t current of None \<Rightarrow> None
          | Some c \<Rightarrow> if ti_flags c \<noteq> dt_flags t then Some (dt_family t, dt_name t, dt_flags t) else None) = None))"
    unfolding list_all_iff ball_conj_distrib[symmetric]
    by (intro ball_cong refl) (auto simp: table_in_force_def split: option.split)
  then show ?thesis
    by (simp add: nft_diff_is_empty_def table_changes_def no_changes_def map_filter_empty filter_empty_conv image_subset_iff)
qed

lemma empty_chains: "nft_diff_is_empty (chain_changes t current) = chains_in_force current t"
  by (auto simp: nft_diff_is_empty_def chain_changes_def no_changes_def filter_empty_conv chains_in_force_def Let_def
      split: option.splits)

lemma empty_flowtables: "nft_diff_is_empty (flowtable_changes t current) = flowtables_in_force current t"
  by (auto simp: nft_diff_is_empty_def flowtable_changes_def no_changes_def filter_empty_conv flowtables_in_force_def
      split: option.splits)

lemma empty_elements: "nft_diff_is_empty (element_changes t s elems) = (set elems = set (ds_elements s))"
  by (auto simp: nft_diff_is_empty_def element_changes_def no_changes_def filter_empty_conv Let_def split: if_splits)

lemma empty_new_set [simp]: "\<not> nft_diff_is_empty (new_set t s)"
  by (simp add: nft_diff_is_empty_def new_set_def no_changes_def)

lemma empty_chain_rules:
  "nft_diff_is_empty (chain_rule_changes e t ch declared krs) =
     ((\<forall>r\<in>set declared. \<exists>key kr. dr_key r = Some key \<and> kernel_by_key krs key = Some kr \<and> rule_matches e r kr) \<and>
      (\<forall>kr\<in>set krs. ri_comment kr \<noteq> None \<longrightarrow> ri_comment kr \<in> dr_key ` set declared))"
proof -
  have "(\<forall>r\<in>set declared. \<exists>key kr. dr_key r = Some key \<and> kernel_by_key krs key = Some kr \<and> rule_matches e r kr) =
      ((\<forall>r\<in>set declared. \<not> (case dr_key r of None \<Rightarrow> True | Some key \<Rightarrow> kernel_by_key krs key = None)) \<and>
       (\<forall>r\<in>set declared. (case dr_key r of None \<Rightarrow> None | Some key \<Rightarrow>
          (case kernel_by_key krs key of None \<Rightarrow> None
           | Some kr \<Rightarrow> if rule_matches e r kr then None else Some (dt_name t, dt_family t, ch, ri_handle kr, r))) = None))"
    unfolding ball_conj_distrib[symmetric] by (intro ball_cong refl) (auto split: option.split)
  moreover have "(\<forall>kr\<in>set krs. ri_comment kr \<noteq> None \<longrightarrow> ri_comment kr \<in> dr_key ` set declared) =
      (\<forall>kr\<in>set krs. \<not> (case ri_comment kr of None \<Rightarrow> False | Some key \<Rightarrow> Some key \<notin> set (map dr_key declared)))"
    by (intro ball_cong refl) (auto split: option.split)
  ultimately show ?thesis
    by (simp add: nft_diff_is_empty_def chain_rule_changes_def no_changes_def map_filter_empty filter_empty_conv conj_ac)
qed

lemma empty_bare_chain:
  "nft_diff_is_empty (bare_chain_changes t ch krs) =
     (ch \<in> dc_name ` set (dt_chains t) \<longrightarrow> (\<forall>kr\<in>set krs. ri_comment kr = None))"
  by (auto simp: nft_diff_is_empty_def bare_chain_changes_def no_changes_def filter_empty_conv)

lemma grouped: "(\<forall>ch\<in>D. \<forall>x\<in>set (filter (\<lambda>x. f x = ch) xs). P ch x) = (\<forall>x\<in>set xs. f x \<in> D \<longrightarrow> P (f x) x)"
  by auto

lemma grouped_all: "(\<forall>ch\<in>f ` set xs. \<forall>x\<in>set (filter (\<lambda>x. f x = ch) xs). P ch x) = (\<forall>x\<in>set xs. P (f x) x)"
  by auto

lemma empty_rules:
  assumes "walks_keys ord"
  shows "nft_diff_is_empty (rule_changes e ord t current) = rules_in_force e current t"
proof -
  let ?in = "\<lambda>ch. filter (\<lambda>k. ri_chain k = ch) current" and ?of = "\<lambda>ch. filter (\<lambda>r. dr_chain r = ch) (dt_rules t)"
  let ?dcl = "dr_chain ` set (dt_rules t)" and ?chs = "dc_name ` set (dt_chains t)"
  let ?kept = "\<lambda>r. \<exists>key kr. dr_key r = Some key \<and> kernel_by_key (?in (dr_chain r)) key = Some kr \<and> rule_matches e r kr"
  let ?named = "\<lambda>kr. ri_chain kr \<in> ?dcl \<longrightarrow> ri_comment kr \<noteq> None \<longrightarrow> ri_comment kr \<in> dr_key ` set (?of (ri_chain kr))"
  let ?bare = "\<lambda>kr. ri_chain kr \<notin> ?dcl \<longrightarrow> ri_chain kr \<in> ?chs \<longrightarrow> ri_comment kr = None"
  have keys: "set (ord t b ks) = set ks" for b ks using assms by (simp add: walks_keys_def)
  have "nft_diff_is_empty (rule_changes e ord t current) =
      ((\<forall>ch\<in>?dcl. nft_diff_is_empty (chain_rule_changes e t ch (?of ch) (?in ch))) \<and>
       (\<forall>ch\<in>ri_chain ` set current. ch \<notin> ?dcl \<longrightarrow> nft_diff_is_empty (bare_chain_changes t ch (?in ch))))"
    by (auto simp: rule_changes_def Let_def empty_foldr list_all_iff keys)
  also have "\<dots> = ((\<forall>r\<in>set (dt_rules t). ?kept r) \<and> (\<forall>kr\<in>set current. ?named kr) \<and> (\<forall>kr\<in>set current. ?bare kr))"
  proof -
    have "(\<forall>ch\<in>ri_chain ` set current. ch \<notin> ?dcl \<longrightarrow> nft_diff_is_empty (bare_chain_changes t ch (?in ch))) =
        (\<forall>ch\<in>ri_chain ` set current. \<forall>kr\<in>set (?in ch). ch \<notin> ?dcl \<longrightarrow> ch \<in> ?chs \<longrightarrow> ri_comment kr = None)"
      by (intro ball_cong refl) (simp only: empty_bare_chain, blast)
    then show ?thesis
      unfolding empty_chain_rules ball_conj_distrib grouped_all grouped by simp
  qed
  also have "\<dots> = ((\<forall>r\<in>set (dt_rules t). ?kept r) \<and> (\<forall>kr\<in>set current. ?named kr \<and> ?bare kr))"
    by auto
  also have "(\<forall>kr\<in>set current. ?named kr \<and> ?bare kr) = (\<forall>kr\<in>set current. ri_comment kr \<noteq> None \<longrightarrow> ri_chain kr \<in> ?dcl \<union> ?chs \<longrightarrow>
      (\<exists>r\<in>set (dt_rules t). dr_chain r = ri_chain kr \<and> dr_key r = ri_comment kr))"
    by (intro ball_cong refl) (auto simp: image_iff)
  also have "((\<forall>r\<in>set (dt_rules t). ?kept r) \<and> \<dots>) = rules_in_force e current t" by (simp add: rules_in_force_def)
  finally show ?thesis .
qed

lemma empty_sets:
  assumes "set_changes k t current = Inr d"
  shows "nft_diff_is_empty d =
    sets_in_force (\<lambda>s. rows (nd_elements k (dt_name t) s (dt_family t))) current t"
proof -
  let ?each = "\<lambda>s. if ds_name s \<in> set (map si_name current)
      then dumped (nd_elements k (dt_name t) (ds_name s) (dt_family t)) (\<lambda>elems. Inr (element_changes t s elems))
      else Inr (new_set t s)"
  let ?del = "no_changes\<lparr>sets_to_delete := map (\<lambda>c. (dt_name t, dt_family t, si_name c))
      (filter (\<lambda>c. si_name c \<notin> set (map ds_name (dt_sets t))) current)\<rparr>"
  obtain ds where ds: "join_each ?each (dt_sets t) = Inr ds" "d = diff_join ds ?del"
    using assms by (auto simp: set_changes_def dumped_Inr)
  have "(\<forall>y. ?each s = Inr y \<longrightarrow> nft_diff_is_empty y) =
      (ds_name s \<in> si_name ` set current \<and> set (rows (nd_elements k (dt_name t) (ds_name s) (dt_family t))) = set (ds_elements s))"
    if "s \<in> set (dt_sets t)" for s
    using each_Inr[OF ds(1) that] by (auto simp: dumped_Inr empty_elements split: if_splits)
  then have "nft_diff_is_empty ds = (\<forall>s\<in>set (dt_sets t). ds_name s \<in> si_name ` set current \<and>
      set (rows (nd_elements k (dt_name t) (ds_name s) (dt_family t))) = set (ds_elements s))"
    by (simp add: empty_each[OF ds(1)] list_all_iff)
  moreover have "nft_diff_is_empty ?del = (si_name ` set current \<subseteq> ds_name ` set (dt_sets t))"
    by (auto simp: nft_diff_is_empty_def no_changes_def filter_empty_conv)
  ultimately show ?thesis unfolding ds(2) empty_join sets_in_force_def by auto
qed

section \<open>The diff is empty exactly when everything declared is in force\<close>

lemma empty_table:
  assumes "walks_keys ord" "nd_tables k = Inr ts" "nd_chains k = Inr cs" "nd_flowtables k = Inr fs"
    and "declared_table_changes e ord k ts cs fs t = Inr d" "table_in_force ts t"
  shows "nft_diff_is_empty d = in_force e k t"
proof -
  have "table_of t ts \<noteq> None" using assms(6) by (auto simp: table_in_force_def)
  then obtain rs ss sets where
    calls: "nd_rules k (dt_name t) (dt_family t) = Inr rs" "nd_sets k (dt_name t) (dt_family t) = Inr ss"
      "set_changes k t ss = Inr sets"
    and d: "d = diff_join (chain_changes t (filter (\<lambda>c. ci_family c = dt_family t \<and> ci_table c = dt_name t) cs))
      (diff_join (rule_changes e ord t rs)
        (diff_join (flowtable_changes t (filter (\<lambda>f. ft_family f = dt_family t \<and> ft_table f = dt_name t) fs)) sets))"
    using assms(5) by (auto simp: declared_table_changes_def dumped_Inr)
  show ?thesis
    unfolding d in_force_def empty_join empty_chains empty_flowtables empty_rules[OF assms(1)] empty_sets[OF calls(3)]
    by (simp add: assms(2-4,6) calls)
qed

lemma empty_nft_diff:
  assumes "walks_keys ord" "nft_diff_with_options e ord purge cfg k = Inr d"
  shows "nft_diff_is_empty d = nft_satisfied e purge cfg k"
proof -
  obtain ts cs fs ds where calls: "nd_tables k = Inr ts" "nd_chains k = Inr cs" "nd_flowtables k = Inr fs"
    and ds: "join_each (declared_table_changes e ord k ts cs fs) cfg = Inr ds"
    and d: "d = diff_join (table_changes purge cfg ts) ds"
    using assms(2) by (auto simp: nft_diff_with_options_def dumped_Inr)
  have "(\<forall>y. declared_table_changes e ord k ts cs fs t = Inr y \<longrightarrow> nft_diff_is_empty y) = in_force e k t"
    if "t \<in> set cfg" "table_in_force ts t" for t
    using each_Inr[OF ds that(1)] empty_table[OF assms(1) calls _ that(2), of e] by auto
  moreover have "in_force e k t \<Longrightarrow> table_in_force ts t" for t by (simp add: in_force_def calls)
  ultimately have "(list_all (table_in_force ts) cfg \<and> nft_diff_is_empty ds) = list_all (in_force e k) cfg"
    unfolding empty_each[OF ds] list_all_iff by blast
  then show ?thesis
    unfolding d empty_join empty_tables nft_satisfied_def by (auto simp: calls)
qed

section \<open>When everything declared is there\<close>

text \<open>
  The differ compares less than what is declared, and asks for more: the key type and the flags of a set it has by name
  are not looked at, of several rules with one key only the last is, and a declared rule without a key is
  never found.  What follows is the whole of a declaration.
\<close>

definition rules_held :: "endian \<Rightarrow> rule_info list \<Rightarrow> declared_table \<Rightarrow> bool" where
  "rules_held e current t =
     ((\<forall>r\<in>set (dt_rules t). \<exists>kr\<in>set current. ri_chain kr = dr_chain r \<and> rule_matches e r kr \<and>
         (dr_key r \<noteq> None \<longrightarrow> ri_comment kr = dr_key r)) \<and>
      (\<forall>kr\<in>set current. ri_comment kr \<noteq> None \<longrightarrow>
         ri_chain kr \<in> dr_chain ` set (dt_rules t) \<union> dc_name ` set (dt_chains t) \<longrightarrow>
         (\<exists>r\<in>set (dt_rules t). dr_chain r = ri_chain kr \<and> dr_key r = ri_comment kr \<and> rule_matches e r kr)))"

definition sets_held :: "(string \<Rightarrow> set_element list) \<Rightarrow> set_info list \<Rightarrow> declared_table \<Rightarrow> bool" where
  "sets_held elements current t =
     ((\<forall>s\<in>set (dt_sets t). (\<exists>c\<in>set current. si_name c = ds_name s \<and>
         si_key_type c = key_type_id (ds_key_type s) \<and> si_flags c = ds_flags s) \<and>
         set (elements (ds_name s)) = set (ds_elements s)) \<and>
      si_name ` set current \<subseteq> ds_name ` set (dt_sets t))"

definition held :: "endian \<Rightarrow> nft_dumps \<Rightarrow> declared_table \<Rightarrow> bool" where
  "held e k t =
     (table_in_force (rows (nd_tables k)) t \<and>
      chains_in_force (filter (\<lambda>c. ci_family c = dt_family t \<and> ci_table c = dt_name t) (rows (nd_chains k))) t \<and>
      rules_held e (rows (nd_rules k (dt_name t) (dt_family t))) t \<and>
      flowtables_in_force (filter (\<lambda>f. ft_family f = dt_family t \<and> ft_table f = dt_name t) (rows (nd_flowtables k))) t \<and>
      sets_held (\<lambda>s. rows (nd_elements k (dt_name t) s (dt_family t)))
        (rows (nd_sets k (dt_name t) (dt_family t))) t)"

definition nft_held :: "endian \<Rightarrow> bool \<Rightarrow> nft_config \<Rightarrow> nft_dumps \<Rightarrow> bool" where
  "nft_held e purge cfg k =
     (list_all (held e k) cfg \<and>
      (purge \<longrightarrow> (\<lambda>c. (ti_family c, ti_name c)) ` set (rows (nd_tables k)) \<subseteq> (\<lambda>t. (dt_family t, dt_name t)) ` set cfg))"

text \<open>None of the three.\<close>

definition table_sighted :: "nft_dumps \<Rightarrow> declared_table \<Rightarrow> bool" where
  "table_sighted k t =
     ((\<forall>r\<in>set (dt_rules t). dr_key r \<noteq> None) \<and>
      (let krs = rows (nd_rules k (dt_name t) (dt_family t)) in \<forall>kr\<in>set krs. \<forall>kr'\<in>set krs.
         ri_comment kr \<noteq> None \<longrightarrow> ri_comment kr' = ri_comment kr \<longrightarrow> ri_chain kr' = ri_chain kr \<longrightarrow> kr' = kr) \<and>
      (\<forall>s\<in>set (dt_sets t). \<forall>c\<in>set (rows (nd_sets k (dt_name t) (dt_family t))). si_name c = ds_name s \<longrightarrow>
         si_key_type c = key_type_id (ds_key_type s) \<and> si_flags c = ds_flags s))"

lemma kernel_by_key_unique:
  assumes "\<forall>kr\<in>set krs. \<forall>kr'\<in>set krs. ri_comment kr = Some key \<longrightarrow> ri_comment kr' = Some key \<longrightarrow> kr' = kr"
  shows "kernel_by_key krs key = Some kr \<longleftrightarrow> kr \<in> set krs \<and> ri_comment kr = Some key"
proof
  assume kr: "kr \<in> set krs \<and> ri_comment kr = Some key"
  then obtain kr' where kr': "kernel_by_key krs key = Some kr'"
    by (cases "kernel_by_key krs key") (auto simp: kernel_by_key_def find_None_iff)
  with find_hit[of _ "rev krs" kr'] have "kr' \<in> set krs \<and> ri_comment kr' = Some key" by (auto simp: kernel_by_key_def)
  with kr assms have "kr' = kr" by blast
  with kr' show "kernel_by_key krs key = Some kr" by simp
qed (auto simp: kernel_by_key_def dest!: find_hit)

lemma rules_held_iff:
  assumes "\<forall>r\<in>set (dt_rules t). dr_key r \<noteq> None"
    and "\<forall>kr\<in>set krs. \<forall>kr'\<in>set krs. ri_comment kr \<noteq> None \<longrightarrow> ri_comment kr' = ri_comment kr \<longrightarrow>
      ri_chain kr' = ri_chain kr \<longrightarrow> kr' = kr"
  shows "rules_in_force e krs t = rules_held e krs t"
proof -
  have found: "kernel_by_key (filter (\<lambda>k. ri_chain k = ch) krs) key = Some kr \<longleftrightarrow>
      kr \<in> set krs \<and> ri_chain kr = ch \<and> ri_comment kr = Some key" for ch key kr
    using assms(2) by (subst kernel_by_key_unique) auto
  have rule: "(\<exists>key kr. dr_key r = Some key \<and>
        kernel_by_key (filter (\<lambda>k. ri_chain k = dr_chain r) krs) key = Some kr \<and> rule_matches e r kr) \<longleftrightarrow>
      (\<exists>kr\<in>set krs. ri_chain kr = dr_chain r \<and> rule_matches e r kr \<and> (dr_key r \<noteq> None \<longrightarrow> ri_comment kr = dr_key r))"
    if r: "r \<in> set (dt_rules t)" for r
  proof -
    obtain key where key: "dr_key r = Some key" using assms(1) r by blast
    have pick: "(\<exists>k kr. Some key = Some k \<and> P k kr) = (\<exists>kr. P key kr)" for P :: "string \<Rightarrow> rule_info \<Rightarrow> bool"
      by simp
    show ?thesis unfolding found key pick Bex_def by (simp only: option.distinct simp_thms conj_ac)
  qed
  show ?thesis
  proof
    assume force: "rules_in_force e krs t"
    have "rule_matches e r kr" if r: "r \<in> set (dt_rules t)" and kr: "kr \<in> set krs" "ri_comment kr \<noteq> None"
      "dr_chain r = ri_chain kr" "dr_key r = ri_comment kr" for r kr
    proof -
      obtain key kr' where "dr_key r = Some key" "kr' \<in> set krs" "ri_chain kr' = dr_chain r" "ri_comment kr' = Some key"
          "rule_matches e r kr'"
        using force r unfolding rules_in_force_def found by blast
      moreover from this have "kr' = kr" using assms(2) kr by (metis option.distinct(1))
      ultimately show ?thesis by simp
    qed
    with force show "rules_held e krs t" unfolding rules_in_force_def rules_held_def using rule by blast
  next
    assume "rules_held e krs t"
    then show "rules_in_force e krs t" unfolding rules_in_force_def rules_held_def using rule by blast
  qed
qed

lemma held_iff: "table_sighted k t \<Longrightarrow> in_force e k t = held e k t"
proof -
  assume sight: "table_sighted k t"
  then have "rules_in_force e (rows (nd_rules k (dt_name t) (dt_family t))) t =
      rules_held e (rows (nd_rules k (dt_name t) (dt_family t))) t"
    by (intro rules_held_iff) (simp_all add: table_sighted_def Let_def)
  moreover have "sets_in_force elements (rows (nd_sets k (dt_name t) (dt_family t))) t =
      sets_held elements (rows (nd_sets k (dt_name t) (dt_family t))) t" for elements
  proof -
    let ?S = "rows (nd_sets k (dt_name t) (dt_family t))"
    have "(\<exists>c\<in>set ?S. si_name c = ds_name s \<and> si_key_type c = key_type_id (ds_key_type s) \<and> si_flags c = ds_flags s) \<longleftrightarrow>
        ds_name s \<in> si_name ` set ?S" if "s \<in> set (dt_sets t)" for s
      using sight that unfolding table_sighted_def image_iff by metis
    then show ?thesis unfolding sets_in_force_def sets_held_def by auto
  qed
  ultimately show ?thesis by (simp add: in_force_def held_def)
qed


section \<open>What a diff removes\<close>

text \<open>The deletions of every part, by the table they name.\<close>

definition deleted_tables :: "nft_diff \<Rightarrow> (nft_family \<times> string) set" where
  "deleted_tables d =
     (\<lambda>(tbl, fam, n). (fam, tbl)) ` set (chains_to_delete d) \<union> (\<lambda>(tbl, fam, ch, h). (fam, tbl)) ` set (rules_to_delete d) \<union>
     (\<lambda>(tbl, fam, ch, h, r). (fam, tbl)) ` set (rules_to_replace d) \<union>
     (\<lambda>(fam, tbl, n). (fam, tbl)) ` set (flowtables_to_delete d) \<union>
     (\<lambda>(tbl, fam, n). (fam, tbl)) ` set (sets_to_delete d) \<union>
     (\<lambda>(tbl, fam, s, es). (fam, tbl)) ` set (set_elements_to_remove d)"

text \<open>A rule is only deleted or replaced if its comment is a key of the library.\<close>

definition own_rules :: "nft_dumps \<Rightarrow> nft_diff \<Rightarrow> bool" where
  "own_rules k d =
     ((\<forall>(tbl, fam, ch, h)\<in>set (rules_to_delete d). \<exists>kr\<in>set (rows (nd_rules k tbl fam)).
         ri_chain kr = ch \<and> ri_handle kr = h \<and> ri_comment kr \<noteq> None) \<and>
      (\<forall>(tbl, fam, ch, h, r)\<in>set (rules_to_replace d). \<exists>kr\<in>set (rows (nd_rules k tbl fam)).
         ri_chain kr = ch \<and> ri_handle kr = h \<and> ri_comment kr = dr_key r \<and> dr_key r \<noteq> None))"

lemma removes_none [simp]:
  "deleted_tables no_changes = {}" "own_rules k no_changes" "tables_to_delete no_changes = []"
  by (simp_all add: deleted_tables_def own_rules_def no_changes_def)

lemma removes_join [simp]:
  "deleted_tables (diff_join a b) = deleted_tables a \<union> deleted_tables b"
  "own_rules k (diff_join a b) = (own_rules k a \<and> own_rules k b)"
  "tables_to_delete (diff_join a b) = tables_to_delete a @ tables_to_delete b"
proof -
  show "deleted_tables (diff_join a b) = deleted_tables a \<union> deleted_tables b"
    by (simp add: deleted_tables_def diff_join_def image_Un Un_ac)
qed (auto simp: own_rules_def diff_join_def ball_Un)

text \<open>The property of a contribution: it stays within the table, and removes rules of the library only.\<close>

definition within :: "nft_dumps \<Rightarrow> declared_table \<Rightarrow> nft_diff \<Rightarrow> bool" where
  "within k t d = (deleted_tables d \<subseteq> {(dt_family t, dt_name t)} \<and> own_rules k d \<and> tables_to_delete d = [])"

lemma within_join [simp]: "within k t (diff_join a b) = (within k t a \<and> within k t b)"
  by (auto simp: within_def)

lemma within_none [simp]: "within k t no_changes"
  by (simp add: within_def)

lemma within_foldr: "\<forall>d\<in>set ds. within k t d \<Longrightarrow> within k t (foldr diff_join ds no_changes)"
  by (induction ds) simp_all

lemma within_each: "join_each f xs = Inr d \<Longrightarrow> (\<And>x y. x \<in> set xs \<Longrightarrow> f x = Inr y \<Longrightarrow> within k t y) \<Longrightarrow> within k t d"
proof (induction xs arbitrary: d)
  case (Cons x xs)
  then obtain a b where "f x = Inr a" "join_each f xs = Inr b" "d = diff_join a b" by (auto simp: dumped_Inr)
  moreover have "within k t b" by (rule Cons.IH[OF \<open>join_each f xs = Inr b\<close>]) (rule Cons.prems(2), auto)
  moreover have "within k t a" by (rule Cons.prems(2)[of x]) (use \<open>f x = Inr a\<close> in auto)
  ultimately show ?case by simp
qed simp

lemma within_plain:
  "within k t (promoted t)" "within k t (chain_changes t cs)" "within k t (flowtable_changes t fs)"
  "within k t (element_changes t s es)" "within k t (new_set t s)"
  by (auto simp: within_def deleted_tables_def own_rules_def no_changes_def promoted_def chain_changes_def
      flowtable_changes_def element_changes_def new_set_def Let_def)

lemma map_filterE: "y \<in> set (List.map_filter f xs) \<Longrightarrow> (\<And>x. x \<in> set xs \<Longrightarrow> f x = Some y \<Longrightarrow> P) \<Longrightarrow> P"
  by (auto simp: map_filter_def)

lemma kernel_by_key_Some: "kernel_by_key krs key = Some kr \<Longrightarrow> kr \<in> set krs \<and> ri_comment kr = Some key"
  using find_hit[of _ "rev krs" kr] by (auto simp: kernel_by_key_def)

lemma within_chain_rules:
  assumes "nd_rules k (dt_name t) (dt_family t) = Inr rs"
  shows "within k t (chain_rule_changes e t ch rules (filter (\<lambda>r. ri_chain r = ch) rs))"
proof -
  let ?d = "chain_rule_changes e t ch rules (filter (\<lambda>r. ri_chain r = ch) rs)"
  have del: "\<exists>kr\<in>set rs. x = (dt_name t, dt_family t, ch, ri_handle kr) \<and> ri_chain kr = ch \<and> ri_comment kr \<noteq> None"
    if "x \<in> set (rules_to_delete ?d)" for x
    using that by (auto simp: chain_rule_changes_def no_changes_def split: option.splits)
  have rep: "\<exists>kr\<in>set rs. \<exists>r. x = (dt_name t, dt_family t, ch, ri_handle kr, r) \<and> ri_chain kr = ch \<and>
      ri_comment kr = dr_key r \<and> dr_key r \<noteq> None"
    if "x \<in> set (rules_to_replace ?d)" for x
    using that by (fastforce simp: chain_rule_changes_def no_changes_def elim!: map_filterE split: option.splits if_splits
        dest!: kernel_by_key_Some)
  have none: "tables_to_delete ?d = []" "chains_to_delete ?d = []" "flowtables_to_delete ?d = []" "sets_to_delete ?d = []"
    "set_elements_to_remove ?d = []"
    by (simp_all add: chain_rule_changes_def no_changes_def)
  have "deleted_tables ?d \<subseteq> {(dt_family t, dt_name t)}"
    unfolding deleted_tables_def none by (auto dest!: del rep)
  moreover have "own_rules k ?d"
    unfolding own_rules_def by (force simp: assms dest!: del rep)
  ultimately show ?thesis by (simp add: within_def none)
qed

lemma within_bare_chain:
  assumes "nd_rules k (dt_name t) (dt_family t) = Inr rs"
  shows "within k t (bare_chain_changes t ch (filter (\<lambda>r. ri_chain r = ch) rs))"
  by (auto simp: within_def deleted_tables_def own_rules_def no_changes_def bare_chain_changes_def assms)

lemma within_rules:
  assumes "nd_rules k (dt_name t) (dt_family t) = Inr rs"
  shows "within k t (rule_changes e ord t rs)"
  unfolding rule_changes_def Let_def within_join
  by (auto intro!: within_foldr within_chain_rules[OF assms] within_bare_chain[OF assms])

lemma within_sets: "set_changes k t ss = Inr d \<Longrightarrow> within k t d"
proof -
  assume "set_changes k t ss = Inr d"
  then obtain ds where each: "join_each (\<lambda>s. if ds_name s \<in> set (map si_name ss)
        then dumped (nd_elements k (dt_name t) (ds_name s) (dt_family t)) (\<lambda>elems. Inr (element_changes t s elems))
        else Inr (new_set t s)) (dt_sets t) = Inr ds"
    and d: "d = diff_join ds (no_changes\<lparr>sets_to_delete := map (\<lambda>c. (dt_name t, dt_family t, si_name c))
        (filter (\<lambda>c. si_name c \<notin> set (map ds_name (dt_sets t))) ss)\<rparr>)"
    by (auto simp: set_changes_def dumped_Inr)
  have "within k t ds" by (rule within_each[OF each]) (auto simp: dumped_Inr within_plain split: if_splits)
  then show "within k t d" unfolding d within_join
    by (auto simp: within_def deleted_tables_def own_rules_def no_changes_def)
qed

lemma within_table: "declared_table_changes e ord k ts cs fs t = Inr d \<Longrightarrow> within k t d"
  by (auto simp: declared_table_changes_def dumped_Inr within_plain within_rules within_sets split: if_splits)

lemma each_within:
  "join_each f cfg = Inr d \<Longrightarrow> (\<And>t y. f t = Inr y \<Longrightarrow> within k t y) \<Longrightarrow>
   deleted_tables d \<subseteq> (\<lambda>t. (dt_family t, dt_name t)) ` set cfg \<and> own_rules k d \<and> tables_to_delete d = []"
proof (induction cfg arbitrary: d)
  case (Cons t cfg)
  then obtain a b where "f t = Inr a" "join_each f cfg = Inr b" "d = diff_join a b" by (auto simp: dumped_Inr)
  with Cons.IH[OF this(2) Cons.prems(2)] Cons.prems(2)[of t a] show ?case by (auto simp: within_def)
qed simp

text \<open>
  C23. A diff without the purge option never deletes a table, and whatever it deletes, replaces or empties is in a
  table the configuration declares; every rule it deletes or replaces is one of the kernel whose comment is
  a key of the library, and a replaced rule has the key of its declaration: the rules of others stay.
\<close>

theorem nft_diff_removes_only_own:
  assumes "nft_diff_of e ord cfg k = Inr d"
  shows "tables_to_delete d = [] \<and> deleted_tables d \<subseteq> (\<lambda>t. (dt_family t, dt_name t)) ` set cfg \<and> own_rules k d"
proof -
  obtain ts cs fs ds where ds: "join_each (declared_table_changes e ord k ts cs fs) cfg = Inr ds"
    and d: "d = diff_join (table_changes False cfg ts) ds"
    using assms by (auto simp: nft_diff_of_def nft_diff_with_options_def dumped_Inr)
  have "tables_to_delete (table_changes False cfg ts) = []" "deleted_tables (table_changes False cfg ts) = {}"
    "own_rules k (table_changes False cfg ts)"
    by (simp_all add: table_changes_def no_changes_def deleted_tables_def own_rules_def)
  with each_within[OF ds within_table] show ?thesis by (simp add: d)
qed

text \<open>
  Of several rules of a chain that carry the same key, the differ looks at the last one only: the other copies
  are neither deleted nor replaced, whatever their expressions are.
\<close>

theorem nft_copies_of_a_key_stay:
  assumes "distinct (map ri_handle krs)" "kr \<in> set krs" "ri_comment kr = Some key" "Some key \<in> dr_key ` set rules"
    and "kernel_by_key krs key \<noteq> Some kr" "d = chain_rule_changes e t ch rules krs"
  shows "ri_handle kr \<notin> (\<lambda>(tbl, fam, ch, h). h) ` set (rules_to_delete d) \<union>
    (\<lambda>(tbl, fam, ch, h, r). h) ` set (rules_to_replace d)"
proof -
  have same: "kr' = kr" if "kr' \<in> set krs" "ri_handle kr' = ri_handle kr" for kr'
    using assms(1,2) that by (auto simp: distinct_map dest: inj_onD)
  have "ri_handle kr \<notin> (\<lambda>(tbl, fam, ch, h). h) ` set (rules_to_delete d)"
    using assms(3,4,6) by (auto simp: chain_rule_changes_def no_changes_def dest!: same split: option.splits)
  moreover have "ri_handle kr \<notin> (\<lambda>(tbl, fam, ch, h, r). h) ` set (rules_to_replace d)"
  proof
    assume "ri_handle kr \<in> (\<lambda>(tbl, fam, ch, h, r). h) ` set (rules_to_replace d)"
    then obtain r key' kr' where "kernel_by_key krs key' = Some kr'" "ri_handle kr' = ri_handle kr"
      using assms(6) by (auto simp: chain_rule_changes_def no_changes_def elim!: map_filterE split: option.splits if_splits)
    then show False using kernel_by_key_Some[of krs key' kr'] same[of kr'] assms(3,5) by auto
  qed
  ultimately show ?thesis by blast
qed

section \<open>An example\<close>

text \<open>
  A table with a chain and a keyed rule; the kernel has the table, a rule of another tool, which stays, and one of
  a key that is no longer declared.
\<close>

definition demo_config :: nft_config where
  "demo_config = config_table ''fw'' Inet (\<lambda>t. table_rule_keyed ''in'' ''ssh'' rule_accept (table_chain ''in'' id t)) []"

definition demo_rule :: "u64 \<Rightarrow> string option \<Rightarrow> rule_info" where
  "demo_rule h comment =
     \<lparr>ri_table = ''fw'', ri_chain = ''in'', ri_family = Inet, ri_handle = h, ri_position = None, ri_comment = comment,
      ri_userdata_raw = None, ri_expression_bytes = []\<rparr>"

definition demo_dumps :: nft_dumps where
  "demo_dumps =
     \<lparr>nd_tables = Inr [\<lparr>ti_name = ''fw'', ti_family = Inet, ti_flags = 0, ti_use_count = 1, ti_handle = 1\<rparr>],
      nd_chains = Inr [\<lparr>ci_table = ''fw'', ci_name = ''in'', ci_family = Inet, ci_hook = None, ci_priority = None,
        ci_type = None, ci_device = None, ci_policy = None, ci_handle = 2\<rparr>],
      nd_flowtables = Inr [], nd_rules = (\<lambda>_ _. Inr [demo_rule 3 None, demo_rule 4 (Some ''telnet'')]),
      nd_sets = (\<lambda>_ _. Inr []), nd_elements = (\<lambda>_ _ _. Inr [])\<rparr>"

definition key_order :: hash_order where
  "key_order t b ks = ks"

lemmas demo_defs = demo_config_def demo_dumps_def demo_rule_def key_order_def config_table_def declared_table_new_def
  table_rule_keyed_def add_declared_rule_def rule_new_def rule_accept_def push_def table_chain_def declared_chain_new_def

lemma demo_diff:
  "nft_diff_of e key_order demo_config demo_dumps = Inr (no_changes
     \<lparr>rules_to_add := dt_rules (hd demo_config), rules_to_delete := [(''fw'', Inet, ''in'', 4)]\<rparr>)"
  by (simp add: demo_defs nft_diff_of_def nft_diff_with_options_def dumped_def declared_table_changes_def table_of_def
      set_changes_def table_changes_def chain_changes_def rule_changes_def flowtable_changes_def chain_rule_changes_def
      kernel_by_key_def diff_join_def no_changes_def chain_has_drifted_def drifted_def Let_def map_filter_simps)


theorem nft_diff_removes_only_own_witness:
  "\<forall>e. own_rules demo_dumps (no_changes\<lparr>rules_to_add := dt_rules (hd demo_config),
     rules_to_delete := [(''fw'', Inet, ''in'', 4)]\<rparr>)"
  using nft_diff_removes_only_own[OF demo_diff] by blast

theorem nft_copies_of_a_key_stay_witness:
  "\<forall>e t. 3 \<notin> (\<lambda>(tbl, fam, ch, h). h) ` set (rules_to_delete (chain_rule_changes e t ''in''
       (dt_rules (hd demo_config)) [demo_rule 3 (Some ''ssh''), demo_rule 4 (Some ''ssh'')]))"
proof (intro allI)
  fix e t
  show "3 \<notin> (\<lambda>(tbl, fam, ch, h). h) ` set (rules_to_delete (chain_rule_changes e t ''in''
       (dt_rules (hd demo_config)) [demo_rule 3 (Some ''ssh''), demo_rule 4 (Some ''ssh'')]))"
    using nft_copies_of_a_key_stay[of "[demo_rule 3 (Some ''ssh''), demo_rule 4 (Some ''ssh'')]" "demo_rule 3 (Some ''ssh'')"
        "''ssh''" "dt_rules (hd demo_config)" _ e t "''in''", OF _ _ _ _ _ refl]
    by (simp add: demo_defs kernel_by_key_def)
qed

end
