(* ===== verification/Nft_Settle.thy ===== *)
theory Nft_Settle
  imports Nft_Tx Nft_Diff_Spec
begin

text \<open>
  Does an application settle?  The requests of \<open>NftablesDiff::apply\<close> for a declared rule, chain,
  flowtable or set, read back with the parsers of the dumps, against the comparison of the next diff.
\<close>

section \<open>What apply makes of a declaration\<close>

text \<open>The key becomes the comment, unless the body has a comment of its own.\<close>

definition keyed_body :: "declared_rule \<Rightarrow> rule" where
  "keyed_body r =
     (case dr_key r of
        None \<Rightarrow> dr_body r
      | Some key \<Rightarrow> if ru_comment (dr_body r) = None then (dr_body r)\<lparr>ru_comment := Some key\<rparr> else dr_body r)"

definition build_chain :: "string \<Rightarrow> nft_family \<Rightarrow> declared_chain \<Rightarrow> chain nl_result" where
  "build_chain table family declared =
     dumped (chain_new table (dc_name declared)) (\<lambda>c.
       Inr (c\<lparr>ch_family := family, ch_hook := dc_hook declared, ch_priority := dc_priority declared,
              ch_policy := dc_policy declared, ch_type := dc_type declared, ch_device := dc_device declared\<rparr>))"

definition build_set :: "string \<Rightarrow> nft_family \<Rightarrow> declared_set \<Rightarrow> nft_set" where
  "build_set table family declared =
     \<lparr>st_table = table, st_name = ds_name declared, st_family = family, st_key_type = ds_key_type declared,
      st_flags = ds_flags declared\<rparr>"

definition build_flowtable :: "declared_flowtable \<Rightarrow> flowtable" where
  "build_flowtable f =
     (let ft = (flowtable_new (df_family f) (df_table f) (df_name f))\<lparr>ft_priority := df_priority f\<rparr>;
          ft = foldl (\<lambda>ft dev. ft_device dev ft) ft (df_devs f);
          ft = (if df_flags f AND 1 \<noteq> 0 then ft_hw_offload True ft else ft)
      in if df_flags f AND 2 \<noteq> 0 then ft_counter True ft else ft)"

section \<open>Rules\<close>

lemma rule_matches_lower:
  "ri_expression_bytes kr = lower_to_expression_bytes e (ru_exprs (dr_body r)) \<Longrightarrow> rule_matches e r kr"
  by (simp add: rule_matches_def)

lemma one_rule_settles:
  "nft_diff_is_empty (chain_rule_changes e t ch [r] [kr]) =
     (\<exists>key. dr_key r = Some key \<and> ri_comment kr = Some key \<and> rule_matches e r kr)"
  by (auto simp: empty_chain_rules kernel_by_key_def)

lemma last_pushed [simp]: "List.last (tx_messages (tx_push msg tx)) = msg"
  by (simp add: tx_push_def)

lemma keyed_exprs [simp]: "ru_exprs (keyed_body r) = ru_exprs (dr_body r)" "ru_chain (keyed_body r) = ru_chain (dr_body r)"
  "ru_table (keyed_body r) = ru_table (dr_body r)"
  by (auto simp: keyed_body_def split: option.split)

text \<open>
  C27. The rule an application adds, read back from its own request as the dump would report it, leaves nothing
  to change exactly if it has a key of at most 121 bytes and its body no other comment: a longer key is
  dropped from the request without an error, a comment of the body replaces the key, and both rules are added again
  by every run.
\<close>

theorem added_rule_settles_iff:
  assumes "rule_ok e (keyed_body r)"
  shows "\<exists>kr. parse_rule e (drop 20 (List.last (tx_messages (tx_add_rule e (keyed_body r) tx)))) family = Some kr \<and>
    ri_chain kr = ru_chain (dr_body r) \<and>
    nft_diff_is_empty (chain_rule_changes e t (ri_chain kr) [r] [kr]) =
      (\<exists>key. dr_key r = Some key \<and> length key \<le> 121 \<and> (ru_comment (dr_body r) = None \<or> ru_comment (dr_body r) = Some key))"
proof -
  obtain kr where kr: "parse_rule e (drop 20 (List.last (tx_messages (tx_add_rule e (keyed_body r) tx)))) family = Some kr"
      "ri_chain kr = ru_chain (dr_body r)"
      "ri_expression_bytes kr = lower_to_expression_bytes e (ru_exprs (dr_body r))"
      "ri_comment kr = read_comment (ru_comment (keyed_body r))"
    using rule_back[OF assms] by (simp add: tx_add_rule_def) blast
  have "(ri_comment kr = Some key) = (length key \<le> 121 \<and>
      (ru_comment (dr_body r) = None \<or> ru_comment (dr_body r) = Some key))" if "dr_key r = Some key" for key
    using that by (auto simp: kr(4) read_comment_def keyed_body_def split: option.splits if_splits)
  then show ?thesis
    using kr(1,2) rule_matches_lower[OF kr(3)] by (intro exI[of _ kr]) (auto simp: one_rule_settles)
qed

definition ssh_rule :: "string \<Rightarrow> declared_rule" where
  "ssh_rule key = \<lparr>dr_table = ''fw'', dr_chain = ''in'', dr_family = Inet, dr_key = Some key,
     dr_body = rule_accept (match_tcp_dport 22 ((rule_new ''fw'' ''in'')\<lparr>ru_family := Inet\<rparr>))\<rparr>"

lemmas ascii_text = text_ok_def bytes_of_str_def char_byte_def utf8_valid_ascii

lemma ssh_rule_sel:
  "dr_key (ssh_rule key) = Some key" "ru_comment (dr_body (ssh_rule key)) = None"
  "ru_table (dr_body (ssh_rule key)) = ''fw''" "ru_chain (dr_body (ssh_rule key)) = ''in''"
  by (simp_all add: ssh_rule_def rule_accept_def match_tcp_dport_def push_meta_eq_def push_def rule_new_def)

lemma ssh_rule_exprs:
  "ru_exprs (dr_body (ssh_rule key)) =
     [Meta R0 L4Proto, Cmp R0 Eq [6], Payload R0 Transport 2 2, Cmp R0 Eq (be_bytes 2 (22 :: u16)), Verdict Accept]"
  by (simp add: ssh_rule_def rule_accept_def match_tcp_dport_def push_meta_eq_def push_def rule_new_def)

lemma ssh_rule_ok: "rule_ok e (keyed_body (ssh_rule (replicate n CHR ''x'')))"
proof -
  let ?key = "replicate n CHR ''x''"
  have "utf8_valid (bytes_of_str ?key)" by (rule utf8_valid_ascii) (simp add: bytes_of_str_def char_byte_def)
  then have "comment_ok ?key" using last_replicate[of n "CHR ''x''"] by (cases "n = 0") (simp_all add: comment_ok_def)
  moreover have "call_fits e (write_expressions (ru_exprs (dr_body (ssh_rule ?key))))"
    by (simp add: ssh_rule_exprs write_expressions_def write_expr_def expr_elem_def verdict_data_def bytes_of_str_def
        length_attr_wire nla_align_def)
  moreover have "nft_name_ok ''fw''" "nft_name_ok ''in''" by (simp_all add: nft_name_ok_def ascii_text)
  ultimately show ?thesis by (simp add: rule_ok_def keyed_body_def ssh_rule_sel)
qed

theorem added_rule_settles_iff_witness:
  "\<forall>e t n. \<exists>kr. parse_rule e (drop 20 (List.last (tx_messages (tx_add_rule e (keyed_body (ssh_rule (replicate n CHR ''x''))) tx_new)))) Inet
     = Some kr \<and> nft_diff_is_empty (chain_rule_changes e t (ri_chain kr) [ssh_rule (replicate n CHR ''x'')] [kr]) = (n \<le> 121)"
proof (intro allI)
  fix e t n
  have "rule_ok e (keyed_body (ssh_rule (replicate n CHR ''x'')))" by (rule ssh_rule_ok)
  from added_rule_settles_iff[OF this, of tx_new Inet t]
  show "\<exists>kr. parse_rule e (drop 20 (List.last (tx_messages (tx_add_rule e (keyed_body (ssh_rule (replicate n CHR ''x''))) tx_new)))) Inet
     = Some kr \<and> nft_diff_is_empty (chain_rule_changes e t (ri_chain kr) [ssh_rule (replicate n CHR ''x'')] [kr]) = (n \<le> 121)"
    unfolding ssh_rule_sel by auto
qed

section \<open>Chains\<close>

lemma built_chain:
  assumes "build_chain table family declared = Inr c"
  shows "ch_table c = table" "ch_name c = dc_name declared" "ch_hook c = dc_hook declared" "ch_family c = family"
    "ch_priority c = dc_priority declared" "ch_policy c = dc_policy declared" "ch_type c = dc_type declared"
    "ch_device c = dc_device declared"
  using assms by (auto simp: build_chain_def dumped_Inr chain_new_def table_name_new_def chain_name_new_def
      nft_name_new_def split: if_splits sum.splits)

lemma chain_type_text [simp]: "nft_name_ok (chain_type_str t)" "chain_type_from (chain_type_str t) = Some t"
  by (cases t; simp add: nft_name_ok_def ascii_text chain_type_from_def)+

definition chain_ok :: "string \<Rightarrow> declared_chain \<Rightarrow> bool" where
  "chain_ok table c = (nft_name_ok table \<and> nft_name_ok (dc_name c) \<and> pred_option nft_name_ok (dc_device c))"

text \<open>What a chain request reports of the chain.\<close>

definition chain_info_of :: "nft_family \<Rightarrow> chain \<Rightarrow> chain_info" where
  "chain_info_of family c =
     \<lparr>ci_table = ch_table c, ci_name = ch_name c, ci_family = family, ci_hook = map_option hook_code (ch_hook c),
      ci_priority = (if ch_hook c = None then None
        else Some (priority_code (case ch_priority c of None \<Rightarrow> PrioFilter | Some p \<Rightarrow> p))),
      ci_type = ch_type c, ci_device = (if ch_hook c = None then None else ch_device c),
      ci_policy = map_option policy_code (ch_policy c), ci_handle = 0\<rparr>"

abbreviation hook_calls :: "chain \<Rightarrow> hook \<Rightarrow> call list" where
  "hook_calls c h \<equiv> [be32 1 (hook_code h), be32 2 (priority_code (case ch_priority c of None \<Rightarrow> PrioFilter | Some p \<Rightarrow> p))] @
    (case ch_device c of None \<Rightarrow> [] | Some dev \<Rightarrow> [attr_str 3 dev])"

lemma chain_fits:
  assumes "nft_name_ok (ch_table c)" "nft_name_ok (ch_name c)" "pred_option nft_name_ok (ch_device c)"
  shows "list_all (call_fits e) (hook_calls c h)" "list_all is_attr (hook_calls c h)"
    "list_all (call_fits e) (chain_calls c)" "list_all is_attr (chain_calls c)"
proof -
  show hook: "list_all (call_fits e) (hook_calls c h)" "list_all is_attr (hook_calls c h)" for h
    using assms(3) by (auto split: option.split)
  have "length (wire_calls e (hook_calls c h)) \<le> 65531" for h
    using assms(3) name_fits[of "the (ch_device c)"]
    by (auto simp: length_attr_wire nla_align_def nft_name_ok_def text_ok_def split: option.split)
  then show "list_all (call_fits e) (chain_calls c)" "list_all is_attr (chain_calls c)"
    using assms hook by (auto simp: chain_calls_def split: option.split)
qed

lemma chain_request_back:
  assumes "nft_name_ok (ch_table c)" "nft_name_ok (ch_name c)" "pred_option nft_name_ok (ch_device c)"
  shows "parse_chain e (drop 20 (nft_message e m flags fam (chain_calls c))) f = Some (chain_info_of f c)"
proof -
  note hook = chain_fits(1,2)[OF assms] and fits = chain_fits(3,4)[OF assms]
  have read: "fold (\<lambda>(k, d). hook_attr k d) (attrs_of e (wire_calls e (hook_calls c h))) i =
      i\<lparr>ci_hook := Some (hook_code h), ci_priority := Some (priority_code (case ch_priority c of None \<Rightarrow> PrioFilter | Some p \<Rightarrow> p)),
        ci_device := (case ch_device c of None \<Rightarrow> ci_device i | Some dev \<Rightarrow> Some dev)\<rparr>" for h i
    unfolding fold_calls[OF hook]
    using assms(3) by (auto simp: hook_attr_def type_mask ne_word_bytes nft_text_back split: option.split)
  have named: "ch_name c \<noteq> []" using assms(2) by (simp add: nft_name_ok_def)
  show ?thesis
    unfolding nft_message_body(1)[OF fits(1)] parse_chain_def fold_calls[OF fits]
    using assms(1,2) read named
    by (cases "ch_type c"; cases "ch_hook c"; cases "ch_policy c"; cases "ch_device c")
       (simp_all add: chain_calls_def chain_attr_def type_mask Let_def nft_text_back ne_word_bytes chain_info_of_def
          del: append.simps wire_call.simps)
qed

text \<open>
  C28. The chain an application adds or modifies, read back from its own request, has drifted from its declaration
  exactly if the declaration has a priority or a device but no hook: both are written inside the hook, so
  the request leaves them out and every later diff asks for the change again; every other declaration settles.
\<close>

theorem built_chain_settles_iff:
  assumes "build_chain table family declared = Inr c" "nft_name_ok table" "nft_name_ok (dc_name declared)"
    and "pred_option nft_name_ok (dc_device declared)"
  shows "\<exists>k. parse_chain e (drop 20 (List.last (tx_messages (tx_add_chain e c tx)))) family = Some k \<and>
    ci_table k = table \<and> ci_name k = dc_name declared \<and>
    chain_has_drifted declared k =
      (dc_hook declared = None \<and> (dc_priority declared \<noteq> None \<or> dc_device declared \<noteq> None))"
proof -
  note c = built_chain[OF assms(1)]
  have "parse_chain e (drop 20 (List.last (tx_messages (tx_add_chain e c tx)))) family = Some (chain_info_of family c)"
    using chain_request_back[of c e 3 CREATE_EXCL "ch_family c" family] assms(2-4) by (simp add: tx_add_chain_def c)
  moreover have "chain_has_drifted declared (chain_info_of family c) =
      (dc_hook declared = None \<and> (dc_priority declared \<noteq> None \<or> dc_device declared \<noteq> None))"
    by (auto simp: chain_has_drifted_def drifted_def chain_info_of_def c split: option.splits)
  ultimately show ?thesis by (simp add: chain_info_of_def c)
qed

definition bare_chain :: declared_chain where
  "bare_chain = (declared_chain_new ''in'')\<lparr>dc_priority := Some PrioFilter\<rparr>"

theorem built_chain_settles_iff_witness:
  "\<forall>e. \<exists>c k. build_chain ''fw'' Inet bare_chain = Inr c \<and>
     parse_chain e (drop 20 (List.last (tx_messages (tx_add_chain e c tx_new)))) Inet = Some k \<and> chain_has_drifted bare_chain k"
proof
  fix e
  have built: "build_chain ''fw'' Inet bare_chain =
      Inr \<lparr>ch_table = ''fw'', ch_name = ''in'', ch_family = Inet, ch_hook = None, ch_priority = Some PrioFilter,
           ch_type = None, ch_policy = None, ch_device = None\<rparr>"
    by (simp add: build_chain_def bare_chain_def declared_chain_new_def chain_new_def table_name_new_def
        chain_name_new_def nft_name_new_def dumped_def)
  from built_chain_settles_iff[OF this, of e tx_new]
  show "\<exists>c k. build_chain ''fw'' Inet bare_chain = Inr c \<and>
     parse_chain e (drop 20 (List.last (tx_messages (tx_add_chain e c tx_new)))) Inet = Some k \<and> chain_has_drifted bare_chain k"
    using built by (auto simp: bare_chain_def declared_chain_new_def nft_name_ok_def ascii_text)
qed

section \<open>Sets\<close>

lemma element_back:
  assumes "call_fits e (nft_nest 1 [nft_nest 1 [Attr 1 x]])"
  shows "parse_set_elem_key e (snd (call_item e (nft_nest 1 [nft_nest 1 [Attr 1 x]]))) = Some x"
proof -
  have fits: "list_all (call_fits e) [nft_nest 1 [Attr 1 x]]" "list_all is_attr [nft_nest 1 [Attr 1 x]]"
    and len: "length x \<le> 65531"
    using assms by simp_all
  have "attrs_of e (wire_calls e [nft_nest 1 [Attr 1 x]]) = [(1, wire_calls e [Attr 1 x])]"
    unfolding attrs_of_elems[OF fits] by (simp add: type_mask)
  then show ?thesis
    using value_attr[OF len] by (simp add: parse_set_elem_key_def map_filter_simps)
qed

text \<open>
  The elements of a set request are read back as they were written: the same keys in the same
  order, whatever bytes they have, for every list that fits into the 16 bits of the length of a nest.
\<close>

theorem set_elements_roundtrip:
  assumes "list_all (call_fits e) (element_calls table s xs)"
  shows "parse_set_elements e (drop 20 (nft_message e m flags family (element_calls table s xs))) = xs"
proof -
  let ?elem = "\<lambda>x. nft_nest 1 [nft_nest 1 [Attr 1 x]]"
  have inner: "list_all (call_fits e) (map ?elem xs)" "list_all is_attr (map ?elem xs)"
    using assms by (auto simp: element_calls_def list_all_iff)
  have attrs: "list_all is_attr (element_calls table s xs)" by (simp add: element_calls_def)
  have "List.map_filter (\<lambda>(k, d). if k \<noteq> 1 then None else parse_set_elem_key e d) (map (call_item e) (map ?elem xs)) = xs"
    using inner(1)
  proof (induction xs)
    case (Cons x xs)
    then show ?case using element_back[of e x] by (simp add: map_filter_simps type_mask del: wire_call.simps)
  qed (simp add: map_filter_simps)
  then have "List.map_filter (\<lambda>(k, d). if k \<noteq> 1 then None else parse_set_elem_key e d)
      (attrs_of e (wire_calls e (map ?elem xs))) = xs"
    by (simp only: attrs_of_elems[OF inner])
  then show ?thesis
    unfolding nft_message_body(1)[OF assms] parse_set_elements_def attrs_of_elems[OF assms attrs]
    by (simp add: element_calls_def type_mask del: map_map wire_call.simps)
qed

theorem set_elements_roundtrip_witness:
  "\<forall>e. parse_set_elements e (drop 20 (nft_message e 12 NLM_F_REQUEST Inet
     (element_calls ''fw'' ''allowed'' [[10, 0, 0, 1], [10, 0, 0, 2]]))) = [[10, 0, 0, 1], [10, 0, 0, 2]]"
proof
  fix e
  show "parse_set_elements e (drop 20 (nft_message e 12 NLM_F_REQUEST Inet
     (element_calls ''fw'' ''allowed'' [[10, 0, 0, 1], [10, 0, 0, 2]]))) = [[10, 0, 0, 1], [10, 0, 0, 2]]"
    by (rule set_elements_roundtrip) (simp add: element_calls_def length_attr_wire nla_align_def)
qed

end
