(* ===== verification/Nft_Apply.thy ===== *)
theory Nft_Apply
  imports Nft_Settle Connection
begin

text \<open>
  The application of an nftables diff (\<open>nftables/config/apply.rs\<close>): one transaction in the order
  \<open>apply.rs\<close> lists its steps, and its commit as a batch (\<open>send_batch\<close> in \<open>nftables/connection.rs\<close>), which owns a
  window of sequence numbers from the begin message to the end message.
\<close>

section \<open>The transaction of a diff\<close>

fun add_chains :: "endian \<Rightarrow> (string \<times> nft_family \<times> declared_chain) list \<Rightarrow> transaction \<Rightarrow> transaction nl_result" where
  "add_chains e [] tx = Inr tx"
| "add_chains e ((table, family, declared) # cs) tx =
     dumped (build_chain table family declared) (\<lambda>c. add_chains e cs (tx_add_chain e c tx))"

definition apply_deletes :: "endian \<Rightarrow> nft_diff \<Rightarrow> transaction \<Rightarrow> transaction" where
  "apply_deletes e d tx =
     (let tx = fold (\<lambda>(table, family, ch, handle). tx_del_rule e table ch family handle) (rules_to_delete d) tx;
          tx = fold (\<lambda>(table, family, s, elems). tx_del_set_elements e table s family elems) (set_elements_to_remove d) tx;
          tx = fold (\<lambda>(table, family, name). tx_del_set e table name family) (sets_to_delete d) tx;
          tx = fold (\<lambda>(table, family, name). tx_del_chain e table name family) (chains_to_delete d) tx;
          tx = fold (\<lambda>(family, table, name). tx_del_flowtable e family table name) (flowtables_to_delete d) tx
      in fold (\<lambda>(family, name). tx_del_table e name family) (tables_to_delete d) tx)"

definition apply_tables_and_sets :: "endian \<Rightarrow> nft_diff \<Rightarrow> transaction \<Rightarrow> transaction" where
  "apply_tables_and_sets e d tx =
     (let tx = fold (\<lambda>t. if dt_flags t \<noteq> 0 then tx_add_table_with_flags e (dt_name t) (dt_family t) (dt_flags t)
                         else tx_add_table e (dt_name t) (dt_family t)) (tables_to_add d) tx;
          tx = fold (\<lambda>(family, name, flags). tx_add_table_with_flags e name family flags) (tables_to_modify d) tx;
          tx = fold (\<lambda>(table, family, s). tx_add_set e (build_set table family s)) (sets_to_add d) tx
      in fold (\<lambda>(table, family, s, elems). tx_add_set_elements e table s family elems) (set_elements_to_add d) tx)"

definition apply_rules_and_flowtables :: "endian \<Rightarrow> nft_diff \<Rightarrow> transaction \<Rightarrow> transaction" where
  "apply_rules_and_flowtables e d tx =
     (let tx = fold (\<lambda>r. tx_add_rule e (keyed_body r)) (rules_to_add d) tx;
          tx = fold (\<lambda>(table, family, ch, handle, r). tx_replace_rule e (keyed_body r) handle) (rules_to_replace d) tx
      in fold (\<lambda>f. tx_add_flowtable e (build_flowtable f)) (flowtables_to_add d) tx)"

definition apply_transaction :: "endian \<Rightarrow> nft_diff \<Rightarrow> transaction nl_result" where
  "apply_transaction e d =
     dumped (add_chains e (chains_to_add d @ chains_to_modify d) (apply_tables_and_sets e d (apply_deletes e d tx_new)))
       (\<lambda>tx. Inr (apply_rules_and_flowtables e d tx))"

section \<open>Committing a batch\<close>

definition stamp_seq_pid :: "endian \<Rightarrow> u32 \<Rightarrow> u32 \<Rightarrow> bytes \<Rightarrow> bytes nl_result" where
  "stamp_seq_pid e seq pid msg =
     (if length msg < NLMSG_HDRLEN
      then Inl (InvalidMessage (''nftables batch: inner message is '' @ show_nat (length msg) @
             '' bytes, shorter than a 16-byte netlink header''))
      else Inr (take 8 msg @ ne_bytes e 4 seq @ ne_bytes e 4 pid @ drop 16 msg))"

text \<open>\<open>BATCH_BEGIN\<close> and \<open>BATCH_END\<close>, for the subsystem 10 in network byte order.\<close>

definition batch_control :: "endian \<Rightarrow> u16 \<Rightarrow> u16 \<Rightarrow> u32 \<Rightarrow> u32 \<Rightarrow> bytes" where
  "batch_control e m flags seq pid =
     built (do {
       b1 \<leftarrow> set_seq e seq (append_bytes [0, 0, 0, 10] (mb_new e m flags));
       b2 \<leftarrow> set_pid e pid b1;
       mb_finish e b2
     })"

text \<open>The inner messages are renumbered from the counter of the socket.\<close>

fun stamp_messages :: "endian \<Rightarrow> u32 \<Rightarrow> bytes list \<Rightarrow> u32 \<Rightarrow> bytes nl_result \<times> u32" where
  "stamp_messages e pid [] counter = (Inr [], counter)"
| "stamp_messages e pid (msg # msgs) counter =
     (case next_nonzero_seq counter of (seq, counter) \<Rightarrow>
       (case stamp_seq_pid e seq pid msg of
          Inl err \<Rightarrow> (Inl err, counter)
        | Inr stamped \<Rightarrow>
            (case stamp_messages e pid msgs counter of (rest, counter) \<Rightarrow> (map_sum id ((@) stamped) rest, counter))))"

definition batch_done_error :: "nl_msg_hdr \<Rightarrow> nl_error" where
  "batch_done_error header =
     InvalidMessage (''nftables batch: unexpected NLMSG_DONE at seq '' @ show_nat (unat (nlmsg_seq header)) @
       '' (nfnetlink does not terminate batches with DONE)'')"

fun commit_scan :: "endian \<Rightarrow> (i32 \<Rightarrow> string) \<Rightarrow> u32 \<Rightarrow> u32 \<Rightarrow> (nl_msg_hdr \<times> bytes) nl_result list \<Rightarrow> (unit, unit) scan" where
  "commit_scan e se begin_seq end_seq [] = Continue ()"
| "commit_scan e se begin_seq end_seq (Inl err # fs) = Return (Inl err)"
| "commit_scan e se begin_seq end_seq (Inr (header, payload) # fs) =
     (if \<not> (begin_seq \<le> nlmsg_seq header \<and> nlmsg_seq header \<le> end_seq) then commit_scan e se begin_seq end_seq fs
      else if hdr_is_error header then
        (case kernel_error e se header payload of
           Some err \<Rightarrow> Return (Inl err)
         | None \<Rightarrow> if nlmsg_seq header = end_seq then Return (Inr ()) else commit_scan e se begin_seq end_seq fs)
      else if hdr_is_done header then Return (Inl (batch_done_error header))
      else commit_scan e se begin_seq end_seq fs)"

text \<open>The send stands before the timeout, which covers the loop only.\<close>

definition send_batch :: "endian \<Rightarrow> (i32 \<Rightarrow> string) \<Rightarrow> connection \<Rightarrow> bytes list \<Rightarrow> (bytes \<Rightarrow> unit nl_result option) \<Rightarrow>
    bytes nl_result list \<Rightarrow> unit outcome \<times> connection" where
  "send_batch e se c messages sent rs =
     (if messages = [] then (Returned (Inr ()), c)
      else
        (case next_nonzero_seq (cn_seq c) of (begin_seq, counter) \<Rightarrow>
          (case stamp_messages e (cn_pid c) messages counter of
             (Inl err, counter) \<Rightarrow> (Returned (Inl err), c\<lparr>cn_seq := counter\<rparr>)
           | (Inr inner, counter) \<Rightarrow>
               (case next_nonzero_seq counter of (end_seq, counter) \<Rightarrow>
                 (case sent (batch_control e 0x10 NLM_F_REQUEST begin_seq (cn_pid c) @ inner @
                             batch_control e 0x11 (NLM_F_REQUEST OR NLM_F_ACK) end_seq (cn_pid c)) of
                    None \<Rightarrow> Waiting
                  | Some (Inl err) \<Rightarrow> Returned (Inl err)
                  | Some (Inr _) \<Rightarrow> with_timeout (cn_timeout c)
                      (recv_loop (\<lambda>_ data. commit_scan e se begin_seq end_seq (msgs_of e data)) () rs),
                  c\<lparr>cn_seq := counter\<rparr>)))))"

text \<open>\<open>NftablesDiff::apply\<close>: nothing is sent for an empty diff.\<close>

definition nft_apply :: "endian \<Rightarrow> (i32 \<Rightarrow> string) \<Rightarrow> connection \<Rightarrow> nft_diff \<Rightarrow> (bytes \<Rightarrow> unit nl_result option) \<Rightarrow>
    bytes nl_result list \<Rightarrow> nat outcome \<times> connection" where
  "nft_apply e se c d sent rs =
     (if nft_change_count d = 0 then (Returned (Inr 0), c)
      else (case apply_transaction e d of
              Inl err \<Rightarrow> (Returned (Inl err), c)
            | Inr tx \<Rightarrow>
                (case send_batch e se c (tx_messages tx) sent rs of
                   (out, c') \<Rightarrow> (outcome_map (\<lambda>_. nft_change_count d) out, c'))))"

section \<open>What a commit answers\<close>

text \<open>The frames that end the loop, and what each of them means.\<close>

definition decisive :: "endian \<Rightarrow> (i32 \<Rightarrow> string) \<Rightarrow> u32 \<Rightarrow> u32 \<Rightarrow> frame \<Rightarrow> bool" where
  "decisive e se begin_seq end_seq f =
     (begin_seq \<le> nlmsg_seq (fst f) \<and> nlmsg_seq (fst f) \<le> end_seq \<and>
      (if hdr_is_error (fst f) then kernel_error e se (fst f) (snd f) \<noteq> None \<or> nlmsg_seq (fst f) = end_seq
       else hdr_is_done (fst f)))"

definition commit_verdict :: "endian \<Rightarrow> (i32 \<Rightarrow> string) \<Rightarrow> frame \<Rightarrow> unit nl_result" where
  "commit_verdict e se f =
     (if hdr_is_error (fst f)
      then (case kernel_error e se (fst f) (snd f) of Some err \<Rightarrow> Inl err | None \<Rightarrow> Inr ())
      else Inl (batch_done_error (fst f)))"

lemma commit_scan_frames:
  "commit_scan e se b n (map Inr fs) =
     (case filter (decisive e se b n) fs of [] \<Rightarrow> Continue () | f # _ \<Rightarrow> Return (commit_verdict e se f))"
proof (induction fs)
  case (Cons f fs)
  obtain h p where f: "f = (h, p)" by fastforce
  show ?case using Cons by (auto simp: f decisive_def commit_verdict_def split: option.splits)
qed simp

lemma commit_loop:
  assumes "list_all (list_all frame_ok) ds"
  shows "recv_loop (\<lambda>_ data. commit_scan e se b n (msgs_of e data)) () (received e ds) =
    (case filter (decisive e se b n) (concat ds) of [] \<Rightarrow> Waiting | f # _ \<Rightarrow> Returned (commit_verdict e se f))"
  using assms
proof (induction ds)
  case (Cons fs ds)
  then show ?case by (auto simp: received_def msgs_of_datagram commit_scan_frames split: list.splits)
qed (simp add: received_def)

lemma stamp_messages_seqs:
  assumes "list_all (\<lambda>m. 16 \<le> length m) msgs"
  shows "\<exists>inner counter' xs. stamp_messages e pid msgs counter = (Inr inner, counter') \<and> length xs = length msgs \<and>
    (\<forall>k. seqs (length msgs + k) counter = xs @ seqs k counter')"
  using assms
proof (induction msgs arbitrary: counter)
  case (Cons m msgs)
  obtain s c1 where s: "next_nonzero_seq counter = (s, c1)" by fastforce
  from Cons obtain inner c' xs where ih: "stamp_messages e pid msgs c1 = (Inr inner, c')" "length xs = length msgs"
    "\<forall>k. seqs (length msgs + k) c1 = xs @ seqs k c'" by force
  then show ?case
    using Cons.prems s by (intro exI[of _ "(take 8 m @ ne_bytes e 4 s @ ne_bytes e 4 pid @ drop 16 m) @ inner"] exI[of _ c']
        exI[of _ "s # xs"]) (simp add: stamp_seq_pid_def)
qed simp

lemma commit_answer:
  assumes "list_all (list_all frame_ok) ds" "list_all (\<lambda>m. 16 \<le> length m) msgs" "msgs \<noteq> []"
    and "\<And>msg. sent msg = Some (Inr ())" "ns = seqs (length msgs + 2) (cn_seq c)"
  shows "fst (send_batch e se c msgs sent (received e ds)) =
    (case filter (decisive e se (hd ns) (List.last ns)) (concat ds) of
       f # _ \<Rightarrow> Returned (commit_verdict e se f)
     | [] \<Rightarrow> (case cn_timeout c of Some _ \<Rightarrow> Returned (Inl Timeout) | None \<Rightarrow> Waiting))"
proof -
  obtain b c1 where b: "next_nonzero_seq (cn_seq c) = (b, c1)" by fastforce
  obtain inner c2 xs where st: "stamp_messages e (cn_pid c) msgs c1 = (Inr inner, c2)" "length xs = length msgs"
    "\<forall>k. seqs (length msgs + k) c1 = xs @ seqs k c2"
    using stamp_messages_seqs[OF assms(2)] by blast
  obtain n c3 where n: "next_nonzero_seq c2 = (n, c3)" by fastforce
  have "seqs (length msgs + 2) (cn_seq c) = b # seqs (length msgs + 1) c1" using b by simp
  also have "seqs (length msgs + 1) c1 = xs @ [n]" using st(3)[rule_format, of 1] n by simp
  finally have ns: "hd ns = b" "List.last ns = n" by (simp_all add: assms(5))
  show ?thesis
    unfolding ns using assms(3,4) b st(1) n commit_loop[OF assms(1)]
    by (auto simp: send_batch_def with_timeout_def split: list.splits option.splits)
qed

text \<open>
  C25. A commit answers what the kernel says within the window of its sequence numbers: of the frames from the
  begin message's number to the end message's, the first that is an error, an end of a dump or the acknowledgement of the
  end message decides; only the last means success, frames outside the window and acknowledgements of single
  operations are passed over, and without a deciding frame the operation timeout is the answer.
\<close>

theorem nft_commit_outcome:
  assumes "list_all (list_all frame_ok) ds" "list_all (\<lambda>m. 16 \<le> length m) msgs" "msgs \<noteq> []"
    and "\<And>msg. sent msg = Some (Inr ())" "ns = seqs (length msgs + 2) (cn_seq c)"
  shows "fst (send_batch e se c msgs sent (received e ds)) =
    (case filter (decisive e se (hd ns) (List.last ns)) (concat ds) of
       f # _ \<Rightarrow> Returned (commit_verdict e se f)
     | [] \<Rightarrow> (case cn_timeout c of Some _ \<Rightarrow> Returned (Inl Timeout) | None \<Rightarrow> Waiting))"
  by (rule commit_answer[OF assms])

lemma three_numbers: "length [m] + 2 = Suc (Suc (Suc 0))"
  by simp

lemma ack_frame: "nl_msg_error_from_bytes LittleEndian (replicate 20 0) =
    Inr \<lparr>error_code = 0, error_msg = nl_msg_hdr_read LittleEndian (replicate 16 0)\<rparr>"
  by (simp add: nl_msg_error_from_bytes_def ne_word_def numeral_eq_Suc)

theorem nft_commit_outcome_witness:
  "fst (send_batch LittleEndian (\<lambda>_. []) conn7 [replicate 20 1] (\<lambda>_. Some (Inr ()))
     (received LittleEndian [[frame_at 2 0 8 (replicate 20 0)], [frame_at 2 0 9 (replicate 20 0)]])) = Returned (Inr ())"
proof -
  have "seqs (length [replicate 20 (1 :: u8)] + 2) (cn_seq conn7) = [7, 8, 9]"
    unfolding three_numbers by (simp add: conn7_def from_parts_def next_nonzero_seq_cases)
  from nft_commit_outcome[OF _ _ _ _ this[symmetric], of "[[frame_at 2 0 8 (replicate 20 0)], [frame_at 2 0 9 (replicate 20 0)]]"
      "\<lambda>_. Some (Inr ())" LittleEndian "\<lambda>_. []"] ack_frame
  show ?thesis by (simp add: witness_frames decisive_def commit_verdict_def kernel_error_def is_ack_def)
qed

text \<open>
  C29. The window does not survive the wrap of the 32-bit counter: when the number of the end message is smaller than
  that of the begin message, the commit never succeeds and never reports an error of the kernel; with a timeout it
  ends in it whatever the kernel answers, although the batch may have been committed.
\<close>

theorem nft_commit_lost_at_wrap:
  assumes "list_all (list_all frame_ok) ds" "list_all (\<lambda>m. 16 \<le> length m) msgs" "msgs \<noteq> []"
    and "\<And>msg. sent msg = Some (Inr ())" "ns = seqs (length msgs + 2) (cn_seq c)" "List.last ns < hd ns"
  shows "fst (send_batch e se c msgs sent (received e ds)) =
    (case cn_timeout c of Some _ \<Rightarrow> Returned (Inl Timeout) | None \<Rightarrow> Waiting)"
proof -
  have "\<not> decisive e se (hd ns) (List.last ns) f" for f
    using assms(6) by (auto simp: decisive_def)
  then have "filter (decisive e se (hd ns) (List.last ns)) (concat ds) = []" by simp
  then show ?thesis unfolding commit_answer[OF assms(1-5)] by simp
qed

theorem nft_commit_lost_at_wrap_witness:
  "fst (send_batch LittleEndian (\<lambda>_. []) (from_parts 0xFFFFFFFF 100) [replicate 20 1] (\<lambda>_. Some (Inr ()))
     (received LittleEndian [[frame_at 2 0 1 (replicate 20 0)], [frame_at 2 0 2 (replicate 20 0)]])) = Returned (Inl Timeout)"
proof -
  have "seqs (length [replicate 20 (1 :: u8)] + 2) (cn_seq (from_parts 0xFFFFFFFF 100)) = [0xFFFFFFFF, 1, 2]"
    unfolding three_numbers by (simp add: from_parts_def next_nonzero_seq_cases)
  from nft_commit_lost_at_wrap[OF _ _ _ _ this[symmetric], of "[[frame_at 2 0 1 (replicate 20 0)], [frame_at 2 0 2 (replicate 20 0)]]"
      "\<lambda>_. Some (Inr ())" LittleEndian "\<lambda>_. []"]
  show ?thesis by (simp add: witness_frames from_parts_def DEFAULT_OPERATION_TIMEOUT_def)
qed

end
