(* ===== verification/Nft_Requests.thy ===== *)
theory Nft_Requests
  imports Nft_Apply
begin

text \<open>
  The transaction of an nftables diff, read back message by message: the header, the family, and the object
  as the parsers of \<open>nftables/connection.rs\<close> read it.
\<close>

section \<open>Reading a message\<close>

datatype nft_object =
    TableObject (to_name: string) (to_flags: u32)
  | ChainObject chain_info
  | RuleObject (ro_table: string) (ro_chain: string) (ro_handle: u64) (ro_position: "u64 option")
      (ro_expressions: bytes) (ro_comment: "string option")
  | SetObject (so_table: string) (so_name: string) (so_flags: u32) (so_key_type: u32) (so_key_len: u32)
  | ElementsObject (eo_table: string) (eo_set: string) (eo_elements: "set_element list")
  | FlowtableObject (fo_table: string) (fo_name: string) (fo_priority: u32) (fo_devs: "string list") (fo_flags: u32)

text \<open>The names of an element message are its attributes 1 and 2; no parser of the library reads them.\<close>

definition attr_text :: "endian \<Rightarrow> bytes \<Rightarrow> u16 \<Rightarrow> string" where
  "attr_text e data k = (case map_of (attrs_of e data) k of None \<Rightarrow> [] | Some d \<Rightarrow> nft_text_or_empty d)"

definition read_object :: "endian \<Rightarrow> u8 \<Rightarrow> nft_family \<Rightarrow> bytes \<Rightarrow> nft_object option" where
  "read_object e m family data =
     (if m = 0 \<or> m = 2 then map_option (\<lambda>t. TableObject (ti_name t) (ti_flags t)) (parse_table e data family)
      else if m = 3 \<or> m = 5 then map_option ChainObject (parse_chain e data family)
      else if m = 6 \<or> m = 8 then
        map_option (\<lambda>r. RuleObject (ri_table r) (ri_chain r) (ri_handle r) (ri_position r) (ri_expression_bytes r) (ri_comment r))
          (parse_rule e data family)
      else if m = 9 \<or> m = 11 then
        map_option (\<lambda>s. SetObject (si_table s) (si_name s) (si_flags s) (si_key_type s) (si_key_len s)) (parse_set e data family)
      else if m = 12 \<or> m = 14 then
        Some (ElementsObject (attr_text e data 1) (attr_text e data 2) (parse_set_elements e data))
      else if m = 22 \<or> m = 24 then
        map_option (\<lambda>f. FlowtableObject (ft_table f) (ft_name f) (ft_priority f) (ft_devs f) (ft_flags f))
          (parse_flowtable e data family)
      else None)"

text \<open>The message type within subsystem 10, the flags, the family and the object.\<close>

definition read_nft_message :: "endian \<Rightarrow> bytes \<Rightarrow> (u8 \<times> u16 \<times> nft_family \<times> nft_object) option" where
  "read_nft_message e msg =
     (let header = nl_msg_hdr_read e msg; m = ucast (nlmsg_type header)
      in if drop_bit 8 (nlmsg_type header) \<noteq> 10 then None
         else Option.bind (nft_family_from_u8 (msg ! 16)) (\<lambda>family.
           map_option (\<lambda>obj. (m, nlmsg_flags header, family, obj)) (read_object e m family (drop 20 msg))))"

lemma nft_msg_type_back: "drop_bit 8 (nft_msg_type m) = 10" "ucast (nft_msg_type m) = m"
proof -
  have "drop_bit 8 (ucast m :: u16) = 0" by (rule bit_word_eqI) (auto simp: bit_simps dest: bit_imp_le_length)
  then show "drop_bit 8 (nft_msg_type m) = 10" by (simp add: nft_msg_type_def)
  have high: "(2560 :: u16) = push_bit 8 10" by simp
  have "\<not> bit (2560 :: u16) n" if "n < 8" for n
    unfolding high using that by (simp only: bit_push_bit_iff) simp
  then show "ucast (nft_msg_type m) = m"
    by (intro bit_word_eqI) (auto simp: nft_msg_type_def bit_simps dest: bit_imp_le_length)
qed

lemma nft_family_back: "nft_family_from_u8 (nft_family_code f) = Some f"
  by (cases f) (simp_all add: nft_family_from_u8_def)

lemma read_nft_message:
  assumes "list_all (call_fits e) cs"
  shows "read_nft_message e (nft_message e m flags family cs) =
    map_option (\<lambda>obj. (m, flags, family, obj)) (read_object e m family (wire_calls e cs))"
proof -
  let ?b = "mb_new e (nft_msg_type m) flags" and ?cs = "Struct (nf_gen_msg family) # cs"
  have buf: "length (mb_buf ?b) = 16" by (simp add: mb_new_def)
  have "run_calls e ?cs ?b = Some (?b\<lparr>mb_buf := mb_buf ?b @ wire_calls e ?cs\<rparr>)"
    by (rule run_wire(2)) (use assms buf in simp_all)
  moreover have "wire_calls e ?cs = nf_gen_msg family @ wire_calls e cs"
    by (simp add: nf_gen_msg_def attr_pad_def nla_align_def)
  moreover define n :: u32 where "n = of_nat (length (mb_buf ?b @ nf_gen_msg family @ wire_calls e cs))"
  ultimately have msg: "nft_message e m flags family cs =
      ne_bytes e 4 n @ drop 4 (mb_buf ?b) @ nf_gen_msg family @ wire_calls e cs"
    using buf by (simp add: nft_message_def mb_finish_def patch_def built_def)
  have head: "drop 4 (mb_buf ?b) = ne_bytes e 2 (nft_msg_type m) @ ne_bytes e 2 flags @ ne_bytes e 4 (0 :: u32) @ ne_bytes e 4 (0 :: u32)"
    by (simp add: mb_new_def nl_msg_hdr_as_bytes_def nl_msg_hdr_new_def)
  have "nl_msg_hdr_read e (nft_message e m flags family cs) =
      \<lparr>nlmsg_len = n, nlmsg_type = nft_msg_type m, nlmsg_flags = flags, nlmsg_seq = 0, nlmsg_pid = 0\<rparr>"
    "nft_message e m flags family cs ! 16 = nft_family_code family"
    unfolding msg head by (simp_all add: nl_msg_hdr_read_def ne_word_bytes nth_append nf_gen_msg_def)
  then show ?thesis
    by (simp add: read_nft_message_def nft_msg_type_back nft_family_back nft_message_body(1)[OF assms])
qed

section \<open>What each change asks for\<close>

definition declared_chain_info :: "string \<Rightarrow> nft_family \<Rightarrow> declared_chain \<Rightarrow> chain_info" where
  "declared_chain_info table family c =
     \<lparr>ci_table = table, ci_name = dc_name c, ci_family = family, ci_hook = map_option hook_code (dc_hook c),
      ci_priority = (if dc_hook c = None then None
        else Some (priority_code (case dc_priority c of None \<Rightarrow> PrioFilter | Some p \<Rightarrow> p))),
      ci_type = dc_type c, ci_device = (if dc_hook c = None then None else dc_device c),
      ci_policy = map_option policy_code (dc_policy c), ci_handle = 0\<rparr>"

definition named_chain :: "string \<Rightarrow> nft_family \<Rightarrow> string \<Rightarrow> chain_info" where
  "named_chain table family name =
     \<lparr>ci_table = table, ci_name = name, ci_family = family, ci_hook = None, ci_priority = None, ci_type = None,
      ci_device = None, ci_policy = None, ci_handle = 0\<rparr>"

text \<open>The comment of a rule that is sent: a body's own, or the key, and none if it is longer than 121 bytes.\<close>

definition sent_comment :: "declared_rule \<Rightarrow> string option" where
  "sent_comment r = read_comment (if ru_comment (dr_body r) = None then dr_key r else ru_comment (dr_body r))"

definition sent_rule :: "endian \<Rightarrow> declared_rule \<Rightarrow> u64 \<Rightarrow> u64 option \<Rightarrow> nft_object" where
  "sent_rule e r handle position =
     RuleObject (ru_table (dr_body r)) (ru_chain (dr_body r)) handle position
       (lower_to_expression_bytes e (ru_exprs (dr_body r))) (sent_comment r)"

text \<open>The messages of a diff in the order in which they are sent: removals, then additions and changes.\<close>

definition removals :: "nft_diff \<Rightarrow> (u8 \<times> u16 \<times> nft_family \<times> nft_object) list" where
  "removals d =
     map (\<lambda>(table, family, ch, handle). (8, NLM_F_REQUEST, family, RuleObject table ch handle None [] None)) (rules_to_delete d) @
     map (\<lambda>(table, family, s, xs). (14, NLM_F_REQUEST, family, ElementsObject table s xs)) (set_elements_to_remove d) @
     map (\<lambda>(table, family, name). (11, NLM_F_REQUEST, family, SetObject table name 0 0 0)) (sets_to_delete d) @
     map (\<lambda>(table, family, name). (5, NLM_F_REQUEST, family, ChainObject (named_chain table family name))) (chains_to_delete d) @
     map (\<lambda>(family, table, name). (24, NLM_F_REQUEST, family, FlowtableObject table name 0 [] 0)) (flowtables_to_delete d) @
     map (\<lambda>(family, name). (2, NLM_F_REQUEST, family, TableObject name 0)) (tables_to_delete d)"

definition additions :: "endian \<Rightarrow> nft_diff \<Rightarrow> (u8 \<times> u16 \<times> nft_family \<times> nft_object) list" where
  "additions e d =
     map (\<lambda>t. (0, CREATE_EXCL, dt_family t, TableObject (dt_name t) (dt_flags t))) (tables_to_add d) @
     map (\<lambda>(family, name, flags). (0, CREATE_EXCL, family, TableObject name flags)) (tables_to_modify d) @
     map (\<lambda>(table, family, s). (9, CREATE_EXCL, family, SetObject table (ds_name s) (ds_flags s)
       (key_type_id (ds_key_type s)) (of_nat (key_len (ds_key_type s))))) (sets_to_add d) @
     map (\<lambda>(table, family, s, xs). (12, NLM_F_REQUEST OR 0x400, family, ElementsObject table s xs)) (set_elements_to_add d) @
     map (\<lambda>(table, family, c). (3, CREATE_EXCL, family, ChainObject (declared_chain_info table family c)))
       (chains_to_add d @ chains_to_modify d) @
     map (\<lambda>r. (6, NLM_F_REQUEST OR 0x400 OR 0x800, ru_family (dr_body r), sent_rule e r 0 (ru_position (dr_body r)))) (rules_to_add d) @
     map (\<lambda>(table, family, ch, handle, r). (6, NLM_F_REQUEST OR 0x100, ru_family (dr_body r), sent_rule e r handle None))
       (rules_to_replace d) @
     map (\<lambda>f. (22, CREATE_EXCL, df_family f,
       FlowtableObject (df_table f) (df_name f) (df_priority f) (df_devs f) (df_flags f AND 3))) (flowtables_to_add d)"

text \<open>Names of 1 to 255 bytes without NUL, and lists that fit into the 16 bits of a nest's length.\<close>

definition removals_ok :: "endian \<Rightarrow> nft_diff \<Rightarrow> bool" where
  "removals_ok e d =
     (list_all (\<lambda>(table, family, ch, handle). nft_name_ok table \<and> nft_name_ok ch) (rules_to_delete d) \<and>
      list_all (\<lambda>(table, family, s, xs). nft_name_ok table \<and> nft_name_ok s \<and> list_all (call_fits e) (element_calls table s xs))
        (set_elements_to_remove d) \<and>
      list_all (\<lambda>(table, family, name). nft_name_ok table \<and> nft_name_ok name) (sets_to_delete d) \<and>
      list_all (\<lambda>(table, family, name). nft_name_ok table \<and> nft_name_ok name) (chains_to_delete d) \<and>
      list_all (\<lambda>(family, table, name). nft_name_ok table \<and> nft_name_ok name) (flowtables_to_delete d) \<and>
      list_all (\<lambda>(family, name). nft_name_ok name) (tables_to_delete d))"

definition additions_ok :: "endian \<Rightarrow> nft_diff \<Rightarrow> bool" where
  "additions_ok e d =
     (list_all (\<lambda>t. nft_name_ok (dt_name t)) (tables_to_add d) \<and>
      list_all (\<lambda>(family, name, flags). nft_name_ok name) (tables_to_modify d) \<and>
      list_all (\<lambda>(table, family, s). nft_name_ok table \<and> nft_name_ok (ds_name s)) (sets_to_add d) \<and>
      list_all (\<lambda>(table, family, s, xs). nft_name_ok table \<and> nft_name_ok s \<and> list_all (call_fits e) (element_calls table s xs))
        (set_elements_to_add d) \<and>
      list_all (\<lambda>(table, family, c). chain_ok table c) (chains_to_add d @ chains_to_modify d) \<and>
      list_all (\<lambda>r. rule_ok e (keyed_body r)) (rules_to_add d) \<and>
      list_all (\<lambda>(table, family, ch, handle, r). rule_ok e (keyed_body r)) (rules_to_replace d) \<and>
      list_all (\<lambda>f. nft_name_ok (df_table f) \<and> nft_name_ok (df_name f) \<and> list_all nft_name_ok (df_devs f) \<and>
        list_all (call_fits e) (flowtable_calls (build_flowtable f))) (flowtables_to_add d))"

section \<open>Each message read back\<close>

lemma table_read:
  assumes "nft_name_ok name"
  shows "parse_table e (wire_calls e (attr_str 1 name # (if flags \<noteq> 0 then [be32 2 flags] else []))) f =
    Some \<lparr>ti_name = name, ti_family = f, ti_flags = flags, ti_use_count = 0, ti_handle = 0\<rparr>"
proof -
  let ?cs = "attr_str 1 name # (if flags \<noteq> 0 then [be32 2 flags] else [])"
  have fits: "list_all (call_fits e) ?cs" "list_all is_attr ?cs" and "name \<noteq> []" using assms by (auto simp: nft_name_ok_def text_ok_def)
  then show ?thesis
    unfolding parse_table_def attr_scan_calls[OF fits]
    using assms by (simp add: type_mask nft_text_back ne_word_bytes)
qed

lemma set_read:
  assumes "nft_name_ok table" "nft_name_ok name"
  shows "parse_set e (wire_calls e [attr_str 1 table, attr_str 2 name]) f =
      Some \<lparr>si_table = table, si_name = name, si_family = f, si_flags = 0, si_key_type = 0, si_key_len = 0, si_handle = 0\<rparr>"
    "parse_set e (wire_calls e [attr_str 1 table, attr_str 2 name, be32 4 i, be32 5 j, be32 3 k, be32 10 l]) f =
      Some \<lparr>si_table = table, si_name = name, si_family = f, si_flags = k, si_key_type = i, si_key_len = j, si_handle = 0\<rparr>"
proof -
  let ?del = "[attr_str 1 table, attr_str 2 name]" and ?add = "[attr_str 1 table, attr_str 2 name, be32 4 i, be32 5 j, be32 3 k, be32 10 l]"
  have del: "list_all (call_fits e) ?del" "list_all is_attr ?del" and add: "list_all (call_fits e) ?add" "list_all is_attr ?add"
    and "name \<noteq> []" using assms by (auto simp: nft_name_ok_def text_ok_def)
  then show "parse_set e (wire_calls e ?del) f =
      Some \<lparr>si_table = table, si_name = name, si_family = f, si_flags = 0, si_key_type = 0, si_key_len = 0, si_handle = 0\<rparr>"
    "parse_set e (wire_calls e ?add) f =
      Some \<lparr>si_table = table, si_name = name, si_family = f, si_flags = k, si_key_type = i, si_key_len = j, si_handle = 0\<rparr>"
    unfolding parse_set_def fold_calls[OF del] fold_calls[OF add]
    using assms by (simp_all add: type_mask set_attr_def ne_word_bytes)
qed

lemma elements_read:
  assumes "nft_name_ok table" "nft_name_ok s" "list_all (call_fits e) (element_calls table s xs)"
  shows "attr_text e (wire_calls e (element_calls table s xs)) 1 = table"
    "attr_text e (wire_calls e (element_calls table s xs)) 2 = s"
    "parse_set_elements e (wire_calls e (element_calls table s xs)) = xs"
proof -
  have attrs: "list_all is_attr (element_calls table s xs)" by (simp add: element_calls_def)
  show "attr_text e (wire_calls e (element_calls table s xs)) 1 = table"
    "attr_text e (wire_calls e (element_calls table s xs)) 2 = s"
    unfolding attr_text_def attrs_of_elems[OF assms(3) attrs]
    using assms(1,2) by (simp_all add: element_calls_def type_mask)
  show "parse_set_elements e (wire_calls e (element_calls table s xs)) = xs"
    using set_elements_roundtrip[OF assms(3)] unfolding nft_message_body(1)[OF assms(3)] .
qed

lemma named_chain_read:
  assumes "nft_name_ok table" "nft_name_ok name"
  shows "parse_chain e (wire_calls e [attr_str 1 table, attr_str 3 name]) f = Some (named_chain table f name)"
proof -
  let ?cs = "[attr_str 1 table, attr_str 3 name]"
  have fits: "list_all (call_fits e) ?cs" "list_all is_attr ?cs" and "name \<noteq> []" using assms by (auto simp: nft_name_ok_def text_ok_def)
  then show ?thesis
    unfolding parse_chain_def fold_calls[OF fits] using assms by (simp add: type_mask chain_attr_def named_chain_def)
qed

lemma chain_read:
  assumes "build_chain table family c = Inr b" "chain_ok table c"
  shows "parse_chain e (wire_calls e (chain_calls b)) family = Some (declared_chain_info table family c)"
    "list_all (call_fits e) (chain_calls b)" "ch_family b = family"
proof -
  note b = built_chain[OF assms(1)]
  have names: "nft_name_ok (ch_table b)" "nft_name_ok (ch_name b)" "pred_option nft_name_ok (ch_device b)"
    using assms(2) by (simp_all add: b chain_ok_def)
  show fits: "list_all (call_fits e) (chain_calls b)" by (rule chain_fits(3)[OF names])
  show "parse_chain e (wire_calls e (chain_calls b)) family = Some (declared_chain_info table family c)"
    using chain_request_back[OF names, of e 3 0 family family] unfolding nft_message_body(1)[OF fits]
    by (simp add: chain_info_of_def declared_chain_info_def b)
  show "ch_family b = family" by (rule b)
qed

lemma chain_builds:
  assumes "chain_ok table c"
  shows "\<exists>b. build_chain table family c = Inr b"
proof -
  have "table \<noteq> []" "length table \<le> 255" "CHR 0x00 \<notin> set table" "dc_name c \<noteq> []" "length (dc_name c) \<le> 255" "CHR 0x00 \<notin> set (dc_name c)"
    using assms nul_free by (auto simp: chain_ok_def nft_name_ok_def text_ok_def)
  then show ?thesis
    by (simp add: build_chain_def chain_new_def table_name_new_def chain_name_new_def nft_name_new_def dumped_def)
qed

lemma keyed_body_sent:
  "ru_position (keyed_body r) = ru_position (dr_body r)" "ru_family (keyed_body r) = ru_family (dr_body r)"
  "read_comment (ru_comment (keyed_body r)) = sent_comment r"
  by (auto simp: keyed_body_def sent_comment_def split: option.split)

text \<open>A rule message: what stands before the body names the rule, the body gives expressions and comment.\<close>

lemma rule_read:
  assumes "rule_ok e r" "list_all (call_fits e) head" "list_all is_attr head"
    and "i = fold (\<lambda>c. case call_item e c of (k, d) \<Rightarrow> rule_attr k d) head (rule_info_new f)"
    and "ri_table i \<noteq> []" "ri_expression_bytes i = []" "ri_comment i = None"
  shows "list_all (call_fits e) (head @ body_calls r)"
    "\<exists>kr. parse_rule e (wire_calls e (head @ body_calls r)) f = Some kr \<and> ri_table kr = ri_table i \<and> ri_chain kr = ri_chain i \<and>
       ri_handle kr = ri_handle i \<and> ri_position kr = ri_position i \<and>
       ri_expression_bytes kr = lower_to_expression_bytes e (ru_exprs r) \<and> ri_comment kr = read_comment (ru_comment r)"
proof -
  have fits: "list_all (call_fits e) (head @ body_calls r)" "list_all is_attr (head @ body_calls r)"
    using body_back(1,2)[OF assms(1)] assms(2,3) by simp_all
  then show "list_all (call_fits e) (head @ body_calls r)" by simp
  have "fold (\<lambda>c. case call_item e c of (k, d) \<Rightarrow> rule_attr k d) (head @ body_calls r) (rule_info_new f) =
      fold (\<lambda>c. case call_item e c of (k, d) \<Rightarrow> rule_attr k d) (body_calls r) i"
    by (simp add: assms(4))
  with body_back(3)[OF assms(1,6,7)] assms(5)
  show "\<exists>kr. parse_rule e (wire_calls e (head @ body_calls r)) f = Some kr \<and> ri_table kr = ri_table i \<and> ri_chain kr = ri_chain i \<and>
       ri_handle kr = ri_handle i \<and> ri_position kr = ri_position i \<and>
       ri_expression_bytes kr = lower_to_expression_bytes e (ru_exprs r) \<and> ri_comment kr = read_comment (ru_comment r)"
    unfolding parse_rule_def fold_calls[OF fits] by (auto simp: Let_def)
qed

lemma added_rule_read:
  assumes "rule_ok e (keyed_body r)"
  shows "list_all (call_fits e) (rule_calls (keyed_body r))"
    "read_object e 6 f (wire_calls e (rule_calls (keyed_body r))) = Some (sent_rule e r 0 (ru_position (dr_body r)))"
proof -
  let ?r = "keyed_body r"
  let ?head = "[attr_str 1 (ru_table ?r), attr_str 2 (ru_chain ?r)] @ (case ru_position ?r of None \<Rightarrow> [] | Some pos \<Rightarrow> [be64 6 pos])"
  have names: "nft_name_ok (ru_table ?r)" "nft_name_ok (ru_chain ?r)" using assms by (simp_all only: rule_ok_def)
  have head: "list_all (call_fits e) ?head" "list_all is_attr ?head" using names by (auto split: option.split)
  define i where "i = fold (\<lambda>c. case call_item e c of (k, d) \<Rightarrow> rule_attr k d) ?head (rule_info_new f)"
  have i: "ri_table i = ru_table ?r" "ri_chain i = ru_chain ?r" "ri_handle i = 0" "ri_position i = ru_position ?r"
    "ri_expression_bytes i = []" "ri_comment i = None"
    using names by (auto simp: i_def rule_info_new_def rule_attr_def type_mask ne_word_bytes split: option.split)
  have "ri_table i \<noteq> []" using names by (simp only: i nft_name_ok_def) simp
  note read = rule_read[OF assms head i_def this i(5,6)]
  have calls: "rule_calls ?r = ?head @ body_calls ?r" by (simp add: rule_calls_def)
  show "list_all (call_fits e) (rule_calls ?r)" unfolding calls by (rule read(1))
  show "read_object e 6 f (wire_calls e (rule_calls ?r)) = Some (sent_rule e r 0 (ru_position (dr_body r)))"
    using read(2) unfolding calls i keyed_body_sent keyed_exprs by (auto simp: read_object_def sent_rule_def)
qed

lemma replaced_rule_read:
  assumes "rule_ok e (keyed_body r)"
    and cs_def: "cs = [attr_str 1 (ru_table (keyed_body r)), attr_str 2 (ru_chain (keyed_body r)), be64 3 handle] @ body_calls (keyed_body r)"
  shows "list_all (call_fits e) cs" "read_object e 6 f (wire_calls e cs) = Some (sent_rule e r handle None)"
proof -
  let ?r = "keyed_body r"
  let ?head = "[attr_str 1 (ru_table ?r), attr_str 2 (ru_chain ?r), be64 3 handle]"
  have names: "nft_name_ok (ru_table ?r)" "nft_name_ok (ru_chain ?r)" using assms(1) by (simp_all only: rule_ok_def)
  have head: "list_all (call_fits e) ?head" "list_all is_attr ?head" using names by simp_all
  define i where "i = fold (\<lambda>c. case call_item e c of (k, d) \<Rightarrow> rule_attr k d) ?head (rule_info_new f)"
  have i: "ri_table i = ru_table ?r" "ri_chain i = ru_chain ?r" "ri_handle i = handle" "ri_position i = None"
    "ri_expression_bytes i = []" "ri_comment i = None"
    using names by (simp_all add: i_def rule_info_new_def rule_attr_def type_mask ne_word_bytes)
  have "ri_table i \<noteq> []" using names by (simp only: i nft_name_ok_def) simp
  note read = rule_read[OF assms(1) head i_def this i(5,6)]
  show "list_all (call_fits e) cs" unfolding cs_def by (rule read(1))
  show "read_object e 6 f (wire_calls e cs) = Some (sent_rule e r handle None)"
    using read(2) unfolding cs_def i keyed_body_sent keyed_exprs by (auto simp: read_object_def sent_rule_def)
qed

lemma deleted_rule_read:
  assumes "nft_name_ok table" "nft_name_ok ch"
  shows "list_all (call_fits e) [attr_str 1 table, attr_str 2 ch, be64 3 handle]"
    "read_object e 8 f (wire_calls e [attr_str 1 table, attr_str 2 ch, be64 3 handle]) = Some (RuleObject table ch handle None [] None)"
proof -
  let ?cs = "[attr_str 1 table, attr_str 2 ch, be64 3 handle]"
  show fits: "list_all (call_fits e) ?cs" using assms by simp
  have attrs: "list_all is_attr ?cs" and "table \<noteq> []" using assms by (simp_all add: nft_name_ok_def)
  then show "read_object e 8 f (wire_calls e ?cs) = Some (RuleObject table ch handle None [] None)"
    unfolding read_object_def parse_rule_def fold_calls[OF fits attrs]
    using assms by (simp add: type_mask rule_attr_def rule_info_new_def ne_word_bytes Let_def)
qed

lemma flags_rebuilt: "(if flags AND 2 \<noteq> 0 then set_flag 2 True a else a) = (flags AND 3 :: u32)"
  if "a = (if flags AND 1 \<noteq> 0 then set_flag 1 True 0 else 0)"
proof (rule bit_word_eqI)
  fix n
  have "(flags AND 2 ^ k \<noteq> 0) = bit flags k" for k by (simp add: and_exp_eq_0_iff_not_bit)
  from this[of 0] this[of 1] have low: "(flags AND 1 \<noteq> 0) = bit flags 0" "(flags AND 2 \<noteq> 0) = bit flags 1" by simp_all
  have three: "(3 :: u32) = mask 2" by (simp add: mask_eq_exp_minus_1)
  have digits: "bit (3 :: u32) n = (n = 0 \<or> n = 1)" "bit (2 :: u32) n = (n = 1)" "bit (1 :: u32) n = (n = 0)"
    unfolding three using bit_exp_iff[where 'a = "32 word", of 1 n] by (auto simp: bit_mask_iff bit_1_iff)
  show "bit (if flags AND 2 \<noteq> 0 then set_flag 2 True a else a) n = bit (flags AND 3) n"
    unfolding that set_flag_def low using digits by (simp only: bit_or_iff bit_and_iff bit_0_eq if_True if_False split: if_split) auto
qed

lemma built_flowtable:
  "ft_table (build_flowtable f) = df_table f" "ft_name (build_flowtable f) = df_name f"
  "ft_priority (build_flowtable f) = df_priority f" "ft_devs (build_flowtable f) = df_devs f"
  "ft_flags (build_flowtable f) = df_flags f AND 3" "ft_family (build_flowtable f) = df_family f"
proof -
  have devs: "foldl (\<lambda>ft dev. ft_device dev ft) ft xs = ft\<lparr>ft_devs := ft_devs ft @ xs\<rparr>" for ft xs
    by (induction xs arbitrary: ft) (simp_all add: ft_device_def)
  show "ft_table (build_flowtable f) = df_table f" "ft_name (build_flowtable f) = df_name f"
    "ft_priority (build_flowtable f) = df_priority f" "ft_devs (build_flowtable f) = df_devs f"
    "ft_family (build_flowtable f) = df_family f"
    by (simp_all add: build_flowtable_def devs flowtable_new_def ft_hw_offload_def ft_counter_def Let_def)
  show "ft_flags (build_flowtable f) = df_flags f AND 3"
    unfolding flags_rebuilt[OF refl, symmetric]
    by (simp add: build_flowtable_def devs flowtable_new_def ft_hw_offload_def ft_counter_def Let_def)
qed

lemma flowtable_devs_read:
  assumes "list_all (call_fits e) (map (\<lambda>dev. nft_nest 1 [attr_str 1 dev]) devs)" "list_all nft_name_ok devs"
  shows "flowtable_devs e (wire_calls e (map (\<lambda>dev. nft_nest 1 [attr_str 1 dev]) devs)) = devs"
proof -
  let ?dev = "\<lambda>dev. nft_nest 1 [attr_str 1 dev]"
  have one: "List.map_filter (\<lambda>(k, d). if k = 1 then nft_text d else None) (attrs_of e (wire_call e (attr_str 1 dev))) = [dev]"
    if "nft_name_ok dev" for dev
  proof -
    have "list_all (call_fits e) [attr_str 1 dev]" "list_all is_attr [attr_str 1 dev]" using that by simp_all
    note attrs_of_elems[OF this]
    then show ?thesis using that by (simp add: type_mask nft_text_back map_filter_simps)
  qed
  have "list_all is_attr (map ?dev devs)" by (induction devs) simp_all
  note attrs = attrs_of_elems[OF assms(1) this]
  show ?thesis
    unfolding flowtable_devs_def attrs using assms(2)
    by (induction devs) (simp_all add: one del: wire_call.simps)
qed

lemma flowtable_read:
  assumes "list_all (call_fits e) (flowtable_calls ft)" "nft_name_ok (ft_table ft)" "nft_name_ok (ft_name ft)"
    and "list_all nft_name_ok (ft_devs ft)"
  shows "read_object e 22 f (wire_calls e (flowtable_calls ft)) =
    Some (FlowtableObject (ft_table ft) (ft_name ft) (ft_priority ft) (ft_devs ft) (ft_flags ft))"
proof -
  let ?devs = "map (\<lambda>dev. nft_nest 1 [attr_str 1 dev]) (ft_devs ft)"
  let ?hook = "[be32 1 (0 :: u32), be32 2 (ft_priority ft)] @ (if ft_devs ft = [] then [] else [nft_nest 3 ?devs])"
  have attrs: "list_all is_attr (flowtable_calls ft)" by (simp add: flowtable_calls_def)
  have hook: "list_all (call_fits e) ?hook" "list_all is_attr ?hook" using assms(1) by (simp_all add: flowtable_calls_def)
  have devs: "list_all (call_fits e) ?devs" using assms(1) by (cases "ft_devs ft = []") (simp_all add: flowtable_calls_def)
  have read: "fold (\<lambda>(k, d). flowtable_hook_attr e k d) (attrs_of e (wire_calls e ?hook)) i =
      i\<lparr>ft_priority := ft_priority ft, ft_devs := ft_devs i @ ft_devs ft\<rparr>" for i
    unfolding fold_calls[OF hook]
    using flowtable_devs_read[OF devs assms(4)]
    by (cases "ft_devs ft = []") (simp_all add: flowtable_hook_attr_def type_mask ne_word_bytes)
  have "ft_name ft \<noteq> []" using assms(3) by (simp add: nft_name_ok_def)
  then have "parse_flowtable e (wire_calls e (flowtable_calls ft)) f =
    Some ((flowtable_new f (ft_table ft) (ft_name ft))\<lparr>ft_priority := ft_priority ft, ft_devs := ft_devs ft, ft_flags := ft_flags ft\<rparr>)"
    unfolding parse_flowtable_def attr_scan_calls[OF assms(1) attrs]
    using assms(2,3) read
    by (simp add: flowtable_calls_def type_mask nft_text_back ne_word_bytes flowtable_new_def del: append.simps map_map wire_call.simps)
  then show ?thesis by (simp add: read_object_def flowtable_new_def)
qed

lemma deleted_flowtable_read:
  assumes "nft_name_ok table" "nft_name_ok name"
  shows "read_object e 24 f (wire_calls e [attr_str 1 table, attr_str 2 name]) = Some (FlowtableObject table name 0 [] 0)"
proof -
  let ?cs = "[attr_str 1 table, attr_str 2 name]"
  have fits: "list_all (call_fits e) ?cs" "list_all is_attr ?cs" and "name \<noteq> []" using assms by (auto simp: nft_name_ok_def text_ok_def)
  then show ?thesis
    unfolding read_object_def parse_flowtable_def attr_scan_calls[OF fits]
    using assms by (simp add: type_mask nft_text_back flowtable_new_def)
qed

section \<open>The transaction\<close>

definition reads :: "endian \<Rightarrow> transaction \<Rightarrow> (u8 \<times> u16 \<times> nft_family \<times> nft_object) option list" where
  "reads e tx = map (read_nft_message e) (tx_messages tx)"

lemma reads_push:
  "list_all (call_fits e) cs \<Longrightarrow> read_object e m family (wire_calls e cs) = Some obj \<Longrightarrow>
   reads e (tx_push (nft_message e m flags family cs) tx) = reads e tx @ [Some (m, flags, family, obj)]"
  by (simp add: reads_def tx_push_def read_nft_message)

lemma reads_id [simp]: "reads e (tx\<lparr>tx_set_id := n\<rparr>) = reads e tx"
  by (simp add: reads_def)

lemma reads_fold:
  assumes "list_all p xs" "\<And>x tx. p x \<Longrightarrow> reads e (f x tx) = reads e tx @ [Some (g x)]"
  shows "reads e (fold f xs tx) = reads e tx @ map Some (map g xs)"
  using assms(1) by (induction xs arbitrary: tx) (simp_all add: assms(2))

lemma reads_tables:
  assumes "nft_name_ok name"
  shows "reads e (tx_add_table_with_flags e name family flags tx) = reads e tx @ [Some (0, CREATE_EXCL, family, TableObject name flags)]"
    "reads e (tx_add_table e name family tx) = reads e tx @ [Some (0, CREATE_EXCL, family, TableObject name 0)]"
    "reads e (tx_del_table e name family tx) = reads e tx @ [Some (2, NLM_F_REQUEST, family, TableObject name 0)]"
proof -
  let ?cs = "\<lambda>flags. attr_str 1 name # (if flags \<noteq> 0 then [be32 2 flags] else [])"
  have fits: "list_all (call_fits e) (?cs flags)" for flags using assms by simp
  have read: "read_object e m family (wire_calls e (?cs flags)) = Some (TableObject name flags)" if "m = 0 \<or> m = 2" for m flags
    using table_read[OF assms] that by (simp add: read_object_def)
  have sent: "reads e (tx_push (nft_message e m fl family (?cs flags)) tx) = reads e tx @ [Some (m, fl, family, TableObject name flags)]"
    if "m = 0 \<or> m = 2" for m fl flags
    by (intro reads_push fits read that)
  show "reads e (tx_add_table_with_flags e name family flags tx) = reads e tx @ [Some (0, CREATE_EXCL, family, TableObject name flags)]"
    unfolding tx_add_table_with_flags_def by (rule sent) simp
  show "reads e (tx_add_table e name family tx) = reads e tx @ [Some (0, CREATE_EXCL, family, TableObject name 0)]"
    unfolding tx_add_table_def using sent[of 0 CREATE_EXCL 0] by simp
  show "reads e (tx_del_table e name family tx) = reads e tx @ [Some (2, NLM_F_REQUEST, family, TableObject name 0)]"
    unfolding tx_del_table_def using sent[of 2 NLM_F_REQUEST 0] by simp
qed

lemma reads_sets:
  assumes "nft_name_ok table" "nft_name_ok name"
  shows "reads e (tx_del_set e table name family tx) = reads e tx @ [Some (11, NLM_F_REQUEST, family, SetObject table name 0 0 0)]"
    "name = ds_name s \<Longrightarrow> reads e (tx_add_set e (build_set table family s) tx) = reads e tx @
      [Some (9, CREATE_EXCL, family, SetObject table (ds_name s) (ds_flags s) (key_type_id (ds_key_type s)) (of_nat (key_len (ds_key_type s))))]"
    "reads e (tx_del_chain e table name family tx) = reads e tx @ [Some (5, NLM_F_REQUEST, family, ChainObject (named_chain table family name))]"
    "reads e (tx_del_flowtable e family table name tx) = reads e tx @ [Some (24, NLM_F_REQUEST, family, FlowtableObject table name 0 [] 0)]"
    "list_all (call_fits e) (element_calls table name xs) \<Longrightarrow>
      reads e (tx_add_set_elements e table name family xs tx) = reads e tx @ [Some (12, NLM_F_REQUEST OR 0x400, family, ElementsObject table name xs)]"
    "list_all (call_fits e) (element_calls table name xs) \<Longrightarrow>
      reads e (tx_del_set_elements e table name family xs tx) = reads e tx @ [Some (14, NLM_F_REQUEST, family, ElementsObject table name xs)]"
proof -
  have two: "list_all (call_fits e) [attr_str 1 table, attr_str k name]" for k using assms by simp
  show "reads e (tx_del_set e table name family tx) = reads e tx @ [Some (11, NLM_F_REQUEST, family, SetObject table name 0 0 0)]"
    unfolding tx_del_set_def by (intro reads_push two) (simp add: read_object_def set_read(1)[OF assms, simplified])
  show "reads e (tx_del_chain e table name family tx) = reads e tx @ [Some (5, NLM_F_REQUEST, family, ChainObject (named_chain table family name))]"
    unfolding tx_del_chain_def by (intro reads_push two) (simp add: read_object_def named_chain_read[OF assms, simplified])
  show "reads e (tx_del_flowtable e family table name tx) = reads e tx @ [Some (24, NLM_F_REQUEST, family, FlowtableObject table name 0 [] 0)]"
    unfolding tx_del_flowtable_def by (intro reads_push two deleted_flowtable_read[OF assms])
  show "reads e (tx_add_set e (build_set table family s) tx) = reads e tx @
      [Some (9, CREATE_EXCL, family, SetObject table (ds_name s) (ds_flags s) (key_type_id (ds_key_type s)) (of_nat (key_len (ds_key_type s))))]"
    if "name = ds_name s"
    unfolding tx_add_set_def build_set_def nft_set.simps
    by (subst reads_push)
      (use assms that in \<open>simp_all add: read_object_def set_read(2)[OF assms[unfolded that], simplified]\<close>)
  show "reads e (tx_add_set_elements e table name family xs tx) = reads e tx @ [Some (12, NLM_F_REQUEST OR 0x400, family, ElementsObject table name xs)]"
    "reads e (tx_del_set_elements e table name family xs tx) = reads e tx @ [Some (14, NLM_F_REQUEST, family, ElementsObject table name xs)]"
    if "list_all (call_fits e) (element_calls table name xs)"
    unfolding tx_add_set_elements_def tx_del_set_elements_def
    by (intro reads_push that, simp add: read_object_def elements_read[OF assms that])+
qed

lemma reads_chains:
  assumes "list_all (\<lambda>(table, family, c). chain_ok table c) cs"
  shows "\<exists>tx'. add_chains e cs tx = Inr tx' \<and> reads e tx' = reads e tx @
    map Some (map (\<lambda>(table, family, c). (3, CREATE_EXCL, family, ChainObject (declared_chain_info table family c))) cs)"
  using assms
proof (induction cs arbitrary: tx)
  case (Cons x cs)
  obtain table family c where x: "x = (table, family, c)" by (metis surj_pair)
  then have ok: "chain_ok table c" using Cons.prems by simp
  obtain b where b: "build_chain table family c = Inr b" using chain_builds[OF ok] by blast
  note read = chain_read[OF b ok]
  have "reads e (tx_add_chain e b tx) = reads e tx @ [Some (3, CREATE_EXCL, family, ChainObject (declared_chain_info table family c))]"
    unfolding tx_add_chain_def read(3) by (intro reads_push read(2)) (simp add: read_object_def read(1))
  then show ?case using Cons.IH[of "tx_add_chain e b tx"] Cons.prems x b by (auto simp: dumped_def)
qed simp

lemma reads_rules:
  "nft_name_ok table \<and> nft_name_ok ch \<Longrightarrow> reads e (tx_del_rule e table ch family handle tx) =
     reads e tx @ [Some (8, NLM_F_REQUEST, family, RuleObject table ch handle None [] None)]"
  "rule_ok e (keyed_body r) \<Longrightarrow> reads e (tx_add_rule e (keyed_body r) tx) =
     reads e tx @ [Some (6, NLM_F_REQUEST OR 0x400 OR 0x800, ru_family (dr_body r), sent_rule e r 0 (ru_position (dr_body r)))]"
  "rule_ok e (keyed_body r) \<Longrightarrow> reads e (tx_replace_rule e (keyed_body r) handle tx) =
     reads e tx @ [Some (6, NLM_F_REQUEST OR 0x100, ru_family (dr_body r), sent_rule e r handle None)]"
  unfolding tx_del_rule_def tx_add_rule_def tx_replace_rule_def keyed_body_sent
  by (intro reads_push deleted_rule_read added_rule_read replaced_rule_read[OF _ refl]; simp)+

lemma reads_flowtable:
  "nft_name_ok (df_table f) \<and> nft_name_ok (df_name f) \<and> list_all nft_name_ok (df_devs f) \<and>
     list_all (call_fits e) (flowtable_calls (build_flowtable f)) \<Longrightarrow>
   reads e (tx_add_flowtable e (build_flowtable f) tx) = reads e tx @ [Some (22, CREATE_EXCL, df_family f,
     FlowtableObject (df_table f) (df_name f) (df_priority f) (df_devs f) (df_flags f AND 3))]"
  unfolding tx_add_flowtable_def built_flowtable
  by (rule reads_push) (simp_all add: flowtable_read built_flowtable)

text \<open>The passes of \<open>apply\<close>, each over its list.\<close>

lemma reads_delete_passes:
  "list_all (\<lambda>(table, family, ch, handle). nft_name_ok table \<and> nft_name_ok ch) xs \<Longrightarrow>
   reads e (fold (\<lambda>(table, family, ch, handle). tx_del_rule e table ch family handle) xs tx) = reads e tx @ map Some
     (map (\<lambda>(table, family, ch, handle). (8, NLM_F_REQUEST, family, RuleObject table ch handle None [] None)) xs)"
  "list_all (\<lambda>(table, family, s, els). nft_name_ok table \<and> nft_name_ok s \<and> list_all (call_fits e) (element_calls table s els)) ys \<Longrightarrow>
   reads e (fold (\<lambda>(table, family, s, els). tx_del_set_elements e table s family els) ys tx) = reads e tx @ map Some
     (map (\<lambda>(table, family, s, els). (14, NLM_F_REQUEST, family, ElementsObject table s els)) ys)"
  "list_all (\<lambda>(table, family, name). nft_name_ok table \<and> nft_name_ok name) zs \<Longrightarrow>
   reads e (fold (\<lambda>(table, family, name). tx_del_set e table name family) zs tx) = reads e tx @ map Some
     (map (\<lambda>(table, family, name). (11, NLM_F_REQUEST, family, SetObject table name 0 0 0)) zs)"
  "list_all (\<lambda>(table, family, name). nft_name_ok table \<and> nft_name_ok name) zs \<Longrightarrow>
   reads e (fold (\<lambda>(table, family, name). tx_del_chain e table name family) zs tx) = reads e tx @ map Some
     (map (\<lambda>(table, family, name). (5, NLM_F_REQUEST, family, ChainObject (named_chain table family name))) zs)"
  "list_all (\<lambda>(family, table, name). nft_name_ok table \<and> nft_name_ok name) fts \<Longrightarrow>
   reads e (fold (\<lambda>(family, table, name). tx_del_flowtable e family table name) fts tx) = reads e tx @ map Some
     (map (\<lambda>(family, table, name). (24, NLM_F_REQUEST, family, FlowtableObject table name 0 [] 0)) fts)"
  "list_all (\<lambda>(family, name). nft_name_ok name) ts \<Longrightarrow>
   reads e (fold (\<lambda>(family, name). tx_del_table e name family) ts tx) = reads e tx @ map Some
     (map (\<lambda>(family, name). (2, NLM_F_REQUEST, family, TableObject name 0)) ts)"
  by (erule reads_fold; clarsimp simp: reads_rules reads_sets reads_tables)+

lemma reads_add_passes:
  "list_all (\<lambda>t. nft_name_ok (dt_name t)) ts \<Longrightarrow>
   reads e (fold (\<lambda>t. if dt_flags t \<noteq> 0 then tx_add_table_with_flags e (dt_name t) (dt_family t) (dt_flags t)
       else tx_add_table e (dt_name t) (dt_family t)) ts tx) = reads e tx @ map Some
     (map (\<lambda>t. (0, CREATE_EXCL, dt_family t, TableObject (dt_name t) (dt_flags t))) ts)"
  "list_all (\<lambda>(family, name, flags). nft_name_ok name) ms \<Longrightarrow>
   reads e (fold (\<lambda>(family, name, flags). tx_add_table_with_flags e name family flags) ms tx) = reads e tx @ map Some
     (map (\<lambda>(family, name, flags). (0, CREATE_EXCL, family, TableObject name flags)) ms)"
  "list_all (\<lambda>(table, family, s). nft_name_ok table \<and> nft_name_ok (ds_name s)) ss \<Longrightarrow>
   reads e (fold (\<lambda>(table, family, s). tx_add_set e (build_set table family s)) ss tx) = reads e tx @ map Some
     (map (\<lambda>(table, family, s). (9, CREATE_EXCL, family, SetObject table (ds_name s) (ds_flags s)
       (key_type_id (ds_key_type s)) (of_nat (key_len (ds_key_type s))))) ss)"
  "list_all (\<lambda>(table, family, s, els). nft_name_ok table \<and> nft_name_ok s \<and> list_all (call_fits e) (element_calls table s els)) ys \<Longrightarrow>
   reads e (fold (\<lambda>(table, family, s, els). tx_add_set_elements e table s family els) ys tx) = reads e tx @ map Some
     (map (\<lambda>(table, family, s, els). (12, NLM_F_REQUEST OR 0x400, family, ElementsObject table s els)) ys)"
  "list_all (\<lambda>r. rule_ok e (keyed_body r)) rs \<Longrightarrow>
   reads e (fold (\<lambda>r. tx_add_rule e (keyed_body r)) rs tx) = reads e tx @ map Some
     (map (\<lambda>r. (6, NLM_F_REQUEST OR 0x400 OR 0x800, ru_family (dr_body r), sent_rule e r 0 (ru_position (dr_body r)))) rs)"
  "list_all (\<lambda>(table, family, ch, handle, r). rule_ok e (keyed_body r)) qs \<Longrightarrow>
   reads e (fold (\<lambda>(table, family, ch, handle, r). tx_replace_rule e (keyed_body r) handle) qs tx) = reads e tx @ map Some
     (map (\<lambda>(table, family, ch, handle, r). (6, NLM_F_REQUEST OR 0x100, ru_family (dr_body r), sent_rule e r handle None)) qs)"
  "list_all (\<lambda>f. nft_name_ok (df_table f) \<and> nft_name_ok (df_name f) \<and> list_all nft_name_ok (df_devs f) \<and>
     list_all (call_fits e) (flowtable_calls (build_flowtable f))) fts \<Longrightarrow>
   reads e (fold (\<lambda>f. tx_add_flowtable e (build_flowtable f)) fts tx) = reads e tx @ map Some
     (map (\<lambda>f. (22, CREATE_EXCL, df_family f,
       FlowtableObject (df_table f) (df_name f) (df_priority f) (df_devs f) (df_flags f AND 3))) fts)"
  by (erule reads_fold; clarsimp simp: reads_rules reads_sets reads_tables reads_flowtable)+

text \<open>
  C24. The transaction of a diff, read back from its bytes.  It has one message for every change the diff counts, in the
  order \<open>apply.rs\<close> lists: the removals - rules by their handles, elements, sets, chains, flowtables, tables - before the
  tables, sets, elements, chains, rules and flowtables that are added or changed, and within a kind in the order of the
  diff.  Each message carries its operation, flags, family and object: the table and chain it is about, the handle of a
  deleted or replaced rule, and flags, key type, elements, hook, policy, expressions, comment and devices as declared (not
  read: the number that a set has within its transaction).
\<close>

theorem nft_apply_order:
  assumes "removals_ok e d" "additions_ok e d"
  shows "\<exists>tx. apply_transaction e d = Inr tx \<and>
    map (read_nft_message e) (tx_messages tx) = map Some (removals d @ additions e d) \<and>
    length (tx_messages tx) = nft_change_count d"
proof -
  note del = reads_delete_passes[where e = e] and add = reads_add_passes[where e = e]
  define tx1 where "tx1 = apply_tables_and_sets e d (apply_deletes e d tx_new)"
  have chains: "list_all (\<lambda>(table, family, c). chain_ok table c) (chains_to_add d @ chains_to_modify d)"
    using assms(2) by (simp only: additions_ok_def)
  obtain tx2 where tx2: "add_chains e (chains_to_add d @ chains_to_modify d) tx1 = Inr tx2"
    "reads e tx2 = reads e tx1 @ map Some (map (\<lambda>(table, family, c).
       (3, CREATE_EXCL, family, ChainObject (declared_chain_info table family c))) (chains_to_add d @ chains_to_modify d))"
    using reads_chains[OF chains] by blast
  have "reads e tx_new = []" by (simp add: reads_def tx_new_def)
  then have "reads e (apply_deletes e d tx_new) = map Some (removals d)"
    using assms(1) by (simp add: apply_deletes_def removals_ok_def removals_def del Let_def)
  moreover have "reads e (apply_rules_and_flowtables e d tx2) = map Some (removals d @ additions e d)"
    if "reads e (apply_deletes e d tx_new) = map Some (removals d)"
    using assms(2) tx2(2) that unfolding tx1_def
    by (simp add: apply_rules_and_flowtables_def apply_tables_and_sets_def additions_ok_def additions_def add Let_def)
  ultimately have "reads e (apply_rules_and_flowtables e d tx2) = map Some (removals d @ additions e d)" by blast
  note read = this[unfolded reads_def]
  moreover have "length (tx_messages (apply_rules_and_flowtables e d tx2)) = nft_change_count d"
    using arg_cong[OF read, of length] by (simp add: removals_def additions_def nft_change_count_def)
  moreover have "apply_transaction e d = Inr (apply_rules_and_flowtables e d tx2)"
    using tx2(1) by (simp add: apply_transaction_def tx1_def dumped_def)
  ultimately show ?thesis by blast
qed

theorem nft_apply_order_witness:
  "\<forall>e. \<exists>tx. apply_transaction e (no_changes
      \<lparr>rules_to_add := [ssh_rule ''x''], rules_to_delete := [(''fw'', Inet, ''in'', 4)], chains_to_add := [(''fw'', Inet, bare_chain)]\<rparr>) = Inr tx \<and>
    map (read_nft_message e) (tx_messages tx) =
      [Some (8, NLM_F_REQUEST, Inet, RuleObject ''fw'' ''in'' 4 None [] None),
       Some (3, CREATE_EXCL, Inet, ChainObject (named_chain ''fw'' Inet ''in'')),
       Some (6, NLM_F_REQUEST OR 0x400 OR 0x800, Inet, RuleObject ''fw'' ''in'' 0 None
         (lower_to_expression_bytes e (ru_exprs (dr_body (ssh_rule ''x'')))) (Some ''x''))]"
proof
  fix e
  let ?d = "no_changes
      \<lparr>rules_to_add := [ssh_rule ''x''], rules_to_delete := [(''fw'', Inet, ''in'', 4)], chains_to_add := [(''fw'', Inet, bare_chain)]\<rparr>"
  have names: "nft_name_ok ''fw''" "nft_name_ok ''in''" by (simp_all add: nft_name_ok_def ascii_text)
  have "rule_ok e (keyed_body (ssh_rule ''x''))" using ssh_rule_ok[of e 1] by simp
  moreover have "chain_ok ''fw'' bare_chain" using names by (simp add: chain_ok_def bare_chain_def declared_chain_new_def)
  ultimately have "removals_ok e ?d" "additions_ok e ?d" using names by (simp_all add: removals_ok_def additions_ok_def no_changes_def)
  from nft_apply_order[OF this]
  show "\<exists>tx. apply_transaction e ?d = Inr tx \<and> map (read_nft_message e) (tx_messages tx) =
      [Some (8, NLM_F_REQUEST, Inet, RuleObject ''fw'' ''in'' 4 None [] None),
       Some (3, CREATE_EXCL, Inet, ChainObject (named_chain ''fw'' Inet ''in'')),
       Some (6, NLM_F_REQUEST OR 0x400 OR 0x800, Inet, RuleObject ''fw'' ''in'' 0 None
         (lower_to_expression_bytes e (ru_exprs (dr_body (ssh_rule ''x'')))) (Some ''x''))]"
    by (auto simp: removals_def additions_def no_changes_def sent_rule_def sent_comment_def read_comment_def ssh_rule_sel
        declared_chain_info_def named_chain_def bare_chain_def declared_chain_new_def ssh_rule_def rule_accept_def
        match_tcp_dport_def push_meta_eq_def push_def rule_new_def)
qed

end
