(* ===== verification/Spec2Isabelle.thy ===== *)
theory Spec2Isabelle
  imports Netlink_Parse Sock_Audit Pool Dump_Stream Event_Stream Batch Net_Settle Rtnl_Requests Nft_Requests
begin

text \<open>
  nlink is a Rust library that speaks netlink, the socket protocol of Linux network configuration.
  This development models its core, from the bytes on the wire to the declarative configuration of a
  network, and proves what makes each part correct.  All paths are under \<open>src/crates/nlink/src/\<close>.

  How the program is put together.  A request is built in a \<open>MessageBuilder\<close>
  (\<open>netlink/builder.rs\<close>), sent by a \<open>Connection\<close> (\<open>netlink/connection.rs\<close>) over a socket under a
  fresh sequence number, and its answer - an acknowledgement, an error or a dump of many frames - is
  picked out of the datagrams that follow (\<open>message.rs\<close>, \<open>attr.rs\<close>).  A connection runs its requests
  one at a time, or hands every datagram to a dispatcher that routes it to the request it belongs to.
  Dumps can be streamed, requests batched, connections pooled.  Multicast events come as streams; when
  the kernel drops some, a resync stream puts a fresh dump between two markers, and a reflector keeps a
  store that mirrors the kernel.  On top of that are typed messages and requests for links,
  addresses, routes and qdiscs, and the declarative \<open>NetworkConfig\<close>: it is compared with four dumps,
  the difference is applied as an ordered plan of requests, and the loop that reconciles retries.
  The rule sets of nftables have a declarative configuration of their own, applied as one transaction.

  Theories and code.

  \<^item> \<open>Wire_Prelude\<close>: machine integers as words, their byte images in either byte order, alignment, text
    of numbers; the interfaces \<open>wire_codec\<close> (a fixed-width encoding) and \<open>byte_iter\<close> (an iterator that
    consumes its input).  \<open>Rust_Text\<close>, \<open>Rust_F64\<close>, \<open>Ip_Addr\<close>, \<open>Ip_Text\<close>: what the code uses of \<open>std\<close> -
    UTF-8 text, rounded arithmetic, addresses and their text.
  \<^item> \<open>Netlink_Error\<close> (\<open>netlink/error.rs\<close>): the error type as a datatype, its constructors from \<open>errno\<close>,
    contexts, the classification predicates and the chain of causes.
  \<^item> \<open>Netlink_Attr\<close>, \<open>Netlink_Message\<close>, \<open>Netlink_Builder\<close> (\<open>attr.rs\<close>, \<open>message.rs\<close>, \<open>builder.rs\<close>): the
    wire format.  Headers are records with a codec; \<open>AttrIter\<close> and \<open>MessageIter\<close> are the iterators;
    the builder is a record around its buffer whose nests patch lengths in place.  \<open>Builder_Calls\<close>
    has the calls a configuration makes on a builder as data, the abstract form of a request.
    \<open>Netlink_Parse\<close>, \<open>Attr_Walk\<close> (\<open>parse.rs\<close>, and the loops of \<open>messages/\<close>): the typed parsers over the
    winnow combinators, which are a parameter (\<open>winnow_ok\<close> states their documented behaviour,
    \<open>winnow_ref\<close> is an instance).
  \<^item> \<open>Socket\<close>, \<open>Connection\<close> (\<open>socket.rs\<close>, \<open>connection.rs\<close>): sequence numbers, bounded retries of a
    send, and the request cycles.  What the kernel answers is a list of datagrams; an operation ends
    in a result, waits for ever (\<open>Waiting\<close>) or panics (\<open>Panicked\<close>), so that returning is a claim.
  \<^item> \<open>Dispatcher\<close>, \<open>Dump_Stream\<close>, \<open>Event_Stream\<close>, \<open>Batch\<close>, \<open>Pool\<close> (\<open>dispatcher.rs\<close>, \<open>dump_stream.rs\<close>,
    \<open>stream.rs\<close>, \<open>batch.rs\<close>, \<open>pool/\<close>): channels keyed by sequence number, streams as states with a
    \<open>poll_next\<close>, chunks of a batch, the guards of a pool.  \<open>Poll_Stream\<close> is the interface of a stream
    polled to completion, interpreted by every stream of the library.
  \<^item> \<open>Resync\<close>, \<open>Resync_Ext\<close>, \<open>Reflector\<close> (\<open>resync.rs\<close>, \<open>resync_ext.rs\<close>, \<open>reflector.rs\<close>): the state
    machine that recovers from overflow, its adapters, and the store (interface \<open>keyed_store\<close>).
  \<^item> \<open>Filter_Expr\<close>, \<open>Sock_Bytecode\<close>, \<open>Sock_Kernel\<close>, \<open>Sock_Audit\<close> (\<open>sockdiag/expr.rs\<close>, \<open>bytecode.rs\<close>):
    socket filters, their compiler to \<open>INET_DIAG_REQ_BYTECODE\<close>, the machine that runs the programs, and
    the audit of their jumps.
  \<^item> \<open>Rtnl_Headers\<close> (\<open>types/\<close>): seven fixed headers.  \<open>Rtnl_Messages\<close>, \<open>Link_Message\<close>, \<open>Tc_Message\<close>
    (\<open>messages/\<close>): parsers and writers of the typed messages.  \<open>Rtnl_Config\<close>, \<open>Mpls_Route\<close>,
    \<open>Srv6_Local\<close>, \<open>Link_Config\<close>, \<open>Link_Tunnels\<close>, \<open>Link_Kinds\<close> (\<open>addr.rs\<close>, \<open>route.rs\<close>, \<open>mpls.rs\<close>,
    \<open>srv6.rs\<close>, \<open>link.rs\<close>): what callers configure and the requests it becomes; \<open>Rtnl_Requests\<close> reads
    the requests for addresses and routes back whole.  \<open>Psched\<close>, \<open>Tc_Qdisc\<close> (\<open>psched.rs\<close>, \<open>tc.rs\<close>,
    \<open>tc_options.rs\<close>): the scheduler's clock, rate tables and the qdiscs with the parsers of their options.
  \<^item> \<open>Net_Config\<close>, \<open>Net_Diff\<close> (\<open>config/types.rs\<close>, \<open>config/diff.rs\<close>): declarations and the differ.
    \<open>Route_Conn\<close> (\<open>connection.rs\<close> and the methods of \<open>Connection<Route>\<close> elsewhere): operations that
    pass the connection and the kernel behind it as a state, \<open>op_bind\<close> being \<open>?\<close>.  \<open>Net_Apply\<close>
    (\<open>config/apply.rs\<close>, \<open>config/mod.rs\<close>): the phases of an application and the loop that reconciles.
    \<open>Net_Diff_Spec\<close>, \<open>Net_Diff_Safety\<close>, \<open>Net_Apply_Spec\<close> and \<open>Net_Settle\<close> hold what they promise.
  \<^item> \<open>Nft_Expr\<close>, \<open>Nft_Rule\<close> (\<open>nftables/expr.rs\<close>, \<open>types.rs\<close>, \<open>userdata.rs\<close>): the expressions of a rule with
    their encoding and decoding, the builder of rules, chains, sets and flowtables, the comment that
    carries a rule's key.  \<open>Nft_Tlv\<close>, \<open>Nft_Config\<close> (\<open>nftables/config/\<close>): the normaliser of nested
    attributes, the declarations and the differ, a diff being a record of lists that its passes join.
    \<open>Nft_Tx\<close>, \<open>Nft_Apply\<close> (\<open>nftables/connection.rs\<close>, \<open>config/apply.rs\<close>): the messages of a transaction,
    the parsers of the dumps, the passes of an application and the commit of a batch, which owns a
    window of sequence numbers.  \<open>Nft_Diff_Spec\<close>, \<open>Nft_Settle\<close> and \<open>Nft_Requests\<close> hold what they promise.

  What the lemmas show.

  \<^item> Wire format: a built message is the tree of its calls serialised, and a receiver that walks it
    gets the calls back; frames and attributes round-trip; no buffer, however malformed, makes an
    iterator read past its end or loop.
  \<^item> Requests: a completed dump is the list of its payload frames, an interrupted one is reported; the
    dispatcher answers a request as the plain cycle does, except that the plain cycle also returns the
    error of an overflow; the streaming dump yields the rows of the collected one and does not report its
    interruption; a fatal error reaches every waiting request; a batch sends each operation once, in
    order, and reports each outcome.
  \<^item> Streams and stores: what a resync stream delivers refines the kernel's events, its dumps are
    bracketed, and a reflector's store equals the kernel's objects and is replaced atomically; a pool
    never loses or duplicates a connection.
  \<^item> Filters: compiled programs accept a superset of the expression - exactly it where the kernel can
    express it - and pass the audit.
  \<^item> Typed requests: addresses, routes with their encapsulations, links of all 27 kinds, bonds and
    qdiscs are read back by the library's own parsers as they were configured, and what those parsers
    skip - the metric of an address; metrics, mark, next-hop group and encapsulation of a route - under
    its attribute number by the attribute iterator.
  \<^item> Configuration: the diff is empty exactly when the kernel is \<open>satisfied\<close>, the differ's comparison
    written per item; that is weaker than that the kernel shows what is declared (\<open>shown\<close>), with which it
    coincides where the blind spots of the comparison do not matter (\<open>sighted\<close>: kinds, MAC addresses and
    route types agree, and the devices exist).  Links come in
    the order of their dependencies; a purge removes exactly what it may; applying accounts for every
    step of one ordered plan and stops at the first error, and reconciling is bounded.  Where a
    request does not settle the difference it was made for - gateways of the other family, MAC
    addresses, purged static routes, \<open>clsact\<close> -, that is proved of the code as it is.
  \<^item> Rule sets: the diff of nftables is empty exactly when \<open>nft_satisfied\<close> holds, its comparison written per
    item; a declared rule without a key always leaves a difference, and where all rules have keys that no
    other rule has and the sets agree in type and flags the diff is empty exactly when the dumps hold the declarations
    (\<open>nft_held\<close>).  The differ removes rules only under a key of its own.  Expressions and messages are read
    back as written, which tells when an added rule or chain settles its difference; the transaction of a diff,
    read back message by message, carries every change in the order that \<open>apply.rs\<close> lists - in which
    rules stand before the flowtables they may name -, and a commit ends as the first decisive frame of its
    window says.  Where the window wraps, or a declared rule lacks a key, the code's behaviour is proved
    as it is.

  Bounds and fuel.  \<open>iter_fuel\<close> counts the items of a buffer and gets its length: \<open>byte_iter\<close> proves
  that any more fuel gives the same list, from the progress of the iterator.  The other loops are
  terminating functions, with the length of the input, the budget of retries or the number of
  unplaced links as measure.  Length fields of 16 and 32 bits, sequence numbers, ports, rates and
  ticks are words and wrap or saturate as the code has it; where a theorem needs that a payload fits
  its length field, \<open>call_fits\<close> or \<open>opt_small\<close> says so.  The doubling of the reconcile loop's sleep
  saturates at \<open>DURATION_MAX\<close>.

  Parameters.  The kernel (the results of sends and the datagrams received, \<open>ev_kernel\<close>), the
  operating system's error texts, the winnow combinators, the dumps the differ of nftables reads and the
  contents of \<open>/proc/net/psched\<close> are arguments of the definitions; hash maps are maps or association
  lists, their order never observed except where the code exposes it (\<open>hash_order\<close>).  The debug
  assertions of nftables are left out, as in a release build.  A datagram is received whole (\<open>Socket\<close> has
  what \<open>recv_msg\<close> makes of one above 32 KiB); the queues of the dispatcher are unbounded, where the broadcast
  channels of \<open>dispatcher.rs\<close> hold 1024 events and then lag.

  Not modelled: descriptors, namespaces, the async runtime and its timers (system calls; timeouts cut
  an operation short at a point where it waits); neighbours, rules, next hops, the forwarding
  database and bridge VLANs, traffic control classes, filters and actions, whose attribute tables
  repeat the modelled patterns; of nftables the requests for dumps, the single imperative requests, the
  events and their resync; the generic netlink families and the macros that derive them; xfrm, netfilter,
  audit and diagnostics; the facade, output, lab and tun code and the command line tools, which are I/O
  and text.
\<close>

end
